(* ===== verification/Prelude.thy ===== *)
theory Prelude
  imports
    Main
    "HOL-Library.Char_ord"
    "HOL-Library.List_Lexorder"
    "HOL-Library.Product_Lexorder"
    "HOL-Library.Multiset"
    "HOL-Library.Word"
begin

text \<open>
  What every other theory of the development shares: the collections its automation uses, the
  idioms of the Go sources (the loop that returns its first error, the lookup of a record by a
  computed key, the in-place update of a slice element, the map that removes duplicates before a
  sort) with the lemmas that make them usable, and the interfaces stated as locales: a canonical
  form that a validator accepts, and a self-delimiting frame.
\<close>

section \<open>Collections\<close>

named_theorems go_defs \<open>definitions a proof unfolds to compute with a component\<close>
named_theorems keyed \<open>facts about tables addressed by a computed key\<close>

section \<open>The loop that returns the first error\<close>

text \<open>
  \<open>for _, x := range xs { if err := f(x); err != nil { return err } }\<close>: the error of the
  first element that has one.
\<close>

fun first_error :: "('a \<Rightarrow> 'e option) \<Rightarrow> 'a list \<Rightarrow> 'e option" where
  "first_error f [] = None"
| "first_error f (x # xs) = (case f x of Some e \<Rightarrow> Some e | None \<Rightarrow> first_error f xs)"

lemma first_error_None_iff: "first_error f xs = None \<longleftrightarrow> (\<forall>x \<in> set xs. f x = None)"
  by (induction xs) (auto split: option.splits)

lemma first_error_SomeD: "first_error f xs = Some e \<Longrightarrow> \<exists>x \<in> set xs. f x = Some e"
  by (induction xs) (auto split: option.splits)

lemma first_error_append:
  "first_error f (xs @ ys) = (case first_error f xs of Some e \<Rightarrow> Some e | None \<Rightarrow> first_error f ys)"
  by (induction xs) (auto split: option.splits)

text \<open>
  A sequence of checks, each an early return: \<open>fail_if c e\<close> is \<open>if c { return e }\<close>, and
  \<open>checks\<close> runs them in order.
\<close>

definition fail_if :: "bool \<Rightarrow> 'e \<Rightarrow> 'e option" where
  "fail_if c e = (if c then Some e else None)"

lemma fail_if_simps [simp]:
  "(fail_if c e = None) = (\<not> c)" "(fail_if c e = Some e') = (c \<and> e = e')"
  "fail_if True e = Some e" "fail_if False e = None"
  by (auto simp: fail_if_def)

fun checks :: "'e option list \<Rightarrow> 'e option" where
  "checks [] = None"
| "checks (c # cs) = (case c of Some e \<Rightarrow> Some e | None \<Rightarrow> checks cs)"

lemma checks_Cons_None [simp]: "(checks (c # cs) = None) = (c = None \<and> checks cs = None)"
  by (simp split: option.splits)

lemma checks_Cons_SomeD:
  "checks (c # cs) = Some e \<Longrightarrow> c = Some e \<or> (c = None \<and> checks cs = Some e)"
  by (simp split: option.splits)

declare checks.simps(2) [simp del]

section \<open>Loops that reject a repeated key\<close>

text \<open>
  \<open>if _, exists := seen[k]; exists { return error }; seen[k] = struct{}{}\<close> over a slice.
\<close>

fun has_repeat :: "'k list \<Rightarrow> bool" where
  "has_repeat [] = False"
| "has_repeat (k # ks) = (k \<in> set ks \<or> has_repeat ks)"

lemma has_repeat_iff [simp]: "has_repeat ks \<longleftrightarrow> \<not> distinct ks"
  by (induction ks) auto

section \<open>Tables addressed by a computed key\<close>

text \<open>
  \<open>find_by key k rs\<close> is the loop that returns a pointer to the first element whose key is
  \<open>k\<close>; \<open>upd_by key k new f rs\<close> finds that element, or appends the new one, and mutates it
  through the pointer with \<open>f\<close>.
\<close>

fun find_by :: "('r \<Rightarrow> 'k) \<Rightarrow> 'k \<Rightarrow> 'r list \<Rightarrow> 'r option" where
  "find_by key k [] = None"
| "find_by key k (r # rs) = (if key r = k then Some r else find_by key k rs)"

fun upd_by :: "('r \<Rightarrow> 'k) \<Rightarrow> 'k \<Rightarrow> 'r \<Rightarrow> ('r \<Rightarrow> 'r) \<Rightarrow> 'r list \<Rightarrow> 'r list" where
  "upd_by key k new f [] = [f new]"
| "upd_by key k new f (r # rs) = (if key r = k then f r # rs else r # upd_by key k new f rs)"

lemma find_by_SomeD [keyed]: "find_by key k rs = Some r \<Longrightarrow> r \<in> set rs \<and> key r = k"
  by (induction rs) (auto split: if_splits)

lemma find_by_None_iff [keyed]: "find_by key k rs = None \<longleftrightarrow> k \<notin> key ` set rs"
  by (induction rs) auto

lemma find_by_mem:
  "distinct (map key rs) \<Longrightarrow> r \<in> set rs \<Longrightarrow> find_by key (key r) rs = Some r"
  by (induction rs) (auto simp: image_iff)

lemma find_by_upd_by:
  assumes "key new = k" and "\<And>r. key (f r) = key r"
  shows "find_by key k' (upd_by key k new f rs) =
    (if k' = k then Some (f (case find_by key k rs of Some r \<Rightarrow> r | None \<Rightarrow> new))
     else find_by key k' rs)"
  using assms by (induction rs) auto

lemma keys_upd_by:
  assumes "key new = k" and "\<And>r. key (f r) = key r"
  shows "map key (upd_by key k new f rs) =
    (if k \<in> key ` set rs then map key rs else map key rs @ [k])"
  using assms by (induction rs) auto

lemma distinct_upd_by:
  assumes "key new = k" and "\<And>r. key (f r) = key r" and "distinct (map key rs)"
  shows "distinct (map key (upd_by key k new f rs))"
  using assms by (simp add: keys_upd_by)

lemma set_upd_by:
  assumes "distinct (map key rs)" and "key new = k" and "\<And>r. key (f r) = key r"
  shows "set (upd_by key k new f rs) =
    insert (f (case find_by key k rs of Some r \<Rightarrow> r | None \<Rightarrow> new)) {r \<in> set rs. key r \<noteq> k}"
  using assms by (induction rs) (auto simp: image_iff)

section \<open>Sorting a collection with distinct keys\<close>

text \<open>
  \<open>sort.Slice\<close> is not stable, and a Go map is iterated in any order; both are deterministic
  when the keys the comparison reads are distinct, because a sorted list is determined by its
  elements then.
\<close>

lemma sort_key_perm:
  fixes key :: "'a \<Rightarrow> 'k::linorder"
  assumes "mset xs = mset ys" and "inj_on key (set xs)"
  shows "sort_key key xs = sort_key key ys"
proof -
  have "set ys = set xs" using assms(1) by (metis set_mset_mset)
  then show ?thesis
    using assms properties_for_sort_key [where f = key and xs = ys and ys = "sort_key key xs"]
    by (intro sort_key_inj_key_eq) (auto simp: assms)
qed

lemma sort_key_idem: "sort_key f (sort_key f xs) = sort_key f xs"
  by (rule sort_key_id_if_sorted) simp

lemma distinct_map_sort_key [simp]: "distinct (map g (sort_key f xs)) = distinct (map g xs)"
proof -
  have "mset (map g (sort_key f xs)) = mset (map g xs)" by simp
  then show ?thesis by (metis mset_eq_imp_distinct_iff)
qed

section \<open>Interface: a canonical form that a validator accepts\<close>

text \<open>
  Documents are stored in a canonical order. \<open>canon\<close> reorders and \<open>valid\<close> decides what a
  store accepts; a writer canonicalises before it validates, a reader refuses a document that is
  not its own canonical form.
\<close>

locale canonical_form =
  fixes canon :: "'d \<Rightarrow> 'd"
    and valid :: "'d \<Rightarrow> bool"
  assumes canon_idem: "canon (canon d) = canon d"
    and canon_valid: "valid (canon d) = valid d"
begin

lemma canonical_fixpoint: "(\<exists>d. d' = canon d) \<longleftrightarrow> canon d' = d'"
  using canon_idem by metis

lemma write_read:
  assumes "valid d"
  shows "valid (canon d) \<and> canon (canon d) = canon d"
  using assms canon_idem canon_valid by simp

end

section \<open>Interface: a self-delimiting frame\<close>

text \<open>
  Fingerprints hash a sequence of framed strings. A frame is self-delimiting when what follows
  it never changes where it ends; then the concatenation of the frames determines the strings.
\<close>

locale framing =
  fixes frame :: "'a \<Rightarrow> 'b list"
    and ok :: "'a \<Rightarrow> bool"
  assumes frame_split: "ok a \<Longrightarrow> ok b \<Longrightarrow> frame a @ x = frame b @ y \<Longrightarrow> a = b \<and> x = y"
    and frame_nonempty: "frame a \<noteq> []"
begin

lemma frames_inj:
  assumes "concat (map frame as) = concat (map frame bs)"
    and "\<forall>a \<in> set as. ok a" and "\<forall>b \<in> set bs. ok b"
  shows "as = bs"
  using assms
proof (induction as arbitrary: bs)
  case Nil
  then show ?case by (cases bs) (simp_all add: frame_nonempty)
next
  case (Cons a as)
  then obtain b bs' where bs: "bs = b # bs'" by (cases bs) (simp_all add: frame_nonempty)
  with Cons.prems have "a = b \<and> concat (map frame as) = concat (map frame bs')"
    by (intro frame_split) simp_all
  with Cons.IH Cons.prems bs show ?case by simp
qed

end

end
