(* ===== verification/GoStd.thy ===== *)
theory GoStd
  imports Prelude
begin

text \<open>
  What the sources use of Go's language and standard library. A Go \<open>string\<close> is a sequence of
  bytes, as HOL's \<open>string\<close> is here; text functions decode UTF-8 as \<open>unicode/utf8\<close> does.
  Also here: comparison of byte strings, \<open>strings.TrimSpace\<close>, \<open>strings.ToLower\<close>,
  \<open>strings.Contains\<close>, \<open>filepath.Base\<close> on Unix, the number formats that reach a
  fingerprint or a file name, and the part of \<open>time.Time\<close> that the sources observe.
\<close>

section \<open>Bytes\<close>

abbreviation byte :: "char \<Rightarrow> nat" where
  "byte c \<equiv> of_char c"

definition between :: "char \<Rightarrow> char \<Rightarrow> char \<Rightarrow> bool" where
  "between lo hi c \<longleftrightarrow> byte lo \<le> byte c \<and> byte c \<le> byte hi"

definition is_digit :: "char \<Rightarrow> bool" where
  "is_digit c \<longleftrightarrow> between CHR ''0'' CHR ''9'' c"

definition is_lower :: "char \<Rightarrow> bool" where
  "is_lower c \<longleftrightarrow> between CHR ''a'' CHR ''z'' c"

definition is_upper :: "char \<Rightarrow> bool" where
  "is_upper c \<longleftrightarrow> between CHR ''A'' CHR ''Z'' c"

definition is_alnum :: "char \<Rightarrow> bool" where
  "is_alnum c \<longleftrightarrow> is_digit c \<or> is_lower c \<or> is_upper c"

definition ascii_lower :: "char \<Rightarrow> char" where
  "ascii_lower c = (if is_upper c then char_of (byte c + 32) else c)"

lemmas char_class_defs = between_def is_digit_def is_lower_def is_upper_def is_alnum_def

section \<open>UTF-8\<close>

text \<open>
  \<open>utf8.DecodeRuneInString\<close>: the rune and its width; an invalid encoding is the rune
  \<open>U+FFFD\<close> with width 1.
\<close>

abbreviation rune_error :: nat where
  "rune_error \<equiv> 65533"

definition is_cont :: "nat \<Rightarrow> bool" where
  "is_cont b \<longleftrightarrow> 128 \<le> b \<and> b < 192"

fun decode_rune :: "nat list \<Rightarrow> nat \<times> nat" where
  "decode_rune [] = (rune_error, 0)"
| "decode_rune (b0 # bs) =
    (if b0 < 128 then (b0, 1)
     else if 194 \<le> b0 \<and> b0 < 224 then
       (case bs of
          b1 # _ \<Rightarrow> if is_cont b1 then ((b0 - 192) * 64 + (b1 - 128), 2) else (rune_error, 1)
        | _ \<Rightarrow> (rune_error, 1))
     else if 224 \<le> b0 \<and> b0 < 240 then
       (case bs of
          b1 # b2 # _ \<Rightarrow>
            if (if b0 = 224 then 160 else 128) \<le> b1 \<and> b1 < (if b0 = 237 then 160 else 192)
               \<and> is_cont b2
            then ((b0 - 224) * 4096 + (b1 - 128) * 64 + (b2 - 128), 3)
            else (rune_error, 1)
        | _ \<Rightarrow> (rune_error, 1))
     else if 240 \<le> b0 \<and> b0 < 245 then
       (case bs of
          b1 # b2 # b3 # _ \<Rightarrow>
            if (if b0 = 240 then 144 else 128) \<le> b1 \<and> b1 < (if b0 = 244 then 144 else 192)
               \<and> is_cont b2 \<and> is_cont b3
            then ((b0 - 240) * 262144 + (b1 - 128) * 4096 + (b2 - 128) * 64 + (b3 - 128), 4)
            else (rune_error, 1)
        | _ \<Rightarrow> (rune_error, 1))
     else (rune_error, 1))"

lemma decode_rune_width: "bs \<noteq> [] \<Longrightarrow> 0 < snd (decode_rune bs)"
  by (cases bs) (auto split: list.splits)

text \<open>The runes of \<open>for _, r := range s\<close>, each with the width it was decoded from.\<close>

function decode_runes :: "nat list \<Rightarrow> (nat \<times> nat) list" where
  "decode_runes [] = []"
| "decode_runes (b # bs) =
    decode_rune (b # bs) # decode_runes (drop (snd (decode_rune (b # bs))) (b # bs))"
  by pat_completeness auto
termination
proof (relation "measure length")
  fix b :: nat and bs
  have "0 < snd (decode_rune (b # bs))" by (rule decode_rune_width) simp
  then show "(drop (snd (decode_rune (b # bs))) (b # bs), b # bs) \<in> measure length"
    by (simp only: in_measure length_drop) simp
qed simp

definition runes :: "string \<Rightarrow> nat list" where
  "runes s = map fst (decode_runes (map byte s))"

definition utf8_valid :: "string \<Rightarrow> bool" where
  "utf8_valid s \<longleftrightarrow> (rune_error, 1) \<notin> set (decode_runes (map byte s))"

definition is_control :: "nat \<Rightarrow> bool" where
  \<comment> \<open>\<open>unicode.IsControl\<close>: category Cc\<close>
  "is_control r \<longleftrightarrow> r < 32 \<or> (127 \<le> r \<and> r < 160)"

lemma decode_runes_ascii: "\<forall>b \<in> set bs. b < 128 \<Longrightarrow> decode_runes bs = map (\<lambda>b. (b, 1)) bs"
  by (induction bs) auto

lemma utf8_valid_ascii: "\<forall>c \<in> set s. byte c < 128 \<Longrightarrow> utf8_valid s"
  unfolding utf8_valid_def by (subst decode_runes_ascii) auto

text \<open>An ASCII byte is never part of a longer encoding: it is always a rune of its own.\<close>

lemma decode_rune_tail_ascii:
  assumes "i < snd (decode_rune (b0 # bs))" and "0 < i" and "i < length (b0 # bs)"
  shows "128 \<le> (b0 # bs) ! i"
proof -
  have "i = 1 \<or> i = 2 \<or> i = 3"
    using assms(1,2) by (auto split: list.splits if_splits)
  then show ?thesis
    using assms(1) by (elim disjE) (auto simp: is_cont_def split: list.splits if_splits)
qed

lemma decode_runes_ascii_mem:
  "b \<in> set bs \<Longrightarrow> b < 128 \<Longrightarrow> (b, 1) \<in> set (decode_runes bs)"
proof (induction bs rule: decode_runes.induct)
  case (2 b0 bs)
  let ?w = "snd (decode_rune (b0 # bs))"
  from 2(2) obtain i where i: "i < length (b0 # bs)" "(b0 # bs) ! i = b"
    by (auto simp only: in_set_conv_nth)
  show ?case
  proof (cases "i < ?w")
    case True
    with decode_rune_tail_ascii [of i b0 bs] i 2(3) have "i = 0" by fastforce
    with i 2(3) show ?thesis by simp
  next
    case False
    with i have "drop ?w (b0 # bs) ! (i - ?w) = b" and "i - ?w < length (drop ?w (b0 # bs))"
      by (simp_all del: decode_rune.simps)
    then have "b \<in> set (drop ?w (b0 # bs))" by (metis nth_mem)
    with 2 show ?thesis by simp
  qed
qed simp

lemma runes_ascii_mem: "c \<in> set s \<Longrightarrow> byte c < 128 \<Longrightarrow> byte c \<in> set (runes s)"
  unfolding runes_def using decode_runes_ascii_mem [of "byte c" "map byte s"] by force

section \<open>strings.TrimSpace, strings.ToLower, strings.Contains, strings.Join\<close>

text \<open>
  The encodings of the runes with Unicode's White_Space property; trimming removes them from
  both ends. No encoding of a rune is the prefix or suffix of another's.
\<close>

definition space_encodings :: "string list" where
  "space_encodings =
    [[CHR 0x09], [CHR 0x0A], [CHR 0x0B], [CHR 0x0C], [CHR 0x0D], [CHR 0x20],
     [CHR 0xC2, CHR 0x85], [CHR 0xC2, CHR 0xA0], [CHR 0xE1, CHR 0x9A, CHR 0x80],
     [CHR 0xE2, CHR 0x80, CHR 0x80], [CHR 0xE2, CHR 0x80, CHR 0x81],
     [CHR 0xE2, CHR 0x80, CHR 0x82], [CHR 0xE2, CHR 0x80, CHR 0x83],
     [CHR 0xE2, CHR 0x80, CHR 0x84], [CHR 0xE2, CHR 0x80, CHR 0x85],
     [CHR 0xE2, CHR 0x80, CHR 0x86], [CHR 0xE2, CHR 0x80, CHR 0x87],
     [CHR 0xE2, CHR 0x80, CHR 0x88], [CHR 0xE2, CHR 0x80, CHR 0x89],
     [CHR 0xE2, CHR 0x80, CHR 0x8A], [CHR 0xE2, CHR 0x80, CHR 0xA8],
     [CHR 0xE2, CHR 0x80, CHR 0xA9], [CHR 0xE2, CHR 0x80, CHR 0xAF],
     [CHR 0xE2, CHR 0x81, CHR 0x9F], [CHR 0xE3, CHR 0x80, CHR 0x80]]"

fun has_prefix :: "'a list \<Rightarrow> 'a list \<Rightarrow> bool" where
  \<comment> \<open>\<open>has_prefix s p\<close> is \<open>strings.HasPrefix(s, p)\<close>\<close>
  "has_prefix s [] = True"
| "has_prefix [] (p # ps) = False"
| "has_prefix (c # s) (p # ps) = (c = p \<and> has_prefix s ps)"

definition has_suffix :: "'a list \<Rightarrow> 'a list \<Rightarrow> bool" where
  "has_suffix s p = has_prefix (rev s) (rev p)"

lemma has_prefix_iff: "has_prefix s p \<longleftrightarrow> (\<exists>t. s = p @ t)"
  by (induction s p rule: has_prefix.induct) auto

lemma has_prefix_append [simp]: "has_prefix (p @ t) p"
  by (auto simp: has_prefix_iff)

lemma has_suffix_iff: "has_suffix s p \<longleftrightarrow> (\<exists>t. s = t @ p)"
  unfolding has_suffix_def has_prefix_iff by (metis append_Nil rev_append rev_rev_ident)

function trim_with :: "string list \<Rightarrow> string \<Rightarrow> string" where
  "trim_with ws s = (case List.find (\<lambda>w. w \<noteq> [] \<and> has_prefix s w) ws of
     None \<Rightarrow> s | Some w \<Rightarrow> trim_with ws (drop (length w) s))"
  by pat_completeness auto
termination
  by (relation "measure (\<lambda>(ws, s). length s)")
     (auto simp: find_Some_iff has_prefix_iff)

declare trim_with.simps [simp del]

definition trim_space :: "string \<Rightarrow> string" where
  "trim_space s =
    rev (trim_with (map rev space_encodings) (rev (trim_with space_encodings s)))"

fun contains_str :: "string \<Rightarrow> string \<Rightarrow> bool" where
  \<comment> \<open>\<open>strings.Contains(hay, needle)\<close>\<close>
  "contains_str [] n = (n = [])"
| "contains_str (c # s) n = (has_prefix (c # s) n \<or> contains_str s n)"

lemma contains_str_iff: "contains_str s n \<longleftrightarrow> (\<exists>a b. s = a @ n @ b)"
proof (induction s)
  case (Cons c s)
  show ?case
  proof
    assume "contains_str (c # s) n"
    with Cons show "\<exists>a b. c # s = a @ n @ b"
      unfolding contains_str.simps has_prefix_iff by (metis append_Cons append_Nil)
  next
    assume "\<exists>a b. c # s = a @ n @ b"
    then obtain a b where "c # s = a @ n @ b" by blast
    with Cons show "contains_str (c # s) n"
      unfolding contains_str.simps has_prefix_iff by (cases a) auto
  qed
qed auto

text \<open>
  \<open>strings.ToLower\<close>: bytewise on ASCII; otherwise rune by rune, with Go's case table
  \<open>lr\<close> for the runes beyond ASCII.
\<close>

definition encode_rune :: "nat \<Rightarrow> string" where
  "encode_rune r = map char_of
    (if r < 128 then [r]
     else if r < 2048 then [192 + r div 64, 128 + r mod 64]
     else if 1114111 < r \<or> (55296 \<le> r \<and> r < 57344) then [239, 191, 189]
     else if r < 65536 then [224 + r div 4096, 128 + r div 64 mod 64, 128 + r mod 64]
     else [240 + r div 262144, 128 + r div 4096 mod 64, 128 + r div 64 mod 64, 128 + r mod 64])"

definition lower_rune :: "(nat \<Rightarrow> nat) \<Rightarrow> nat \<Rightarrow> nat" where
  "lower_rune lr r = (if 65 \<le> r \<and> r \<le> 90 then r + 32 else if r < 128 then r else lr r)"

definition to_lower :: "(nat \<Rightarrow> nat) \<Rightarrow> string \<Rightarrow> string" where
  "to_lower lr s =
    (if \<forall>c \<in> set s. byte c < 128 then map ascii_lower s
     else concat (map (\<lambda>r. encode_rune (lower_rune lr r)) (runes s)))"

fun join_str :: "string \<Rightarrow> string list \<Rightarrow> string" where
  "join_str sep [] = []"
| "join_str sep [s] = s"
| "join_str sep (s # ss) = s @ sep @ join_str sep ss"

text \<open>Fields that do not hold the separator can be read back from their join.\<close>

lemma sep_split:
  "a @ d # x = b @ d # y \<Longrightarrow> d \<notin> set a \<Longrightarrow> d \<notin> set b \<Longrightarrow> a = b \<and> x = y"
  by (auto simp: append_eq_append_conv2 Cons_eq_append_conv append_eq_Cons_conv)

lemma join_str_inj:
  "length xs = length ys \<Longrightarrow> join_str [d] xs = join_str [d] ys \<Longrightarrow>
   \<forall>x \<in> set xs. d \<notin> set x \<Longrightarrow> \<forall>y \<in> set ys. d \<notin> set y \<Longrightarrow> xs = ys"
proof (induction xs ys rule: list_induct2)
  case (Cons x xs y ys)
  then show ?case by (cases xs; cases ys) (auto dest!: sep_split)
qed simp

lemma join_str_head:
  "join_str [d] (x # x' # xs) = join_str [d] (y # y' # ys) \<Longrightarrow> d \<notin> set x \<Longrightarrow> d \<notin> set y \<Longrightarrow> x = y"
  by (auto dest: sep_split)

fun split_on :: "char \<Rightarrow> string \<Rightarrow> string list" where
  "split_on d [] = [[]]"
| "split_on d (c # s) =
    (if c = d then [] # split_on d s
     else (case split_on d s of [] \<Rightarrow> [[c]] | w # ws \<Rightarrow> (c # w) # ws))"

text \<open>
  The part of the patterns \<open>^[class][...]*(?:[seps][a-z0-9]+)*$\<close> after its first byte: bytes
  of \<open>[a-z0-9]\<close>, and separators each followed by one.
\<close>

definition is_code_char :: "char \<Rightarrow> bool" where
  "is_code_char c \<longleftrightarrow> is_lower c \<or> is_digit c"

fun code_tail :: "string \<Rightarrow> string \<Rightarrow> bool" where
  "code_tail seps [] = True"
| "code_tail seps (c # s) =
    (if is_code_char c then code_tail seps s
     else c \<in> set seps \<and>
       (case s of [] \<Rightarrow> False | d # s' \<Rightarrow> is_code_char d \<and> code_tail seps s'))"

lemma code_tail_chars:
  "code_tail seps s \<Longrightarrow> c \<in> set s \<Longrightarrow> is_code_char c \<or> c \<in> set seps"
  by (induction seps s rule: code_tail.induct) (auto split: if_splits list.splits)

section \<open>filepath.Base, on Unix\<close>

definition filepath_base :: "string \<Rightarrow> string" where
  "filepath_base p =
    (if p = [] then ''.''
     else (let q = rev (dropWhile (\<lambda>c. c = CHR ''/'') (rev p))
           in if q = [] then ''/'' else rev (takeWhile (\<lambda>c. c \<noteq> CHR ''/'') (rev q))))"

lemma filepath_base_id:
  assumes "p \<noteq> []" and "CHR ''/'' \<notin> set p"
  shows "filepath_base p = p"
proof -
  have "dropWhile (\<lambda>c. c = CHR ''/'') (rev p) = rev p"
    using assms by (metis (mono_tags) dropWhile_eq_self_iff last_in_set last_rev rev_rev_ident
        set_rev hd_rev)
  moreover have "takeWhile (\<lambda>c. c \<noteq> CHR ''/'') (rev p) = rev p"
    using assms by (simp add: takeWhile_eq_all_conv) metis
  ultimately show ?thesis
    using assms(1) by (simp add: filepath_base_def Let_def del: takeWhile_eq_all_conv)
qed

section \<open>Numbers as text\<close>

definition hex_digit :: "nat \<Rightarrow> char" where
  "hex_digit d = char_of (if d < 10 then 48 + d else 87 + d)"

fun hex_of :: "nat \<Rightarrow> string" where
  \<comment> \<open>\<open>%x\<close> of a non-negative number\<close>
  "hex_of n = (if n < 16 then [hex_digit n] else hex_of (n div 16) @ [hex_digit (n mod 16)])"

declare hex_of.simps [simp del]

definition hex08 :: "nat \<Rightarrow> string" where
  \<comment> \<open>\<open>%08x\<close>\<close>
  "hex08 n = replicate (8 - length (hex_of n)) CHR ''0'' @ hex_of n"

fun dec_of :: "nat \<Rightarrow> string" where
  \<comment> \<open>\<open>strconv.Itoa\<close> of a non-negative number\<close>
  "dec_of n = (if n < 10 then [char_of (48 + n)] else dec_of (n div 10) @ [char_of (48 + n mod 10)])"

declare dec_of.simps [simp del]

definition int_text :: "int \<Rightarrow> string" where
  "int_text i = (if i < 0 then CHR ''-'' # dec_of (nat (- i)) else dec_of (nat i))"

definition bool_text :: "bool \<Rightarrow> string" where
  \<comment> \<open>\<open>strconv.FormatBool\<close>\<close>
  "bool_text b = (if b then ''true'' else ''false'')"

text \<open>\<open>binary.BigEndian.PutUint64\<close>\<close>

definition be64 :: "nat \<Rightarrow> string" where
  "be64 n = map (\<lambda>i. char_of (n div 256 ^ (7 - i))) [0..<8]"

section \<open>time.Time\<close>

text \<open>
  \<open>instant\<close> is the time in nanoseconds since January 1 of year 1 UTC, Go's zero time;
  \<open>zone\<close> is the offset of its location from UTC in seconds and \<open>monotonic\<close> the reading of
  the monotonic clock a value may carry.
\<close>

record gotime =
  instant :: int
  zone :: int
  monotonic :: "int option"

definition zero_time :: gotime where
  "zero_time = \<lparr>instant = 0, zone = 0, monotonic = None\<rparr>"

definition time_is_zero :: "gotime \<Rightarrow> bool" where
  "time_is_zero t \<longleftrightarrow> instant t = 0"

definition time_equal :: "gotime \<Rightarrow> gotime \<Rightarrow> bool" where
  \<comment> \<open>\<open>t.Equal(u)\<close> for times that carry no common monotonic reading\<close>
  "time_equal t u \<longleftrightarrow> instant t = instant u"

definition time_utc :: "gotime \<Rightarrow> gotime" where
  "time_utc t = t\<lparr>zone := 0\<rparr>"

definition time_round0 :: "gotime \<Rightarrow> gotime" where
  \<comment> \<open>\<open>t.Round(0)\<close> strips the monotonic reading\<close>
  "time_round0 t = t\<lparr>monotonic := None\<rparr>"

definition truncate_second :: "gotime \<Rightarrow> gotime" where
  \<comment> \<open>\<open>t.Truncate(time.Second)\<close>: rounds down since the zero time and strips the
    monotonic reading\<close>
  "truncate_second t = t\<lparr>instant := instant t - instant t mod 1000000000, monotonic := None\<rparr>"

text \<open>
  The proleptic Gregorian date of a day counted from January 1 of year 1, and
  \<open>t.Format(time.RFC3339Nano)\<close>. Days are shifted to start with March of year 0, where
  the leap day is the last of a year.
\<close>

definition civil_date :: "int \<Rightarrow> int \<times> int \<times> int" where
  "civil_date day =
    (let z = day + 306; era = z div 146097; doe = z mod 146097;
         yoe = (doe - doe div 1460 + doe div 36524 - doe div 146096) div 365;
         doy = doe - (365 * yoe + yoe div 4 - yoe div 100);
         mp = (5 * doy + 2) div 153;
         d = doy - (153 * mp + 2) div 5 + 1;
         m = (if mp < 10 then mp + 3 else mp - 9);
         y = yoe + era * 400
     in (if m \<le> 2 then y + 1 else y, m, d))"

definition pad_dec :: "nat \<Rightarrow> int \<Rightarrow> string" where
  "pad_dec w i =
    (let ds = dec_of (nat \<bar>i\<bar>); z = replicate (w - length ds) CHR ''0'' @ ds
     in if i < 0 then CHR ''-'' # z else z)"

definition nano_suffix :: "int \<Rightarrow> string" where
  "nano_suffix ns =
    (if ns = 0 then []
     else CHR ''.'' # rev (dropWhile (\<lambda>c. c = CHR ''0'') (rev (pad_dec 9 ns))))"

definition zone_suffix :: "int \<Rightarrow> string" where
  "zone_suffix off =
    (if off = 0 then ''Z''
     else (let a = \<bar>off\<bar> div 60
           in (if off < 0 then ''-'' else ''+'') @ pad_dec 2 (a div 60) @ '':'' @ pad_dec 2 (a mod 60)))"

definition rfc3339_nano :: "gotime \<Rightarrow> string" where
  "rfc3339_nano t =
    (let local = instant t + zone t * 1000000000;
         secs = local div 1000000000; ns = local mod 1000000000;
         tod = secs mod 86400
     in case civil_date (secs div 86400) of (y, m, d) \<Rightarrow>
       pad_dec 4 y @ ''-'' @ pad_dec 2 m @ ''-'' @ pad_dec 2 d @ ''T'' @
       pad_dec 2 (tod div 3600) @ '':'' @ pad_dec 2 (tod div 60 mod 60) @ '':'' @
       pad_dec 2 (tod mod 60) @ nano_suffix ns @ zone_suffix (zone t))"

lemmas time_defs = zero_time_def time_is_zero_def time_equal_def time_utc_def time_round0_def
  truncate_second_def

end
