(* ===== verification/Assessment.thy ===== *)
theory Assessment
  imports GoStd
begin

text \<open>
  The readiness reports of \<open>internal/assessment/types.go\<close>: the evidence sources, reasons and
  gates of a report, their validation, the canonical order, and the seal. JSON text and SHA-256
  are the fields of \<open>codec\<close>; every definition that fingerprints a report takes them as an
  argument. Enumerations are Go string types there and strings here, because a decoded document
  may hold any text in them.
\<close>

section \<open>Data\<close>

abbreviation "schema_version \<equiv> (1::int)"
abbreviation "fingerprint_prefix \<equiv> ''sha256:''"

abbreviation "outcome_eligible \<equiv> ''eligible''"
abbreviation "outcome_blocked \<equiv> ''blocked''"
abbreviation "outcome_indeterminate \<equiv> ''indeterminate''"
abbreviation "outcome_not_applicable \<equiv> ''not-applicable''"
abbreviation "profile_cheap \<equiv> ''cheap''"
abbreviation "profile_deep \<equiv> ''deep''"
abbreviation "freshness_fresh \<equiv> ''fresh''"
abbreviation "freshness_stale \<equiv> ''stale''"
abbreviation "freshness_unknown \<equiv> ''unknown''"
abbreviation "completeness_complete \<equiv> ''complete''"
abbreviation "completeness_partial \<equiv> ''partial''"
abbreviation "completeness_unknown \<equiv> ''unknown''"
abbreviation "authority_local_live \<equiv> ''local-live''"
abbreviation "authority_remote_live \<equiv> ''remote-live''"
abbreviation "authority_derived_live \<equiv> ''derived-live''"
abbreviation "authority_cache \<equiv> ''cache''"

record source =
  src_id :: string
  src_authority :: string
  src_freshness :: string
  src_completeness :: string
  src_observed_at :: gotime
  src_fingerprint :: string

record reason =
  rsn_code :: string
  rsn_subject :: string
  rsn_detail :: string
  rsn_remediation :: string

record gate =
  gate_code :: string
  gate_outcome :: string
  gate_sources :: "source list"
  gate_reasons :: "reason list"

record report =
  rep_schema :: int
  rep_profile :: string
  rep_generated_at :: gotime
  rep_fingerprint :: string
  rep_gates :: "gate list"

datatype assess_error =
    UnknownOutcome string
  | UnknownProfile string
  | InvalidSourceID string
  | UnknownAuthority string
  | UnknownFreshness string
  | UnknownCompleteness string
  | MissingObservedAt string
  | InvalidSourceFingerprint string
  | InvalidReasonCode string
  | TextRequired
  | TextNotUTF8
  | TextNotTrimmed
  | TextControl
  | InvalidGateCode string
  | RepeatedSource string
  | OutcomeNeedsEvidence string
  | OutcomeNeedsReason string
  | InconclusiveSource string string
  | WrongSchema int
  | MissingGeneratedAt
  | RepeatedGate string
  | EncodeFailed
  | InvalidReportFingerprint
  | FingerprintMismatch
  | NotCanonical

text \<open>
  What the package takes from \<open>encoding/json\<close> and \<open>crypto/sha256\<close>: the JSON of a report's
  four fingerprinted fields, the JSON of a whole report (\<open>None\<close> when marshalling fails), and
  the lowercase hexadecimal SHA-256 of a text.
\<close>

record codec =
  marshal_content :: "int \<times> string \<times> gotime \<times> gate list \<Rightarrow> string option"
  marshal_report :: "report \<Rightarrow> string option"
  sha256_hex :: "string \<Rightarrow> string"

section \<open>Validation\<close>

definition is_hex_lower :: "char \<Rightarrow> bool" where
  "is_hex_lower c \<longleftrightarrow> is_digit c \<or> between CHR ''a'' CHR ''f'' c"

text \<open>
  A digest is accepted when it is its own lowercase form and decodes as hexadecimal; both hold
  exactly for a string of lowercase hexadecimal digits.
\<close>

definition valid_fingerprint :: "string \<Rightarrow> bool" where
  "valid_fingerprint v \<longleftrightarrow>
    has_prefix v fingerprint_prefix \<and> length v = length fingerprint_prefix + 64 \<and>
    list_all is_hex_lower (drop (length fingerprint_prefix) v)"

definition fingerprint_bytes :: "codec \<Rightarrow> string \<Rightarrow> string" where
  "fingerprint_bytes cd v = fingerprint_prefix @ sha256_hex cd v"

definition identifier_ok :: "string \<Rightarrow> bool" where
  \<comment> \<open>\<open>^[a-z][a-z0-9]*(?:[._:/-][a-z0-9]+)*$\<close>\<close>
  "identifier_ok s = (case s of [] \<Rightarrow> False | c # s' \<Rightarrow> is_lower c \<and> code_tail ''._:/-'' s')"

definition outcome_validate :: "string \<Rightarrow> assess_error option" where
  "outcome_validate v =
    (if v \<in> {outcome_eligible, outcome_blocked, outcome_indeterminate, outcome_not_applicable}
     then None else Some (UnknownOutcome v))"

definition profile_validate :: "string \<Rightarrow> assess_error option" where
  "profile_validate p =
    (if p \<in> {profile_cheap, profile_deep} then None else Some (UnknownProfile p))"

definition source_validate :: "source \<Rightarrow> assess_error option" where
  "source_validate s = checks
    [fail_if (\<not> identifier_ok (src_id s)) (InvalidSourceID (src_id s)),
     fail_if (src_authority s \<notin>
       {authority_local_live, authority_remote_live, authority_derived_live, authority_cache})
       (UnknownAuthority (src_id s)),
     fail_if (src_freshness s \<notin> {freshness_fresh, freshness_stale, freshness_unknown})
       (UnknownFreshness (src_id s)),
     fail_if (src_completeness s \<notin>
       {completeness_complete, completeness_partial, completeness_unknown})
       (UnknownCompleteness (src_id s)),
     fail_if (time_is_zero (src_observed_at s)) (MissingObservedAt (src_id s)),
     fail_if (\<not> valid_fingerprint (src_fingerprint s)) (InvalidSourceFingerprint (src_id s))]"

definition source_conclusive :: "source \<Rightarrow> bool" where
  "source_conclusive s =
    (if src_freshness s \<noteq> freshness_fresh \<or> src_completeness s \<noteq> completeness_complete then False
     else src_authority s \<in> {authority_local_live, authority_remote_live, authority_derived_live})"

definition validate_text :: "string \<Rightarrow> bool \<Rightarrow> assess_error option" where
  "validate_text v required =
    (if v = [] then fail_if required TextRequired
     else checks
       [fail_if (\<not> utf8_valid v) TextNotUTF8,
        fail_if (v \<noteq> trim_space v) TextNotTrimmed,
        fail_if (list_ex is_control (runes v)) TextControl])"

definition reason_validate :: "reason \<Rightarrow> assess_error option" where
  "reason_validate r = checks
    [fail_if (\<not> identifier_ok (rsn_code r)) (InvalidReasonCode (rsn_code r)),
     validate_text (rsn_subject r) True,
     validate_text (rsn_detail r) True,
     validate_text (rsn_remediation r) False]"

fun sources_validate :: "string list \<Rightarrow> source list \<Rightarrow> assess_error option" where
  "sources_validate seen [] = None"
| "sources_validate seen (s # ss) =
    (case source_validate s of Some e \<Rightarrow> Some e
     | None \<Rightarrow> if src_id s \<in> set seen then Some (RepeatedSource (src_id s))
               else sources_validate (src_id s # seen) ss)"

definition gate_validate :: "string \<Rightarrow> gate \<Rightarrow> assess_error option" where
  "gate_validate profile g = checks
    [profile_validate profile,
     fail_if (\<not> identifier_ok (gate_code g)) (InvalidGateCode (gate_code g)),
     outcome_validate (gate_outcome g),
     sources_validate [] (gate_sources g),
     first_error reason_validate (gate_reasons g),
     fail_if (gate_outcome g \<in> {outcome_eligible, outcome_blocked} \<and> gate_sources g = [])
       (OutcomeNeedsEvidence (gate_code g)),
     fail_if (gate_outcome g \<in> {outcome_blocked, outcome_indeterminate} \<and> gate_reasons g = [])
       (OutcomeNeedsReason (gate_code g)),
     (if profile = profile_deep \<and> gate_outcome g \<in> {outcome_eligible, outcome_blocked}
      then first_error (\<lambda>s. fail_if (\<not> source_conclusive s)
             (InconclusiveSource (gate_code g) (src_id s))) (gate_sources g)
      else None)]"

fun gates_validate :: "string \<Rightarrow> string list \<Rightarrow> gate list \<Rightarrow> assess_error option" where
  "gates_validate profile seen [] = None"
| "gates_validate profile seen (g # gs) =
    (case gate_validate profile g of Some e \<Rightarrow> Some e
     | None \<Rightarrow> if gate_code g \<in> set seen then Some (RepeatedGate (gate_code g))
               else gates_validate profile (gate_code g # seen) gs)"

definition validate_content :: "report \<Rightarrow> assess_error option" where
  "validate_content r = checks
    [fail_if (rep_schema r \<noteq> schema_version) (WrongSchema (rep_schema r)),
     profile_validate (rep_profile r),
     fail_if (time_is_zero (rep_generated_at r)) MissingGeneratedAt,
     gates_validate (rep_profile r) [] (rep_gates r)]"

section \<open>Canonical order and the seal\<close>

definition canonical_time :: "gotime \<Rightarrow> gotime" where
  "canonical_time t = (if time_is_zero t then t else time_utc (time_round0 t))"

abbreviation nul :: string where
  "nul \<equiv> [CHR 0x00]"

definition source_key :: "source \<Rightarrow> string" where
  "source_key s = join_str nul
    [src_id s, src_authority s, src_freshness s, src_completeness s,
     rfc3339_nano (src_observed_at s), src_fingerprint s]"

definition reason_key :: "reason \<Rightarrow> string" where
  "reason_key r = join_str nul [rsn_code r, rsn_subject r, rsn_detail r, rsn_remediation r]"

definition canonical_gate :: "gate \<Rightarrow> gate" where
  "canonical_gate g = g\<lparr>
    gate_sources := sort_key source_key
      (map (\<lambda>s. s\<lparr>src_observed_at := canonical_time (src_observed_at s)\<rparr>) (gate_sources g)),
    gate_reasons := sort_key reason_key (gate_reasons g)\<rparr>"

definition canonical_report :: "report \<Rightarrow> report" where
  "canonical_report r = r\<lparr>
    rep_generated_at := canonical_time (rep_generated_at r),
    rep_gates := sort_key gate_code (map canonical_gate (rep_gates r))\<rparr>"

definition compute_fingerprint :: "codec \<Rightarrow> report \<Rightarrow> assess_error + string" where
  "compute_fingerprint cd r =
    (case marshal_content cd (rep_schema r, rep_profile r, rep_generated_at r, rep_gates r) of
       None \<Rightarrow> Inl EncodeFailed
     | Some enc \<Rightarrow> Inr (fingerprint_bytes cd enc))"

definition report_seal :: "codec \<Rightarrow> report \<Rightarrow> assess_error + report" where
  "report_seal cd r0 =
    (let r = (if rep_schema r0 = 0 then r0\<lparr>rep_schema := schema_version\<rparr> else r0);
         canonical = (canonical_report r)\<lparr>rep_fingerprint := []\<rparr>
     in case validate_content canonical of Some e \<Rightarrow> Inl e
        | None \<Rightarrow> (case compute_fingerprint cd canonical of Inl e \<Rightarrow> Inl e
        | Inr fp \<Rightarrow> Inr (canonical\<lparr>rep_fingerprint := fp\<rparr>)))"

definition new_report :: "codec \<Rightarrow> string \<Rightarrow> gotime \<Rightarrow> gate list \<Rightarrow> assess_error + report" where
  "new_report cd profile generated_at gates =
    report_seal cd \<lparr>rep_schema = schema_version, rep_profile = profile,
      rep_generated_at = generated_at, rep_fingerprint = [], rep_gates = gates\<rparr>"

definition reports_equal_ordering :: "codec \<Rightarrow> report \<Rightarrow> report \<Rightarrow> bool" where
  "reports_equal_ordering cd left right =
    (case (marshal_report cd left, marshal_report cd right) of
       (Some l, Some r) \<Rightarrow> l = r
     | _ \<Rightarrow> False)"

definition report_validate :: "codec \<Rightarrow> report \<Rightarrow> assess_error option" where
  "report_validate cd r = checks
    [validate_content r,
     fail_if (\<not> valid_fingerprint (rep_fingerprint r)) InvalidReportFingerprint,
     (case compute_fingerprint cd ((canonical_report r)\<lparr>rep_fingerprint := []\<rparr>) of
        Inl e \<Rightarrow> Some e
      | Inr want \<Rightarrow> checks
          [fail_if (rep_fingerprint r \<noteq> want) FingerprintMismatch,
           fail_if (\<not> reports_equal_ordering cd r (canonical_report r)) NotCanonical])]"

section \<open>Validation does not depend on the order\<close>

lemma sources_validate_None_iff:
  "sources_validate seen ss = None \<longleftrightarrow>
    (\<forall>s \<in> set ss. source_validate s = None) \<and> distinct (map src_id ss) \<and>
    set (map src_id ss) \<inter> set seen = {}"
  by (induction ss arbitrary: seen) (auto split: option.splits)

lemma gates_validate_None_iff:
  "gates_validate p seen gs = None \<longleftrightarrow>
    (\<forall>g \<in> set gs. gate_validate p g = None) \<and> distinct (map gate_code gs) \<and>
    set (map gate_code gs) \<inter> set seen = {}"
  by (induction gs arbitrary: seen) (auto split: option.splits)

lemma canonical_time_idem [simp]: "canonical_time (canonical_time t) = canonical_time t"
  by (simp add: canonical_time_def time_defs)

lemma canonical_time_zero [simp]: "time_is_zero (canonical_time t) = time_is_zero t"
  by (simp add: canonical_time_def time_defs)

lemma source_canonical_validate [simp]:
  "(source_validate (s\<lparr>src_observed_at := canonical_time (src_observed_at s)\<rparr>) = None) =
   (source_validate s = None)"
  by (simp add: source_validate_def)

lemma source_canonical_conclusive [simp]:
  "source_conclusive (s\<lparr>src_observed_at := t\<rparr>) = source_conclusive s"
  by (simp add: source_conclusive_def)

lemma set_empty_eq: "set xs = set ys \<Longrightarrow> (xs = []) = (ys = [])"
  by (metis set_empty)

lemma canonical_gate_simps [simp]:
  "gate_code (canonical_gate g) = gate_code g"
  "gate_outcome (canonical_gate g) = gate_outcome g"
  "set (gate_reasons (canonical_gate g)) = set (gate_reasons g)"
  "set (gate_sources (canonical_gate g)) =
     (\<lambda>s. s\<lparr>src_observed_at := canonical_time (src_observed_at s)\<rparr>) ` set (gate_sources g)"
  by (simp_all add: canonical_gate_def)

lemma sources_canonical_validate:
  "(sources_validate [] (gate_sources (canonical_gate g)) = None) =
   (sources_validate [] (gate_sources g) = None)"
  by (simp add: sources_validate_None_iff) (simp add: canonical_gate_def comp_def)

lemma gate_validate_None_iff:
  "gate_validate p g = None \<longleftrightarrow>
    profile_validate p = None \<and> identifier_ok (gate_code g) \<and>
    outcome_validate (gate_outcome g) = None \<and> sources_validate [] (gate_sources g) = None \<and>
    (\<forall>r \<in> set (gate_reasons g). reason_validate r = None) \<and>
    \<not> (gate_outcome g \<in> {outcome_eligible, outcome_blocked} \<and> set (gate_sources g) = {}) \<and>
    \<not> (gate_outcome g \<in> {outcome_blocked, outcome_indeterminate} \<and> set (gate_reasons g) = {}) \<and>
    (p = profile_deep \<and> gate_outcome g \<in> {outcome_eligible, outcome_blocked} \<longrightarrow>
      (\<forall>s \<in> set (gate_sources g). source_conclusive s))"
  by (auto simp: gate_validate_def first_error_None_iff)

lemma canonical_gate_validate [simp]:
  "(gate_validate p (canonical_gate g) = None) = (gate_validate p g = None)"
  unfolding gate_validate_None_iff sources_canonical_validate by simp

lemma canonical_report_simps [simp]:
  "rep_schema (canonical_report r) = rep_schema r"
  "rep_profile (canonical_report r) = rep_profile r"
  "rep_fingerprint (canonical_report r) = rep_fingerprint r"
  "rep_generated_at (canonical_report r) = canonical_time (rep_generated_at r)"
  by (simp_all add: canonical_report_def)

lemma canonical_report_gates:
  "rep_gates (canonical_report r) = sort_key gate_code (map canonical_gate (rep_gates r))"
  by (simp add: canonical_report_def)

lemma validate_content_None_iff:
  "validate_content r = None \<longleftrightarrow>
    rep_schema r = schema_version \<and> profile_validate (rep_profile r) = None \<and>
    \<not> time_is_zero (rep_generated_at r) \<and>
    (\<forall>g \<in> set (rep_gates r). gate_validate (rep_profile r) g = None) \<and>
    distinct (map gate_code (rep_gates r))"
  by (auto simp: validate_content_def gates_validate_None_iff)

lemma canonical_validate_content:
  "(validate_content (canonical_report r) = None) = (validate_content r = None)"
  by (simp add: validate_content_None_iff canonical_report_gates comp_def)

lemma validate_content_fingerprint [simp]:
  "validate_content (r\<lparr>rep_fingerprint := f\<rparr>) = validate_content r"
  by (simp add: validate_content_def)

lemma compute_fingerprint_fingerprint [simp]:
  "compute_fingerprint cd (r\<lparr>rep_fingerprint := f\<rparr>) = compute_fingerprint cd r"
  by (simp add: compute_fingerprint_def)

lemma canonical_gate_idem: "canonical_gate (canonical_gate g) = canonical_gate g"
proof -
  let ?t = "\<lambda>s. s\<lparr>src_observed_at := canonical_time (src_observed_at s)\<rparr>"
  let ?ss = "sort_key source_key (map ?t (gate_sources g))"
  have "map ?t ?ss = ?ss"
    by (rule map_idI) auto
  then show ?thesis by (simp add: canonical_gate_def sort_key_idem)
qed

lemma canonical_report_idem: "canonical_report (canonical_report r) = canonical_report r"
proof -
  let ?gs = "sort_key gate_code (map canonical_gate (rep_gates r))"
  have "map canonical_gate ?gs = ?gs"
    by (rule map_idI) (auto simp: canonical_gate_idem)
  then show ?thesis by (simp add: canonical_report_def sort_key_idem)
qed

lemma canonical_report_fingerprint:
  "canonical_report (r\<lparr>rep_fingerprint := f\<rparr>) = (canonical_report r)\<lparr>rep_fingerprint := f\<rparr>"
  by (simp add: canonical_report_def)

interpretation report_form: canonical_form canonical_report "\<lambda>r. validate_content r = None"
  by unfold_locales (simp_all add: canonical_report_idem canonical_validate_content)

section \<open>What the seal guarantees\<close>

lemma identifier_no_nul: "identifier_ok s \<Longrightarrow> CHR 0x00 \<notin> set s"
  by (auto simp: identifier_ok_def char_class_defs is_code_char_def split: list.splits
      dest: code_tail_chars)

lemma validate_text_no_nul: "validate_text v req = None \<Longrightarrow> CHR 0x00 \<notin> set v"
proof
  assume v: "validate_text v req = None" and "CHR 0x00 \<in> set v"
  then have "(0::nat) \<in> set (runes v)" using runes_ascii_mem [of "CHR 0x00" v] by simp
  with v show False
    by (cases "v = []") (auto simp: validate_text_def is_control_def list_ex_iff runes_def)
qed

lemma reason_key_inj: "inj_on reason_key {r. reason_validate r = None}"
proof (rule inj_onI)
  fix r r' assume v: "r \<in> {r. reason_validate r = None}" "r' \<in> {r. reason_validate r = None}"
    and k: "reason_key r = reason_key r'"
  from v have "[rsn_code r, rsn_subject r, rsn_detail r, rsn_remediation r] =
      [rsn_code r', rsn_subject r', rsn_detail r', rsn_remediation r']"
    by (intro join_str_inj [OF _ k [unfolded reason_key_def]])
       (auto simp: reason_validate_def dest: identifier_no_nul validate_text_no_nul)
  then show "r = r'" by (simp add: reason.equality)
qed

lemma source_key_id:
  "source_key s = source_key s' \<Longrightarrow> source_validate s = None \<Longrightarrow> source_validate s' = None \<Longrightarrow>
   src_id s = src_id s'"
  unfolding source_key_def
  by (erule join_str_head) (simp_all add: source_validate_def identifier_no_nul)

lemma source_key_inj:
  assumes "sources_validate [] ss = None"
  shows "inj_on source_key
    (set (map (\<lambda>s. s\<lparr>src_observed_at := canonical_time (src_observed_at s)\<rparr>) ss))"
proof (rule inj_onI, goal_cases)
  case (1 x y)
  then obtain s s' where s: "s \<in> set ss" "s' \<in> set ss"
    and x: "x = s\<lparr>src_observed_at := canonical_time (src_observed_at s)\<rparr>"
    and y: "y = s'\<lparr>src_observed_at := canonical_time (src_observed_at s')\<rparr>" by auto
  from assms have "inj_on src_id (set ss)" and v: "\<forall>s \<in> set ss. source_validate s = None"
    by (simp_all add: sources_validate_None_iff distinct_map)
  moreover have "src_id x = src_id y"
    using 1 s v x y by (intro source_key_id) simp_all
  ultimately show ?case using s x y by (auto dest: inj_onD)
qed

text \<open>Two gates that hold the same evidence and reasons in another order.\<close>

definition gate_reordered :: "gate \<Rightarrow> gate \<Rightarrow> bool" where
  "gate_reordered g g' \<longleftrightarrow>
    gate_code g' = gate_code g \<and> gate_outcome g' = gate_outcome g \<and>
    mset (gate_sources g') = mset (gate_sources g) \<and> mset (gate_reasons g') = mset (gate_reasons g)"

lemma canonical_gate_reordered:
  assumes "gate_reordered g g'" and v: "gate_validate p g = None"
  shows "canonical_gate g' = canonical_gate g"
proof -
  let ?t = "\<lambda>s. s\<lparr>src_observed_at := canonical_time (src_observed_at s)\<rparr>"
  from v have "sources_validate [] (gate_sources g) = None"
    and r: "\<forall>r \<in> set (gate_reasons g). reason_validate r = None"
    by (simp_all add: gate_validate_None_iff)
  then have "sort_key source_key (map ?t (gate_sources g)) =
      sort_key source_key (map ?t (gate_sources g'))"
    using assms(1) by (intro sort_key_perm source_key_inj) (simp_all add: gate_reordered_def)
  moreover from r have "sort_key reason_key (gate_reasons g) = sort_key reason_key (gate_reasons g')"
    using assms(1)
    by (intro sort_key_perm inj_on_subset [OF reason_key_inj]) (auto simp: gate_reordered_def)
  ultimately show ?thesis
    using assms(1) by (simp add: canonical_gate_def gate_reordered_def)
qed

lemma canonical_report_reordered:
  assumes v: "validate_content r = None" and "mset gs = mset (rep_gates r)"
    and re: "list_all2 gate_reordered gs gs'"
  shows "canonical_report (r\<lparr>rep_gates := gs'\<rparr>) = canonical_report r"
proof -
  have set: "set gs = set (rep_gates r)" using assms(2) by (metis set_mset_mset)
  have "map canonical_gate gs' = map canonical_gate gs"
  proof (rule nth_equalityI)
    show "length (map canonical_gate gs') = length (map canonical_gate gs)"
      using re by (simp add: list_all2_lengthD)
  next
    fix i assume "i < length (map canonical_gate gs')"
    then have "i < length gs" and "i < length gs'" and "gate_reordered (gs ! i) (gs' ! i)"
      using re by (auto simp: list_all2_conv_all_nth)
    moreover from this(1) have "gate_validate (rep_profile r) (gs ! i) = None"
      using v set nth_mem by (fastforce simp: validate_content_None_iff)
    ultimately show "map canonical_gate gs' ! i = map canonical_gate gs ! i"
      by (simp add: canonical_gate_reordered)
  qed
  moreover have "sort_key gate_code (map canonical_gate (rep_gates r)) =
      sort_key gate_code (map canonical_gate gs)"
    using v assms(2)
    by (intro sort_key_perm)
       (auto simp: validate_content_None_iff distinct_map inj_on_def)
  ultimately show ?thesis by (simp add: canonical_report_def)
qed

text \<open>
  C24: A sealed report passes the validation every reader runs, whatever order its gates,
  evidence and reasons were given in. The hypotheses are what \<open>crypto/sha256\<close> with
  \<open>encoding/hex\<close> and \<open>encoding/json\<close> document: a digest is 64 lowercase hexadecimal digits,
  and a report whose fields marshal marshals as a whole.
\<close>

theorem seal_validates:
  assumes sealed: "report_seal cd r = Inr r'"
    and hex: "\<And>v. length (sha256_hex cd v) = 64 \<and> list_all is_hex_lower (sha256_hex cd v)"
    and json: "\<And>q. marshal_content cd (rep_schema q, rep_profile q, rep_generated_at q, rep_gates q)
                 \<noteq> None \<Longrightarrow> marshal_report cd q \<noteq> None"
  shows "report_validate cd r' = None"
proof -
  define c where "c = (canonical_report (if rep_schema r = 0 then r\<lparr>rep_schema := schema_version\<rparr>
    else r))\<lparr>rep_fingerprint := []\<rparr>"
  have fixpoint: "canonical_report c = c"
    by (simp add: c_def canonical_report_fingerprint canonical_report_idem)
  from sealed obtain fp where v: "validate_content c = None"
    and fp: "compute_fingerprint cd c = Inr fp" and r': "r' = c\<lparr>rep_fingerprint := fp\<rparr>"
    by (auto simp only: report_seal_def Let_def c_def [symmetric] Inr_Inl_False sum.inject
        split: option.splits sum.splits)
  from fp obtain enc where enc: "fp = fingerprint_bytes cd enc"
    "marshal_content cd (rep_schema c, rep_profile c, rep_generated_at c, rep_gates c) = Some enc"
    by (auto simp: compute_fingerprint_def split: option.splits)
  have can: "canonical_report r' = r'"
    by (simp add: r' canonical_report_fingerprint fixpoint)
  have "valid_fingerprint fp"
    using hex [of enc] by (simp add: enc valid_fingerprint_def fingerprint_bytes_def)
  moreover have "reports_equal_ordering cd r' r'"
    using json [of r'] enc by (auto simp: reports_equal_ordering_def r')
  ultimately show ?thesis
    unfolding report_validate_def can using v fp by (simp add: r')
qed

text \<open>
  The seal identifies the evidence and not its presentation: reordering the gates of a
  valid report, and the sources and reasons inside each gate, seals to the same report with the
  same fingerprint.
\<close>

lemma seal_order_insensitive:
  assumes "validate_content r = None" and "mset gs = mset (rep_gates r)"
    and "list_all2 gate_reordered gs gs'"
  shows "report_seal cd (r\<lparr>rep_gates := gs'\<rparr>) = report_seal cd r"
proof -
  have "rep_schema r \<noteq> 0" using assms(1) by (simp add: validate_content_None_iff)
  then show ?thesis
    using canonical_report_reordered [OF assms] by (simp add: report_seal_def)
qed

text \<open>
  The deep profile is fail-closed: in a report that validates, a gate that concludes
  (eligible or blocked) has evidence, and every piece of it is fresh, complete and observed
  live; a cached, stale, partial or unknown observation never decides a gate.
\<close>

lemma deep_gate_conclusive:
  assumes "report_validate cd r = None" and "rep_profile r = profile_deep"
    and "g \<in> set (rep_gates r)" and "gate_outcome g \<in> {outcome_eligible, outcome_blocked}"
  shows "gate_sources g \<noteq> [] \<and>
    (\<forall>s \<in> set (gate_sources g). src_freshness s = freshness_fresh \<and>
       src_completeness s = completeness_complete \<and> src_authority s \<noteq> authority_cache)"
proof -
  have "gate_validate profile_deep g = None"
    using assms by (simp add: report_validate_def validate_content_None_iff)
  then show ?thesis
    using assms(4) by (auto simp: gate_validate_None_iff source_conclusive_def split: if_splits)
qed

text \<open>
  A fingerprint is bound to the content: two reports that validate and carry the same
  fingerprint have the same canonical content, unless two different contents have the same JSON
  or two different JSON texts the same SHA-256.
\<close>

lemma fingerprint_binds_content:
  assumes "report_validate cd r = None" and "report_validate cd r' = None"
    and "rep_fingerprint r = rep_fingerprint r'"
    and sha: "inj_on (sha256_hex cd) {t. \<exists>q \<in> {r, r'}. marshal_content cd (rep_schema q, rep_profile q,
      canonical_time (rep_generated_at q), rep_gates (canonical_report q)) = Some t}"
    and json: "inj_on (marshal_content cd) {(rep_schema q, rep_profile q,
      canonical_time (rep_generated_at q), rep_gates (canonical_report q)) | q. q \<in> {r, r'}}"
  shows "canonical_report r = canonical_report r'"
proof -
  let ?c = "\<lambda>q. (rep_schema q, rep_profile q, canonical_time (rep_generated_at q),
    rep_gates (canonical_report q))"
  obtain t t' where t: "marshal_content cd (?c r) = Some t" "rep_fingerprint r = fingerprint_bytes cd t"
    and t': "marshal_content cd (?c r') = Some t'" "rep_fingerprint r' = fingerprint_bytes cd t'"
    using assms(1,2)
    by (auto simp: report_validate_def compute_fingerprint_def split: option.splits sum.splits)
  then have "sha256_hex cd t = sha256_hex cd t'"
    using assms(3) by (simp add: fingerprint_bytes_def)
  moreover have "t \<in> {t. \<exists>q \<in> {r, r'}. marshal_content cd (?c q) = Some t}"
    and "t' \<in> {t. \<exists>q \<in> {r, r'}. marshal_content cd (?c q) = Some t}"
    using t(1) t'(1) by blast+
  ultimately have "t = t'" by (rule inj_onD [OF sha])
  then have "marshal_content cd (?c r) = marshal_content cd (?c r')" using t(1) t'(1) by simp
  moreover have "?c r \<in> {?c q | q. q \<in> {r, r'}}" and "?c r' \<in> {?c q | q. q \<in> {r, r'}}"
    by blast+
  ultimately have "?c r = ?c r'" by (rule inj_onD [OF json])
  then show ?thesis
    using assms(3) by (intro report.equality) (simp_all add: canonical_report_gates)
qed

section \<open>Concrete reports\<close>

definition demo_codec :: codec where
  "demo_codec = \<lparr>marshal_content = (\<lambda>_. Some ''json''), marshal_report = (\<lambda>_. Some ''json''),
    sha256_hex = (\<lambda>_. replicate 64 CHR ''0'')\<rparr>"

definition demo_source :: "string \<Rightarrow> source" where
  "demo_source i = \<lparr>src_id = i, src_authority = authority_local_live,
    src_freshness = freshness_fresh, src_completeness = completeness_complete,
    src_observed_at = \<lparr>instant = 5, zone = 0, monotonic = None\<rparr>,
    src_fingerprint = fingerprint_prefix @ replicate 64 CHR ''0''\<rparr>"

definition demo_gate :: "string \<Rightarrow> source list \<Rightarrow> gate" where
  "demo_gate code ss = \<lparr>gate_code = code, gate_outcome = outcome_eligible,
    gate_sources = ss, gate_reasons = []\<rparr>"

definition demo_report :: "gate list \<Rightarrow> report" where
  "demo_report gs = \<lparr>rep_schema = 1, rep_profile = profile_deep,
    rep_generated_at = \<lparr>instant = 7, zone = 0, monotonic = None\<rparr>,
    rep_fingerprint = [], rep_gates = gs\<rparr>"

lemmas demo_defs = demo_codec_def demo_source_def demo_gate_def demo_report_def

lemma demo_source_ok:
  "source_validate (demo_source ''git'') = None" "source_validate (demo_source ''index'') = None"
  by (simp_all add: demo_defs source_validate_def identifier_ok_def is_code_char_def
      char_class_defs valid_fingerprint_def is_hex_lower_def time_defs list_all_iff)

lemma demo_report_ok:
  "validate_content (demo_report [demo_gate ''b'' [demo_source ''git'', demo_source ''index''],
     demo_gate ''a'' [demo_source ''git'']]) = None"
proof -
  have "profile_validate profile_deep = None" "outcome_validate outcome_eligible = None"
    by (simp_all add: profile_validate_def outcome_validate_def)
  then show ?thesis
    using demo_source_ok
    by (simp add: validate_content_None_iff gate_validate_None_iff sources_validate_None_iff
        demo_report_def demo_gate_def identifier_ok_def char_class_defs time_defs)
      (simp add: demo_source_def source_conclusive_def)
qed

lemma demo_sealed:
  "\<exists>r'. report_seal demo_codec (demo_report [demo_gate ''b'' [demo_source ''git'', demo_source ''index''],
     demo_gate ''a'' [demo_source ''git'']]) = Inr r' \<and> rep_profile r' = profile_deep \<and>
     demo_gate ''a'' [demo_source ''git''] \<in> set (rep_gates r')"
  (is "\<exists>r'. report_seal _ ?r = _ \<and> _")
proof -
  have "validate_content (canonical_report ?r) = None"
    using demo_report_ok by (simp add: canonical_validate_content)
  moreover have "canonical_gate (demo_gate ''a'' [demo_source ''git'']) = demo_gate ''a'' [demo_source ''git'']"
    by (simp add: canonical_gate_def demo_gate_def demo_source_def canonical_time_def time_defs)
  moreover have "rep_schema ?r = 1" "rep_profile ?r = profile_deep" by (simp_all add: demo_report_def)
  ultimately show ?thesis
    by (simp add: report_seal_def compute_fingerprint_def demo_codec_def canonical_report_gates)
      (simp add: demo_report_def)
qed

lemma demo_codec_documented:
  "length (sha256_hex demo_codec v) = 64 \<and> list_all is_hex_lower (sha256_hex demo_codec v)"
  "marshal_report demo_codec q \<noteq> None"
  by (simp_all add: demo_codec_def list_all_iff is_hex_lower_def char_class_defs)

theorem seal_validates_witness:
  "\<exists>r'. report_seal demo_codec (demo_report [demo_gate ''b'' [demo_source ''git'', demo_source ''index''],
     demo_gate ''a'' [demo_source ''git'']]) = Inr r' \<and> report_validate demo_codec r' = None"
  using demo_sealed seal_validates [OF _ demo_codec_documented(1) demo_codec_documented(2)] by blast

lemma seal_order_insensitive_witness:
  "report_seal demo_codec ((demo_report [demo_gate ''b'' [demo_source ''git'', demo_source ''index''],
       demo_gate ''a'' [demo_source ''git'']])\<lparr>rep_gates :=
       [demo_gate ''a'' [demo_source ''git''], demo_gate ''b'' [demo_source ''index'', demo_source ''git'']]\<rparr>) =
   report_seal demo_codec (demo_report [demo_gate ''b'' [demo_source ''git'', demo_source ''index''],
     demo_gate ''a'' [demo_source ''git'']])"
  by (rule seal_order_insensitive [OF demo_report_ok, where gs =
        "[demo_gate ''a'' [demo_source ''git''], demo_gate ''b'' [demo_source ''git'', demo_source ''index'']]"])
     (simp_all add: demo_report_def gate_reordered_def demo_gate_def)

lemma deep_gate_conclusive_witness:
  "\<exists>r'. report_validate demo_codec r' = None \<and>
     (\<forall>s \<in> set (gate_sources (demo_gate ''a'' [demo_source ''git''])). src_authority s \<noteq> authority_cache)"
proof -
  obtain r' where r': "report_validate demo_codec r' = None" "rep_profile r' = profile_deep"
    "demo_gate ''a'' [demo_source ''git''] \<in> set (rep_gates r')"
    using demo_sealed seal_validates [OF _ demo_codec_documented(1) demo_codec_documented(2)] by blast
  have "gate_outcome (demo_gate ''a'' [demo_source ''git'']) \<in> {outcome_eligible, outcome_blocked}"
    by (simp add: demo_gate_def)
  from deep_gate_conclusive [OF r' this] r'(1) show ?thesis by blast
qed

lemma fingerprint_binds_content_witness:
  "\<exists>r r'. report_validate demo_codec r = None \<and> report_validate demo_codec r' = None \<and>
     rep_gates r \<noteq> [] \<and> canonical_report r = canonical_report r'"
proof -
  obtain r where r: "report_validate demo_codec r = None"
    and "demo_gate ''a'' [demo_source ''git''] \<in> set (rep_gates r)"
    using demo_sealed seal_validates [OF _ demo_codec_documented(1) demo_codec_documented(2)]
    by blast
  then have "rep_gates r \<noteq> []" by auto
  with fingerprint_binds_content [OF r r] r show ?thesis
    by (intro exI [of _ r]) (simp add: inj_on_def demo_codec_def)
qed

end
