(* ===== verification/LeaseTypes.thy ===== *)
theory LeaseTypes
  imports Assessment
begin

text \<open>
  The values of \<open>internal/lease/types.go\<close>: the keys an operation claims, requests, bindings,
  tokens, claims, tombstones, records and the snapshot; their validation; and the canonical
  text of a key with the order it gives every multi-key acquisition. Epochs are 64-bit words.
\<close>

section \<open>Data\<close>

abbreviation "scope_repository \<equiv> ''repository''"
abbreviation "scope_branch \<equiv> ''branch''"

record lkey =
  k_repository :: string
  k_scope :: string
  k_branch :: string

record request =
  rq_operation :: string
  rq_digest :: string
  rq_machine :: string

record binding =
  bd_operation :: string
  bd_digest :: string

type_synonym epoch = "64 word"

record token =
  tk_operation :: string
  tk_digest :: string
  tk_epoch :: epoch

record claim =
  cl_token :: token
  cl_machine :: string
  cl_created :: gotime

abbreviation "tombstone_aborted \<equiv> ''aborted''"
abbreviation "tombstone_returned \<equiv> ''returned''"

record tombstone =
  tb_kind :: string
  tb_token :: token
  tb_advanced :: epoch
  tb_created :: gotime

record lrecord =
  rec_key :: lkey
  rec_epoch :: epoch
  rec_reservation :: "claim option"
  rec_fence :: "claim option"
  rec_tombstones :: "tombstone list"

record snapshot =
  sn_schema :: int
  sn_last :: epoch
  sn_bindings :: "binding list"
  sn_records :: "lrecord list"

text \<open>The two kinds of claim, and the errors callers distinguish; \<open>LPlain\<close> is any other.\<close>

datatype claim_kind = KReservation | KFence

datatype lease_error =
    LBlocked lkey claim_kind string
  | LConflict
  | LEpochMismatch
  | LReturned
  | LPlain

section \<open>Machine identities\<close>

text \<open>
  \<open>github.com/google/uuid\<close>: parsing a text to a 128-bit UUID and printing one. A machine ID is
  the canonical text of a UUID other than zero.
\<close>

record uuid_lib =
  uuid_parse :: "string \<Rightarrow> nat option"
  uuid_string :: "nat \<Rightarrow> string"

definition machineid_valid :: "uuid_lib \<Rightarrow> string \<Rightarrow> bool" where
  "machineid_valid lib v =
    (case uuid_parse lib v of None \<Rightarrow> False | Some u \<Rightarrow> u \<noteq> 0 \<and> uuid_string lib u = v)"

section \<open>Validation\<close>

definition repository_key :: "string \<Rightarrow> lkey" where
  "repository_key repository = \<lparr>k_repository = repository, k_scope = scope_repository, k_branch = []\<rparr>"

definition branch_key :: "string \<Rightarrow> string \<Rightarrow> lkey" where
  "branch_key repository branch =
    \<lparr>k_repository = repository, k_scope = scope_branch, k_branch = branch\<rparr>"

definition validate_identity :: "string \<Rightarrow> lease_error option" where
  "validate_identity v = checks
    [fail_if (v = [] \<or> v \<noteq> trim_space v) LPlain,
     fail_if (\<not> utf8_valid v) LPlain,
     fail_if (list_ex is_control (runes v)) LPlain]"

definition key_validate :: "lkey \<Rightarrow> lease_error option" where
  "key_validate k = checks
    [validate_identity (k_repository k),
     (if k_scope k = scope_repository then fail_if (k_branch k \<noteq> []) LPlain
      else if k_scope k = scope_branch then validate_identity (k_branch k)
      else Some LPlain)]"

definition operation_id_ok :: "string \<Rightarrow> bool" where
  \<comment> \<open>\<open>^[A-Za-z0-9][A-Za-z0-9._-]{0,127}$\<close>\<close>
  "operation_id_ok s = (case s of [] \<Rightarrow> False | c # s' \<Rightarrow>
    is_alnum c \<and> length s' \<le> 127 \<and> list_all (\<lambda>d. is_alnum d \<or> d \<in> set ''._-'') s')"

definition request_validate :: "uuid_lib \<Rightarrow> request \<Rightarrow> lease_error option" where
  "request_validate lib r = checks
    [fail_if (\<not> operation_id_ok (rq_operation r)) LPlain,
     fail_if (\<not> valid_fingerprint (rq_digest r)) LPlain,
     fail_if (rq_machine r \<noteq> [] \<and> \<not> machineid_valid lib (rq_machine r)) LPlain]"

definition binding_validate :: "uuid_lib \<Rightarrow> binding \<Rightarrow> lease_error option" where
  "binding_validate lib b = request_validate lib
    \<lparr>rq_operation = bd_operation b, rq_digest = bd_digest b, rq_machine = []\<rparr>"

definition token_validate :: "uuid_lib \<Rightarrow> token \<Rightarrow> lease_error option" where
  "token_validate lib t = checks
    [request_validate lib \<lparr>rq_operation = tk_operation t, rq_digest = tk_digest t, rq_machine = []\<rparr>,
     fail_if (tk_epoch t = 0) LPlain]"

definition token_matches :: "token \<Rightarrow> token \<Rightarrow> bool" where
  "token_matches t u \<longleftrightarrow> tk_operation t = tk_operation u \<and> tk_digest t = tk_digest u \<and>
    tk_epoch t = tk_epoch u"

lemma token_matches_eq [simp]: "token_matches t u \<longleftrightarrow> t = u"
  by (auto simp: token_matches_def intro: token.equality)

definition same_operation :: "token \<Rightarrow> request \<Rightarrow> bool" where
  "same_operation t r \<longleftrightarrow> tk_operation t = rq_operation r \<and> tk_digest t = rq_digest r"

section \<open>Canonical keys\<close>

definition key_canonical :: "lkey \<Rightarrow> string" where
  "key_canonical k = hex08 (length (k_repository k)) @ '':'' @ k_repository k @ '':'' @ k_scope k @
    '':'' @ hex08 (length (k_branch k)) @ '':'' @ k_branch k"

text \<open>
  \<open>unique[key.canonical()] = key\<close> over the keys: a map from canonical text to the last key that
  has it, here an association list. The sort makes the iteration order of the map irrelevant.
\<close>

fun unique_keys :: "lkey list \<Rightarrow> (string \<times> lkey) list" where
  "unique_keys [] = []"
| "unique_keys (k # ks) =
    (if key_canonical k \<in> fst ` set (unique_keys ks) then unique_keys ks
     else (key_canonical k, k) # unique_keys ks)"

definition canonical_keys :: "lkey list \<Rightarrow> lease_error + lkey list" where
  "canonical_keys keys =
    (if keys = [] then Inl LPlain
     else (case first_error key_validate keys of Some e \<Rightarrow> Inl e
       | None \<Rightarrow> Inr (sort_key key_canonical (map snd (unique_keys keys)))))"

definition mutation_keys :: "lkey list \<Rightarrow> lkey list" where
  "mutation_keys keys = keys @
    concat (map (\<lambda>k. if k_scope k = scope_branch then [repository_key (k_repository k)] else []) keys)"

section \<open>The canonical text determines the key\<close>

definition digit_val :: "char \<Rightarrow> nat" where
  "digit_val c = (if byte c < 58 then byte c - 48 else byte c - 87)"

definition hex_val :: "string \<Rightarrow> nat" where
  "hex_val s = foldl (\<lambda>a c. 16 * a + digit_val c) 0 s"

lemma digit_val_hex: "d < 16 \<Longrightarrow> digit_val (hex_digit d) = d"
  by (simp add: digit_val_def hex_digit_def)

lemma hex_val_of: "hex_val (hex_of n) = n"
proof (induction n rule: hex_of.induct)
  case (1 n)
  then show ?case
    by (subst hex_of.simps) (auto simp: hex_val_def digit_val_hex)
qed

lemma hex_val_zeros: "hex_val (replicate m CHR ''0'' @ s) = hex_val s"
proof -
  have "foldl (\<lambda>a c. 16 * a + digit_val c) 0 (replicate m CHR ''0'') = 0"
    by (induction m) (simp_all add: digit_val_def)
  then show ?thesis by (simp add: hex_val_def)
qed

lemma hex08_inj: "hex08 m = hex08 n \<Longrightarrow> m = n"
  by (metis hex08_def hex_val_of hex_val_zeros)

lemma hex08_no_colon: "CHR '':'' \<notin> set (hex08 n)"
proof -
  have "CHR '':'' \<notin> set (hex_of n)"
  proof (induction n rule: hex_of.induct)
    case (1 n)
    have "d < 16 \<Longrightarrow> hex_digit d \<noteq> CHR '':''" for d
      by (auto simp: hex_digit_def dest!: arg_cong [where f = "of_char :: char \<Rightarrow> nat"])
    with 1 show ?case by (subst hex_of.simps) (auto dest: sym)
  qed
  then show ?thesis by (simp add: hex08_def)
qed

lemma key_canonical_inj:
  assumes eq: "key_canonical k = key_canonical k'"
    and "CHR '':'' \<notin> set (k_scope k)" and "CHR '':'' \<notin> set (k_scope k')"
  shows "k = k'"
proof -
  let ?rest = "\<lambda>k. k_repository k @ '':'' @ k_scope k @ '':'' @ hex08 (length (k_branch k)) @
    '':'' @ k_branch k"
  have "hex08 (length (k_repository k)) @ CHR '':'' # ?rest k =
      hex08 (length (k_repository k')) @ CHR '':'' # ?rest k'"
    using eq by (simp add: key_canonical_def)
  from sep_split [OF this hex08_no_colon hex08_no_colon]
  have "length (k_repository k) = length (k_repository k')" and "?rest k = ?rest k'"
    by (auto dest: hex08_inj)
  then have repo: "k_repository k = k_repository k'"
    and "k_scope k @ CHR '':'' # hex08 (length (k_branch k)) @ CHR '':'' # k_branch k =
      k_scope k' @ CHR '':'' # hex08 (length (k_branch k')) @ CHR '':'' # k_branch k'"
    by simp_all
  from sep_split [OF this(2) assms(2,3)] have scope: "k_scope k = k_scope k'"
    and "hex08 (length (k_branch k)) @ CHR '':'' # k_branch k =
      hex08 (length (k_branch k')) @ CHR '':'' # k_branch k'" by simp_all
  from sep_split [OF this(2) hex08_no_colon hex08_no_colon]
  have "k_branch k = k_branch k'" by simp
  with repo scope show ?thesis by simp
qed

lemma key_validate_scope:
  "key_validate k = None \<Longrightarrow> k_scope k = scope_repository \<or> k_scope k = scope_branch"
  by (auto simp: key_validate_def split: if_splits)

lemma key_canonical_inj_on: "inj_on key_canonical {k. key_validate k = None}"
  by (rule inj_onI) (auto dest!: key_validate_scope intro!: key_canonical_inj)

section \<open>Canonical key sets\<close>

lemma unique_keys_canonical: "(c, k) \<in> set (unique_keys ks) \<Longrightarrow> c = key_canonical k \<and> k \<in> set ks"
  by (induction ks) (auto split: if_splits)

lemma fst_unique_keys: "fst ` set (unique_keys ks) = key_canonical ` set ks"
  by (induction ks) auto

lemma distinct_unique_keys: "distinct (map fst (unique_keys ks))"
  by (induction ks) auto

lemma map_fst_unique_keys: "map key_canonical (map snd (unique_keys ks)) = map fst (unique_keys ks)"
  using unique_keys_canonical by (auto simp: comp_def intro!: map_cong)

lemma canonical_keys_okD:
  assumes "canonical_keys ks = Inr cs"
  shows "ks \<noteq> []" "\<forall>k \<in> set ks. key_validate k = None" "set cs = set ks" "cs \<noteq> []"
    "sorted (map key_canonical cs)" "distinct (map key_canonical cs)"
proof -
  from assms have cs: "cs = sort_key key_canonical (map snd (unique_keys ks))"
    and "ks \<noteq> []" and v: "\<forall>k \<in> set ks. key_validate k = None"
    by (auto simp: canonical_keys_def first_error_None_iff split: option.splits if_splits)
  then show "ks \<noteq> []" "\<forall>k \<in> set ks. key_validate k = None" by simp_all
  have "key_canonical ` snd ` set (unique_keys ks) = key_canonical ` set ks"
    using fst_unique_keys [of ks] map_fst_unique_keys [of ks]
    by (metis image_set list.map_comp set_map)
  moreover have "snd ` set (unique_keys ks) \<subseteq> set ks" using unique_keys_canonical by fastforce
  ultimately have "snd ` set (unique_keys ks) = set ks"
    using key_canonical_inj_on v
    by (intro inj_on_image_eq_iff [THEN iffD1, of key_canonical "{k. key_validate k = None}"]) auto
  then show "set cs = set ks" by (simp add: cs)
  with \<open>ks \<noteq> []\<close> show "cs \<noteq> []" by auto
  show "sorted (map key_canonical cs)" by (simp add: cs)
  show "distinct (map key_canonical cs)"
    unfolding cs distinct_map_sort_key map_fst_unique_keys by (rule distinct_unique_keys)
qed

lemma canonical_keys_distinct: "canonical_keys ks = Inr cs \<Longrightarrow> distinct cs"
  by (drule canonical_keys_okD(6)) (simp add: distinct_map)

lemma canonical_keys_cong:
  assumes "set ks = set ks'"
  shows "(\<exists>cs. canonical_keys ks = Inr cs) \<longleftrightarrow> (\<exists>cs. canonical_keys ks' = Inr cs)"
    and "canonical_keys ks = Inr cs \<Longrightarrow> canonical_keys ks' = Inr cs"
proof -
  have ok: "(\<exists>cs. canonical_keys ks = Inr cs) \<longleftrightarrow> ks \<noteq> [] \<and> (\<forall>k \<in> set ks. key_validate k = None)" for ks
    by (simp add: canonical_keys_def flip: first_error_None_iff split: option.split)
  from assms show ex: "(\<exists>cs. canonical_keys ks = Inr cs) \<longleftrightarrow> (\<exists>cs. canonical_keys ks' = Inr cs)"
    unfolding ok by auto
  assume cs: "canonical_keys ks = Inr cs"
  with ex obtain cs' where cs': "canonical_keys ks' = Inr cs'" by blast
  have "map key_canonical cs = map key_canonical cs'"
    using cs cs' assms
    by (intro sorted_distinct_set_unique canonical_keys_okD) (simp_all add: canonical_keys_okD)
  moreover have "set cs \<union> set cs' \<subseteq> {k. key_validate k = None}"
    using cs cs' assms canonical_keys_okD(2,3) by blast
  ultimately have "cs = cs'"
    using key_canonical_inj_on by (metis inj_on_map_eq_map inj_on_subset)
  with cs' show "canonical_keys ks' = Inr cs" by simp
qed

text \<open>
  The canonical text of a key identifies it: on valid keys it is injective, although
  repository and branch names may hold any text, the separator and digits included, so no two
  keys share a record or a lock.
\<close>

lemma key_canonical_identifies:
  assumes "key_validate k = None" and "key_validate k' = None"
  shows "key_canonical k = key_canonical k' \<longleftrightarrow> k = k'"
  using assms key_canonical_inj_on by (auto dest: inj_onD)

text \<open>
  Every multi-key acquisition uses one order: canonicalising gives the requested keys, each
  once, strictly sorted by canonical text, and the result depends only on the set of keys and
  not on the order or the repetitions they were given with.
\<close>

lemma canonical_keys_order:
  assumes "canonical_keys ks = Inr cs"
  shows "set cs = set ks \<and> sorted_wrt (<) (map key_canonical cs) \<and>
    (\<forall>ks'. set ks' = set ks \<longrightarrow> canonical_keys ks' = Inr cs)"
  using assms canonical_keys_okD [OF assms] canonical_keys_cong(2) [OF _ assms]
  by (auto simp: strict_sorted_iff)

section \<open>Concrete keys\<close>

lemma demo_key_valid:
  "key_validate (branch_key ''r:1'' ''main'') = None" "key_validate (repository_key ''r:1'') = None"
  by (simp_all add: key_validate_def validate_identity_def branch_key_def repository_key_def
      trim_space_def space_encodings_def trim_with.simps utf8_valid_def runes_def is_control_def)

lemma key_canonical_identifies_witness:
  "key_canonical (branch_key ''r:1'' ''main'') \<noteq> key_canonical (repository_key ''r:1'')"
  using key_canonical_identifies [OF demo_key_valid]
  by (simp add: branch_key_def repository_key_def)

lemma canonical_keys_order_witness:
  "\<exists>cs. canonical_keys [repository_key ''r:1'', branch_key ''r:1'' ''main'', repository_key ''r:1''] = Inr cs \<and>
    canonical_keys [branch_key ''r:1'' ''main'', repository_key ''r:1''] = Inr cs"
proof -
  let ?ks = "[repository_key ''r:1'', branch_key ''r:1'' ''main'', repository_key ''r:1'']"
  have "\<exists>cs. canonical_keys ?ks = Inr cs"
    using demo_key_valid by (auto simp: canonical_keys_def first_error_None_iff)
  then obtain cs where cs: "canonical_keys ?ks = Inr cs" by blast
  moreover have "set [branch_key ''r:1'' ''main'', repository_key ''r:1''] = set ?ks" by auto
  ultimately show ?thesis using canonical_keys_order [OF cs] by blast
qed

end
