(* ===== verification/LeaseState.thy ===== *)
theory LeaseState
  imports LeaseAuthority
begin

text \<open>
  The durable side of \<open>internal/lease/authority.go\<close>: validation and canonical order of a
  snapshot, loading and atomically replacing the state file, and the public operations composed
  as the code composes them: argument validation, key locks, state lock, load, closure, write.
  \<open>os\<close> says which calls of the operating system succeed, so that every statement covers every
  pattern of failures.
\<close>

section \<open>Validation of a snapshot\<close>

text \<open>
  Every failure of \<open>validateSnapshot\<close> is an error without a sentinel, so its single pass is
  written as one check per property. \<open>agree\<close> is the loop that remembers the first entry of an
  operation and compares the later ones with it.
\<close>

fun agree :: "('k \<times> 'v) list \<Rightarrow> bool" where
  "agree [] = True"
| "agree ((k, v) # xs) = (list_all (\<lambda>(k', v'). k' = k \<longrightarrow> v' = v) xs \<and> agree xs)"

definition claim_validate :: "uuid_lib \<Rightarrow> snapshot \<Rightarrow> lrecord \<Rightarrow> claim option \<Rightarrow> lease_error option" where
  "claim_validate lib st r oc =
    (case oc of None \<Rightarrow> None
     | Some c \<Rightarrow> checks
         [token_validate lib (cl_token c),
          fail_if (map_of (map (\<lambda>b. (bd_operation b, bd_digest b)) (sn_bindings st))
              (tk_operation (cl_token c)) \<noteq> Some (tk_digest (cl_token c))) LPlain,
          fail_if (tk_epoch (cl_token c) \<noteq> rec_epoch r) LPlain,
          fail_if (time_is_zero (cl_created c)) LPlain,
          fail_if (cl_machine c \<noteq> [] \<and> \<not> machineid_valid lib (cl_machine c)) LPlain])"

definition tombstone_validate :: "uuid_lib \<Rightarrow> snapshot \<Rightarrow> lrecord \<Rightarrow> tombstone \<Rightarrow> lease_error option" where
  "tombstone_validate lib st r tb = checks
    [fail_if (tb_kind tb \<notin> {tombstone_aborted, tombstone_returned}) LPlain,
     token_validate lib (tb_token tb),
     fail_if (map_of (map (\<lambda>b. (bd_operation b, bd_digest b)) (sn_bindings st))
         (tk_operation (tb_token tb)) \<noteq> Some (tk_digest (tb_token tb))) LPlain,
     fail_if (tb_advanced tb \<le> tk_epoch (tb_token tb) \<or> rec_epoch r < tb_advanced tb \<or>
       sn_last st < tb_advanced tb) LPlain,
     fail_if (time_is_zero (tb_created tb)) LPlain,
     fail_if ((case rec_reservation r of Some c \<Rightarrow> token_matches (cl_token c) (tb_token tb) | None \<Rightarrow> False) \<or>
       (case rec_fence r of Some c \<Rightarrow> token_matches (cl_token c) (tb_token tb) | None \<Rightarrow> False)) LPlain]"

definition record_validate :: "uuid_lib \<Rightarrow> snapshot \<Rightarrow> lrecord \<Rightarrow> lease_error option" where
  "record_validate lib st r = checks
    [key_validate (rec_key r),
     fail_if (rec_epoch r = 0 \<or> sn_last st < rec_epoch r) LPlain,
     fail_if (rec_reservation r \<noteq> None \<and> rec_fence r \<noteq> None) LPlain,
     claim_validate lib st r (rec_reservation r),
     claim_validate lib st r (rec_fence r),
     first_error (tombstone_validate lib st r) (rec_tombstones r),
     fail_if (has_repeat (map tb_token (rec_tombstones r))) LPlain]"

definition active_signatures :: "lrecord \<Rightarrow> (string \<times> token \<times> string \<times> claim_kind) list" where
  "active_signatures r =
    (case rec_reservation r of None \<Rightarrow> []
     | Some c \<Rightarrow> [(tk_operation (cl_token c), cl_token c, cl_machine c, KReservation)]) @
    (case rec_fence r of None \<Rightarrow> []
     | Some c \<Rightarrow> [(tk_operation (cl_token c), cl_token c, cl_machine c, KFence)])"

definition terminal_signatures :: "lrecord \<Rightarrow> (string \<times> token \<times> string \<times> epoch) list" where
  "terminal_signatures r =
    map (\<lambda>tb. (tk_operation (tb_token tb), tb_token tb, tb_kind tb, tb_advanced tb)) (rec_tombstones r)"

definition max_record_epoch :: "lrecord list \<Rightarrow> epoch" where
  "max_record_epoch rs = foldl (\<lambda>m r. if m < rec_epoch r then rec_epoch r else m) 0 rs"

definition validate_snapshot :: "uuid_lib \<Rightarrow> snapshot \<Rightarrow> lease_error option" where
  "validate_snapshot lib st = checks
    [fail_if (sn_schema st \<noteq> schema_version) LPlain,
     first_error (binding_validate lib) (sn_bindings st),
     fail_if (has_repeat (map bd_operation (sn_bindings st))) LPlain,
     first_error (record_validate lib st) (sn_records st),
     fail_if (has_repeat (map (\<lambda>r. key_canonical (rec_key r)) (sn_records st))) LPlain,
     fail_if (\<not> agree (concat (map active_signatures (sn_records st)))) LPlain,
     fail_if (\<not> agree (concat (map terminal_signatures (sn_records st)))) LPlain,
     fail_if (sn_last st \<noteq> max_record_epoch (sn_records st)) LPlain,
     fail_if (list_ex (\<lambda>(oper, _). oper \<in> fst ` set (concat (map terminal_signatures (sn_records st))))
       (concat (map active_signatures (sn_records st)))) LPlain]"

section \<open>Canonical order\<close>

definition tombstone_key :: "tombstone \<Rightarrow> epoch \<times> string \<times> string \<times> string" where
  "tombstone_key tb = (tk_epoch (tb_token tb), tk_operation (tb_token tb), tk_digest (tb_token tb), tb_kind tb)"

definition canonical_record :: "lrecord \<Rightarrow> lrecord" where
  "canonical_record r = r\<lparr>
    rec_reservation := map_option (\<lambda>c. c\<lparr>cl_created := lease_time (cl_created c)\<rparr>) (rec_reservation r),
    rec_fence := map_option (\<lambda>c. c\<lparr>cl_created := lease_time (cl_created c)\<rparr>) (rec_fence r),
    rec_tombstones := sort_key tombstone_key
      (map (\<lambda>tb. tb\<lparr>tb_created := lease_time (tb_created tb)\<rparr>) (rec_tombstones r))\<rparr>"

definition canonical_snapshot :: "snapshot \<Rightarrow> snapshot" where
  "canonical_snapshot st = st\<lparr>
    sn_bindings := sort_key bd_operation (sn_bindings st),
    sn_records := sort_key (\<lambda>r. key_canonical (rec_key r)) (map canonical_record (sn_records st))\<rparr>"

section \<open>The state file\<close>

datatype os_call =
    OLayout | OKeyLock lkey | OStateLock
  | OLstat | OReadPermissions | OOpen
  | OEnsureRoot | OCreateTemp | OChmod | OEncode | OSync | OClose | OReplace | OSyncDirectory

text \<open>
  \<open>authority.json\<close>: whether it is a regular file and private, the value of its one strict JSON
  document (\<open>None\<close> when it does not decode, or more follows), and whether its empty arrays are
  spelled as the encoder spells them.
\<close>

record state_file =
  sf_regular :: bool
  sf_private :: bool
  sf_document :: "snapshot option"
  sf_spelling :: bool

type_synonym disk = "state_file option"

definition empty_snapshot :: snapshot where
  "empty_snapshot = \<lparr>sn_schema = schema_version, sn_last = 0, sn_bindings = [], sn_records = []\<rparr>"

definition load_state :: "uuid_lib \<Rightarrow> (os_call \<Rightarrow> bool) \<Rightarrow> disk \<Rightarrow> lease_error + snapshot" where
  "load_state lib os d =
    (if \<not> os OLstat then Inl LPlain
     else (case d of None \<Rightarrow> Inr empty_snapshot
       | Some f \<Rightarrow>
           if \<not> sf_regular f then Inl LPlain
           else if \<not> os OReadPermissions then Inl LPlain
           else if \<not> sf_private f then Inl LPlain
           else if \<not> os OOpen then Inl LPlain
           else (case sf_document f of None \<Rightarrow> Inl LPlain
             | Some st \<Rightarrow>
                 (case validate_snapshot lib st of Some e \<Rightarrow> Inl e
                  | None \<Rightarrow>
                      if \<not> (st = canonical_snapshot st \<and> sf_spelling f) then Inl LPlain
                      else Inr st))))"

definition write_state :: "uuid_lib \<Rightarrow> (os_call \<Rightarrow> bool) \<Rightarrow> snapshot \<Rightarrow> disk \<Rightarrow>
    lease_error option \<times> disk" where
  "write_state lib os st0 d =
    (let st = canonical_snapshot st0
     in case validate_snapshot lib st of Some e \<Rightarrow> (Some e, d)
        | None \<Rightarrow>
            (case first_error (\<lambda>c. fail_if (\<not> os c) LPlain)
                [OEnsureRoot, OCreateTemp, OChmod, OEncode, OSync, OClose, OReplace] of
               Some e \<Rightarrow> (Some e, d)
             | None \<Rightarrow> (fail_if (\<not> os OSyncDirectory) LPlain,
                 Some \<lparr>sf_regular = True, sf_private = True, sf_document = Some st, sf_spelling = True\<rparr>)))"

definition update_state :: "uuid_lib \<Rightarrow> (os_call \<Rightarrow> bool) \<Rightarrow>
    (snapshot \<Rightarrow> lease_error + (bool \<times> 'a \<times> snapshot)) \<Rightarrow> disk \<Rightarrow> (lease_error + 'a) \<times> disk" where
  "update_state lib os mutate d =
    (if \<not> os OStateLock then (Inl LPlain, d)
     else (case load_state lib os d of Inl e \<Rightarrow> (Inl e, d)
       | Inr st \<Rightarrow> (case mutate st of Inl e \<Rightarrow> (Inl e, d)
       | Inr (changed, x, st') \<Rightarrow>
           if \<not> changed then (Inr x, d)
           else (case write_state lib os st' d of
               (Some e, d') \<Rightarrow> (Inl e, d')
             | (None, d') \<Rightarrow> (Inr x, d')))))"

definition read_state :: "uuid_lib \<Rightarrow> (os_call \<Rightarrow> bool) \<Rightarrow>
    (snapshot \<Rightarrow> lease_error option) \<Rightarrow> disk \<Rightarrow> lease_error option" where
  "read_state lib os rd d =
    (if \<not> os OStateLock then Some LPlain
     else (case load_state lib os d of Inl e \<Rightarrow> Some e | Inr st \<Rightarrow> rd st))"

text \<open>
  \<open>withKeyLocks\<close>: the keys are canonicalised, the layout is prepared, and the lock of each key
  is taken in canonical order before the operation runs on them.
\<close>

definition with_key_locks :: "(os_call \<Rightarrow> bool) \<Rightarrow> lkey list \<Rightarrow> (lease_error \<Rightarrow> 'r) \<Rightarrow>
    (lkey list \<Rightarrow> 'r) \<Rightarrow> 'r" where
  "with_key_locks os keys failed operation =
    (case canonical_keys keys of Inl e \<Rightarrow> failed e
     | Inr canonical \<Rightarrow>
         if \<not> os OLayout then failed LPlain
         else (case first_error (\<lambda>k. fail_if (\<not> os (OKeyLock k)) LPlain) canonical of
             Some e \<Rightarrow> failed e
           | None \<Rightarrow> operation canonical))"

section \<open>The public operations\<close>

definition activate :: "uuid_lib \<Rightarrow> (os_call \<Rightarrow> bool) \<Rightarrow> gotime \<Rightarrow> lkey list \<Rightarrow> request \<Rightarrow> bool \<Rightarrow>
    disk \<Rightarrow> (lease_error + token) \<times> disk" where
  "activate lib os clock keys req fence d =
    (case request_validate lib req of Some e \<Rightarrow> (Inl e, d)
     | None \<Rightarrow> (case canonical_keys keys of Inl e \<Rightarrow> (Inl e, d)
     | Inr claimed \<Rightarrow> with_key_locks os (mutation_keys claimed) (\<lambda>e. (Inl e, d))
         (\<lambda>_. update_state lib os (activate_body clock claimed req fence) d)))"

definition reserve :: "uuid_lib \<Rightarrow> (os_call \<Rightarrow> bool) \<Rightarrow> gotime \<Rightarrow> lkey list \<Rightarrow> request \<Rightarrow>
    disk \<Rightarrow> (lease_error + token) \<times> disk" where
  "reserve lib os clock keys req d = activate lib os clock keys req False d"

definition fence :: "uuid_lib \<Rightarrow> (os_call \<Rightarrow> bool) \<Rightarrow> gotime \<Rightarrow> lkey list \<Rightarrow> request \<Rightarrow>
    disk \<Rightarrow> (lease_error + token) \<times> disk" where
  "fence lib os clock keys req d = activate lib os clock keys req True d"

definition finish_claim :: "uuid_lib \<Rightarrow> (os_call \<Rightarrow> bool) \<Rightarrow> gotime \<Rightarrow> lkey list \<Rightarrow> token \<Rightarrow>
    claim_kind \<Rightarrow> string \<Rightarrow> disk \<Rightarrow> (lease_error + epoch) \<times> disk" where
  "finish_claim lib os clock keys t kind terminal d =
    (case token_validate lib t of Some e \<Rightarrow> (Inl e, d)
     | None \<Rightarrow> (case canonical_keys keys of Inl e \<Rightarrow> (Inl e, d)
     | Inr claimed \<Rightarrow> with_key_locks os (mutation_keys claimed) (\<lambda>e. (Inl e, d))
         (\<lambda>_. update_state lib os (finish_body clock claimed t kind terminal) d)))"

definition release_reservation :: "uuid_lib \<Rightarrow> (os_call \<Rightarrow> bool) \<Rightarrow> gotime \<Rightarrow> lkey list \<Rightarrow> token \<Rightarrow>
    disk \<Rightarrow> (lease_error + epoch) \<times> disk" where
  "release_reservation lib os clock keys t d = finish_claim lib os clock keys t KReservation [] d"

definition abort_reservation :: "uuid_lib \<Rightarrow> (os_call \<Rightarrow> bool) \<Rightarrow> gotime \<Rightarrow> lkey list \<Rightarrow> token \<Rightarrow>
    disk \<Rightarrow> (lease_error + epoch) \<times> disk" where
  "abort_reservation lib os clock keys t d =
    finish_claim lib os clock keys t KReservation tombstone_aborted d"

definition return_fence :: "uuid_lib \<Rightarrow> (os_call \<Rightarrow> bool) \<Rightarrow> gotime \<Rightarrow> lkey list \<Rightarrow> token \<Rightarrow>
    disk \<Rightarrow> (lease_error + epoch) \<times> disk" where
  "return_fence lib os clock keys t d = finish_claim lib os clock keys t KFence tombstone_returned d"

text \<open>The guarded operation is any change of a world \<open>w\<close> that may fail.\<close>

definition with_guard :: "uuid_lib \<Rightarrow> (os_call \<Rightarrow> bool) \<Rightarrow> lkey list \<Rightarrow> token option \<Rightarrow>
    ('w \<Rightarrow> lease_error option \<times> 'w) \<Rightarrow> disk \<Rightarrow> 'w \<Rightarrow> lease_error option \<times> 'w" where
  "with_guard lib os keys tok operation d w =
    (case canonical_keys keys of Inl e \<Rightarrow> (Some e, w)
     | Inr claimed \<Rightarrow>
         (case (case tok of None \<Rightarrow> None | Some t \<Rightarrow> token_validate lib t) of Some e \<Rightarrow> (Some e, w)
          | None \<Rightarrow> with_key_locks os (mutation_keys claimed) (\<lambda>e. (Some e, w))
              (\<lambda>locked. case read_state lib os (guard_check locked claimed tok) d of
                  Some e \<Rightarrow> (Some e, w)
                | None \<Rightarrow> operation w)))"

definition with_mutation :: "uuid_lib \<Rightarrow> (os_call \<Rightarrow> bool) \<Rightarrow> lkey list \<Rightarrow>
    ('w \<Rightarrow> lease_error option \<times> 'w) \<Rightarrow> disk \<Rightarrow> 'w \<Rightarrow> lease_error option \<times> 'w" where
  "with_mutation lib os keys operation d w = with_guard lib os keys None operation d w"

definition inspect :: "uuid_lib \<Rightarrow> (os_call \<Rightarrow> bool) \<Rightarrow> lkey list \<Rightarrow> disk \<Rightarrow>
    lease_error + lrecord list" where
  "inspect lib os keys d = with_key_locks os keys Inl
    (\<lambda>canonical. if \<not> os OStateLock then Inl LPlain
       else (case load_state lib os d of Inl e \<Rightarrow> Inl e
         | Inr st \<Rightarrow> Inr (inspect_body canonical st)))"

end
