(* ===== verification/LeaseInvariant.thy ===== *)
theory LeaseInvariant
  imports LeaseState
begin

text \<open>
  What the lease authority keeps true. A snapshot that validates stays valid under every
  operation, so the authority never refuses to write or to read back what it computed; a token's
  epoch is new; claims that overlap in the repository/branch hierarchy belong to one operation;
  a terminal operation stays terminal; retries are idempotent.
\<close>

section \<open>Epochs\<close>

lemma epoch_succ: "(x :: epoch) \<noteq> - 1 \<Longrightarrow> x < x + 1"
proof -
  assume "x \<noteq> - 1"
  then have "1 + x \<noteq> 0" by (metis add.inverse_inverse add_eq_0_iff)
  then have "unat (1 + x) = Suc (unat x)" by (rule unatSuc)
  then show ?thesis by (simp add: word_less_nat_alt add.commute)
qed

lemma allocate_epochD:
  "allocate_epoch st = Inr (e, st') \<Longrightarrow>
    e = sn_last st + 1 \<and> sn_last st < e \<and> st' = st\<lparr>sn_last := e\<rparr>"
  using epoch_succ [of "sn_last st"] by (auto simp: allocate_epoch_def split: if_splits)

lemma foldl_max_epoch:
  "foldl (\<lambda>m r. if m < rec_epoch r then rec_epoch r else m) (m::epoch) rs =
    Max (insert m (rec_epoch ` set rs))"
proof (induction rs arbitrary: m)
  case (Cons r rs)
  have "Max (insert (max m (rec_epoch r)) (rec_epoch ` set rs)) =
      Max (insert m (insert (rec_epoch r) (rec_epoch ` set rs)))"
    by (cases "rec_epoch ` set rs = {}") (simp_all add: max.assoc)
  moreover have "(if m < rec_epoch r then rec_epoch r else m) = max m (rec_epoch r)"
    by (auto simp: max_def not_less intro: order.antisym dest: less_imp_le)
  ultimately show ?case using Cons.IH [of "max m (rec_epoch r)"] by simp
qed simp

lemma max_record_epoch_eq: "max_record_epoch rs = Max (insert 0 (rec_epoch ` set rs))"
  unfolding max_record_epoch_def by (rule foldl_max_epoch)

lemma max_record_epochI:
  assumes "r \<in> set rs" and "\<And>r'. r' \<in> set rs \<Longrightarrow> rec_epoch r' \<le> rec_epoch r"
  shows "max_record_epoch rs = rec_epoch r"
  unfolding max_record_epoch_eq using assms by (intro Max_eqI) (auto simp: word_zero_le)

section \<open>What validation says\<close>

lemma agree_iff:
  "agree xs \<longleftrightarrow> single_valued (set xs)"
  by (induction xs rule: agree.induct) (auto simp: list_all_iff single_valued_def)

definition binding_map :: "snapshot \<Rightarrow> string \<rightharpoonup> string" where
  "binding_map st = map_of (map (\<lambda>b. (bd_operation b, bd_digest b)) (sn_bindings st))"

definition actives :: "lrecord list \<Rightarrow> (string \<times> token \<times> string \<times> claim_kind) set" where
  "actives rs = (\<Union>r \<in> set rs. set (active_signatures r))"

definition terminals :: "lrecord list \<Rightarrow> (string \<times> token \<times> string \<times> epoch) set" where
  "terminals rs = (\<Union>r \<in> set rs. set (terminal_signatures r))"

abbreviation rkey :: "lrecord \<Rightarrow> string" where
  "rkey r \<equiv> key_canonical (rec_key r)"

lemma validate_snapshot_iff:
  "validate_snapshot lib st = None \<longleftrightarrow>
    sn_schema st = schema_version \<and>
    (\<forall>b \<in> set (sn_bindings st). binding_validate lib b = None) \<and>
    distinct (map bd_operation (sn_bindings st)) \<and>
    (\<forall>r \<in> set (sn_records st). record_validate lib st r = None) \<and>
    distinct (map rkey (sn_records st)) \<and>
    single_valued (actives (sn_records st)) \<and> single_valued (terminals (sn_records st)) \<and>
    sn_last st = max_record_epoch (sn_records st) \<and>
    fst ` actives (sn_records st) \<inter> fst ` terminals (sn_records st) = {}"
proof -
  have sets: "set (concat (map active_signatures rs)) = actives rs"
    "set (concat (map terminal_signatures rs)) = terminals rs" for rs
    by (simp_all add: actives_def terminals_def)
  have ex: "list_ex (\<lambda>(oper, _). oper \<in> fst ` terminals rs) (concat (map active_signatures rs)) \<longleftrightarrow>
      fst ` actives rs \<inter> fst ` terminals rs \<noteq> {}" for rs
    unfolding list_ex_iff sets by (auto simp: split_beta image_iff disjoint_iff)
  show ?thesis
    unfolding validate_snapshot_def agree_iff sets ex by (simp add: first_error_None_iff)
qed

lemma claim_validate_iff:
  "claim_validate lib st r (Some c) = None \<longleftrightarrow> token_validate lib (cl_token c) = None \<and>
    binding_map st (tk_operation (cl_token c)) = Some (tk_digest (cl_token c)) \<and>
    tk_epoch (cl_token c) = rec_epoch r \<and> \<not> time_is_zero (cl_created c) \<and>
    (cl_machine c \<noteq> [] \<longrightarrow> machineid_valid lib (cl_machine c))"
  by (auto simp: claim_validate_def binding_map_def)

lemma claim_validate_None [simp]: "claim_validate lib st r None = None"
  by (simp add: claim_validate_def)

definition claims_of :: "lrecord \<Rightarrow> claim set" where
  "claims_of r = set_option (rec_reservation r) \<union> set_option (rec_fence r)"

lemma tombstone_validate_iff:
  "tombstone_validate lib st r tb = None \<longleftrightarrow>
    tb_kind tb \<in> {tombstone_aborted, tombstone_returned} \<and> token_validate lib (tb_token tb) = None \<and>
    binding_map st (tk_operation (tb_token tb)) = Some (tk_digest (tb_token tb)) \<and>
    tk_epoch (tb_token tb) < tb_advanced tb \<and> tb_advanced tb \<le> rec_epoch r \<and>
    tb_advanced tb \<le> sn_last st \<and> \<not> time_is_zero (tb_created tb) \<and>
    (\<forall>c \<in> claims_of r. cl_token c \<noteq> tb_token tb)"
  by (auto simp: tombstone_validate_def binding_map_def claims_of_def not_le not_less split: option.splits)

lemma record_validate_iff:
  "record_validate lib st r = None \<longleftrightarrow>
    key_validate (rec_key r) = None \<and> rec_epoch r \<noteq> 0 \<and> rec_epoch r \<le> sn_last st \<and>
    (rec_reservation r = None \<or> rec_fence r = None) \<and>
    (\<forall>c \<in> claims_of r. claim_validate lib st r (Some c) = None) \<and>
    (\<forall>tb \<in> set (rec_tombstones r). tombstone_validate lib st r tb = None) \<and>
    distinct (map tb_token (rec_tombstones r))"
  unfolding record_validate_def claims_of_def
  by (cases "rec_reservation r"; cases "rec_fence r")
    (simp_all add: first_error_None_iff not_less)

lemma record_validate_mono:
  assumes "record_validate lib st r = None" and "sn_last st \<le> sn_last st'"
    and "binding_map st \<subseteq>\<^sub>m binding_map st'"
  shows "record_validate lib st' r = None"
  using assms
  by (auto simp: record_validate_iff claim_validate_iff tombstone_validate_iff map_le_def dom_def)

lemma active_claim_cases:
  "active_claim r = None \<longleftrightarrow> claims_of r = {}"
  "active_claim r = Some (c, k) \<Longrightarrow> c \<in> claims_of r"
  by (auto simp: active_claim_def claims_of_def split: option.splits)

lemma actives_iff:
  "(oper, t, m, k) \<in> actives rs \<longleftrightarrow>
    (\<exists>r \<in> set rs. \<exists>c. claim_of k r = Some c \<and> oper = tk_operation t \<and> t = cl_token c \<and> m = cl_machine c)"
proof -
  have "(oper, t, m, k) \<in> set (active_signatures r) \<longleftrightarrow>
      (\<exists>c. claim_of k r = Some c \<and> oper = tk_operation t \<and> t = cl_token c \<and> m = cl_machine c)" for r
    unfolding active_signatures_def claim_of_def
    by (cases k; cases "rec_reservation r"; cases "rec_fence r") auto
  then show ?thesis by (simp add: actives_def)
qed

lemma fst_actives: "fst ` actives rs = {tk_operation (cl_token c) | c r. r \<in> set rs \<and> c \<in> claims_of r}"
proof -
  have "fst ` set (active_signatures r) = (\<lambda>c. tk_operation (cl_token c)) ` claims_of r" for r
    unfolding active_signatures_def claims_of_def
    by (cases "rec_reservation r"; cases "rec_fence r") auto
  then show ?thesis by (simp add: actives_def image_UN) blast
qed

lemma terminals_iff:
  "(oper, t, k, e) \<in> terminals rs \<longleftrightarrow> (\<exists>r \<in> set rs. \<exists>tb \<in> set (rec_tombstones r).
     oper = tk_operation t \<and> t = tb_token tb \<and> k = tb_kind tb \<and> e = tb_advanced tb)"
  by (auto simp: terminals_def terminal_signatures_def)

section \<open>Writing through the records of a key set\<close>

lemma fold_ensure_record:
  assumes "distinct (map key_canonical ks)" and "distinct (map rkey rs)"
    and "\<And>r. rec_key (f r) = rec_key r"
  shows "distinct (map rkey (fold (\<lambda>k. ensure_record k f) ks rs)) \<and>
    set (fold (\<lambda>k. ensure_record k f) ks rs) =
      {r \<in> set rs. rkey r \<notin> key_canonical ` set ks} \<union>
      (\<lambda>k. f (case find_record rs k of Some r \<Rightarrow> r | None \<Rightarrow> empty_record k)) ` set ks"
  using assms(1,2)
proof (induction ks arbitrary: rs)
  case (Cons k ks)
  let ?rs = "ensure_record k f rs"
  let ?old = "\<lambda>rs k. case find_record rs k of Some r \<Rightarrow> r | None \<Rightarrow> empty_record k"
  have key: "rkey (empty_record k) = key_canonical k" by (simp add: empty_record_def)
  have d: "distinct (map rkey ?rs)"
    unfolding ensure_record_def using Cons.prems(2) assms(3) key by (intro distinct_upd_by) simp_all
  have s: "set ?rs = insert (f (?old rs k)) {r \<in> set rs. rkey r \<noteq> key_canonical k}"
    unfolding ensure_record_def find_record_def
    using Cons.prems(2) assms(3) key by (intro set_upd_by) simp_all
  have kf: "rkey (f (?old rs k)) = key_canonical k"
    using assms(3) key by (auto simp: find_record_def dest: find_by_SomeD split: option.splits)
  have o: "find_record ?rs k' = find_record rs k'" if "k' \<in> set ks" for k'
    unfolding ensure_record_def find_record_def
    using that Cons.prems(1) assms(3) key by (subst find_by_upd_by) (auto simp: image_iff)
  from Cons.IH [OF _ d] Cons.prems(1) have
    "distinct (map rkey (fold (\<lambda>k. ensure_record k f) ks ?rs)) \<and>
     set (fold (\<lambda>k. ensure_record k f) ks ?rs) =
       {r \<in> set ?rs. rkey r \<notin> key_canonical ` set ks} \<union> (\<lambda>k. f (?old ?rs k)) ` set ks"
    by simp
  moreover have "(\<lambda>k. f (?old ?rs k)) ` set ks = (\<lambda>k. f (?old rs k)) ` set ks"
    using o by (intro image_cong) simp_all
  moreover have "{r \<in> set ?rs. rkey r \<notin> key_canonical ` set ks} =
      insert (f (?old rs k)) {r \<in> set rs. rkey r \<notin> key_canonical ` set (k # ks)}"
    using Cons.prems(1) kf unfolding s by (auto simp: image_iff)
  ultimately show ?case by simp
qed simp

lemma find_record_SomeD: "find_record rs k = Some r \<Longrightarrow> r \<in> set rs \<and> rkey r = key_canonical k"
  by (auto simp: find_record_def dest: find_by_SomeD)

lemma find_record_mem: "distinct (map rkey rs) \<Longrightarrow> r \<in> set rs \<Longrightarrow> find_record rs (rec_key r) = Some r"
  unfolding find_record_def by (rule find_by_mem [where key = "\<lambda>r. key_canonical (rec_key r)"])

abbreviation old_record :: "lrecord list \<Rightarrow> lkey \<Rightarrow> lrecord" where
  "old_record rs k \<equiv> (case find_record rs k of Some r \<Rightarrow> r | None \<Rightarrow> empty_record k)"

lemma find_record_eq:
  assumes "distinct (map rkey rs)" and "r \<in> set rs" and "rkey r = key_canonical k"
  shows "find_record rs k = Some r"
  using find_record_mem [OF assms(1,2)] assms(3) by (simp add: find_record_def)

lemma find_record_None_iff: "find_record rs k = None \<longleftrightarrow> key_canonical k \<notin> rkey ` set rs"
  by (simp add: find_record_def find_by_None_iff)

lemma old_record_key: "rkey (old_record rs k) = key_canonical k"
  by (auto simp: empty_record_def dest: find_record_SomeD split: option.split)

lemma valid_records:
  assumes "validate_snapshot lib st = None" and "r \<in> set (sn_records st)"
  shows "record_validate lib st r = None"
  using assms by (simp add: validate_snapshot_iff)

text \<open>What an operation has to show about the records it writes.\<close>

lemma write_valid:
  assumes valid: "validate_snapshot lib st = None"
    and keys: "keys \<noteq> []" "distinct (map key_canonical keys)"
    and f: "\<And>r. rec_key (f r) = rec_key r" "\<And>r. rec_epoch (f r) = e"
    and epoch: "sn_last st < e" "sn_last st' = e"
    and bindings: "binding_map st \<subseteq>\<^sub>m binding_map st'" "distinct (map bd_operation (sn_bindings st'))"
      "\<forall>b \<in> set (sn_bindings st'). binding_validate lib b = None"
    and schema: "sn_schema st' = sn_schema st"
    and recs: "sn_records st' = fold (\<lambda>k. ensure_record k f) keys (sn_records st)"
    and new: "\<And>k. k \<in> set keys \<Longrightarrow> record_validate lib st' (f (old_record (sn_records st) k)) = None"
    and act: "single_valued (actives (sn_records st'))"
    and ter: "single_valued (terminals (sn_records st'))"
    and disj: "fst ` actives (sn_records st') \<inter> fst ` terminals (sn_records st') = {}"
  shows "validate_snapshot lib st' = None"
proof -
  let ?old = "\<lambda>k. f (old_record (sn_records st) k)"
  from valid have d: "distinct (map rkey (sn_records st))" and "sn_schema st = schema_version"
    by (simp_all add: validate_snapshot_iff)
  from fold_ensure_record [OF keys(2) d, of f] f(1)
  have d': "distinct (map rkey (sn_records st'))" and set': "set (sn_records st') =
      {r \<in> set (sn_records st). rkey r \<notin> key_canonical ` set keys} \<union> ?old ` set keys"
    by (simp_all add: recs)
  have old: "record_validate lib st r = None" if "r \<in> set (sn_records st)" for r
    using that valid by (rule_tac valid_records)
  have rv: "record_validate lib st' r = None" if "r \<in> set (sn_records st')" for r
    using that new record_validate_mono [OF old _ bindings(1)] epoch unfolding set'
    by (auto intro: less_imp_le)
  have le: "rec_epoch r \<le> e" if "r \<in> set (sn_records st')" for r
    using rv [OF that] epoch(2) by (simp add: record_validate_iff)
  obtain k where "k \<in> set keys" using keys(1) by (cases keys) auto
  then have "?old k \<in> set (sn_records st')" by (simp add: set')
  from max_record_epochI [OF this] le f(2) have "max_record_epoch (sn_records st') = e" by simp
  with rv d' act ter disj bindings epoch schema \<open>sn_schema st = _\<close> show ?thesis
    by (simp add: validate_snapshot_iff)
qed

lemma written_records:
  assumes "validate_snapshot lib st = None" and "distinct (map key_canonical keys)"
    and "\<And>r. rec_key (f r) = rec_key r"
    and "r \<in> set (fold (\<lambda>k. ensure_record k f) keys (sn_records st))"
  shows "(r \<in> set (sn_records st) \<and> rkey r \<notin> key_canonical ` set keys) \<or>
    (\<exists>k \<in> set keys. r = f (old_record (sn_records st) k))"
  using fold_ensure_record [OF assms(2), of "sn_records st" f] assms(1,3,4)
  by (auto simp: validate_snapshot_iff)


section \<open>What the checks of Reserve and Fence establish\<close>

lemma active_claim_of:
  assumes "rec_reservation r = None \<or> rec_fence r = None" and "c \<in> claims_of r"
  shows "\<exists>k. active_claim r = Some (c, k) \<and> claim_of k r = Some c"
  using assms unfolding claims_of_def active_claim_def claim_of_def
  by (cases "rec_reservation r"; cases "rec_fence r") (auto intro: exI [of _ KReservation] exI [of _ KFence])

lemma active_claim_SomeD:
  "active_claim r = Some (c, k) \<Longrightarrow> claim_of k r = Some c \<and> c \<in> claims_of r"
  unfolding claims_of_def active_claim_def claim_of_def
  by (cases "rec_reservation r"; cases "rec_fence r") auto

lemma valid_single_claim:
  assumes "validate_snapshot lib st = None" and "r \<in> set (sn_records st)"
  shows "rec_reservation r = None \<or> rec_fence r = None"
  using valid_records [OF assms] by (simp add: record_validate_iff)

lemma map_of_bindings:
  "map_of (map (\<lambda>b. (bd_operation b, bd_digest b)) bs) oper =
    map_option bd_digest (List.find (\<lambda>b. bd_operation b = oper) bs)"
  by (induction bs) auto

lemma operation_reuseD:
  assumes "validate_snapshot lib st = None" and "check_operation_reuse st keys req = None"
  shows "\<And>d. binding_map st (rq_operation req) = Some d \<Longrightarrow> d = rq_digest req"
    and "\<And>r tb. r \<in> set (sn_records st) \<Longrightarrow> tb \<in> set (rec_tombstones r) \<Longrightarrow>
      tk_operation (tb_token tb) \<noteq> rq_operation req"
    and "\<And>r c. r \<in> set (sn_records st) \<Longrightarrow> c \<in> claims_of r \<Longrightarrow>
      tk_operation (cl_token c) = rq_operation req \<Longrightarrow>
      tk_digest (cl_token c) = rq_digest req \<and> rkey r \<in> key_canonical ` set keys"
proof -
  fix d assume "binding_map st (rq_operation req) = Some d"
  then have "map_option bd_digest (List.find (\<lambda>b. bd_operation b = rq_operation req)
      (sn_bindings st)) = Some d" unfolding binding_map_def map_of_bindings .
  with assms(2) show "d = rq_digest req"
    by (auto simp: check_operation_reuse_def binding_reuse_def)
next
  fix r assume r: "r \<in> set (sn_records st)"
  with assms(2) have reuse: "record_reuse keys req r = None"
    by (simp add: check_operation_reuse_def first_error_None_iff)
  { fix tb assume "tb \<in> set (rec_tombstones r)"
    with reuse show "tk_operation (tb_token tb) \<noteq> rq_operation req"
      by (auto simp: record_reuse_def tombstone_reuse_def first_error_None_iff split: if_splits) }
  { fix c assume "c \<in> claims_of r" and "tk_operation (cl_token c) = rq_operation req"
    with reuse active_claim_of [OF valid_single_claim [OF assms(1) r]]
    show "tk_digest (cl_token c) = rq_digest req \<and> rkey r \<in> key_canonical ` set keys"
      by (force simp: record_reuse_def) }
qed

lemma hierarchyD:
  assumes "validate_snapshot lib st = None" and "check_hierarchy_claims st keys req = None"
    and "r \<in> set (sn_records st)" and "claims_of r \<noteq> {}" and "rkey r \<notin> key_canonical ` set keys"
    and "k \<in> set keys" and "k_repository k = k_repository (rec_key r)"
  shows "k_scope (rec_key r) \<noteq> scope_repository \<and> k_scope k \<noteq> scope_repository"
proof -
  from assms(4) obtain c where "c \<in> claims_of r" by blast
  from active_claim_of [OF valid_single_claim [OF assms(1,3)] this]
  obtain kind where "active_claim r = Some (c, kind)" by blast
  with assms(2,3,5-) show ?thesis
    by (auto simp: check_hierarchy_claims_def first_error_None_iff hierarchy_conflict_def
        list_ex_iff image_iff eq_commute [of "k_repository (rec_key r)"]
        dest!: bspec [OF _ assms(3)] split: if_splits)
qed

lemma ensure_bindingD:
  assumes "ensure_binding st req = (added, st1)"
  shows "sn_records st1 = sn_records st" "sn_last st1 = sn_last st" "sn_schema st1 = sn_schema st"
    and "binding_map st \<subseteq>\<^sub>m binding_map st1"
    and "distinct (map bd_operation (sn_bindings st)) \<Longrightarrow> distinct (map bd_operation (sn_bindings st1))"
    and "\<exists>d. binding_map st1 (rq_operation req) = Some d \<and>
      (d = rq_digest req \<or> binding_map st (rq_operation req) = Some d)"
    and "set (sn_bindings st1) \<subseteq> insert \<lparr>bd_operation = rq_operation req, bd_digest = rq_digest req\<rparr>
      (set (sn_bindings st))"
    and "added \<longleftrightarrow> binding_map st (rq_operation req) = None"
    and "\<not> added \<Longrightarrow> st1 = st"
proof -
  have "map_of (map (\<lambda>b. (bd_operation b, bd_digest b)) bs) oper = None \<longleftrightarrow>
      oper \<notin> bd_operation ` set bs" for bs oper
    by (induction bs) auto
  note dom = this
  show "sn_records st1 = sn_records st" "sn_last st1 = sn_last st" "sn_schema st1 = sn_schema st"
    "\<not> added \<Longrightarrow> st1 = st"
    "set (sn_bindings st1) \<subseteq> insert \<lparr>bd_operation = rq_operation req, bd_digest = rq_digest req\<rparr>
      (set (sn_bindings st))"
    using assms by (auto simp: ensure_binding_def split: if_splits)
  show "added \<longleftrightarrow> binding_map st (rq_operation req) = None"
  proof -
    have "rq_operation req \<notin> bd_operation ` set (sn_bindings st) \<longleftrightarrow>
        \<not> list_ex (\<lambda>b. bd_operation b = rq_operation req) (sn_bindings st)"
      unfolding list_ex_iff by (metis imageE imageI)
    then show ?thesis
      using assms unfolding binding_map_def dom by (auto simp: ensure_binding_def split: if_splits)
  qed
  show "binding_map st \<subseteq>\<^sub>m binding_map st1"
    using assms by (auto simp: ensure_binding_def binding_map_def map_le_def dom_def
        map_add_def split: if_splits option.splits)
  show "distinct (map bd_operation (sn_bindings st)) \<Longrightarrow> distinct (map bd_operation (sn_bindings st1))"
    using assms by (fastforce simp: ensure_binding_def list_ex_iff split: if_splits)
  show "\<exists>d. binding_map st1 (rq_operation req) = Some d \<and>
      (d = rq_digest req \<or> binding_map st (rq_operation req) = Some d)"
  proof (cases "binding_map st (rq_operation req)")
    case None
    with \<open>added \<longleftrightarrow> binding_map st (rq_operation req) = None\<close> have added by simp
    with assms have "sn_bindings st1 = sn_bindings st @
        [\<lparr>bd_operation = rq_operation req, bd_digest = rq_digest req\<rparr>]"
      by (auto simp: ensure_binding_def split: if_splits)
    with None show ?thesis by (simp add: binding_map_def map_add_def)
  next
    case (Some d)
    with \<open>binding_map st \<subseteq>\<^sub>m binding_map st1\<close> show ?thesis by (force simp: map_le_def)
  qed
qed

lemma same_kind_scanD:
  "same_kind_scan w req ex cs = Inr (Some t) \<Longrightarrow>
    (\<forall>oc \<in> set cs. \<exists>c. oc = Some (c, w) \<and> cl_token c = t \<and> same_operation (cl_token c) req \<and>
      cl_machine c = rq_machine req) \<and> (case ex of None \<Rightarrow> True | Some t' \<Rightarrow> t' = t)"
  by (induction w req ex cs rule: same_kind_scan.induct) (auto split: if_splits option.splits)

lemma promote_scanD:
  "promote_scan req p a cs = Inr res \<Longrightarrow> (k, Some (c, kind)) \<in> set cs \<Longrightarrow>
    kind = KReservation \<and> same_operation (cl_token c) req \<and> cl_machine c = rq_machine req"
  by (induction req p a cs rule: promote_scan.induct) (auto split: if_splits)


section \<open>Reserve and Fence keep a snapshot valid\<close>

abbreviation claims_at :: "lrecord list \<Rightarrow> lkey list \<Rightarrow> (claim \<times> claim_kind) option list" where
  "claims_at rs keys \<equiv> map (\<lambda>k. Option.bind (find_record rs k) active_claim) keys"

abbreviation kind_of :: "bool \<Rightarrow> claim_kind" where
  "kind_of is_fence \<equiv> (if is_fence then KFence else KReservation)"

lemma activate_body_cases:
  assumes "activate_body clock keys req is_fence st = Inr (changed, t, st')"
  obtains (existing) added st1 where "check_operation_reuse st keys req = None"
      "ensure_binding st req = (added, st1)" "check_hierarchy_claims st1 keys req = None"
      "same_kind_scan (kind_of is_fence) req None (claims_at (sn_records st1) keys) = Inr (Some t)"
      "changed = added" "st' = st1"
  | (fresh) added st1 promote any_claim e where "check_operation_reuse st keys req = None"
      "ensure_binding st req = (added, st1)" "check_hierarchy_claims st1 keys req = None"
      "same_kind_scan (kind_of is_fence) req None (claims_at (sn_records st1) keys) = Inr None"
      "promote_scan req is_fence False (zip keys (claims_at (sn_records st1) keys)) = Inr (promote, any_claim)"
      "\<not> (any_claim \<and> \<not> promote)" "sn_last st1 < e" "e = sn_last st1 + 1" "changed"
      "t = \<lparr>tk_operation = rq_operation req, tk_digest = rq_digest req, tk_epoch = e\<rparr>"
      "st' = st1\<lparr>sn_last := e, sn_records := put_claims is_fence e
        \<lparr>cl_token = t, cl_machine = rq_machine req, cl_created = lease_time clock\<rparr> keys (sn_records st1)\<rparr>"
  using assms unfolding activate_body_def Let_def
  by (auto split: option.splits prod.splits sum.splits if_splits dest!: allocate_epochD)

lemma existing_claims:
  assumes "same_kind_scan w req None (claims_at rs keys) = Inr (Some t)" and "k \<in> set keys"
  shows "\<exists>r c. find_record rs k = Some r \<and> active_claim r = Some (c, w) \<and> cl_token c = t \<and>
    same_operation t req \<and> cl_machine c = rq_machine req"
  using same_kind_scanD [OF assms(1)] assms(2)
  by (auto simp: Option.bind_eq_Some_conv)

lemma request_token_valid:
  assumes "request_validate lib req = None" and "e \<noteq> 0"
  shows "token_validate lib \<lparr>tk_operation = rq_operation req, tk_digest = rq_digest req, tk_epoch = e\<rparr> = None"
  using assms by (simp add: token_validate_def request_validate_def)

lemma claims_of_set_claim [simp]: "claims_of (set_claim is_fence c r) = {c}"
  by (cases is_fence) (simp_all add: set_claim_def claims_of_def)

lemma set_claim_simps [simp]:
  "rec_key (set_claim is_fence c r) = rec_key r" "rec_epoch (set_claim is_fence c r) = rec_epoch r"
  "rec_tombstones (set_claim is_fence c r) = rec_tombstones r"
  "rec_reservation (set_claim is_fence c r) = None \<or> rec_fence (set_claim is_fence c r) = None"
  "claim_of k (set_claim is_fence c r) = (if k = kind_of is_fence then Some c else None)"
  by (cases is_fence; cases k; simp add: set_claim_def claim_of_def)+

text \<open>The record an operation finds on a key: a valid one, or an empty one.\<close>

lemma old_record_cases:
  assumes "validate_snapshot lib st = None" and "key_validate k = None"
  obtains (found) r where "old_record (sn_records st) k = r" "r \<in> set (sn_records st)"
      "record_validate lib st r = None" "rkey r = key_canonical k" "find_record (sn_records st) k = Some r"
  | (empty) "old_record (sn_records st) k = empty_record k" "find_record (sn_records st) k = None"
  using assms valid_records [OF assms(1)]
  by (cases "find_record (sn_records st) k") (auto dest: find_record_SomeD)

lemma empty_record_simps [simp]:
  "rec_key (empty_record k) = k" "rec_epoch (empty_record k) = 0" "rec_tombstones (empty_record k) = []"
  "rec_reservation (empty_record k) = None" "rec_fence (empty_record k) = None"
  "claims_of (empty_record k) = {}"
  by (simp_all add: empty_record_def claims_of_def)

lemma put_claims_records:
  assumes "validate_snapshot lib st = None" and "distinct (map key_canonical keys)"
    and "r \<in> set (put_claims is_fence e c keys (sn_records st))"
  shows "(r \<in> set (sn_records st) \<and> rkey r \<notin> key_canonical ` set keys) \<or>
    (\<exists>k \<in> set keys. r = set_claim is_fence c ((old_record (sn_records st) k)\<lparr>rec_epoch := e\<rparr>))"
  using written_records [OF assms(1,2), of "\<lambda>r. set_claim is_fence c (r\<lparr>rec_epoch := e\<rparr>)"] assms(3)
  by (simp add: put_claims_def)

lemma put_claims_valid:
  assumes valid: "validate_snapshot lib st = None" and keys: "canonical_keys ks = Inr keys"
    and req: "request_validate lib req = None" and clock: "\<not> time_is_zero now"
    and reuse: "check_operation_reuse st keys req = None"
    and ens: "ensure_binding st req = (added, st1)" and e: "sn_last st < e"
    and c: "c = \<lparr>cl_token = \<lparr>tk_operation = rq_operation req, tk_digest = rq_digest req, tk_epoch = e\<rparr>,
      cl_machine = rq_machine req, cl_created = now\<rparr>"
  shows "validate_snapshot lib (st1\<lparr>sn_last := e, sn_records := put_claims is_fence e c keys (sn_records st)\<rparr>) = None"
    (is "validate_snapshot lib ?st' = None")
proof -
  note ck = canonical_keys_okD [OF keys] and ed = ensure_bindingD [OF ens]
    and reuseD = operation_reuseD [OF valid reuse]
  let ?rs = "put_claims is_fence e c keys (sn_records st)"
  let ?sig = "(rq_operation req, cl_token c, cl_machine c, kind_of is_fence)"
  have kv: "key_validate k = None" if "k \<in> set keys" for k using that ck by simp
  have tv: "token_validate lib (cl_token c) = None"
    using request_token_valid [OF req] e unfolding c by (simp, metis word_not_simps(1))
  have bound: "binding_map ?st' (rq_operation req) = Some (rq_digest req)"
    using ed(6) reuseD(1) by (auto simp: binding_map_def)
  have bind: "binding_map st \<subseteq>\<^sub>m binding_map ?st'" using ed(4) by (simp add: binding_map_def)
  have bv: "\<forall>b \<in> set (sn_bindings ?st'). binding_validate lib b = None"
    using ed(7) valid req by (auto simp: validate_snapshot_iff binding_validate_def request_validate_def)
  have sig: "a = ?sig \<or> (a \<in> actives (sn_records st) \<and> fst a \<noteq> rq_operation req)"
    if "a \<in> actives ?rs" for a
  proof -
    obtain oper t m k where a: "a = (oper, t, m, k)" by (cases a) auto
    with that obtain r c' where r: "r \<in> set ?rs" "claim_of k r = Some c'" "oper = tk_operation t"
      "t = cl_token c'" "m = cl_machine c'" by (auto simp: actives_iff)
    from put_claims_records [OF valid ck(6) r(1)] show ?thesis
    proof
      assume "\<exists>k \<in> set keys. r = set_claim is_fence c ((old_record (sn_records st) k)\<lparr>rec_epoch := e\<rparr>)"
      with r a show ?thesis by (auto simp: c split: if_splits)
    next
      assume kept: "r \<in> set (sn_records st) \<and> rkey r \<notin> key_canonical ` set keys"
      with r a have "a \<in> actives (sn_records st)" by (auto simp: actives_iff)
      moreover have "c' \<in> claims_of r" using r(2) by (cases k) (auto simp: claim_of_def claims_of_def)
      ultimately show ?thesis using kept r(3,4) reuseD(3) [of r c'] a by auto
    qed
  qed
  have ter: "terminals ?rs \<subseteq> terminals (sn_records st)"
  proof
    fix x assume "x \<in> terminals ?rs"
    then obtain r where r: "r \<in> set ?rs" "x \<in> set (terminal_signatures r)" by (auto simp: terminals_def)
    from put_claims_records [OF valid ck(6) r(1)] show "x \<in> terminals (sn_records st)"
      using r(2) kv by (auto simp: terminals_def terminal_signatures_def elim: old_record_cases [OF valid])
        (metis (no_types, lifting) old_record_cases [OF valid] empty_record_simps(3) empty_iff empty_set image_eqI)+
  qed
  have sv: "single_valued (actives ?rs)"
    using valid sig by (auto simp: validate_snapshot_iff single_valued_def) (metis fst_conv)+
  have svt: "single_valued (terminals ?rs)"
    using valid ter by (auto simp: validate_snapshot_iff intro: single_valued_subset)
  have no_ter: "rq_operation req \<notin> fst ` terminals (sn_records st)"
    using reuseD(2) by (fastforce simp: terminals_def terminal_signatures_def)
  have disj: "fst ` actives ?rs \<inter> fst ` terminals ?rs = {}"
    using valid sig ter no_ter by (fastforce simp: validate_snapshot_iff disjoint_iff image_iff)
  have new: "record_validate lib ?st' (set_claim is_fence c ((old_record (sn_records st) k)\<lparr>rec_epoch := e\<rparr>)) = None"
    if "k \<in> set keys" for k
    using valid kv [OF that]
  proof (cases rule: old_record_cases)
    case (found r)
    have "tombstone_validate lib ?st' (set_claim is_fence c (r\<lparr>rec_epoch := e\<rparr>)) tb = None"
      if "tb \<in> set (rec_tombstones r)" for tb
    proof -
      have "cl_token c \<noteq> tb_token tb" using reuseD(2) [OF found(2) that]
        by (auto simp: c dest: arg_cong [where f = tk_operation])
      with that found(3) e bind show ?thesis
        by (auto simp: record_validate_iff tombstone_validate_iff map_le_def dom_def)
    qed
    with found e kv [OF that] tv bound clock req show ?thesis
      by (auto simp: record_validate_iff claim_validate_iff c request_validate_def)
  next
    case empty
    with e kv [OF that] tv bound clock req show ?thesis
      by (auto simp: record_validate_iff claim_validate_iff c request_validate_def)
  qed
  show ?thesis
    by (rule write_valid [OF valid ck(4,6), where e = e and
          f = "\<lambda>r. set_claim is_fence c (r\<lparr>rec_epoch := e\<rparr>)"])
      (use e bind bv ed(3,5) valid new sv svt disj in \<open>simp_all add: put_claims_def validate_snapshot_iff\<close>)
qed

lemma activate_valid:
  assumes "validate_snapshot lib st = None" and "canonical_keys ks = Inr keys"
    and "request_validate lib req = None" and "\<not> time_is_zero (lease_time clock)"
    and "activate_body clock keys req is_fence st = Inr (changed, t, st')"
  shows "validate_snapshot lib st' = None"
  using assms(5)
proof (cases rule: activate_body_cases)
  case (existing added st1)
  note ed = ensure_bindingD [OF existing(2)]
  from canonical_keys_okD(4) [OF assms(2)] obtain k where k: "k \<in> set keys" by (cases keys) auto
  from existing_claims [OF existing(4) k] ed(1) obtain r c where
    r: "r \<in> set (sn_records st)" "active_claim r = Some (c, kind_of is_fence)" "cl_token c = t"
      "same_operation t req" by (auto dest: find_record_SomeD)
  then have "binding_map st (rq_operation req) \<noteq> None"
    using valid_records [OF assms(1) r(1)] active_claim_SomeD [OF r(2)]
    by (auto simp: record_validate_iff claim_validate_iff same_operation_def)
  with ed(8,9) existing assms(1) show ?thesis by simp
next
  case (fresh added st1 promote any_claim e)
  note ed = ensure_bindingD [OF fresh(2)]
  show ?thesis
    unfolding fresh(10,11) ed(1)
    by (rule put_claims_valid [OF assms(1-4) fresh(1,2)]) (use fresh ed in simp_all)
qed

section \<open>Release, Abort and Return keep a snapshot valid\<close>

lemma owned_loopD:
  "owned_loop sel keys t m rs = Inr n \<Longrightarrow> r \<in> set rs \<Longrightarrow> sel r = Some c \<Longrightarrow> cl_token c = t \<Longrightarrow>
    rkey r \<in> key_canonical ` set keys"
  by (induction sel keys t m rs rule: owned_loop.induct) (auto split: option.splits if_splits)

lemma finish_record_simps [simp]:
  "rec_key (finish_record e t kind terminal now r) = rec_key r"
  "rec_epoch (finish_record e t kind terminal now r) = e"
  "claim_of kind (finish_record e t kind terminal now r) = None"
  "rec_tombstones (finish_record e t kind terminal now r) = rec_tombstones r @
    (if terminal = [] then [] else
      [\<lparr>tb_kind = terminal, tb_token = t, tb_advanced = e, tb_created = now\<rparr>])"
  by (cases kind; simp add: finish_record_def Let_def clear_claim_def claim_of_def)+

lemma claims_of_finish_record:
  assumes "rec_reservation r = None \<or> rec_fence r = None" and "claim_of kind r \<noteq> None"
  shows "claims_of (finish_record e t kind terminal now r) = {}"
    and "claim_of k (finish_record e t kind terminal now r) = None"
    and "rec_reservation (finish_record e t kind terminal now r) = None"
    and "rec_fence (finish_record e t kind terminal now r) = None"
  using assms by (cases kind; cases k;
      auto simp: finish_record_def Let_def clear_claim_def claim_of_def claims_of_def)+

lemma finish_body_cases:
  assumes "finish_body clock keys t kind terminal st = Inr (changed, e, st')"
  obtains (retry) "terminal \<noteq> []" "matching_terminal st keys t terminal = Inr (Some e)" "\<not> changed" "st' = st"
  | (finish) "terminal \<noteq> [] \<longrightarrow> matching_terminal st keys t terminal = Inr None"
      "validate_claim_key_set st keys t kind = None"
      "\<forall>k \<in> set keys. holds_claim (sn_records st) t kind k = None" "sn_last st < e" "e = sn_last st + 1" "changed"
      "st' = st\<lparr>sn_last := e, sn_records := fold (\<lambda>k. ensure_record k
        (finish_record e t kind terminal (lease_time clock))) keys (sn_records st)\<rparr>"
proof -
  let ?m = "if terminal \<noteq> [] then matching_terminal st keys t terminal else Inr None"
  let ?c = "checks [validate_claim_key_set st keys t kind,
    first_error (holds_claim (sn_records st) t kind) keys]"
  consider (some) x where "?m = Inr (Some x)" | (none) "?m = Inr None"
    using assms unfolding finish_body_def by (cases ?m) (auto split: option.splits)
  then show thesis
  proof cases
    case some
    with assms show thesis by (intro retry) (auto simp: finish_body_def split: if_splits)
  next
    case none
    with assms have c: "?c = None" unfolding finish_body_def by (cases ?c) auto
    with none assms obtain e' st1 where a: "allocate_epoch st = Inr (e', st1)"
      unfolding finish_body_def by (cases "allocate_epoch st") auto
    from none have "terminal \<noteq> [] \<longrightarrow> matching_terminal st keys t terminal = Inr None"
      by (auto split: if_splits)
    moreover from c have "validate_claim_key_set st keys t kind = None"
      "\<forall>k \<in> set keys. holds_claim (sn_records st) t kind k = None"
      by (simp_all add: first_error_None_iff)
    ultimately show thesis
      using assms none c a allocate_epochD [OF a] by (intro finish) (auto simp: finish_body_def checks.simps)
  qed
qed

lemma holds_claimD:
  assumes "holds_claim rs t kind k = None"
  obtains r c where "find_record rs k = Some r" "claim_of kind r = Some c" "cl_token c = t"
  using assms by (auto simp: holds_claim_def split: option.splits)

lemma claim_of_mem: "claim_of kind r = Some c \<Longrightarrow> c \<in> claims_of r"
  by (cases kind) (simp_all add: claim_of_def claims_of_def)

lemma valid_actives_unique:
  assumes "validate_snapshot lib st = None" and "(oper, x) \<in> actives (sn_records st)"
    and "(oper, y) \<in> actives (sn_records st)"
  shows "x = y"
  using assms unfolding validate_snapshot_iff by (metis single_valuedD)

lemma finish_keys:
  assumes valid: "validate_snapshot lib st = None"
    and key_set: "validate_claim_key_set st keys t kind = None"
    and held: "\<forall>k \<in> set keys. holds_claim (sn_records st) t kind k = None" and "k \<in> set keys"
  obtains r c where "find_record (sn_records st) k = Some r" "r \<in> set (sn_records st)"
    "rkey r = key_canonical k" "claim_of kind r = Some c" "cl_token c = t"
    "record_validate lib st r = None" "claim_validate lib st r (Some c) = None"
    "rec_reservation r = None \<or> rec_fence r = None"
    "(tk_operation t, t, cl_machine c, kind) \<in> actives (sn_records st)"
proof -
  from held \<open>k \<in> set keys\<close> have "holds_claim (sn_records st) t kind k = None" by simp
  then obtain r c where r: "find_record (sn_records st) k = Some r" "claim_of kind r = Some c" "cl_token c = t"
    by (rule holds_claimD)
  from find_record_SomeD [OF r(1)] have m: "r \<in> set (sn_records st)" "rkey r = key_canonical k" by simp_all
  note rv = valid_records [OF valid m(1)]
  from rv claim_of_mem [OF r(2)] have "claim_validate lib st r (Some c) = None"
    by (simp add: record_validate_iff)
  moreover have "(tk_operation t, t, cl_machine c, kind) \<in> actives (sn_records st)"
    using m r by (auto simp: actives_iff)
  ultimately show thesis using that r m rv valid_single_claim [OF valid m(1)] by blast
qed

text \<open>Every claim of the operation carries the token and is of the kind finished, so it is cleared.\<close>

lemma finish_actives:
  assumes valid: "validate_snapshot lib st = None" and keys: "keys \<noteq> []" "distinct (map key_canonical keys)"
    and key_set: "validate_claim_key_set st keys t kind = None"
    and held: "\<forall>k \<in> set keys. holds_claim (sn_records st) t kind k = None"
    and rs: "rs = fold (\<lambda>k. ensure_record k (finish_record e t kind terminal now)) keys (sn_records st)"
  shows "actives rs = {a \<in> actives (sn_records st). fst a \<noteq> tk_operation t}"
proof -
  note D = finish_keys [OF valid key_set held]
  from keys(1) obtain k0 where "k0 \<in> set keys" by (cases keys) auto
  then obtain m0 where a0: "(tk_operation t, t, m0, kind) \<in> actives (sn_records st)" by (rule D)
  from fold_ensure_record [OF keys(2), of "sn_records st" "finish_record e t kind terminal now"] valid
  have set': "set rs = {r \<in> set (sn_records st). rkey r \<notin> key_canonical ` set keys} \<union>
      (\<lambda>k. finish_record e t kind terminal now (old_record (sn_records st) k)) ` set keys"
    by (simp add: rs validate_snapshot_iff)
  have cleared: "claim_of k' (finish_record e t kind terminal now (old_record (sn_records st) k)) = None"
    if "k \<in> set keys" for k k'
    using that by (rule D) (simp add: claims_of_finish_record)
  have unique: "kind' = kind \<and> cl_token c = t"
    if "r \<in> set (sn_records st)" "claim_of kind' r = Some c" "tk_operation (cl_token c) = tk_operation t" for r c kind'
  proof -
    have "(tk_operation t, cl_token c, cl_machine c, kind') \<in> actives (sn_records st)"
      using that by (auto simp: actives_iff)
    from valid_actives_unique [OF valid this a0] show ?thesis by simp
  qed
  have owned: "rkey r \<in> key_canonical ` set keys"
    if "r \<in> set (sn_records st)" "claim_of kind r = Some c" "cl_token c = t" for r c
    using key_set that by (auto simp: validate_claim_key_set_def dest: owned_loopD split: sum.splits)
  show ?thesis
  proof (rule set_eqI)
    fix a :: "string \<times> token \<times> string \<times> claim_kind"
    obtain oper u m k where a: "a = (oper, u, m, k)" by (cases a) auto
    have on_key: "\<exists>k' \<in> set keys. find_record (sn_records st) k' = Some r \<and> cl_token c = t"
      if "r \<in> set (sn_records st)" "claim_of k r = Some c" "rkey r \<in> key_canonical ` set keys" for r c
    proof -
      from that(3) obtain k' where k': "k' \<in> set keys" "rkey r = key_canonical k'" by auto
      then have f: "find_record (sn_records st) k' = Some r"
        using that(1) valid by (intro find_record_eq) (auto simp: validate_snapshot_iff)
      from k'(1) obtain c' where c': "claim_of kind r = Some c'" "cl_token c' = t"
        "rec_reservation r = None \<or> rec_fence r = None" by (rule D) (use f in auto)
      then have "c = c'" using that(2) by (cases k; cases kind) (auto simp: claim_of_def)
      with k'(1) f c' show ?thesis by blast
    qed
    show "a \<in> actives rs \<longleftrightarrow> a \<in> {a \<in> actives (sn_records st). fst a \<noteq> tk_operation t}"
      unfolding a
    proof (intro iffI)
      assume "(oper, u, m, k) \<in> actives rs"
      then obtain r c where r: "r \<in> set rs" "claim_of k r = Some c" "oper = tk_operation u"
        "u = cl_token c" "m = cl_machine c" by (auto simp: actives_iff)
      with cleared have "r \<in> set (sn_records st)" "rkey r \<notin> key_canonical ` set keys"
        unfolding set' by auto
      with r unique owned show "(oper, u, m, k) \<in> {a \<in> actives (sn_records st). fst a \<noteq> tk_operation t}"
        by (auto simp: actives_iff)
    next
      assume "(oper, u, m, k) \<in> {a \<in> actives (sn_records st). fst a \<noteq> tk_operation t}"
      then obtain r c where r: "r \<in> set (sn_records st)" "claim_of k r = Some c" "oper = tk_operation u"
        "u = cl_token c" "m = cl_machine c" "oper \<noteq> tk_operation t" by (auto simp: actives_iff)
      with on_key [OF r(1,2)] have "rkey r \<notin> key_canonical ` set keys" by auto
      with r show "(oper, u, m, k) \<in> actives rs" by (auto simp: actives_iff set')
    qed
  qed
qed

lemma finish_terminals:
  assumes valid: "validate_snapshot lib st = None" and keys: "keys \<noteq> []" "distinct (map key_canonical keys)"
    and key_set: "validate_claim_key_set st keys t kind = None"
    and held: "\<forall>k \<in> set keys. holds_claim (sn_records st) t kind k = None"
    and rs: "rs = fold (\<lambda>k. ensure_record k (finish_record e t kind terminal now)) keys (sn_records st)"
  shows "terminals rs = terminals (sn_records st) \<union>
    (if terminal = [] then {} else {(tk_operation t, t, terminal, e)})"
proof -
  note D = finish_keys [OF valid key_set held]
  let ?f = "finish_record e t kind terminal now"
  let ?new = "if terminal = [] then {} else {(tk_operation t, t, terminal, e)}"
  from fold_ensure_record [OF keys(2), of "sn_records st" ?f] valid
  have set': "set rs = {r \<in> set (sn_records st). rkey r \<notin> key_canonical ` set keys} \<union>
      (\<lambda>k. ?f (old_record (sn_records st) k)) ` set keys"
    by (simp add: rs validate_snapshot_iff)
  have sig: "set (terminal_signatures (?f r)) = set (terminal_signatures r) \<union> ?new" for r
    by (auto simp: terminal_signatures_def)
  have on_keys: "(\<lambda>k. old_record (sn_records st) k) ` set keys =
      {r \<in> set (sn_records st). rkey r \<in> key_canonical ` set keys}"
  proof (intro subset_antisym subsetI)
    fix r assume "r \<in> (\<lambda>k. old_record (sn_records st) k) ` set keys"
    then obtain k where "k \<in> set keys" "r = old_record (sn_records st) k" by blast
    moreover from this(1) obtain r' where "find_record (sn_records st) k = Some r'"
      "r' \<in> set (sn_records st)" "rkey r' = key_canonical k" by (rule D)
    ultimately show "r \<in> {r \<in> set (sn_records st). rkey r \<in> key_canonical ` set keys}" by auto
  next
    fix r assume "r \<in> {r \<in> set (sn_records st). rkey r \<in> key_canonical ` set keys}"
    then obtain k where "k \<in> set keys" "r \<in> set (sn_records st)" "rkey r = key_canonical k" by auto
    moreover from this valid have "find_record (sn_records st) k = Some r"
      by (intro find_record_eq) (simp_all add: validate_snapshot_iff)
    ultimately show "r \<in> (\<lambda>k. old_record (sn_records st) k) ` set keys" by force
  qed
  have "terminals rs = (\<Union>r \<in> {r \<in> set (sn_records st). rkey r \<notin> key_canonical ` set keys}.
      set (terminal_signatures r)) \<union>
    (\<Union>r \<in> (\<lambda>k. old_record (sn_records st) k) ` set keys. set (terminal_signatures r) \<union> ?new)"
    unfolding terminals_def set' UN_Un image_image UN_simps(10) sig by simp
  also have "\<dots> = terminals (sn_records st) \<union> ?new"
  proof -
    have "(\<lambda>k. old_record (sn_records st) k) ` set keys \<noteq> {}" using keys(1) by simp
    then show ?thesis unfolding on_keys terminals_def by blast
  qed
  finally show ?thesis .
qed

lemma finish_valid:
  assumes valid: "validate_snapshot lib st = None" and ks: "canonical_keys ks = Inr keys"
    and tok: "token_validate lib t = None" and clock: "\<not> time_is_zero (lease_time clock)"
    and terminal: "terminal \<in> {[], tombstone_aborted, tombstone_returned}"
    and run: "finish_body clock keys t kind terminal st = Inr (changed, e, st')"
  shows "validate_snapshot lib st' = None"
  using run
proof (cases rule: finish_body_cases)
  case retry
  with valid show ?thesis by simp
next
  case finish
  note ck = canonical_keys_okD [OF ks]
  note D = finish_keys [OF valid finish(2,3)]
  let ?f = "finish_record e t kind terminal (lease_time clock)"
  from finish(7) have recs: "sn_records st' = fold (\<lambda>k. ensure_record k ?f) keys (sn_records st)"
    and last: "sn_last st' = e" and bind: "binding_map st' = binding_map st" "sn_bindings st' = sn_bindings st"
    and schema: "sn_schema st' = sn_schema st" by (simp_all add: binding_map_def)
  note act = finish_actives [OF valid ck(4,6) finish(2,3) recs]
    and ter = finish_terminals [OF valid ck(4,6) finish(2,3) recs]
  from ck(4) obtain k0 where "k0 \<in> set keys" by (cases keys) auto
  then obtain m0 where a0: "(tk_operation t, t, m0, kind) \<in> actives (sn_records st)" by (rule D)
  with valid have no_ter: "tk_operation t \<notin> fst ` terminals (sn_records st)"
    by (force simp: validate_snapshot_iff disjoint_iff image_iff)
  have new: "record_validate lib st' (?f (old_record (sn_records st) k)) = None" if k: "k \<in> set keys" for k
    using k
  proof (rule D)
    fix r c assume r: "find_record (sn_records st) k = Some r" "r \<in> set (sn_records st)"
      "claim_of kind r = Some c" "cl_token c = t" "record_validate lib st r = None"
      "claim_validate lib st r (Some c) = None" "rec_reservation r = None \<or> rec_fence r = None"
    have "claim_of kind r \<noteq> None" by (simp add: r(3))
    note cf = claims_of_finish_record [OF r(7) this]
    have fresh: "t \<notin> tb_token ` set (rec_tombstones r)"
      using r(5) claim_of_mem [OF r(3)] r(4) by (auto simp: record_validate_iff tombstone_validate_iff)
    have old: "tombstone_validate lib st' (?f r) tb = None" if "tb \<in> set (rec_tombstones r)" for tb
      using that r(5) finish(4) last
      by (auto simp: record_validate_iff tombstone_validate_iff bind cf)
    have "rec_epoch r < e" using r(5) finish(4) by (auto simp: record_validate_iff)
    have "tombstone_validate lib st' (?f r) \<lparr>tb_kind = terminal, tb_token = t, tb_advanced = e,
        tb_created = lease_time clock\<rparr> = None" if "terminal \<noteq> []"
      using that terminal tok r(6) \<open>rec_epoch r < e\<close> last clock r(4)
      by (auto simp: tombstone_validate_iff claim_validate_iff cf bind)
    with r old fresh last finish(4) show "record_validate lib st' (?f (old_record (sn_records st) k)) = None"
      by (simp add: record_validate_iff cf) (use \<open>rec_epoch r < e\<close> in auto)
  qed
  have v: "single_valued (actives (sn_records st))" "single_valued (terminals (sn_records st))"
    "fst ` actives (sn_records st) \<inter> fst ` terminals (sn_records st) = {}"
    "distinct (map bd_operation (sn_bindings st))" "\<forall>b \<in> set (sn_bindings st). binding_validate lib b = None"
    using valid by (simp_all add: validate_snapshot_iff)
  have sva: "single_valued (actives (sn_records st'))"
    unfolding act by (rule single_valued_subset [OF _ v(1)]) blast
  have svt: "single_valued (terminals (sn_records st'))"
    unfolding ter using v(2) no_ter by (simp add: single_valued_def) (metis fst_conv image_eqI)
  have disj: "fst ` actives (sn_records st') \<inter> fst ` terminals (sn_records st') = {}"
    unfolding act ter using v(3) by auto
  show ?thesis
    by (rule write_valid [OF valid ck(4,6), where e = e and f = ?f])
      (use bind schema recs last finish(4) v(4,5) new sva svt disj in simp_all)
qed

end
