(* ===== verification/LeaseDisk.thy ===== *)
theory LeaseDisk
  imports LeaseInvariant
begin

text \<open>
  The state file of the lease authority: the canonical order is a fixed point that validation
  accepts, so what \<open>writeState\<close> stores \<open>loadState\<close> reads back, and every operation either
  leaves the file alone or replaces it by a snapshot that loads.
\<close>

section \<open>The canonical form of a snapshot\<close>

lemma lease_time_simps [simp]:
  "time_is_zero (lease_time t) = time_is_zero t" "lease_time (lease_time t) = lease_time t"
  by (simp_all add: lease_time_def time_defs)

abbreviation canonical_claim :: "claim \<Rightarrow> claim" where
  "canonical_claim c \<equiv> c\<lparr>cl_created := lease_time (cl_created c)\<rparr>"

abbreviation canonical_tombstone :: "tombstone \<Rightarrow> tombstone" where
  "canonical_tombstone tb \<equiv> tb\<lparr>tb_created := lease_time (tb_created tb)\<rparr>"

lemma canonical_record_simps [simp]:
  "rec_key (canonical_record r) = rec_key r" "rec_epoch (canonical_record r) = rec_epoch r"
  "claims_of (canonical_record r) = canonical_claim ` claims_of r"
  "set (rec_tombstones (canonical_record r)) = canonical_tombstone ` set (rec_tombstones r)"
  "rec_reservation (canonical_record r) = None \<longleftrightarrow> rec_reservation r = None"
  "rec_fence (canonical_record r) = None \<longleftrightarrow> rec_fence r = None"
  "active_signatures (canonical_record r) = active_signatures r"
  "set (terminal_signatures (canonical_record r)) = set (terminal_signatures r)"
  by (auto simp: canonical_record_def claims_of_def active_signatures_def terminal_signatures_def
      image_Un image_image split: option.split)

lemma canonical_record_idem: "canonical_record (canonical_record r) = canonical_record r"
proof -
  have id: "map canonical_tombstone (sort_key tombstone_key (map canonical_tombstone tbs)) =
      sort_key tombstone_key (map canonical_tombstone tbs)" for tbs
    by (rule map_idI) auto
  show ?thesis
    unfolding canonical_record_def
    by (simp add: id sort_key_idem option.map_comp comp_def)
qed

lemma canonical_snapshot_simps [simp]:
  "sn_schema (canonical_snapshot st) = sn_schema st" "sn_last (canonical_snapshot st) = sn_last st"
  "set (sn_bindings (canonical_snapshot st)) = set (sn_bindings st)"
  "set (sn_records (canonical_snapshot st)) = canonical_record ` set (sn_records st)"
  by (simp_all add: canonical_snapshot_def)

lemma canonical_snapshot_idem: "canonical_snapshot (canonical_snapshot st) = canonical_snapshot st"
proof -
  have id: "map canonical_record (sort_key rkey (map canonical_record rs)) =
      sort_key rkey (map canonical_record rs)" for rs
    by (rule map_idI) (auto simp: canonical_record_idem)
  show ?thesis by (simp add: canonical_snapshot_def id sort_key_idem)
qed

lemma map_of_sort:
  assumes "distinct (map bd_operation bs)"
  shows "map_of (map (\<lambda>b. (bd_operation b, bd_digest b)) (sort_key f bs)) =
    map_of (map (\<lambda>b. (bd_operation b, bd_digest b)) bs)"
  using assms by (subst map_of_inject_set) (simp_all add: comp_def)

lemma record_validate_canonical:
  assumes "distinct (map bd_operation (sn_bindings st))"
  shows "record_validate lib (canonical_snapshot st) (canonical_record r) = None \<longleftrightarrow>
    record_validate lib st r = None"
proof -
  have b: "binding_map (canonical_snapshot st) = binding_map st"
    using map_of_sort [OF assms] by (simp add: binding_map_def canonical_snapshot_def)
  have d: "distinct (map tb_token (rec_tombstones (canonical_record r))) \<longleftrightarrow>
      distinct (map tb_token (rec_tombstones r))"
    by (simp add: canonical_record_def comp_def)
  show ?thesis
    by (simp add: record_validate_iff claim_validate_iff tombstone_validate_iff b d ball_simps)
qed

lemma canonical_valid: "validate_snapshot lib (canonical_snapshot st) = None \<longleftrightarrow> validate_snapshot lib st = None"
proof (cases "distinct (map bd_operation (sn_bindings st))")
  case True
  have a: "actives (sn_records (canonical_snapshot st)) = actives (sn_records st)"
    and t: "terminals (sn_records (canonical_snapshot st)) = terminals (sn_records st)"
    by (simp_all add: actives_def terminals_def)
  have m: "max_record_epoch (sn_records (canonical_snapshot st)) = max_record_epoch (sn_records st)"
    by (simp add: max_record_epoch_eq image_image)
  have d: "distinct (map rkey (sn_records (canonical_snapshot st))) = distinct (map rkey (sn_records st))"
    "distinct (map bd_operation (sn_bindings (canonical_snapshot st))) = distinct (map bd_operation (sn_bindings st))"
    by (simp_all add: canonical_snapshot_def comp_def)
  show ?thesis
    unfolding validate_snapshot_iff a t m d by (simp add: record_validate_canonical [OF True])
next
  case False
  then have "\<not> distinct (map bd_operation (sn_bindings (canonical_snapshot st)))"
    by (simp add: canonical_snapshot_def)
  with False show ?thesis by (simp add: validate_snapshot_iff)
qed

lemma canonical_validI [simp]:
  "validate_snapshot lib st = None \<Longrightarrow> validate_snapshot lib (canonical_snapshot st) = None"
  by (simp add: canonical_valid)

interpretation state_form: canonical_form canonical_snapshot "\<lambda>st. validate_snapshot lib st = None"
  for lib
  by unfold_locales (simp_all add: canonical_snapshot_idem canonical_valid)

section \<open>Loading and writing\<close>

text \<open>\<open>stored\<close> is the snapshot a readable file holds; no file is the empty snapshot.\<close>

definition stored :: "uuid_lib \<Rightarrow> disk \<Rightarrow> snapshot option" where
  "stored lib d = (case load_state lib (\<lambda>_. True) d of Inl _ \<Rightarrow> None | Inr st \<Rightarrow> Some st)"

abbreviation file_of :: "snapshot \<Rightarrow> disk" where
  "file_of st \<equiv> Some \<lparr>sf_regular = True, sf_private = True, sf_document = Some st, sf_spelling = True\<rparr>"

lemma empty_snapshot_valid: "validate_snapshot lib empty_snapshot = None"
  by (simp add: validate_snapshot_iff empty_snapshot_def actives_def terminals_def max_record_epoch_def)

lemma empty_snapshot_canonical: "canonical_snapshot empty_snapshot = empty_snapshot"
  by (simp add: canonical_snapshot_def empty_snapshot_def)

lemma load_stateD:
  assumes "load_state lib os d = Inr st"
  shows "stored lib d = Some st" "validate_snapshot lib st = None" "canonical_snapshot st = st"
  using assms empty_snapshot_valid empty_snapshot_canonical
  by (auto simp: load_state_def stored_def split: option.splits if_splits)

lemma storedD:
  assumes "stored lib d = Some st"
  shows "validate_snapshot lib st = None" "canonical_snapshot st = st"
    "load_state lib (\<lambda>_. True) d = Inr st"
proof -
  from assms show l: "load_state lib (\<lambda>_. True) d = Inr st"
    by (auto simp: stored_def split: sum.splits)
  show "validate_snapshot lib st = None" "canonical_snapshot st = st" using load_stateD [OF l] by simp_all
qed

lemma stored_None: "stored lib None = Some empty_snapshot"
  by (simp add: stored_def load_state_def)

lemma stored_file_of:
  "validate_snapshot lib st = None \<Longrightarrow> stored lib (file_of (canonical_snapshot st)) = Some (canonical_snapshot st)"
  by (simp add: stored_def load_state_def canonical_snapshot_idem)

lemma write_state_cases:
  assumes "write_state lib os st d = (res, d')"
  obtains (refused) e where "res = Some e" "d' = d" "os = (\<lambda>_. True) \<longrightarrow> validate_snapshot lib st \<noteq> None"
  | (written) "d' = file_of (canonical_snapshot st)" "validate_snapshot lib st = None"
      "res = fail_if (\<not> os OSyncDirectory) LPlain"
proof (cases "validate_snapshot lib (canonical_snapshot st)")
  case (Some e)
  then have "validate_snapshot lib st \<noteq> None" using canonical_validI by fastforce
  moreover from Some assms have "res = Some e" "d' = d" by (auto simp: write_state_def)
  ultimately show thesis by (intro refused) simp_all
next
  case None
  then have "validate_snapshot lib st = None" by (simp add: canonical_valid)
  let ?bad = "first_error (\<lambda>c. fail_if (\<not> os c) LPlain)
    [OEnsureRoot, OCreateTemp, OChmod, OEncode, OSync, OClose, OReplace]"
  show thesis
  proof (cases ?bad)
    case None
    with assms \<open>validate_snapshot lib (canonical_snapshot st) = None\<close> \<open>validate_snapshot lib st = None\<close>
    show thesis by (intro written) (simp_all add: write_state_def Let_def del: first_error.simps)
  next
    case (Some e)
    with assms \<open>validate_snapshot lib (canonical_snapshot st) = None\<close>
    have "res = Some e" "d' = d" by (simp_all add: write_state_def Let_def del: first_error.simps)
    moreover from Some have "os \<noteq> (\<lambda>_. True)" by (auto split: option.splits)
    ultimately show thesis by (intro refused) simp_all
  qed
qed

lemma update_state_cases:
  assumes "update_state lib os mutate d = (res, d')"
  obtains (failed) e where "res = Inl e" "d' = d"
  | (unchanged) st x st' where "stored lib d = Some st" "mutate st = Inr (False, x, st')"
      "res = Inr x" "d' = d"
  | (replaced) st x st' where "stored lib d = Some st" "mutate st = Inr (True, x, st')"
      "validate_snapshot lib st' = None" "d' = file_of (canonical_snapshot st')"
      "res = (if os OSyncDirectory then Inr x else Inl LPlain)"
proof (cases "os OStateLock \<and> (\<exists>st. load_state lib os d = Inr st)")
  case False
  then show thesis using assms
    by (cases "load_state lib os d") (auto simp: update_state_def intro: failed split: if_splits)
next
  case True
  then obtain st where st: "load_state lib os d = Inr st" and "os OStateLock" by blast
  show thesis
  proof (cases "mutate st")
    case (Inl e)
    with assms st \<open>os OStateLock\<close> show thesis by (intro failed) (auto simp: update_state_def)
  next
    case (Inr y)
    then obtain changed x st' where y: "mutate st = Inr (changed, x, st')" by (cases y) auto
    show thesis
    proof (cases changed)
      case False
      with assms st \<open>os OStateLock\<close> y load_stateD(1) [OF st] show thesis
        by (intro unchanged) (auto simp: update_state_def)
    next
      case True
      obtain r d2 where w: "write_state lib os st' d = (r, d2)" by fastforce
      then show thesis
      proof (cases rule: write_state_cases)
        case (refused e)
        with assms st \<open>os OStateLock\<close> y True w show thesis by (intro failed) (auto simp: update_state_def)
      next
        case written
        with assms st \<open>os OStateLock\<close> y True w load_stateD(1) [OF st] show thesis
          by (intro replaced) (auto simp: update_state_def fail_if_def split: if_splits)
      qed
    qed
  qed
qed

lemma update_state_ok:
  assumes "stored lib d = Some st" and "mutate st = Inr (changed, x, st')"
    and "changed \<Longrightarrow> validate_snapshot lib st' = None"
  shows "update_state lib (\<lambda>_. True) mutate d =
    (Inr x, if changed then file_of (canonical_snapshot st') else d)"
  using assms storedD(3) [OF assms(1)]
  by (simp add: update_state_def write_state_def Let_def)

lemma update_state_err:
  assumes "stored lib d = Some st" and "mutate st = Inl e"
  shows "update_state lib (\<lambda>_. True) mutate d = (Inl e, d)"
  using assms storedD(3) [OF assms(1)] by (simp add: update_state_def)

end
