(* ===== verification/LeaseSafety.thy ===== *)
theory LeaseSafety
  imports LeaseDisk
begin

text \<open>
  The properties of the lease authority over its public operations: refinement to the operations
  on a snapshot, atomicity under every pattern of operating-system failures, exclusion in the
  repository/branch hierarchy, fresh epochs, permanence of terminal operations, idempotent
  retries, and what a guard admits.
\<close>

section \<open>Public operations as one type\<close>

datatype lease_op =
    Reserve "lkey list" request
  | Fence "lkey list" request
  | Release "lkey list" token
  | Abort "lkey list" token
  | Return "lkey list" token

fun run_op :: "uuid_lib \<Rightarrow> (os_call \<Rightarrow> bool) \<Rightarrow> gotime \<Rightarrow> lease_op \<Rightarrow> disk \<Rightarrow> (lease_error + epoch) \<times> disk" where
  "run_op lib os clock (Reserve ks req) d = map_prod (map_sum id tk_epoch) id (reserve lib os clock ks req d)"
| "run_op lib os clock (Fence ks req) d = map_prod (map_sum id tk_epoch) id (fence lib os clock ks req d)"
| "run_op lib os clock (Release ks t) d = release_reservation lib os clock ks t d"
| "run_op lib os clock (Abort ks t) d = abort_reservation lib os clock ks t d"
| "run_op lib os clock (Return ks t) d = return_fence lib os clock ks t d"

text \<open>The keys of an operation, whose locks it holds.\<close>

fun op_keys :: "lease_op \<Rightarrow> lkey list" where
  "op_keys (Reserve ks _) = ks"
| "op_keys (Fence ks _) = ks"
| "op_keys (Release ks _) = ks"
| "op_keys (Abort ks _) = ks"
| "op_keys (Return ks _) = ks"

text \<open>The same operations on a snapshot: argument validation and the closure, nothing else.\<close>

definition activate_spec :: "uuid_lib \<Rightarrow> gotime \<Rightarrow> lkey list \<Rightarrow> request \<Rightarrow> bool \<Rightarrow> snapshot \<Rightarrow>
    lease_error + (bool \<times> token \<times> snapshot)" where
  "activate_spec lib clock ks req is_fence st =
    (case request_validate lib req of Some e \<Rightarrow> Inl e
     | None \<Rightarrow> (case canonical_keys ks of Inl e \<Rightarrow> Inl e
     | Inr keys \<Rightarrow> activate_body clock keys req is_fence st))"

definition finish_spec :: "uuid_lib \<Rightarrow> gotime \<Rightarrow> lkey list \<Rightarrow> token \<Rightarrow> claim_kind \<Rightarrow> string \<Rightarrow> snapshot \<Rightarrow>
    lease_error + (bool \<times> epoch \<times> snapshot)" where
  "finish_spec lib clock ks t kind terminal st =
    (case token_validate lib t of Some e \<Rightarrow> Inl e
     | None \<Rightarrow> (case canonical_keys ks of Inl e \<Rightarrow> Inl e
     | Inr keys \<Rightarrow> finish_body clock keys t kind terminal st))"

fun spec_op :: "uuid_lib \<Rightarrow> gotime \<Rightarrow> lease_op \<Rightarrow> snapshot \<Rightarrow> lease_error + (bool \<times> epoch \<times> snapshot)" where
  "spec_op lib clock (Reserve ks req) st =
    map_sum id (map_prod id (map_prod tk_epoch id)) (activate_spec lib clock ks req False st)"
| "spec_op lib clock (Fence ks req) st =
    map_sum id (map_prod id (map_prod tk_epoch id)) (activate_spec lib clock ks req True st)"
| "spec_op lib clock (Release ks t) st = finish_spec lib clock ks t KReservation [] st"
| "spec_op lib clock (Abort ks t) st = finish_spec lib clock ks t KReservation tombstone_aborted st"
| "spec_op lib clock (Return ks t) st = finish_spec lib clock ks t KFence tombstone_returned st"

lemma spec_activateD:
  assumes "activate_spec lib clock ks req f st = Inr (changed, t, st')"
  obtains keys where "canonical_keys ks = Inr keys" "request_validate lib req = None"
    "activate_body clock keys req f st = Inr (changed, t, st')"
  using assms by (auto simp: activate_spec_def split: option.splits sum.splits)

lemma spec_finishD:
  assumes "finish_spec lib clock ks t kind terminal st = Inr (changed, e, st')"
  obtains keys where "canonical_keys ks = Inr keys" "token_validate lib t = None"
    "finish_body clock keys t kind terminal st = Inr (changed, e, st')"
  using assms by (auto simp: finish_spec_def split: option.splits sum.splits)

lemma map_sum_InrD: "map_sum f g x = Inr y \<Longrightarrow> \<exists>z. x = Inr z \<and> y = g z"
  by (cases x) simp_all

lemma spec_op_InrE:
  assumes "spec_op lib clock oper st = Inr (changed, e, st')"
  obtains (activate) ks keys req f t where "canonical_keys ks = Inr keys" "request_validate lib req = None"
      "activate_body clock keys req f st = Inr (changed, t, st')" "e = tk_epoch t"
      "oper = (if f then Fence ks req else Reserve ks req)"
  | (finish) ks keys t kind terminal where "canonical_keys ks = Inr keys" "token_validate lib t = None"
      "finish_body clock keys t kind terminal st = Inr (changed, e, st')"
      "terminal \<in> {[], tombstone_aborted, tombstone_returned}" "op_keys oper = ks"
proof (cases oper)
  case (Reserve ks req)
  with assms obtain t where "activate_spec lib clock ks req False st = Inr (changed, t, st')" "e = tk_epoch t"
    by (auto dest!: map_sum_InrD)
  then show thesis using Reserve activate [of ks _ req False t] by (elim spec_activateD) simp
next
  case (Fence ks req)
  with assms obtain t where "activate_spec lib clock ks req True st = Inr (changed, t, st')" "e = tk_epoch t"
    by (auto dest!: map_sum_InrD)
  then show thesis using Fence activate [of ks _ req True t] by (elim spec_activateD) simp
next
  case (Release ks t)
  with assms show thesis by (auto elim!: spec_finishD intro: finish)
next
  case (Abort ks t)
  with assms show thesis by (auto elim!: spec_finishD intro: finish)
next
  case (Return ks t)
  with assms show thesis by (auto elim!: spec_finishD intro: finish)
qed

lemma spec_op_valid:
  assumes "validate_snapshot lib st = None" and "spec_op lib clock oper st = Inr (changed, e, st')"
    and "\<not> time_is_zero clock"
  shows "validate_snapshot lib st' = None"
  using assms(2)
proof (cases rule: spec_op_InrE)
  case (activate ks keys req f t)
  show ?thesis by (rule activate_valid [OF assms(1) activate(1,2) _ activate(3)]) (simp add: assms(3))
next
  case (finish ks keys t kind terminal)
  show ?thesis by (rule finish_valid [OF assms(1) finish(1,2) _ finish(4,3)]) (simp add: assms(3))
qed

section \<open>The operations on the file refine those on the snapshot\<close>

lemma canonical_keys_mutation:
  assumes "canonical_keys ks = Inr keys"
  shows "\<exists>locked. canonical_keys (mutation_keys keys) = Inr locked"
proof -
  note ck = canonical_keys_okD [OF assms]
  have "validate_identity (k_repository k) = None" if "k \<in> set keys" for k
    using ck(2,3) that by (simp add: key_validate_def)
  then have "\<forall>k \<in> set (mutation_keys keys). key_validate k = None"
    using ck(2,3) by (auto simp: mutation_keys_def key_validate_def repository_key_def split: if_splits)
  moreover have "mutation_keys keys \<noteq> []" using ck(4) by (simp add: mutation_keys_def)
  ultimately show ?thesis by (simp add: canonical_keys_def flip: first_error_None_iff)
qed

lemma with_key_locks_ok:
  assumes "canonical_keys ks = Inr keys"
  shows "with_key_locks (\<lambda>_. True) ks failed body = body keys"
proof -
  have "first_error (\<lambda>k. fail_if (\<not> True) LPlain) xs = None" for xs :: "lkey list"
    by (simp add: first_error_None_iff)
  with assms show ?thesis by (simp add: with_key_locks_def)
qed

lemma with_key_locks_cases:
  assumes "with_key_locks os ks failed body = x"
  obtains (failed) e where "x = failed e"
  | (locked) keys where "canonical_keys ks = Inr keys" "x = body keys" "\<forall>k \<in> set keys. os (OKeyLock k)"
  using assms
  by (auto simp: with_key_locks_def first_error_None_iff split: sum.splits option.splits if_splits
      dest!: first_error_SomeD)

text \<open>The file operation, whatever fails: nothing changes, or the snapshot operation is stored.\<close>

lemma activate_cases:
  assumes "activate lib os clock ks req f d = (res, d')"
  obtains (failed) e where "res = Inl e" "d' = d"
  | (unchanged) st t st' where "stored lib d = Some st" "activate_spec lib clock ks req f st = Inr (False, t, st')"
      "res = Inr t" "d' = d"
  | (replaced) st t st' where "stored lib d = Some st" "activate_spec lib clock ks req f st = Inr (True, t, st')"
      "validate_snapshot lib st' = None" "d' = file_of (canonical_snapshot st')"
      "res = (if os OSyncDirectory then Inr t else Inl LPlain)"
proof (cases "request_validate lib req = None \<and> (\<exists>keys. canonical_keys ks = Inr keys)")
  case False
  with assms show thesis
    by (cases "request_validate lib req"; cases "canonical_keys ks") (auto simp: activate_def intro: failed)
next
  case True
  then obtain keys where k: "canonical_keys ks = Inr keys" "request_validate lib req = None" by blast
  have "with_key_locks os (mutation_keys keys) (\<lambda>e. (Inl e, d))
      (\<lambda>_. update_state lib os (activate_body clock keys req f) d) = (res, d')"
    using assms k by (simp add: activate_def)
  then show thesis
  proof (cases rule: with_key_locks_cases)
    case (locked locked)
    then have "update_state lib os (activate_body clock keys req f) d = (res, d')" by simp
    then show thesis
      by (cases rule: update_state_cases)
        (use k in \<open>auto simp: activate_spec_def intro: failed unchanged replaced\<close>)
  qed (auto intro: failed)
qed

lemma finish_claim_cases:
  assumes "finish_claim lib os clock ks t kind terminal d = (res, d')"
  obtains (failed) e where "res = Inl e" "d' = d"
  | (unchanged) st e st' where "stored lib d = Some st" "finish_spec lib clock ks t kind terminal st = Inr (False, e, st')"
      "res = Inr e" "d' = d"
  | (replaced) st e st' where "stored lib d = Some st" "finish_spec lib clock ks t kind terminal st = Inr (True, e, st')"
      "validate_snapshot lib st' = None" "d' = file_of (canonical_snapshot st')"
      "res = (if os OSyncDirectory then Inr e else Inl LPlain)"
proof (cases "token_validate lib t = None \<and> (\<exists>keys. canonical_keys ks = Inr keys)")
  case False
  with assms show thesis
    by (cases "token_validate lib t"; cases "canonical_keys ks") (auto simp: finish_claim_def intro: failed)
next
  case True
  then obtain keys where k: "canonical_keys ks = Inr keys" "token_validate lib t = None" by blast
  have "with_key_locks os (mutation_keys keys) (\<lambda>e. (Inl e, d))
      (\<lambda>_. update_state lib os (finish_body clock keys t kind terminal) d) = (res, d')"
    using assms k by (simp add: finish_claim_def)
  then show thesis
  proof (cases rule: with_key_locks_cases)
    case (locked locked)
    then have "update_state lib os (finish_body clock keys t kind terminal) d = (res, d')" by simp
    then show thesis
      by (cases rule: update_state_cases)
        (use k in \<open>auto simp: finish_spec_def intro: failed unchanged replaced\<close>)
  qed (auto intro: failed)
qed

lemma run_op_cases:
  assumes "run_op lib os clock oper d = (res, d')"
  obtains (failed) e where "res = Inl e" "d' = d"
  | (unchanged) st e st' where "stored lib d = Some st" "spec_op lib clock oper st = Inr (False, e, st')"
      "res = Inr e" "d' = d"
  | (replaced) st e st' where "stored lib d = Some st" "spec_op lib clock oper st = Inr (True, e, st')"
      "validate_snapshot lib st' = None" "d' = file_of (canonical_snapshot st')"
      "res = (if os OSyncDirectory then Inr e else Inl LPlain)"
proof -
  have activate: thesis if "activate lib os clock ks req f d = (r, d')" and "res = map_sum id tk_epoch r"
    and "\<And>st. spec_op lib clock oper st =
      map_sum id (map_prod id (map_prod tk_epoch id)) (activate_spec lib clock ks req f st)" for ks req f r
    using that(1) by (cases rule: activate_cases) (use that(2,3) failed unchanged replaced in auto)
  have finish: thesis if "finish_claim lib os clock ks t kind terminal d = (res, d')"
    and "\<And>st. spec_op lib clock oper st = finish_spec lib clock ks t kind terminal st" for ks t kind terminal
    using that(1) by (cases rule: finish_claim_cases) (use that(2) failed unchanged replaced in auto)
  show thesis
  proof (cases oper)
    case (Reserve ks req)
    show thesis by (rule activate [of ks req False "fst (reserve lib os clock ks req d)"])
        (use assms Reserve in \<open>auto simp: reserve_def prod_eq_iff\<close>)
  next
    case (Fence ks req)
    show thesis by (rule activate [of ks req True "fst (fence lib os clock ks req d)"])
        (use assms Fence in \<open>auto simp: fence_def prod_eq_iff\<close>)
  qed (use assms finish in \<open>auto simp: release_reservation_def abort_reservation_def return_fence_def\<close>)
qed

lemma activate_ok:
  assumes "stored lib d = Some st" and "\<not> time_is_zero clock"
  shows "activate lib (\<lambda>_. True) clock ks req f d =
    (case activate_spec lib clock ks req f st of Inl e \<Rightarrow> (Inl e, d)
     | Inr (changed, t, st') \<Rightarrow> (Inr t, if changed then file_of (canonical_snapshot st') else d))"
proof (cases "request_validate lib req = None \<and> (\<exists>keys. canonical_keys ks = Inr keys)")
  case False
  then show ?thesis
    by (cases "request_validate lib req"; cases "canonical_keys ks")
      (auto simp: activate_def activate_spec_def)
next
  case True
  then obtain keys where k: "canonical_keys ks = Inr keys" "request_validate lib req = None" by blast
  from canonical_keys_mutation [OF k(1)] obtain locked where "canonical_keys (mutation_keys keys) = Inr locked" ..
  note lock = with_key_locks_ok [OF this]
  show ?thesis
  proof (cases "activate_body clock keys req f st")
    case (Inl e)
    with k update_state_err [of lib d st "activate_body clock keys req f", OF assms(1) Inl] show ?thesis
      by (simp add: activate_def activate_spec_def lock)
  next
    case (Inr x)
    then obtain changed t st' where x: "activate_body clock keys req f st = Inr (changed, t, st')" by (cases x) auto
    have "validate_snapshot lib st' = None"
      by (rule activate_valid [OF storedD(1) [OF assms(1)] k _ x]) (simp add: assms(2))
    from update_state_ok [of lib d st "activate_body clock keys req f", OF assms(1) x this] k x
    show ?thesis by (simp add: activate_def activate_spec_def lock)
  qed
qed

lemma finish_ok:
  assumes "stored lib d = Some st" and "\<not> time_is_zero clock"
    and "terminal \<in> {[], tombstone_aborted, tombstone_returned}"
  shows "finish_claim lib (\<lambda>_. True) clock ks t kind terminal d =
    (case finish_spec lib clock ks t kind terminal st of Inl e \<Rightarrow> (Inl e, d)
     | Inr (changed, e, st') \<Rightarrow> (Inr e, if changed then file_of (canonical_snapshot st') else d))"
proof (cases "token_validate lib t = None \<and> (\<exists>keys. canonical_keys ks = Inr keys)")
  case False
  then show ?thesis
    by (cases "token_validate lib t"; cases "canonical_keys ks") (auto simp: finish_claim_def finish_spec_def)
next
  case True
  then obtain keys where k: "canonical_keys ks = Inr keys" "token_validate lib t = None" by blast
  from canonical_keys_mutation [OF k(1)] obtain locked where "canonical_keys (mutation_keys keys) = Inr locked" ..
  note lock = with_key_locks_ok [OF this]
  show ?thesis
  proof (cases "finish_body clock keys t kind terminal st")
    case (Inl e)
    with k update_state_err [of lib d st "finish_body clock keys t kind terminal", OF assms(1) Inl] show ?thesis
      by (simp add: finish_claim_def finish_spec_def lock)
  next
    case (Inr x)
    then obtain changed e st' where x: "finish_body clock keys t kind terminal st = Inr (changed, e, st')" by (cases x) auto
    have "validate_snapshot lib st' = None"
      by (rule finish_valid [OF storedD(1) [OF assms(1)] k _ assms(3) x]) (simp add: assms(2))
    from update_state_ok [of lib d st "finish_body clock keys t kind terminal", OF assms(1) x this] k x
    show ?thesis by (simp add: finish_claim_def finish_spec_def lock)
  qed
qed

text \<open>
  C11: The state file refines the snapshot: when no call of the operating system fails, every
  public operation has exactly the outcome of its validation and closure on the snapshot the
  file holds, and stores the closure's snapshot in canonical order. In particular the authority
  never computes a snapshot that its own validation refuses to write or to read back.
\<close>

theorem lease_file_refines:
  assumes "stored lib d = Some st" and "\<not> time_is_zero clock"
  shows "run_op lib (\<lambda>_. True) clock oper d =
    (case spec_op lib clock oper st of Inl e \<Rightarrow> (Inl e, d)
     | Inr (changed, e, st') \<Rightarrow> (Inr e, if changed then file_of (canonical_snapshot st') else d)) \<and>
    (\<forall>changed e st'. spec_op lib clock oper st = Inr (changed, e, st') \<longrightarrow>
      stored lib (file_of (canonical_snapshot st')) = Some (canonical_snapshot st'))"
proof (intro conjI allI impI)
  show "stored lib (file_of (canonical_snapshot st')) = Some (canonical_snapshot st')"
    if "spec_op lib clock oper st = Inr (changed, e, st')" for changed e st'
    using spec_op_valid [OF storedD(1) [OF assms(1)] that assms(2)] by (rule stored_file_of)
  show "run_op lib (\<lambda>_. True) clock oper d =
    (case spec_op lib clock oper st of Inl e \<Rightarrow> (Inl e, d)
     | Inr (changed, e, st') \<Rightarrow> (Inr e, if changed then file_of (canonical_snapshot st') else d))"
    by (cases oper) (auto simp: reserve_def fence_def release_reservation_def abort_reservation_def
        return_fence_def activate_ok [OF assms] finish_ok [OF assms] split: sum.splits)
qed

text \<open>
  C12: Operations are atomic whatever fails: the file is untouched, or it holds the canonical form
  of the snapshot the closure computed, readable again. An error is reported with the file
  changed only when the directory could not be synced after the replacement.
\<close>

theorem lease_atomic:
  assumes "run_op lib os clock oper d = (res, d')"
  shows "(d' = d \<or> (\<exists>st e st'. stored lib d = Some st \<and> spec_op lib clock oper st = Inr (True, e, st') \<and>
      stored lib d' = Some (canonical_snapshot st') \<and>
      res = (if os OSyncDirectory then Inr e else Inl LPlain))) \<and>
    (os OSyncDirectory \<and> (\<exists>e. res = Inl e) \<longrightarrow> d' = d)"
  using assms by (cases rule: run_op_cases) (auto intro: stored_file_of)

end
