(* ===== verification/LeaseExclusion.thy ===== *)
theory LeaseExclusion
  imports LeaseSafety
begin

text \<open>
  Reachable states of the lease authority: exclusion in the repository/branch hierarchy,
  permanence of terminal operations, fresh epochs, idempotent retries, and the guards.
\<close>

section \<open>Reachable files\<close>

text \<open>
  One step is any public operation with any arguments at any time under any pattern of failures.
  Operations are serialised by the state lock, so the steps of concurrent processes form such a
  sequence.
\<close>

inductive lease_step :: "uuid_lib \<Rightarrow> disk \<Rightarrow> disk \<Rightarrow> bool" for lib where
  step: "run_op lib os clock oper d = (res, d') \<Longrightarrow> lease_step lib d d'"

inductive lease_reachable :: "uuid_lib \<Rightarrow> disk \<Rightarrow> bool" for lib where
  start: "lease_reachable lib None"
| next_step: "lease_reachable lib d \<Longrightarrow> lease_step lib d d' \<Longrightarrow> lease_reachable lib d'"

inductive_cases lease_stepE: "lease_step lib d d'"

definition overlaps :: "lkey \<Rightarrow> lkey \<Rightarrow> bool" where
  "overlaps k k' \<longleftrightarrow> k_repository k = k_repository k' \<and>
    (k = k' \<or> k_scope k = scope_repository \<or> k_scope k' = scope_repository)"

definition exclusive :: "lrecord list \<Rightarrow> bool" where
  "exclusive rs \<longleftrightarrow> (\<forall>r \<in> set rs. \<forall>r' \<in> set rs. \<forall>c \<in> claims_of r. \<forall>c' \<in> claims_of r'.
    overlaps (rec_key r) (rec_key r') \<longrightarrow> cl_token c = cl_token c')"

lemma overlaps_sym: "overlaps k k' \<longleftrightarrow> overlaps k' k"
  by (auto simp: overlaps_def)

lemma hierarchy_disjoint:
  assumes "validate_snapshot lib st = None" and "check_hierarchy_claims st keys req = None"
    and "r \<in> set (sn_records st)" and "claims_of r \<noteq> {}" and "rkey r \<notin> key_canonical ` set keys"
    and "k \<in> set keys"
  shows "\<not> overlaps k (rec_key r)"
  using hierarchyD [OF assms(1-5) assms(6)] assms(5,6) by (auto simp: overlaps_def)

lemma hierarchy_records: "sn_records st = sn_records st' \<Longrightarrow>
    check_hierarchy_claims st keys req = check_hierarchy_claims st' keys req"
  by (simp add: check_hierarchy_claims_def)

lemma old_record_rec_key:
  assumes "validate_snapshot lib st = None" and "key_validate k = None"
  shows "rec_key (old_record (sn_records st) k) = k"
  using assms
proof (cases rule: old_record_cases)
  case (found r)
  with assms show ?thesis
    using key_canonical_inj_on by (auto simp: record_validate_iff dest: inj_onD)
qed simp

lemma put_claims_exclusive:
  assumes valid: "validate_snapshot lib st = None" and keys: "canonical_keys ks = Inr keys"
    and hier: "check_hierarchy_claims st keys req = None" and excl: "exclusive (sn_records st)"
  shows "exclusive (put_claims is_fence e c keys (sn_records st))"
proof -
  note ck = canonical_keys_okD [OF keys]
  have kv: "key_validate k = None" if "k \<in> set keys" for k using that ck by simp
  let ?rs = "put_claims is_fence e c keys (sn_records st)"
  have cases: "(claims_of r = {c} \<and> rec_key r \<in> set keys) \<or>
      (r \<in> set (sn_records st) \<and> rkey r \<notin> key_canonical ` set keys)" if "r \<in> set ?rs" for r
    using put_claims_records [OF valid ck(6) that] old_record_rec_key [OF valid kv] by auto
  show ?thesis
    unfolding exclusive_def
  proof (intro ballI impI)
    fix r r' c1 c2
    assume r: "r \<in> set ?rs" "r' \<in> set ?rs" "c1 \<in> claims_of r" "c2 \<in> claims_of r'"
      and o: "overlaps (rec_key r) (rec_key r')"
    have apart: False if "rec_key a \<in> set keys" "b \<in> set (sn_records st)" "claims_of b \<noteq> {}"
      "rkey b \<notin> key_canonical ` set keys" "overlaps (rec_key a) (rec_key b)" for a b
      using hierarchy_disjoint [OF valid hier that(2,3,4,1)] that(5) by blast
    from cases [OF r(1)] cases [OF r(2)] show "cl_token c1 = cl_token c2"
    proof (elim disjE conjE)
      assume "rec_key r \<in> set keys" "r' \<in> set (sn_records st)" "rkey r' \<notin> key_canonical ` set keys"
      with apart [of r r'] r(4) o show ?thesis by blast
    next
      assume "rec_key r' \<in> set keys" "r \<in> set (sn_records st)" "rkey r \<notin> key_canonical ` set keys"
      with apart [of r' r] r(3) o show ?thesis unfolding overlaps_sym [of "rec_key r"] by blast
    next
      assume "r \<in> set (sn_records st)" "r' \<in> set (sn_records st)"
      with excl r(3,4) o show ?thesis unfolding exclusive_def by blast
    qed (use r(3,4) in simp)
  qed
qed

lemma finish_records_exclusive:
  assumes valid: "validate_snapshot lib st = None" and keys: "canonical_keys ks = Inr keys"
    and key_set: "validate_claim_key_set st keys t kind = None"
    and held: "\<forall>k \<in> set keys. holds_claim (sn_records st) t kind k = None"
    and excl: "exclusive (sn_records st)"
  shows "exclusive (fold (\<lambda>k. ensure_record k (finish_record e t kind terminal now)) keys (sn_records st))"
proof -
  note D = finish_keys [OF valid key_set held]
  let ?rs = "fold (\<lambda>k. ensure_record k (finish_record e t kind terminal now)) keys (sn_records st)"
  have "r \<in> set (sn_records st) \<or> claims_of r = {}" if "r \<in> set ?rs" for r
    using written_records [OF valid canonical_keys_okD(6) [OF keys] finish_record_simps(1) that]
    by (auto elim!: D simp: claims_of_finish_record)
  with excl show ?thesis unfolding exclusive_def by blast
qed

lemma canonical_exclusive:
  "exclusive (sn_records (canonical_snapshot st)) \<longleftrightarrow> exclusive (sn_records st)"
  by (auto simp: exclusive_def)

lemma spec_op_exclusive:
  assumes "validate_snapshot lib st = None" and "exclusive (sn_records st)"
    and "spec_op lib clock oper st = Inr (changed, e, st')"
  shows "exclusive (sn_records st')"
  using assms(3)
proof (cases rule: spec_op_InrE)
  case (activate ks keys req f t)
  from activate(3) show ?thesis
  proof (cases rule: activate_body_cases)
    case (existing added st1)
    with assms(2) show ?thesis by (simp add: ensure_bindingD)
  next
    case (fresh added st1 promote any_claim e)
    note rec = ensure_bindingD(1) [OF fresh(2)]
    from fresh(3) have "check_hierarchy_claims st keys req = None"
      by (simp add: hierarchy_records [OF rec])
    then show ?thesis
      unfolding fresh(11) rec
      using put_claims_exclusive [OF assms(1) activate(1) _ assms(2)] by simp
  qed
next
  case (finish ks keys t kind terminal)
  from finish(3) show ?thesis
  proof (cases rule: finish_body_cases)
    case finish: finish
    then show ?thesis
      using finish_records_exclusive [OF assms(1) \<open>canonical_keys ks = Inr keys\<close> finish(2,3) assms(2)]
      by simp
  qed (use assms in simp)
qed

lemma lease_step_cases:
  assumes "lease_step lib d d'" and "stored lib d = Some st"
  obtains (same) "d' = d"
  | (run) clock oper e st' where "spec_op lib clock oper st = Inr (True, e, st')"
      "validate_snapshot lib st' = None" "stored lib d' = Some (canonical_snapshot st')"
  using assms(1)
proof (rule lease_stepE)
  fix os clock oper res assume "run_op lib os clock oper d = (res, d')"
  then show thesis
    by (cases rule: run_op_cases) (use assms(2) same run stored_file_of in auto)
qed

lemma reachable_exclusive:
  assumes "lease_reachable lib d"
  shows "\<exists>st. stored lib d = Some st \<and> validate_snapshot lib st = None \<and> exclusive (sn_records st)"
  using assms
proof (induction rule: lease_reachable.induct)
  case start
  have "exclusive (sn_records empty_snapshot)" by (simp add: exclusive_def empty_snapshot_def)
  with stored_None empty_snapshot_valid show ?case by blast
next
  case (next_step d d')
  then obtain st where st: "stored lib d = Some st" "validate_snapshot lib st = None" "exclusive (sn_records st)"
    by blast
  from next_step.hyps(2) st(1) show ?case
  proof (cases rule: lease_step_cases)
    case (run clock oper e st')
    with spec_op_exclusive [OF st(2,3) run(1)] show ?thesis by (auto simp: canonical_exclusive)
  qed (use st in simp)
qed

text \<open>
  C10: Exclusion in the hierarchy: whatever operations ran, in any order, with any failures, the
  file is readable, and two active claims on overlapping keys (the same key, or a repository and
  one of its branches) carry the same token: a repository and its branches are never claimed by
  two operations at once.
\<close>

theorem lease_exclusion:
  assumes "lease_reachable lib d"
  shows "\<exists>st. stored lib d = Some st \<and> validate_snapshot lib st = None \<and> exclusive (sn_records st)"
  using assms by (rule reachable_exclusive)

section \<open>What Reserve and Fence grant\<close>

text \<open>
  The token is held, with the machine of the request, on every requested key, and the operation
  holds no other key.
\<close>

definition granted :: "snapshot \<Rightarrow> lkey list \<Rightarrow> request \<Rightarrow> claim_kind \<Rightarrow> token \<Rightarrow> bool" where
  "granted st ks req kind t \<longleftrightarrow>
    tk_operation t = rq_operation req \<and> tk_digest t = rq_digest req \<and>
    (\<forall>k \<in> set ks. \<exists>r \<in> set (sn_records st). rec_key r = k \<and>
      (\<exists>c. claim_of kind r = Some c \<and> cl_token c = t \<and> cl_machine c = rq_machine req)) \<and>
    (\<forall>r \<in> set (sn_records st). \<forall>c \<in> claims_of r.
      tk_operation (cl_token c) = rq_operation req \<longrightarrow> rec_key r \<in> set ks)"

lemma rkey_mem:
  assumes "validate_snapshot lib st = None" and "r \<in> set (sn_records st)"
    and "canonical_keys ks = Inr keys"
  shows "rkey r \<in> key_canonical ` set keys \<longleftrightarrow> rec_key r \<in> set ks"
proof -
  note ck = canonical_keys_okD [OF assms(3)]
  have "key_validate (rec_key r) = None" using valid_records [OF assms(1,2)] by (simp add: record_validate_iff)
  with ck(2,3) key_canonical_inj_on show ?thesis by (auto dest: inj_onD)
qed

lemma existing_unchanged:
  assumes valid: "validate_snapshot lib st = None" and keys: "keys \<noteq> []"
    and scan: "same_kind_scan kind req None (claims_at (sn_records st) keys) = Inr (Some t)"
    and ens: "ensure_binding st req = (added, st1)"
  shows "\<not> added \<and> st1 = st"
proof -
  from keys obtain k where k: "k \<in> set keys" by (cases keys) auto
  from existing_claims [OF scan k] obtain r c where
    r: "r \<in> set (sn_records st)" "active_claim r = Some (c, kind)" "cl_token c = t" "same_operation t req"
    by (auto dest: find_record_SomeD)
  then have "binding_map st (rq_operation req) \<noteq> None"
    using valid_records [OF valid r(1)] active_claim_SomeD [OF r(2)]
    by (auto simp: record_validate_iff claim_validate_iff same_operation_def)
  with ensure_bindingD(8,9) [OF ens] show ?thesis by simp
qed

lemma activate_body_granted:
  assumes valid: "validate_snapshot lib st = None" and keys: "canonical_keys ks = Inr keys"
    and run: "activate_body clock keys req f st = Inr (changed, t, st')"
  shows "granted st' ks req (kind_of f) t"
    and "changed \<longrightarrow> sn_last st < tk_epoch t \<and> sn_last st' = tk_epoch t" and "\<not> changed \<longrightarrow> st' = st"
proof -
  note ck = canonical_keys_okD [OF keys]
  have "granted st' ks req (kind_of f) t \<and> (changed \<longrightarrow> sn_last st < tk_epoch t \<and> sn_last st' = tk_epoch t) \<and>
      (\<not> changed \<longrightarrow> st' = st)"
    using run
  proof (cases rule: activate_body_cases)
    case (existing added st1)
    note rec = ensure_bindingD(1) [OF existing(2)]
    from existing_unchanged [OF valid ck(4) existing(4) [unfolded rec] existing(2)]
    have st': "st' = st" "\<not> changed" using existing by simp_all
    have held: "(\<exists>r \<in> set (sn_records st). rec_key r = k \<and>
        (\<exists>c. claim_of (kind_of f) r = Some c \<and> cl_token c = t \<and> cl_machine c = rq_machine req)) \<and>
        same_operation t req" if "k \<in> set ks" for k
    proof -
      from that ck(3) have k: "k \<in> set keys" by simp
      from existing_claims [OF existing(4) k] obtain r c where r: "find_record (sn_records st) k = Some r"
        "active_claim r = Some (c, kind_of f)" "cl_token c = t" "same_operation t req" "cl_machine c = rq_machine req"
        unfolding rec by blast
      have "rec_key r = k"
        using old_record_rec_key [OF valid, of k] r(1) ck(2,3) k by simp
      with find_record_SomeD [OF r(1)] active_claim_SomeD [OF r(2)] r(3-5) show ?thesis by blast
    qed
    obtain k where "k \<in> set ks" using ck(1) by (cases ks) auto
    from held [OF this] have "tk_operation t = rq_operation req" "tk_digest t = rq_digest req"
      by (simp_all add: same_operation_def)
    moreover have "rec_key r \<in> set ks" if "r \<in> set (sn_records st)" "c \<in> claims_of r"
      "tk_operation (cl_token c) = rq_operation req" for r c
      using operation_reuseD(3) [OF valid existing(1) that] rkey_mem [OF valid that(1) keys] by blast
    ultimately show ?thesis using held unfolding granted_def st' by (simp add: st'(2))
  next
    case (fresh added st1 promote any_claim e)
    note rec = ensure_bindingD(1,2) [OF fresh(2)]
    let ?c = "\<lparr>cl_token = t, cl_machine = rq_machine req, cl_created = lease_time clock\<rparr>"
    have recs: "sn_records st' = put_claims f e ?c keys (sn_records st)"
      using fresh(11) by (simp add: rec)
    have held: "\<exists>r \<in> set (sn_records st'). rec_key r = k \<and>
        (\<exists>c. claim_of (kind_of f) r = Some c \<and> cl_token c = t \<and> cl_machine c = rq_machine req)"
      if "k \<in> set ks" for k
    proof -
      from that ck(3) have k: "k \<in> set keys" by simp
      have "set_claim f ?c ((old_record (sn_records st) k)\<lparr>rec_epoch := e\<rparr>) \<in> set (sn_records st')"
        using fold_ensure_record [OF ck(6), of "sn_records st" "\<lambda>r. set_claim f ?c (r\<lparr>rec_epoch := e\<rparr>)"]
          valid k by (auto simp: recs put_claims_def validate_snapshot_iff)
      moreover have "rec_key (set_claim f ?c ((old_record (sn_records st) k)\<lparr>rec_epoch := e\<rparr>)) = k"
        using old_record_rec_key [OF valid, of k] ck(2,3) k by simp
      ultimately show ?thesis
        by (intro bexI [of _ "set_claim f ?c ((old_record (sn_records st) k)\<lparr>rec_epoch := e\<rparr>)"]) simp_all
    qed
    have only: "rec_key r \<in> set ks" if r: "r \<in> set (sn_records st')" "c \<in> claims_of r"
      "tk_operation (cl_token c) = rq_operation req" for r c
      using put_claims_records [OF valid ck(6) r(1) [unfolded recs]]
    proof
      assume "r \<in> set (sn_records st) \<and> rkey r \<notin> key_canonical ` set keys"
      with operation_reuseD(3) [OF valid fresh(1)] r show ?thesis by blast
    next
      assume "\<exists>k \<in> set keys. r = set_claim f ?c ((old_record (sn_records st) k)\<lparr>rec_epoch := e\<rparr>)"
      then show ?thesis using old_record_rec_key [OF valid] ck(2,3) by auto
    qed
    from held only fresh show ?thesis by (simp add: granted_def rec)
  qed
  then show "granted st' ks req (kind_of f) t"
    "changed \<longrightarrow> sn_last st < tk_epoch t \<and> sn_last st' = tk_epoch t" "\<not> changed \<longrightarrow> st' = st" by simp_all
qed

lemma granted_canonical:
  "granted (canonical_snapshot st) ks req kind t \<longleftrightarrow> granted st ks req kind t"
proof -
  have "claim_of kind (canonical_record r) = map_option canonical_claim (claim_of kind r)" for r
    by (cases kind) (simp_all add: claim_of_def canonical_record_def)
  then have "(\<exists>c. claim_of kind (canonical_record r) = Some c \<and> cl_token c = t \<and> cl_machine c = m) \<longleftrightarrow>
      (\<exists>c. claim_of kind r = Some c \<and> cl_token c = t \<and> cl_machine c = m)" for r m by force
  then show ?thesis by (simp add: granted_def)
qed

lemma activate_grants:
  assumes "activate lib os clock ks req f d = (Inr t, d')" and "stored lib d = Some st"
  shows "\<exists>st'. stored lib d' = Some st' \<and> granted st' ks req (kind_of f) t \<and>
    (d' = d \<or> (sn_last st' = tk_epoch t \<and> sn_last st < tk_epoch t \<and>
      (\<forall>r \<in> set (sn_records st). rec_epoch r < tk_epoch t \<and>
        (\<forall>c \<in> claims_of r. tk_epoch (cl_token c) < tk_epoch t) \<and>
        (\<forall>tb \<in> set (rec_tombstones r). tk_epoch (tb_token tb) < tk_epoch t))))"
proof -
  note valid = storedD(1) [OF assms(2)]
  from assms(1) show ?thesis
  proof (cases rule: activate_cases)
    case (unchanged st1 t1 st')
    with assms(2) have run: "activate_spec lib clock ks req f st = Inr (False, t, st')" and "d' = d" by simp_all
    from run obtain keys where "canonical_keys ks = Inr keys" "activate_body clock keys req f st = Inr (False, t, st')"
      by (rule spec_activateD)
    from activate_body_granted [OF valid this] \<open>d' = d\<close> assms(2) show ?thesis by auto
  next
    case (replaced st1 t1 st')
    with assms(2) have run: "activate_spec lib clock ks req f st = Inr (True, t, st')"
      and d': "stored lib d' = Some (canonical_snapshot st')" using stored_file_of by (auto split: if_splits)
    from run obtain keys where "canonical_keys ks = Inr keys" "activate_body clock keys req f st = Inr (True, t, st')"
      by (rule spec_activateD)
    note g = activate_body_granted [OF valid this]
    have "rec_epoch r \<le> sn_last st \<and> (\<forall>c \<in> claims_of r. tk_epoch (cl_token c) \<le> sn_last st) \<and>
        (\<forall>tb \<in> set (rec_tombstones r). tk_epoch (tb_token tb) \<le> sn_last st)"
      if "r \<in> set (sn_records st)" for r
      using valid_records [OF valid that]
      by (force simp: record_validate_iff claim_validate_iff tombstone_validate_iff)
    with g d' show ?thesis by (auto simp: granted_canonical intro: le_less_trans)
  qed simp
qed

text \<open>
  C13: What a successful Reserve or Fence grants: the returned token is the request's, is held on
  every requested key and the operation holds nothing else; either the operation held exactly
  that already and nothing changes, or the epoch is new: greater than every epoch the file held.
\<close>

theorem lease_grant:
  assumes "activate lib os clock ks req f d = (Inr t, d')" and "stored lib d = Some st"
  shows "\<exists>st'. stored lib d' = Some st' \<and> granted st' ks req (kind_of f) t \<and>
    (d' = d \<or> (sn_last st' = tk_epoch t \<and> sn_last st < tk_epoch t \<and>
      (\<forall>r \<in> set (sn_records st). rec_epoch r < tk_epoch t \<and>
        (\<forall>c \<in> claims_of r. tk_epoch (cl_token c) < tk_epoch t) \<and>
        (\<forall>tb \<in> set (rec_tombstones r). tk_epoch (tb_token tb) < tk_epoch t))))"
  using assms by (rule activate_grants)

section \<open>Retries\<close>

lemma same_kind_scanI:
  assumes "\<forall>oc \<in> set cs. \<exists>c. oc = Some (c, w) \<and> cl_token c = t \<and> same_operation t req \<and>
      cl_machine c = rq_machine req"
  shows "same_kind_scan w req (Some t) cs = Inr (Some t)"
    and "cs \<noteq> [] \<Longrightarrow> same_kind_scan w req None cs = Inr (Some t)"
proof -
  show *: "same_kind_scan w req (Some t) cs = Inr (Some t)" using assms by (induction cs) auto
  assume "cs \<noteq> []"
  then obtain oc cs' where "cs = oc # cs'" by (cases cs) auto
  with assms * show "same_kind_scan w req None cs = Inr (Some t)" by (cases cs) auto
qed

lemma granted_claim:
  assumes "validate_snapshot lib st = None" and "granted st ks req kind t" and "k \<in> set ks"
  obtains r c where "r \<in> set (sn_records st)" "rec_key r = k" "claim_of kind r = Some c" "c \<in> claims_of r"
    "cl_token c = t" "cl_machine c = rq_machine req" "active_claim r = Some (c, kind)"
    "binding_map st (rq_operation req) = Some (rq_digest req)"
    "(rq_operation req, t, rq_machine req, kind) \<in> actives (sn_records st)"
proof -
  from assms(2,3) obtain r c where r: "r \<in> set (sn_records st)" "rec_key r = k" "claim_of kind r = Some c"
    "cl_token c = t" "cl_machine c = rq_machine req" by (auto simp: granted_def)
  from claim_of_mem [OF r(3)] have c: "c \<in> claims_of r" .
  from active_claim_of [OF valid_single_claim [OF assms(1) r(1)] c] valid_single_claim [OF assms(1) r(1)] r(3)
  have "active_claim r = Some (c, kind)"
    by (cases kind) (auto simp: active_claim_def claim_of_def split: option.splits)
  moreover have "binding_map st (rq_operation req) = Some (rq_digest req)"
    using valid_records [OF assms(1) r(1)] c r(4) assms(2)
    by (auto simp: record_validate_iff claim_validate_iff granted_def)
  moreover have "(rq_operation req, t, rq_machine req, kind) \<in> actives (sn_records st)"
  proof -
    have "tk_operation t = rq_operation req" using assms(2) by (simp add: granted_def)
    with r show ?thesis unfolding actives_iff by metis
  qed
  ultimately show thesis using that r c by blast
qed

lemma activate_body_again:
  assumes valid: "validate_snapshot lib st = None" and excl: "exclusive (sn_records st)"
    and keys: "canonical_keys ks = Inr keys" and granted: "granted st ks req (kind_of f) t"
  shows "activate_body clock keys req f st = Inr (False, t, st)"
proof -
  note ck = canonical_keys_okD [OF keys]
  note G = granted_claim [OF valid granted]
  obtain k0 where k0: "k0 \<in> set ks" using ck(1) by (cases ks) auto
  from k0 have bound: "binding_map st (rq_operation req) = Some (rq_digest req)" by (rule G)
  from k0 have act: "(rq_operation req, t, rq_machine req, kind_of f) \<in> actives (sn_records st)" by (rule G)
  have op_t: "tk_operation t = rq_operation req" "tk_digest t = rq_digest req"
    using granted by (simp_all add: granted_def)
  have mine: "cl_token c = t \<and> key_canonical (rec_key r) \<in> set (map key_canonical keys)"
    if "r \<in> set (sn_records st)" "active_claim r = Some (c, k)" "tk_operation (cl_token c) = rq_operation req" for r c k
  proof -
    note c = active_claim_SomeD [OF that(2)]
    then have "(rq_operation req, cl_token c, cl_machine c, k) \<in> actives (sn_records st)"
      using that by (auto simp: actives_iff)
    from valid_actives_unique [OF valid this act] have "cl_token c = t" by simp
    moreover have "rec_key r \<in> set ks" using granted that c unfolding granted_def by blast
    ultimately show ?thesis using ck(3) by auto
  qed
  have no_ter: "tk_operation (tb_token tb) \<noteq> rq_operation req"
    if "r \<in> set (sn_records st)" "tb \<in> set (rec_tombstones r)" for r tb
    using valid act that by (force simp: validate_snapshot_iff disjoint_iff terminals_def terminal_signatures_def image_iff)
  have "record_reuse keys req r = None" if "r \<in> set (sn_records st)" for r
    using no_ter [OF that] mine [OF that] op_t
    by (auto simp: record_reuse_def tombstone_reuse_def first_error_None_iff checks.simps split: option.splits)
  moreover have "binding_reuse req (sn_bindings st) = None"
    using bound unfolding binding_map_def map_of_bindings by (auto simp: binding_reuse_def)
  ultimately have reuse: "check_operation_reuse st keys req = None"
    by (simp add: check_operation_reuse_def first_error_None_iff)
  have "hierarchy_conflict keys req r = None" if r: "r \<in> set (sn_records st)" for r
  proof (rule ccontr)
    assume "hierarchy_conflict keys req r \<noteq> None"
    then obtain c kind k where c: "active_claim r = Some (c, kind)" "k \<in> set keys"
      "key_canonical (rec_key r) \<notin> set (map key_canonical keys)" "overlaps k (rec_key r)"
      by (auto simp: hierarchy_conflict_def list_ex_iff overlaps_def split: option.splits if_splits)
    from c(2) ck(3) have "k \<in> set ks" by simp
    then obtain r' c' where "r' \<in> set (sn_records st)" "rec_key r' = k" "c' \<in> claims_of r'" "cl_token c' = t"
      by (rule G)
    with c r excl active_claim_SomeD [OF c(1)] have "cl_token c = t"
      unfolding exclusive_def by metis
    with mine [OF r c(1)] op_t c(3) show False by simp
  qed
  then have hier: "check_hierarchy_claims st keys req = None"
    by (simp add: check_hierarchy_claims_def first_error_None_iff)
  obtain added st1 where ens: "ensure_binding st req = (added, st1)" by fastforce
  with bound ensure_bindingD(8,9) [OF ens] have ens: "ensure_binding st req = (False, st)" by simp
  have "\<exists>c. Option.bind (find_record (sn_records st) k) active_claim = Some (c, kind_of f) \<and> cl_token c = t \<and>
      same_operation t req \<and> cl_machine c = rq_machine req" if "k \<in> set keys" for k
  proof -
    from that ck(3) have "k \<in> set ks" by simp
    then obtain r c where "r \<in> set (sn_records st)" "rec_key r = k" "cl_token c = t"
      "cl_machine c = rq_machine req" "active_claim r = Some (c, kind_of f)" by (rule G)
    moreover from this valid have "find_record (sn_records st) k = Some r"
      by (intro find_record_eq) (simp_all add: validate_snapshot_iff)
    ultimately show ?thesis using op_t by (simp add: same_operation_def)
  qed
  then have "same_kind_scan (kind_of f) req None (claims_at (sn_records st) keys) = Inr (Some t)"
    using ck(4) by (intro same_kind_scanI(2)) auto
  with reuse hier ens show ?thesis by (simp add: activate_body_def Let_def)
qed

text \<open>
  C14: Reserve and Fence are idempotent: a retry of a granted request, at any later time and with
  the keys in any order, returns the same token and leaves the file as it is.
\<close>

theorem lease_retry:
  assumes "lease_reachable lib d" and "activate lib os clock ks req f d = (Inr t, d')"
    and "set ks' = set ks"
  shows "activate lib (\<lambda>_. True) clock' ks' req f d' = (Inr t, d')"
proof -
  from assms(1) have "lease_reachable lib d'"
  proof (rule next_step)
    have "run_op lib os clock (if f then Fence ks req else Reserve ks req) d = (Inr (tk_epoch t), d')"
      using assms(2) by (cases f) (simp_all add: reserve_def fence_def)
    then show "lease_step lib d d'" by (rule step)
  qed
  from reachable_exclusive [OF this] obtain st' where
    st': "stored lib d' = Some st'" "validate_snapshot lib st' = None" "exclusive (sn_records st')" by blast
  from reachable_exclusive [OF assms(1)] obtain st where "stored lib d = Some st" by blast
  from activate_grants [OF assms(2) this] st'(1) have g: "granted st' ks req (kind_of f) t" by auto
  obtain keys where keys: "canonical_keys ks = Inr keys" "request_validate lib req = None"
    using assms(2) by (cases rule: activate_cases) (auto elim!: spec_activateD)
  note keys' = canonical_keys_cong(2) [OF assms(3) [symmetric] keys(1)]
  note again = activate_body_again [OF st'(2,3) keys(1) g]
  from canonical_keys_mutation [OF keys(1)] obtain locked where "canonical_keys (mutation_keys keys) = Inr locked" ..
  note lock = with_key_locks_ok [OF this]
  have "update_state lib (\<lambda>_. True) (activate_body clock' keys req f) d' = (Inr t, d')"
    using update_state_ok [of lib d' st' "activate_body clock' keys req f", OF st'(1) again] by simp
  with keys(2) keys' show ?thesis by (simp add: activate_def lock)
qed

end
