(* ===== verification/LeaseGuard.thy ===== *)
theory LeaseGuard
  imports LeaseExclusion
begin

text \<open>
  The end of an operation's claims, the permanence of its tombstones, and what \<open>WithGuard\<close>
  and \<open>WithMutation\<close> admit.
\<close>

section \<open>Tombstones are never removed\<close>

lemma written_terminals:
  assumes "validate_snapshot lib st = None" and "distinct (map key_canonical keys)"
    and "\<And>r. rec_key (f r) = rec_key r"
    and "\<And>r. set (rec_tombstones r) \<subseteq> set (rec_tombstones (f r))"
  shows "terminals (sn_records st) \<subseteq> terminals (fold (\<lambda>k. ensure_record k f) keys (sn_records st))"
proof
  let ?rs = "fold (\<lambda>k. ensure_record k f) keys (sn_records st)"
  fix x assume "x \<in> terminals (sn_records st)"
  then obtain r where r: "r \<in> set (sn_records st)" "x \<in> set (terminal_signatures r)" by (auto simp: terminals_def)
  from fold_ensure_record [OF assms(2), of "sn_records st" f] assms(1,3)
  have set': "set ?rs = {r \<in> set (sn_records st). rkey r \<notin> key_canonical ` set keys} \<union>
      (\<lambda>k. f (old_record (sn_records st) k)) ` set keys" by (simp add: validate_snapshot_iff)
  show "x \<in> terminals ?rs"
  proof (cases "rkey r \<in> key_canonical ` set keys")
    case False
    with r show ?thesis by (auto simp: terminals_def set')
  next
    case True
    then obtain k where k: "k \<in> set keys" "rkey r = key_canonical k" by auto
    with r(1) assms(1) have "find_record (sn_records st) k = Some r"
      by (intro find_record_eq) (simp_all add: validate_snapshot_iff)
    with k(1) have "f r \<in> set ?rs" by (force simp: set')
    moreover have "x \<in> set (terminal_signatures (f r))"
      using r(2) assms(4) [of r] by (auto simp: terminal_signatures_def)
    ultimately show ?thesis by (auto simp: terminals_def)
  qed
qed

lemma spec_op_terminals:
  assumes "validate_snapshot lib st = None" and "spec_op lib clock oper st = Inr (changed, e, st')"
  shows "terminals (sn_records st) \<subseteq> terminals (sn_records st')"
  using assms(2)
proof (cases rule: spec_op_InrE)
  case (activate ks keys req f t)
  from activate(3) show ?thesis
  proof (cases rule: activate_body_cases)
    case (existing added st1)
    then show ?thesis by (simp add: ensure_bindingD)
  next
    case (fresh added st1 promote any_claim e)
    show ?thesis
      unfolding fresh(11) ensure_bindingD(1) [OF fresh(2)] put_claims_def
      using written_terminals [OF assms(1) canonical_keys_okD(6) [OF activate(1)]] by simp
  qed
next
  case (finish ks keys t kind terminal)
  from finish(3) show ?thesis
  proof (cases rule: finish_body_cases)
    case finish: finish
    show ?thesis
      unfolding finish(7)
      using written_terminals [OF assms(1) canonical_keys_okD(6) [OF \<open>canonical_keys ks = Inr keys\<close>]] by simp
  qed simp
qed

lemma canonical_terminals [simp]: "terminals (sn_records (canonical_snapshot st)) = terminals (sn_records st)"
  by (simp add: terminals_def)

lemma canonical_actives [simp]: "actives (sn_records (canonical_snapshot st)) = actives (sn_records st)"
  by (simp add: actives_def)

lemma lease_steps_terminals:
  assumes "(lease_step lib)\<^sup>*\<^sup>* d d'" and "stored lib d = Some st"
  shows "\<exists>st'. stored lib d' = Some st' \<and> terminals (sn_records st) \<subseteq> terminals (sn_records st')"
  using assms
proof (induction rule: rtranclp_induct)
  case (step d1 d2)
  then obtain st1 where st1: "stored lib d1 = Some st1" "terminals (sn_records st) \<subseteq> terminals (sn_records st1)"
    by blast
  from step.hyps(2) st1(1) show ?case
  proof (cases rule: lease_step_cases)
    case (run clock oper e st')
    with spec_op_terminals [OF storedD(1) [OF st1(1)] run(1)] st1(2) show ?thesis by auto
  qed (use st1 in blast)
qed blast

text \<open>
  C15: A terminal operation stays terminal: once a tombstone of an operation is stored, no later
  Reserve or Fence of that operation succeeds, whatever operations and failures come in between
  and whatever keys, digest and time it is retried with; the refusal leaves the file as it is.
\<close>

theorem lease_terminal_forever:
  assumes "stored lib d = Some st" and "r \<in> set (sn_records st)" and "tb \<in> set (rec_tombstones r)"
    and "(lease_step lib)\<^sup>*\<^sup>* d d'" and "rq_operation req = tk_operation (tb_token tb)"
  shows "\<exists>e. activate lib os clock ks req f d' = (Inl e, d')"
proof -
  from lease_steps_terminals [OF assms(4,1)] obtain st' where
    st': "stored lib d' = Some st'" "terminals (sn_records st) \<subseteq> terminals (sn_records st')" by blast
  have "(tk_operation (tb_token tb), tb_token tb, tb_kind tb, tb_advanced tb) \<in> terminals (sn_records st)"
    using assms(2,3) by (auto simp: terminals_iff)
  with st'(2) have "(rq_operation req, tb_token tb, tb_kind tb, tb_advanced tb) \<in> terminals (sn_records st')"
    unfolding assms(5) by (rule subsetD)
  then obtain r' tb' where r': "r' \<in> set (sn_records st')" "tb' \<in> set (rec_tombstones r')"
    "tk_operation (tb_token tb') = rq_operation req" unfolding terminals_iff by metis
  have none: False if "activate_spec lib clock ks req f st' = Inr x" for x
  proof -
    obtain changed t st1 where "x = (changed, t, st1)" by (cases x) auto
    with that obtain keys where "activate_body clock keys req f st' = Inr (changed, t, st1)"
      by (auto elim!: spec_activateD)
    then have "check_operation_reuse st' keys req = None" by (cases rule: activate_body_cases) simp_all
    from operation_reuseD(2) [OF storedD(1) [OF st'(1)] this r'(1,2)] r'(3) show False by simp
  qed
  obtain res d2 where act: "activate lib os clock ks req f d' = (res, d2)" by fastforce
  then show ?thesis by (cases rule: activate_cases) (use st'(1) none act in auto)
qed

section \<open>The end of an operation's claims\<close>

lemma terminal_loop_found:
  "terminal_loop keys t kind e m rs = Inr (e', m') \<Longrightarrow> m' \<noteq> m \<Longrightarrow>
    \<exists>r \<in> set rs. \<exists>tb \<in> set (rec_tombstones r). tb_token tb = t \<and> tb_kind tb = kind"
proof (induction keys t kind e m rs rule: terminal_loop.induct)
  case (2 keys t kind e m r rs)
  show ?case
  proof (cases "List.find (\<lambda>tb. token_matches (tb_token tb) t) (rec_tombstones r)")
    case None
    with 2 show ?thesis by auto
  next
    case (Some tb)
    then have "tb \<in> set (rec_tombstones r)" "tb_token tb = t" by (auto simp: find_Some_iff)
    with 2 Some show ?thesis by (auto split: if_splits)
  qed
qed simp

lemma matching_terminal_found:
  "matching_terminal st keys t kind = Inr (Some e) \<Longrightarrow>
    \<exists>r \<in> set (sn_records st). \<exists>tb \<in> set (rec_tombstones r). tb_token tb = t \<and> tb_kind tb = kind"
  by (auto simp: matching_terminal_def split: sum.splits if_splits dest!: terminal_loop_found)

text \<open>
  After a successful Release, Abort or Return the operation holds no claim on any key, and
  after Abort and Return the file keeps a tombstone of the kind with the finished token.
\<close>

lemma lease_finish_effect:
  assumes "finish_claim lib os clock ks t kind terminal d = (Inr e, d')" and "stored lib d = Some st"
  shows "\<exists>st'. stored lib d' = Some st' \<and>
    (\<forall>r \<in> set (sn_records st'). \<forall>c \<in> claims_of r. tk_operation (cl_token c) \<noteq> tk_operation t) \<and>
    (terminal \<noteq> [] \<longrightarrow> (\<exists>r \<in> set (sn_records st'). \<exists>tb \<in> set (rec_tombstones r).
      tb_token tb = t \<and> tb_kind tb = terminal))"
proof -
  note valid = storedD(1) [OF assms(2)]
  have goal: ?thesis if "stored lib d' = Some st'" "tk_operation t \<notin> fst ` actives (sn_records st')"
    "terminal \<noteq> [] \<Longrightarrow> \<exists>e. (tk_operation t, t, terminal, e) \<in> terminals (sn_records st')" for st'
    using that by (auto simp: fst_actives terminals_iff)
  from assms(1) obtain st' changed keys where run: "canonical_keys ks = Inr keys"
      "finish_body clock keys t kind terminal st = Inr (changed, e, st')"
    and d': "(d' = d \<and> \<not> changed) \<or> stored lib d' = Some (canonical_snapshot st')"
    by (cases rule: finish_claim_cases)
      (use assms(2) stored_file_of in \<open>auto elim!: spec_finishD split: if_splits\<close>)
  from run(2) show ?thesis
  proof (cases rule: finish_body_cases)
    case retry
    from matching_terminal_found [OF retry(2)] obtain r tb where
      r: "r \<in> set (sn_records st)" "tb \<in> set (rec_tombstones r)" "tb_token tb = t" "tb_kind tb = terminal" by blast
    then have ter: "(tk_operation t, t, terminal, tb_advanced tb) \<in> terminals (sn_records st)"
      by (auto simp: terminals_iff)
    with valid have "tk_operation t \<notin> fst ` actives (sn_records st)"
      by (force simp: validate_snapshot_iff disjoint_iff image_iff)
    moreover have "stored lib d' = Some st"
      using d' retry(4) assms(2) storedD(2) [OF assms(2)] by auto
    ultimately show ?thesis using ter by (intro goal) auto
  next
    case finish
    note ck = canonical_keys_okD [OF run(1)]
    from finish(7) have recs: "sn_records st' = fold (\<lambda>k. ensure_record k
        (finish_record e t kind terminal (lease_time clock))) keys (sn_records st)" by simp
    note act = finish_actives [OF valid ck(4,6) finish(2,3) recs]
      and ter = finish_terminals [OF valid ck(4,6) finish(2,3) recs]
    from d' finish(6) have "stored lib d' = Some (canonical_snapshot st')" by simp
    then show ?thesis by (rule goal) (auto simp: act ter)
  qed
qed

section \<open>Guards\<close>

lemma guard_loop_tokenD:
  assumes "guard_loop rs (Some t) m ks = Inr n" and "k \<in> set ks"
  obtains r c kind where "find_record rs k = Some r" "active_claim r = Some (c, kind)" "cl_token c = t"
proof -
  have "guard_loop rs tok m ks = Inr n \<Longrightarrow> tok = Some t \<Longrightarrow> k \<in> set ks \<Longrightarrow>
      \<exists>r c kind. find_record rs k = Some r \<and> active_claim r = Some (c, kind) \<and> cl_token c = t" for tok
    by (induction rs tok m ks rule: guard_loop.induct) (auto split: option.splits if_splits)
  with assms that show thesis by blast
qed

lemma guard_loop_noneD:
  "guard_loop rs None m ks = Inr n \<Longrightarrow> k \<in> set ks \<Longrightarrow> find_record rs k = Some r \<Longrightarrow> active_claim r = None"
proof -
  have "guard_loop rs tok m ks = Inr n \<Longrightarrow> tok = None \<Longrightarrow> k \<in> set ks \<Longrightarrow> find_record rs k = Some r \<Longrightarrow>
      active_claim r = None" for tok
    by (induction rs tok m ks rule: guard_loop.induct) (auto split: option.splits if_splits)
  then show "guard_loop rs None m ks = Inr n \<Longrightarrow> k \<in> set ks \<Longrightarrow> find_record rs k = Some r \<Longrightarrow>
      active_claim r = None" by blast
qed

text \<open>A guard runs its operation exactly when every step before it succeeds.\<close>

definition guard_admit :: "uuid_lib \<Rightarrow> (os_call \<Rightarrow> bool) \<Rightarrow> lkey list \<Rightarrow> token option \<Rightarrow> disk \<Rightarrow>
    lease_error option" where
  "guard_admit lib os ks tok d =
    (case canonical_keys ks of Inl e \<Rightarrow> Some e
     | Inr claimed \<Rightarrow> (case (case tok of None \<Rightarrow> None | Some t \<Rightarrow> token_validate lib t) of Some e \<Rightarrow> Some e
     | None \<Rightarrow> with_key_locks os (mutation_keys claimed) Some
         (\<lambda>locked. read_state lib os (guard_check locked claimed tok) d)))"

lemma with_guard_admit:
  "with_guard lib os ks tok operation d w =
    (case guard_admit lib os ks tok d of Some e \<Rightarrow> (Some e, w) | None \<Rightarrow> operation w)"
  by (simp add: with_guard_def guard_admit_def with_key_locks_def split: sum.split option.split)

lemma guard_admitD:
  assumes "guard_admit lib os ks tok d = None"
  obtains keys locked st where "canonical_keys ks = Inr keys" "canonical_keys (mutation_keys keys) = Inr locked"
    "stored lib d = Some st" "guard_check locked keys tok st = None" "\<forall>k \<in> set locked. os (OKeyLock k)"
proof -
  from assms obtain keys where k: "canonical_keys ks = Inr keys"
    and w: "with_key_locks os (mutation_keys keys) Some
      (\<lambda>locked. read_state lib os (guard_check locked keys tok) d) = None"
    by (auto simp: guard_admit_def split: sum.splits option.splits)
  from w show thesis
  proof (cases rule: with_key_locks_cases)
    case (locked locked)
    then obtain st where "load_state lib os d = Inr st" "guard_check locked keys tok st = None"
      by (auto simp: read_state_def split: sum.splits if_splits)
    with k locked load_stateD(1) that show thesis by blast
  qed simp
qed

lemma guard_check_token:
  assumes valid: "validate_snapshot lib st = None" and keys: "canonical_keys ks = Inr keys"
    and check: "guard_check locked keys (Some t) st = None"
  shows "rec_key ` {r \<in> set (sn_records st). \<exists>c \<in> claims_of r. cl_token c = t} = set ks"
proof -
  note ck = canonical_keys_okD [OF keys]
  from check obtain n where loop: "guard_loop (sn_records st) (Some t) 0 keys = Inr n"
    and set: "validate_guard_key_set st keys t = None"
    by (auto simp: guard_check_def Let_def split: sum.splits)
  have "rec_key r \<in> set ks" if r: "r \<in> set (sn_records st)" "c \<in> claims_of r" "cl_token c = t" for r c
  proof -
    from active_claim_of [OF valid_single_claim [OF valid r(1)] r(2)]
    have "map_option fst (active_claim r) = Some c" by auto
    with set r have "rkey r \<in> key_canonical ` set keys"
      by (auto simp: validate_guard_key_set_def dest: owned_loopD split: sum.splits)
    with rkey_mem [OF valid r(1) keys] show ?thesis by simp
  qed
  moreover have "\<exists>r \<in> set (sn_records st). rec_key r = k \<and> (\<exists>c \<in> claims_of r. cl_token c = t)"
    if "k \<in> set ks" for k
  proof -
    from that ck(3) have k: "k \<in> set keys" by simp
    with loop obtain r c kind where r: "find_record (sn_records st) k = Some r"
      "active_claim r = Some (c, kind)" "cl_token c = t" by (rule guard_loop_tokenD)
    have "rec_key r = k" using old_record_rec_key [OF valid, of k] r(1) ck(2,3) k by simp
    with r find_record_SomeD [OF r(1)] active_claim_SomeD [OF r(2)] show ?thesis by blast
  qed
  ultimately show ?thesis by blast
qed

lemma mutation_keys_mem:
  "k \<in> set keys \<Longrightarrow> k \<in> set (mutation_keys keys)"
  "k \<in> set keys \<Longrightarrow> k_scope k = scope_branch \<Longrightarrow> repository_key (k_repository k) \<in> set (mutation_keys keys)"
  by (auto simp: mutation_keys_def)

lemma repository_scope_key:
  "key_validate k = None \<Longrightarrow> k_scope k = scope_repository \<Longrightarrow> k = repository_key (k_repository k)"
  by (cases k) (auto simp: key_validate_def repository_key_def)

lemma guard_check_ordinary:
  assumes valid: "validate_snapshot lib st = None" and keys: "canonical_keys ks = Inr keys"
    and locked: "canonical_keys (mutation_keys keys) = Inr locked"
    and check: "guard_check locked keys None st = None"
    and r: "r \<in> set (sn_records st)" "claims_of r \<noteq> {}" and k: "k \<in> set ks"
  shows "\<not> overlaps k (rec_key r)"
proof
  assume o: "overlaps k (rec_key r)"
  note ck = canonical_keys_okD [OF keys] and lk = canonical_keys_okD [OF locked]
  from k ck(3) have k': "k \<in> set keys" by simp
  have kv: "key_validate k = None" "key_validate (rec_key r) = None"
    using ck(2) k valid_records [OF valid r(1)] by (simp_all add: record_validate_iff)
  from r(2) obtain c where "c \<in> claims_of r" by blast
  from active_claim_of [OF valid_single_claim [OF valid r(1)] this] obtain kind where
    active: "active_claim r = Some (c, kind)" by blast
  from check obtain n where loop: "guard_loop (sn_records st) None 0 locked = Inr n"
    and branch: "first_error (branch_block keys) (sn_records st) = None"
    by (auto simp: guard_check_def Let_def split: sum.splits)
  have free: "rec_key r \<notin> set locked"
    using guard_loop_noneD [OF loop] find_record_mem [of "sn_records st" r] valid r(1) active
    by (auto simp: validate_snapshot_iff)
  consider "k = rec_key r" | "k_scope (rec_key r) = scope_repository" "k_scope k = scope_branch"
      "k_repository k = k_repository (rec_key r)"
    | "k_scope k = scope_repository" "k_scope (rec_key r) = scope_repository" "k_repository k = k_repository (rec_key r)"
    | "k_scope k = scope_repository" "k_scope (rec_key r) = scope_branch" "k_repository k = k_repository (rec_key r)"
    using o key_validate_scope [OF kv(1)] key_validate_scope [OF kv(2)] by (auto simp: overlaps_def)
  then show False
  proof cases
    case 1
    with free k' lk(3) mutation_keys_mem(1) show False by simp
  next
    case 2
    with repository_scope_key [OF kv(2)] mutation_keys_mem(2) [OF k'] lk(3) free show False by simp
  next
    case 3
    with repository_scope_key [OF kv(1)] repository_scope_key [OF kv(2)] free k' lk(3)
      mutation_keys_mem(1) show False by metis
  next
    case 4
    with branch r(1) k' active show False
      by (auto simp: first_error_None_iff branch_block_def list_ex_iff dest!: bspec split: if_splits)
  qed
qed

text \<open>
  A guard with a token admits only the exact owner: unless the file holds the token on
  exactly the requested keys, no more and no fewer, the guarded operation does not run.
\<close>

lemma guard_exact_owner:
  "(\<exists>e. \<forall>operation w. with_guard lib os ks (Some t) operation d w = (Some e, w)) \<or>
   (\<exists>st. stored lib d = Some st \<and>
      rec_key ` {r \<in> set (sn_records st). \<exists>c \<in> claims_of r. cl_token c = t} = set ks)"
proof (cases "guard_admit lib os ks (Some t) d")
  case None
  then obtain keys locked st where g: "canonical_keys ks = Inr keys" "stored lib d = Some st"
    "guard_check locked keys (Some t) st = None" by (rule guard_admitD)
  from guard_check_token [OF storedD(1) [OF g(2)] g(1,3)] g(2) show ?thesis by simp
qed (simp add: with_guard_admit)

text \<open>
  An ordinary mutation runs only when nothing it may touch is claimed: unless no active
  reservation or fence overlaps a requested key (a fenced repository blocks all its branches, a
  fenced branch blocks repository-wide work), the operation does not run.
\<close>

lemma mutation_blocked_by_claims:
  "(\<exists>e. \<forall>operation w. with_mutation lib os ks operation d w = (Some e, w)) \<or>
   (\<exists>st. stored lib d = Some st \<and>
      (\<forall>r \<in> set (sn_records st). \<forall>k \<in> set ks. claims_of r \<noteq> {} \<longrightarrow> \<not> overlaps k (rec_key r)))"
proof (cases "guard_admit lib os ks None d")
  case None
  then obtain keys locked st where g: "canonical_keys ks = Inr keys"
    "canonical_keys (mutation_keys keys) = Inr locked" "guard_check locked keys None st = None"
    and st: "stored lib d = Some st" by (rule guard_admitD)
  from guard_check_ordinary [OF storedD(1) [OF st] g] st show ?thesis by simp
qed (simp add: with_mutation_def with_guard_admit)

end
