(* ===== verification/LeaseSystem.thy ===== *)
theory LeaseSystem
  imports LeaseGuard
begin

text \<open>
  Cooperating processes. A guard holds the locks of its keys and of their repositories from its
  check to the end of its operation; every other operation holds the locks of its own keys while
  it changes the file. A step relation over the file and the guards in progress shows that a
  fence drains the guards it concerns: no guard is ever in progress against a claim that excludes
  it.
\<close>

section \<open>The system\<close>

record running =
  g_keys :: "lkey list"
  g_locked :: "lkey list"
  g_token :: "token option"

definition locked_keys :: "lkey list \<Rightarrow> lkey set" where
  "locked_keys ks = (case canonical_keys ks of Inl _ \<Rightarrow> {}
    | Inr keys \<Rightarrow> (case canonical_keys (mutation_keys keys) of Inl _ \<Rightarrow> {} | Inr locked \<Rightarrow> set locked))"

inductive sys_step :: "uuid_lib \<Rightarrow> disk \<times> running list \<Rightarrow> disk \<times> running list \<Rightarrow> bool" for lib where
  begin_guard: "guard_admit lib os ks tok d = None \<Longrightarrow> canonical_keys ks = Inr keys \<Longrightarrow>
    canonical_keys (mutation_keys keys) = Inr locked \<Longrightarrow>
    \<forall>g \<in> set gs. set (g_locked g) \<inter> set locked = {} \<Longrightarrow>
    sys_step lib (d, gs) (d, \<lparr>g_keys = keys, g_locked = locked, g_token = tok\<rparr> # gs)"
| end_guard: "g \<in> set gs \<Longrightarrow> sys_step lib (d, gs) (d, remove1 g gs)"
| operate: "run_op lib os clock oper d = (res, d') \<Longrightarrow>
    \<forall>g \<in> set gs. set (g_locked g) \<inter> locked_keys (op_keys oper) = {} \<Longrightarrow>
    sys_step lib (d, gs) (d', gs)"

inductive sys_reachable :: "uuid_lib \<Rightarrow> disk \<times> running list \<Rightarrow> bool" for lib where
  sys_start: "sys_reachable lib (None, [])"
| sys_next: "sys_reachable lib s \<Longrightarrow> sys_step lib s s' \<Longrightarrow> sys_reachable lib s'"

inductive_cases sys_stepE: "sys_step lib s s'"

text \<open>What has to hold of the file while a guard is in progress.\<close>

definition guard_ok :: "snapshot \<Rightarrow> running \<Rightarrow> bool" where
  "guard_ok st g \<longleftrightarrow>
    (case g_token g of
       None \<Rightarrow> (\<forall>r \<in> set (sn_records st). claims_of r \<noteq> {} \<longrightarrow>
         (\<forall>k \<in> set (g_keys g). \<not> overlaps k (rec_key r)))
     | Some t \<Rightarrow> rec_key ` {r \<in> set (sn_records st). \<exists>c \<in> claims_of r. cl_token c = t} = set (g_keys g))"

definition running_ok :: "running \<Rightarrow> bool" where
  "running_ok g \<longleftrightarrow> canonical_keys (g_keys g) = Inr (g_keys g) \<and>
    canonical_keys (mutation_keys (g_keys g)) = Inr (g_locked g)"

section \<open>Overlapping keys share a lock\<close>

lemma canonical_keys_idem: "canonical_keys ks = Inr keys \<Longrightarrow> canonical_keys keys = Inr keys"
  by (rule canonical_keys_cong(2)) (simp_all add: canonical_keys_okD(3))

lemma locked_keys_eq: "canonical_keys ks = Inr keys \<Longrightarrow> locked_keys ks = set (mutation_keys keys)"
  using canonical_keys_mutation [of ks keys] canonical_keys_okD(3)
  by (fastforce simp: locked_keys_def)

lemma running_ok_locked: "running_ok g \<Longrightarrow> set (g_locked g) = set (mutation_keys (g_keys g))"
  by (simp add: running_ok_def canonical_keys_okD(3))

lemma overlap_shares_lock:
  assumes "key_validate k = None" and "key_validate k' = None" and "overlaps k k'"
    and "k \<in> set keys" and "k' \<in> set keys'"
  shows "set (mutation_keys keys) \<inter> set (mutation_keys keys') \<noteq> {}"
proof -
  have own: "k \<in> set (mutation_keys keys)" "k' \<in> set (mutation_keys keys')"
    using assms(4,5) by (simp_all add: mutation_keys_mem)
  have ancestor: "repository_key (k_repository x) \<in> set (mutation_keys xs)"
    if "x \<in> set xs" "key_validate x = None" for x xs
    using that key_validate_scope [OF that(2)] repository_scope_key [OF that(2)]
      mutation_keys_mem [OF that(1)] by metis
  from assms(3) have "k = k' \<or> repository_key (k_repository k) = repository_key (k_repository k')"
    by (auto simp: overlaps_def)
  with own ancestor [OF assms(4,1)] ancestor [OF assms(5,2)] show ?thesis by auto
qed

section \<open>What an operation changes\<close>

text \<open>
  Outside its keys an operation changes no record; on its keys it leaves no claim of an older
  token.
\<close>

lemma frame_records:
  assumes valid: "validate_snapshot lib st = None" and keys: "canonical_keys ks = Inr keys"
    and f: "\<And>r. rec_key (f r) = rec_key r" and out: "rec_key r \<notin> set keys"
  shows "r \<in> set (fold (\<lambda>k. ensure_record k f) keys (sn_records st)) \<longleftrightarrow> r \<in> set (sn_records st)"
proof -
  note ck = canonical_keys_okD [OF keys]
  have new: "rec_key (f (old_record (sn_records st) k)) \<in> set keys" if "k \<in> set keys" for k
    using old_record_rec_key [OF valid, of k] f that ck(2,3) by simp
  from fold_ensure_record [OF ck(6), of "sn_records st" f] valid f
  have "set (fold (\<lambda>k. ensure_record k f) keys (sn_records st)) =
    {r \<in> set (sn_records st). rkey r \<notin> key_canonical ` set keys} \<union>
      (\<lambda>k. f (old_record (sn_records st) k)) ` set keys" by (simp add: validate_snapshot_iff)
  with out new rkey_mem [OF valid _ keys, of r] ck(3) show ?thesis by auto
qed

lemma spec_op_frame:
  assumes valid: "validate_snapshot lib st = None" and run: "spec_op lib clock oper st = Inr (True, e, st')"
    and keys: "canonical_keys (op_keys oper) = Inr keys"
  shows "(\<forall>r. rec_key r \<notin> set keys \<longrightarrow> r \<in> set (sn_records st') \<longleftrightarrow> r \<in> set (sn_records st)) \<and>
    (\<forall>r \<in> set (sn_records st'). rec_key r \<in> set keys \<longrightarrow>
      (\<forall>c \<in> claims_of r. sn_last st < tk_epoch (cl_token c)))"
  using run
proof (cases rule: spec_op_InrE)
  case (activate ks keys' req f t)
  have k': "keys' = keys" using activate(1,5) keys by (auto split: if_splits)
  note ck = canonical_keys_okD [OF activate(1) [unfolded k']]
  from activate(3) show ?thesis
  proof (cases rule: activate_body_cases)
    case (existing added st1)
    from existing_unchanged [OF valid _ existing(4) [unfolded ensure_bindingD(1) [OF existing(2)]] existing(2)]
    show ?thesis using existing(5) ck(4) k' by simp
  next
    case (fresh added st1 promote any_claim e)
    have last: "sn_last st < e" using fresh(7) ensure_bindingD(2) [OF fresh(2)] by simp
    let ?c = "\<lparr>cl_token = t, cl_machine = rq_machine req, cl_created = lease_time clock\<rparr>"
    have recs: "sn_records st' = put_claims f e ?c keys (sn_records st)"
      using fresh(11) by (simp add: ensure_bindingD(1) [OF fresh(2)] k')
    have "sn_last st < tk_epoch (cl_token c)"
      if r: "r \<in> set (sn_records st')" "rec_key r \<in> set keys" "c \<in> claims_of r" for r c
    proof -
      have "rkey r \<in> key_canonical ` set keys" using r(2) by simp
      with put_claims_records [OF valid ck(6) r(1) [unfolded recs]] r(3) last show ?thesis
        by (auto simp: fresh(10))
    qed
    moreover have "r \<in> set (sn_records st') \<longleftrightarrow> r \<in> set (sn_records st)" if "rec_key r \<notin> set keys" for r
      unfolding recs put_claims_def
      by (rule frame_records [OF valid activate(1) [unfolded k'] _ that]) simp
    ultimately show ?thesis by blast
  qed
next
  case (finish ks keys' t kind terminal)
  have k': "keys' = keys" using finish(1,5) keys by simp
  note ck = canonical_keys_okD [OF finish(1) [unfolded k']]
  from finish(3) show ?thesis
  proof (cases rule: finish_body_cases)
    case fin: finish
    let ?f = "finish_record e t kind terminal (lease_time clock)"
    have recs: "sn_records st' = fold (\<lambda>k. ensure_record k ?f) keys (sn_records st)"
      using fin(7) by (simp add: k')
    have "claims_of r = {}" if r: "r \<in> set (sn_records st')" "rec_key r \<in> set keys" for r
    proof -
      have "rkey r \<in> key_canonical ` set keys" using r(2) by simp
      with written_records [OF valid ck(6) finish_record_simps(1) r(1) [unfolded recs]]
      obtain k where k: "k \<in> set keys'" "r = ?f (old_record (sn_records st) k)" by (auto simp: k')
      from k(1) show ?thesis
        by (rule finish_keys [OF valid fin(2,3)]) (simp add: k(2) claims_of_finish_record)
    qed
    moreover have "r \<in> set (sn_records st') \<longleftrightarrow> r \<in> set (sn_records st)" if "rec_key r \<notin> set keys" for r
      unfolding recs
      by (rule frame_records [OF valid finish(1) [unfolded k'] _ that]) simp
    ultimately show ?thesis by blast
  qed simp
qed

section \<open>Guards and claims never meet\<close>

lemma frame_overlap:
  assumes "key_validate k = None" and "running_ok g"
    and "set (g_locked g) \<inter> set (mutation_keys keys) = {}" and "k \<in> set keys" and "k' \<in> set (g_keys g)"
  shows "\<not> overlaps k' k"
proof
  assume "overlaps k' k"
  moreover have "key_validate k' = None"
    using assms(2,5) canonical_keys_okD(2) by (auto simp: running_ok_def)
  ultimately have "set (mutation_keys (g_keys g)) \<inter> set (mutation_keys keys) \<noteq> {}"
    using assms(1,4,5) by (intro overlap_shares_lock)
  with assms(2,3) show False by (simp add: running_ok_locked)
qed

lemma guard_ok_operate:
  assumes valid: "validate_snapshot lib st = None" and run: "spec_op lib clock oper st = Inr (True, e, st')"
    and valid': "validate_snapshot lib st' = None"
    and keys: "canonical_keys (op_keys oper) = Inr keys" and g: "running_ok g"
    and locks: "set (g_locked g) \<inter> locked_keys (op_keys oper) = {}" and ok: "guard_ok st g"
  shows "guard_ok st' g"
proof -
  note frame = spec_op_frame [OF valid run keys]
  have apart: "set (g_locked g) \<inter> set (mutation_keys keys) = {}"
    using locks by (simp add: locked_keys_eq [OF keys])
  have on: "\<not> overlaps k (rec_key r)" if "r \<in> set (sn_records st')" "rec_key r \<in> set keys" "k \<in> set (g_keys g)" for r k
    using frame_overlap [OF _ g apart that(2,3)] valid_records [OF valid' that(1)]
    by (simp add: record_validate_iff)
  have off: "k \<notin> set keys" if "k \<in> set (g_keys g)" for k
    using that apart running_ok_locked [OF g] mutation_keys_mem(1) by blast
  show ?thesis
  proof (cases "g_token g")
    case None
    have "\<not> overlaps k (rec_key r)" if "r \<in> set (sn_records st')" "claims_of r \<noteq> {}" "k \<in> set (g_keys g)" for r k
    proof (cases "rec_key r \<in> set keys")
      case True
      with on that show ?thesis by blast
    next
      case False
      with frame that(1) have "r \<in> set (sn_records st)" by blast
      with ok None that(2,3) show ?thesis by (simp add: guard_ok_def)
    qed
    with None show ?thesis by (simp add: guard_ok_def)
  next
    case (Some t)
    let ?held = "\<lambda>st. {r \<in> set (sn_records st). \<exists>c \<in> claims_of r. cl_token c = t}"
    from ok Some have held: "rec_key ` ?held st = set (g_keys g)" by (simp add: guard_ok_def)
    have "g_keys g \<noteq> []" using g canonical_keys_okD(4) by (auto simp: running_ok_def)
    with held have "?held st \<noteq> {}" by (metis image_empty set_empty)
    then obtain r c where r: "r \<in> set (sn_records st)" "c \<in> claims_of r" "cl_token c = t" by blast
    with valid_records [OF valid r(1)] have old: "tk_epoch t \<le> sn_last st"
      by (auto simp: record_validate_iff claim_validate_iff)
    have "?held st' = ?held st"
    proof (intro set_eqI)
      fix r show "r \<in> ?held st' \<longleftrightarrow> r \<in> ?held st"
      proof (cases "rec_key r \<in> set keys")
        case True
        have "r \<notin> ?held st'" using frame True old by (auto simp: not_le [symmetric])
        moreover have "r \<notin> ?held st" using held off True by blast
        ultimately show ?thesis by blast
      qed (use frame in blast)
    qed
    with held Some show ?thesis by (simp add: guard_ok_def)
  qed
qed

lemma guard_ok_canonical: "guard_ok (canonical_snapshot st) g \<longleftrightarrow> guard_ok st g"
proof -
  have "{r \<in> canonical_record ` R. \<exists>c \<in> claims_of r. cl_token c = t} =
      canonical_record ` {r \<in> R. \<exists>c \<in> claims_of r. cl_token c = t}" for R t
    by (auto intro!: imageI) blast
  then show ?thesis by (simp add: guard_ok_def image_image split: option.split)
qed

lemma sys_invariant:
  assumes "sys_reachable lib s"
  shows "lease_reachable lib (fst s) \<and>
    (\<exists>st. stored lib (fst s) = Some st \<and> (\<forall>g \<in> set (snd s). running_ok g \<and> guard_ok st g))"
  using assms
proof (induction rule: sys_reachable.induct)
  case sys_start
  then show ?case using stored_None start by auto
next
  case (sys_next s s')
  then obtain st where reach: "lease_reachable lib (fst s)" and st: "stored lib (fst s) = Some st"
    and gs: "\<forall>g \<in> set (snd s). running_ok g \<and> guard_ok st g" by blast
  note valid = storedD(1) [OF st]
  from sys_next.hyps(2) show ?case
  proof (cases rule: sys_step.cases)
    case (begin_guard os ks tok d keys locked gs0)
    from begin_guard(3) obtain locked' where check: "guard_check locked' keys tok st = None"
        "canonical_keys (mutation_keys keys) = Inr locked'"
      by (rule guard_admitD) (use begin_guard(1,4) st in auto)
    have ok: "guard_ok st \<lparr>g_keys = keys, g_locked = locked, g_token = tok\<rparr>"
    proof (cases tok)
      case None
      with guard_check_ordinary [OF valid canonical_keys_idem [OF begin_guard(4)] check(2)] check(1)
      show ?thesis by (simp add: guard_ok_def)
    next
      case (Some t)
      with guard_check_token [OF valid canonical_keys_idem [OF begin_guard(4)]] check(1)
      show ?thesis by (simp add: guard_ok_def)
    qed
    with begin_guard canonical_keys_idem reach st gs show ?thesis by (auto simp: running_ok_def)
  next
    case (end_guard g gs0 d)
    with reach st gs show ?thesis by (auto dest: notin_set_remove1)
  next
    case (operate os clock oper d res d' gs0)
    then have step: "lease_step lib (fst s) (fst s')" by (auto intro: step)
    note reach' = next_step [OF reach step]
    from operate(3) show ?thesis
    proof (cases rule: run_op_cases)
      case (replaced st0 e st')
      with st operate(1) have run: "spec_op lib clock oper st = Inr (True, e, st')" by simp
      obtain keys where keys: "canonical_keys (op_keys oper) = Inr keys"
        using run by (cases rule: spec_op_InrE) (auto split: if_splits)
      have "\<forall>g \<in> set (snd s'). running_ok g \<and> guard_ok st' g"
        using guard_ok_operate [OF valid run replaced(3) keys] gs operate(1,2,4) by auto
      with reach' replaced(3,4) operate(2) show ?thesis
        by (auto simp: guard_ok_canonical stored_file_of)
    qed (use reach' st gs operate(1,2) in auto)
  qed
qed

text \<open>
  C9: A fence drains what it excludes: in every reachable state of concurrent guards and lease
  operations, a guard in progress without a token overlaps no active claim, and a guard in
  progress with a token is still the exact owner of its keys. A claim is granted on a key only
  when no guard overlapping it is in progress, and stays until such guards can no longer start.
\<close>

theorem fence_drains_guards:
  assumes "sys_reachable lib (d, gs)" and "g \<in> set gs"
  shows "\<exists>st. stored lib d = Some st \<and>
    (case g_token g of
       None \<Rightarrow> \<forall>r \<in> set (sn_records st). \<forall>k \<in> set (g_keys g).
         claims_of r \<noteq> {} \<longrightarrow> \<not> overlaps k (rec_key r)
     | Some t \<Rightarrow> rec_key ` {r \<in> set (sn_records st). \<exists>c \<in> claims_of r. cl_token c = t} = set (g_keys g))"
  using sys_invariant [OF assms(1)] assms(2) by (fastforce simp: guard_ok_def split: option.splits)

end
