(* ===== verification/LeaseDemo.thy ===== *)
theory LeaseDemo
  imports LeaseSystem
begin

text \<open>
  A concrete run of the lease authority, evaluated in the kernel: an operation reserves a branch
  on an empty authority and aborts. It shows that the hypotheses of the lease properties hold
  somewhere.
\<close>

definition demo_lib :: uuid_lib where
  "demo_lib = \<lparr>uuid_parse = (\<lambda>_. None), uuid_string = (\<lambda>_. [])\<rparr>"

definition demo_clock :: gotime where
  "demo_clock = \<lparr>instant = 1, zone = 0, monotonic = None\<rparr>"

definition demo_key :: lkey where
  "demo_key = branch_key ''r:1'' ''main''"

definition demo_request :: request where
  "demo_request = \<lparr>rq_operation = ''op'', rq_digest = fingerprint_prefix @ replicate 64 CHR ''a'', rq_machine = []\<rparr>"

definition demo_token :: token where
  "demo_token = \<lparr>tk_operation = ''op'', tk_digest = fingerprint_prefix @ replicate 64 CHR ''a'', tk_epoch = 1\<rparr>"

definition demo_claimed :: snapshot where
  "demo_claimed = \<lparr>sn_schema = schema_version, sn_last = 1,
    sn_bindings = [\<lparr>bd_operation = ''op'', bd_digest = rq_digest demo_request\<rparr>],
    sn_records = [\<lparr>rec_key = demo_key, rec_epoch = 1,
      rec_reservation = Some \<lparr>cl_token = demo_token, cl_machine = [], cl_created = demo_clock\<rparr>,
      rec_fence = None, rec_tombstones = []\<rparr>]\<rparr>"

definition demo_aborted :: snapshot where
  "demo_aborted = \<lparr>sn_schema = schema_version, sn_last = 2,
    sn_bindings = [\<lparr>bd_operation = ''op'', bd_digest = rq_digest demo_request\<rparr>],
    sn_records = [\<lparr>rec_key = demo_key, rec_epoch = 2, rec_reservation = None, rec_fence = None,
      rec_tombstones = [\<lparr>tb_kind = tombstone_aborted, tb_token = demo_token, tb_advanced = 2,
        tb_created = demo_clock\<rparr>]\<rparr>]\<rparr>"

lemma demo_request_valid: "request_validate demo_lib demo_request = None"
  by (simp add: request_validate_def demo_request_def operation_id_ok_def char_class_defs
      valid_fingerprint_def is_hex_lower_def checks.simps list_all_iff)

lemma demo_token_valid: "token_validate demo_lib demo_token = None"
  by (simp add: request_validate_def demo_token_def operation_id_ok_def char_class_defs token_validate_def
      valid_fingerprint_def is_hex_lower_def checks.simps list_all_iff)

lemma demo_keys: "canonical_keys [demo_key] = Inr [demo_key]"
  using demo_key_valid(1) by (simp add: canonical_keys_def demo_key_def)

lemma demo_clock_simps: "lease_time demo_clock = demo_clock" "\<not> time_is_zero demo_clock"
  by (simp_all add: lease_time_def demo_clock_def time_defs)

lemma demo_reserve_body: "activate_body demo_clock [demo_key] demo_request False empty_snapshot =
    Inr (True, demo_token, demo_claimed)"
  by (simp add: activate_body_def check_operation_reuse_def binding_reuse_def ensure_binding_def
      check_hierarchy_claims_def empty_snapshot_def Let_def find_record_def allocate_epoch_def put_claims_def
      ensure_record_def empty_record_def set_claim_def demo_claimed_def demo_token_def demo_request_def
      demo_clock_simps checks.simps)

lemma demo_abort_body: "finish_body demo_clock [demo_key] demo_token KReservation tombstone_aborted demo_claimed =
    Inr (True, 2, demo_aborted)"
  by (simp add: finish_body_def matching_terminal_def validate_claim_key_set_def claim_of_def holds_claim_def
      find_record_def allocate_epoch_def ensure_record_def demo_claimed_def demo_aborted_def
      finish_record_def Let_def clear_claim_def demo_clock_simps checks.simps)

lemma demo_canonical: "canonical_snapshot demo_claimed = demo_claimed"
    "canonical_snapshot demo_aborted = demo_aborted"
  by (simp_all add: canonical_snapshot_def canonical_record_def demo_claimed_def demo_aborted_def demo_clock_simps)

lemma demo_reserve: "activate demo_lib (\<lambda>_. True) demo_clock [demo_key] demo_request False None =
    (Inr demo_token, file_of demo_claimed)"
  using activate_ok [OF stored_None demo_clock_simps(2), of demo_lib "[demo_key]" demo_request False]
  by (simp add: activate_spec_def demo_request_valid demo_keys demo_reserve_body demo_canonical)

lemma demo_claimed_stored: "stored demo_lib (file_of demo_claimed) = Some demo_claimed"
  using activate_valid [OF empty_snapshot_valid demo_keys demo_request_valid _ demo_reserve_body]
    stored_file_of [of demo_lib demo_claimed]
  by (simp add: demo_canonical demo_clock_simps)

lemma demo_abort: "finish_claim demo_lib (\<lambda>_. True) demo_clock [demo_key] demo_token KReservation
    tombstone_aborted (file_of demo_claimed) = (Inr 2, file_of demo_aborted)"
  using finish_ok [OF demo_claimed_stored demo_clock_simps(2), of tombstone_aborted "[demo_key]" demo_token KReservation]
  by (simp add: finish_spec_def demo_token_valid demo_keys demo_abort_body demo_canonical)

lemma demo_aborted_stored: "stored demo_lib (file_of demo_aborted) = Some demo_aborted"
  using finish_valid [OF storedD(1) [OF demo_claimed_stored] demo_keys demo_token_valid _ _ demo_abort_body]
    stored_file_of [of demo_lib demo_aborted]
  by (simp add: demo_canonical demo_clock_simps)

section \<open>The lease properties at this run\<close>

theorem lease_file_refines_witness:
  "run_op demo_lib (\<lambda>_. True) demo_clock (Reserve [demo_key] demo_request) None = (Inr 1, file_of demo_claimed)"
  using lease_file_refines [OF stored_None demo_clock_simps(2), of demo_lib "Reserve [demo_key] demo_request"]
  by (simp add: activate_spec_def demo_request_valid demo_keys demo_reserve_body demo_canonical demo_token_def)

lemma demo_reserve_op: "run_op demo_lib (\<lambda>_. True) demo_clock (Reserve [demo_key] demo_request) None =
    (Inr 1, file_of demo_claimed)"
  by (simp add: reserve_def demo_reserve) (simp add: demo_token_def)

lemma demo_reachable: "lease_reachable demo_lib (file_of demo_claimed)"
  by (rule next_step [OF start step [OF demo_reserve_op]])

theorem lease_atomic_witness:
  "\<exists>st. stored demo_lib (file_of demo_claimed) = Some (canonical_snapshot st)"
  using lease_atomic [OF demo_reserve_op] by auto

theorem lease_exclusion_witness:
  "\<exists>st. stored demo_lib (file_of demo_claimed) = Some st \<and> exclusive (sn_records st)"
  using lease_exclusion [OF demo_reachable] by blast

theorem lease_grant_witness: "granted demo_claimed [demo_key] demo_request KReservation demo_token"
  using lease_grant [OF demo_reserve stored_None] by (simp add: demo_claimed_stored)

theorem lease_retry_witness:
  "activate demo_lib (\<lambda>_. True) zero_time [demo_key, demo_key] demo_request False (file_of demo_claimed) =
    (Inr demo_token, file_of demo_claimed)"
  by (rule lease_retry [OF start demo_reserve]) simp

theorem lease_terminal_forever_witness:
  "\<exists>e. activate demo_lib (\<lambda>_. True) demo_clock [demo_key] demo_request True (file_of demo_aborted) =
    (Inl e, file_of demo_aborted)"
proof -
  let ?r = "hd (sn_records demo_aborted)"
  show ?thesis
    by (rule lease_terminal_forever [OF demo_aborted_stored, of ?r "hd (rec_tombstones ?r)"])
      (simp_all add: demo_aborted_def demo_token_def demo_request_def)
qed

lemma lease_finish_effect_witness:
  "\<exists>st. stored demo_lib (file_of demo_aborted) = Some st \<and>
    (\<exists>r \<in> set (sn_records st). \<exists>tb \<in> set (rec_tombstones r). tb_token tb = demo_token)"
  using lease_finish_effect [OF demo_abort demo_claimed_stored] by auto

lemma guard_exact_owner_witness:
  "\<exists>e. \<forall>operation w. with_guard demo_lib (\<lambda>_. True) [demo_key] (Some demo_token) operation
    (file_of demo_aborted) (w :: nat) = (Some e, w)"
proof -
  have "{r \<in> set (sn_records demo_aborted). \<exists>c \<in> claims_of r. cl_token c = demo_token} = {}"
    by (auto simp: demo_aborted_def claims_of_def)
  with guard_exact_owner [where 'a = nat, of demo_lib "\<lambda>_. True" "[demo_key]" demo_token "file_of demo_aborted"]
  show ?thesis by (auto simp: demo_aborted_stored)
qed

lemma mutation_blocked_by_claims_witness:
  "\<exists>e. \<forall>operation w. with_mutation demo_lib (\<lambda>_. True) [demo_key] operation
    (file_of demo_claimed) (w :: nat) = (Some e, w)"
proof -
  have "\<exists>r \<in> set (sn_records demo_claimed). claims_of r \<noteq> {} \<and> overlaps demo_key (rec_key r)"
    by (simp add: demo_claimed_def claims_of_def overlaps_def)
  with mutation_blocked_by_claims [where 'a = nat, of demo_lib "\<lambda>_. True" "[demo_key]" "file_of demo_claimed"]
  show ?thesis by (auto simp: demo_claimed_stored)
qed

lemma demo_admitted: "guard_admit demo_lib (\<lambda>_. True) [demo_key] (Some demo_token) (file_of demo_claimed) = None"
proof -
  from canonical_keys_mutation [OF demo_keys] obtain locked where
    "canonical_keys (mutation_keys [demo_key]) = Inr locked" ..
  note lock = with_key_locks_ok [OF this]
  have "guard_check locked [demo_key] (Some demo_token) demo_claimed = None"
    by (simp add: guard_check_def Let_def demo_claimed_def find_record_def has_terminal_def active_claim_def
        validate_guard_key_set_def checks.simps)
  then show ?thesis
    by (simp add: guard_admit_def demo_keys demo_token_valid lock read_state_def
        storedD(3) [OF demo_claimed_stored])
qed

theorem fence_drains_guards_witness:
  "\<exists>locked. sys_reachable demo_lib (file_of demo_claimed,
      [\<lparr>g_keys = [demo_key], g_locked = locked, g_token = Some demo_token\<rparr>]) \<and>
    rec_key ` {r \<in> set (sn_records demo_claimed). \<exists>c \<in> claims_of r. cl_token c = demo_token} = {demo_key}"
proof -
  from canonical_keys_mutation [OF demo_keys] obtain locked where
    l: "canonical_keys (mutation_keys [demo_key]) = Inr locked" ..
  let ?g = "\<lparr>g_keys = [demo_key], g_locked = locked, g_token = Some demo_token\<rparr>"
  have "sys_reachable demo_lib (file_of demo_claimed, [])"
    by (rule sys_next [OF sys_start operate [OF demo_reserve_op]]) simp
  then have r: "sys_reachable demo_lib (file_of demo_claimed, [?g])"
    by (rule sys_next) (rule begin_guard [OF demo_admitted demo_keys l], simp)
  with fence_drains_guards [OF r, of ?g] show ?thesis by (auto simp: demo_claimed_stored)
qed

end
