(* ===== verification/GoText.thy ===== *)
theory GoText
  imports GoStd
begin

text \<open>
  More of Go's text functions, used by the task store and the transition planner: cutting
  suffixes and cutsets, replacement, hexadecimal bytes, and the 8-byte big-endian length prefix
  that fingerprints put before each field, with the proof that such frames determine the fields.
\<close>

section \<open>Cutting and replacing\<close>

definition trim_suffix :: "string \<Rightarrow> string \<Rightarrow> string" where
  \<comment> \<open>\<open>strings.TrimSuffix(s, p)\<close>\<close>
  "trim_suffix s p = (if has_suffix s p then take (length s - length p) s else s)"

definition trim_cutset :: "string \<Rightarrow> string \<Rightarrow> string" where
  \<comment> \<open>\<open>strings.Trim(s, cutset)\<close> for an ASCII cutset\<close>
  "trim_cutset s cs = rev (dropWhile (\<lambda>c. c \<in> set cs) (rev (dropWhile (\<lambda>c. c \<in> set cs) s)))"

text \<open>\<open>strings.ReplaceAll(s, old, new)\<close> for a non-empty \<open>old\<close>: left to right, no overlaps.\<close>

function replace_all :: "string \<Rightarrow> string \<Rightarrow> string \<Rightarrow> string" where
  "replace_all old new s =
    (case s of [] \<Rightarrow> []
     | c # s' \<Rightarrow> if old \<noteq> [] \<and> has_prefix s old then new @ replace_all old new (drop (length old) s)
       else c # replace_all old new s')"
  by pat_completeness auto
termination
  by (relation "measure (\<lambda>(old, new, s). length s)") auto

declare replace_all.simps [simp del]

text \<open>A regular expression \<open>[class]+\<close> replaced by a text: each run of bytes in the class.\<close>

function replace_runs :: "(char \<Rightarrow> bool) \<Rightarrow> string \<Rightarrow> string \<Rightarrow> string" where
  "replace_runs P new [] = []"
| "replace_runs P new (c # s) =
    (if P c then new @ replace_runs P new (dropWhile P s) else c # replace_runs P new s)"
  by pat_completeness auto
termination
  by (relation "measure (\<lambda>(P, new, s). length s)") (auto simp: le_imp_less_Suc length_dropWhile_le)

lemma set_replace_runs: "set (replace_runs P new s) \<subseteq> set new \<union> {c \<in> set s. \<not> P c}"
  by (induction P new s rule: replace_runs.induct) (auto dest: set_dropWhileD)

lemma replace_all_simps [simp]:
  "replace_all old new [] = []"
  "old \<noteq> [] \<Longrightarrow> replace_all old new (old @ t) = new @ replace_all old new t"
  "old = [] \<or> \<not> has_prefix (c # s) old \<Longrightarrow> replace_all old new (c # s) = c # replace_all old new s"
proof -
  show "replace_all old new [] = []" by (subst replace_all.simps) simp
  show "old = [] \<or> \<not> has_prefix (c # s) old \<Longrightarrow> replace_all old new (c # s) = c # replace_all old new s"
    by (subst replace_all.simps) auto
  assume "old \<noteq> []"
  then obtain d old' where "old = d # old'" by (cases old) auto
  moreover from this have "has_prefix (d # old' @ t) (d # old')" using has_prefix_append [of "d # old'" t] by simp
  ultimately show "replace_all old new (old @ t) = new @ replace_all old new t"
    by (subst replace_all.simps) simp
qed

lemma replace_all_induct [consumes 0, case_names Nil Match Copy]:
  assumes "P []" and "\<And>t. old \<noteq> [] \<Longrightarrow> P t \<Longrightarrow> P (old @ t)"
    and "\<And>c s. old = [] \<or> \<not> has_prefix (c # s) old \<Longrightarrow> P s \<Longrightarrow> P (c # s)"
  shows "P s"
proof (induction s rule: length_induct)
  case (1 s)
  show ?case
  proof (cases s)
    case (Cons c s')
    show ?thesis
    proof (cases "old \<noteq> [] \<and> has_prefix s old")
      case True
      then obtain t where "s = old @ t" "old \<noteq> []" by (auto simp: has_prefix_iff)
      with 1 assms(2) show ?thesis by simp
    qed (use 1 assms(3) Cons in auto)
  qed (simp add: assms(1))
qed

lemma length_replace_all: "length new \<le> length old \<Longrightarrow> length (replace_all old new s) \<le> length s"
  by (induction s rule: replace_all_induct [where old = old]) simp_all

lemma length_replace_all_contains:
  assumes "old \<noteq> []" and "length new < length old" and "contains_str s old"
  shows "length (replace_all old new s) < length s"
  using assms(3)
proof (induction s rule: replace_all_induct [where old = old])
  case (Match t)
  have "length (replace_all old new t) \<le> length t" using assms(2) by (intro length_replace_all) simp
  with Match assms(2) show ?case by simp
qed (use assms(1) in auto)

lemma set_replace_all: "set (replace_all old new s) \<subseteq> set new \<union> set s"
  by (induction s rule: replace_all_induct [where old = old]) auto

lemma trim_cutset_set: "set (trim_cutset s cs) \<subseteq> set s"
  unfolding trim_cutset_def by (auto dest!: set_dropWhileD)

lemma trim_cutset_head:
  assumes "trim_cutset s cs = c # t"
  shows "c \<notin> set cs"
proof -
  let ?P = "\<lambda>c. c \<in> set cs"
  let ?u = "dropWhile ?P s"
  from assms have ne: "dropWhile ?P (rev ?u) \<noteq> []" by (auto simp: trim_cutset_def)
  then have "?u \<noteq> []" by (metis dropWhile.simps(1) rev.simps(1))
  then have hd: "hd ?u \<notin> set cs" by (rule hd_dropWhile)
  have "rev ?u = takeWhile ?P (rev ?u) @ dropWhile ?P (rev ?u)" by simp
  then have "?u = rev (dropWhile ?P (rev ?u)) @ rev (takeWhile ?P (rev ?u))" by (metis rev_append rev_rev_ident)
  then have "hd ?u = hd (rev (dropWhile ?P (rev ?u)))" using ne by (metis hd_append2 rev_is_Nil_conv)
  with assms hd show ?thesis by (simp add: trim_cutset_def)
qed

section \<open>Frames\<close>

definition hex_bytes :: "string \<Rightarrow> string" where
  \<comment> \<open>\<open>hex.EncodeToString\<close>\<close>
  "hex_bytes s = concat (map (\<lambda>c. [hex_digit (byte c div 16), hex_digit (byte c mod 16)]) s)"

definition frame :: "string \<Rightarrow> string" where
  "frame s = be64 (length s) @ s"

definition be_val :: "string \<Rightarrow> nat" where
  "be_val s = foldl (\<lambda>a c. 256 * a + byte c) 0 s"

lemma length_be64 [simp]: "length (be64 n) = 8"
  by (simp add: be64_def)

lemma be_val_be64:
  assumes "n < 2 ^ 64"
  shows "be_val (be64 n) = n"
proof -
  have "foldl (\<lambda>a c. 256 * a + byte c) 0 (map (\<lambda>i. char_of (n div 256 ^ (7 - i)) :: char) [0..<k]) =
      n div 256 ^ (8 - k) mod 256 ^ k" if "k \<le> 8" for k
    using that
  proof (induction k)
    case (Suc k)
    have step: "256 * (x div 256 mod 256 ^ k) + x mod 256 = x mod (256 ^ Suc k :: nat)" for x
      by (simp add: mod_mult2_eq)
    have "8 - k = Suc (7 - k)" using Suc.prems by simp
    then have "n div 256 ^ (8 - k) = n div 256 ^ (7 - k) div 256"
      by (simp add: div_mult2_eq [symmetric] mult.commute)
    with Suc step [of "n div 256 ^ (7 - k)"] show ?case by (simp add: Suc_diff_le)
  qed simp
  from this [of 8] assms show ?thesis by (simp add: be_val_def be64_def)
qed

interpretation length_frame: framing frame "\<lambda>s. length s < 2 ^ 64"
proof
  fix a b x y :: string
  assume len: "length a < 2 ^ 64" "length b < 2 ^ 64" and eq: "frame a @ x = frame b @ y"
  then have "be64 (length a) = be64 (length b)" and rest: "a @ x = b @ y"
    by (simp_all add: frame_def append_eq_append_conv)
  with len have "length a = length b" by (metis be_val_be64)
  with rest show "a = b \<and> x = y" by simp
qed (simp add: frame_def be64_def)

end
