(* ===== verification/TaskTypes.thy ===== *)
theory TaskTypes
  imports GoText
begin

text \<open>
  \<open>internal/task/task.go\<close>: the task, its states and modes, its revision and its validation,
  with the identifiers of \<open>internal/task/store.go\<close>. SHA-256, the TOML codec and Go's case
  table beyond ASCII are parameters.
\<close>

section \<open>Data\<close>

abbreviation "state_hot \<equiv> ''hot''"
abbreviation "state_warm \<equiv> ''warm''"
abbreviation "state_cold \<equiv> ''cold''"
abbreviation "state_done \<equiv> ''done''"

abbreviation "mode_worktree \<equiv> ''worktree''"
abbreviation "mode_branch \<equiv> ''branch''"
abbreviation "mode_direct \<equiv> ''direct''"

record task =
  t_id :: string
  t_name :: string
  t_repo :: string
  t_repo_path :: string
  t_branch :: string
  t_base :: string
  t_worktree :: string
  t_mode :: string
  t_state :: string
  t_owner :: string
  t_next :: string
  t_note :: string
  t_tags :: "string list"
  t_agent_session :: string
  t_runtime_handle :: string
  t_runtime_name :: string
  t_created :: gotime
  t_updated :: gotime
  t_stored_revision :: string

datatype task_error =
    TNotFound
  | TConflict
  | TInvalidID
  | TAlreadyExists
  | TStale string string string
  | TAmbiguous "string list"
  | TPlain

text \<open>
  SHA-256 as bytes, the TOML encoder and decoder of a task, and the lower case of the runes
  beyond ASCII.
\<close>

record task_lib =
  tl_sha256 :: "string \<Rightarrow> string"
  tl_encode :: "task \<Rightarrow> string option"
  tl_decode :: "string \<Rightarrow> task option"
  tl_lower :: "nat \<Rightarrow> nat"

section \<open>States, modes and titles\<close>

definition all_states :: "string list" where
  "all_states = [state_hot, state_warm, state_cold, state_done]"

definition join_states :: "string \<Rightarrow> string" where
  "join_states sep = join_str sep all_states"

definition parse_state :: "(nat \<Rightarrow> nat) \<Rightarrow> string \<Rightarrow> string option" where
  "parse_state lower s =
    (let got = to_lower lower (trim_space s) in if got \<in> set all_states then Some got else None)"

definition effective_mode :: "task \<Rightarrow> string" where
  "effective_mode t =
    (if t_mode t \<noteq> [] then t_mode t else if t_worktree t \<noteq> [] then mode_worktree else mode_branch)"

definition task_title :: "task \<Rightarrow> string" where
  "task_title t = (if t_name t \<noteq> [] then t_name t else t_branch t)"

definition owned_by :: "task \<Rightarrow> string \<Rightarrow> bool" where
  "owned_by t host \<longleftrightarrow> t_owner t = [] \<or> t_owner t = host"

section \<open>Identifiers\<close>

definition id_char :: "char \<Rightarrow> bool" where
  \<comment> \<open>\<open>[A-Za-z0-9._-]\<close>\<close>
  "id_char c \<longleftrightarrow> is_alnum c \<or> c \<in> set ''._-''"

definition valid_id_pattern :: "string \<Rightarrow> bool" where
  \<comment> \<open>\<open>^[A-Za-z0-9][A-Za-z0-9._-]*$\<close>\<close>
  "valid_id_pattern s = (case s of [] \<Rightarrow> False | c # s' \<Rightarrow> is_alnum c \<and> list_all id_char s')"

definition validate_id :: "string \<Rightarrow> task_error option" where
  "validate_id s = fail_if (\<not> valid_id_pattern s \<or> filepath_base s \<noteq> s \<or> s = ''.'' \<or> s = ''..'') TInvalidID"

text \<open>The loop \<open>for strings.Contains(s, "--") { s = strings.ReplaceAll(s, "--", "-") }\<close>.\<close>

function collapse_dashes :: "string \<Rightarrow> string" where
  "collapse_dashes s =
    (if contains_str s ''--'' then collapse_dashes (replace_all ''--'' ''-'' s) else s)"
  by pat_completeness auto
termination
  by (relation "measure length") (auto intro: length_replace_all_contains)

declare collapse_dashes.simps [simp del]

definition clean_id :: "string \<Rightarrow> string" where
  "clean_id s = trim_cutset (collapse_dashes (replace_runs (\<lambda>c. \<not> id_char c) ''-'' s)) ''-._''"

definition make_id :: "string \<Rightarrow> string \<Rightarrow> string" where
  "make_id repo branch =
    (let r = clean_id repo; b = clean_id branch
     in (if r = [] then ''repo'' else r) @ ''__'' @ (if b = [] then ''branch'' else b))"

section \<open>Validation\<close>

definition task_validate :: "(nat \<Rightarrow> nat) \<Rightarrow> task \<Rightarrow> task_error option" where
  "task_validate lower t = checks
    [(if t_id t \<noteq> [] then validate_id (t_id t) else None),
     fail_if (t_repo t = []) TPlain,
     fail_if (t_branch t = []) TPlain,
     fail_if (t_repo_path t = []) TPlain,
     fail_if (parse_state lower (t_state t) = None) TPlain,
     fail_if (t_mode t \<notin> {[], mode_worktree, mode_branch, mode_direct}) TPlain]"

section \<open>Revisions\<close>

definition revision_time :: "gotime \<Rightarrow> string" where
  "revision_time t = rfc3339_nano (time_utc t)"

definition revision_fields :: "task \<Rightarrow> string list" where
  "revision_fields t =
    [''dev-task-revision-v1'', t_id t, t_name t, t_repo t, t_repo_path t, t_branch t, t_base t,
     t_worktree t, t_mode t, t_state t, t_owner t, t_next t, t_note t, dec_of (length (t_tags t))] @
    t_tags t @
    [t_agent_session t, t_runtime_handle t, t_runtime_name t,
     revision_time (t_created t), revision_time (t_updated t)]"

definition revision :: "task_lib \<Rightarrow> task \<Rightarrow> string" where
  "revision lib t = hex_bytes (tl_sha256 lib (concat (map frame (revision_fields t))))"

section \<open>Made identifiers are valid\<close>

lemma set_collapse_dashes: "set (collapse_dashes s) \<subseteq> insert CHR ''-'' (set s)"
proof (induction s rule: collapse_dashes.induct)
  case (1 s)
  show ?case
  proof (cases "contains_str s ''--''")
    case True
    with 1 set_replace_all [of "''--''" "''-''" s] show ?thesis
      by (subst collapse_dashes.simps) auto
  next
    case False
    then show ?thesis by (subst collapse_dashes.simps) auto
  qed
qed

lemma clean_id_chars: "c \<in> set (clean_id s) \<Longrightarrow> id_char c"
proof -
  assume "c \<in> set (clean_id s)"
  then have "c \<in> set (collapse_dashes (replace_runs (\<lambda>c. \<not> id_char c) ''-'' s))"
    using trim_cutset_set unfolding clean_id_def by blast
  then have "c = CHR ''-'' \<or> c \<in> set (replace_runs (\<lambda>c. \<not> id_char c) ''-'' s)"
    using set_collapse_dashes by fast
  then show "id_char c"
    using set_replace_runs [of "\<lambda>c. \<not> id_char c" "''-''" s] by (auto simp: id_char_def)
qed

lemma clean_id_head: "clean_id s = c # r \<Longrightarrow> is_alnum c"
  using trim_cutset_head clean_id_chars [of c s] by (fastforce simp: clean_id_def id_char_def)

lemma id_char_not_slash: "id_char c \<Longrightarrow> c \<noteq> CHR ''/''"
  by (auto simp: id_char_def char_class_defs)

lemma valid_id_iff: "validate_id s = None \<longleftrightarrow> valid_id_pattern s"
proof -
  have "filepath_base s = s \<and> s \<noteq> ''.'' \<and> s \<noteq> ''..''" if "valid_id_pattern s"
  proof -
    from that obtain c s' where s: "s = c # s'" "is_alnum c" "list_all id_char s'"
      by (auto simp: valid_id_pattern_def split: list.splits)
    then have "CHR ''/'' \<notin> set s"
      using id_char_not_slash [of c] by (auto simp: list_all_iff id_char_def char_class_defs)
    moreover have "c \<noteq> CHR ''.''" using s(2) by (auto simp: char_class_defs)
    ultimately show ?thesis using s(1) by (simp add: filepath_base_id)
  qed
  then show ?thesis by (auto simp: validate_id_def)
qed

text \<open>
  The identifier derived from any repository and branch names is a valid one: it can name
  exactly one visible file of the store, whatever bytes the names hold.
\<close>

lemma make_id_valid: "validate_id (make_id repo branch) = None"
proof -
  let ?part = "\<lambda>s d. if clean_id s = [] then d else clean_id s"
  have "\<exists>c s'. ?part repo ''repo'' = c # s' \<and> is_alnum c \<and> list_all id_char s'"
  proof (cases "clean_id repo")
    case Nil
    then show ?thesis by (simp add: id_char_def char_class_defs)
  next
    case (Cons c s')
    with clean_id_head [OF Cons] clean_id_chars [of _ repo] show ?thesis by (auto simp: list_all_iff)
  qed
  moreover have "list_all id_char (?part branch ''branch'')"
    using clean_id_chars [of _ branch] by (auto simp: list_all_iff id_char_def char_class_defs)
  ultimately show ?thesis
    unfolding valid_id_iff make_id_def Let_def
    by (auto simp: valid_id_pattern_def id_char_def)
qed

section \<open>The revision determines the record\<close>

lemma hex_digit_inj: "m < 16 \<Longrightarrow> n < 16 \<Longrightarrow> hex_digit m = hex_digit n \<Longrightarrow> m = n"
  by (auto simp: hex_digit_def dest!: arg_cong [where f = "of_char :: char \<Rightarrow> nat"] split: if_splits)

lemma hex_bytes_inj: "hex_bytes a = hex_bytes b \<Longrightarrow> a = b"
proof (induction a arbitrary: b)
  case Nil
  then show ?case by (cases b) (simp_all add: hex_bytes_def)
next
  case (Cons c a)
  then obtain d b' where b: "b = d # b'" by (cases b) (simp_all add: hex_bytes_def)
  have lt: "byte c div 16 < 16" "byte d div 16 < 16" by (simp_all add: less_mult_imp_div_less)
  from Cons.prems b have "hex_digit (byte c div 16) = hex_digit (byte d div 16)"
    "hex_digit (byte c mod 16) = hex_digit (byte d mod 16)" and rest: "hex_bytes a = hex_bytes b'"
    by (simp_all add: hex_bytes_def)
  with lt have "byte c div 16 = byte d div 16" "byte c mod 16 = byte d mod 16"
    by (auto intro: hex_digit_inj)
  then have "byte c = byte d" by (metis div_mult_mod_eq)
  with Cons.IH [OF rest] b show ?case by simp
qed

definition revision_payload :: "task \<Rightarrow> string" where
  "revision_payload t = concat (map frame (revision_fields t))"

text \<open>What a revision covers: every field of the record, times as they are written.\<close>

definition same_record :: "task \<Rightarrow> task \<Rightarrow> bool" where
  "same_record t u \<longleftrightarrow>
    t\<lparr>t_created := zero_time, t_updated := zero_time, t_stored_revision := []\<rparr> =
    u\<lparr>t_created := zero_time, t_updated := zero_time, t_stored_revision := []\<rparr> \<and>
    revision_time (t_created t) = revision_time (t_created u) \<and>
    revision_time (t_updated t) = revision_time (t_updated u)"

lemma revision_fields_inj:
  assumes "revision_fields t = revision_fields u"
  shows "same_record t u"
proof -
  have "length (t_tags t) = length (t_tags u)"
    using arg_cong [OF assms, of length] by (simp add: revision_fields_def)
  with assms show ?thesis
    by (cases t; cases u) (auto simp: revision_fields_def same_record_def append_eq_append_conv)
qed

lemma same_record_revision: "same_record t u \<Longrightarrow> revision lib t = revision lib u"
  by (cases t; cases u) (auto simp: same_record_def revision_def revision_fields_def)

text \<open>
  The revision of a task identifies its record: unless SHA-256 collides on the two payloads,
  two tasks with one revision agree in every stored field, however the fields, with any bytes,
  are divided; and equal records have equal revisions.
\<close>

lemma revision_binds_record:
  assumes "tl_sha256 lib (revision_payload t) = tl_sha256 lib (revision_payload u) \<longrightarrow>
      revision_payload t = revision_payload u"
    and "\<forall>s \<in> set (revision_fields t). length s < 2 ^ 64"
    and "\<forall>s \<in> set (revision_fields u). length s < 2 ^ 64"
  shows "revision lib t = revision lib u \<longleftrightarrow> same_record t u"
proof
  assume "revision lib t = revision lib u"
  then have "tl_sha256 lib (revision_payload t) = tl_sha256 lib (revision_payload u)"
    using hex_bytes_inj by (simp add: revision_def revision_payload_def)
  with assms(1) have "concat (map frame (revision_fields t)) = concat (map frame (revision_fields u))"
    by (simp add: revision_payload_def)
  from length_frame.frames_inj [OF this assms(2,3)] show "same_record t u"
    by (rule revision_fields_inj)
qed (rule same_record_revision)

end
