(* ===== verification/TaskStore.thy ===== *)
theory TaskStore
  imports TaskTypes
begin

text \<open>
  \<open>internal/task/store.go\<close>: a directory with one TOML file per task, and the operations on it:
  optimistic concurrency with two kinds of revision, exact import, listing with diagnostics and
  the lookups by reference and by checkout. \<open>os\<close> says which operating-system calls succeed.
\<close>

section \<open>The directory\<close>

text \<open>
  The visible entries in the order of \<open>os.ReadDir\<close>, by name; a missing directory is the empty
  one. The temporary file of a write has a name with a leading dot, which no listing reads, and
  is gone when the operation returns.
\<close>

datatype dir_entry = EDir | EFile string

type_synonym task_dir = "(string \<times> dir_entry) list"

datatype task_call =
    TLock | TRead string | TReread | TLstat | TReadDir
  | TMkdir | TTemp | TChmod | TSync | TClose | TReplace | TSyncDir | TRemove

type_synonym task_os = "task_call \<Rightarrow> bool"

fun dir_put :: "string \<Rightarrow> dir_entry \<Rightarrow> task_dir \<Rightarrow> task_dir" where
  "dir_put n e [] = [(n, e)]"
| "dir_put n e ((m, x) # d) =
    (if n = m then (n, e) # d else if n < m then (n, e) # (m, x) # d else (m, x) # dir_put n e d)"

definition dir_del :: "string \<Rightarrow> task_dir \<Rightarrow> task_dir" where
  "dir_del n d = filter (\<lambda>(m, _). m \<noteq> n) d"

definition task_file :: "string \<Rightarrow> string" where
  "task_file i = i @ ''.toml''"

definition read_file :: "bool \<Rightarrow> task_dir \<Rightarrow> string \<Rightarrow> task_error + string" where
  "read_file ok d i =
    (if \<not> ok then Inl TPlain
     else (case map_of d (task_file i) of None \<Rightarrow> Inl TNotFound
       | Some EDir \<Rightarrow> Inl TPlain
       | Some (EFile b) \<Rightarrow> Inr b))"

section \<open>Reading\<close>

record task_record =
  tr_task :: task
  tr_revision :: string

definition decode_task :: "task_lib \<Rightarrow> string \<Rightarrow> string \<Rightarrow> task_error + task" where
  "decode_task lib i b =
    (case tl_decode lib b of None \<Rightarrow> Inl TPlain
     | Some t0 \<Rightarrow> (let t = t0\<lparr>t_id := i\<rparr> in
         case task_validate (tl_lower lib) t of Some e \<Rightarrow> Inl e
         | None \<Rightarrow> Inr (t\<lparr>t_stored_revision := revision lib t\<rparr>)))"

definition store_get :: "task_lib \<Rightarrow> task_os \<Rightarrow> task_dir \<Rightarrow> string \<Rightarrow> task_error + task" where
  \<comment> \<open>the unexported \<open>get\<close>\<close>
  "store_get lib os d i =
    (case read_file (os (TRead i)) d i of Inl e \<Rightarrow> Inl e | Inr b \<Rightarrow> decode_task lib i b)"

definition store_Get :: "task_lib \<Rightarrow> task_os \<Rightarrow> task_dir \<Rightarrow> string \<Rightarrow> task_error + task" where
  "store_Get lib os d i =
    (case validate_id i of Some e \<Rightarrow> Inl e | None \<Rightarrow> store_get lib os d i)"

definition revision_for :: "task_lib \<Rightarrow> string \<Rightarrow> string \<Rightarrow> string" where
  "revision_for lib i b = hex_bytes (tl_sha256 lib (i @ [CHR 0x00] @ b))"

definition get_record_unlocked :: "task_lib \<Rightarrow> bool \<Rightarrow> task_dir \<Rightarrow> string \<Rightarrow> task_error + task_record" where
  "get_record_unlocked lib ok d i =
    (case read_file ok d i of Inl e \<Rightarrow> Inl e
     | Inr b \<Rightarrow> (case decode_task lib i b of Inl e \<Rightarrow> Inl e
       | Inr t \<Rightarrow> Inr \<lparr>tr_task = t, tr_revision = revision_for lib i b\<rparr>))"

definition store_get_record :: "task_lib \<Rightarrow> task_os \<Rightarrow> task_dir \<Rightarrow> string \<Rightarrow> task_error + task_record" where
  "store_get_record lib os d i =
    (case validate_id i of Some e \<Rightarrow> Inl e | None \<Rightarrow> get_record_unlocked lib (os (TRead i)) d i)"

definition record_exists :: "task_os \<Rightarrow> task_dir \<Rightarrow> string \<Rightarrow> task_error + bool" where
  "record_exists os d i =
    (case validate_id i of Some e \<Rightarrow> Inl e
     | None \<Rightarrow> if \<not> os TLstat then Inl TPlain else Inr (map_of d (task_file i) \<noteq> None))"

section \<open>Writing\<close>

definition prepare_candidate :: "(nat \<Rightarrow> nat) \<Rightarrow> task \<Rightarrow> bool \<Rightarrow> task_error + task" where
  "prepare_candidate lower t derive =
    (let c = (if t_id t = [] \<and> derive then t\<lparr>t_id := make_id (t_repo t) (t_branch t)\<rparr> else t)
     in if t_id c = [] then Inl TInvalidID
        else (case task_validate lower c of Some e \<Rightarrow> Inl e | None \<Rightarrow> Inr c))"

definition stamp_for_save :: "gotime \<Rightarrow> task \<Rightarrow> task" where
  "stamp_for_save clock t =
    (let now = truncate_second (time_utc clock)
     in t\<lparr>t_created := (if time_is_zero (t_created t) then now else t_created t), t_updated := now\<rparr>)"

text \<open>
  \<open>writeAtomic\<close>: the file is replaced by the encoding of the task as the last step but the
  directory sync. A directory in its place cannot be replaced.
\<close>

definition write_atomic :: "task_lib \<Rightarrow> task_os \<Rightarrow> task \<Rightarrow> task_dir \<Rightarrow> task_error option \<times> task_dir" where
  "write_atomic lib os t d =
    (case first_error (\<lambda>c. fail_if (\<not> os c) TPlain) [TMkdir, TTemp, TChmod] of
       Some e \<Rightarrow> (Some e, d)
     | None \<Rightarrow> (case tl_encode lib t of None \<Rightarrow> (Some TPlain, d)
     | Some b \<Rightarrow> (case first_error (\<lambda>c. fail_if (\<not> os c) TPlain) [TSync, TClose, TReplace] of
         Some e \<Rightarrow> (Some e, d)
       | None \<Rightarrow> if map_of d (task_file (t_id t)) = Some EDir then (Some TPlain, d)
                 else (fail_if (\<not> os TSyncDir) TPlain, dir_put (task_file (t_id t)) (EFile b) d))))"

text \<open>
  Every mutation runs under the cross-process lock. The result is the error or the value, the
  caller's task, which success replaces, and the directory.
\<close>

type_synonym 'a task_result = "(task_error + 'a) \<times> task \<times> task_dir"

definition with_task_lock :: "task_os \<Rightarrow> task \<Rightarrow> task_dir \<Rightarrow> 'a task_result \<Rightarrow> 'a task_result" where
  "with_task_lock os t d body = (if os TLock then body else (Inl TPlain, t, d))"

text \<open>The last steps of \<open>Save\<close>, \<open>ReplaceDone\<close> and \<open>SaveIfRevision\<close>.\<close>

definition stamp_and_write :: "task_lib \<Rightarrow> task_os \<Rightarrow> gotime \<Rightarrow> task \<Rightarrow> task \<Rightarrow> task_dir \<Rightarrow> unit task_result" where
  "stamp_and_write lib os clock t candidate d =
    (let c = stamp_for_save clock candidate
     in case write_atomic lib os c d of
          (Some e, d') \<Rightarrow> (Inl e, t, d')
        | (None, d') \<Rightarrow> (Inr (), c\<lparr>t_stored_revision := revision lib c\<rparr>, d'))"

definition store_save :: "task_lib \<Rightarrow> task_os \<Rightarrow> gotime \<Rightarrow> task \<Rightarrow> task_dir \<Rightarrow> unit task_result" where
  "store_save lib os clock t d =
    (case prepare_candidate (tl_lower lib) t True of Inl e \<Rightarrow> (Inl e, t, d)
     | Inr c \<Rightarrow> with_task_lock os t d
         (case store_get lib os d (t_id c) of
            Inr current \<Rightarrow>
              if t_stored_revision c = [] \<or> t_stored_revision c \<noteq> revision lib current then (Inl TConflict, t, d)
              else if \<not> time_equal (t_created c) (t_created current) then (Inl TConflict, t, d)
              else stamp_and_write lib os clock t c d
          | Inl TNotFound \<Rightarrow>
              if t_stored_revision c \<noteq> [] then (Inl TConflict, t, d)
              else stamp_and_write lib os clock t c d
          | Inl e \<Rightarrow> (Inl e, t, d)))"

definition replace_done :: "task_lib \<Rightarrow> task_os \<Rightarrow> gotime \<Rightarrow> task \<Rightarrow> string \<Rightarrow> task_dir \<Rightarrow> unit task_result" where
  "replace_done lib os clock t expected d =
    (case prepare_candidate (tl_lower lib) t True of Inl e \<Rightarrow> (Inl e, t, d)
     | Inr c \<Rightarrow> with_task_lock os t d
         (case store_get lib os d (t_id c) of
            Inl e \<Rightarrow> (Inl e, t, d)
          | Inr current \<Rightarrow>
              if expected = [] \<or> t_state current \<noteq> state_done \<or> revision lib current \<noteq> expected
              then (Inl TConflict, t, d)
              else stamp_and_write lib os clock t (c\<lparr>t_created := zero_time, t_updated := zero_time\<rparr>) d))"

definition save_if_revision_under_lock :: "task_lib \<Rightarrow> task_os \<Rightarrow> gotime \<Rightarrow> task \<Rightarrow> string \<Rightarrow> task_dir \<Rightarrow>
    unit task_result" where
  "save_if_revision_under_lock lib os clock t expected d =
    (case prepare_candidate (tl_lower lib) t True of Inl e \<Rightarrow> (Inl e, t, d)
     | Inr c \<Rightarrow> (case store_get lib os d (t_id c) of Inl e \<Rightarrow> (Inl e, t, d)
       | Inr current \<Rightarrow>
           if expected = [] \<or> revision lib current \<noteq> expected \<or>
              \<not> time_equal (t_created c) (t_created current)
           then (Inl TConflict, t, d)
           else stamp_and_write lib os clock t c d))"

definition save_if_revision :: "task_lib \<Rightarrow> task_os \<Rightarrow> gotime \<Rightarrow> task \<Rightarrow> string \<Rightarrow> task_dir \<Rightarrow>
    unit task_result" where
  "save_if_revision lib os clock t expected d =
    with_task_lock os t d (save_if_revision_under_lock lib os clock t expected d)"

datatype import_outcome = ImportNone | ImportCreated | ImportIdentical | ImportConflict

text \<open>\<open>ImportExact\<close> returns an outcome beside the error.\<close>

definition import_exact :: "task_lib \<Rightarrow> task_os \<Rightarrow> task \<Rightarrow> task_dir \<Rightarrow>
    import_outcome \<times> task_error option \<times> task_dir" where
  "import_exact lib os t d =
    (case prepare_candidate (tl_lower lib) t False of Inl e \<Rightarrow> (ImportNone, Some e, d)
     | Inr c \<Rightarrow>
        if \<not> os TLock then (ImportNone, Some TPlain, d)
        else (case store_get lib os d (t_id c) of
            Inr current \<Rightarrow> if revision lib current = revision lib c then (ImportIdentical, None, d)
                            else (ImportConflict, Some TConflict, d)
          | Inl TNotFound \<Rightarrow> (case write_atomic lib os c d of
                (Some e, d') \<Rightarrow> (ImportNone, Some e, d')
              | (None, d') \<Rightarrow> (ImportCreated, None, d'))
          | Inl e \<Rightarrow> (ImportNone, Some e, d)))"

section \<open>Transactions\<close>

text \<open>
  The operations of \<open>Tx\<close> run under a lock the caller holds and return the record they read
  back after the write.
\<close>

definition tx_write :: "task_lib \<Rightarrow> task_os \<Rightarrow> gotime \<Rightarrow> task \<Rightarrow> task \<Rightarrow> task_dir \<Rightarrow> task_record task_result" where
  "tx_write lib os clock t candidate d =
    (let c = stamp_for_save clock candidate
     in case write_atomic lib os c d of
          (Some e, d') \<Rightarrow> (Inl e, t, d')
        | (None, d') \<Rightarrow> (case get_record_unlocked lib (os TReread) d' (t_id c) of
              Inl e \<Rightarrow> (Inl e, t, d')
            | Inr r \<Rightarrow> (Inr r, tr_task r, d')))"

definition tx_save :: "task_lib \<Rightarrow> task_os \<Rightarrow> gotime \<Rightarrow> task \<Rightarrow> task_dir \<Rightarrow> task_record task_result" where
  "tx_save lib os clock t d =
    (case prepare_candidate (tl_lower lib) t True of Inl e \<Rightarrow> (Inl e, t, d)
     | Inr c \<Rightarrow> tx_write lib os clock t c d)"

definition tx_create :: "task_lib \<Rightarrow> task_os \<Rightarrow> gotime \<Rightarrow> task \<Rightarrow> task_dir \<Rightarrow> task_record task_result" where
  "tx_create lib os clock t d =
    (case prepare_candidate (tl_lower lib) t True of Inl e \<Rightarrow> (Inl e, t, d)
     | Inr c \<Rightarrow>
        if \<not> os TLstat then (Inl TPlain, t, d)
        else if map_of d (task_file (t_id c)) \<noteq> None then (Inl TAlreadyExists, t, d)
        else tx_write lib os clock t c d)"

definition tx_update :: "task_lib \<Rightarrow> task_os \<Rightarrow> gotime \<Rightarrow> task \<Rightarrow> string \<Rightarrow> task_dir \<Rightarrow> task_record task_result" where
  "tx_update lib os clock t expected d =
    (case prepare_candidate (tl_lower lib) t True of Inl e \<Rightarrow> (Inl e, t, d)
     | Inr c \<Rightarrow> (case get_record_unlocked lib (os (TRead (t_id c))) d (t_id c) of Inl e \<Rightarrow> (Inl e, t, d)
       | Inr current \<Rightarrow>
           if tr_revision current \<noteq> expected
           then (Inl (TStale (t_id c) expected (tr_revision current)), t, d)
           else tx_write lib os clock t c d))"

definition delete_unlocked :: "task_os \<Rightarrow> string \<Rightarrow> task_dir \<Rightarrow> task_error option \<times> task_dir" where
  "delete_unlocked os i d =
    (case validate_id i of Some e \<Rightarrow> (Some e, d)
     | None \<Rightarrow>
        if map_of d (task_file i) = None then (Some TNotFound, d)
        else if \<not> os TRemove then (Some TPlain, d)
        else (fail_if (\<not> os TSyncDir) TPlain, dir_del (task_file i) d))"

text \<open>\<open>Tx.DeleteIfRevision\<close>, for an identifier without a path separator.\<close>

definition tx_delete_if_revision :: "task_lib \<Rightarrow> task_os \<Rightarrow> string \<Rightarrow> string \<Rightarrow> task_dir \<Rightarrow>
    task_error option \<times> task_dir" where
  "tx_delete_if_revision lib os i expected d =
    (case get_record_unlocked lib (os (TRead i)) d i of Inl e \<Rightarrow> (Some e, d)
     | Inr current \<Rightarrow>
         if tr_revision current \<noteq> expected then (Some (TStale i expected (tr_revision current)), d)
         else delete_unlocked os i d)"

definition store_create :: "task_lib \<Rightarrow> task_os \<Rightarrow> gotime \<Rightarrow> task \<Rightarrow> task_dir \<Rightarrow> task_record task_result" where
  "store_create lib os clock t d = with_task_lock os t d (tx_create lib os clock t d)"

definition store_update :: "task_lib \<Rightarrow> task_os \<Rightarrow> gotime \<Rightarrow> task \<Rightarrow> string \<Rightarrow> task_dir \<Rightarrow> task_record task_result" where
  "store_update lib os clock t expected d = with_task_lock os t d (tx_update lib os clock t expected d)"

definition store_delete :: "task_os \<Rightarrow> string \<Rightarrow> task_dir \<Rightarrow> task_error option \<times> task_dir" where
  "store_delete os i d =
    (case validate_id i of Some e \<Rightarrow> (Some e, d)
     | None \<Rightarrow>
        if \<not> os TLock then (Some TPlain, d)
        else if map_of d (task_file i) = None then (Some TNotFound, d)
        else if \<not> os TRemove then (Some TPlain, d)
        else (fail_if (\<not> os TSyncDir) TPlain, dir_del (task_file i) d))"

definition delete_if_revision :: "task_lib \<Rightarrow> task_os \<Rightarrow> string \<Rightarrow> string \<Rightarrow> task_dir \<Rightarrow>
    task_error option \<times> task_dir" where
  "delete_if_revision lib os i expected d =
    (if \<not> os TLock then (Some TPlain, d) else tx_delete_if_revision lib os i expected d)"

section \<open>Order\<close>

definition state_rank :: "string \<Rightarrow> nat" where
  "state_rank s =
    (if s = state_hot then 0 else if s = state_warm then 1 else if s = state_cold then 2
     else if s = state_done then 3 else 4)"

definition task_less :: "task \<Rightarrow> task \<Rightarrow> bool" where
  "task_less l r =
    (if state_rank (t_state l) \<noteq> state_rank (t_state r) then state_rank (t_state l) < state_rank (t_state r)
     else if \<not> time_equal (t_updated l) (t_updated r) then instant (t_updated r) < instant (t_updated l)
     else t_id l < t_id r)"

definition task_key :: "task \<Rightarrow> nat \<times> int \<times> string" where
  "task_key t = (state_rank (t_state t), - instant (t_updated t), t_id t)"

text \<open>\<open>Sort\<close> is stable and sorts by \<open>task_less\<close>, which compares \<open>task_key\<close>.\<close>

lemma task_less_key: "task_less l r \<longleftrightarrow> task_key l < task_key r"
  by (auto simp: task_less_def task_key_def time_equal_def less_prod_def)

definition sort_tasks :: "task list \<Rightarrow> task list" where
  "sort_tasks ts = sort_key task_key ts"

section \<open>Listing\<close>

text \<open>\<open>visible\<close>: the identifiers of the entries a listing reads.\<close>

definition visible :: "task_dir \<Rightarrow> string list" where
  "visible d = map (\<lambda>(n, _). trim_suffix n ''.toml'')
    (filter (\<lambda>(n, e). e \<noteq> EDir \<and> has_suffix n ''.toml'' \<and> \<not> has_prefix n ''.'') d)"

type_synonym diagnostic = "string \<times> task_error"

definition ok_results :: "('e + 'a) list \<Rightarrow> 'a list" where
  "ok_results rs = concat (map (\<lambda>r. case r of Inl _ \<Rightarrow> [] | Inr a \<Rightarrow> [a]) rs)"

definition diagnostics_of :: "(string \<times> (task_error + 'a)) list \<Rightarrow> diagnostic list" where
  "diagnostics_of rs = sort_key (\<lambda>(i, _). task_file i)
    (concat (map (\<lambda>(i, r). case r of Inl e \<Rightarrow> [(i, e)] | Inr _ \<Rightarrow> []) rs))"

definition list_with_diagnostics :: "task_lib \<Rightarrow> task_os \<Rightarrow> task_dir \<Rightarrow>
    task_error + (task list \<times> diagnostic list)" where
  "list_with_diagnostics lib os d =
    (if \<not> os TReadDir then Inl TPlain
     else (let rs = map (\<lambda>i. (i, store_Get lib os d i)) (visible d)
           in Inr (sort_tasks (ok_results (map snd rs)), diagnostics_of rs)))"

definition list_records :: "task_lib \<Rightarrow> task_os \<Rightarrow> task_dir \<Rightarrow>
    task_error + (task_record list \<times> diagnostic list)" where
  "list_records lib os d =
    (if \<not> os TReadDir then Inl TPlain
     else (let rs = map (\<lambda>i. (i, get_record_unlocked lib (os (TRead i)) d i)) (visible d)
           in Inr (sort_key (\<lambda>r. task_key (tr_task r)) (ok_results (map snd rs)), diagnostics_of rs)))"

definition store_list :: "task_lib \<Rightarrow> task_os \<Rightarrow> task_dir \<Rightarrow> task_error + task list" where
  "store_list lib os d =
    (case list_with_diagnostics lib os d of Inl e \<Rightarrow> Inl e | Inr (ts, _) \<Rightarrow> Inr ts)"

section \<open>Lookups\<close>

definition task_hay :: "(nat \<Rightarrow> nat) \<Rightarrow> task \<Rightarrow> string" where
  "task_hay lower t = to_lower lower (t_id t @ '' '' @ t_name t @ '' '' @ t_branch t @ '' '' @ t_repo t)"

definition resolve_in :: "(nat \<Rightarrow> nat) \<Rightarrow> string \<Rightarrow> task list \<Rightarrow> task_error + task" where
  "resolve_in lower ref all =
    (case List.find (\<lambda>t. t_id t = ref \<or> t_branch t = ref) all of
       Some t \<Rightarrow> Inr t
     | None \<Rightarrow> (case filter (\<lambda>t. contains_str (task_hay lower t) (to_lower lower ref)) all of
           [] \<Rightarrow> Inl TNotFound
         | [t] \<Rightarrow> Inr t
         | hits \<Rightarrow> Inl (TAmbiguous (map t_id hits))))"

definition store_resolve :: "task_lib \<Rightarrow> task_os \<Rightarrow> string \<Rightarrow> task_dir \<Rightarrow> task_error + task" where
  "store_resolve lib os ref d =
    (if ref = [] then Inl TNotFound
     else (case store_list lib os d of Inl e \<Rightarrow> Inl e | Inr all \<Rightarrow> resolve_in (tl_lower lib) ref all))"

definition under_root :: "string \<Rightarrow> string \<Rightarrow> bool" where
  "under_root dir root \<longleftrightarrow> root \<noteq> [] \<and> (dir = root \<or> has_prefix dir (root @ ''/''))"

definition task_root :: "task \<Rightarrow> string" where
  "task_root t = (if t_worktree t = [] then t_repo_path t else t_worktree t)"

fun best_match :: "string \<Rightarrow> task option \<times> nat \<Rightarrow> task list \<Rightarrow> task option" where
  "best_match dir (best, n) [] = best"
| "best_match dir (best, n) (t # ts) =
    (if under_root dir (task_root t) \<and> n < length (task_root t)
     then best_match dir (Some t, length (task_root t)) ts
     else best_match dir (best, n) ts)"

definition find_by_worktree :: "task_lib \<Rightarrow> task_os \<Rightarrow> string \<Rightarrow> task_dir \<Rightarrow> task_error + task" where
  "find_by_worktree lib os dir d =
    (case store_list lib os d of Inl e \<Rightarrow> Inl e
     | Inr all \<Rightarrow> (case best_match dir (None, 0) all of None \<Rightarrow> Inl TNotFound | Some t \<Rightarrow> Inr t))"

end
