(* ===== verification/Versioned.thy ===== *)
theory Versioned
  imports Prelude
begin

text \<open>
  The contract of an optimistic store, as an interface: a commit names the revision its writer
  read, succeeds only while that revision is current, and changes no other key. What its clients
  rely on follows: a stale writer is refused, and of the writers that read one revision at most
  one changes it.
\<close>

locale versioned =
  fixes revision_at :: "'s \<Rightarrow> 'k \<Rightarrow> 'r option"
    and commit :: "'s \<Rightarrow> 'k \<Rightarrow> 'r \<Rightarrow> 'v \<Rightarrow> 's option"
  assumes guarded: "commit s k r v = Some s' \<Longrightarrow> revision_at s k = Some r"
    and other_keys: "commit s k r v = Some s' \<Longrightarrow> k' \<noteq> k \<Longrightarrow> revision_at s' k' = revision_at s k'"
begin

lemma stale_refused: "revision_at s k \<noteq> Some r \<Longrightarrow> commit s k r v = None"
  using guarded by (cases "commit s k r v") auto

text \<open>A run of commits, each refused or applied.\<close>

fun run :: "'s \<Rightarrow> ('k \<times> 'r \<times> 'v) list \<Rightarrow> 's" where
  "run s [] = s"
| "run s ((k, r, v) # cs) = run (case commit s k r v of Some s' \<Rightarrow> s' | None \<Rightarrow> s) cs"

lemma run_other_keys: "k \<notin> fst ` set cs \<Longrightarrow> revision_at (run s cs) k = revision_at s k"
proof (induction s cs rule: run.induct)
  case (2 s k' r v cs)
  then show ?case using other_keys by (cases "commit s k' r v") auto
qed simp

text \<open>
  Two commits of one key with one revision, whatever other keys were committed in between:
  when the first changed the revision the second is refused.
\<close>

lemma lost_update_refused:
  assumes "commit s k r v = Some s1" and "revision_at s1 k \<noteq> Some r" and "k \<notin> fst ` set cs"
  shows "commit (run s1 cs) k r w = None"
  using assms by (intro stale_refused) (simp add: run_other_keys)

end

end
