(* ===== verification/TaskProps.thy ===== *)
theory TaskProps
  imports TaskStore Versioned
begin

text \<open>
  What the task store guarantees: writers that read one revision cannot both replace it, no
  operation touches another task's file, imports are idempotent, listings are complete and
  sorted, and the lookups find what they document.
\<close>

section \<open>Files\<close>

lemma map_of_dir_put: "map_of (dir_put n e d) = (map_of d)(n \<mapsto> e)"
  by (induction n e d rule: dir_put.induct) (auto simp: fun_upd_twist)

lemma map_of_dir_del: "map_of (dir_del n d) = (map_of d)(n := None)"
  unfolding dir_del_def by (induction d) auto

lemma task_file_inj [simp]: "task_file i = task_file j \<longleftrightarrow> i = j"
  by (simp add: task_file_def)

lemma write_atomic_cases:
  assumes "write_atomic lib os c d = (res, d')"
  obtains (failed) e where "res = Some e" "d' = d"
  | (written) b where "tl_encode lib c = Some b" "d' = dir_put (task_file (t_id c)) (EFile b) d"
      "res = fail_if (\<not> os TSyncDir) TPlain" "map_of d (task_file (t_id c)) \<noteq> Some EDir"
proof -
  let ?a = "first_error (\<lambda>c. fail_if (\<not> os c) TPlain) [TMkdir, TTemp, TChmod]"
  let ?b = "first_error (\<lambda>c. fail_if (\<not> os c) TPlain) [TSync, TClose, TReplace]"
  show thesis
  proof (cases "?a = None \<and> tl_encode lib c \<noteq> None \<and> ?b = None \<and>
      map_of d (task_file (t_id c)) \<noteq> Some EDir")
    case True
    with assms written show thesis by (auto simp: write_atomic_def simp del: first_error.simps)
  next
    case False
    have "fst (write_atomic lib os c d) \<noteq> None \<and> snd (write_atomic lib os c d) = d"
    proof (cases "?a = None \<and> tl_encode lib c \<noteq> None \<and> ?b = None")
      case True
      with False show ?thesis by (auto simp: write_atomic_def simp del: first_error.simps)
    next
      case False
      then show ?thesis
        unfolding write_atomic_def by (auto simp del: first_error.simps split: option.split)
    qed
    with assms failed show thesis by auto
  qed
qed

lemma prepare_candidateD:
  assumes "prepare_candidate lower t derive = Inr c"
  shows "t_id c \<noteq> []" "task_validate lower c = None" "validate_id (t_id c) = None"
    "c = (if t_id t = [] then t\<lparr>t_id := make_id (t_repo t) (t_branch t)\<rparr> else t)"
  using assms by (auto simp: prepare_candidate_def Let_def task_validate_def split: if_splits option.splits)

text \<open>The identifier an operation on a task writes to.\<close>

definition target_id :: "task \<Rightarrow> string" where
  "target_id t = (if t_id t = [] then make_id (t_repo t) (t_branch t) else t_id t)"

lemma prepare_candidate_id: "prepare_candidate lower t derive = Inr c \<Longrightarrow> t_id c = target_id t"
  by (drule prepare_candidateD(4)) (simp add: target_id_def)

lemma stamp_for_save_id [simp]: "t_id (stamp_for_save clock c) = t_id c"
  by (simp add: stamp_for_save_def Let_def)

lemma read_file_ok: "read_file ok d i = Inr b \<Longrightarrow> read_file True d i = Inr b"
  by (auto simp: read_file_def split: if_splits)

lemma read_file_cong: "map_of d' (task_file i) = map_of d (task_file i) \<Longrightarrow> read_file ok d' i = read_file ok d i"
  by (simp add: read_file_def)

lemma store_get_ok: "store_get lib os d i = Inr t \<Longrightarrow> store_get lib (\<lambda>_. True) d i = Inr t"
  by (auto simp: store_get_def dest: read_file_ok split: sum.splits)

lemma get_record_ok: "get_record_unlocked lib ok d i = Inr r \<Longrightarrow> get_record_unlocked lib True d i = Inr r"
  by (auto simp: get_record_unlocked_def dest: read_file_ok split: sum.splits)

section \<open>What each mutation may change\<close>

text \<open>Only the file of one identifier, replaced by a file or removed.\<close>

definition only_file :: "string \<Rightarrow> task_dir \<Rightarrow> task_dir \<Rightarrow> bool" where
  "only_file i d d' \<longleftrightarrow> (\<forall>n. n \<noteq> task_file i \<longrightarrow> map_of d' n = map_of d n)"

lemma only_file_refl [simp]: "only_file i d d"
  by (simp add: only_file_def)

lemma only_file_put [simp]: "only_file i d (dir_put (task_file i) e d)"
  by (simp add: only_file_def map_of_dir_put)

lemma only_file_del [simp]: "only_file i d (dir_del (task_file i) d)"
  by (simp add: only_file_def map_of_dir_del)

lemma write_atomic_only: "write_atomic lib os c d = (res, d') \<Longrightarrow> only_file (t_id c) d d'"
  by (erule write_atomic_cases) simp_all

lemma stamp_and_write_cases:
  assumes "stamp_and_write lib os clock t c d = (res, t', d')"
  obtains (failed) e where "res = Inl e" "t' = t" "d' = d"
  | (unsynced) b where "res = Inl TPlain" "t' = t" "tl_encode lib (stamp_for_save clock c) = Some b"
      "d' = dir_put (task_file (t_id c)) (EFile b) d" "\<not> os TSyncDir"
  | (saved) b where "res = Inr ()" "tl_encode lib (stamp_for_save clock c) = Some b"
      "t' = (stamp_for_save clock c)\<lparr>t_stored_revision := revision lib (stamp_for_save clock c)\<rparr>"
      "d' = dir_put (task_file (t_id c)) (EFile b) d"
proof -
  obtain e d2 where w: "write_atomic lib os (stamp_for_save clock c) d = (e, d2)" by fastforce
  then show thesis
    by (cases rule: write_atomic_cases)
      (use assms w failed unsynced saved in \<open>auto simp: stamp_and_write_def Let_def fail_if_def split: if_splits\<close>)
qed

lemma tx_write_cases:
  assumes "tx_write lib os clock t c d = (res, t', d')"
  obtains (failed) e where "res = Inl e" "t' = t" "d' = d"
  | (unread) e b where "res = Inl e" "t' = t" "tl_encode lib (stamp_for_save clock c) = Some b"
      "d' = dir_put (task_file (t_id c)) (EFile b) d"
  | (saved) r b where "res = Inr r" "t' = tr_task r" "tl_encode lib (stamp_for_save clock c) = Some b"
      "d' = dir_put (task_file (t_id c)) (EFile b) d" "get_record_unlocked lib True d' (t_id c) = Inr r"
proof -
  obtain e d2 where w: "write_atomic lib os (stamp_for_save clock c) d = (e, d2)" by fastforce
  then show thesis
  proof (cases rule: write_atomic_cases)
    case (failed e')
    with assms w show thesis by (intro that(1)) (auto simp: tx_write_def Let_def)
  next
    case (written b)
    show thesis
    proof (cases "os TSyncDir \<and> (\<exists>r. get_record_unlocked lib (os TReread) d2 (t_id c) = Inr r)")
      case False
      have "isl (fst (tx_write lib os clock t c d)) \<and> snd (tx_write lib os clock t c d) = (t, d2)"
        using w written False unfolding tx_write_def
        by (auto simp: Let_def fail_if_def split: sum.splits)
      with assms have "isl res \<and> t' = t \<and> d' = d2" by simp
      with written show thesis by (cases res) (auto intro: unread)
    next
      case True
      then obtain r where r: "get_record_unlocked lib (os TReread) d2 (t_id c) = Inr r" "os TSyncDir" by blast
      with assms w written get_record_ok [OF r(1)] show thesis
        by (intro saved) (auto simp: tx_write_def Let_def)
    qed
  qed
qed

section \<open>Conditional writes\<close>

definition file_revision :: "task_lib \<Rightarrow> task_dir \<Rightarrow> string \<Rightarrow> string option" where
  "file_revision lib d i =
    (case get_record_unlocked lib True d i of Inl _ \<Rightarrow> None | Inr r \<Rightarrow> Some (tr_revision r))"

definition record_revision :: "task_lib \<Rightarrow> task_dir \<Rightarrow> string \<Rightarrow> string option" where
  "record_revision lib d i =
    (case store_get lib (\<lambda>_. True) d i of Inl _ \<Rightarrow> None | Inr t \<Rightarrow> Some (revision lib t))"

lemma file_revision_only: "only_file i d d' \<Longrightarrow> j \<noteq> i \<Longrightarrow> file_revision lib d' j = file_revision lib d j"
  by (simp add: file_revision_def get_record_unlocked_def read_file_def only_file_def)

lemma record_revision_only: "only_file i d d' \<Longrightarrow> j \<noteq> i \<Longrightarrow> record_revision lib d' j = record_revision lib d j"
  by (simp add: record_revision_def store_get_def read_file_def only_file_def)

lemma store_update_cases:
  assumes "store_update lib os clock t expected d = (res, t', d')"
  obtains (refused) e where "res = Inl e" "t' = t" "d' = d"
  | (current) c where "prepare_candidate (tl_lower lib) t True = Inr c"
      "file_revision lib d (target_id t) = Some expected" "tx_write lib os clock t c d = (res, t', d')"
proof (cases "\<exists>c r. os TLock \<and> prepare_candidate (tl_lower lib) t True = Inr c \<and>
    get_record_unlocked lib (os (TRead (t_id c))) d (t_id c) = Inr r \<and> tr_revision r = expected")
  case True
  then obtain c r where c: "os TLock" "prepare_candidate (tl_lower lib) t True = Inr c"
    "get_record_unlocked lib (os (TRead (t_id c))) d (t_id c) = Inr r" "tr_revision r = expected" by blast
  with assms get_record_ok [OF c(3)] show thesis
    by (intro current) (auto simp: store_update_def with_task_lock_def tx_update_def file_revision_def
        prepare_candidate_id [symmetric])
next
  case False
  then have "isl (fst (store_update lib os clock t expected d)) \<and>
      snd (store_update lib os clock t expected d) = (t, d)"
    by (auto simp: store_update_def with_task_lock_def tx_update_def split: sum.splits)
  with assms show thesis by (cases res) (auto intro: refused)
qed

lemma save_if_revision_cases:
  assumes "save_if_revision lib os clock t expected d = (res, t', d')"
  obtains (refused) e where "res = Inl e" "t' = t" "d' = d"
  | (current) c where "prepare_candidate (tl_lower lib) t True = Inr c"
      "record_revision lib d (target_id t) = Some expected" "stamp_and_write lib os clock t c d = (res, t', d')"
proof (cases "\<exists>c u. os TLock \<and> prepare_candidate (tl_lower lib) t True = Inr c \<and>
    store_get lib os d (t_id c) = Inr u \<and> expected \<noteq> [] \<and> revision lib u = expected \<and>
    time_equal (t_created c) (t_created u)")
  case True
  then obtain c u where c: "os TLock" "prepare_candidate (tl_lower lib) t True = Inr c"
    "store_get lib os d (t_id c) = Inr u" "expected \<noteq> []" "revision lib u = expected"
    "time_equal (t_created c) (t_created u)" by blast
  with assms store_get_ok [OF c(3)] show thesis
    by (intro current) (auto simp: save_if_revision_def with_task_lock_def save_if_revision_under_lock_def
        record_revision_def prepare_candidate_id [symmetric])
next
  case False
  with assms show thesis
    by (intro refused [of "projl res"])
      (auto simp: save_if_revision_def with_task_lock_def save_if_revision_under_lock_def
        split: sum.splits if_splits)
qed

lemma replace_done_cases:
  assumes "replace_done lib os clock t expected d = (res, t', d')"
  obtains (refused) e where "res = Inl e" "t' = t" "d' = d"
  | (current) c u where "prepare_candidate (tl_lower lib) t True = Inr c"
      "record_revision lib d (target_id t) = Some expected"
      "store_get lib (\<lambda>_. True) d (target_id t) = Inr u" "t_state u = state_done"
      "stamp_and_write lib os clock t (c\<lparr>t_created := zero_time, t_updated := zero_time\<rparr>) d = (res, t', d')"
proof (cases "\<exists>c u. os TLock \<and> prepare_candidate (tl_lower lib) t True = Inr c \<and>
    store_get lib os d (t_id c) = Inr u \<and> expected \<noteq> [] \<and> revision lib u = expected \<and>
    t_state u = state_done")
  case True
  then obtain c u where c: "os TLock" "prepare_candidate (tl_lower lib) t True = Inr c"
    "store_get lib os d (t_id c) = Inr u" "expected \<noteq> []" "revision lib u = expected"
    "t_state u = state_done" by blast
  with assms store_get_ok [OF c(3)] show thesis
    by (intro current) (auto simp: replace_done_def with_task_lock_def
        record_revision_def prepare_candidate_id [symmetric])
next
  case False
  with assms show thesis
    by (intro refused [of "projl res"])
      (auto simp: replace_done_def with_task_lock_def split: sum.splits if_splits)
qed

lemma delete_if_revision_cases:
  assumes "delete_if_revision lib os i expected d = (res, d')"
  obtains (refused) e where "res = Some e" "d' = d"
  | (current) "file_revision lib d i = Some expected" "d' = dir_del (task_file i) d"
proof (cases "\<exists>r. os TLock \<and> get_record_unlocked lib (os (TRead i)) d i = Inr r \<and> tr_revision r = expected")
  case True
  then obtain r where r: "os TLock" "get_record_unlocked lib (os (TRead i)) d i = Inr r" "tr_revision r = expected"
    by blast
  have f: "file_revision lib d i = Some expected" using get_record_ok [OF r(2)] r(3) by (simp add: file_revision_def)
  from assms r have "delete_unlocked os i d = (res, d')"
    by (simp add: delete_if_revision_def tx_delete_if_revision_def)
  moreover have "snd (delete_unlocked os i d) = d \<and> fst (delete_unlocked os i d) \<noteq> None \<or>
      snd (delete_unlocked os i d) = dir_del (task_file i) d"
    by (auto simp: delete_unlocked_def split: option.split)
  ultimately have "d' = d \<and> res \<noteq> None \<or> d' = dir_del (task_file i) d" by simp
  with f refused current show thesis by blast
next
  case False
  with assms show thesis
    by (intro refused [of "the res"])
      (auto simp: delete_if_revision_def tx_delete_if_revision_def split: sum.splits if_splits)
qed

lemma tx_write_only: "tx_write lib os clock t c d = (res, t', d') \<Longrightarrow> only_file (t_id c) d d'"
  by (erule tx_write_cases) simp_all

lemma stamp_and_write_only:
  "stamp_and_write lib os clock t c d = (res, t', d') \<Longrightarrow> only_file (t_id c) d d'"
  by (erule stamp_and_write_cases) simp_all

lemma task_validate_error: "task_validate lower t \<noteq> Some TNotFound"
proof
  assume "task_validate lower t = Some TNotFound"
  then show False unfolding task_validate_def validate_id_def
    by (elim checks_Cons_SomeD [elim_format] disjE conjE) (auto simp: checks.simps(1) split: if_splits)
qed

lemma store_get_missing: "store_get lib os d i = Inl TNotFound \<Longrightarrow> map_of d (task_file i) = None"
  using task_validate_error
  by (auto simp: store_get_def read_file_def decode_task_def Let_def
      split: sum.splits option.splits if_splits dir_entry.splits)

lemma store_save_cases:
  assumes "store_save lib os clock t d = (res, t', d')"
  obtains (refused) e where "res = Inl e" "t' = t" "d' = d"
  | (fresh) c where "prepare_candidate (tl_lower lib) t True = Inr c" "t_stored_revision t = []"
      "map_of d (task_file (target_id t)) = None" "stamp_and_write lib os clock t c d = (res, t', d')"
  | (current) c where "prepare_candidate (tl_lower lib) t True = Inr c" "t_stored_revision t \<noteq> []"
      "record_revision lib d (target_id t) = Some (t_stored_revision t)"
      "stamp_and_write lib os clock t c d = (res, t', d')"
proof (cases "prepare_candidate (tl_lower lib) t True")
  case (Inl e)
  with assms show thesis by (intro refused) (auto simp: store_save_def)
next
  case (Inr c)
  note c = prepare_candidateD(4) [OF Inr] prepare_candidate_id [OF Inr]
  then have stored: "t_stored_revision c = t_stored_revision t" by simp
  show thesis
  proof (cases "store_get lib os d (t_id c)")
    case get: (Inr u)
    show thesis
    proof (cases "os TLock \<and> t_stored_revision c \<noteq> [] \<and> t_stored_revision c = revision lib u \<and>
        time_equal (t_created c) (t_created u)")
      case True
      with assms Inr get c(2) stored store_get_ok [OF get] show thesis
        by (intro current) (auto simp: store_save_def with_task_lock_def record_revision_def)
    next
      case False
      then have "fst (store_save lib os clock t d) \<in> range Inl \<and> snd (store_save lib os clock t d) = (t, d)"
        using Inr get by (auto simp: store_save_def with_task_lock_def)
      with assms show thesis by (auto intro: refused)
    qed
  next
    case get: (Inl e)
    show thesis
    proof (cases "e = TNotFound \<and> os TLock \<and> t_stored_revision c = []")
      case True
      with store_get_missing [of lib os d "t_id c"] assms Inr get c(2) stored show thesis
        by (intro fresh) (simp_all add: store_save_def with_task_lock_def)
    next
      case False
      then have "fst (store_save lib os clock t d) \<in> range Inl \<and> snd (store_save lib os clock t d) = (t, d)"
        using Inr get by (auto simp: store_save_def with_task_lock_def split: task_error.split)
      with assms show thesis by (auto intro: refused)
    qed
  qed
qed

lemma tx_create_cases:
  assumes "store_create lib os clock t d = (res, t', d')"
  obtains (refused) e where "res = Inl e" "t' = t" "d' = d"
  | (fresh) c where "prepare_candidate (tl_lower lib) t True = Inr c"
      "map_of d (task_file (target_id t)) = None" "tx_write lib os clock t c d = (res, t', d')"
  using assms
  by (auto simp: store_create_def with_task_lock_def tx_create_def prepare_candidate_id
      split: sum.splits if_splits)

text \<open>
  C16: Conditional writes are guarded: Update, SaveIfRevision, ReplaceDone and DeleteIfRevision
  leave the directory as it is unless the expected revision is the one the stored record has at
  that moment (and, for ReplaceDone, its state is DONE), and then change only that task's file.
\<close>

theorem conditional_writes_guarded:
  "(let d' = snd (snd (store_update lib os clock t expected d)) in
      d' = d \<or> (file_revision lib d (target_id t) = Some expected \<and> only_file (target_id t) d d')) \<and>
   (let d' = snd (snd (save_if_revision lib os clock t expected d)) in
      d' = d \<or> (record_revision lib d (target_id t) = Some expected \<and> only_file (target_id t) d d')) \<and>
   (let d' = snd (snd (replace_done lib os clock t expected d)) in
      d' = d \<or> (record_revision lib d (target_id t) = Some expected \<and> only_file (target_id t) d d' \<and>
        (\<exists>u. store_get lib (\<lambda>_. True) d (target_id t) = Inr u \<and> t_state u = state_done))) \<and>
   (let d' = snd (delete_if_revision lib os i expected d) in
      d' = d \<or> (file_revision lib d i = Some expected \<and> only_file i d d'))"
proof -
  obtain r1 t1 d1 where 1: "store_update lib os clock t expected d = (r1, t1, d1)" by (cases rule: prod_cases3)
  obtain r2 t2 d2 where 2: "save_if_revision lib os clock t expected d = (r2, t2, d2)" by (cases rule: prod_cases3)
  obtain r3 t3 d3 where 3: "replace_done lib os clock t expected d = (r3, t3, d3)" by (cases rule: prod_cases3)
  obtain r4 d4 where 4: "delete_if_revision lib os i expected d = (r4, d4)" by (cases rule: prod.exhaust)
  have "d1 = d \<or> (file_revision lib d (target_id t) = Some expected \<and> only_file (target_id t) d d1)"
    using 1 by (rule store_update_cases) (auto dest: tx_write_only simp: prepare_candidate_id)
  moreover have "d2 = d \<or> (record_revision lib d (target_id t) = Some expected \<and> only_file (target_id t) d d2)"
    using 2 by (rule save_if_revision_cases) (auto dest: stamp_and_write_only simp: prepare_candidate_id)
  moreover have "d3 = d \<or> (record_revision lib d (target_id t) = Some expected \<and> only_file (target_id t) d d3 \<and>
      (\<exists>u. store_get lib (\<lambda>_. True) d (target_id t) = Inr u \<and> t_state u = state_done))"
    using 3 by (rule replace_done_cases) (auto dest!: stamp_and_write_only simp: prepare_candidate_id)
  moreover have "d4 = d \<or> (file_revision lib d i = Some expected \<and> only_file i d d4)"
    using 4 by (rule delete_if_revision_cases) auto
  ultimately show ?thesis by (simp add: 1 2 3 4 Let_def)
qed

text \<open>
  Save is guarded by what its caller read: the directory is unchanged, or the task was never
  stored and is new, or the stored record still has the revision the caller's copy was read with;
  and only that task's file changes. Create never replaces a file.
\<close>

lemma save_and_create_guarded:
  "(let d' = snd (snd (store_save lib os clock t d)) in
      d' = d \<or> (only_file (target_id t) d d' \<and>
        ((t_stored_revision t = [] \<and> map_of d (task_file (target_id t)) = None) \<or>
         record_revision lib d (target_id t) = Some (t_stored_revision t)))) \<and>
   (let d' = snd (snd (store_create lib os clock t d)) in
      d' = d \<or> (only_file (target_id t) d d' \<and> map_of d (task_file (target_id t)) = None))"
proof -
  obtain r1 t1 d1 where 1: "store_save lib os clock t d = (r1, t1, d1)" by (cases rule: prod_cases3)
  obtain r2 t2 d2 where 2: "store_create lib os clock t d = (r2, t2, d2)" by (cases rule: prod_cases3)
  have "d1 = d \<or> (only_file (target_id t) d d1 \<and>
        ((t_stored_revision t = [] \<and> map_of d (task_file (target_id t)) = None) \<or>
         record_revision lib d (target_id t) = Some (t_stored_revision t)))"
    using 1 by (rule store_save_cases) (auto dest!: stamp_and_write_only simp: prepare_candidate_id)
  moreover have "d2 = d \<or> (only_file (target_id t) d d2 \<and> map_of d (task_file (target_id t)) = None)"
    using 2 by (rule tx_create_cases) (auto dest!: tx_write_only simp: prepare_candidate_id)
  ultimately show ?thesis by (simp add: 1 2 Let_def)
qed

section \<open>The store as an optimistic store\<close>

text \<open>
  A writer is a pattern of failures, a time and the task it writes under the key. A commit counts
  when the operation reports success.
\<close>

type_synonym writer = "task_os \<times> gotime \<times> task"

fun commit_update :: "task_lib \<Rightarrow> task_dir \<Rightarrow> string \<Rightarrow> string \<Rightarrow> writer \<Rightarrow> task_dir option" where
  "commit_update lib d i r (os, clock, t) =
    (case store_update lib os clock (t\<lparr>t_id := i\<rparr>) r d of
       (Inr _, _, d') \<Rightarrow> if i = [] then None else Some d' | _ \<Rightarrow> None)"

fun commit_save_if :: "task_lib \<Rightarrow> task_dir \<Rightarrow> string \<Rightarrow> string \<Rightarrow> writer \<Rightarrow> task_dir option" where
  "commit_save_if lib d i r (os, clock, t) =
    (case save_if_revision lib os clock (t\<lparr>t_id := i\<rparr>) r d of
       (Inr _, _, d') \<Rightarrow> if i = [] then None else Some d' | _ \<Rightarrow> None)"

fun commit_restart :: "task_lib \<Rightarrow> task_dir \<Rightarrow> string \<Rightarrow> string \<Rightarrow> writer \<Rightarrow> task_dir option" where
  "commit_restart lib d i r (os, clock, t) =
    (case replace_done lib os clock (t\<lparr>t_id := i\<rparr>) r d of
       (Inr _, _, d') \<Rightarrow> if i = [] then None else Some d' | _ \<Rightarrow> None)"

lemma target_id_upd [simp]: "i \<noteq> [] \<Longrightarrow> target_id (t\<lparr>t_id := i\<rparr>) = i"
  by (simp add: target_id_def)

lemma commit_updateD:
  assumes "commit_update lib d i r w = Some d'"
  shows "file_revision lib d i = Some r \<and> only_file i d d'"
proof -
  obtain os clock t where w: "w = (os, clock, t)" by (cases w) auto
  from assms obtain rec t' where i: "i \<noteq> []" and u: "store_update lib os clock (t\<lparr>t_id := i\<rparr>) r d = (Inr rec, t', d')"
    by (auto simp: w split: sum.splits prod.splits if_splits)
  from u show ?thesis
    by (rule store_update_cases) (use i in \<open>auto dest: tx_write_only simp: prepare_candidate_id\<close>)
qed

lemma commit_save_ifD:
  assumes "commit_save_if lib d i r w = Some d'"
  shows "record_revision lib d i = Some r \<and> only_file i d d'"
proof -
  obtain os clock t where w: "w = (os, clock, t)" by (cases w) auto
  from assms obtain rec t' where i: "i \<noteq> []" and u: "save_if_revision lib os clock (t\<lparr>t_id := i\<rparr>) r d = (Inr rec, t', d')"
    by (auto simp: w split: sum.splits prod.splits if_splits)
  from u show ?thesis
    by (rule save_if_revision_cases) (use i in \<open>auto dest: stamp_and_write_only simp: prepare_candidate_id\<close>)
qed

lemma commit_restartD:
  assumes "commit_restart lib d i r w = Some d'"
  shows "record_revision lib d i = Some r \<and> only_file i d d'"
proof -
  obtain os clock t where w: "w = (os, clock, t)" by (cases w) auto
  from assms obtain rec t' where i: "i \<noteq> []" and u: "replace_done lib os clock (t\<lparr>t_id := i\<rparr>) r d = (Inr rec, t', d')"
    by (auto simp: w split: sum.splits prod.splits if_splits)
  from u show ?thesis
    by (rule replace_done_cases) (use i in \<open>auto dest!: stamp_and_write_only simp: prepare_candidate_id\<close>)
qed

interpretation update_store: versioned "file_revision lib" "commit_update lib" for lib
  by unfold_locales (auto dest!: commit_updateD simp: file_revision_only)

interpretation save_if_store: versioned "record_revision lib" "commit_save_if lib" for lib
  by unfold_locales (auto dest!: commit_save_ifD simp: record_revision_only)

interpretation restart_store: versioned "record_revision lib" "commit_restart lib" for lib
  by unfold_locales (auto dest!: commit_restartD simp: record_revision_only)


section \<open>Exact imports\<close>

lemma import_exact_cases:
  assumes "import_exact lib os t d = (out, err, d')"
  obtains (failed) e where "out = ImportNone" "err = Some e" "only_file (t_id t) d d'"
      "os TSyncDir \<Longrightarrow> d' = d"
  | (created) b where "out = ImportCreated" "err = None" "map_of d (task_file (t_id t)) = None"
      "tl_encode lib t = Some b" "d' = dir_put (task_file (t_id t)) (EFile b) d"
  | (same) u where "out = ImportIdentical" "err = None" "d' = d"
      "store_get lib (\<lambda>_. True) d (t_id t) = Inr u" "revision lib u = revision lib t"
  | (different) u where "out = ImportConflict" "err = Some TConflict" "d' = d"
      "store_get lib (\<lambda>_. True) d (t_id t) = Inr u" "revision lib u \<noteq> revision lib t"
proof (cases "prepare_candidate (tl_lower lib) t False")
  case (Inl e)
  with assms show thesis by (intro failed) (auto simp: import_exact_def)
next
  case (Inr c)
  then have c: "c = t" by (auto simp: prepare_candidate_def Let_def split: if_splits option.splits)
  show thesis
  proof (cases "os TLock")
    case False
    with assms Inr show thesis by (intro failed) (auto simp: import_exact_def)
  next
    case lock: True
    show thesis
    proof (cases "store_get lib os d (t_id t)")
      case get: (Inr u)
      with assms Inr c lock store_get_ok [OF get] same different show thesis
        by (cases "revision lib u = revision lib t") (auto simp: import_exact_def)
    next
      case get: (Inl e)
      show thesis
      proof (cases "e = TNotFound")
        case True
        obtain r d2 where w: "write_atomic lib os t d = (r, d2)" by fastforce
        then show thesis
        proof (cases rule: write_atomic_cases)
          case (written b)
          with assms Inr c lock get True w store_get_missing [of lib os d "t_id t"] created failed show thesis
            by (cases "os TSyncDir") (auto simp: import_exact_def)
        next
          case failed: (failed e')
          with assms Inr c lock get True w that(1) show thesis by (auto simp: import_exact_def)
        qed
      next
        case False
        with assms Inr c lock get have "out = ImportNone \<and> err = Some e \<and> d' = d"
          by (auto simp: import_exact_def split: task_error.splits)
        then show thesis by (intro failed) auto
      qed
    qed
  qed
qed

lemma same_record_validate: "same_record t u \<Longrightarrow> task_validate lower t = task_validate lower u"
  by (cases t; cases u) (simp add: same_record_def task_validate_def)

lemma decode_written:
  assumes "tl_decode lib b = Some t0" and "same_record (t0\<lparr>t_id := t_id t\<rparr>) t"
    and "task_validate (tl_lower lib) t = None"
  shows "\<exists>u. decode_task lib (t_id t) b = Inr u \<and> revision lib u = revision lib t"
proof -
  have "revision lib (t0\<lparr>t_id := t_id t, t_stored_revision := x\<rparr>) = revision lib t" for x
    using same_record_revision [OF assms(2)] by (simp add: revision_def revision_fields_def)
  with assms same_record_validate [OF assms(2)] show ?thesis by (simp add: decode_task_def Let_def)
qed

text \<open>
  Imports are idempotent and never replace: after an import created a record, importing the
  same task again changes nothing and reports the identical record, and importing any other valid
  task under the same identifier is refused as a conflict, unchanged. The hypothesis is that the
  TOML codec reads back the record it wrote for this task.
\<close>

lemma import_idempotent:
  assumes "import_exact lib os t d = (ImportCreated, err, d1)"
    and "\<And>b. tl_encode lib t = Some b \<Longrightarrow>
      \<exists>t0. tl_decode lib b = Some t0 \<and> same_record (t0\<lparr>t_id := t_id t\<rparr>) t"
  shows "import_exact lib (\<lambda>_. True) t d1 = (ImportIdentical, None, d1) \<and>
    (\<forall>u. t_id u = t_id t \<longrightarrow> task_validate (tl_lower lib) u = None \<longrightarrow>
      revision lib u \<noteq> revision lib t \<longrightarrow>
      import_exact lib (\<lambda>_. True) u d1 = (ImportConflict, Some TConflict, d1))"
proof -
  from assms(1) obtain b where b: "tl_encode lib t = Some b" "d1 = dir_put (task_file (t_id t)) (EFile b) d"
    by (cases rule: import_exact_cases) auto
  from assms(1) obtain c where "prepare_candidate (tl_lower lib) t False = Inr c"
    by (auto simp: import_exact_def split: sum.splits)
  then have v: "prepare_candidate (tl_lower lib) t False = Inr t" "t_id t \<noteq> []"
    "task_validate (tl_lower lib) t = None"
    by (auto simp: prepare_candidate_def Let_def split: if_splits option.splits)
  from assms(2) [OF b(1)] obtain t0 where "tl_decode lib b = Some t0" "same_record (t0\<lparr>t_id := t_id t\<rparr>) t" by blast
  from decode_written [OF this v(3)] obtain u where u: "decode_task lib (t_id t) b = Inr u" "revision lib u = revision lib t"
    by blast
  have "store_get lib (\<lambda>_. True) d1 (t_id t) = Inr u"
    using u(1) by (simp add: store_get_def read_file_def b(2) map_of_dir_put)
  with v u(2) show ?thesis by (auto simp: import_exact_def prepare_candidate_def Let_def)
qed

section \<open>Listings\<close>

lemma ok_results_mset:
  "mset (map f (ok_results (map snd rs))) + mset (map fst (concat (map (\<lambda>(i, r). case r of Inl e \<Rightarrow> [(i, e)] | Inr _ \<Rightarrow> []) rs))) =
    mset (map (\<lambda>(i, r). case r of Inl _ \<Rightarrow> i | Inr a \<Rightarrow> f a) rs)"
  by (induction rs) (auto simp: ok_results_def split: sum.splits)

lemma store_Get_id: "store_Get lib os d i = Inr t \<Longrightarrow> t_id t = i \<and> task_validate (tl_lower lib) t = None"
  by (auto simp: store_Get_def store_get_def decode_task_def Let_def task_validate_def
      split: option.splits sum.splits)

lemma set_ok_results: "set (ok_results rs) = {a. Inr a \<in> set rs}"
  by (force simp: ok_results_def split: sum.splits)

text \<open>
  A listing hides nothing: every visible task file is listed once, as a valid task or as a
  diagnostic with the error reading it gives, and the tasks come in inventory order.
\<close>

lemma listing_complete:
  assumes "list_with_diagnostics lib os d = Inr (ts, ds)"
  shows "mset (map t_id ts @ map fst ds) = mset (visible d) \<and>
    sorted_wrt (\<lambda>t u. \<not> task_less u t) ts \<and>
    (\<forall>t \<in> set ts. store_Get lib os d (t_id t) = Inr t \<and> task_validate (tl_lower lib) t = None) \<and>
    (\<forall>(i, e) \<in> set ds. store_Get lib os d i = Inl e)"
proof -
  let ?rs = "map (\<lambda>i. (i, store_Get lib os d i)) (visible d)"
  from assms have ts: "ts = sort_tasks (ok_results (map snd ?rs))" and ds: "ds = diagnostics_of ?rs"
    by (auto simp: list_with_diagnostics_def Let_def split: if_splits)
  have "mset (map t_id ts) + mset (map fst ds) =
      mset (map (\<lambda>(i, r). case r of Inl _ \<Rightarrow> i | Inr a \<Rightarrow> t_id a) ?rs)"
    unfolding ts ds sort_tasks_def diagnostics_of_def
    using ok_results_mset [of t_id ?rs] by simp
  also have "map (\<lambda>(i, r). case r of Inl _ \<Rightarrow> i | Inr a \<Rightarrow> t_id a) ?rs = visible d"
    by (auto intro!: map_idI simp: comp_def dest: store_Get_id split: sum.splits)
  finally have m: "mset (map t_id ts @ map fst ds) = mset (visible d)" by simp
  have "sorted (map task_key ts)" by (simp add: ts sort_tasks_def)
  then have "sorted_wrt (\<lambda>t u. \<not> task_less u t) ts"
    by (simp add: sorted_map task_less_key not_less)
  moreover have "\<forall>t \<in> set ts. store_Get lib os d (t_id t) = Inr t \<and> task_validate (tl_lower lib) t = None"
    by (auto simp: ts sort_tasks_def set_ok_results dest!: sym [of "Inr _"] dest: store_Get_id)
  moreover have "\<forall>(i, e) \<in> set ds. store_Get lib os d i = Inl e"
    by (auto simp: ds diagnostics_of_def split: sum.splits)
  ultimately show ?thesis using m by blast
qed

section \<open>Lookups\<close>

lemma find_first:
  "List.find P xs = Some x \<Longrightarrow> \<exists>pre post. xs = pre @ x # post \<and> P x \<and> (\<forall>y \<in> set pre. \<not> P y)"
  by (induction xs) (force split: if_splits intro: exI [of _ "_ # _"] exI [of _ "[]"])+

text \<open>
  What a loose reference resolves to: the first listed task with exactly that identifier or
  branch; without one, the only listed task that contains the reference, case-insensitively, in
  its identifier, name, branch or repository. With several such tasks the result names them all,
  and an exact branch shared by several tasks is never reported as ambiguous.
\<close>

lemma resolve_finds:
  assumes "store_list lib os d = Inr ts" and "ref \<noteq> []"
  shows "case store_resolve lib os ref d of
      Inr t \<Rightarrow> (\<exists>pre post. ts = pre @ t # post \<and> (t_id t = ref \<or> t_branch t = ref) \<and>
          (\<forall>u \<in> set pre. t_id u \<noteq> ref \<and> t_branch u \<noteq> ref)) \<or>
        ((\<forall>u \<in> set ts. t_id u \<noteq> ref \<and> t_branch u \<noteq> ref) \<and>
          filter (\<lambda>u. contains_str (task_hay (tl_lower lib) u) (to_lower (tl_lower lib) ref)) ts = [t])
    | Inl (TAmbiguous ids) \<Rightarrow> 2 \<le> length ids \<and> (\<forall>u \<in> set ts. t_id u \<noteq> ref \<and> t_branch u \<noteq> ref) \<and>
        ids = map t_id (filter (\<lambda>u. contains_str (task_hay (tl_lower lib) u) (to_lower (tl_lower lib) ref)) ts)
    | Inl e \<Rightarrow> e = TNotFound \<and>
        (\<forall>u \<in> set ts. \<not> contains_str (task_hay (tl_lower lib) u) (to_lower (tl_lower lib) ref))"
proof (cases "List.find (\<lambda>t. t_id t = ref \<or> t_branch t = ref) ts")
  case (Some t)
  from find_first [OF this] Some assms show ?thesis by (auto simp: store_resolve_def resolve_in_def)
next
  case None
  then have none: "\<forall>u \<in> set ts. t_id u \<noteq> ref \<and> t_branch u \<noteq> ref" by (auto simp: find_None_iff)
  let ?hits = "filter (\<lambda>u. contains_str (task_hay (tl_lower lib) u) (to_lower (tl_lower lib) ref)) ts"
  have res: "store_resolve lib os ref d =
      (case ?hits of [] \<Rightarrow> Inl TNotFound | [t] \<Rightarrow> Inr t | hits \<Rightarrow> Inl (TAmbiguous (map t_id hits)))"
    using assms None by (simp add: store_resolve_def resolve_in_def)
  consider (zero) "?hits = []" | (one) t where "?hits = [t]" | (many) t u us where "?hits = t # u # us"
    by (metis list.exhaust)
  then show ?thesis
  proof cases
    case zero
    then have "\<forall>u \<in> set ts. \<not> contains_str (task_hay (tl_lower lib) u) (to_lower (tl_lower lib) ref)"
      by (simp add: filter_empty_conv)
    with res zero show ?thesis by simp
  next
    case one
    with res none show ?thesis by simp
  next
    case many
    with res none show ?thesis by simp
  qed
qed

lemma best_match_spec:
  assumes "n = (case best of None \<Rightarrow> 0 | Some b \<Rightarrow> length (task_root b))"
    and "\<forall>b \<in> set_option best. under_root dir (task_root b)"
  shows "case best_match dir (best, n) ts of
      None \<Rightarrow> best = None \<and> (\<forall>t \<in> set ts. \<not> under_root dir (task_root t))
    | Some t \<Rightarrow> (t \<in> set ts \<or> best = Some t) \<and> under_root dir (task_root t) \<and>
        (\<forall>u \<in> set ts \<union> set_option best. under_root dir (task_root u) \<longrightarrow>
          length (task_root u) \<le> length (task_root t))"
  using assms
proof (induction ts arbitrary: best n)
  case Nil
  then show ?case by (cases best) auto
next
  case (Cons t ts)
  show ?case
  proof (cases "under_root dir (task_root t) \<and> n < length (task_root t)")
    case True
    with Cons.IH [of "length (task_root t)" "Some t"] Cons.prems show ?thesis
      by (fastforce split: option.splits)
  next
    case False
    have pos: "under_root dir (task_root t) \<Longrightarrow> 0 < length (task_root t)" by (simp add: under_root_def)
    from False Cons.prems have "under_root dir (task_root t) \<Longrightarrow>
        \<exists>b. best = Some b \<and> under_root dir (task_root b) \<and> length (task_root t) \<le> length (task_root b)"
      using pos by (cases best) auto
    with False Cons.IH [OF Cons.prems] show ?thesis
      by (auto split: option.splits)
  qed
qed

text \<open>
  The task of a directory is the one whose checkout (its worktree, or its repository when it
  has none) contains the directory most closely: no other listed task's checkout that contains
  it is longer. It is missing only when no listed checkout contains the directory.
\<close>

lemma find_by_worktree_longest:
  assumes "store_list lib os d = Inr ts"
  shows "case find_by_worktree lib os dir d of
      Inr t \<Rightarrow> t \<in> set ts \<and> under_root dir (task_root t) \<and>
        (\<forall>u \<in> set ts. under_root dir (task_root u) \<longrightarrow> length (task_root u) \<le> length (task_root t))
    | Inl e \<Rightarrow> e = TNotFound \<and> (\<forall>u \<in> set ts. \<not> under_root dir (task_root u))"
  using best_match_spec [of 0 None dir ts] assms
  by (simp add: find_by_worktree_def split: option.splits)

section \<open>States as text\<close>

lemma parse_upper_hot: "parse_state lower ''HOT'' = Some state_hot"
proof -
  have "ascii_lower CHR ''H'' = CHR ''h''" "ascii_lower CHR ''O'' = CHR ''o''" "ascii_lower CHR ''T'' = CHR ''t''"
    by code_simp+
  then show ?thesis
    by (simp add: parse_state_def trim_space_def space_encodings_def trim_with.simps to_lower_def
        all_states_def)
qed

lemma parse_hot: "parse_state lower state_hot = Some state_hot"
  by (simp add: parse_state_def trim_space_def space_encodings_def trim_with.simps to_lower_def
      ascii_lower_def all_states_def char_class_defs)

text \<open>
  Validation accepts a state that is only a spelling of a state name, and keeps it as it is:
  a record with state HOT is valid exactly when the same record with state hot is, but it is in
  none of the four states, so the listing ranks it after every DONE task.
\<close>

lemma validate_keeps_state_spelling:
  "task_validate lower (t\<lparr>t_state := ''HOT''\<rparr>) = task_validate lower (t\<lparr>t_state := state_hot\<rparr>) \<and>
    ''HOT'' \<notin> set all_states \<and> state_rank state_done < state_rank ''HOT''"
  by (simp add: task_validate_def parse_upper_hot parse_hot all_states_def state_rank_def)

end
