(* ===== verification/TaskDemo.thy ===== *)
theory TaskDemo
  imports TaskProps
begin

text \<open>
  A concrete task store, evaluated in the kernel: a codec that stores the note of a task, and a
  directory with one record. It shows that the hypotheses of the task properties hold somewhere.
\<close>

definition demo_task :: task where
  "demo_task = \<lparr>t_id = ''a'', t_name = [], t_repo = ''r'', t_repo_path = ''/r'', t_branch = ''b'', t_base = [],
    t_worktree = [], t_mode = [], t_state = state_hot, t_owner = [], t_next = [], t_note = ''x'', t_tags = [],
    t_agent_session = [], t_runtime_handle = [], t_runtime_name = [],
    t_created = zero_time, t_updated = zero_time, t_stored_revision = []\<rparr>"

definition demo_tasks :: task_lib where
  "demo_tasks = \<lparr>tl_sha256 = id, tl_encode = (\<lambda>t. Some (t_note t)),
    tl_decode = (\<lambda>b. Some (demo_task\<lparr>t_id := [], t_note := b\<rparr>)), tl_lower = id\<rparr>"

definition demo_dir :: task_dir where
  "demo_dir = [(task_file ''a'', EFile ''x'')]"

abbreviation all_ok :: task_os where
  "all_ok \<equiv> \<lambda>_. True"

lemma demo_id_valid: "validate_id ''a'' = None"
  by (simp add: valid_id_iff valid_id_pattern_def char_class_defs)

lemma demo_time: "revision_time zero_time = ''0001-01-01T00:00:00Z''"
proof -
  have "civil_date 0 = (1, 1, 1)" by code_simp
  then have "rfc3339_nano zero_time = pad_dec 4 1 @ ''-'' @ pad_dec 2 1 @ ''-'' @ pad_dec 2 1 @ ''T'' @
      pad_dec 2 0 @ '':'' @ pad_dec 2 0 @ '':'' @ pad_dec 2 0 @ ''Z''"
    by (simp add: rfc3339_nano_def Let_def zero_time_def nano_suffix_def zone_suffix_def)
  moreover have "char_of (48::nat) = CHR ''0''" "char_of (49::nat) = CHR ''1''" by code_simp+
  then have "dec_of 0 = ''0''" "dec_of 1 = ''1''" by (subst dec_of.simps, simp)+
  then have "pad_dec 4 1 = ''0001''" "pad_dec 2 1 = ''01''" "pad_dec 2 0 = ''00''"
    by (simp_all add: pad_dec_def Let_def eval_nat_numeral)
  ultimately show ?thesis by (simp add: revision_time_def time_utc_def zero_time_def)
qed

lemma demo_task_valid: "task_validate lower (demo_task\<lparr>t_id := ''a'', t_note := n\<rparr>) = None"
  by (simp add: task_validate_def demo_task_def demo_id_valid parse_state_def trim_space_def space_encodings_def trim_with.simps to_lower_def ascii_lower_def
      all_states_def checks.simps char_class_defs)

lemma demo_decode: "decode_task demo_tasks ''a'' n =
    Inr (demo_task\<lparr>t_note := n, t_stored_revision := revision demo_tasks (demo_task\<lparr>t_note := n\<rparr>)\<rparr>)"
  using demo_task_valid [of _ n] by (simp add: decode_task_def demo_tasks_def demo_task_def Let_def)

lemma revision_binds_record_witness:
  "revision demo_tasks demo_task \<noteq> revision demo_tasks (demo_task\<lparr>t_note := ''y''\<rparr>)"
proof -
  have "\<forall>s \<in> set (revision_fields (demo_task\<lparr>t_note := n\<rparr>)). length s < 2 ^ 64" if "length n < 2" for n
    using that by (simp add: revision_fields_def demo_task_def demo_time dec_of.simps)
  from this [of "''x''"] this [of "''y''"] have len: "\<forall>s \<in> set (revision_fields demo_task). length s < 2 ^ 64"
    "\<forall>s \<in> set (revision_fields (demo_task\<lparr>t_note := ''y''\<rparr>)). length s < 2 ^ 64"
    by (simp_all add: demo_task_def)
  have "\<not> same_record demo_task (demo_task\<lparr>t_note := ''y''\<rparr>)"
    by (simp add: same_record_def demo_task_def)
  with revision_binds_record [of demo_tasks demo_task "demo_task\<lparr>t_note := ''y''\<rparr>", OF _ len] show ?thesis
    by (simp add: demo_tasks_def)
qed

lemma demo_read: "read_file True demo_dir ''a'' = Inr ''x''"
  by (simp add: read_file_def demo_dir_def)

lemma demo_file_revision: "read_file True d ''a'' = Inr n \<Longrightarrow> file_revision demo_tasks d ''a'' = Some (revision_for demo_tasks ''a'' n)"
  by (simp add: file_revision_def get_record_unlocked_def demo_decode)

lemma demo_revision_for: "revision_for demo_tasks ''a'' m = revision_for demo_tasks ''a'' n \<longleftrightarrow> m = n"
  by (auto simp: revision_for_def demo_tasks_def dest: hex_bytes_inj)

definition demo_written :: task_dir where
  "demo_written = [(task_file ''a'', EFile ''y'')]"

lemma demo_read_written: "read_file True demo_written ''a'' = Inr ''y''"
  by (simp add: read_file_def demo_written_def)

lemma demo_commit: "commit_update demo_tasks demo_dir ''a'' (revision_for demo_tasks ''a'' ''x'')
    (all_ok, zero_time, demo_task\<lparr>t_note := ''y''\<rparr>) = Some demo_written"
proof -
  let ?t = "demo_task\<lparr>t_note := ''y''\<rparr>"
  have e: "demo_task\<lparr>t_note := ''y'', t_id := ''a''\<rparr> = ?t" by (simp add: demo_task_def)
  have p: "prepare_candidate (tl_lower demo_tasks) ?t True = Inr ?t"
    using demo_task_valid [of _ "''y''"] by (simp add: prepare_candidate_def Let_def demo_task_def)
  have n: "tl_encode demo_tasks (stamp_for_save zero_time ?t) = Some ''y''"
    by (simp add: demo_tasks_def stamp_for_save_def Let_def)
  have d: "dir_put (task_file ''a'') (EFile ''y'') demo_dir = demo_written"
    by (simp add: demo_dir_def demo_written_def)
  have w: "write_atomic demo_tasks all_ok (stamp_for_save zero_time ?t) demo_dir = (None, demo_written)"
    using n d by (simp add: write_atomic_def demo_task_def) (simp add: demo_dir_def)
  have r: "get_record_unlocked demo_tasks True demo_dir ''a'' =
      Inr \<lparr>tr_task = demo_task\<lparr>t_note := ''x'', t_stored_revision := revision demo_tasks (demo_task\<lparr>t_note := ''x''\<rparr>)\<rparr>,
        tr_revision = revision_for demo_tasks ''a'' ''x''\<rparr>"
    "\<exists>r. get_record_unlocked demo_tasks True demo_written ''a'' = Inr r"
    using demo_read demo_read_written by (simp_all add: get_record_unlocked_def demo_decode)
  have i: "t_id ?t = ''a''" by (simp add: demo_task_def)
  from r(2) show ?thesis
    by (auto simp: store_update_def with_task_lock_def tx_update_def e p i r(1) tx_write_def Let_def w
        simp del: first_error.simps)
qed


lemma demo_import: "import_exact demo_tasks all_ok demo_task [] = (ImportCreated, None, demo_dir)"
proof -
  have p: "prepare_candidate (tl_lower demo_tasks) demo_task False = Inr demo_task"
    using demo_task_valid [of _ "''x''"] by (simp add: prepare_candidate_def Let_def demo_task_def)
  have "write_atomic demo_tasks all_ok demo_task [] = (None, demo_dir)"
    by (simp add: write_atomic_def demo_tasks_def demo_task_def demo_dir_def)
  moreover have "store_get demo_tasks all_ok [] (t_id demo_task) = Inl TNotFound"
    by (simp add: store_get_def read_file_def)
  ultimately show ?thesis by (simp add: import_exact_def p)
qed

lemma import_idempotent_witness:
  "import_exact demo_tasks all_ok demo_task demo_dir = (ImportIdentical, None, demo_dir)"
  using import_idempotent [OF demo_import]
  by (simp add: demo_tasks_def demo_task_def same_record_def)

lemma demo_visible: "visible demo_dir = [''a'']"
  by (simp add: visible_def demo_dir_def task_file_def has_suffix_def trim_suffix_def)

lemma demo_listing: "list_with_diagnostics demo_tasks all_ok demo_dir =
    Inr ([demo_task\<lparr>t_stored_revision := revision demo_tasks demo_task\<rparr>], [])"
  using demo_read demo_decode [of "''x''"]
  by (simp add: list_with_diagnostics_def Let_def demo_visible store_Get_def demo_id_valid store_get_def
      sort_tasks_def ok_results_def diagnostics_of_def) (simp add: demo_task_def)

lemma listing_complete_witness:
  "store_Get demo_tasks all_ok demo_dir ''a'' = Inr (demo_task\<lparr>t_stored_revision := revision demo_tasks demo_task\<rparr>)"
  using listing_complete [OF demo_listing] by (simp add: demo_task_def)

lemma demo_list: "store_list demo_tasks all_ok demo_dir =
    Inr [demo_task\<lparr>t_stored_revision := revision demo_tasks demo_task\<rparr>]"
  by (simp add: store_list_def demo_listing)

lemma resolve_finds_witness:
  "\<exists>t. store_resolve demo_tasks all_ok ''b'' demo_dir = Inr t \<and> (t_id t = ''b'' \<or> t_branch t = ''b'')"
proof -
  let ?t = "demo_task\<lparr>t_stored_revision := revision demo_tasks demo_task\<rparr>"
  have b: "t_branch ?t = ''b''" by (simp add: demo_task_def)
  then have "store_resolve demo_tasks all_ok ''b'' demo_dir = Inr ?t"
    by (simp add: store_resolve_def demo_list resolve_in_def)
  with resolve_finds [OF demo_list, of "''b''"] b show ?thesis by auto
qed

lemma find_by_worktree_longest_witness:
  "\<exists>t. find_by_worktree demo_tasks all_ok ''/r/x'' demo_dir = Inr t \<and> t_id t = ''a''"
  using find_by_worktree_longest [OF demo_list, of "''/r/x''"]
  by (auto split: sum.splits simp: demo_task_def under_root_def task_root_def)

end
