(* ===== verification/FlowTypes.thy ===== *)
theory FlowTypes
  imports TaskTypes
begin

text \<open>
  \<open>internal/taskflow/types.go\<close>: the values that lifecycle planners and executors exchange.
  Fields with a stable order, actions, locators, observations, conditions, effects, and the
  aggregate availability of an action.
\<close>

section \<open>Fields\<close>

record field =
  f_key :: string
  f_value :: string

text \<open>
  A Go map is given as its entries, without repeated keys, in the order some iteration visits
  them; \<open>NewFields\<close> sorts them by key. Copies of immutable values are the values themselves.
\<close>

type_synonym fields = "field list"
type_synonym string_map = "(string \<times> string) list"

definition new_fields :: "string_map \<Rightarrow> fields" where
  "new_fields m = sort_key f_key (map (\<lambda>(k, v). \<lparr>f_key = k, f_value = v\<rparr>) m)"

definition fields_map :: "fields \<Rightarrow> string_map" where
  "fields_map fs = map (\<lambda>e. (f_key e, f_value e)) fs"

section \<open>Actions\<close>

abbreviation "park_warm \<equiv> ''park-warm''"
abbreviation "park_cold \<equiv> ''park-cold''"
abbreviation "resume \<equiv> ''resume''"
abbreviation "complete_direct \<equiv> ''complete-direct''"
abbreviation "complete_ff \<equiv> ''complete-ff''"
abbreviation "review_handoff \<equiv> ''review-handoff''"
abbreviation "verify_merged \<equiv> ''verify-merged''"
abbreviation "retire \<equiv> ''retire''"
abbreviation "adopt \<equiv> ''adopt''"
abbreviation "remove_checkout \<equiv> ''remove-checkout''"
abbreviation "refresh_remote \<equiv> ''refresh-remote''"
abbreviation "reconcile \<equiv> ''reconcile''"
abbreviation "fetch_repository \<equiv> ''fetch-repository''"
abbreviation "push_branch \<equiv> ''push-branch''"
abbreviation "fast_forward_branch \<equiv> ''fast-forward-branch''"
abbreviation "rebase_branch \<equiv> ''rebase-branch''"

definition action_order :: "string list" where
  "action_order =
    [park_warm, park_cold, resume, complete_direct, complete_ff, review_handoff, verify_merged,
     retire, adopt, remove_checkout, refresh_remote, reconcile,
     fetch_repository, push_branch, fast_forward_branch, rebase_branch]"

definition action_valid :: "string \<Rightarrow> bool" where
  "action_valid a \<longleftrightarrow> a \<in> set action_order"

record locator =
  l_repo_key :: string
  l_row_key :: string
  l_row_kind :: string
  l_repository_id :: string
  l_git_common_dir :: string
  l_task_id :: string
  l_task_revision :: string
  l_repo_path :: string
  l_checkout_path :: string
  l_branch :: string
  l_base :: string
  l_upstream :: string
  l_remote :: string
  l_head_oid :: string
  l_base_oid :: string
  l_upstream_oid :: string
  l_mode :: string
  l_state :: string

section \<open>Observations\<close>

abbreviation "observation_known \<equiv> ''known''"
abbreviation "observation_unknown \<equiv> ''unknown''"
abbreviation "observation_error \<equiv> ''error''"
abbreviation "observation_skipped \<equiv> ''skipped''"
abbreviation "observation_loading \<equiv> ''loading''"

definition observation_state_valid :: "string \<Rightarrow> bool" where
  "observation_state_valid s \<longleftrightarrow>
    s \<in> {observation_known, observation_unknown, observation_error, observation_skipped, observation_loading}"

record observation =
  o_state :: string
  o_value :: string
  o_evidence :: string
  o_failure :: string
  o_observed_at :: gotime
  o_attributes :: fields

definition new_observation :: "string \<Rightarrow> string \<Rightarrow> string \<Rightarrow> string \<Rightarrow> gotime \<Rightarrow> string_map \<Rightarrow> observation" where
  "new_observation state v evidence failure observed_at attributes =
    \<lparr>o_state = state, o_value = v, o_evidence = evidence, o_failure = failure,
     o_observed_at = observed_at, o_attributes = new_fields attributes\<rparr>"

section \<open>Conditions\<close>

abbreviation "verdict_met \<equiv> ''met''"
abbreviation "verdict_needs_input \<equiv> ''needs-input''"
abbreviation "verdict_blocked \<equiv> ''blocked''"
abbreviation "verdict_unknown \<equiv> ''unknown''"
abbreviation "verdict_error \<equiv> ''error''"
abbreviation "verdict_unsupported \<equiv> ''unsupported''"
abbreviation "verdict_current \<equiv> ''current''"

abbreviation "requirement_required \<equiv> ''required''"
abbreviation "requirement_advisory \<equiv> ''advisory''"

record condition =
  c_code :: string
  c_verdict :: string
  c_requirement :: string
  c_evidence :: string
  c_remediation :: string

text \<open>Every error of the validators below is a plain one; only where it stops matters.\<close>

definition stable_code :: "string \<Rightarrow> bool" where
  \<comment> \<open>\<open>^[a-z0-9]+(?:[._-][a-z0-9]+)*$\<close>\<close>
  "stable_code s = (case s of [] \<Rightarrow> False | c # s' \<Rightarrow> is_code_char c \<and> code_tail ''._-'' s')"

definition condition_ok :: "condition \<Rightarrow> bool" where
  "condition_ok c \<longleftrightarrow> stable_code (c_code c) \<and>
    c_verdict c \<in> {verdict_met, verdict_needs_input, verdict_blocked, verdict_unknown,
      verdict_error, verdict_unsupported, verdict_current} \<and>
    c_requirement c \<in> {requirement_required, requirement_advisory}"

definition condition_from_observation :: "string \<Rightarrow> string \<Rightarrow> observation \<Rightarrow> string \<Rightarrow> condition" where
  "condition_from_observation code requirement obs remediation =
    (let verdict =
       (if o_state obs = observation_known then verdict_met
        else if o_state obs = observation_error then verdict_error
        else if o_state obs \<in> {observation_unknown, observation_skipped, observation_loading} then verdict_unknown
        else verdict_error);
       evidence =
       (if o_evidence obs \<noteq> [] then o_evidence obs
        else if o_failure obs \<noteq> [] then o_failure obs
        else if o_value obs \<noteq> [] then o_value obs
        else o_state obs)
     in \<lparr>c_code = code, c_verdict = verdict, c_requirement = requirement,
         c_evidence = evidence, c_remediation = remediation\<rparr>)"

section \<open>Availability\<close>

datatype availability =
    Ready | NeedsInput | Blocked | Unknown | AvError | Unsupported | Current

fun av_priority :: "availability \<Rightarrow> nat" where
  "av_priority AvError = 6"
| "av_priority Blocked = 5"
| "av_priority NeedsInput = 4"
| "av_priority Unknown = 3"
| "av_priority Unsupported = 2"
| "av_priority Current = 1"
| "av_priority Ready = 0"

text \<open>The priorities make the values a linear order, the worst one greatest.\<close>

lemma av_priority_inject [simp]: "(av_priority a = av_priority b) = (a = b)"
  by (cases a; cases b) simp_all

instantiation availability :: linorder
begin

definition less_eq_availability :: "availability \<Rightarrow> availability \<Rightarrow> bool" where
  "a \<le> b \<longleftrightarrow> av_priority a \<le> av_priority b"

definition less_availability :: "availability \<Rightarrow> availability \<Rightarrow> bool" where
  "a < b \<longleftrightarrow> av_priority a < av_priority b"

instance
  by standard (auto simp: less_eq_availability_def less_availability_def)

end

lemmas availability_order = less_eq_availability_def less_availability_def

definition candidate_availability :: "condition \<Rightarrow> availability" where
  "candidate_availability c =
    (if c_requirement c \<noteq> requirement_required then AvError
     else if c_verdict c = verdict_met then Ready
     else if c_verdict c = verdict_needs_input then NeedsInput
     else if c_verdict c = verdict_blocked then Blocked
     else if c_verdict c = verdict_unknown then Unknown
     else if c_verdict c = verdict_error then AvError
     else if c_verdict c = verdict_unsupported then Unsupported
     else if c_verdict c = verdict_current then Current
     else AvError)"

text \<open>
  The loop of \<open>AvailabilityFor\<close>: an advisory condition, and a required one that is met, leave
  the availability as it is.
\<close>

fun availability_loop :: "availability \<Rightarrow> condition list \<Rightarrow> availability" where
  "availability_loop a [] = a"
| "availability_loop a (c # cs) =
    (if c_requirement c = requirement_advisory then availability_loop a cs
     else if c_requirement c = requirement_required \<and> c_verdict c = verdict_met then availability_loop a cs
     else (let candidate = candidate_availability c
           in availability_loop (if av_priority a < av_priority candidate then candidate else a) cs))"

definition availability_for :: "condition list \<Rightarrow> availability" where
  "availability_for cs = availability_loop Ready cs"

section \<open>Effects\<close>

record effect =
  e_code :: string
  e_description :: string
  e_target :: string
  e_destructive :: bool
  e_network :: bool
  e_details :: fields

definition new_effect :: "string \<Rightarrow> string \<Rightarrow> string \<Rightarrow> bool \<Rightarrow> bool \<Rightarrow> string_map \<Rightarrow> effect" where
  "new_effect code description target destructive network details =
    \<lparr>e_code = code, e_description = description, e_target = target,
     e_destructive = destructive, e_network = network, e_details = new_fields details\<rparr>"

definition effect_ok :: "effect \<Rightarrow> bool" where
  "effect_ok e \<longleftrightarrow> stable_code (e_code e) \<and> (\<forall>f \<in> set (e_details e). trim_space (f_key f) \<noteq> [])"

section \<open>What availability means\<close>

text \<open>The conditions that count, and how badly.\<close>

definition counted :: "condition list \<Rightarrow> condition list" where
  "counted cs = filter (\<lambda>c. c_requirement c \<noteq> requirement_advisory) cs"

lemma Ready_least [simp]: "Ready \<le> a"
  by (simp add: less_eq_availability_def)

lemma availability_loop_Max:
  "availability_loop a cs = Max (insert a (candidate_availability ` set (counted cs)))"
proof (induction cs arbitrary: a)
  case (Cons c cs)
  let ?rest = "candidate_availability ` set (counted cs)"
  consider (advisory) "c_requirement c = requirement_advisory"
    | (met) "c_requirement c = requirement_required" "c_verdict c = verdict_met"
    | (other) "c_requirement c \<noteq> requirement_advisory"
        "\<not> (c_requirement c = requirement_required \<and> c_verdict c = verdict_met)"
    by blast
  then show ?case
  proof cases
    case advisory
    then show ?thesis by (simp add: Cons.IH counted_def)
  next
    case met
    then have "Max (insert a (insert Ready ?rest)) = Max (insert a ?rest)"
      by (cases "?rest = {}") (simp_all add: max_def insert_commute [of a])
    with met show ?thesis by (simp add: Cons.IH counted_def candidate_availability_def)
  next
    case other
    have "(if av_priority a < av_priority (candidate_availability c) then candidate_availability c else a) =
        max a (candidate_availability c)"
      by (auto simp: max_def availability_order)
    with other have "availability_loop a (c # cs) = availability_loop (max a (candidate_availability c)) cs"
      by (simp add: Let_def) argo
    also have "\<dots> = Max (insert (max a (candidate_availability c)) ?rest)" by (rule Cons.IH)
    also have "\<dots> = Max (insert a (insert (candidate_availability c) ?rest))"
      by (cases "?rest = {}") (simp_all add: max.assoc)
    also have "insert (candidate_availability c) ?rest = candidate_availability ` set (counted (c # cs))"
      using other by (simp add: counted_def)
    finally show ?thesis .
  qed
qed (simp add: counted_def)

lemma availability_for_Max:
  "availability_for cs = Max (insert Ready (candidate_availability ` set (counted cs)))"
  by (simp add: availability_for_def availability_loop_Max)

lemma candidate_Ready_iff:
  "candidate_availability c = Ready \<longleftrightarrow> c_requirement c = requirement_required \<and> c_verdict c = verdict_met"
  by (auto simp: candidate_availability_def)

lemma availability_ge: "c \<in> set (counted cs) \<Longrightarrow> candidate_availability c \<le> availability_for cs"
  unfolding availability_for_Max by (intro Max_ge) auto

lemma availability_mem: "availability_for cs \<in> insert Ready (candidate_availability ` set (counted cs))"
  unfolding availability_for_Max by (rule Max_in) simp_all

lemma availability_Ready_iff:
  "availability_for cs = Ready \<longleftrightarrow>
    (\<forall>c \<in> set cs. c_requirement c = requirement_advisory \<or>
      (c_requirement c = requirement_required \<and> c_verdict c = verdict_met))"
proof -
  have "availability_for cs = Ready \<longleftrightarrow> (\<forall>c \<in> set (counted cs). candidate_availability c = Ready)"
    using availability_ge availability_mem [of cs] by (metis Ready_least image_iff insertE order.antisym)
  then show ?thesis by (auto simp: candidate_Ready_iff counted_def)
qed

text \<open>
  An action is ready exactly when every condition that is not advisory is a required one that
  is met; otherwise its availability is the worst among them, and never depends on the order of
  the conditions, on repetitions or on advisory ones.
\<close>

lemma availability_worst:
  "(availability_for cs = Ready \<longleftrightarrow>
     (\<forall>c \<in> set cs. c_requirement c = requirement_advisory \<or>
       (c_requirement c = requirement_required \<and> c_verdict c = verdict_met))) \<and>
   (\<forall>c \<in> set cs. c_requirement c = requirement_advisory \<or> candidate_availability c \<le> availability_for cs) \<and>
   (availability_for cs = Ready \<or>
     (\<exists>c \<in> set cs. c_requirement c \<noteq> requirement_advisory \<and> availability_for cs = candidate_availability c)) \<and>
   (\<forall>ds. set (counted ds) = set (counted cs) \<longrightarrow> availability_for ds = availability_for cs)"
proof -
  have "\<forall>c \<in> set cs. c_requirement c = requirement_advisory \<or> candidate_availability c \<le> availability_for cs"
    using availability_ge by (auto simp: counted_def)
  moreover have "availability_for cs = Ready \<or>
     (\<exists>c \<in> set cs. c_requirement c \<noteq> requirement_advisory \<and> availability_for cs = candidate_availability c)"
    using availability_mem [of cs] by (auto simp: counted_def)
  moreover have "\<forall>ds. set (counted ds) = set (counted cs) \<longrightarrow> availability_for ds = availability_for cs"
    by (simp add: availability_for_Max)
  ultimately show ?thesis using availability_Ready_iff by blast
qed

end
