(* ===== verification/Transitions.thy ===== *)
theory Transitions
  imports FlowTypes
begin

text \<open>
  \<open>internal/taskflow/transitions.go\<close>: the table of every mode, state and action, how it is
  built, and the graph of task lives it spans.
\<close>

section \<open>The table\<close>

abbreviation (input) "milestone_none \<equiv> ''''"
abbreviation "milestone_adopted \<equiv> ''adopted''"
abbreviation "milestone_review_ready \<equiv> ''review-ready''"
abbreviation "milestone_merged \<equiv> ''merged''"
abbreviation "milestone_retired \<equiv> ''retired''"
abbreviation "milestone_reconciled \<equiv> ''reconciled''"

record transition_rule =
  r_mode :: string
  r_source :: string
  r_action :: string
  r_target :: string
  r_allowed :: bool
  r_preserving :: bool
  r_removes :: bool
  r_milestone :: string
  r_reason :: string

definition has_target :: "transition_rule \<Rightarrow> bool" where
  "has_target r \<longleftrightarrow> r_allowed r \<and> r_target r \<noteq> []"

type_synonym transition_key = "string \<times> string \<times> string"

definition mode_order :: "string list" where
  "mode_order = [mode_worktree, mode_branch, mode_direct]"

definition state_order :: "string list" where
  "state_order = [state_hot, state_warm, state_cold, state_done]"

definition transition_action_order :: "string list" where
  "transition_action_order =
    [park_warm, park_cold, resume, complete_direct, complete_ff, review_handoff, verify_merged, retire]"

definition is_transition_action :: "string \<Rightarrow> bool" where
  "is_transition_action a \<longleftrightarrow> a \<in> set transition_action_order"

definition valid_mode :: "string \<Rightarrow> bool" where
  "valid_mode m \<longleftrightarrow> m \<in> set mode_order"

definition valid_state :: "string \<Rightarrow> bool" where
  "valid_state s \<longleftrightarrow> s \<in> set state_order"

text \<open>The reasons are messages; the model keeps which of them is given.\<close>

definition denied_reason :: "string \<Rightarrow> string \<Rightarrow> string \<Rightarrow> string" where
  "denied_reason m s a =
    (if m = mode_direct \<and> s = state_cold then ''direct tasks cannot be COLD''
     else if a = park_cold \<and> m = mode_direct then
       ''direct tasks use the canonical checkout and cannot be parked COLD''
     else if s = state_done then ''DONE tasks can only be retired through the persisted lifecycle graph''
     else if s = state_cold then ''COLD tasks must resume before any completion or review action''
     else if a = complete_direct \<and> m \<noteq> mode_direct then ''direct completion is only valid for direct tasks''
     else if a \<in> {complete_ff, review_handoff, verify_merged} \<and> m = mode_direct then
       ''direct tasks have no separate branch to integrate or hand off''
     else ''the edge is not in the approved lifecycle graph'')"

definition denied_rule :: "string \<Rightarrow> string \<Rightarrow> string \<Rightarrow> transition_rule" where
  "denied_rule m s a =
    \<lparr>r_mode = m, r_source = s, r_action = a, r_target = [], r_allowed = False, r_preserving = False,
     r_removes = False, r_milestone = milestone_none, r_reason = denied_reason m s a\<rparr>"

definition all_cells :: "transition_key list" where
  "all_cells = concat (map (\<lambda>m. concat (map (\<lambda>s. map (\<lambda>a. (m, s, a)) transition_action_order) state_order)) mode_order)"

type_synonym transition_table = "transition_key \<rightharpoonup> transition_rule"

definition allow :: "string \<Rightarrow> string \<times> string \<times> string \<times> bool \<times> bool \<times> string \<Rightarrow> transition_table \<Rightarrow> transition_table" where
  "allow m edge table =
    (case edge of (s, a, target, preserving, removes, milestone) \<Rightarrow>
      table((m, s, a) \<mapsto>
        \<lparr>r_mode = m, r_source = s, r_action = a, r_target = target, r_allowed = True,
         r_preserving = preserving, r_removes = removes, r_milestone = milestone, r_reason = []\<rparr>))"

definition checkout_edges :: "(string \<times> string \<times> string \<times> bool \<times> bool \<times> string) list" where
  \<comment> \<open>the loop over the worktree and branch modes\<close>
  "checkout_edges =
    [(state_hot, park_warm, state_warm, False, False, milestone_none),
     (state_warm, park_warm, state_warm, True, False, milestone_none),
     (state_hot, park_cold, state_cold, False, False, milestone_none),
     (state_warm, park_cold, state_cold, False, False, milestone_none),
     (state_warm, resume, state_hot, False, False, milestone_none),
     (state_cold, resume, state_hot, False, False, milestone_none),
     (state_hot, complete_ff, state_done, False, False, milestone_merged),
     (state_warm, complete_ff, state_done, False, False, milestone_merged),
     (state_hot, verify_merged, state_done, False, False, milestone_merged),
     (state_warm, verify_merged, state_done, False, False, milestone_merged),
     (state_hot, review_handoff, state_hot, True, False, milestone_review_ready),
     (state_warm, review_handoff, state_warm, True, False, milestone_review_ready),
     (state_done, retire, [], False, True, milestone_retired)]"

definition direct_edges :: "(string \<times> string \<times> string \<times> bool \<times> bool \<times> string) list" where
  "direct_edges =
    [(state_hot, park_warm, state_warm, False, False, milestone_none),
     (state_warm, park_warm, state_warm, True, False, milestone_none),
     (state_warm, resume, state_hot, False, False, milestone_none),
     (state_hot, complete_direct, state_done, False, False, milestone_merged),
     (state_warm, complete_direct, state_done, False, False, milestone_merged),
     (state_done, retire, [], False, True, milestone_retired)]"

definition build_transition_table :: transition_table where
  "build_transition_table =
    (let table = fold (\<lambda>(m, s, a) t. t((m, s, a) \<mapsto> denied_rule m s a)) all_cells Map.empty;
         table = fold (\<lambda>m t. fold (allow m) checkout_edges t) [mode_worktree, mode_branch] table
     in fold (allow mode_direct) direct_edges table)"

definition transitions :: "transition_rule list" where
  "transitions = map (\<lambda>k. the (build_transition_table k)) all_cells"

definition lookup_transition :: "string \<Rightarrow> string \<Rightarrow> string \<Rightarrow> transition_rule option" where
  "lookup_transition m s a =
    (if \<not> valid_mode m \<or> \<not> valid_state s \<or> \<not> is_transition_action a then None
     else build_transition_table (m, s, a))"

definition unknown_rule :: "string \<Rightarrow> string \<Rightarrow> string \<Rightarrow> transition_rule" where
  "unknown_rule m s a = (denied_rule m s a)\<lparr>r_reason := ''unknown mode, state, or non-transition action''\<rparr>"

text \<open>\<open>Inl\<close> is the rule of an \<open>InvalidTransitionError\<close>.\<close>

definition require_transition :: "string \<Rightarrow> string \<Rightarrow> string \<Rightarrow> transition_rule + transition_rule" where
  "require_transition m s a =
    (case lookup_transition m s a of None \<Rightarrow> Inl (unknown_rule m s a)
     | Some r \<Rightarrow> if r_allowed r then Inr r else Inl r)"

section \<open>What the table says\<close>

text \<open>
  The lifecycle in a sentence each: parking WARM keeps the checkout and starts from HOT or WARM;
  parking COLD and the integrating completions need a checkout mode; only COLD and WARM resume;
  only DONE retires. The value is the target state, or no state for a retired task.
\<close>

definition edge_target :: "string \<Rightarrow> string \<Rightarrow> string \<Rightarrow> string option" where
  "edge_target m s a =
    (let live = s \<in> {state_hot, state_warm}; checkout = m \<in> {mode_worktree, mode_branch}
     in if a = park_warm \<and> live then Some state_warm
        else if a = park_cold \<and> live \<and> checkout then Some state_cold
        else if a = resume \<and> (s = state_warm \<or> (s = state_cold \<and> checkout)) then Some state_hot
        else if a = complete_direct \<and> live \<and> m = mode_direct then Some state_done
        else if a \<in> {complete_ff, verify_merged} \<and> live \<and> checkout then Some state_done
        else if a = review_handoff \<and> live \<and> checkout then Some s
        else if a = retire \<and> s = state_done then Some []
        else None)"

lemma in_all_cells: "valid_mode m \<Longrightarrow> valid_state s \<Longrightarrow> is_transition_action a \<Longrightarrow> (m, s, a) \<in> set all_cells"
  by (auto simp: all_cells_def valid_mode_def valid_state_def is_transition_action_def)

text \<open>A lookup sees the last edge of its mode that was allowed, or the denied cell.\<close>

definition allowed_rule :: "string \<Rightarrow> string \<times> string \<times> string \<times> bool \<times> bool \<times> string \<Rightarrow> transition_rule" where
  "allowed_rule m edge = the (allow m edge Map.empty (m, fst edge, fst (snd edge)))"

lemma allow_apply:
  "allow m e t (m', s, a) =
    (if m' = m \<and> fst e = s \<and> fst (snd e) = a then Some (allowed_rule m e) else t (m', s, a))"
  by (cases e) (auto simp: allow_def allowed_rule_def)

lemma fold_allow:
  "fold (allow m) es t (m', s, a) =
    (if m' \<noteq> m then t (m', s, a)
     else (case List.find (\<lambda>e. fst e = s \<and> fst (snd e) = a) (rev es) of
         Some e \<Rightarrow> Some (allowed_rule m e) | None \<Rightarrow> t (m', s, a)))"
  by (induction es rule: rev_induct) (auto simp: allow_apply)

lemma fold_denied:
  "fold (\<lambda>(m, s, a) t. t((m, s, a) \<mapsto> denied_rule m s a)) ks t (m, s, a) =
    (if (m, s, a) \<in> set ks then Some (denied_rule m s a) else t (m, s, a))"
  by (induction ks arbitrary: t) (auto split: if_splits)

definition edges_of :: "string \<Rightarrow> (string \<times> string \<times> string \<times> bool \<times> bool \<times> string) list" where
  "edges_of m = (if m = mode_direct then direct_edges else checkout_edges)"

definition edge_at :: "string \<Rightarrow> string \<Rightarrow> string \<Rightarrow> (string \<times> string \<times> string \<times> bool \<times> bool \<times> string) option" where
  "edge_at m s a = List.find (\<lambda>e. fst e = s \<and> fst (snd e) = a) (rev (edges_of m))"

lemma table_lookup:
  assumes "valid_mode m" and "valid_state s" and "is_transition_action a"
  shows "build_transition_table (m, s, a) =
    Some (case edge_at m s a of Some e \<Rightarrow> allowed_rule m e | None \<Rightarrow> denied_rule m s a)"
  using assms in_all_cells [OF assms]
  by (auto simp: build_transition_table_def Let_def fold_allow fold_denied edges_of_def valid_mode_def
      mode_order_def edge_at_def split: option.splits)

definition cell_ok :: "transition_key \<Rightarrow> bool" where
  "cell_ok k =
    (case k of (m, s, a) \<Rightarrow> (case edge_at m s a of
        None \<Rightarrow> edge_target m s a = None
      | Some (_, _, t, preserving, removes, milestone) \<Rightarrow>
          edge_target m s a = Some t \<and> preserving = (t = s) \<and> removes = (a = retire)))"

lemma all_cells_ok: "list_all cell_ok all_cells"
  by code_simp

lemma in_all_cells_iff: "(m, s, a) \<in> set all_cells \<longleftrightarrow> valid_mode m \<and> valid_state s \<and> is_transition_action a"
  by (auto simp: all_cells_def valid_mode_def valid_state_def is_transition_action_def)

lemma edge_target_known: "edge_target m s a = Some t \<Longrightarrow> valid_state s \<and> is_transition_action a"
  by (auto simp: edge_target_def Let_def valid_state_def state_order_def is_transition_action_def
      transition_action_order_def split: if_splits)

lemma lookup_cell:
  assumes "valid_mode m" and "valid_state s" and "is_transition_action a"
  shows "\<exists>r. lookup_transition m s a = Some r \<and> r_mode r = m \<and> r_source r = s \<and> r_action r = a \<and>
    (case edge_target m s a of
       None \<Rightarrow> r = denied_rule m s a
     | Some t \<Rightarrow> r_allowed r \<and> r_target r = t \<and> r_preserving r = (t = s) \<and> r_removes r = (a = retire))"
proof -
  from all_cells_ok in_all_cells [OF assms] have ok: "cell_ok (m, s, a)" by (simp add: list_all_iff)
  show ?thesis
  proof (cases "edge_at m s a")
    case None
    with ok assms show ?thesis by (simp add: lookup_transition_def table_lookup cell_ok_def denied_rule_def)
  next
    case (Some e)
    then have "fst e = s" "fst (snd e) = a" by (auto simp: edge_at_def find_Some_iff)
    with Some ok assms show ?thesis
      by (cases e) (auto simp: lookup_transition_def table_lookup cell_ok_def allowed_rule_def allow_def)
  qed
qed

lemma require_transition_iff:
  assumes "valid_mode m"
  shows "(\<exists>r. require_transition m s a = Inr r) \<longleftrightarrow> edge_target m s a \<noteq> None"
proof (cases "valid_state s \<and> is_transition_action a")
  case True
  with lookup_cell [of m s a] assms obtain r where r: "lookup_transition m s a = Some r"
    "case edge_target m s a of None \<Rightarrow> r = denied_rule m s a | Some t \<Rightarrow> r_allowed r"
    by (auto split: option.splits)
  have "\<not> r_allowed (denied_rule m s a)" by (simp add: denied_rule_def)
  with r show ?thesis by (cases "edge_target m s a") (auto simp: require_transition_def)
next
  case False
  then show ?thesis using edge_target_known [of m s a]
    by (cases "edge_target m s a") (auto simp: require_transition_def lookup_transition_def)
qed

lemma require_transition_rule:
  assumes "require_transition m s a = Inr r"
  shows "valid_mode m \<and> valid_state s \<and> is_transition_action a \<and> r_mode r = m \<and> r_source r = s \<and>
    r_action r = a \<and> edge_target m s a = Some (r_target r) \<and> r_preserving r = (r_target r = s) \<and>
    r_removes r = (a = retire)"
proof -
  from assms have known: "valid_mode m" "valid_state s" "is_transition_action a"
    by (auto simp: require_transition_def lookup_transition_def split: option.splits if_splits)
  from assms have r: "lookup_transition m s a = Some r" "r_allowed r"
    by (auto simp: require_transition_def split: option.splits if_splits)
  have "\<not> r_allowed (denied_rule m s a)" by (simp add: denied_rule_def)
  with r lookup_cell [OF known] known show ?thesis
    by (cases "edge_target m s a") auto
qed

text \<open>
  C21: The table is exactly the approved lifecycle: for a known mode, an edge is allowed when and
  only when the lifecycle has it, and then it carries the target state, is marked as preserving
  exactly when the target is the source, and removes the task exactly when it retires it; no
  edge is allowed for an unknown mode. Every cell of the three modes, four states and eight
  actions has a rule.
\<close>

theorem transition_table_exact:
  "(case require_transition m s a of
      Inr r \<Rightarrow> valid_mode m \<and> r_mode r = m \<and> r_source r = s \<and> r_action r = a \<and>
        edge_target m s a = Some (r_target r) \<and> r_preserving r = (r_target r = s) \<and>
        r_removes r = (a = retire)
    | Inl r \<Rightarrow> \<not> (valid_mode m \<and> edge_target m s a \<noteq> None)) \<and>
   (lookup_transition m s a \<noteq> None) = (valid_mode m \<and> valid_state s \<and> is_transition_action a)"
proof -
  have "(lookup_transition m s a \<noteq> None) = (valid_mode m \<and> valid_state s \<and> is_transition_action a)"
    using lookup_cell [of m s a] by (auto simp: lookup_transition_def)
  then show ?thesis
    using require_transition_rule [of m s a] require_transition_iff [of m s a]
    by (auto split: sum.splits)
qed

section \<open>Lives of a task\<close>

text \<open>
  The states a task passes through by allowed edges: its record is in some state, or removed
  (\<open>None\<close>) once retired.
\<close>

inductive task_step :: "string \<Rightarrow> string option \<Rightarrow> string \<Rightarrow> string option \<Rightarrow> bool" for m :: string where
  edge: "require_transition m s a = Inr r \<Longrightarrow>
    task_step m (Some s) a (if r_removes r then None else Some (r_target r))"

inductive task_reaches :: "string \<Rightarrow> string option \<Rightarrow> string option \<Rightarrow> bool" for m :: string where
  start: "task_reaches m s s"
| step: "task_reaches m s s' \<Longrightarrow> task_step m s' a s'' \<Longrightarrow> task_reaches m s s''"

inductive_cases task_step_from: "task_step m s a s'"

lemma task_step_simps:
  assumes "valid_mode m"
  shows "task_step m (Some s) a s' \<longleftrightarrow>
    (\<exists>t. edge_target m s a = Some t \<and> s' = (if a = retire then None else Some t))"
proof
  assume "task_step m (Some s) a s'"
  then show "\<exists>t. edge_target m s a = Some t \<and> s' = (if a = retire then None else Some t)"
    by (rule task_step_from) (auto dest: require_transition_rule)
next
  assume "\<exists>t. edge_target m s a = Some t \<and> s' = (if a = retire then None else Some t)"
  then obtain t where t: "edge_target m s a = Some t" "s' = (if a = retire then None else Some t)" by blast
  with require_transition_iff [OF assms] obtain r where r: "require_transition m s a = Inr r" by fastforce
  from task_step.edge [OF r] require_transition_rule [OF r] t show "task_step m (Some s) a s'" by auto
qed

lemma reaches_trans: "task_reaches m s' s'' \<Longrightarrow> task_reaches m s s' \<Longrightarrow> task_reaches m s s''"
  by (induction rule: task_reaches.induct) (auto intro: task_reaches.step)

lemma reaches_edge:
  "valid_mode m \<Longrightarrow> edge_target m s a = Some t \<Longrightarrow> task_reaches m (Some s) (if a = retire then None else Some t)"
  using task_reaches.step [OF task_reaches.start] task_step_simps by blast

text \<open>
  A task that was HOT stays among the four states until it is removed; a direct one is never
  COLD.
\<close>

definition task_alive :: "string \<Rightarrow> string \<Rightarrow> bool" where
  "task_alive m s \<longleftrightarrow> valid_state s \<and> (m = mode_direct \<longrightarrow> s \<noteq> state_cold)"

lemma task_step_alive:
  assumes "valid_mode m" and "task_step m s a s'" and "\<forall>x \<in> set_option s. task_alive m x"
  shows "\<forall>x \<in> set_option s'. task_alive m x"
proof -
  from assms(2) obtain x where x: "s = Some x" by (rule task_step_from) auto
  with assms(1,2) obtain t where "edge_target m x a = Some t" "s' = (if a = retire then None else Some t)"
    using task_step_simps by blast
  with assms(3) x show ?thesis
    by (auto simp: edge_target_def Let_def task_alive_def valid_state_def state_order_def split: if_splits)
qed

lemma reaches_alive:
  assumes "task_reaches m s s'" and "valid_mode m" and "\<forall>x \<in> set_option s. task_alive m x"
  shows "\<forall>x \<in> set_option s'. task_alive m x"
  using assms by (induction rule: task_reaches.induct) (auto dest: task_step_alive)

lemma alive_can_retire:
  assumes "valid_mode m" and "task_alive m s"
  shows "task_reaches m (Some s) None"
proof -
  have fin: "task_reaches m (Some state_done) None"
    using reaches_edge [OF assms(1), of state_done retire "[]"] by (simp add: edge_target_def)
  have hot: "task_reaches m (Some state_hot) (Some state_done)"
  proof (cases "m = mode_direct")
    case True
    with reaches_edge [OF assms(1), of state_hot complete_direct] show ?thesis by (simp add: edge_target_def)
  next
    case False
    with assms(1) reaches_edge [OF assms(1), of state_hot complete_ff] show ?thesis
      by (auto simp: edge_target_def valid_mode_def mode_order_def)
  qed
  have "task_reaches m (Some state_warm) (Some state_hot)"
    using reaches_edge [OF assms(1), of state_warm resume] by (simp add: edge_target_def)
  moreover have "task_reaches m (Some state_cold) (Some state_hot)" if "m \<noteq> mode_direct"
    using that assms(1) reaches_edge [OF assms(1), of state_cold resume]
    by (auto simp: edge_target_def valid_mode_def mode_order_def)
  ultimately have "task_reaches m (Some s) (Some state_done)"
    using assms(2) hot reaches_trans [OF hot] task_reaches.start [of m "Some state_done"]
    by (auto simp: task_alive_def valid_state_def state_order_def)
  with fin show ?thesis by (rule reaches_trans)
qed

text \<open>
  C22: Whatever sequence of allowed edges a HOT task takes, it is in one of the four states or
  retired, a direct task is never COLD, a task is removed only from DONE, and from wherever it
  is it can still be retired: no life of a task is a dead end.
\<close>

theorem task_lives:
  assumes "valid_mode m" and "task_reaches m (Some state_hot) (Some s)"
  shows "valid_state s \<and> (m = mode_direct \<longrightarrow> s \<noteq> state_cold) \<and>
    task_reaches m (Some s) None \<and>
    (\<forall>a. task_step m (Some s) a None \<longrightarrow> s = state_done \<and> a = retire)"
proof -
  have "task_alive m state_hot" by (simp add: task_alive_def valid_state_def state_order_def)
  with reaches_alive [OF assms(2,1)] have alive: "task_alive m s" by simp
  have "s = state_done \<and> a = retire" if "task_step m (Some s) a None" for a
    using that task_step_simps [OF assms(1)]
    by (auto simp: edge_target_def Let_def split: if_splits)
  with alive alive_can_retire [OF assms(1) alive] show ?thesis by (auto simp: task_alive_def)
qed

end
