(* ===== verification/FlowOptions.thy ===== *)
theory FlowOptions
  imports Transitions
begin

text \<open>
  \<open>internal/taskflow/options.go\<close>: the options of each action, how a request is normalised and
  validated, and what of it is written into an identity. Also the errors of
  \<open>errors.go\<close> and the identity writer of \<open>plan.go\<close>.
\<close>

section \<open>Errors\<close>

text \<open>
  The typed errors with the values they carry; messages are left out. \<open>FInvalidRequest\<close> holds
  the rule of the transition error it wraps, if any.
\<close>

datatype flow_error =
    FInvalidRequest "transition_rule option"
  | FInvalidTransition transition_rule
  | FInvalidPlan string "flow_error option"
  | FStalePlan string string string string
  | FApprovalRequired string
  | FInvalidApproval string
  | FNotReady string availability "condition list"
  | FHandlerUnavailable string string
  | FLocatorUnavailable
  | FPlain

section \<open>Policies\<close>

abbreviation "dirty_auto \<equiv> ''auto''"
abbreviation "dirty_fail \<equiv> ''fail''"
abbreviation "dirty_commit \<equiv> ''commit''"
abbreviation "dirty_discard \<equiv> ''discard''"

definition normalize_dirty :: "string \<Rightarrow> string" where
  "normalize_dirty p = (if p = [] then dirty_auto else p)"

definition validate_dirty :: "string \<Rightarrow> string \<Rightarrow> flow_error option" where
  "validate_dirty policy message =
    (let p = normalize_dirty policy in checks
      [fail_if (p \<notin> {dirty_auto, dirty_fail, dirty_commit, dirty_discard}) FPlain,
       fail_if (message \<noteq> [] \<and> p \<noteq> dirty_auto \<and> p \<noteq> dirty_commit) FPlain])"

abbreviation "integration_target_fail \<equiv> ''fail''"
abbreviation "integration_target_stash_restore \<equiv> ''stash-restore''"
abbreviation "integration_target_discard \<equiv> ''discard''"

definition normalize_integration_target :: "string \<Rightarrow> string" where
  "normalize_integration_target p = (if p = [] then integration_target_fail else p)"

definition validate_integration_target :: "string \<Rightarrow> flow_error option" where
  "validate_integration_target policy =
    fail_if (normalize_integration_target policy \<notin>
      {integration_target_fail, integration_target_stash_restore, integration_target_discard}) FPlain"

section \<open>The options of each action\<close>

type_synonym duration = "64 word"

record sync_options =
  so_operation :: string
  so_endpoint :: string
  so_remote_ref :: string

record park_warm_options =
  pw_next :: string
  pw_note :: string
  pw_commit_wip :: bool
  pw_push :: bool
  pw_keep_session :: bool
  pw_close_unknown :: bool
  pw_assume_no_runtime :: bool
  pw_timeout :: duration

record park_cold_options =
  pc_recursive :: bool
  pc_next :: string
  pc_note :: string
  pc_commit_wip :: bool
  pc_push :: bool
  pc_close_unknown :: bool
  pc_assume_no_runtime :: bool
  pc_timeout :: duration

record resume_options =
  rs_fetch_refs :: bool
  rs_no_provision :: bool
  rs_take_ownership :: bool

record completion_runtime_options =
  cr_close_task_panes :: fields
  cr_program_consent :: fields

record complete_direct_options =
  cd_runtime :: completion_runtime_options
  cd_dirty :: string
  cd_commit_message :: string
  cd_push :: bool

record complete_ff_options =
  cf_runtime :: completion_runtime_options
  cf_dirty :: string
  cf_commit_message :: string
  cf_push_base :: bool
  cf_integration_target :: string

record review_handoff_options =
  rh_runtime :: completion_runtime_options
  rh_dirty :: string
  rh_commit_message :: string
  rh_draft :: bool
  rh_title :: string
  rh_body :: string

record verify_merged_options =
  vm_runtime :: completion_runtime_options
  vm_dirty :: string
  vm_commit_message :: string
  vm_base_ref :: string
  vm_squash_commit :: string
  vm_push_base :: bool

record retire_options =
  rt_recursive :: bool
  rt_process_closures :: fields
  rt_runtime_fingerprint :: string
  rt_preview_authority :: fields
  rt_base :: string
  rt_delete_branch :: bool
  rt_close_unknown :: bool
  rt_assume_no_runtime :: bool
  rt_timeout :: duration

record adopt_options =
  ad_mode :: string
  ad_state :: string
  ad_name :: string
  ad_base :: string
  ad_owner :: string
  ad_next :: string
  ad_note :: string
  ad_tags :: "string list"

record remove_checkout_options =
  rc_recursive :: bool
  rc_process_closures :: fields
  rc_runtime_fingerprint :: string
  rc_preview_authority :: fields
  rc_discard_dirty :: bool
  rc_require_contained :: bool
  rc_containment_base :: string
  rc_delete_contained_branch :: bool
  rc_close_unknown :: bool
  rc_assume_no_runtime :: bool
  rc_timeout :: duration

record refresh_remote_options =
  rr_fetch_refs :: bool
  rr_query_review :: bool

record reconcile_options =
  rn_name :: string
  rn_parameters :: fields

datatype action_options =
    Sync sync_options
  | ParkWarmO park_warm_options
  | ParkColdO park_cold_options
  | ResumeO resume_options
  | CompleteDirectO complete_direct_options
  | CompleteFFO complete_ff_options
  | ReviewHandoffO review_handoff_options
  | VerifyMergedO verify_merged_options
  | RetireO retire_options
  | AdoptO adopt_options
  | RemoveCheckoutO remove_checkout_options
  | RefreshRemoteO refresh_remote_options
  | ReconcileO reconcile_options

fun options_action :: "action_options \<Rightarrow> string" where
  "options_action (Sync o1) = so_operation o1"
| "options_action (ParkWarmO _) = park_warm"
| "options_action (ParkColdO _) = park_cold"
| "options_action (ResumeO _) = resume"
| "options_action (CompleteDirectO _) = complete_direct"
| "options_action (CompleteFFO _) = complete_ff"
| "options_action (ReviewHandoffO _) = review_handoff"
| "options_action (VerifyMergedO _) = verify_merged"
| "options_action (RetireO _) = retire"
| "options_action (AdoptO _) = adopt"
| "options_action (RemoveCheckoutO _) = remove_checkout"
| "options_action (RefreshRemoteO _) = refresh_remote"
| "options_action (ReconcileO _) = reconcile"

text \<open>
  A value of the interface \<open>ActionOptions\<close>: no value, an options struct, or a pointer to one,
  which may be nil.
\<close>

datatype options_value = ONil | OVal action_options | OPtr "action_options option"

fun normalize_options :: "action_options \<Rightarrow> action_options" where
  "normalize_options (CompleteDirectO v) = CompleteDirectO (v\<lparr>cd_dirty := normalize_dirty (cd_dirty v)\<rparr>)"
| "normalize_options (CompleteFFO v) = CompleteFFO (v\<lparr>cf_dirty := normalize_dirty (cf_dirty v),
     cf_integration_target := normalize_integration_target (cf_integration_target v)\<rparr>)"
| "normalize_options (ReviewHandoffO v) = ReviewHandoffO (v\<lparr>rh_dirty := normalize_dirty (rh_dirty v)\<rparr>)"
| "normalize_options (VerifyMergedO v) = VerifyMergedO (v\<lparr>vm_dirty := normalize_dirty (vm_dirty v)\<rparr>)"
| "normalize_options v = v"

definition no_runtime_options :: completion_runtime_options where
  "no_runtime_options = \<lparr>cr_close_task_panes = [], cr_program_consent = []\<rparr>"

definition default_action_options :: "string \<Rightarrow> flow_error + action_options" where
  "default_action_options a =
    (if a \<in> {fetch_repository, push_branch, fast_forward_branch, rebase_branch} then
       Inr (Sync \<lparr>so_operation = a, so_endpoint = [], so_remote_ref = []\<rparr>)
     else if a = park_warm then
       Inr (ParkWarmO \<lparr>pw_next = [], pw_note = [], pw_commit_wip = False, pw_push = False,
         pw_keep_session = False, pw_close_unknown = False, pw_assume_no_runtime = False, pw_timeout = 0\<rparr>)
     else if a = park_cold then
       Inr (ParkColdO \<lparr>pc_recursive = False, pc_next = [], pc_note = [], pc_commit_wip = False,
         pc_push = False, pc_close_unknown = False, pc_assume_no_runtime = False, pc_timeout = 0\<rparr>)
     else if a = resume then
       Inr (ResumeO \<lparr>rs_fetch_refs = False, rs_no_provision = False, rs_take_ownership = False\<rparr>)
     else if a = complete_direct then
       Inr (CompleteDirectO \<lparr>cd_runtime = no_runtime_options, cd_dirty = dirty_auto,
         cd_commit_message = [], cd_push = False\<rparr>)
     else if a = complete_ff then
       Inr (CompleteFFO \<lparr>cf_runtime = no_runtime_options, cf_dirty = dirty_auto,
         cf_commit_message = [], cf_push_base = False, cf_integration_target = []\<rparr>)
     else if a = review_handoff then
       Inr (ReviewHandoffO \<lparr>rh_runtime = no_runtime_options, rh_dirty = dirty_auto,
         rh_commit_message = [], rh_draft = False, rh_title = [], rh_body = []\<rparr>)
     else if a = verify_merged then
       Inr (VerifyMergedO \<lparr>vm_runtime = no_runtime_options, vm_dirty = dirty_auto,
         vm_commit_message = [], vm_base_ref = [], vm_squash_commit = [], vm_push_base = False\<rparr>)
     else if a = retire then
       Inr (RetireO \<lparr>rt_recursive = False, rt_process_closures = [], rt_runtime_fingerprint = [],
         rt_preview_authority = [], rt_base = [], rt_delete_branch = False, rt_close_unknown = False,
         rt_assume_no_runtime = False, rt_timeout = 0\<rparr>)
     else if a = adopt then
       Inr (AdoptO \<lparr>ad_mode = [], ad_state = [], ad_name = [], ad_base = [], ad_owner = [],
         ad_next = [], ad_note = [], ad_tags = []\<rparr>)
     else if a = remove_checkout then
       Inr (RemoveCheckoutO \<lparr>rc_recursive = False, rc_process_closures = [],
         rc_runtime_fingerprint = [], rc_preview_authority = [], rc_discard_dirty = False,
         rc_require_contained = False, rc_containment_base = [], rc_delete_contained_branch = False,
         rc_close_unknown = False, rc_assume_no_runtime = False, rc_timeout = 0\<rparr>)
     else if a = refresh_remote then
       Inr (RefreshRemoteO \<lparr>rr_fetch_refs = False, rr_query_review = False\<rparr>)
     else if a = reconcile then
       Inr (ReconcileO \<lparr>rn_name = [], rn_parameters = []\<rparr>)
     else Inl FPlain)"

fun clone_action_options :: "options_value \<Rightarrow> string \<Rightarrow> flow_error + action_options" where
  "clone_action_options ONil a = default_action_options a"
| "clone_action_options (OVal v) a = Inr (normalize_options v)"
| "clone_action_options (OPtr None) a = Inl FPlain"
| "clone_action_options (OPtr (Some v)) a = Inr (normalize_options v)"

section \<open>Validation\<close>

definition validate_timeout :: "duration \<Rightarrow> flow_error option" where
  "validate_timeout d = fail_if (d <s 0) FPlain"

definition nul_free :: "string \<Rightarrow> bool" where
  "nul_free s \<longleftrightarrow> CHR 0x00 \<notin> set s"

definition validate_base_input :: "string \<Rightarrow> flow_error option" where
  "validate_base_input b = fail_if (b \<noteq> trim_space b \<or> \<not> nul_free b \<or> has_prefix b ''-'') FPlain"

fun validate_action_options :: "action_options \<Rightarrow> flow_error option" where
  "validate_action_options (Sync v) =
    fail_if (so_operation v \<notin> {fetch_repository, push_branch, fast_forward_branch, rebase_branch}) FPlain"
| "validate_action_options (ParkWarmO v) = validate_timeout (pw_timeout v)"
| "validate_action_options (ParkColdO v) = validate_timeout (pc_timeout v)"
| "validate_action_options (ResumeO v) = None"
| "validate_action_options (CompleteDirectO v) = validate_dirty (cd_dirty v) (cd_commit_message v)"
| "validate_action_options (CompleteFFO v) = checks
    [validate_dirty (cf_dirty v) (cf_commit_message v),
     validate_integration_target (cf_integration_target v)]"
| "validate_action_options (ReviewHandoffO v) = validate_dirty (rh_dirty v) (rh_commit_message v)"
| "validate_action_options (VerifyMergedO v) = validate_dirty (vm_dirty v) (vm_commit_message v)"
| "validate_action_options (RetireO v) = checks
    [validate_base_input (rt_base v), validate_timeout (rt_timeout v)]"
| "validate_action_options (AdoptO v) = checks
    [fail_if (ad_mode v \<noteq> [] \<and> ad_mode v \<noteq> mode_worktree) FPlain,
     fail_if (ad_state v \<noteq> [] \<and> \<not> valid_state (ad_state v)) FPlain,
     fail_if (ad_base v \<noteq> trim_space (ad_base v) \<or> \<not> nul_free (ad_base v)) FPlain]"
| "validate_action_options (RemoveCheckoutO v) = checks
    [validate_timeout (rc_timeout v),
     fail_if (rc_delete_contained_branch v \<and> \<not> rc_require_contained v) FPlain,
     (if rc_require_contained v
      then checks [fail_if (rc_containment_base v = []) FPlain, validate_base_input (rc_containment_base v)]
      else fail_if (rc_containment_base v \<noteq> []) FPlain)]"
| "validate_action_options (RefreshRemoteO v) = fail_if (\<not> rr_fetch_refs v \<and> \<not> rr_query_review v) FPlain"
| "validate_action_options (ReconcileO v) = checks
    [fail_if (trim_space (rn_name v) = []) FPlain,
     fail_if (rn_name v \<noteq> trim_space (rn_name v)) FPlain]"

section \<open>Requests\<close>

record frequest =
  q_locator :: locator
  q_action :: string
  q_options :: options_value
  q_displayed_at :: gotime

definition normalize_request :: "frequest \<Rightarrow> flow_error + frequest" where
  "normalize_request q =
    (if \<not> action_valid (q_action q) then Inl (FInvalidRequest None)
     else (case clone_action_options (q_options q) (q_action q) of
         Inl _ \<Rightarrow> Inl (FInvalidRequest None)
       | Inr v \<Rightarrow>
           if options_action v \<noteq> q_action q then Inl (FInvalidRequest None)
           else if validate_action_options v \<noteq> None then Inl (FInvalidRequest None)
           else if is_transition_action (q_action q) then
             (case require_transition (l_mode (q_locator q)) (l_state (q_locator q)) (q_action q) of
                Inl r \<Rightarrow> Inl (FInvalidRequest (Some r))
              | Inr _ \<Rightarrow> Inr (q\<lparr>q_options := OVal v\<rparr>))
           else Inr (q\<lparr>q_options := OVal v\<rparr>)))"

definition new_request :: "locator \<Rightarrow> options_value \<Rightarrow> flow_error + frequest" where
  "new_request loc opts =
    (if opts = ONil then Inl (FInvalidRequest None)
     else (case clone_action_options opts [] of
         Inl _ \<Rightarrow> Inl (FInvalidRequest None)
       | Inr v \<Rightarrow> normalize_request
           \<lparr>q_locator = loc, q_action = options_action v, q_options = OVal v, q_displayed_at = zero_time\<rparr>))"

definition request_clone :: "frequest \<Rightarrow> frequest" where
  "request_clone q =
    (case clone_action_options (q_options q) (q_action q) of
       Inr v \<Rightarrow> q\<lparr>q_options := OVal v\<rparr> | Inl _ \<Rightarrow> q)"

definition frequest_validate :: "frequest \<Rightarrow> flow_error option" where
  "frequest_validate q = (case normalize_request q of Inl e \<Rightarrow> Some e | Inr _ \<Rightarrow> None)"

section \<open>The identity writer\<close>

text \<open>
  A writer is the list of byte strings it was given; each is written with its length before it.
\<close>

definition id_string :: "string \<Rightarrow> string \<Rightarrow> string list" where
  "id_string label v = [label, v]"

definition id_bool :: "string \<Rightarrow> bool \<Rightarrow> string list" where
  "id_bool label b = id_string label (bool_text b)"

definition id_int64 :: "string \<Rightarrow> int \<Rightarrow> string list" where
  "id_int64 label i = id_string label (int_text i)"

fun indexed :: "(nat \<Rightarrow> 'a \<Rightarrow> 'b list) \<Rightarrow> nat \<Rightarrow> 'a list \<Rightarrow> 'b list" where
  \<comment> \<open>\<open>for index, value := range values\<close>\<close>
  "indexed f i [] = []"
| "indexed f i (x # xs) = f i x @ indexed f (Suc i) xs"

definition id_strings :: "string \<Rightarrow> string list \<Rightarrow> string list" where
  "id_strings label vs = id_int64 (label @ ''.count'') (int (length vs)) @
    indexed (\<lambda>i v. id_string (label @ ''.'' @ dec_of i) v) 0 vs"

definition id_fields :: "string \<Rightarrow> fields \<Rightarrow> string list" where
  "id_fields label fs = id_int64 (label @ ''.count'') (int (length fs)) @
    indexed (\<lambda>i f. id_string (label @ ''.'' @ dec_of i @ ''.key'') (f_key f) @
      id_string (label @ ''.'' @ dec_of i @ ''.value'') (f_value f)) 0 fs"

definition sum_hex :: "(string \<Rightarrow> string) \<Rightarrow> string \<Rightarrow> string list \<Rightarrow> string" where
  \<comment> \<open>\<open>newIdentityWriter(domain)\<close>, the writes, \<open>sumHex\<close>\<close>
  "sum_hex sha domain items = hex_bytes (sha (concat (map frame (id_string ''domain'' domain @ items))))"

section \<open>The identity of options\<close>

definition is_completion_action :: "string \<Rightarrow> bool" where
  "is_completion_action a \<longleftrightarrow> a \<in> {complete_direct, complete_ff, review_handoff, verify_merged}"

fun completion_runtime :: "options_value \<Rightarrow> completion_runtime_options" where
  "completion_runtime (OVal (CompleteDirectO v)) = cd_runtime v"
| "completion_runtime (OVal (CompleteFFO v)) = cf_runtime v"
| "completion_runtime (OVal (ReviewHandoffO v)) = rh_runtime v"
| "completion_runtime (OVal (VerifyMergedO v)) = vm_runtime v"
| "completion_runtime _ = no_runtime_options"

definition completion_identity :: "string \<Rightarrow> string \<Rightarrow> bool \<Rightarrow> string list" where
  "completion_identity dirty message push =
    id_string ''dirty'' dirty @ id_string ''commit-message'' message @ id_bool ''push'' push"

definition runtime_identity :: "bool \<Rightarrow> bool \<Rightarrow> duration \<Rightarrow> string list" where
  "runtime_identity close_unknown assume_no_runtime timeout =
    id_bool ''close-unknown'' close_unknown @ id_bool ''assume-no-runtime'' assume_no_runtime @
    id_int64 ''timeout'' (sint timeout)"

fun options_body :: "action_options \<Rightarrow> string list" where
  "options_body (Sync v) =
    id_string ''sync-endpoint'' (so_endpoint v) @ id_string ''sync-remote-ref'' (so_remote_ref v)"
| "options_body (ParkWarmO v) =
    id_string ''next'' (pw_next v) @ id_string ''note'' (pw_note v) @
    id_bool ''commit-wip'' (pw_commit_wip v) @ id_bool ''push'' (pw_push v) @
    id_bool ''keep-session'' (pw_keep_session v) @
    runtime_identity (pw_close_unknown v) (pw_assume_no_runtime v) (pw_timeout v)"
| "options_body (ParkColdO v) =
    id_string ''next'' (pc_next v) @ id_string ''note'' (pc_note v) @
    id_bool ''commit-wip'' (pc_commit_wip v) @ id_bool ''push'' (pc_push v) @
    runtime_identity (pc_close_unknown v) (pc_assume_no_runtime v) (pc_timeout v)"
| "options_body (ResumeO v) =
    id_bool ''fetch-refs'' (rs_fetch_refs v) @ id_bool ''no-provision'' (rs_no_provision v) @
    id_bool ''take-ownership'' (rs_take_ownership v)"
| "options_body (CompleteDirectO v) =
    completion_identity (cd_dirty v) (cd_commit_message v) (cd_push v)"
| "options_body (CompleteFFO v) =
    completion_identity (cf_dirty v) (cf_commit_message v) (cf_push_base v) @
    id_string ''integration-target-policy'' (cf_integration_target v)"
| "options_body (ReviewHandoffO v) =
    id_string ''dirty'' (rh_dirty v) @ id_string ''commit-message'' (rh_commit_message v) @
    id_bool ''draft'' (rh_draft v) @ id_string ''title'' (rh_title v) @ id_string ''body'' (rh_body v)"
| "options_body (VerifyMergedO v) =
    id_string ''dirty'' (vm_dirty v) @ id_string ''commit-message'' (vm_commit_message v) @
    id_string ''base-ref'' (vm_base_ref v) @ id_string ''squash-commit'' (vm_squash_commit v) @
    id_bool ''push-base'' (vm_push_base v)"
| "options_body (RetireO v) =
    id_bool ''delete-branch'' (rt_delete_branch v) @
    (if rt_base v \<noteq> [] then id_string ''base'' (rt_base v) else []) @
    id_fields ''process-closures'' (rt_process_closures v) @
    id_string ''runtime-preview'' (rt_runtime_fingerprint v) @
    id_fields ''retirement-preview'' (rt_preview_authority v) @
    runtime_identity (rt_close_unknown v) (rt_assume_no_runtime v) (rt_timeout v)"
| "options_body (AdoptO v) =
    id_string ''mode'' (ad_mode v) @ id_string ''state'' (ad_state v) @ id_string ''name'' (ad_name v) @
    id_string ''base'' (ad_base v) @ id_string ''owner'' (ad_owner v) @ id_string ''next'' (ad_next v) @
    id_string ''note'' (ad_note v) @ id_strings ''tags'' (ad_tags v)"
| "options_body (RemoveCheckoutO v) =
    id_bool ''discard-dirty'' (rc_discard_dirty v) @
    id_fields ''process-closures'' (rc_process_closures v) @
    id_string ''runtime-preview'' (rc_runtime_fingerprint v) @
    id_fields ''retirement-preview'' (rc_preview_authority v) @
    id_bool ''require-contained'' (rc_require_contained v) @
    id_string ''containment-base'' (rc_containment_base v) @
    id_bool ''delete-contained-branch'' (rc_delete_contained_branch v) @
    runtime_identity (rc_close_unknown v) (rc_assume_no_runtime v) (rc_timeout v)"
| "options_body (RefreshRemoteO v) =
    id_bool ''fetch-refs'' (rr_fetch_refs v) @ id_bool ''query-review'' (rr_query_review v)"
| "options_body (ReconcileO v) =
    id_string ''name'' (rn_name v) @ id_fields ''parameters'' (rn_parameters v)"

text \<open>
  \<open>appendOptionsIdentity\<close>. A pointer has an action but matches no case of the type switch; a
  nil value panics and has no identity.
\<close>

definition value_action :: "options_value \<Rightarrow> string" where
  "value_action v = (case v of OVal a \<Rightarrow> options_action a | OPtr (Some a) \<Rightarrow> options_action a | _ \<Rightarrow> [])"

definition options_identity :: "options_value \<Rightarrow> string list" where
  "options_identity v =
    id_string ''options.action'' (value_action v) @
    (if is_completion_action (value_action v)
     then id_fields ''close-task-panes'' (cr_close_task_panes (completion_runtime v)) @
       id_fields ''foreground-consent'' (cr_program_consent (completion_runtime v))
     else []) @
    (case v of OVal a \<Rightarrow> options_body a | _ \<Rightarrow> [])"

definition locator_identity :: "locator \<Rightarrow> string list" where
  "locator_identity l =
    id_string ''locator.repo-key'' (l_repo_key l) @ id_string ''locator.row-key'' (l_row_key l) @
    id_string ''locator.row-kind'' (l_row_kind l) @ id_string ''locator.repository-id'' (l_repository_id l) @
    id_string ''locator.git-common-dir'' (l_git_common_dir l) @ id_string ''locator.task-id'' (l_task_id l) @
    id_string ''locator.task-revision'' (l_task_revision l) @ id_string ''locator.repo-path'' (l_repo_path l) @
    id_string ''locator.checkout-path'' (l_checkout_path l) @ id_string ''locator.branch'' (l_branch l) @
    id_string ''locator.base'' (l_base l) @ id_string ''locator.upstream'' (l_upstream l) @
    id_string ''locator.remote'' (l_remote l) @ id_string ''locator.head-oid'' (l_head_oid l) @
    id_string ''locator.base-oid'' (l_base_oid l) @ id_string ''locator.upstream-oid'' (l_upstream_oid l) @
    id_string ''locator.mode'' (l_mode l) @ id_string ''locator.state'' (l_state l)"

definition append_request_identity :: "frequest \<Rightarrow> string list" where
  "append_request_identity q =
    id_string ''request.action'' (q_action q) @ locator_identity (q_locator q) @
    options_identity (q_options q)"

definition request_identity :: "(string \<Rightarrow> string) \<Rightarrow> frequest \<Rightarrow> string" where
  "request_identity sha q = sum_hex sha ''taskflow-request-v1'' (append_request_identity q)"

section \<open>Normalisation\<close>

lemma normalize_options_idem: "normalize_options (normalize_options v) = normalize_options v"
  by (cases v) (simp_all add: normalize_dirty_def normalize_integration_target_def)

lemma options_action_normalize [simp]: "options_action (normalize_options v) = options_action v"
  by (cases v) simp_all

lemma normalize_dirty_idem [simp]: "normalize_dirty (normalize_dirty p) = normalize_dirty p"
  by (simp add: normalize_dirty_def)

lemma validate_normalize [simp]: "validate_action_options (normalize_options v) = validate_action_options v"
  by (cases v) (simp_all add: validate_dirty_def validate_integration_target_def
      normalize_integration_target_def Let_def)

text \<open>What a normalised request satisfies.\<close>

definition request_ok :: "frequest \<Rightarrow> action_options \<Rightarrow> bool" where
  "request_ok q v \<longleftrightarrow> q_options q = OVal v \<and> action_valid (q_action q) \<and> options_action v = q_action q \<and>
    validate_action_options v = None \<and>
    (is_transition_action (q_action q) \<longrightarrow>
      (\<exists>r. require_transition (l_mode (q_locator q)) (l_state (q_locator q)) (q_action q) = Inr r))"

lemma normalize_request_ok:
  assumes "normalize_request q = Inr q'"
  shows "\<exists>v. request_ok q' v \<and> q' = q\<lparr>q_options := OVal v\<rparr> \<and>
    clone_action_options (q_options q) (q_action q) = Inr v"
  using assms by (auto simp: normalize_request_def request_ok_def split: sum.splits if_splits)

lemma request_ok_normalize:
  assumes "request_ok q v"
  shows "normalize_request q = Inr (q\<lparr>q_options := OVal (normalize_options v)\<rparr>)"
  using assms by (auto simp: normalize_request_def request_ok_def)

end
