(* ===== verification/FlowPlan.thy ===== *)
theory FlowPlan
  imports FlowOptions
begin

text \<open>
  \<open>internal/taskflow/plan.go\<close>: plans, how they are built and sealed, how they are validated and
  how an approval is bound to one. \<open>sha\<close> is SHA-256 on bytes.
\<close>

section \<open>Confirmations and approvals\<close>

abbreviation (input) "confirmation_none \<equiv> ''''"
abbreviation "confirmation_approval \<equiv> ''approval''"
abbreviation "confirmation_typed \<equiv> ''typed''"

record confirmation =
  cf_kind :: string
  cf_prompt :: string
  cf_token :: string

definition confirmation_ok :: "confirmation \<Rightarrow> bool" where
  "confirmation_ok c \<longleftrightarrow>
    (if cf_kind c \<in> {confirmation_none, confirmation_approval} then cf_token c = []
     else if cf_kind c = confirmation_typed then cf_token c \<noteq> []
     else False)"

record approval =
  ap_plan_id :: string
  ap_granted :: bool
  ap_token :: string

definition approve :: "string \<Rightarrow> approval" where
  "approve i = \<lparr>ap_plan_id = i, ap_granted = True, ap_token = []\<rparr>"

definition approve_with_token :: "string \<Rightarrow> string \<Rightarrow> approval" where
  "approve_with_token i token = \<lparr>ap_plan_id = i, ap_granted = True, ap_token = token\<rparr>"

section \<open>Plans\<close>

record plan_spec =
  ps_authority :: string_map
  ps_conditions :: "condition list"
  ps_effects :: "effect list"
  ps_retained :: "string list"
  ps_confirmation :: confirmation
  ps_fallback :: string
  ps_summary :: string
  ps_displayed_at :: gotime

record plan =
  p_id :: string
  p_fingerprint :: string
  p_request :: frequest
  p_locator :: locator
  p_action :: string
  p_source :: string
  p_target :: string
  p_has_transition :: bool
  p_preserving :: bool
  p_removes :: bool
  p_availability :: availability
  p_confirmation :: confirmation
  p_milestone :: string
  p_fallback :: string
  p_summary :: string
  p_displayed_at :: gotime
  p_authority :: fields
  p_conditions :: "condition list"
  p_effects :: "effect list"
  p_retained :: "string list"

definition plan_clone :: "plan \<Rightarrow> plan" where
  "plan_clone p = p\<lparr>p_request := request_clone (p_request p)\<rparr>"

definition input_conditions :: "plan \<Rightarrow> condition list" where
  "input_conditions p = filter (\<lambda>c. c_requirement c = requirement_required \<and> c_verdict c = verdict_needs_input)
    (p_conditions p)"

definition blocking_conditions :: "plan \<Rightarrow> condition list" where
  "blocking_conditions p = filter (\<lambda>c. c_requirement c = requirement_required \<and>
    c_verdict c \<noteq> verdict_met \<and> c_verdict c \<noteq> verdict_needs_input) (p_conditions p)"

definition advisory_conditions :: "plan \<Rightarrow> condition list" where
  "advisory_conditions p = filter (\<lambda>c. c_requirement c = requirement_advisory) (p_conditions p)"

definition conditions_ok :: "condition list \<Rightarrow> bool" where
  "conditions_ok cs \<longleftrightarrow> (\<forall>c \<in> set cs. condition_ok c) \<and> \<not> has_repeat (map c_code cs)"

definition effects_ok :: "effect list \<Rightarrow> bool" where
  "effects_ok es \<longleftrightarrow> (\<forall>e \<in> set es. effect_ok e)"

definition authority_ok :: "fields \<Rightarrow> bool" where
  "authority_ok fs \<longleftrightarrow> (\<forall>f \<in> set fs. f_key f \<noteq> [])"

section \<open>Identity\<close>

definition condition_identity :: "nat \<Rightarrow> condition \<Rightarrow> string list" where
  "condition_identity i c =
    (let prefix = ''plan.condition.'' @ dec_of i @ ''.''
     in id_string (prefix @ ''code'') (c_code c) @ id_string (prefix @ ''verdict'') (c_verdict c) @
        id_string (prefix @ ''requirement'') (c_requirement c) @
        id_string (prefix @ ''evidence'') (c_evidence c) @
        id_string (prefix @ ''remediation'') (c_remediation c))"

definition effect_identity :: "nat \<Rightarrow> effect \<Rightarrow> string list" where
  "effect_identity i e =
    (let prefix = ''plan.effect.'' @ dec_of i @ ''.''
     in id_string (prefix @ ''code'') (e_code e) @ id_string (prefix @ ''description'') (e_description e) @
        id_string (prefix @ ''target'') (e_target e) @ id_bool (prefix @ ''destructive'') (e_destructive e) @
        id_bool (prefix @ ''network'') (e_network e) @ id_fields (prefix @ ''details'') (e_details e))"

definition plan_items :: "plan \<Rightarrow> string list" where
  "plan_items p =
    append_request_identity (p_request p) @
    id_string ''plan.action'' (p_action p) @ id_string ''plan.source'' (p_source p) @
    id_string ''plan.target'' (p_target p) @
    id_bool ''plan.has-persisted-transition'' (p_has_transition p) @
    id_bool ''plan.state-preserving'' (p_preserving p) @
    id_bool ''plan.removes-task'' (p_removes p) @
    id_string ''plan.expected-milestone'' (p_milestone p) @
    id_fields ''plan.authority'' (p_authority p) @
    id_int64 ''plan.condition-count'' (int (length (p_conditions p))) @
    indexed condition_identity 0 (p_conditions p) @
    id_int64 ''plan.effect-count'' (int (length (p_effects p))) @
    indexed effect_identity 0 (p_effects p) @
    id_strings ''plan.retained'' (p_retained p) @
    id_string ''plan.confirmation-kind'' (cf_kind (p_confirmation p)) @
    id_string ''plan.confirmation-token'' (cf_token (p_confirmation p))"

definition compute_plan_identity :: "(string \<Rightarrow> string) \<Rightarrow> plan \<Rightarrow> string \<times> string" where
  "compute_plan_identity sha p =
    (let fp = ''sha256:'' @ sum_hex sha ''taskflow-authority-v1'' (plan_items p)
     in (fp, ''plan:'' @ sum_hex sha ''taskflow-plan-v1'' (id_string ''authority-fingerprint'' fp)))"

section \<open>Building a plan\<close>

definition domain_milestone :: "string \<Rightarrow> string" where
  "domain_milestone a =
    (if a = adopt then milestone_adopted else if a = reconcile then milestone_reconciled else milestone_none)"

definition draft_plan :: "frequest \<Rightarrow> plan_spec \<Rightarrow> plan" where
  "draft_plan q spec =
    \<lparr>p_id = [], p_fingerprint = [], p_request = request_clone q, p_locator = q_locator q,
     p_action = q_action q, p_source = l_state (q_locator q), p_target = [],
     p_has_transition = False, p_preserving = False, p_removes = False,
     p_availability = availability_for (ps_conditions spec), p_confirmation = ps_confirmation spec,
     p_milestone = milestone_none, p_fallback = ps_fallback spec, p_summary = ps_summary spec,
     p_displayed_at = ps_displayed_at spec, p_authority = new_fields (ps_authority spec),
     p_conditions = ps_conditions spec, p_effects = ps_effects spec, p_retained = ps_retained spec\<rparr>"

definition record_transition :: "plan \<Rightarrow> flow_error + plan" where
  "record_transition p =
    (if is_transition_action (p_action p) then
       (case require_transition (l_mode (p_locator p)) (l_state (p_locator p)) (p_action p) of
          Inl r \<Rightarrow> Inl (FInvalidPlan [] (Some (FInvalidTransition r)))
        | Inr r \<Rightarrow> Inr (p\<lparr>p_has_transition := True, p_target := r_target r,
            p_preserving := r_preserving r, p_removes := r_removes r, p_milestone := r_milestone r\<rparr>))
     else Inr (p\<lparr>p_milestone := domain_milestone (p_action p)\<rparr>))"

definition seal_plan :: "(string \<Rightarrow> string) \<Rightarrow> plan \<Rightarrow> plan" where
  "seal_plan sha p =
    (case compute_plan_identity sha p of (fp, i) \<Rightarrow> plan_clone (p\<lparr>p_fingerprint := fp, p_id := i\<rparr>))"

definition build_plan :: "(string \<Rightarrow> string) \<Rightarrow> frequest \<Rightarrow> plan_spec \<Rightarrow> flow_error + plan" where
  "build_plan sha request spec =
    (case normalize_request request of Inl e \<Rightarrow> Inl (FInvalidPlan [] (Some e))
     | Inr q \<Rightarrow>
        if \<not> confirmation_ok (ps_confirmation spec) then Inl (FInvalidPlan [] (Some FPlain))
        else if \<not> conditions_ok (ps_conditions spec) then Inl (FInvalidPlan [] (Some FPlain))
        else if \<not> effects_ok (ps_effects spec) then Inl (FInvalidPlan [] (Some FPlain))
        else if \<not> authority_ok (new_fields (ps_authority spec)) then Inl (FInvalidPlan [] (Some FPlain))
        else (case record_transition (draft_plan q spec) of Inl e \<Rightarrow> Inl e
          | Inr p \<Rightarrow> Inr (seal_plan sha p)))"

section \<open>Validating a plan\<close>

definition plan_transition_error :: "plan \<Rightarrow> flow_error option" where
  \<comment> \<open>\<open>validatePlanTransition\<close>\<close>
  "plan_transition_error p =
    (if is_transition_action (p_action p) then
       (case require_transition (l_mode (p_locator p)) (l_state (p_locator p)) (p_action p) of
          Inl r \<Rightarrow> Some (FInvalidTransition r)
        | Inr r \<Rightarrow> fail_if (\<not> p_has_transition p \<or> p_source p \<noteq> r_source r \<or> p_target p \<noteq> r_target r \<or>
            p_preserving p \<noteq> r_preserving r \<or> p_removes p \<noteq> r_removes r \<or>
            p_milestone p \<noteq> r_milestone r) FPlain)
     else fail_if (p_has_transition p \<or> p_target p \<noteq> [] \<or> p_preserving p \<or> p_removes p \<or>
         p_source p \<noteq> l_state (p_locator p) \<or> p_milestone p \<noteq> domain_milestone (p_action p)) FPlain)"

definition plan_validate :: "(string \<Rightarrow> string) \<Rightarrow> plan \<Rightarrow> flow_error option" where
  "plan_validate sha p =
    (let invalid = (\<lambda>cause. FInvalidPlan (p_id p) cause) in
     if p_id p = [] \<or> p_fingerprint p = [] then Some (invalid None)
     else if \<not> action_valid (p_action p) then Some (invalid None)
     else if q_action (p_request p) \<noteq> p_action p then Some (invalid None)
     else if q_locator (p_request p) \<noteq> p_locator p then Some (invalid None)
     else if q_options (p_request p) = ONil then Some (invalid None)
     else (case normalize_request (p_request p) of Inl e \<Rightarrow> Some (invalid (Some e))
       | Inr q \<Rightarrow>
          if request_identity sha q \<noteq> request_identity sha (p_request p) then Some (invalid None)
          else if \<not> confirmation_ok (p_confirmation p) then Some (invalid (Some FPlain))
          else if \<not> conditions_ok (p_conditions p) then Some (invalid (Some FPlain))
          else if \<not> effects_ok (p_effects p) then Some (invalid (Some FPlain))
          else if \<not> authority_ok (p_authority p) then Some (invalid (Some FPlain))
          else (case plan_transition_error p of Some e \<Rightarrow> Some (invalid (Some e))
            | None \<Rightarrow> (case compute_plan_identity sha p of (fp, i) \<Rightarrow>
                if fp \<noteq> p_fingerprint p then Some (FStalePlan (p_id p) i (p_fingerprint p) fp)
                else if i \<noteq> p_id p then Some (FStalePlan (p_id p) i (p_fingerprint p) fp)
                else fail_if (availability_for (p_conditions p) \<noteq> p_availability p) (invalid None)))))"

definition validate_approval :: "(string \<Rightarrow> string) \<Rightarrow> plan \<Rightarrow> approval \<Rightarrow> flow_error option" where
  "validate_approval sha p a =
    (case plan_validate sha p of Some e \<Rightarrow> Some e
     | None \<Rightarrow>
        if \<not> ap_granted a then Some (FApprovalRequired (p_id p))
        else if ap_plan_id a \<noteq> p_id p then Some (FStalePlan (p_id p) (ap_plan_id a) (p_fingerprint p) [])
        else if cf_kind (p_confirmation p) = confirmation_typed then
          fail_if (ap_token a \<noteq> cf_token (p_confirmation p)) (FInvalidApproval (p_id p))
        else fail_if (ap_token a \<noteq> []) (FInvalidApproval (p_id p)))"

section \<open>What validation accepts\<close>

text \<open>All that \<open>Validate\<close> checks, as one conjunction.\<close>

definition plan_ok :: "(string \<Rightarrow> string) \<Rightarrow> plan \<Rightarrow> bool" where
  "plan_ok sha p \<longleftrightarrow>
    p_id p \<noteq> [] \<and> p_fingerprint p \<noteq> [] \<and> action_valid (p_action p) \<and>
    q_action (p_request p) = p_action p \<and> q_locator (p_request p) = p_locator p \<and>
    q_options (p_request p) \<noteq> ONil \<and>
    (\<exists>q. normalize_request (p_request p) = Inr q \<and>
      request_identity sha q = request_identity sha (p_request p)) \<and>
    confirmation_ok (p_confirmation p) \<and> conditions_ok (p_conditions p) \<and> effects_ok (p_effects p) \<and>
    authority_ok (p_authority p) \<and> plan_transition_error p = None \<and>
    compute_plan_identity sha p = (p_fingerprint p, p_id p) \<and>
    p_availability p = availability_for (p_conditions p)"

lemma plan_validate_iff: "plan_validate sha p = None \<longleftrightarrow> plan_ok sha p"
  unfolding plan_validate_def plan_ok_def
  by (auto simp: Let_def split: sum.splits option.splits prod.splits)

lemma validate_approval_iff:
  "validate_approval sha p a = None \<longleftrightarrow>
    plan_ok sha p \<and> ap_granted a \<and> ap_plan_id a = p_id p \<and>
    ap_token a = (if cf_kind (p_confirmation p) = confirmation_typed then cf_token (p_confirmation p) else [])"
  by (auto simp: validate_approval_def plan_validate_iff [symmetric] split: option.splits)

lemma plan_validate_invalid:
  "plan_validate sha p = Some e \<Longrightarrow>
    (\<exists>cause. e = FInvalidPlan (p_id p) cause) \<or> (\<exists>i fp. e = FStalePlan (p_id p) i (p_fingerprint p) fp)"
  unfolding plan_validate_def
  by (auto simp: Let_def split: sum.splits option.splits prod.splits if_splits)

section \<open>Plans that are built are valid\<close>

lemma request_clone_normalized:
  assumes "normalize_request q0 = Inr q"
  shows "\<exists>v. request_clone q = q\<lparr>q_options := OVal v\<rparr> \<and> normalize_options v = v \<and>
    request_ok (request_clone q) v"
proof -
  from normalize_request_ok [OF assms] obtain v where v: "request_ok q v" by blast
  then have "request_clone q = q\<lparr>q_options := OVal (normalize_options v)\<rparr>"
    by (simp add: request_clone_def request_ok_def)
  moreover from this v have "request_ok (request_clone q) (normalize_options v)"
    by (simp add: request_ok_def)
  ultimately show ?thesis using normalize_options_idem by metis
qed

lemma request_ok_clone: "request_ok q v \<Longrightarrow> normalize_options v = v \<Longrightarrow> request_clone q = q"
  by (simp add: request_clone_def request_ok_def)

lemma identity_clone_irrelevant:
  "request_clone (p_request p) = p_request p \<Longrightarrow> plan_clone p = p"
  by (simp add: plan_clone_def)

lemma compute_plan_identity_update [simp]:
  "compute_plan_identity sha (p\<lparr>p_fingerprint := fp, p_id := i\<rparr>) = compute_plan_identity sha p"
  by (simp add: compute_plan_identity_def plan_items_def)

lemma sealed_nonempty: "compute_plan_identity sha p = (fp, i) \<Longrightarrow> fp \<noteq> [] \<and> i \<noteq> []"
  by (auto simp: compute_plan_identity_def Let_def)

lemma record_transition_effect:
  assumes "record_transition p = Inr p'" and "p_source p = l_state (p_locator p)"
    and "\<not> p_has_transition p" "p_target p = []" "\<not> p_preserving p" "\<not> p_removes p"
  shows "plan_transition_error p' = None"
    and "\<exists>h t k r m. p' = p\<lparr>p_has_transition := h, p_target := t, p_preserving := k, p_removes := r, p_milestone := m\<rparr>"
proof -
  have "plan_transition_error p' = None \<and>
    (\<exists>h t k r m. p' = p\<lparr>p_has_transition := h, p_target := t, p_preserving := k, p_removes := r, p_milestone := m\<rparr>)"
  proof (cases "is_transition_action (p_action p)")
    case True
    with assms obtain r where r: "require_transition (l_mode (p_locator p)) (l_state (p_locator p)) (p_action p) = Inr r"
      and p': "p' = p\<lparr>p_has_transition := True, p_target := r_target r, p_preserving := r_preserving r,
         p_removes := r_removes r, p_milestone := r_milestone r\<rparr>"
      by (auto simp: record_transition_def split: sum.splits)
    with True assms(2) require_transition_rule [OF r(1)] have "plan_transition_error p' = None"
      by (simp add: plan_transition_error_def)
    with p' show ?thesis by blast
  next
    case False
    with assms have p': "p' = p\<lparr>p_has_transition := False, p_target := [], p_preserving := False,
        p_removes := False, p_milestone := domain_milestone (p_action p)\<rparr>"
      by (cases p) (auto simp: record_transition_def)
    with False assms(2) have "plan_transition_error p' = None" by (simp add: plan_transition_error_def)
    with p' show ?thesis by blast
  qed
  then show "plan_transition_error p' = None"
    "\<exists>h t k r m. p' = p\<lparr>p_has_transition := h, p_target := t, p_preserving := k, p_removes := r, p_milestone := m\<rparr>"
    by simp_all
qed

lemma plan_transition_error_update [simp]:
  "plan_transition_error (p\<lparr>p_fingerprint := fp, p_id := i\<rparr>) = plan_transition_error p"
  by (simp add: plan_transition_error_def split: sum.split)

text \<open>What is known of a plan that was built, by the request it came from.\<close>

lemma build_plan_cases:
  assumes "build_plan sha request spec = Inr p"
  obtains q v where "normalize_request request = Inr q" "p_request p = request_clone q"
    "request_ok (request_clone q) v" "normalize_options v = v"
    "p_locator p = q_locator q" "p_action p = q_action q"
    "confirmation_ok (ps_confirmation spec)" "conditions_ok (ps_conditions spec)"
    "effects_ok (ps_effects spec)" "authority_ok (new_fields (ps_authority spec))"
    "p_confirmation p = ps_confirmation spec" "p_conditions p = ps_conditions spec"
    "p_effects p = ps_effects spec" "p_authority p = new_fields (ps_authority spec)"
    "p_retained p = ps_retained spec" "p_fallback p = ps_fallback spec" "p_summary p = ps_summary spec"
    "plan_transition_error p = None" "p_availability p = availability_for (ps_conditions spec)"
    "compute_plan_identity sha p = (p_fingerprint p, p_id p)"
proof -
  from assms obtain q p1 where q: "normalize_request request = Inr q"
    and ok: "confirmation_ok (ps_confirmation spec)" "conditions_ok (ps_conditions spec)"
      "effects_ok (ps_effects spec)" "authority_ok (new_fields (ps_authority spec))"
    and p1: "record_transition (draft_plan q spec) = Inr p1" "p = seal_plan sha p1"
    by (auto simp: build_plan_def split: sum.splits if_splits)
  from request_clone_normalized [OF q] obtain v
    where v: "normalize_options v = v" "request_ok (request_clone q) v"
      "request_clone q = q\<lparr>q_options := OVal v\<rparr>"
    by blast
  then have cc: "request_clone (request_clone q) = request_clone q" by (simp add: request_ok_clone)
  from record_transition_effect [OF p1(1)] obtain h t k r m where step: "plan_transition_error p1 = None"
    "p1 = (draft_plan q spec)\<lparr>p_has_transition := h, p_target := t, p_preserving := k, p_removes := r, p_milestone := m\<rparr>"
    by (auto simp: draft_plan_def)
  obtain fp i where id: "compute_plan_identity sha p1 = (fp, i)" by fastforce
  from step(2) cc have "request_clone (p_request p1) = p_request p1" by (simp add: draft_plan_def)
  with p1(2) id have p: "p = p1\<lparr>p_fingerprint := fp, p_id := i\<rparr>" by (simp add: seal_plan_def plan_clone_def)
  with step(1) have "plan_transition_error p = None" by simp
  moreover from p id have "compute_plan_identity sha p = (p_fingerprint p, p_id p)" by simp
  moreover have "q_action (request_clone q) = q_action q" "q_locator (request_clone q) = q_locator q"
    using v(3) by simp_all
  ultimately show thesis
    using q v ok p step(2) by (intro that [of q v]) (simp_all add: draft_plan_def)
qed

lemma built_plan_ok:
  assumes "build_plan sha request spec = Inr p"
  shows "plan_ok sha p \<and> plan_clone p = p"
  using assms
proof (cases rule: build_plan_cases)
  case (1 q v)
  then have clone: "request_clone (p_request p) = p_request p" by (simp add: request_ok_clone)
  from 1 have "normalize_request (p_request p) = Inr (p_request p)"
    using request_ok_normalize [of "request_clone q" v] by (simp add: request_ok_def)
  with 1 sealed_nonempty [of sha p] have "plan_ok sha p"
    by (auto simp: plan_ok_def request_ok_def request_clone_def split: sum.splits)
  with clone show ?thesis by (simp add: identity_clone_irrelevant)
qed

text \<open>
  C20: Every plan that is built passes its own validation: its request is normalised, its edge is
  the one of the transition table, its identity is the computed one and its availability the
  derived one; and it stays so when it is cloned.
\<close>

theorem built_plan_valid:
  assumes "build_plan sha request spec = Inr p"
  shows "plan_validate sha p = None \<and> plan_clone p = p"
  using built_plan_ok [OF assms] by (simp add: plan_validate_iff)

end
