(* ===== verification/FlowIdentity.thy ===== *)
theory FlowIdentity
  imports FlowPlan
begin

text \<open>
  What the identity of a plan binds. The identity writer frames every label and value, so the
  bytes it hashes determine the values; the proofs read a plan back from its items, front to
  back, each item handing back the rest.
\<close>

section \<open>Numbers and truth values read back\<close>

definition dec_val :: "string \<Rightarrow> nat" where
  "dec_val s = foldl (\<lambda>a c. 10 * a + (byte c - 48)) 0 s"

lemma dec_val_dec_of: "dec_val (dec_of n) = n"
proof (induction n rule: dec_of.induct)
  case (1 n)
  then show ?case
    by (subst dec_of.simps) (auto simp: dec_val_def)
qed

lemma dec_of_inject [simp]: "dec_of m = dec_of n \<longleftrightarrow> m = n"
  by (metis dec_val_dec_of)

lemma dec_of_digits: "c \<in> set (dec_of n) \<Longrightarrow> 48 \<le> byte c"
proof (induction n rule: dec_of.induct)
  case (1 n)
  then show ?case by (subst (asm) (2) dec_of.simps) (auto split: if_splits)
qed

lemma dec_of_no_minus: "dec_of n \<noteq> CHR ''-'' # s"
proof
  assume "dec_of n = CHR ''-'' # s"
  then have "CHR ''-'' \<in> set (dec_of n)" by simp
  then have "48 \<le> byte CHR ''-''" by (rule dec_of_digits)
  then show False by simp
qed

lemma int_text_inject [simp]: "int_text i = int_text j \<longleftrightarrow> i = j"
  by (auto simp: int_text_def dec_of_no_minus dec_of_no_minus [symmetric] nat_eq_iff split: if_splits)

lemma bool_text_inject [simp]: "bool_text a = bool_text b \<longleftrightarrow> a = b"
  by (simp add: bool_text_def)

section \<open>Items that chain\<close>

lemmas id_scalar_defs = id_string_def id_bool_def id_int64_def

lemma indexed_split:
  assumes step: "\<And>i a b x y. f i a @ x = f i b @ y \<Longrightarrow> a = b \<and> x = y"
    and "length as = length bs" and "indexed f k as @ x = indexed f k bs @ y"
  shows "as = bs \<and> x = y"
  using assms(2,3)
proof (induction as bs arbitrary: k rule: list_induct2)
  case (Cons a as b bs)
  then have "f k a @ (indexed f (Suc k) as @ x) = f k b @ (indexed f (Suc k) bs @ y)" by simp
  from step [OF this] Cons.IH show ?case by blast
qed simp

lemma counted_split:
  assumes "\<And>i a b x y. f i a @ x = f i b @ y \<Longrightarrow> a = b \<and> x = y"
    and "id_int64 l (int (length as)) @ indexed f k as @ x = id_int64 l (int (length bs)) @ indexed f k bs @ y"
  shows "as = bs \<and> x = y"
proof -
  from assms(2) have "length as = length bs" "indexed f k as @ x = indexed f k bs @ y"
    by (simp_all add: id_scalar_defs)
  with assms(1) show ?thesis by (rule indexed_split)
qed

text \<open>Fields and string lists are frames of the writer, as the frames of bytes are.\<close>

interpretation fields_frame: framing "id_fields label" "\<lambda>_. True" for label
proof
  fix a b x y
  assume "id_fields label a @ x = id_fields label b @ y"
  then show "a = b \<and> x = y"
    unfolding id_fields_def append_assoc
    by (rule counted_split [rotated]) (auto simp: id_scalar_defs intro!: field.equality)
qed (simp add: id_fields_def id_scalar_defs)

interpretation strings_frame: framing "id_strings label" "\<lambda>_. True" for label
proof
  fix a b x y
  assume "id_strings label a @ x = id_strings label b @ y"
  then show "a = b \<and> x = y"
    unfolding id_strings_def append_assoc
    by (rule counted_split [rotated]) (auto simp: id_scalar_defs)
qed (simp add: id_strings_def id_scalar_defs)

lemma fields_split: "id_fields l a @ x = id_fields l b @ y \<longleftrightarrow> a = b \<and> x = y"
  using fields_frame.frame_split by blast

lemma fields_eq: "id_fields l a = id_fields l b \<longleftrightarrow> a = b"
  using fields_split [of l a "[]" b "[]"] by simp

lemma strings_split: "id_strings l a @ x = id_strings l b @ y \<longleftrightarrow> a = b \<and> x = y"
  using strings_frame.frame_split by blast

lemma length_id_fields: "2 \<le> length (id_fields l fs)"
  by (simp add: id_fields_def id_scalar_defs)

lemma length_id_fields_Nil: "length (id_fields l []) = 2"
  by (simp add: id_fields_def id_scalar_defs)

lemma condition_split: "condition_identity i a @ x = condition_identity i b @ y \<Longrightarrow> a = b \<and> x = y"
  by (cases a; cases b) (auto simp: condition_identity_def Let_def id_scalar_defs)

lemma effect_split: "effect_identity i a @ x = effect_identity i b @ y \<Longrightarrow> a = b \<and> x = y"
  by (cases a; cases b) (auto simp: effect_identity_def Let_def id_scalar_defs fields_split)

lemma locator_split: "locator_identity a @ x = locator_identity b @ y \<Longrightarrow> a = b \<and> x = y"
  by (cases a; cases b) (simp add: locator_identity_def id_scalar_defs)

section \<open>Options read back\<close>

text \<open>
  The identity leaves out one option: whether the cleanup of ParkCold, Retire and RemoveCheckout
  is recursive.
\<close>

fun erase_recursive :: "action_options \<Rightarrow> action_options" where
  "erase_recursive (ParkColdO v) = ParkColdO (v\<lparr>pc_recursive := False\<rparr>)"
| "erase_recursive (RetireO v) = RetireO (v\<lparr>rt_recursive := False\<rparr>)"
| "erase_recursive (RemoveCheckoutO v) = RemoveCheckoutO (v\<lparr>rc_recursive := False\<rparr>)"
| "erase_recursive v = v"

lemma options_action_erase [simp]: "options_action (erase_recursive v) = options_action v"
  by (cases v) simp_all

lemma validate_erase [simp]: "validate_action_options (erase_recursive v) = validate_action_options v"
  by (cases v) simp_all

lemma options_identity_erase: "options_identity (OVal (erase_recursive v)) = options_identity (OVal v)"
  by (cases v) (simp_all add: options_identity_def value_action_def)

lemma runtime_split:
  "runtime_identity a b t @ x = runtime_identity a' b' t' @ y \<longleftrightarrow> a = a' \<and> b = b' \<and> t = t' \<and> x = y"
proof -
  have "sint t = sint t' \<longleftrightarrow> t = t'" by (auto intro: signed_word_eqI)
  then show ?thesis by (auto simp: runtime_identity_def id_scalar_defs)
qed

text \<open>The base of Retire is written only when there is one; the next label tells.\<close>

lemma base_split:
  "(if a \<noteq> [] then id_string ''base'' a else []) @ id_fields ''process-closures'' f @ x =
    (if b \<noteq> [] then id_string ''base'' b else []) @ id_fields ''process-closures'' g @ y \<longleftrightarrow>
    a = b \<and> f = g \<and> x = y"
proof -
  have "id_string ''base'' c @ z \<noteq> id_fields ''process-closures'' h @ z'" for c h and z z' :: "string list"
    by (simp add: id_fields_def id_scalar_defs)
  from this this [symmetric] show ?thesis by (auto simp: fields_split id_string_def)
qed

text \<open>An action names one kind of options.\<close>

lemma options_kind:
  assumes "options_action v = options_action w"
    and "validate_action_options v = None" and "validate_action_options w = None"
  shows "case v of Sync _ \<Rightarrow> (\<exists>x. w = Sync x) | ParkWarmO _ \<Rightarrow> (\<exists>x. w = ParkWarmO x)
    | ParkColdO _ \<Rightarrow> (\<exists>x. w = ParkColdO x) | ResumeO _ \<Rightarrow> (\<exists>x. w = ResumeO x)
    | CompleteDirectO _ \<Rightarrow> (\<exists>x. w = CompleteDirectO x) | CompleteFFO _ \<Rightarrow> (\<exists>x. w = CompleteFFO x)
    | ReviewHandoffO _ \<Rightarrow> (\<exists>x. w = ReviewHandoffO x) | VerifyMergedO _ \<Rightarrow> (\<exists>x. w = VerifyMergedO x)
    | RetireO _ \<Rightarrow> (\<exists>x. w = RetireO x) | AdoptO _ \<Rightarrow> (\<exists>x. w = AdoptO x)
    | RemoveCheckoutO _ \<Rightarrow> (\<exists>x. w = RemoveCheckoutO x) | RefreshRemoteO _ \<Rightarrow> (\<exists>x. w = RefreshRemoteO x)
    | ReconcileO _ \<Rightarrow> (\<exists>x. w = ReconcileO x)"
  using assms by (cases v; cases w) auto

lemmas options_split_simps = options_identity_def value_action_def is_completion_action_def id_scalar_defs
  fields_split strings_split runtime_split completion_identity_def

lemma options_split:
  assumes eq: "options_identity (OVal v) @ x = options_identity (OVal w) @ y"
    and ok: "validate_action_options v = None" "validate_action_options w = None"
  shows "erase_recursive v = erase_recursive w \<and> x = y"
proof -
  from eq have "options_action v = options_action w"
    by (simp add: options_identity_def value_action_def id_string_def)
  note kind = options_kind [OF this ok]
  show ?thesis
  proof (cases v)
    case (Sync a)
    with kind eq show ?thesis by (auto simp: options_split_simps)
  next
    case (ParkWarmO a)
    with kind eq show ?thesis by (auto simp: options_split_simps)
  next
    case (ParkColdO a)
    with kind eq show ?thesis by (auto simp: options_split_simps)
  next
    case (ResumeO a)
    with kind eq show ?thesis by (auto simp: options_split_simps)
  next
    case (CompleteDirectO a)
    with kind eq show ?thesis by (auto simp: options_split_simps)
  next
    case (CompleteFFO a)
    with kind eq show ?thesis by (auto simp: options_split_simps)
  next
    case (ReviewHandoffO a)
    with kind eq show ?thesis by (auto simp: options_split_simps)
  next
    case (VerifyMergedO a)
    with kind eq show ?thesis by (auto simp: options_split_simps)
  next
    case (RetireO a)
    with kind obtain b where b: "w = RetireO b" by auto
    have "rt_delete_branch a = rt_delete_branch b \<and> rt_base a = rt_base b \<and>
        rt_process_closures a = rt_process_closures b \<and> rt_runtime_fingerprint a = rt_runtime_fingerprint b \<and>
        rt_preview_authority a = rt_preview_authority b \<and> rt_close_unknown a = rt_close_unknown b \<and>
        rt_assume_no_runtime a = rt_assume_no_runtime b \<and> rt_timeout a = rt_timeout b \<and> x = y"
      using eq unfolding RetireO b
      by (simp add: options_identity_def value_action_def is_completion_action_def
          id_bool_def id_string_def [of "''options.action''"] id_string_def [of "''delete-branch''"]
          id_string_def [of "''runtime-preview''"] base_split fields_split runtime_split)
    with RetireO b show ?thesis by simp
  next
    case (AdoptO a)
    with kind eq show ?thesis by (auto simp: options_split_simps)
  next
    case (RemoveCheckoutO a)
    with kind eq show ?thesis by (auto simp: options_split_simps)
  next
    case (RefreshRemoteO a)
    with kind eq show ?thesis by (auto simp: options_split_simps)
  next
    case (ReconcileO a)
    with kind eq show ?thesis by (auto simp: options_split_simps)
  qed
qed

section \<open>Requests and plans read back\<close>

definition request_core :: "frequest \<Rightarrow> string \<times> locator \<times> options_value" where
  "request_core q = (q_action q, q_locator q,
    case q_options q of OVal v \<Rightarrow> OVal (erase_recursive v) | other \<Rightarrow> other)"

text \<open>Options that are a valid value, as those of a validated request.\<close>

definition options_valid :: "options_value \<Rightarrow> bool" where
  "options_valid o' \<longleftrightarrow> (\<exists>v. o' = OVal v \<and> validate_action_options v = None)"

lemma request_split:
  assumes eq: "append_request_identity q @ x = append_request_identity r @ y"
    and ok: "options_valid (q_options q)" "options_valid (q_options r)"
  shows "request_core q = request_core r \<and> x = y"
proof -
  from ok obtain v w where vw: "q_options q = OVal v" "q_options r = OVal w"
    "validate_action_options v = None" "validate_action_options w = None"
    by (auto simp: options_valid_def)
  from eq vw have "q_action q = q_action r"
    and "locator_identity (q_locator q) @ (options_identity (OVal v) @ x) =
      locator_identity (q_locator r) @ (options_identity (OVal w) @ y)"
    by (simp_all add: append_request_identity_def id_string_def)
  with locator_split [OF this(2)] options_split [OF _ vw(3,4)] vw(1,2)
  show ?thesis by (auto simp: request_core_def)
qed

text \<open>
  What the identity of a plan binds: all of it but the texts shown to the operator, the times
  and the recursive option. The locator of the plan is that of its request and its availability
  is derived from its conditions.
\<close>

definition plan_core :: "plan \<Rightarrow> (string \<times> locator \<times> options_value) \<times>
    (string \<times> string \<times> string \<times> bool \<times> bool \<times> bool \<times> string) \<times>
    fields \<times> condition list \<times> effect list \<times> string list \<times> string \<times> string" where
  "plan_core p = (request_core (p_request p),
    (p_action p, p_source p, p_target p, p_has_transition p, p_preserving p, p_removes p, p_milestone p),
    p_authority p, p_conditions p, p_effects p, p_retained p,
    cf_kind (p_confirmation p), cf_token (p_confirmation p))"

lemma plan_items_core:
  assumes eq: "plan_items p = plan_items q"
    and ok: "options_valid (q_options (p_request p))" "options_valid (q_options (p_request q))"
  shows "plan_core p = plan_core q"
proof -
  note request = request_split [OF eq [unfolded plan_items_def] ok]
  then have core: "request_core (p_request p) = request_core (p_request q)"
    and scalar: "p_action p = p_action q" "p_source p = p_source q" "p_target p = p_target q"
      "p_has_transition p = p_has_transition q" "p_preserving p = p_preserving q" "p_removes p = p_removes q"
      "p_milestone p = p_milestone q"
    and rest: "p_authority p = p_authority q"
      "id_int64 ''plan.condition-count'' (int (length (p_conditions p))) @
        indexed condition_identity 0 (p_conditions p) @
        id_int64 ''plan.effect-count'' (int (length (p_effects p))) @
        indexed effect_identity 0 (p_effects p) @ id_strings ''plan.retained'' (p_retained p) @
        id_string ''plan.confirmation-kind'' (cf_kind (p_confirmation p)) @
        id_string ''plan.confirmation-token'' (cf_token (p_confirmation p)) =
      id_int64 ''plan.condition-count'' (int (length (p_conditions q))) @
        indexed condition_identity 0 (p_conditions q) @
        id_int64 ''plan.effect-count'' (int (length (p_effects q))) @
        indexed effect_identity 0 (p_effects q) @ id_strings ''plan.retained'' (p_retained q) @
        id_string ''plan.confirmation-kind'' (cf_kind (p_confirmation q)) @
        id_string ''plan.confirmation-token'' (cf_token (p_confirmation q))"
    by (simp_all add: id_string_def id_bool_def fields_split)
  from counted_split [OF condition_split rest(2)] have conds: "p_conditions p = p_conditions q"
    and rest': "id_int64 ''plan.effect-count'' (int (length (p_effects p))) @
        indexed effect_identity 0 (p_effects p) @ id_strings ''plan.retained'' (p_retained p) @
        id_string ''plan.confirmation-kind'' (cf_kind (p_confirmation p)) @
        id_string ''plan.confirmation-token'' (cf_token (p_confirmation p)) =
      id_int64 ''plan.effect-count'' (int (length (p_effects q))) @
        indexed effect_identity 0 (p_effects q) @ id_strings ''plan.retained'' (p_retained q) @
        id_string ''plan.confirmation-kind'' (cf_kind (p_confirmation q)) @
        id_string ''plan.confirmation-token'' (cf_token (p_confirmation q))"
    by simp_all
  from counted_split [OF effect_split rest'] have "p_effects p = p_effects q" "p_retained p = p_retained q"
    "cf_kind (p_confirmation p) = cf_kind (p_confirmation q)" "cf_token (p_confirmation p) = cf_token (p_confirmation q)"
    by (simp_all add: strings_split id_string_def)
  with core scalar rest(1) conds show ?thesis by (simp add: plan_core_def)
qed

lemma request_core_identity:
  assumes "request_core q = request_core r" and "options_valid (q_options q)" "options_valid (q_options r)"
  shows "append_request_identity q = append_request_identity r"
proof -
  from assms obtain v w where vw: "q_options q = OVal v" "q_options r = OVal w" "erase_recursive v = erase_recursive w"
    by (auto simp: options_valid_def request_core_def)
  with options_identity_erase [of v] options_identity_erase [of w]
  have "options_identity (OVal v) = options_identity (OVal w)" by simp
  with assms(1) vw show ?thesis by (simp add: request_core_def append_request_identity_def)
qed

lemma plan_core_items:
  assumes "plan_core p = plan_core q" and "options_valid (q_options (p_request p))" "options_valid (q_options (p_request q))"
  shows "plan_items p = plan_items q"
proof -
  from assms(1) have core: "request_core (p_request p) = request_core (p_request q)" by (simp add: plan_core_def)
  from assms(1) request_core_identity [OF core assms(2,3)] show ?thesis
    by (simp add: plan_core_def plan_items_def)
qed

section \<open>A validated plan has normalised options\<close>

text \<open>
  What a validation hashes: the request, its normal form, the authority and the plan identity.
\<close>

definition writer :: "string \<Rightarrow> string list \<Rightarrow> string list" where
  "writer domain items = id_string ''domain'' domain @ items"

definition plan_writes :: "plan \<Rightarrow> string list set" where
  "plan_writes p =
    {writer ''taskflow-request-v1'' (append_request_identity (p_request p)),
     writer ''taskflow-authority-v1'' (plan_items p),
     writer ''taskflow-plan-v1'' (id_string ''authority-fingerprint'' (p_fingerprint p))} \<union>
    (case normalize_request (p_request p) of Inl _ \<Rightarrow> {}
     | Inr q \<Rightarrow> {writer ''taskflow-request-v1'' (append_request_identity q)})"

text \<open>
  SHA-256 tells these payloads apart, and every item is shorter than \<open>2 ^ 64\<close> bytes, so that
  its length fits the frame.
\<close>

definition tells_apart :: "(string \<Rightarrow> string) \<Rightarrow> string list set \<Rightarrow> bool" where
  "tells_apart sha ws \<longleftrightarrow>
    inj_on (\<lambda>w. sha (concat (map frame w))) ws \<and> (\<forall>w \<in> ws. \<forall>s \<in> set w. length s < 2 ^ 64)"

lemma tells_apart_sum:
  assumes "tells_apart sha ws" and "sum_hex sha d items = sum_hex sha d' items'"
    and "writer d items \<in> ws" "writer d' items' \<in> ws"
  shows "items = items'"
proof -
  from assms(2) have "sha (concat (map frame (writer d items))) = sha (concat (map frame (writer d' items')))"
    using hex_bytes_inj by (simp add: sum_hex_def writer_def)
  with assms(1,3,4) have "writer d items = writer d' items'" by (auto simp: tells_apart_def inj_on_def)
  then show ?thesis by (simp add: writer_def id_string_def)
qed

lemma options_body_nonempty: "options_body v \<noteq> []"
  by (cases v) (simp_all add: id_scalar_defs completion_identity_def)

lemma pointer_identity_differs: "options_identity (OPtr (Some v)) \<noteq> options_identity (OVal w)"
proof
  assume eq: "options_identity (OPtr (Some v)) = options_identity (OVal w)"
  then have act: "options_action v = options_action w"
    by (simp add: options_identity_def value_action_def id_string_def)
  have "length (options_identity (OPtr (Some v))) < length (options_identity (OVal w))"
    using act options_body_nonempty [of w]
      length_id_fields [of "''close-task-panes''" "cr_close_task_panes (completion_runtime (OVal w))"]
      length_id_fields [of "''foreground-consent''" "cr_program_consent (completion_runtime (OVal w))"]
    by (auto simp: options_identity_def value_action_def no_runtime_options_def length_id_fields_Nil
        simp flip: length_greater_0_conv)
  with eq show False by simp
qed

lemma plan_ok_options:
  assumes "plan_ok sha p" and "tells_apart sha (plan_writes p)"
  shows "options_valid (q_options (p_request p))"
proof -
  from assms(1) obtain q where q: "normalize_request (p_request p) = Inr q"
    "request_identity sha q = request_identity sha (p_request p)" and nil: "q_options (p_request p) \<noteq> ONil"
    by (auto simp: plan_ok_def)
  have "append_request_identity q = append_request_identity (p_request p)"
    using assms(2) q by (intro tells_apart_sum [OF assms(2)]) (auto simp: request_identity_def plan_writes_def)
  moreover from normalize_request_ok [OF q(1)] obtain v where v: "request_ok q v" "q = (p_request p)\<lparr>q_options := OVal v\<rparr>"
    "clone_action_options (q_options (p_request p)) (q_action (p_request p)) = Inr v" by blast
  ultimately have same: "options_identity (OVal v) = options_identity (q_options (p_request p))"
    by (simp add: append_request_identity_def)
  show ?thesis
  proof (cases "q_options (p_request p)")
    case (OVal w)
    with v show ?thesis by (auto simp: options_valid_def request_ok_def)
  next
    case (OPtr w)
    with v(3) obtain u where "w = Some u" by (cases w) auto
    with OPtr same pointer_identity_differs [of u v] show ?thesis by simp
  qed (use nil in simp)
qed

lemma plan_ok_sealed:
  assumes "plan_ok sha p"
  shows "p_fingerprint p = ''sha256:'' @ sum_hex sha ''taskflow-authority-v1'' (plan_items p)"
    and "p_id p = ''plan:'' @ sum_hex sha ''taskflow-plan-v1'' (id_string ''authority-fingerprint'' (p_fingerprint p))"
proof -
  from assms have "(p_fingerprint p, p_id p) = compute_plan_identity sha p" by (simp add: plan_ok_def)
  then show "p_fingerprint p = ''sha256:'' @ sum_hex sha ''taskflow-authority-v1'' (plan_items p)"
    "p_id p = ''plan:'' @ sum_hex sha ''taskflow-plan-v1'' (id_string ''authority-fingerprint'' (p_fingerprint p))"
    by (simp_all add: compute_plan_identity_def Let_def)
qed

lemma plan_id_core:
  assumes "plan_validate sha p = None" and "plan_validate sha q = None"
    and "tells_apart sha (plan_writes p \<union> plan_writes q)"
  shows "p_id p = p_id q \<longleftrightarrow> plan_core p = plan_core q"
proof -
  have sub: "tells_apart sha (plan_writes p)" "tells_apart sha (plan_writes q)"
    using assms(3) by (auto simp: tells_apart_def intro: inj_on_subset)
  from assms(1,2) have ok: "plan_ok sha p" "plan_ok sha q" by (simp_all add: plan_validate_iff)
  note opts = plan_ok_options [OF ok(1) sub(1)] plan_ok_options [OF ok(2) sub(2)]
  note fp = plan_ok_sealed(1) [OF ok(1)] plan_ok_sealed(1) [OF ok(2)]
    and id = plan_ok_sealed(2) [OF ok(1)] plan_ok_sealed(2) [OF ok(2)]
  show ?thesis
  proof
    assume "p_id p = p_id q"
    with id have "id_string ''authority-fingerprint'' (p_fingerprint p) = id_string ''authority-fingerprint'' (p_fingerprint q)"
      by (intro tells_apart_sum [OF assms(3)]) (auto simp: plan_writes_def)
    with fp have "sum_hex sha ''taskflow-authority-v1'' (plan_items p) = sum_hex sha ''taskflow-authority-v1'' (plan_items q)"
      by (simp add: id_string_def)
    then have "plan_items p = plan_items q"
      by (intro tells_apart_sum [OF assms(3)]) (auto simp: plan_writes_def)
    with opts show "plan_core p = plan_core q" by (intro plan_items_core)
  next
    assume "plan_core p = plan_core q"
    with opts have "plan_items p = plan_items q" by (intro plan_core_items)
    with fp id show "p_id p = p_id q" by simp
  qed
qed

text \<open>
  C19: The plan identity binds the plan: two validated plans have one PlanID exactly when they
  agree in everything but display texts, times and whether a cleanup is recursive. Unless
  SHA-256 collides on what the two validations hash, no field of the request, authority,
  conditions, effects, retained resources or confirmation can be changed or moved into another
  field without changing the PlanID.
\<close>

theorem plan_id_binds:
  assumes "plan_validate sha p = None" and "plan_validate sha q = None"
    and "tells_apart sha (plan_writes p \<union> plan_writes q)"
  shows "p_id p = p_id q \<longleftrightarrow> plan_core p = plan_core q"
  using assms by (rule plan_id_core)

end
