(* ===== verification/FlowService.thy ===== *)
theory FlowService
  imports FlowIdentity
begin

text \<open>
  \<open>internal/taskflow/result.go\<close> and \<open>service.go\<close>: the ledger an executor returns, and the
  dispatcher that plans, validates and applies. Handlers are injected: a hook is a function on
  a state of the world \<open>'w\<close>, of which nothing is assumed.
\<close>

section \<open>Results\<close>

record git_diagnostic =
  gd_code :: string
  gd_summary :: string
  gd_next :: string
  gd_exit_code :: int
  gd_details :: string
  gd_truncated :: bool

datatype step_status = StepAttempted | StepCompleted | StepFailed | StepOther string

record step_result =
  sr_diagnostic :: "git_diagnostic option"
  sr_effect :: effect
  sr_status :: step_status
  sr_detail :: string
  sr_failure :: string
  sr_started_at :: gotime
  sr_finished_at :: gotime

record handoff =
  h_kind :: string
  h_path :: string
  h_runtime :: string
  h_runtime_handle :: string
  h_url :: string
  h_label :: string

record named_ref_observation =
  nr_ref :: string
  nr_exists :: bool
  nr_oid :: string
  nr_failure :: string

record remote_refs_observation =
  ro_local_head :: named_ref_observation
  ro_local_base :: named_ref_observation
  ro_remote_head :: named_ref_observation
  ro_remote_base :: named_ref_observation
  ro_observed_at :: gotime

record remote_review_observation =
  rv_state :: string
  rv_exists :: bool
  rv_provider :: string
  rv_review_state :: string
  rv_draft :: bool
  rv_url :: string
  rv_observed_at :: gotime
  rv_failure_kind :: string
  rv_failure :: string

record remote_observation =
  rm_remote_name :: string
  rm_remote_url :: string
  rm_provider :: string
  rm_repository :: string
  rm_head :: string
  rm_base :: string
  rm_before_refs :: remote_refs_observation
  rm_after_refs :: remote_refs_observation
  rm_has_after_refs :: bool
  rm_review :: remote_review_observation
  rm_has_review :: bool

record result_spec =
  rs_steps :: "step_result list"
  rs_warnings :: "string list"
  rs_recovery :: "string list"
  rs_partial :: bool
  rs_milestone :: string
  rs_handoff :: "handoff option"
  rs_remote :: "remote_observation option"
  rs_snapshot :: string

text \<open>An optional value of Go with its flag is an \<open>option\<close>; clones are the values themselves.\<close>

record flow_result =
  fr_partial :: bool
  fr_milestone :: string
  fr_steps :: "step_result list"
  fr_warnings :: "string list"
  fr_recovery :: "string list"
  fr_handoff :: "handoff option"
  fr_remote :: "remote_observation option"
  fr_snapshot :: string

definition steps_with_status :: "step_result list \<Rightarrow> step_status \<Rightarrow> step_result list" where
  "steps_with_status steps status = filter (\<lambda>s. sr_status s = status) steps"

definition completed_steps :: "flow_result \<Rightarrow> step_result list" where
  "completed_steps r = steps_with_status (fr_steps r) StepCompleted"

definition failed_steps :: "flow_result \<Rightarrow> step_result list" where
  "failed_steps r = steps_with_status (fr_steps r) StepFailed"

definition new_result :: "result_spec \<Rightarrow> flow_result" where
  "new_result spec =
    (let r = \<lparr>fr_partial = rs_partial spec, fr_milestone = rs_milestone spec, fr_steps = rs_steps spec,
        fr_warnings = rs_warnings spec, fr_recovery = rs_recovery spec, fr_handoff = rs_handoff spec,
        fr_remote = rs_remote spec, fr_snapshot = rs_snapshot spec\<rparr>
     in if \<not> fr_partial r \<and> completed_steps r \<noteq> [] \<and> failed_steps r \<noteq> [] then r\<lparr>fr_partial := True\<rparr> else r)"

definition fresh_snapshot_ref :: "flow_result \<Rightarrow> string \<times> bool" where
  "fresh_snapshot_ref r = (fr_snapshot r, fr_snapshot r \<noteq> [])"

definition no_result :: flow_result where
  "no_result = \<lparr>fr_partial = False, fr_milestone = [], fr_steps = [], fr_warnings = [], fr_recovery = [],
    fr_handoff = None, fr_remote = None, fr_snapshot = []\<rparr>"

section \<open>The dispatcher\<close>

record 'w handler =
  hd_plan :: "(frequest \<Rightarrow> 'w \<Rightarrow> (flow_error + plan_spec) \<times> 'w) option"
  hd_apply :: "(plan \<Rightarrow> 'w \<Rightarrow> flow_result \<times> flow_error option \<times> 'w) option"

record 'w service =
  sv_handlers :: "string \<rightharpoonup> 'w handler"
  sv_locate :: "(string \<Rightarrow> 'w \<Rightarrow> (flow_error + locator) \<times> 'w) option"

definition new_service :: "(string \<rightharpoonup> 'w handler) \<Rightarrow> 'w service" where
  "new_service handlers = \<lparr>sv_handlers = handlers, sv_locate = None\<rparr>"

definition locate_task :: "'w service option \<Rightarrow> string \<Rightarrow> 'w \<Rightarrow> (flow_error + locator) \<times> 'w" where
  "locate_task s i w =
    (case s of None \<Rightarrow> (Inl FLocatorUnavailable, w)
     | Some sv \<Rightarrow> (case sv_locate sv of None \<Rightarrow> (Inl FLocatorUnavailable, w) | Some f \<Rightarrow> f i w))"

definition service_plan :: "(string \<Rightarrow> string) \<Rightarrow> 'w service \<Rightarrow> frequest \<Rightarrow> 'w \<Rightarrow> (flow_error + plan) \<times> 'w" where
  "service_plan sha sv request w =
    (case normalize_request request of Inl e \<Rightarrow> (Inl e, w)
     | Inr q \<Rightarrow> (case sv_handlers sv (q_action q) of None \<Rightarrow> (Inl (FHandlerUnavailable (q_action q) ''plan''), w)
       | Some h \<Rightarrow> (case hd_plan h of None \<Rightarrow> (Inl (FHandlerUnavailable (q_action q) ''plan''), w)
         | Some f \<Rightarrow> (case f (request_clone q) w of
             (Inl e, w') \<Rightarrow> (Inl e, w')
           | (Inr spec, w') \<Rightarrow> (build_plan sha q spec, w')))))"

definition service_apply :: "(string \<Rightarrow> string) \<Rightarrow> 'w service \<Rightarrow> plan \<Rightarrow> approval \<Rightarrow> 'w \<Rightarrow>
    flow_result \<times> flow_error option \<times> 'w" where
  "service_apply sha sv p a w =
    (let frozen = plan_clone p in
     case plan_validate sha frozen of Some e \<Rightarrow> (no_result, Some e, w)
     | None \<Rightarrow> (case validate_approval sha frozen a of Some e \<Rightarrow> (no_result, Some e, w)
       | None \<Rightarrow>
          if p_availability frozen \<noteq> Ready then
            (no_result, Some (FInvalidPlan (p_id frozen)
              (Some (FNotReady (p_id frozen) (p_availability frozen) (p_conditions frozen)))), w)
          else (case sv_handlers sv (p_action frozen) of
              None \<Rightarrow> (no_result, Some (FHandlerUnavailable (p_action frozen) ''apply''), w)
            | Some h \<Rightarrow> (case hd_apply h of
                None \<Rightarrow> (no_result, Some (FHandlerUnavailable (p_action frozen) ''apply''), w)
              | Some f \<Rightarrow> (case f (plan_clone frozen) w of (r, err, w') \<Rightarrow>
                  (if err \<noteq> None \<and> completed_steps r \<noteq> [] then r\<lparr>fr_partial := True\<rparr> else r, err, w'))))))"

section \<open>When a handler runs\<close>

text \<open>The conditions under which \<open>Apply\<close> reaches a handler.\<close>

definition may_apply :: "(string \<Rightarrow> string) \<Rightarrow> plan \<Rightarrow> approval \<Rightarrow> bool" where
  "may_apply sha p a \<longleftrightarrow> validate_approval sha p a = None \<and> p_availability p = Ready"

lemma service_apply_cases:
  assumes "service_apply sha sv p a w = (r, err, w')"
  obtains (refused) e where "err = Some e" "w' = w" "r = no_result"
    | (ran) h f r0 where "may_apply sha (plan_clone p) a" "sv_handlers sv (p_action p) = Some h" "hd_apply h = Some f"
      "f (plan_clone (plan_clone p)) w = (r0, err, w')" "r = (if err \<noteq> None \<and> completed_steps r0 \<noteq> [] then r0\<lparr>fr_partial := True\<rparr> else r0)"
proof -
  have act: "p_action (plan_clone p) = p_action p" by (simp add: plan_clone_def)
  from assms act show thesis
    by (auto simp: service_apply_def Let_def may_apply_def split: option.splits if_splits prod.splits
        dest!: sym [of "Some _"] intro: refused ran)
qed

lemma service_apply_ran:
  assumes "may_apply sha (plan_clone p) a" and "sv_handlers sv (p_action p) = Some h" and "hd_apply h = Some f"
    and "f (plan_clone (plan_clone p)) w = (r0, err, w')"
  shows "service_apply sha sv p a w =
    (if err \<noteq> None \<and> completed_steps r0 \<noteq> [] then r0\<lparr>fr_partial := True\<rparr> else r0, err, w')"
proof -
  have act: "p_action (plan_clone p) = p_action p" by (simp add: plan_clone_def)
  from assms(1) have "validate_approval sha (plan_clone p) a = None" "p_availability (plan_clone p) = Ready"
    by (simp_all add: may_apply_def)
  moreover from this have "plan_validate sha (plan_clone p) = None"
    by (simp add: validate_approval_def split: option.splits)
  ultimately show ?thesis using assms(2-4) act by (simp add: service_apply_def)
qed

lemma available_conditions:
  assumes "plan_ok sha p" and "p_availability p = Ready"
  shows "input_conditions p = [] \<and> blocking_conditions p = []"
proof -
  from assms have "availability_for (p_conditions p) = Ready" by (simp add: plan_ok_def)
  then show ?thesis
    by (auto simp: availability_Ready_iff input_conditions_def blocking_conditions_def filter_empty_conv)
qed

text \<open>
  C18: Nothing runs unapproved: when Apply changes anything or reports success, the plan passed
  validation, the approval was granted for exactly its PlanID with exactly its typed token, no
  required condition of the plan was unmet, its edge is an allowed one when it has one, and it
  was the handler registered for the plan's own action that ran, once, on the plan.
\<close>

theorem apply_guarded:
  assumes "service_apply sha sv p a w = (r, err, w')" and "err = None \<or> w' \<noteq> w"
  shows "let q = plan_clone p in
    plan_validate sha q = None \<and> ap_granted a \<and> ap_plan_id a = p_id q \<and>
    ap_token a = (if cf_kind (p_confirmation q) = confirmation_typed then cf_token (p_confirmation q) else []) \<and>
    input_conditions q = [] \<and> blocking_conditions q = [] \<and>
    (is_transition_action (p_action q) \<longrightarrow>
      edge_target (l_mode (p_locator q)) (l_state (p_locator q)) (p_action q) = Some (p_target q)) \<and>
    (\<exists>h f r0. sv_handlers sv (p_action q) = Some h \<and> hd_apply h = Some f \<and> f (plan_clone q) w = (r0, err, w') \<and>
      fr_steps r = fr_steps r0)"
  using assms(1)
proof (cases rule: service_apply_cases)
  case (refused e)
  with assms(2) show ?thesis by simp
next
  case (ran h f r0)
  let ?q = "plan_clone p"
  from ran(1) have ok: "plan_ok sha ?q" "ap_granted a" "ap_plan_id a = p_id ?q"
    "ap_token a = (if cf_kind (p_confirmation ?q) = confirmation_typed then cf_token (p_confirmation ?q) else [])"
    "p_availability ?q = Ready"
    by (auto simp: may_apply_def validate_approval_iff)
  have "edge_target (l_mode (p_locator ?q)) (l_state (p_locator ?q)) (p_action ?q) = Some (p_target ?q)"
    if "is_transition_action (p_action ?q)"
    using that ok(1) require_transition_rule
    by (auto simp: plan_ok_def plan_transition_error_def split: sum.splits)
  moreover have "p_action ?q = p_action p" by (simp add: plan_clone_def)
  moreover have "plan_validate sha ?q = None" using ok(1) by (simp add: plan_validate_iff)
  ultimately show ?thesis
    using ok(2-4) available_conditions [OF ok(1,5)] ran(2-5) unfolding Let_def by auto
qed

text \<open>
  A plan goes through: whatever a service planned, when its required conditions are met and
  the operator grants it with its own PlanID and token, Apply of the same service runs the
  apply hook of its action on exactly that plan and returns the hook's error and effects.
\<close>

lemma planned_applies:
  assumes "service_plan sha sv request w = (Inr p, w1)"
    and "\<forall>c \<in> set (p_conditions p). c_requirement c = requirement_advisory \<or>
      (c_requirement c = requirement_required \<and> c_verdict c = verdict_met)"
    and "sv_handlers sv (p_action p) = Some h" and "hd_apply h = Some f" and "f p w2 = (r0, err, w3)"
    and "token = (if cf_kind (p_confirmation p) = confirmation_typed then cf_token (p_confirmation p) else [])"
  shows "service_apply sha sv p (approve_with_token (p_id p) token) w2 =
    (if err \<noteq> None \<and> completed_steps r0 \<noteq> [] then r0\<lparr>fr_partial := True\<rparr> else r0, err, w3)"
proof -
  from assms(1) obtain q spec where "build_plan sha q spec = Inr p"
    by (auto simp: service_plan_def split: sum.splits option.splits prod.splits)
  then have ok: "plan_ok sha p" "plan_clone p = p" by (simp_all add: built_plan_ok)
  have "availability_for (p_conditions p) = Ready"
    using assms(2) by (simp add: availability_Ready_iff)
  with ok assms(6) have "may_apply sha p (approve_with_token (p_id p) token)"
    by (simp add: may_apply_def validate_approval_iff approve_with_token_def plan_ok_def)
  with ok(2) assms(5) show ?thesis by (intro service_apply_ran [OF _ assms(3,4)]) simp_all
qed

text \<open>
  An approval cannot be moved: an approval that a validated plan accepts makes Apply run
  another plan only when the two agree in everything the identity binds, unless SHA-256
  collides on what their validations hash.
\<close>

lemma approval_not_transferable:
  assumes "validate_approval sha p a = None"
    and "service_apply sha sv q a w = (r, err, w')" and "err = None \<or> w' \<noteq> w"
    and "tells_apart sha (plan_writes p \<union> plan_writes (plan_clone q))"
  shows "plan_core p = plan_core (plan_clone q)"
  using assms(2)
proof (cases rule: service_apply_cases)
  case (refused e)
  with assms(3) show ?thesis by simp
next
  case (ran h f r0)
  then have "plan_validate sha (plan_clone q) = None" "ap_plan_id a = p_id (plan_clone q)"
    by (auto simp: may_apply_def validate_approval_iff plan_validate_iff)
  moreover from assms(1) have "plan_validate sha p = None" "ap_plan_id a = p_id p"
    by (auto simp: validate_approval_iff plan_validate_iff)
  ultimately show ?thesis using plan_id_core [OF _ _ assms(4)] by simp
qed

text \<open>
  Partial work is never reported as clean: a result of Apply with an error and a completed
  step, and a new result with a completed and a failed step, are marked partial, and the steps
  are reported as the handler gave them.
\<close>

lemma partial_work_reported:
  "(case service_apply sha sv p a w of (r, err, w') \<Rightarrow>
      err = None \<or> completed_steps r = [] \<or> fr_partial r) \<and>
   (completed_steps (new_result spec) = [] \<or> failed_steps (new_result spec) = [] \<or> fr_partial (new_result spec)) \<and>
   fr_steps (new_result spec) = rs_steps spec"
proof -
  obtain r err w' where run: "service_apply sha sv p a w = (r, err, w')" by (cases rule: prod_cases3)
  then have "err = None \<or> completed_steps r = [] \<or> fr_partial r"
    by (cases rule: service_apply_cases) (auto simp: completed_steps_def no_result_def steps_with_status_def)
  with run show ?thesis
    by (simp add: new_result_def Let_def completed_steps_def failed_steps_def)
qed

end
