(* ===== verification/FlowDemo.thy ===== *)
theory FlowDemo
  imports FlowService
begin

text \<open>
  The planner's theorems at concrete inputs: a WARM task on a branch is resumed by a service
  whose apply hook records one completed step.
\<close>

definition demo_locator :: locator where
  "demo_locator = \<lparr>l_repo_key = ''repo'', l_row_key = ''row'', l_row_kind = ''task'', l_repository_id = [],
    l_git_common_dir = ''/r/.git'', l_task_id = ''repo__b'', l_task_revision = ''1'', l_repo_path = ''/r'',
    l_checkout_path = ''/r'', l_branch = ''b'', l_base = ''main'', l_upstream = [], l_remote = [],
    l_head_oid = ''0'', l_base_oid = ''1'', l_upstream_oid = [], l_mode = mode_branch, l_state = state_warm\<rparr>"

definition flow_demo_request :: frequest where
  "flow_demo_request = \<lparr>q_locator = demo_locator, q_action = resume, q_options = ONil, q_displayed_at = zero_time\<rparr>"

definition demo_condition :: condition where
  "demo_condition = \<lparr>c_code = ''clean'', c_verdict = verdict_met, c_requirement = requirement_required,
    c_evidence = [], c_remediation = []\<rparr>"

definition demo_advice :: condition where
  "demo_advice = \<lparr>c_code = ''advice'', c_verdict = verdict_blocked, c_requirement = requirement_advisory,
    c_evidence = [], c_remediation = []\<rparr>"

definition demo_confirmation :: confirmation where
  "demo_confirmation = \<lparr>cf_kind = confirmation_typed, cf_prompt = ''type b'', cf_token = ''b''\<rparr>"

definition demo_spec :: plan_spec where
  "demo_spec = \<lparr>ps_authority = [(''status'', ''clean'')], ps_conditions = [demo_condition, demo_advice],
    ps_effects = [], ps_retained = [], ps_confirmation = demo_confirmation, ps_fallback = [],
    ps_summary = ''resume'', ps_displayed_at = zero_time\<rparr>"

text \<open>The first bytes of a payload hold its domain, which tells the three kinds apart.\<close>

definition demo_sha :: "string \<Rightarrow> string" where
  "demo_sha s = take 64 s"

definition demo_plan :: plan where
  "demo_plan = (case build_plan demo_sha flow_demo_request demo_spec of Inr p \<Rightarrow> p)"

definition demo_step :: step_result where
  "demo_step = \<lparr>sr_diagnostic = None,
    sr_effect = new_effect ''resume'' [] [] False False [], sr_status = StepCompleted, sr_detail = [],
    sr_failure = [], sr_started_at = zero_time, sr_finished_at = zero_time\<rparr>"

definition demo_handler :: "nat handler" where
  "demo_handler = \<lparr>hd_plan = Some (\<lambda>q w. (Inr demo_spec, w)),
    hd_apply = Some (\<lambda>p w. (no_result\<lparr>fr_steps := [demo_step]\<rparr>, None, w + 1))\<rparr>"

definition demo_service :: "nat service" where
  "demo_service = new_service [resume \<mapsto> demo_handler]"

lemma demo_transition: "\<exists>r. require_transition mode_branch state_warm resume = Inr r"
  by (subst require_transition_iff) (simp_all add: valid_mode_def mode_order_def edge_target_def)

definition demo_options :: action_options where
  "demo_options = ResumeO \<lparr>rs_fetch_refs = False, rs_no_provision = False, rs_take_ownership = False\<rparr>"

lemma demo_normalized: "normalize_request flow_demo_request = Inr (flow_demo_request\<lparr>q_options := OVal demo_options\<rparr>)"
  using demo_transition
  by (auto simp: normalize_request_def flow_demo_request_def demo_locator_def demo_options_def action_valid_def action_order_def
      default_action_options_def)

lemma demo_normal: "normalize_request (flow_demo_request\<lparr>q_options := OVal demo_options\<rparr>) = normalize_request flow_demo_request"
  using demo_transition unfolding demo_normalized
  by (auto simp: normalize_request_def flow_demo_request_def demo_locator_def demo_options_def action_valid_def action_order_def)

lemma demo_codes: "stable_code ''clean'' \<and> stable_code ''advice''"
  by (simp add: stable_code_def is_code_char_def char_class_defs)

lemma demo_built: "build_plan demo_sha flow_demo_request demo_spec = Inr demo_plan"
proof -
  have "record_transition (draft_plan (flow_demo_request\<lparr>q_options := OVal demo_options\<rparr>) demo_spec) \<noteq> Inl e" for e
    using demo_transition
    by (auto simp: record_transition_def draft_plan_def flow_demo_request_def demo_locator_def is_transition_action_def
        transition_action_order_def)
  then have "\<exists>p. build_plan demo_sha flow_demo_request demo_spec = Inr p"
    using demo_codes unfolding build_plan_def demo_normalized
    by (auto simp: demo_spec_def demo_confirmation_def demo_condition_def demo_advice_def confirmation_ok_def
        conditions_ok_def condition_ok_def effects_ok_def authority_ok_def new_fields_def split: sum.splits)
  then show ?thesis by (auto simp: demo_plan_def)
qed

lemma demo_ok: "plan_ok demo_sha demo_plan" "plan_clone demo_plan = demo_plan"
  using built_plan_ok [OF demo_built] by simp_all

lemma demo_fields:
  "p_conditions demo_plan = [demo_condition, demo_advice]" "p_action demo_plan = resume"
  "p_confirmation demo_plan = demo_confirmation"
  "p_request demo_plan = flow_demo_request\<lparr>q_options := OVal demo_options\<rparr>"
proof -
  from demo_built obtain q where q: "normalize_request flow_demo_request = Inr q"
    and p: "p_conditions demo_plan = ps_conditions demo_spec" "p_action demo_plan = q_action q"
      "p_confirmation demo_plan = ps_confirmation demo_spec" "p_request demo_plan = request_clone q"
    by (rule build_plan_cases) (rule that)
  from q have "q = flow_demo_request\<lparr>q_options := OVal demo_options\<rparr>" by (simp add: demo_normalized)
  with p show "p_conditions demo_plan = [demo_condition, demo_advice]" "p_action demo_plan = resume"
    "p_confirmation demo_plan = demo_confirmation" "p_request demo_plan = flow_demo_request\<lparr>q_options := OVal demo_options\<rparr>"
    by (simp_all add: demo_spec_def flow_demo_request_def request_clone_def demo_options_def)
qed

theorem built_plan_valid_witness:
  "build_plan demo_sha flow_demo_request demo_spec = Inr demo_plan \<and> plan_validate demo_sha demo_plan = None"
  using built_plan_valid [OF demo_built] demo_built by simp

lemma availability_worst_witness:
  "availability_for [demo_condition, demo_advice] = Ready \<and>
    AvError \<le> availability_for [demo_advice, demo_condition\<lparr>c_verdict := verdict_error\<rparr>]"
proof -
  have "availability_for [demo_condition, demo_advice] = Ready"
    using availability_worst [of "[demo_condition, demo_advice]", THEN conjunct1]
    by (simp add: demo_condition_def demo_advice_def)
  moreover have "candidate_availability (demo_condition\<lparr>c_verdict := verdict_error\<rparr>) = AvError"
    by (simp add: candidate_availability_def demo_condition_def)
  ultimately show ?thesis
    using availability_worst [of "[demo_advice, demo_condition\<lparr>c_verdict := verdict_error\<rparr>]", THEN conjunct2, THEN conjunct1]
    by (simp add: demo_condition_def)
qed

theorem task_lives_witness: "task_reaches mode_direct (Some state_hot) None"
  using task_lives [of mode_direct state_hot] task_reaches.start [of mode_direct "Some state_hot"]
  by (simp add: valid_mode_def mode_order_def)

lemma planned_applies_witness:
  "service_apply demo_sha demo_service demo_plan (approve_with_token (p_id demo_plan) ''b'') 4 =
    (no_result\<lparr>fr_steps := [demo_step]\<rparr>, None, 5)"
proof -
  have "service_plan demo_sha demo_service flow_demo_request 3 = (Inr demo_plan, 3)"
  proof -
    have "build_plan demo_sha (flow_demo_request\<lparr>q_options := OVal demo_options\<rparr>) demo_spec = Inr demo_plan"
      using demo_built by (simp add: build_plan_def demo_normal)
    moreover have "q_action flow_demo_request = resume" by (simp add: flow_demo_request_def)
    ultimately show ?thesis
      by (simp add: service_plan_def demo_normalized demo_service_def new_service_def demo_handler_def)
  qed
  from planned_applies [OF this, of demo_handler "the (hd_apply demo_handler)" 4 "no_result\<lparr>fr_steps := [demo_step]\<rparr>" None 5 "''b''"]
  show ?thesis
    by (simp add: demo_fields demo_condition_def demo_advice_def demo_service_def new_service_def demo_handler_def demo_confirmation_def)
qed

lemma demo_applied:
  "service_apply demo_sha demo_service demo_plan (approve_with_token (p_id demo_plan) ''b'') 4 =
    (no_result\<lparr>fr_steps := [demo_step]\<rparr>, None, 5)"
proof -
  have "p_availability demo_plan = Ready"
    using demo_ok(1) demo_fields(1)
    by (simp add: plan_ok_def availability_Ready_iff demo_condition_def demo_advice_def)
  then have "may_apply demo_sha demo_plan (approve_with_token (p_id demo_plan) ''b'')"
    using demo_ok by (simp add: may_apply_def validate_approval_iff approve_with_token_def demo_fields demo_confirmation_def)
  then show ?thesis
    using service_apply_ran [of demo_sha demo_plan _ demo_service demo_handler "the (hd_apply demo_handler)" 4 "no_result\<lparr>fr_steps := [demo_step]\<rparr>" None 5]
    by (simp add: demo_ok demo_fields demo_service_def new_service_def demo_handler_def)
qed

theorem apply_guarded_witness:
  "plan_validate demo_sha demo_plan = None \<and> blocking_conditions demo_plan = [] \<and>
    edge_target mode_branch state_warm resume = Some (p_target demo_plan)"
proof -
  have "p_locator demo_plan = demo_locator"
    using demo_ok(1) demo_fields(4) by (simp add: plan_ok_def flow_demo_request_def)
  with apply_guarded [OF demo_applied] show ?thesis
    by (simp add: demo_ok demo_fields is_transition_action_def transition_action_order_def demo_locator_def)
qed

section \<open>Identities\<close>

lemma plan_clone_iff: "plan_clone p = p \<longleftrightarrow> request_clone (p_request p) = p_request p"
  by (cases p) (simp add: plan_clone_def)

definition shown_plan :: plan where
  "shown_plan = demo_plan\<lparr>p_summary := ''another text''\<rparr>"

lemma shown_ok: "plan_ok demo_sha shown_plan" "plan_clone shown_plan = shown_plan" "plan_writes shown_plan = plan_writes demo_plan"
proof -
  have "plan_transition_error shown_plan = plan_transition_error demo_plan"
    by (simp add: shown_plan_def plan_transition_error_def split: sum.split)
  moreover have "compute_plan_identity demo_sha shown_plan = compute_plan_identity demo_sha demo_plan" "plan_items shown_plan = plan_items demo_plan"
    by (simp_all add: shown_plan_def compute_plan_identity_def plan_items_def)
  moreover have "p_id shown_plan = p_id demo_plan \<and> p_fingerprint shown_plan = p_fingerprint demo_plan \<and>
      p_action shown_plan = p_action demo_plan \<and> p_request shown_plan = p_request demo_plan \<and>
      p_locator shown_plan = p_locator demo_plan \<and> p_confirmation shown_plan = p_confirmation demo_plan \<and>
      p_conditions shown_plan = p_conditions demo_plan \<and> p_effects shown_plan = p_effects demo_plan \<and>
      p_authority shown_plan = p_authority demo_plan \<and> p_availability shown_plan = p_availability demo_plan"
    by (simp add: shown_plan_def)
  ultimately show "plan_ok demo_sha shown_plan" "plan_writes shown_plan = plan_writes demo_plan"
    using demo_ok(1) by (simp_all add: plan_ok_def plan_writes_def)
  show "plan_clone shown_plan = shown_plan"
    using demo_ok(2) by (simp add: plan_clone_iff) (simp add: shown_plan_def)
qed

lemma demo_rule:
  "require_transition mode_branch state_warm resume = Inr (allowed_rule mode_branch (state_warm, resume, state_hot, False, False, []))"
proof -
  have "valid_mode mode_branch" "valid_state state_warm" "is_transition_action resume"
    by (simp_all add: valid_mode_def mode_order_def valid_state_def state_order_def is_transition_action_def
        transition_action_order_def)
  moreover have "edge_at mode_branch state_warm resume = Some (state_warm, resume, state_hot, False, False, [])"
    by (simp add: edge_at_def edges_of_def checkout_edges_def)
  ultimately show ?thesis
    by (simp add: require_transition_def lookup_transition_def table_lookup allowed_rule_def allow_def)
qed

definition demo_draft :: plan where
  "demo_draft = (draft_plan (flow_demo_request\<lparr>q_options := OVal demo_options\<rparr>) demo_spec)
    \<lparr>p_has_transition := True, p_target := state_hot, p_preserving := False, p_removes := False, p_milestone := []\<rparr>"

lemma flow_demo_sealed: "demo_plan = seal_plan demo_sha demo_draft"
proof -
  have "record_transition (draft_plan (flow_demo_request\<lparr>q_options := OVal demo_options\<rparr>) demo_spec) = Inr demo_draft"
    unfolding demo_draft_def
    by (simp add: record_transition_def draft_plan_def flow_demo_request_def demo_locator_def demo_rule allowed_rule_def allow_def
        is_transition_action_def transition_action_order_def)
  with demo_built show ?thesis
    unfolding build_plan_def demo_normalized by (simp split: if_splits)
qed

lemma demo_items: "plan_items demo_plan = plan_items demo_draft"
proof -
  have "request_clone (p_request demo_draft) = p_request demo_draft"
    by (simp add: demo_draft_def draft_plan_def request_clone_def demo_options_def)
  then show ?thesis
    by (simp add: flow_demo_sealed seal_plan_def plan_clone_def plan_items_def split: prod.split)
qed

definition small :: "string list \<Rightarrow> bool" where
  "small items \<longleftrightarrow> (\<forall>s \<in> set items. length s < 2 ^ 64)"

lemma small_simps [simp]: "small (a @ b) = (small a \<and> small b)" "small (s # a) = (length s < 2 ^ 64 \<and> small a)" "small []"
  by (auto simp: small_def)

lemma small_numbers: "length (dec_of 0) = 1 \<and> length (dec_of 1) = 1 \<and> length (int_text 0) = 1 \<and>
    length (int_text 1) = 1 \<and> length (int_text 2) = 1"
  by (simp add: int_text_def dec_of.simps)

lemma small_request: "small (append_request_identity (p_request demo_plan))"
  unfolding demo_fields
  by (simp add: append_request_identity_def flow_demo_request_def demo_locator_def locator_identity_def id_scalar_defs
      options_identity_def value_action_def demo_options_def is_completion_action_def bool_text_def)

lemma small_items: "small (plan_items demo_plan)"
proof -
  have "p_request demo_draft = p_request demo_plan"
    unfolding demo_fields by (simp add: demo_draft_def draft_plan_def request_clone_def demo_options_def)
  note request = this
  show ?thesis
    unfolding demo_items unfolding plan_items_def request
    using small_request small_numbers
    by (simp add: demo_draft_def draft_plan_def demo_spec_def flow_demo_request_def demo_locator_def demo_confirmation_def
        demo_condition_def demo_advice_def id_scalar_defs id_fields_def id_strings_def new_fields_def
        condition_identity_def bool_text_def Let_def)
qed

text \<open>The first 64 bytes that are hashed differ with the domain.\<close>

lemma demo_sha_writer: "demo_sha (concat (map frame (writer d items))) = take 64 (frame ''domain'' @ frame d @ concat (map frame items))"
  by (simp add: demo_sha_def writer_def id_string_def)

lemma demo_domains:
  assumes "demo_sha (concat (map frame (writer d items))) = demo_sha (concat (map frame (writer d' items')))"
    and "length d < 2 ^ 64" "length d' < 2 ^ 64"
  shows "length d = length d'"
proof -
  have cut: "take 22 (demo_sha (concat (map frame (writer d items)))) = frame ''domain'' @ be64 (length d)" for d items
    unfolding demo_sha_writer by (simp add: frame_def)
  from arg_cong [OF assms(1), of "take 22"] have "be64 (length d) = be64 (length d')"
    by (simp only: cut same_append_eq)
  with assms(2,3) show ?thesis by (metis be_val_be64)
qed

lemma demo_tells_apart: "tells_apart demo_sha (plan_writes demo_plan)"
proof -
  let ?r = "writer ''taskflow-request-v1'' (append_request_identity (p_request demo_plan))"
  let ?a = "writer ''taskflow-authority-v1'' (plan_items demo_plan)"
  let ?p = "writer ''taskflow-plan-v1'' (id_string ''authority-fingerprint'' (p_fingerprint demo_plan))"
  have "normalize_request (p_request demo_plan) = Inr (p_request demo_plan)"
    by (simp add: demo_fields demo_normal demo_normalized)
  then have ws: "plan_writes demo_plan = {?r, ?a, ?p}" by (auto simp: plan_writes_def)
  have "length (p_fingerprint demo_plan) \<le> 200"
    unfolding plan_ok_sealed(1) [OF demo_ok(1)] sum_hex_def
    by (simp add: demo_sha_def hex_bytes_def length_concat comp_def sum_list_triv)
  then have small: "small ?r \<and> small ?a \<and> small ?p"
    using small_request small_items by (simp add: writer_def id_string_def)
  have differ: "length d \<noteq> length d' \<Longrightarrow> length d < 2 ^ 64 \<Longrightarrow> length d' < 2 ^ 64 \<Longrightarrow>
      demo_sha (concat (map frame (writer d i))) \<noteq> demo_sha (concat (map frame (writer d' i')))" for d d' i i'
    using demo_domains by blast
  have "inj_on (\<lambda>w. demo_sha (concat (map frame w))) {?r, ?a, ?p}"
    by (intro inj_on_insert [THEN iffD2] conjI) (auto dest!: demo_domains)
  with small show ?thesis by (auto simp: tells_apart_def ws small_def)
qed

theorem plan_id_binds_witness: "p_id demo_plan = p_id shown_plan \<and> plan_core demo_plan = plan_core shown_plan"
proof -
  have "p_id demo_plan = p_id shown_plan \<longleftrightarrow> plan_core demo_plan = plan_core shown_plan"
    using demo_ok(1) shown_ok(1,3) demo_tells_apart
    by (intro plan_id_binds [of demo_sha]) (simp_all add: plan_validate_iff)
  then show ?thesis by (simp add: shown_plan_def)
qed

lemma approval_not_transferable_witness: "plan_core shown_plan = plan_core demo_plan"
proof -
  have "validate_approval demo_sha shown_plan (approve_with_token (p_id demo_plan) ''b'') = None"
    using shown_ok(1) demo_fields(3)
    by (simp add: validate_approval_iff approve_with_token_def shown_plan_def demo_confirmation_def)
  from approval_not_transferable [OF this demo_applied] show ?thesis
    using demo_tells_apart by (simp add: demo_ok shown_ok)
qed

end
