(* ===== verification/IgnoreMerge.thy ===== *)
theory IgnoreMerge
  imports GoText
begin

text \<open>
  \<open>internal/ignore/compose.go\<close>: the managed block of a \<open>.gitignore\<close>, how it is rendered and
  how it is spliced into an existing file. The operating system's name is a parameter.
\<close>

section \<open>strings.Index\<close>

fun str_index :: "string \<Rightarrow> string \<Rightarrow> nat option" where
  \<comment> \<open>\<open>None\<close> is \<open>-1\<close>\<close>
  "str_index [] n = (if n = [] then Some 0 else None)"
| "str_index (c # s) n = (if has_prefix (c # s) n then Some 0 else map_option Suc (str_index s n))"

lemma str_index_None: "str_index s n = None \<longleftrightarrow> \<not> contains_str s n"
  by (induction s n rule: str_index.induct) auto

abbreviation nl :: char where "nl \<equiv> CHR 0x0A"

text \<open>A text without a newline is found within one line.\<close>

lemma has_prefix_line: "nl \<notin> set n \<Longrightarrow> has_prefix (a @ nl # b) n \<longleftrightarrow> has_prefix a n"
proof (induction a n rule: has_prefix.induct)
  case (2 p ps)
  then show ?case by (cases ps) auto
qed auto

lemma str_index_line:
  assumes "nl \<notin> set n" and "n \<noteq> []"
  shows "str_index (a @ nl # b) n =
    (case str_index a n of Some i \<Rightarrow> Some i | None \<Rightarrow> map_option (\<lambda>i. length a + 1 + i) (str_index b n))"
proof (induction a)
  case Nil
  have "\<not> has_prefix (nl # b) n" using assms has_prefix_line [of n "[]" b] by (cases n) auto
  with assms(2) show ?case by (cases "str_index b n") simp_all
next
  case (Cons c a)
  have "has_prefix (c # a @ nl # b) n = has_prefix (c # a) n" using has_prefix_line [OF assms(1), of "c # a" b] by simp
  with Cons show ?case by (cases "str_index b n") (simp_all split: option.splits)
qed

lemma contains_line:
  assumes "nl \<notin> set n" and "n \<noteq> []"
  shows "contains_str (a @ nl # b) n \<longleftrightarrow> contains_str a n \<or> contains_str b n"
  using str_index_line [OF assms, of a b] str_index_None [of a n] str_index_None [of b n]
    str_index_None [of "a @ nl # b" n]
  by (auto split: option.splits)

section \<open>The block\<close>

definition block_begin :: string where
  "block_begin = ''# >>> dev gitignore >>>''"

definition block_end :: string where
  "block_end = ''# <<< dev gitignore <<<''"

record gi_section =
  gi_name :: string
  gi_body :: string
  gi_source :: string

record gi_extras =
  gx_os :: bool
  gx_editors :: bool
  gx_agents :: bool
  gx_env :: bool

definition default_extras :: gi_extras where
  "default_extras = \<lparr>gx_os = True, gx_editors = True, gx_agents = True, gx_env = True\<rparr>"

definition lines_text :: "string list \<Rightarrow> string" where
  "lines_text ls = join_str [nl] ls"

definition os_section :: "string \<Rightarrow> string" where
  "os_section goos = lines_text
    (if goos = ''darwin'' then
       [''# macOS'', ''.DS_Store'', ''.AppleDouble'', ''.LSOverride'', ''._*'', ''.Spotlight-V100'', ''.Trashes'']
     else if goos = ''windows'' then
       [''# Windows'', ''Thumbs.db'', ''Thumbs.db:encryptable'', ''ehthumbs.db'', ''Desktop.ini'', ''$RECYCLE.BIN/'']
     else
       [''# Linux'', ''*~'', ''.fuse_hidden*'', ''.directory'', ''.Trash-*'', ''.nfs*''])"

definition editors_section :: string where
  "editors_section = lines_text
    [''# Editors and IDEs'', ''.idea/'', ''*.iml'', ''.vscode/*'', ''!.vscode/settings.json'',
     ''!.vscode/extensions.json'', ''!.vscode/launch.json'', ''*.swp'', ''*.swo'', ''.nvimlog'', ''.null-ls_*'']"

definition agents_section :: string where
  "agents_section = lines_text
    [''# Ephemeral coding-agent state'', ''.claude/worktrees/'', ''.claude/settings.local.json'', ''.aider*'',
     ''.cursor/rules/_generated/'', ''.specstory/statistics.json'']"

definition env_section :: string where
  "env_section = lines_text
    [''# Local environment and secrets '' @ [CHR 0xE2, CHR 0x80, CHR 0x94] @ '' never commit real values'',
     ''.env'', ''.env.*'', ''!.env.example'', ''!.env.template'', ''*.local'', ''.direnv/'']"

text \<open>What \<open>Compose\<close> writes between the line of the first marker and the last one.\<close>

definition compose_body :: "string \<Rightarrow> gi_section list \<Rightarrow> gi_extras \<Rightarrow> string" where
  "compose_body goos sections x =
    ''# Generated by `dev gitignore`. Edit outside this block, or re-run to update.'' @ [nl] @
    concat (map (\<lambda>s. [nl] @ ''# --- '' @ gi_name s @ '' ('' @ gi_source s @ '') ---'' @ [nl] @ gi_body s @ [nl]) sections) @
    concat (map (\<lambda>t. [nl] @ t @ [nl])
      ((if gx_os x then [os_section goos] else []) @ (if gx_editors x then [editors_section] else []) @
       (if gx_agents x then [agents_section] else []) @ (if gx_env x then [env_section] else [])))"

definition compose :: "string \<Rightarrow> gi_section list \<Rightarrow> gi_extras \<Rightarrow> string" where
  "compose goos sections x = block_begin @ [nl] @ compose_body goos sections x @ block_end @ [nl]"

section \<open>Splicing\<close>

definition append_block :: "string \<Rightarrow> string \<Rightarrow> string" where
  "append_block existing block =
    (if trim_space existing = [] then block
     else (if has_suffix existing [nl] then existing else existing @ [nl]) @ [nl] @ block)"

definition merge_block :: "string \<Rightarrow> string \<Rightarrow> string" where
  "merge_block existing block =
    (case (str_index existing block_begin, str_index existing block_end) of
       (Some start, Some end_at) \<Rightarrow>
         if start < end_at then
           (let tail = end_at + length block_end;
                tail = (if tail < length existing \<and> existing ! tail = nl then tail + 1 else tail)
            in take start existing @ block @ drop tail existing)
         else append_block existing block
     | _ \<Rightarrow> append_block existing block)"

definition has_managed_block :: "string \<Rightarrow> bool" where
  "has_managed_block content \<longleftrightarrow> contains_str content block_begin \<and> contains_str content block_end"

section \<open>Blocks replace blocks\<close>

lemmas marker_defs = block_begin_def block_end_def

lemma markers_line: "nl \<notin> set block_begin" "nl \<notin> set block_end" "block_begin \<noteq> []" "block_end \<noteq> []"
  by (simp_all add: marker_defs)

lemma marker_lengths: "length block_begin = 23" "length block_end = 23"
  by (simp_all add: marker_defs)

text \<open>A text of whole lines.\<close>

definition whole_lines :: "string \<Rightarrow> bool" where
  "whole_lines s \<longleftrightarrow> s = [] \<or> (\<exists>t. s = t @ [nl])"

lemma whole_lines_index:
  assumes "whole_lines s" and "nl \<notin> set n" and "n \<noteq> []"
  shows "str_index (s @ t) n =
    (case str_index s n of Some i \<Rightarrow> Some i | None \<Rightarrow> map_option (\<lambda>i. length s + i) (str_index t n))"
proof (cases "s = []")
  case True
  with assms(3) show ?thesis by (cases "str_index t n") simp_all
next
  case False
  with assms(1) obtain u where u: "s = u @ [nl]" by (auto simp: whole_lines_def)
  have "str_index [] n = None" using assms(3) by simp
  with u show ?thesis
    using str_index_line [OF assms(2,3), of u t] str_index_line [OF assms(2,3), of u "[]"]
    by (auto split: option.splits)
qed

lemma whole_lines_contains:
  assumes "whole_lines s" and "nl \<notin> set n" and "n \<noteq> []"
  shows "contains_str (s @ t) n \<longleftrightarrow> contains_str s n \<or> contains_str t n"
  using whole_lines_index [OF assms, of t] str_index_None [of s n] str_index_None [of t n] str_index_None [of "s @ t" n]
  by (auto split: option.splits)

lemma whole_lines_append: "whole_lines a \<Longrightarrow> whole_lines b \<Longrightarrow> whole_lines (a @ b)"
  by (auto simp: whole_lines_def)

lemma whole_lines_Nil [simp]: "whole_lines []"
  by (simp add: whole_lines_def)

lemma whole_lines_concat: "\<forall>x \<in> set xs. whole_lines x \<Longrightarrow> whole_lines (concat xs)"
  by (induction xs) (auto intro: whole_lines_append)

lemma compose_body_lines: "whole_lines (compose_body goos sections x)"
  unfolding compose_body_def append_assoc [symmetric]
  by (rule whole_lines_append, rule whole_lines_append, simp add: whole_lines_def)
    (rule whole_lines_concat, auto simp: whole_lines_def)+

text \<open>A managed block as \<open>Compose\<close> renders it, whatever templates it holds, without a marker inside.\<close>

definition managed_block :: "string \<Rightarrow> bool" where
  "managed_block b \<longleftrightarrow> (\<exists>body. b = block_begin @ [nl] @ body @ block_end @ [nl] \<and> whole_lines body \<and>
    \<not> contains_str body block_end)"

lemma compose_managed:
  "\<not> contains_str (compose_body goos sections x) block_end \<Longrightarrow> managed_block (compose goos sections x)"
  using compose_body_lines by (auto simp: managed_block_def compose_def)

lemma str_index_here: "n \<noteq> [] \<Longrightarrow> str_index (n @ t) n = Some 0"
  using has_prefix_append [of n t] by (cases n) auto

text \<open>Where the markers of a file with one block are found.\<close>

lemma block_indices:
  assumes "whole_lines pre" and "\<not> contains_str pre block_begin" "\<not> contains_str pre block_end"
    and "whole_lines body" "\<not> contains_str body block_end"
  shows "str_index (pre @ block_begin @ [nl] @ body @ block_end @ [nl] @ post) block_begin = Some (length pre)"
    and "str_index (pre @ block_begin @ [nl] @ body @ block_end @ [nl] @ post) block_end =
      Some (length pre + 24 + length body)"
proof -
  note bm = markers_line(1,3) and em = markers_line(2,4)
  have none: "str_index pre block_begin = None" "str_index pre block_end = None" "str_index body block_end = None"
    using assms by (simp_all add: str_index_None)
  show "str_index (pre @ block_begin @ [nl] @ body @ block_end @ [nl] @ post) block_begin = Some (length pre)"
    unfolding whole_lines_index [OF assms(1) bm] by (simp add: none str_index_here bm)
  have "str_index block_begin block_end = None" by (simp add: marker_defs)
  then have "str_index (block_begin @ nl # (body @ block_end @ [nl] @ post)) block_end = Some (24 + length body)"
    unfolding str_index_line [OF em] whole_lines_index [OF assms(4) em]
    by (simp add: none str_index_here em marker_lengths)
  then show "str_index (pre @ block_begin @ [nl] @ body @ block_end @ [nl] @ post) block_end =
      Some (length pre + 24 + length body)"
    unfolding whole_lines_index [OF assms(1) em] by (simp add: none)
qed

lemma merge_replaces:
  assumes "whole_lines pre" and "\<not> contains_str pre block_begin" "\<not> contains_str pre block_end"
    and "managed_block b"
  shows "merge_block (pre @ b @ post) b' = pre @ b' @ post"
proof -
  from assms(4) obtain body where b: "b = block_begin @ [nl] @ body @ block_end @ [nl]"
    "whole_lines body" "\<not> contains_str body block_end" by (auto simp: managed_block_def)
  let ?e = "pre @ block_begin @ [nl] @ body @ block_end @ [nl] @ post"
  note found = block_indices [OF assms(1-3) b(2,3), of post]
  have e: "?e = (pre @ block_begin @ [nl] @ body @ block_end) @ nl # post" by simp
  let ?h = "pre @ block_begin @ [nl] @ body @ block_end"
  have len: "length ?h = length pre + 24 + length body + 23" by (simp add: marker_lengths)
  have tail: "?e ! length ?h = nl" "drop (length ?h + 1) ?e = post" "length ?h < length ?e"
    unfolding e using nth_append_length [of ?h nl post] by (simp_all only: length_append list.size drop_append) simp_all
  have "merge_block ?e b' = take (length pre) ?e @ b' @ drop (length ?h + 1) ?e"
    using found tail unfolding merge_block_def len marker_lengths
    by (simp only: prod.case option.case Let_def) simp
  moreover have "take (length pre) ?e = pre" by simp
  moreover have "pre @ b @ post = ?e" by (simp add: b(1))
  ultimately show ?thesis using tail(2) by simp
qed

lemma append_block_form:
  assumes "\<not> contains_str e block_begin" "\<not> contains_str e block_end"
  shows "\<exists>pre. whole_lines pre \<and> \<not> contains_str pre block_begin \<and> \<not> contains_str pre block_end \<and>
    (\<forall>b. merge_block e b = pre @ b)"
proof (cases "trim_space e = []")
  case True
  then have "\<forall>b. merge_block e b = [] @ b"
    using assms by (simp add: merge_block_def append_block_def str_index_None [symmetric])
  moreover have "\<not> contains_str [] block_begin" "\<not> contains_str [] block_end" by (simp_all add: markers_line)
  ultimately show ?thesis by (intro exI [of _ "[]"]) (simp add: whole_lines_def)
next
  case False
  let ?u = "if has_suffix e [nl] then e else e @ [nl]"
  have plain: "\<not> contains_str ?u n \<and> \<not> contains_str (?u @ [nl]) n"
    if "nl \<notin> set n" "n \<noteq> []" "\<not> contains_str e n" for n
    using that contains_line [OF that(1,2), of e "[]"] contains_line [OF that(1,2), of ?u "[]"] by auto
  have "\<forall>b. merge_block e b = (?u @ [nl]) @ b"
    using False assms by (simp add: merge_block_def append_block_def str_index_None [symmetric])
  moreover have "whole_lines (?u @ [nl])" by (simp add: whole_lines_def)
  ultimately show ?thesis using plain assms markers_line by blast
qed


section \<open>Dangling markers\<close>

lemma trim_with_keeps: "c \<in> set s \<Longrightarrow> \<forall>w \<in> set ws. c \<notin> set w \<Longrightarrow> c \<in> set (trim_with ws s)"
proof (induction ws s rule: trim_with.induct)
  case (1 ws s)
  show ?case
  proof (cases "List.find (\<lambda>w. w \<noteq> [] \<and> has_prefix s w) ws")
    case None
    with 1(2) show ?thesis by (subst trim_with.simps) simp
  next
    case (Some w)
    then obtain t where w: "w \<in> set ws" "s = w @ t" by (auto simp: find_Some_iff has_prefix_iff)
    with 1 Some show ?thesis by (subst trim_with.simps) auto
  qed
qed

lemma marker_not_blank: "CHR ''#'' \<in> set s \<Longrightarrow> trim_space s \<noteq> []"
proof
  assume "CHR ''#'' \<in> set s" and blank: "trim_space s = []"
  have free: "\<forall>w \<in> set space_encodings. CHR ''#'' \<notin> set w" by (simp add: space_encodings_def)
  with \<open>CHR ''#'' \<in> set s\<close> have "CHR ''#'' \<in> set (trim_with space_encodings s)" by (intro trim_with_keeps)
  with free have "CHR ''#'' \<in> set (trim_space s)"
    unfolding trim_space_def set_rev by (intro trim_with_keeps) auto
  with blank show False by simp
qed

lemma whole_lines_suffix: "whole_lines s \<Longrightarrow> s \<noteq> [] \<Longrightarrow> has_suffix s [nl]"
  by (auto simp: whole_lines_def has_suffix_iff)

text \<open>
  With a marker left over, repeating is not safe. When the closing marker of the block is
  missing, the first merge appends a new block and the second removes all the user's rules
  after the dangling opening marker. When a closing marker comes first, each merge appends one
  more block.
\<close>

lemma merge_dangling_markers:
  assumes "managed_block b" and "whole_lines pre" "\<not> contains_str pre block_begin" "\<not> contains_str pre block_end"
    and "whole_lines rules" "\<not> contains_str rules block_begin" "\<not> contains_str rules block_end"
  shows "merge_block (merge_block (pre @ block_begin @ [nl] @ rules) b) b = pre @ b \<and>
    merge_block (merge_block (pre @ block_end @ [nl] @ rules) b) b =
      pre @ block_end @ [nl] @ rules @ [nl] @ b @ [nl] @ b"
proof
  note em = markers_line(2,4) and bm = markers_line(1,3)
  from assms(1) obtain body where b: "b = block_begin @ [nl] @ body @ block_end @ [nl]"
    "whole_lines body" "\<not> contains_str body block_end" by (auto simp: managed_block_def)
  have other: "\<not> contains_str block_begin block_end" "\<not> contains_str block_end block_begin" by (simp_all add: marker_defs)
  have hash: "CHR ''#'' \<in> set block_begin" "CHR ''#'' \<in> set block_end" by (simp_all add: marker_defs)
  have whole: "whole_lines (pre @ m @ [nl] @ rules)" for m
    using assms(5) by (auto simp: whole_lines_def)
  let ?e = "pre @ block_begin @ [nl] @ rules"
  have "\<not> contains_str ?e block_end"
    using assms(4,7) other contains_line [OF em, of block_begin rules]
    by (simp add: whole_lines_contains [OF assms(2) em])
  then have "merge_block ?e b = ?e @ [nl] @ b"
    using marker_not_blank [of ?e] hash whole_lines_suffix [OF whole]
    by (simp add: merge_block_def append_block_def str_index_None [symmetric] split: option.splits)
  moreover have "managed_block (block_begin @ [nl] @ (rules @ [nl] @ block_begin @ [nl] @ body) @ block_end @ [nl])"
  proof -
    have "\<not> contains_str ([nl] @ block_begin @ [nl] @ body) block_end"
      using b(3) other contains_line [OF em, of "[]" "block_begin @ nl # body"] contains_line [OF em, of block_begin body] em
      by simp
    then have "\<not> contains_str (rules @ [nl] @ block_begin @ [nl] @ body) block_end"
      using assms(7) by (simp add: whole_lines_contains [OF assms(5) em])
    moreover have "whole_lines (rules @ [nl] @ block_begin @ [nl] @ body)"
      using assms(5) b(2) by (auto simp: whole_lines_def)
    ultimately show ?thesis unfolding managed_block_def by blast
  qed
  ultimately show "merge_block (merge_block ?e b) b = pre @ b"
    using merge_replaces [OF assms(2-4), of "block_begin @ [nl] @ (rules @ [nl] @ block_begin @ [nl] @ body) @ block_end @ [nl]" "[]" b]
    by (simp add: b(1))
  let ?f = "pre @ block_end @ [nl] @ rules"
  have nob: "\<not> contains_str ?f block_begin"
    using assms(3,6) other contains_line [OF bm, of block_end rules]
    by (simp add: whole_lines_contains [OF assms(2) bm])
  then have one: "merge_block ?f b = ?f @ [nl] @ b"
    using marker_not_blank [of ?f] hash whole_lines_suffix [OF whole]
    by (simp add: merge_block_def append_block_def str_index_None [symmetric])
  have "str_index pre block_end = None" using assms(4) by (simp add: str_index_None)
  then have "str_index (?f @ [nl] @ b) block_end = Some (length pre)"
    using whole_lines_index [OF assms(2) em, of "block_end @ [nl] @ rules @ [nl] @ b"] str_index_here [OF em(2)]
    by simp
  moreover have "str_index (?f @ [nl] @ b) block_begin = Some (length ?f + 1)"
  proof -
    have "whole_lines (?f @ [nl])" by (auto simp: whole_lines_def)
    moreover have "str_index (?f @ [nl]) block_begin = None"
      using nob contains_line [OF bm, of ?f "[]"] bm by (simp add: str_index_None)
    ultimately show ?thesis
      using whole_lines_index [of "?f @ [nl]" block_begin b] str_index_here [OF bm(2), of "[nl] @ body @ block_end @ [nl]"] bm
      by (simp add: b(1))
  qed
  ultimately have "merge_block (?f @ [nl] @ b) b = append_block (?f @ [nl] @ b) b"
    by (simp add: merge_block_def)
  moreover have "whole_lines (?f @ [nl] @ b)" by (simp add: b(1) whole_lines_def)
  ultimately have "merge_block (?f @ [nl] @ b) b = (?f @ [nl] @ b) @ [nl] @ b"
    using marker_not_blank [of "?f @ [nl] @ b"] hash whole_lines_suffix [of "?f @ [nl] @ b"]
    by (simp add: append_block_def)
  with one show "merge_block (merge_block ?f b) b = pre @ block_end @ [nl] @ rules @ [nl] @ b @ [nl] @ b" by simp
qed

section \<open>Concrete files\<close>

definition go_section :: gi_section where
  "go_section = \<lparr>gi_name = ''Go'', gi_body = ''*.exe'', gi_source = ''bundled''\<rparr>"

definition no_extras :: gi_extras where
  "no_extras = \<lparr>gx_os = False, gx_editors = False, gx_agents = False, gx_env = False\<rparr>"

abbreviation go_block :: string where
  "go_block \<equiv> compose ''linux'' [go_section] no_extras"

lemma go_body_free: "\<not> contains_str (compose_body ''linux'' [go_section] no_extras) block_end"
  by code_simp

lemma own_rules_free: "\<not> contains_str (''bin/'' @ [nl]) block_begin \<and> \<not> contains_str (''bin/'' @ [nl]) block_end"
  by code_simp


lemma merge_dangling_markers_witness:
  "merge_block (merge_block (block_begin @ [nl] @ ''bin/'' @ [nl]) go_block) go_block = go_block"
  using merge_dangling_markers [OF compose_managed [OF go_body_free], of "[]" "''bin/'' @ [nl]"] own_rules_free markers_line
  by (simp add: whole_lines_def)

end
