(* ===== verification/Paths.thy ===== *)
theory Paths
  imports GoText
begin

text \<open>
  \<open>internal/pathx/pathx.go\<close>: canonical paths and containment, with the functions of
  \<open>path/filepath\<close> it uses, on Unix. The file system is a parameter that answers
  \<open>EvalSymlinks\<close>, \<open>Lstat\<close>, \<open>Readlink\<close> and \<open>Getwd\<close>; its \<open>fs_fuel\<close> bounds the probes of one
  \<open>Canonical\<close>, because a chain of links that lead nowhere is as long as the file system likes.
\<close>

section \<open>path/filepath\<close>

abbreviation slash :: char where "slash \<equiv> CHR ''/''"
abbreviation (input) dotdot :: string where "dotdot \<equiv> ''..''"

definition is_abs :: "string \<Rightarrow> bool" where
  "is_abs p = has_prefix p ''/''"

text \<open>\<open>Clean\<close> reads the elements from the left; \<open>acc\<close> is what it has written, last element first.\<close>

definition clean_step :: "bool \<Rightarrow> string list \<Rightarrow> string \<Rightarrow> string list" where
  "clean_step rooted acc c =
    (if c = [] \<or> c = ''.'' then acc
     else if c = dotdot then
       (case acc of [] \<Rightarrow> if rooted then [] else [dotdot]
        | d # ds \<Rightarrow> if d = dotdot then dotdot # acc else ds)
     else c # acc)"

definition clean_comps :: "bool \<Rightarrow> string list \<Rightarrow> string list" where
  "clean_comps rooted cs = rev (foldl (clean_step rooted) [] cs)"

definition path_clean :: "string \<Rightarrow> string" where
  "path_clean p =
    (let cs = clean_comps (is_abs p) (split_on slash p)
     in if is_abs p then slash # join_str ''/'' cs else if cs = [] then ''.'' else join_str ''/'' cs)"

definition path_join :: "string list \<Rightarrow> string" where
  "path_join es =
    (let es = dropWhile (\<lambda>e. e = []) es in if es = [] then [] else path_clean (join_str ''/'' es))"

definition path_dir :: "string \<Rightarrow> string" where
  "path_dir p = path_clean (rev (dropWhile (\<lambda>c. c \<noteq> slash) (rev p)))"

text \<open>\<open>Rel\<close>: the words of a clean path, the common ones stripped.\<close>

definition rel_words :: "string \<Rightarrow> string list" where
  "rel_words p = (if p = [] then [] else if p = ''/'' then [[]] else split_on slash p)"

fun rel_strip :: "string list \<Rightarrow> string list \<Rightarrow> string list \<times> string list" where
  "rel_strip (b # bs) (t # ts) = (if b = t then rel_strip bs ts else (b # bs, t # ts))"
| "rel_strip bs ts = (bs, ts)"

definition path_rel :: "string \<Rightarrow> string \<Rightarrow> string option" where
  "path_rel basepath targpath =
    (let b = path_clean basepath; t = path_clean targpath in
     if t = b then Some ''.''
     else let b = (if b = ''.'' then [] else b) in
       if is_abs b \<noteq> is_abs t then None
       else let (bs, ts) = rel_strip (rel_words b) (rel_words t) in
         if bs \<noteq> [] \<and> ts \<noteq> [] \<and> hd bs = dotdot then None
         else Some (join_str ''/'' (map (\<lambda>_. dotdot) bs @ ts)))"

section \<open>The file system\<close>

datatype eval_result = Resolved string | EvalMissing | EvalFailed

datatype lstat_result = LstatLink | LstatOther | LstatMissing | LstatFailed

record file_system =
  fs_cwd :: "string option"
  fs_eval :: "string \<Rightarrow> eval_result"
  fs_lstat :: "string \<Rightarrow> lstat_result"
  fs_readlink :: "string \<Rightarrow> string option"
  fs_fuel :: nat

definition filepath_abs :: "file_system \<Rightarrow> string \<Rightarrow> string option" where
  "filepath_abs fs p =
    (if is_abs p then Some (path_clean p) else map_option (\<lambda>wd. path_join [wd, p]) (fs_cwd fs))"

section \<open>Canonical paths\<close>

datatype path_error =
  EmptyPath | AbsFailed | ResolveFailed | ReadlinkFailed | InspectFailed | NoAncestor | OutOfFuel |
  ErrTraversal | ErrOutsideRoot | ErrRoot | ErrInvalidComponent

definition has_parent_traversal :: "string \<Rightarrow> bool" where
  "has_parent_traversal p \<longleftrightarrow>
    dotdot \<in> set (split_on slash (map (\<lambda>c. if c = CHR 0x5C then slash else c) p))"

text \<open>\<open>canonical_probe\<close> is the loop of \<open>Canonical\<close>, \<open>missing\<close> in the order of its slice.\<close>

function canonical_fuel :: "nat \<Rightarrow> file_system \<Rightarrow> string \<Rightarrow> path_error + string"
  and canonical_probe :: "nat \<Rightarrow> file_system \<Rightarrow> string \<Rightarrow> string list \<Rightarrow> path_error + string" where
  "canonical_fuel n fs path =
    (if path = [] then Inl EmptyPath
     else case filepath_abs fs path of
       None \<Rightarrow> Inl AbsFailed
     | Some absolute \<Rightarrow> canonical_probe n fs (path_clean absolute) [])"
| "canonical_probe 0 fs probe missing = Inl OutOfFuel"
| "canonical_probe (Suc n) fs probe missing =
    (case fs_eval fs probe of
       Resolved resolved \<Rightarrow> Inr (path_clean (path_join (resolved # rev missing)))
     | EvalFailed \<Rightarrow> Inl ResolveFailed
     | EvalMissing \<Rightarrow>
       (case fs_lstat fs probe of
          LstatLink \<Rightarrow>
            (case fs_readlink fs probe of
               None \<Rightarrow> Inl ReadlinkFailed
             | Some target \<Rightarrow>
               if has_parent_traversal target then Inl ErrTraversal
               else let target = (if is_abs target then target else path_join [path_dir probe, target])
                 in case canonical_fuel n fs target of
                      Inl e \<Rightarrow> Inl e
                    | Inr resolved \<Rightarrow> Inr (path_clean (path_join (resolved # rev missing))))
        | LstatFailed \<Rightarrow> Inl InspectFailed
        | _ \<Rightarrow>
            let parent = path_dir probe in
            if parent = probe then Inl NoAncestor
            else canonical_probe n fs parent (missing @ [filepath_base probe])))"
  by pat_completeness auto
termination
  by (relation "measure (\<lambda>x. case x of Inl (n, _) \<Rightarrow> 2 * n + 1 | Inr (n, _) \<Rightarrow> 2 * n)") auto

declare canonical_fuel.simps [simp del] canonical_probe.simps(2) [simp del]

definition canonical :: "file_system \<Rightarrow> string \<Rightarrow> path_error + string" where
  "canonical fs path = canonical_fuel (fs_fuel fs) fs path"

definition canonical_child :: "file_system \<Rightarrow> string \<Rightarrow> string \<Rightarrow> path_error + string" where
  "canonical_child fs root candidate =
    (if has_parent_traversal candidate then Inl ErrTraversal
     else case canonical fs root of
       Inl e \<Rightarrow> Inl e
     | Inr canonical_root \<Rightarrow>
       (case canonical fs candidate of
          Inl e \<Rightarrow> Inl e
        | Inr canonical_candidate \<Rightarrow>
          (case path_rel canonical_root canonical_candidate of
             None \<Rightarrow> Inl ErrOutsideRoot
           | Some rel \<Rightarrow>
             if rel = ''.'' then Inl ErrRoot
             else if is_abs rel \<or> rel = dotdot \<or> has_prefix rel ''../'' then Inl ErrOutsideRoot
             else Inr canonical_candidate)))"

definition is_child :: "file_system \<Rightarrow> string \<Rightarrow> string \<Rightarrow> path_error + bool" where
  "is_child fs root candidate =
    (case canonical_child fs root candidate of
       Inr _ \<Rightarrow> Inr True
     | Inl e \<Rightarrow> if e = ErrOutsideRoot \<or> e = ErrRoot \<or> e = ErrTraversal then Inr False else Inl e)"

definition contains_path :: "file_system \<Rightarrow> string \<Rightarrow> string \<Rightarrow> path_error + bool" where
  \<comment> \<open>\<open>Contains\<close>\<close>
  "contains_path fs root candidate =
    (case canonical fs root of
       Inl e \<Rightarrow> Inl e
     | Inr canonical_root \<Rightarrow>
       (case canonical fs candidate of
          Inl e \<Rightarrow> Inl e
        | Inr canonical_candidate \<Rightarrow>
          if canonical_root = canonical_candidate then Inr True
          else is_child fs canonical_root canonical_candidate))"

section \<open>Clean absolute paths\<close>

definition path_name :: "string \<Rightarrow> bool" where
  \<comment> \<open>an element of a clean absolute path\<close>
  "path_name c \<longleftrightarrow> c \<noteq> [] \<and> slash \<notin> set c \<and> c \<noteq> ''.'' \<and> c \<noteq> dotdot"

definition abs_path :: "string list \<Rightarrow> string" where
  "abs_path cs = slash # join_str ''/'' cs"

abbreviation path_names :: "string list \<Rightarrow> bool" where
  "path_names cs \<equiv> \<forall>c \<in> set cs. path_name c"

lemma split_on_no_sep: "d \<notin> set s \<Longrightarrow> split_on d s = [s]"
  by (induction d s rule: split_on.induct) auto

lemma split_on_sep: "d \<notin> set a \<Longrightarrow> split_on d (a @ d # s) = a # split_on d s"
  by (induction a) auto

lemma split_on_nonempty [simp]: "split_on d s \<noteq> []"
  by (induction d s rule: split_on.induct) (auto split: list.splits)

lemma split_on_parts: "w \<in> set (split_on d s) \<Longrightarrow> d \<notin> set w"
  by (induction d s arbitrary: w rule: split_on.induct) (auto split: if_splits list.splits)

lemma split_on_join: "cs \<noteq> [] \<Longrightarrow> \<forall>c \<in> set cs. d \<notin> set c \<Longrightarrow> split_on d (join_str [d] cs) = cs"
  by (induction "[d]" cs rule: join_str.induct) (auto simp: split_on_no_sep split_on_sep)

lemma join_split_on: "join_str [d] (split_on d s) = s"
proof (induction s)
  case (Cons c s)
  then obtain w ws where "split_on d s = w # ws" "join_str [d] (w # ws) = s" by (cases "split_on d s") auto
  then show ?case by (cases ws) auto
qed simp

lemma split_on_abs_path:
  "\<forall>c \<in> set cs. slash \<notin> set c \<Longrightarrow> split_on slash (abs_path cs) = [] # (if cs = [] then [[]] else cs)"
  by (simp add: abs_path_def split_on_join)

lemma is_abs_abs_path [simp]: "is_abs (abs_path cs)"
  by (simp add: is_abs_def abs_path_def)

lemma abs_path_inj: "path_names a \<Longrightarrow> path_names b \<Longrightarrow> abs_path a = abs_path b \<longleftrightarrow> a = b"
proof
  assume names: "path_names a" "path_names b" and eq: "abs_path a = abs_path b"
  have "[] \<notin> set a" "[] \<notin> set b" using names by (auto simp: path_name_def)
  moreover have "(if a = [] then [[]] else a) = (if b = [] then [[]] else b)"
    using split_on_abs_path [of a] split_on_abs_path [of b] names eq by (simp add: path_name_def)
  ultimately show "a = b" by (auto split: if_splits)
qed simp

lemma foldl_clean_names: "path_names cs \<Longrightarrow> foldl (clean_step r) acc cs = rev cs @ acc"
  by (induction cs arbitrary: acc) (auto simp: clean_step_def path_name_def)

lemma path_clean_abs_path [simp]: "path_names cs \<Longrightarrow> path_clean (abs_path cs) = abs_path cs"
proof -
  assume cs: "path_names cs"
  then have "split_on slash (abs_path cs) = [] # (if cs = [] then [[]] else cs)"
    by (intro split_on_abs_path) (simp add: path_name_def)
  moreover have "foldl (clean_step True) [] ([] # (if cs = [] then [[]] else cs)) = rev cs"
    using foldl_clean_names [OF cs, of True "[]"] by (simp add: clean_step_def)
  ultimately show ?thesis by (simp add: path_clean_def clean_comps_def) (simp add: abs_path_def)
qed

lemma foldl_clean_rooted:
  "\<forall>c \<in> set cs. slash \<notin> set c \<Longrightarrow> path_names acc \<Longrightarrow> path_names (foldl (clean_step True) acc cs)"
proof (induction cs arbitrary: acc)
  case (Cons c cs)
  have "path_names (clean_step True acc c)"
    using Cons.prems by (auto simp: clean_step_def path_name_def split: list.splits)
  with Cons show ?case by simp
qed simp

lemma path_clean_rooted: "is_abs p \<Longrightarrow> \<exists>cs. path_clean p = abs_path cs \<and> path_names cs"
proof -
  assume "is_abs p"
  moreover have "path_names (clean_comps True (split_on slash p))"
    using foldl_clean_rooted [of "split_on slash p" "[]"] split_on_parts [of _ slash p]
    by (simp add: clean_comps_def)
  ultimately show ?thesis by (auto simp: path_clean_def abs_path_def Let_def)
qed

lemma join_str_append:
  "a \<noteq> [] \<Longrightarrow> b \<noteq> [] \<Longrightarrow> join_str d (a @ b) = join_str d a @ d @ join_str d b"
proof (induction d a rule: join_str.induct)
  case (2 d s) then show ?case by (cases b) auto
qed auto

lemma path_clean_append:
  "path_names cs \<Longrightarrow> path_names ms \<Longrightarrow> ms \<noteq> [] \<Longrightarrow>
   path_clean (abs_path cs @ slash # join_str ''/'' ms) = abs_path (cs @ ms)"
proof -
  assume cs: "path_names cs" and ms: "path_names ms" "ms \<noteq> []"
  have plain: "\<forall>c \<in> set cs. slash \<notin> set c" "\<forall>c \<in> set ms. slash \<notin> set c"
    using cs ms by (auto simp: path_name_def)
  have "split_on slash (join_str ''/'' cs @ slash # join_str ''/'' ms) = (if cs = [] then [[]] else cs) @ ms"
  proof (cases "cs = []")
    case True
    with plain ms show ?thesis by (simp add: split_on_join)
  next
    case False
    have "join_str ''/'' (cs @ ms) = join_str ''/'' cs @ slash # join_str ''/'' ms"
      using join_str_append [OF False ms(2), of "''/''"] by simp
    with False plain show ?thesis using split_on_join [of "cs @ ms" slash] by (auto simp: ball_Un)
  qed
  then have "split_on slash (abs_path cs @ slash # join_str ''/'' ms) = [] # (if cs = [] then [[]] else cs) @ ms"
    by (simp add: abs_path_def)
  moreover have "foldl (clean_step True) [] ([] # (if cs = [] then [[]] else cs) @ ms) = rev (cs @ ms)"
    using foldl_clean_names [of "cs @ ms" True "[]"] cs ms by (auto simp: clean_step_def)
  moreover have "is_abs (abs_path cs @ slash # join_str ''/'' ms)" by (simp add: is_abs_def abs_path_def)
  ultimately show ?thesis by (simp add: path_clean_def clean_comps_def abs_path_def)
qed

lemma path_join_abs:
  assumes "path_names cs" and "path_names ms"
  shows "path_join (abs_path cs # ms) = abs_path (cs @ ms)"
proof (cases ms)
  case Nil
  have "abs_path cs \<noteq> []" by (simp add: abs_path_def)
  with Nil assms(1) show ?thesis by (simp add: path_join_def)
next
  case (Cons m ms')
  then have "join_str ''/'' (abs_path cs # ms) = abs_path cs @ slash # join_str ''/'' ms" by simp
  with path_clean_append [OF assms] Cons show ?thesis by (simp add: path_join_def abs_path_def)
qed

lemma dropWhile_last_part:
  "slash \<notin> set c \<Longrightarrow> rev (dropWhile (\<lambda>x. x \<noteq> slash) (rev (s @ slash # c))) = s @ [slash]"
proof -
  assume "slash \<notin> set c"
  then have "dropWhile (\<lambda>x. x \<noteq> slash) (rev c @ slash # rev s) = slash # rev s"
    by (subst dropWhile_append2) auto
  then show ?thesis by simp
qed

lemma abs_path_snoc: "abs_path (cs @ [c]) = (if cs = [] then [slash] else abs_path cs @ [slash]) @ c"
  using join_str_append [of cs "[c]" "''/''"] by (auto simp: abs_path_def)

lemma path_dir_snoc:
  assumes "path_names (cs @ [c])"
  shows "path_dir (abs_path (cs @ [c])) = abs_path cs"
proof -
  have c: "slash \<notin> set c" and cs: "path_names cs" using assms by (auto simp: path_name_def)
  show ?thesis
  proof (cases "cs = []")
    case True
    with dropWhile_last_part [OF c, of "[]"] path_clean_abs_path [of "[]"] show ?thesis
      by (simp add: path_dir_def abs_path_def)
  next
    case False
    have "rev (dropWhile (\<lambda>c. c \<noteq> slash) (rev (abs_path (cs @ [c])))) = abs_path cs @ [slash]"
      using dropWhile_last_part [OF c, of "abs_path cs"] False by (simp add: abs_path_snoc)
    moreover have "split_on slash (abs_path cs @ [slash]) = [] # cs @ [[]]"
    proof -
      have "split_on slash (join_str ''/'' (cs @ [[]])) = cs @ [[]]"
        using cs by (intro split_on_join) (auto simp: path_name_def)
      with join_str_append [OF False, of "[[]]" "''/''"] show ?thesis by (simp add: abs_path_def)
    qed
    ultimately show ?thesis
      using foldl_clean_names [OF cs, of True "[]"]
      by (simp add: path_dir_def path_clean_def is_abs_def clean_comps_def clean_step_def)
         (simp add: abs_path_def)
  qed
qed

lemma path_dir_root: "path_dir (abs_path []) = abs_path []"
  using path_clean_abs_path [of "[]"] by (simp add: path_dir_def abs_path_def)

lemma filepath_base_snoc:
  assumes "path_names (cs @ [c])"
  shows "filepath_base (abs_path (cs @ [c])) = c"
proof -
  have c: "c \<noteq> []" "slash \<notin> set c" using assms by (auto simp: path_name_def)
  then have last: "last c \<noteq> slash" using last_in_set by metis
  obtain s where s: "abs_path (cs @ [c]) = s @ slash # c"
    using abs_path_snoc [of cs c] by (cases "cs = []") fastforce+
  have "dropWhile (\<lambda>x. x = slash) (rev (s @ slash # c)) = rev (s @ slash # c)"
    using c last by (cases c rule: rev_cases) auto
  moreover have "takeWhile (\<lambda>x. x \<noteq> slash) (rev c @ slash # rev s) = rev c"
    using c by (subst takeWhile_append2) auto
  ultimately show ?thesis unfolding s filepath_base_def by simp
qed

section \<open>Relative paths\<close>

lemma rel_strip_split:
  "rel_strip bs ts = (x, y) \<Longrightarrow> \<exists>p. bs = p @ x \<and> ts = p @ y \<and> (x = [] \<or> y = [] \<or> hd x \<noteq> hd y)"
proof (induction bs ts rule: rel_strip.induct)
  case (1 b bs t ts)
  show ?case
  proof (cases "b = t")
    case True
    with 1 obtain p where "bs = p @ x" "ts = p @ y" "x = [] \<or> y = [] \<or> hd x \<noteq> hd y" by auto
    with True show ?thesis by (intro exI [of _ "b # p"]) simp
  qed (use 1 in \<open>auto intro: exI [of _ "[]"]\<close>)
qed (auto intro: exI [of _ "[]"])

lemma path_rel_abs:
  assumes "path_names a" and "path_names b"
  shows "path_rel (abs_path a) (abs_path b) =
    (if a = b then Some ''.''
     else case rel_strip a b of (x, y) \<Rightarrow> Some (join_str ''/'' (map (\<lambda>_. dotdot) x @ y)))"
proof -
  have words: "rel_words (abs_path cs) = [] # cs" if "path_names cs" for cs
  proof (cases "cs = []")
    case False
    have "\<forall>c \<in> set cs. slash \<notin> set c" "[] \<notin> set cs" using that by (auto simp: path_name_def)
    moreover from this have "join_str ''/'' cs \<noteq> []" using split_on_join [OF False, of slash] False by auto
    ultimately show ?thesis using False by (simp add: rel_words_def split_on_abs_path) (simp add: abs_path_def)
  qed (simp add: rel_words_def abs_path_def)
  have dot: "abs_path cs \<noteq> ''.''" for cs by (simp add: abs_path_def)
  show ?thesis
  proof (cases "rel_strip a b")
    case (Pair x y)
    then obtain p where p: "a = p @ x" "b = p @ y" using rel_strip_split by blast
    then have "\<not> (x \<noteq> [] \<and> y \<noteq> [] \<and> hd x = dotdot)" using assms by (cases x) (auto simp: path_name_def)
    with Pair assms dot show ?thesis
      by (auto simp: path_rel_def Let_def words abs_path_inj)
  qed
qed

lemma rel_below:
  assumes "path_names y" and "y \<noteq> []"
  shows "join_str ''/'' y \<noteq> ''.''" "\<not> is_abs (join_str ''/'' y)" "join_str ''/'' y \<noteq> dotdot"
    "\<not> has_prefix (join_str ''/'' y) ''../''"
proof -
  have y: "split_on slash (join_str ''/'' y) = y" using assms by (intro split_on_join) (auto simp: path_name_def)
  have "hd y \<in> set y" using assms(2) by simp
  with assms(1) have "path_name (hd y)" by blast
  then have h: "hd y \<noteq> []" "hd y \<noteq> ''.''" "hd y \<noteq> dotdot" by (auto simp: path_name_def)
  show "join_str ''/'' y \<noteq> ''.''" using y h(2) by auto
  show "join_str ''/'' y \<noteq> dotdot" using y h(3) by auto
  show "\<not> is_abs (join_str ''/'' y)"
  proof
    assume "is_abs (join_str ''/'' y)"
    then obtain t where "join_str ''/'' y = slash # t" by (auto simp: is_abs_def has_prefix_iff)
    with y h(1) show False by auto
  qed
  show "\<not> has_prefix (join_str ''/'' y) ''../''"
  proof
    assume "has_prefix (join_str ''/'' y) ''../''"
    then obtain t where "join_str ''/'' y = dotdot @ slash # t" by (auto simp: has_prefix_iff)
    with y h(3) split_on_sep [of slash dotdot t] show False by auto
  qed
qed

section \<open>Canonical paths are clean and absolute\<close>

text \<open>
  What \<open>os.Getwd\<close> and \<open>filepath.EvalSymlinks\<close> document: the working directory is absolute, and
  an absolute path resolves to an absolute one.
\<close>

definition fs_absolute :: "file_system \<Rightarrow> bool" where
  "fs_absolute fs \<longleftrightarrow>
    (\<forall>wd. fs_cwd fs = Some wd \<longrightarrow> is_abs wd) \<and>
    (\<forall>p r. is_abs p \<longrightarrow> fs_eval fs p = Resolved r \<longrightarrow> is_abs r)"

lemma is_abs_clean: "is_abs p \<Longrightarrow> is_abs (path_clean p)"
  using path_clean_rooted by fastforce

lemma is_abs_join: "is_abs p \<Longrightarrow> is_abs (path_join (p # ps))"
proof -
  assume p: "is_abs p"
  then have "is_abs (join_str ''/'' (p # ps))" by (cases ps) (auto simp: is_abs_def has_prefix_iff)
  moreover from p have "p \<noteq> []" by (auto simp: is_abs_def)
  ultimately show ?thesis by (simp add: path_join_def is_abs_clean del: join_str.simps)
qed

lemma dropWhile_until: "x \<in> set xs \<Longrightarrow> \<exists>ys. dropWhile (\<lambda>c. c \<noteq> x) xs = x # ys"
  by (induction xs) auto

lemma is_abs_dir: "is_abs p \<Longrightarrow> is_abs (path_dir p)"
proof -
  assume "is_abs p"
  then obtain t where p: "p = slash # t" by (auto simp: is_abs_def has_prefix_iff)
  have "is_abs (rev (dropWhile (\<lambda>c. c \<noteq> slash) (rev t @ [slash])))"
  proof (cases "slash \<in> set t")
    case True
    then obtain ys where "dropWhile (\<lambda>c. c \<noteq> slash) (rev t) = slash # ys"
      using dropWhile_until [of slash "rev t"] by auto
    with True show ?thesis by (simp add: dropWhile_append is_abs_def)
  next
    case False
    then have "dropWhile (\<lambda>c. c \<noteq> slash) (rev t @ [slash]) = [slash]" by (subst dropWhile_append2) auto
    then show ?thesis by (simp add: is_abs_def)
  qed
  with p show ?thesis unfolding path_dir_def by (simp add: is_abs_clean)
qed

lemma is_abs_filepath_abs: "fs_absolute fs \<Longrightarrow> filepath_abs fs p = Some q \<Longrightarrow> is_abs q"
  by (auto simp: filepath_abs_def fs_absolute_def is_abs_clean is_abs_join split: if_splits)

text \<open>How \<open>Canonical\<close> and its loop can return a path.\<close>

definition link_target :: "string \<Rightarrow> string \<Rightarrow> string" where
  "link_target probe t = (if is_abs t then t else path_join [path_dir probe, t])"

lemma canonical_fuel_Inr:
  "canonical_fuel n fs path = Inr q \<Longrightarrow>
   \<exists>a. filepath_abs fs path = Some a \<and> canonical_probe n fs (path_clean a) [] = Inr q"
  by (simp add: canonical_fuel.simps [of n] split: if_splits option.splits)

lemma canonical_probe_Inr:
  assumes "canonical_probe (Suc n) fs probe missing = Inr q"
  shows "(\<exists>r. fs_eval fs probe = Resolved r \<and> q = path_clean (path_join (r # rev missing))) \<or>
    (\<exists>t r. fs_eval fs probe = EvalMissing \<and> fs_lstat fs probe = LstatLink \<and> fs_readlink fs probe = Some t \<and>
      \<not> has_parent_traversal t \<and> canonical_fuel n fs (link_target probe t) = Inr r \<and>
      q = path_clean (path_join (r # rev missing))) \<or>
    (fs_eval fs probe = EvalMissing \<and> fs_lstat fs probe \<in> {LstatOther, LstatMissing} \<and> path_dir probe \<noteq> probe \<and>
      canonical_probe n fs (path_dir probe) (missing @ [filepath_base probe]) = Inr q)"
  using assms unfolding canonical_probe.simps(2) Let_def link_target_def [symmetric]
  by (simp split: eval_result.splits lstat_result.splits option.splits if_splits sum.splits)

lemma canonical_probe_clean:
  assumes "fs_absolute fs" and "is_abs probe" and "canonical_probe n fs probe missing = Inr q"
  shows "\<exists>cs. q = abs_path cs \<and> path_names cs"
  using assms
proof (induction n arbitrary: probe missing q)
  case (Suc n)
  have abs: "is_abs (path_join (r # rev missing))" if "is_abs r" for r using that by (rule is_abs_join)
  from canonical_probe_Inr [OF Suc.prems(3)] consider
    (found) r where "fs_eval fs probe = Resolved r" "q = path_clean (path_join (r # rev missing))"
    | (link) t r where "canonical_fuel n fs (link_target probe t) = Inr r" "q = path_clean (path_join (r # rev missing))"
    | (up) "canonical_probe n fs (path_dir probe) (missing @ [filepath_base probe]) = Inr q" by blast
  then show ?case
  proof cases
    case found
    with Suc.prems(1,2) have "is_abs r" by (auto simp: fs_absolute_def)
    with found abs path_clean_rooted show ?thesis by blast
  next
    case link
    then obtain a where "filepath_abs fs (link_target probe t) = Some a" "canonical_probe n fs (path_clean a) [] = Inr r"
      using canonical_fuel_Inr by blast
    with Suc.IH [of "path_clean a" "[]"] Suc.prems(1) have "is_abs r" by (auto simp: is_abs_clean is_abs_filepath_abs)
    with link abs path_clean_rooted show ?thesis by blast
  next
    case up
    with Suc.IH Suc.prems(1,2) is_abs_dir show ?thesis by blast
  qed
qed simp

lemma canonical_clean:
  assumes "fs_absolute fs" and "canonical fs p = Inr q"
  shows "\<exists>cs. q = abs_path cs \<and> path_names cs"
proof -
  from assms(2) obtain a where "filepath_abs fs p = Some a" "canonical_probe (fs_fuel fs) fs (path_clean a) [] = Inr q"
    unfolding canonical_def using canonical_fuel_Inr by blast
  with assms(1) canonical_probe_clean is_abs_clean is_abs_filepath_abs show ?thesis by blast
qed

lemma canonical_child_iff:
  assumes "fs_absolute fs"
  shows "canonical_child fs root candidate = Inr c \<longleftrightarrow>
    \<not> has_parent_traversal candidate \<and> canonical fs candidate = Inr c \<and>
    (\<exists>rs n ns. canonical fs root = Inr (abs_path rs) \<and> c = abs_path (rs @ n # ns) \<and> path_names (rs @ n # ns))"
    (is "?l \<longleftrightarrow> ?r")
proof
  assume ?l
  then obtain r rel where r: "\<not> has_parent_traversal candidate" "canonical fs root = Inr r" "canonical fs candidate = Inr c"
    "path_rel r c = Some rel" "rel \<noteq> ''.''" "rel \<noteq> dotdot" "\<not> has_prefix rel ''../''"
    by (auto simp: canonical_child_def split: sum.splits option.splits if_splits)
  obtain a b where ab: "r = abs_path a" "path_names a" "c = abs_path b" "path_names b"
    using canonical_clean [OF assms r(2)] canonical_clean [OF assms r(3)] by blast
  obtain x y where xy: "rel_strip a b = (x, y)" by fastforce
  with r(4,5) ab have rel: "a \<noteq> b" "rel = join_str ''/'' (map (\<lambda>_. dotdot) x @ y)"
    by (auto simp: path_rel_abs split: if_splits)
  have "x = []"
  proof (rule ccontr)
    assume "x \<noteq> []"
    then obtain u x' where "x = u # x'" by (cases x) auto
    with rel(2) r(6,7) show False by (cases "map (\<lambda>_. dotdot) x' @ y") auto
  qed
  with rel_strip_split [OF xy] rel(1) obtain n ns where "b = a @ n # ns" by (cases y) auto
  with r ab show ?r by blast
next
  assume ?r
  then obtain rs n ns where c: "\<not> has_parent_traversal candidate" "canonical fs candidate = Inr c"
    "canonical fs root = Inr (abs_path rs)" "c = abs_path (rs @ n # ns)" "path_names (rs @ n # ns)" by blast
  have strip: "rel_strip rs (rs @ n # ns) = ([], n # ns)" by (induction rs) auto
  have "path_names rs" "path_names (n # ns)" using c(5) by auto
  then have "path_rel (abs_path rs) c = Some (join_str ''/'' (n # ns))"
    using c(4,5) strip by (simp add: path_rel_abs del: join_str.simps)
  moreover note rel_below [OF \<open>path_names (n # ns)\<close>]
  ultimately show ?l using c(1-3) unfolding canonical_child_def by (simp del: join_str.simps)
qed


section \<open>Canonical paths are their own canonical form\<close>

text \<open>
  How paths resolve, as POSIX documents path resolution: a resolved path is clean and resolves to
  itself; a path through a directory resolves as the path through the resolved directory; nothing
  is found below a path that does not exist; a link that cannot be resolved leads to a path that
  cannot be resolved.
\<close>

definition fs_resolves :: "file_system \<Rightarrow> bool" where
  "fs_resolves fs \<longleftrightarrow> fs_absolute fs \<and>
    (\<forall>p r. is_abs p \<longrightarrow> fs_eval fs p = Resolved r \<longrightarrow>
      (\<exists>rs. r = abs_path rs \<and> path_names rs) \<and> fs_eval fs r = Resolved r) \<and>
    (\<forall>ds rs cs. path_names (ds @ cs) \<longrightarrow> path_names rs \<longrightarrow> cs \<noteq> [] \<longrightarrow>
      fs_eval fs (abs_path ds) = Resolved (abs_path rs) \<longrightarrow>
      fs_eval fs (abs_path (rs @ cs)) = fs_eval fs (abs_path (ds @ cs)) \<and>
      fs_lstat fs (abs_path (rs @ cs)) = fs_lstat fs (abs_path (ds @ cs))) \<and>
    (\<forall>ds c. path_names (ds @ [c]) \<longrightarrow> fs_eval fs (abs_path ds) = EvalMissing \<longrightarrow>
      fs_lstat fs (abs_path ds) \<noteq> LstatOther \<and>
      (fs_lstat fs (abs_path ds) = LstatMissing \<longrightarrow>
        fs_eval fs (abs_path (ds @ [c])) = EvalMissing \<and> fs_lstat fs (abs_path (ds @ [c])) = LstatMissing)) \<and>
    (\<forall>ds t. path_names ds \<longrightarrow> fs_eval fs (abs_path ds) = EvalMissing \<longrightarrow>
      fs_lstat fs (abs_path ds) = LstatLink \<longrightarrow> fs_readlink fs (abs_path ds) = Some t \<longrightarrow>
      fs_eval fs (path_clean (link_target (abs_path ds) t)) = EvalMissing)"

lemma fs_resolvesD:
  assumes "fs_resolves fs"
  shows "fs_absolute fs"
    and "is_abs p \<Longrightarrow> fs_eval fs p = Resolved r \<Longrightarrow> (\<exists>rs. r = abs_path rs \<and> path_names rs) \<and> fs_eval fs r = Resolved r"
    and "path_names (ds @ cs) \<Longrightarrow> path_names rs \<Longrightarrow> cs \<noteq> [] \<Longrightarrow> fs_eval fs (abs_path ds) = Resolved (abs_path rs) \<Longrightarrow>
      fs_eval fs (abs_path (rs @ cs)) = fs_eval fs (abs_path (ds @ cs)) \<and>
      fs_lstat fs (abs_path (rs @ cs)) = fs_lstat fs (abs_path (ds @ cs))"
    and "path_names (ds @ [c]) \<Longrightarrow> fs_eval fs (abs_path ds) = EvalMissing \<Longrightarrow> fs_lstat fs (abs_path ds) \<noteq> LstatOther \<and>
      (fs_lstat fs (abs_path ds) = LstatMissing \<longrightarrow>
        fs_eval fs (abs_path (ds @ [c])) = EvalMissing \<and> fs_lstat fs (abs_path (ds @ [c])) = LstatMissing)"
    and "path_names ds \<Longrightarrow> fs_eval fs (abs_path ds) = EvalMissing \<Longrightarrow> fs_lstat fs (abs_path ds) = LstatLink \<Longrightarrow>
      fs_readlink fs (abs_path ds) = Some t \<Longrightarrow> fs_eval fs (path_clean (link_target (abs_path ds) t)) = EvalMissing"
  using assms unfolding fs_resolves_def by blast+

definition absent :: "file_system \<Rightarrow> string list \<Rightarrow> bool" where
  "absent fs ds \<longleftrightarrow> fs_eval fs (abs_path ds) = EvalMissing \<and> fs_lstat fs (abs_path ds) = LstatMissing"

definition settled :: "file_system \<Rightarrow> nat \<Rightarrow> string list \<Rightarrow> string list \<Rightarrow> string \<Rightarrow> bool" where
  \<comment> \<open>an existing directory, and below it names of which the first does not exist\<close>
  "settled fs n rs ms q \<longleftrightarrow> q = abs_path (rs @ ms) \<and> path_names (rs @ ms) \<and> length ms < n \<and>
    fs_eval fs (abs_path rs) = Resolved (abs_path rs) \<and> (ms \<noteq> [] \<longrightarrow> absent fs (rs @ [hd ms]))"

lemma absent_below:
  assumes "fs_resolves fs" and "absent fs ds" and "path_names (ds @ cs)"
  shows "absent fs (ds @ cs)"
  using assms(3)
proof (induction cs rule: rev_induct)
  case (snoc c cs)
  then have "absent fs (ds @ cs)" by simp
  with fs_resolvesD(4) [OF assms(1), of "ds @ cs" c] snoc.prems show ?case by (simp add: absent_def)
qed (use assms(2) in simp)

lemma abs_path_cases:
  assumes "is_abs p" and "path_clean p = p"
  obtains ps where "p = abs_path ps" "path_names ps"
  using path_clean_rooted [OF assms(1)] assms(2) by metis

lemma path_dir_changes:
  assumes "path_dir (abs_path ps) \<noteq> abs_path ps" and "path_names ps"
  obtains ds c where "ps = ds @ [c]" "path_dir (abs_path ps) = abs_path ds" "filepath_base (abs_path ps) = c"
  using assms path_dir_root path_dir_snoc filepath_base_snoc by (cases ps rule: rev_cases) auto

lemma probe_settled:
  assumes "fs_resolves fs"
  shows "canonical_probe n fs (abs_path ps) missing = Inr q \<Longrightarrow> path_names (ps @ missing) \<Longrightarrow>
    (missing \<noteq> [] \<Longrightarrow> absent fs (ps @ [last missing])) \<Longrightarrow>
    \<exists>rs ms. settled fs (n + length missing) rs ms q \<and>
      (fs_eval fs (abs_path ps) = EvalMissing \<or> missing \<noteq> [] \<longrightarrow> ms \<noteq> [])"
proof (induction n arbitrary: ps missing q)
  case (Suc n)
  note laws = fs_resolvesD [OF assms]
  have names: "path_names ps" "path_names (rev missing)" using Suc.prems(2) by auto
  from canonical_probe_Inr [OF Suc.prems(1)] consider
    (found) r where "fs_eval fs (abs_path ps) = Resolved r" "q = path_clean (path_join (r # rev missing))"
    | (link) t r where "fs_eval fs (abs_path ps) = EvalMissing" "fs_lstat fs (abs_path ps) = LstatLink"
        "fs_readlink fs (abs_path ps) = Some t" "canonical_fuel n fs (link_target (abs_path ps) t) = Inr r"
        "q = path_clean (path_join (r # rev missing))"
    | (up) "fs_eval fs (abs_path ps) = EvalMissing" "fs_lstat fs (abs_path ps) \<in> {LstatOther, LstatMissing}"
        "path_dir (abs_path ps) \<noteq> abs_path ps"
        "canonical_probe n fs (path_dir (abs_path ps)) (missing @ [filepath_base (abs_path ps)]) = Inr q" by blast
  then show ?case
  proof cases
    case found
    with laws(2) [of "abs_path ps" r] obtain rs where rs: "r = abs_path rs" "path_names rs" "fs_eval fs r = Resolved r"
      by auto
    have "absent fs (rs @ [hd (rev missing)])" if "missing \<noteq> []"
      using laws(3) [of ps "[last missing]" rs] Suc.prems(2,3) that rs found(1)
      by (simp add: absent_def hd_rev)
    moreover have "q = abs_path (rs @ rev missing)"
      using found(2) rs names path_join_abs [OF rs(2) names(2)] by (simp add: ball_Un)
    ultimately have "settled fs (Suc n + length missing) rs (rev missing) q"
      using rs names by (auto simp: settled_def)
    with found(1) show ?thesis by auto
  next
    case link
    let ?t = "link_target (abs_path ps) t"
    from canonical_fuel_Inr [OF link(4)] obtain a where
      a: "filepath_abs fs ?t = Some a" "canonical_probe n fs (path_clean a) [] = Inr r" by blast
    have t_abs: "is_abs ?t" by (simp add: link_target_def is_abs_join is_abs_dir)
    then have ac: "path_clean a = path_clean ?t" using a(1) path_clean_rooted [OF t_abs] by (auto simp: filepath_abs_def)
    obtain as where as: "path_clean ?t = abs_path as" "path_names as" using path_clean_rooted [OF t_abs] by blast
    have "fs_eval fs (abs_path as) = EvalMissing" using laws(5) [OF names(1) link(1-3)] as by simp
    with Suc.IH [of as "[]" r] a(2) ac as obtain rs ms where
      s: "settled fs n rs ms r" "ms \<noteq> []" by auto
    then have r: "path_names (rs @ ms)" "r = abs_path (rs @ ms)" by (simp_all add: settled_def)
    have "q = abs_path (rs @ ms @ rev missing)"
      using link(5) r path_join_abs [OF r(1) names(2)] names(2) by (simp add: ball_Un)
    with s r names have "settled fs (Suc n + length missing) rs (ms @ rev missing) q"
      by (auto simp: settled_def)
    with s(2) show ?thesis by auto
  next
    case up
    from path_dir_changes [OF up(3) names(1)] obtain ds c where
      c: "ps = ds @ [c]" "path_dir (abs_path ps) = abs_path ds" "filepath_base (abs_path ps) = c" by blast
    have "absent fs ps"
      using up(1,2) laws(4) [of ps c] names(1) c(1) by (auto simp: absent_def)
    with Suc.IH [of ds "missing @ [c]" q] up(4) c Suc.prems(2) show ?thesis by auto
  qed
qed simp

lemma settled_probe:
  assumes "fs_resolves fs" and "settled fs n rs ms q"
  shows "length ms < k \<Longrightarrow> path_names ms' \<Longrightarrow> canonical_probe k fs q ms' = Inr (abs_path (rs @ ms @ rev ms'))"
  using assms(2)
proof (induction k arbitrary: ms q ms')
  case (Suc k)
  then have q: "q = abs_path (rs @ ms)" "path_names (rs @ ms)" by (simp_all add: settled_def)
  show ?case
  proof (cases ms rule: rev_cases)
    case Nil
    have "path_names rs" "path_names (rev ms')" using q Suc.prems(2) by auto
    with Nil Suc.prems(3) q path_join_abs [of rs "rev ms'"] show ?thesis
      by (simp add: canonical_probe.simps settled_def ball_Un)
  next
    case (snoc ds c)
    have "absent fs (rs @ [hd ms])" using Suc.prems(3) snoc by (simp add: settled_def)
    moreover have "rs @ ms = (rs @ [hd ms]) @ tl ms" using snoc by (cases ms) auto
    ultimately have "absent fs (rs @ ms)" using absent_below [OF assms(1), of "rs @ [hd ms]" "tl ms"] q(2) by simp
    then have miss: "fs_eval fs q = EvalMissing" "fs_lstat fs q = LstatMissing" using q by (simp_all add: absent_def)
    have q': "q = abs_path ((rs @ ds) @ [c])" "path_names ((rs @ ds) @ [c])" using q snoc by simp_all
    have "path_dir q = abs_path (rs @ ds)" "filepath_base q = c"
      unfolding q'(1) by (rule path_dir_snoc [OF q'(2)], rule filepath_base_snoc [OF q'(2)])
    moreover have "abs_path (rs @ ds) \<noteq> q" using q' abs_path_inj [of "rs @ ds" "rs @ ds @ [c]"] by auto
    moreover have "settled fs n rs ds (abs_path (rs @ ds))"
      using Suc.prems(3) snoc by (cases ds) (auto simp: settled_def)
    then have "canonical_probe k fs (abs_path (rs @ ds)) (ms' @ [c]) = Inr (abs_path (rs @ ds @ rev (ms' @ [c])))"
      using Suc.prems(1,2) snoc q by (intro Suc.IH) auto
    ultimately show ?thesis using miss snoc by (simp add: canonical_probe.simps)
  qed
qed simp

lemma canonical_canonical:
  assumes "fs_resolves fs" and "canonical fs p = Inr q"
  shows "canonical fs q = Inr q"
proof -
  from assms(2) obtain a where a: "filepath_abs fs p = Some a" "canonical_probe (fs_fuel fs) fs (path_clean a) [] = Inr q"
    unfolding canonical_def using canonical_fuel_Inr by blast
  have "is_abs a" using a(1) fs_resolvesD(1) [OF assms(1)] is_abs_filepath_abs by blast
  then obtain ps where ps: "path_clean a = abs_path ps" "path_names ps" using path_clean_rooted by blast
  with probe_settled [OF assms(1), of "fs_fuel fs" ps "[]" q] a(2) obtain rs ms where
    s: "settled fs (fs_fuel fs) rs ms q" by auto
  then have q: "q = abs_path (rs @ ms)" "path_names (rs @ ms)" "length ms < fs_fuel fs" by (simp_all add: settled_def)
  have "q \<noteq> []" unfolding q(1) by (simp add: abs_path_def)
  moreover have "filepath_abs fs q = Some q" "path_clean q = q" using q by (simp_all add: filepath_abs_def)
  ultimately show ?thesis
    using settled_probe [OF assms(1) s q(3), of "[]"] q(1) by (simp add: canonical_def canonical_fuel.simps)
qed

section \<open>Containment\<close>

lemma no_parent_traversal: "path_names cs \<Longrightarrow> \<forall>c \<in> set cs. CHR 0x5C \<notin> set c \<Longrightarrow> \<not> has_parent_traversal (abs_path cs)"
proof -
  assume names: "path_names cs" and "\<forall>c \<in> set cs. CHR 0x5C \<notin> set c"
  then have "CHR 0x5C \<notin> set (join_str ''/'' cs)"
    by (induction "''/''" cs rule: join_str.induct) auto
  then have "map (\<lambda>c. if c = CHR 0x5C then slash else c) (abs_path cs) = abs_path cs"
    by (intro map_idI) (auto simp: abs_path_def)
  with names show ?thesis
    using split_on_abs_path [of cs] by (auto simp: has_parent_traversal_def path_name_def)
qed

lemma canonical_child_settled:
  assumes "canonical fs r = Inr r'" and "canonical fs c = Inr c'"
  shows "(\<exists>e \<in> {ErrTraversal, ErrOutsideRoot, ErrRoot}. canonical_child fs r c = Inl e) \<or> canonical_child fs r c = Inr c'"
  using assms by (auto simp: canonical_child_def split: option.splits)

text \<open>
  C32: On a file system that resolves paths as POSIX documents, canonicalising twice changes
  nothing, and \<open>Contains\<close> compares element by element: it accepts a candidate that resolves to
  the root, or to a path whose elements extend the root's. It refuses one below the root only
  when an element of it, read with backslashes as separators, has a part that is two dots; a
  path without backslashes is never refused.
\<close>

theorem contains_by_elements:
  assumes "fs_resolves fs" and "canonical fs root = Inr r" and "canonical fs candidate = Inr c"
  shows "\<exists>rs cs. r = abs_path rs \<and> c = abs_path cs \<and> path_names rs \<and> path_names cs \<and> canonical fs r = Inr r \<and>
    contains_path fs root candidate = Inr (cs = rs \<or> (\<exists>n ns. cs = rs @ n # ns) \<and> \<not> has_parent_traversal c) \<and>
    ((\<forall>x \<in> set cs. CHR 0x5C \<notin> set x) \<longrightarrow> contains_path fs root candidate = Inr (\<exists>ns. cs = rs @ ns))"
proof -
  note abs = fs_resolvesD(1) [OF assms(1)]
  from canonical_clean [OF abs assms(2)] canonical_clean [OF abs assms(3)] obtain rs cs where
    p: "r = abs_path rs" "c = abs_path cs" "path_names rs" "path_names cs" by blast
  note again = canonical_canonical [OF assms(1,2)] canonical_canonical [OF assms(1,3)]
  have "canonical_child fs r c = Inr c \<longleftrightarrow> \<not> has_parent_traversal c \<and> (\<exists>n ns. cs = rs @ n # ns)"
  proof -
    have "canonical fs r = Inr (abs_path us) \<and> c = abs_path (us @ n # ns) \<and> path_names (us @ n # ns) \<longleftrightarrow>
        us = rs \<and> cs = rs @ n # ns" for us n ns
      using again p abs_path_inj [of rs us] abs_path_inj [of cs "us @ n # ns"] by auto
    then show ?thesis using again unfolding canonical_child_iff [OF abs] by auto
  qed
  then have "is_child fs r c = Inr (\<not> has_parent_traversal c \<and> (\<exists>n ns. cs = rs @ n # ns))"
    using canonical_child_settled [OF again] unfolding is_child_def by (auto split: if_splits)
  then have *: "contains_path fs root candidate = Inr (cs = rs \<or> (\<exists>n ns. cs = rs @ n # ns) \<and> \<not> has_parent_traversal c)"
    using assms(2,3) p abs_path_inj [of rs cs] by (auto simp: contains_path_def)
  have "cs = rs \<or> (\<exists>n ns. cs = rs @ n # ns) \<longleftrightarrow> (\<exists>ns. cs = rs @ ns)"
    by (metis append_Nil2 neq_Nil_conv)
  with * no_parent_traversal [OF p(4)] p(2)
  have "(\<forall>x \<in> set cs. CHR 0x5C \<notin> set x) \<Longrightarrow> contains_path fs root candidate = Inr (\<exists>ns. cs = rs @ ns)" by simp
  with * p again(1) show ?thesis by blast
qed

section \<open>Canonical returns\<close>

lemma probe_returns:
  assumes "\<And>ds c. path_names (ds @ [c]) \<Longrightarrow> M (abs_path ds) < M (abs_path (ds @ [c]))"
    and "\<And>ds t. path_names ds \<Longrightarrow> fs_eval fs (abs_path ds) = EvalMissing \<Longrightarrow> fs_lstat fs (abs_path ds) = LstatLink \<Longrightarrow>
      fs_readlink fs (abs_path ds) = Some t \<Longrightarrow> M (path_clean (link_target (abs_path ds) t)) < M (abs_path ds)"
  shows "path_names ps \<Longrightarrow> M (abs_path ps) < n \<Longrightarrow> canonical_probe n fs (abs_path ps) missing \<noteq> Inl OutOfFuel"
proof (induction n arbitrary: ps missing)
  case (Suc n)
  have up: "canonical_probe n fs (path_dir (abs_path ps)) ms \<noteq> Inl OutOfFuel" if "path_dir (abs_path ps) \<noteq> abs_path ps" for ms
  proof -
    from path_dir_changes [OF that Suc.prems(1)] obtain ds c where
      c: "ps = ds @ [c]" "path_dir (abs_path ps) = abs_path ds" by blast
    with assms(1) [of ds c] Suc show ?thesis by auto
  qed
  have link: "canonical_fuel n fs (link_target (abs_path ps) t) \<noteq> Inl OutOfFuel"
    if l: "fs_eval fs (abs_path ps) = EvalMissing" "fs_lstat fs (abs_path ps) = LstatLink" "fs_readlink fs (abs_path ps) = Some t" for t
  proof -
    let ?t = "link_target (abs_path ps) t"
    have "is_abs ?t" by (simp add: link_target_def is_abs_join is_abs_dir)
    then obtain as where as: "path_clean ?t = abs_path as" "path_names as" using path_clean_rooted by blast
    have "M (abs_path as) < n" using assms(2) [OF Suc.prems(1) l] Suc.prems(2) as by simp
    with Suc.IH [OF as(2)] as \<open>is_abs ?t\<close> show ?thesis by (auto simp: canonical_fuel.simps [of n] filepath_abs_def)
  qed
  show ?case
    using up link by (auto simp: canonical_probe.simps(2) Let_def link_target_def [symmetric]
        split: eval_result.splits lstat_result.splits option.splits sum.splits)
qed simp

text \<open>
  C33: \<open>Canonical\<close> returns, with a path or an error of the file system, whenever the walk it makes
  comes to an end: given any measure of paths that shrinks from a path to its parent and from an
  unresolvable link to its target, a fuel above the measure of the path is enough. On a file
  system without unresolvable links the number of its elements is such a measure.
\<close>

theorem canonical_returns:
  assumes "fs_absolute fs" and "filepath_abs fs p = Some a" and "M (path_clean a) < fs_fuel fs"
    and "\<And>ds c. path_names (ds @ [c]) \<Longrightarrow> M (abs_path ds) < M (abs_path (ds @ [c]))"
    and "\<And>ds t. path_names ds \<Longrightarrow> fs_eval fs (abs_path ds) = EvalMissing \<Longrightarrow> fs_lstat fs (abs_path ds) = LstatLink \<Longrightarrow>
      fs_readlink fs (abs_path ds) = Some t \<Longrightarrow> M (path_clean (link_target (abs_path ds) t)) < M (abs_path ds)"
  shows "canonical fs p \<noteq> Inl OutOfFuel"
proof -
  obtain ps where ps: "path_clean a = abs_path ps" "path_names ps"
    using path_clean_rooted is_abs_filepath_abs [OF assms(1,2)] by blast
  with assms(3) have "canonical_probe (fs_fuel fs) fs (abs_path ps) [] \<noteq> Inl OutOfFuel"
    by (intro probe_returns [of M]) (simp_all add: assms(4,5))
  with ps(1) assms(2) show ?thesis by (simp add: canonical_def canonical_fuel.simps)
qed

section \<open>A file system without links\<close>

definition tree_fs :: "string list list \<Rightarrow> file_system" where
  "tree_fs dirs = \<lparr>fs_cwd = Some ''/'',
    fs_eval = (\<lambda>p. if p \<in> set (map abs_path dirs) then Resolved p else EvalMissing),
    fs_lstat = (\<lambda>p. if p \<in> set (map abs_path dirs) then LstatOther else LstatMissing),
    fs_readlink = (\<lambda>p. None), fs_fuel = 100\<rparr>"

definition tree_dirs :: "string list list \<Rightarrow> bool" where
  "tree_dirs dirs \<longleftrightarrow> (\<forall>ds \<in> set dirs. path_names ds \<and> butlast ds \<in> set dirs)"

lemma tree_fs_exists:
  assumes "tree_dirs dirs" and "path_names ds"
  shows "fs_eval (tree_fs dirs) (abs_path ds) = (if ds \<in> set dirs then Resolved (abs_path ds) else EvalMissing)"
    and "fs_lstat (tree_fs dirs) (abs_path ds) = (if ds \<in> set dirs then LstatOther else LstatMissing)"
proof -
  have "abs_path ds \<in> set (map abs_path dirs) \<longleftrightarrow> ds \<in> set dirs"
    using assms abs_path_inj [OF assms(2)] unfolding tree_dirs_def by fastforce
  then show "fs_eval (tree_fs dirs) (abs_path ds) = (if ds \<in> set dirs then Resolved (abs_path ds) else EvalMissing)"
    and "fs_lstat (tree_fs dirs) (abs_path ds) = (if ds \<in> set dirs then LstatOther else LstatMissing)"
    unfolding tree_fs_def by simp_all
qed

lemma tree_fs_absolute: "fs_absolute (tree_fs dirs)"
  by (auto simp: fs_absolute_def tree_fs_def is_abs_def split: if_splits)

lemma tree_fs_resolves:
  assumes "tree_dirs dirs"
  shows "fs_resolves (tree_fs dirs)"
proof -
  note found = tree_fs_exists [OF assms]
  have up: "ds \<in> set dirs" if "ds @ [c] \<in> set dirs" for ds c
    using assms that by (auto simp: tree_dirs_def dest!: bspec)
  have "(\<exists>rs. r = abs_path rs \<and> path_names rs) \<and> fs_eval (tree_fs dirs) r = Resolved r"
    if "fs_eval (tree_fs dirs) p = Resolved r" for p r
    using that assms by (auto simp: tree_fs_def tree_dirs_def split: if_splits)
  moreover have "rs = ds" if "path_names ds" "path_names rs" "fs_eval (tree_fs dirs) (abs_path ds) = Resolved (abs_path rs)" for ds rs
    using that found(1) [OF that(1)] abs_path_inj [of ds rs] by (simp split: if_splits)
  then have "\<forall>ds rs cs. path_names (ds @ cs) \<longrightarrow> path_names rs \<longrightarrow> cs \<noteq> [] \<longrightarrow>
      fs_eval (tree_fs dirs) (abs_path ds) = Resolved (abs_path rs) \<longrightarrow>
      fs_eval (tree_fs dirs) (abs_path (rs @ cs)) = fs_eval (tree_fs dirs) (abs_path (ds @ cs)) \<and>
      fs_lstat (tree_fs dirs) (abs_path (rs @ cs)) = fs_lstat (tree_fs dirs) (abs_path (ds @ cs))"
    unfolding set_append ball_Un by blast
  moreover have "\<forall>ds c. path_names (ds @ [c]) \<longrightarrow> fs_eval (tree_fs dirs) (abs_path ds) = EvalMissing \<longrightarrow>
      fs_lstat (tree_fs dirs) (abs_path ds) \<noteq> LstatOther \<and>
      (fs_lstat (tree_fs dirs) (abs_path ds) = LstatMissing \<longrightarrow>
        fs_eval (tree_fs dirs) (abs_path (ds @ [c])) = EvalMissing \<and>
        fs_lstat (tree_fs dirs) (abs_path (ds @ [c])) = LstatMissing)"
    using up by (auto simp: found)
  moreover have "fs_lstat (tree_fs dirs) p \<noteq> LstatLink" for p by (simp add: tree_fs_def)
  ultimately show ?thesis unfolding fs_resolves_def using tree_fs_absolute by blast
qed

abbreviation small_dirs :: "string list list" where
  "small_dirs \<equiv> [[], [''w''], [''w'', ''r'']]"

lemma small_dirs_ok: "fs_resolves (tree_fs small_dirs)"
  by (rule tree_fs_resolves) (simp add: tree_dirs_def path_name_def)

lemma small_canonical:
  "canonical (tree_fs small_dirs) ''/w'' = Inr ''/w''"
  "canonical (tree_fs small_dirs) ''/w/r'' = Inr ''/w/r''"
  "canonical (tree_fs small_dirs) ''w//r/./new'' = Inr ''/w/r/new''"
  by code_simp+


lemma small_paths: "''/w'' = abs_path [''w'']" "''/w/r'' = abs_path [''w'', ''r'']"
  "path_names [''w'']" "path_names [''w'', ''r'']"
  by (simp_all add: abs_path_def path_name_def)

theorem contains_by_elements_witness:
  "contains_path (tree_fs small_dirs) ''/w'' ''/w/r'' = Inr True"
proof -
  from contains_by_elements [OF small_dirs_ok small_canonical(1,2)] obtain rs cs where
    p: "''/w'' = abs_path rs" "''/w/r'' = abs_path cs" "path_names rs" "path_names cs"
    "(\<forall>x \<in> set cs. CHR 0x5C \<notin> set x) \<longrightarrow> contains_path (tree_fs small_dirs) ''/w'' ''/w/r'' = Inr (\<exists>ns. cs = rs @ ns)"
    by blast
  have "abs_path rs = abs_path [''w'']" "abs_path cs = abs_path [''w'', ''r'']"
    by (rule trans [OF sym [OF p(1)] small_paths(1)], rule trans [OF sym [OF p(2)] small_paths(2)])
  then have "rs = [''w'']" "cs = [''w'', ''r'']"
    using abs_path_inj [OF p(3) small_paths(3)] abs_path_inj [OF p(4) small_paths(4)] by blast+
  with p(5) show ?thesis by simp
qed

text \<open>Below a directory named \<open>..\x\<close>, \<open>Contains\<close> misses what lies below the root.\<close>

lemma contains_misses_backslash:
  "contains_path (tree_fs ([''w'', [CHR ''.'', CHR ''.'', CHR 0x5C, CHR ''x'']] # small_dirs)) ''/w''
    (''/w/..'' @ [CHR 0x5C] @ ''x'') = Inr False"
  by code_simp

lemma parent_shorter:
  assumes "path_names (ds @ [c])"
  shows "length (abs_path ds) < length (abs_path (ds @ [c]))"
proof -
  have "0 < length c" using assms by (simp add: path_name_def)
  moreover have "length (abs_path []) = 1" by (simp add: abs_path_def)
  ultimately show ?thesis unfolding abs_path_snoc by (cases "ds = []") simp_all
qed

lemma small_returns: "filepath_abs (tree_fs small_dirs) ''/w/x/y'' = Some ''/w/x/y''"
    "length (path_clean ''/w/x/y'') < fs_fuel (tree_fs small_dirs)"
  by (code_simp, simp add: tree_fs_def, code_simp)

theorem canonical_returns_witness:
  "canonical (tree_fs small_dirs) ''/w/x/y'' \<noteq> Inl OutOfFuel"
  by (rule canonical_returns [where M = length, OF tree_fs_absolute small_returns parent_shorter])
    (simp_all add: tree_fs_def)

end
