(* ===== verification/PortablePaths.thy ===== *)
theory PortablePaths
  imports Paths
begin

text \<open>
  The rest of \<open>internal/pathx/pathx.go\<close>: single path components, destinations joined below a
  root, and the portable relative paths with their collision check. Go's tables of upper case and
  of format characters are parameters, and so is the collision key, which normalises and folds
  with packages outside the repository.
\<close>

section \<open>Components\<close>

definition drive_qualified :: "string \<Rightarrow> bool" where
  "drive_qualified c = (case c of a # b # _ \<Rightarrow> b = CHR '':'' \<and> (is_lower a \<or> is_upper a) | _ \<Rightarrow> False)"

definition validate_component :: "string \<Rightarrow> path_error option" where
  "validate_component c =
    fail_if
      (trim_space c = [] \<or> CHR 0x00 \<in> set c \<or> c = ''.'' \<or> c = dotdot \<or>
       is_abs c \<or> drive_qualified c \<or> slash \<in> set c \<or> CHR 0x5C \<in> set c \<or>
       path_clean c \<noteq> c \<or> filepath_base c \<noteq> c)
      ErrInvalidComponent"

definition join_child :: "file_system \<Rightarrow> string \<Rightarrow> string list \<Rightarrow> path_error + string" where
  "join_child fs root components =
    (if components = [] then Inl ErrRoot
     else case first_error validate_component components of
       Some e \<Rightarrow> Inl e
     | None \<Rightarrow>
       (case canonical fs root of
          Inl e \<Rightarrow> Inl e
        | Inr canonical_root \<Rightarrow>
            canonical_child fs canonical_root (path_join (canonical_root # components))))"

section \<open>Portable paths\<close>

record portable_path_limits =
  max_path_bytes :: int
  max_component_bytes :: int
  max_depth :: int

record unicode_tables =
  ut_upper :: "nat \<Rightarrow> nat"
  ut_format :: "nat \<Rightarrow> bool"
  ut_fold :: "string \<Rightarrow> string"

datatype portable_error = ErrNotPortable | ErrPathLimit | ErrParentTraversal | ErrPathCollision

definition trim_right :: "string \<Rightarrow> string \<Rightarrow> string" where
  "trim_right s cs = rev (dropWhile (\<lambda>c. c \<in> set cs) (rev s))"

definition upper_rune :: "(nat \<Rightarrow> nat) \<Rightarrow> nat \<Rightarrow> nat" where
  "upper_rune ur r = (if 97 \<le> r \<and> r \<le> 122 then r - 32 else if r < 128 then r else ur r)"

text \<open>The runes of \<open>strings.ToUpper\<close>.\<close>

definition upper_runes :: "(nat \<Rightarrow> nat) \<Rightarrow> string \<Rightarrow> nat list" where
  "upper_runes ur s = map (upper_rune ur) (runes s)"

definition is_portable_control :: "unicode_tables \<Rightarrow> nat \<Rightarrow> bool" where
  "is_portable_control ut r \<longleftrightarrow> is_control r \<or> ut_format ut r"

abbreviation bytes :: "string \<Rightarrow> nat list" where "bytes s \<equiv> map byte s"

definition windows_reserved_name :: "unicode_tables \<Rightarrow> string \<Rightarrow> bool" where
  "windows_reserved_name ut component =
    (let base = trim_right (takeWhile (\<lambda>c. c \<noteq> CHR ''.'') component) '' '';
         upper = upper_runes (ut_upper ut) base
     in if upper \<in> set (map bytes [''CON'', ''PRN'', ''AUX'', ''NUL'', ''CONIN$'', ''CONOUT$'', ''CLOCK$'']) then True
        else if length upper \<noteq> 4 then False
        else if take 3 upper \<noteq> bytes ''COM'' \<and> take 3 upper \<noteq> bytes ''LPT'' then False
        else let last = upper ! 3 in
          49 \<le> last \<and> last \<le> 57 \<or> last = 0xB9 \<or> last = 0xB2 \<or> last = 0xB3)"

definition validate_portable_component :: "unicode_tables \<Rightarrow> string \<Rightarrow> int \<Rightarrow> portable_error option" where
  "validate_portable_component ut c max_bytes =
    checks
      [fail_if (max_bytes < 0) ErrPathLimit,
       fail_if (\<not> utf8_valid c) ErrNotPortable,
       fail_if (validate_component c \<noteq> None) ErrNotPortable,
       fail_if (0 < max_bytes \<and> max_bytes < int (length c)) ErrPathLimit,
       fail_if (\<exists>r \<in> set (runes c). is_portable_control ut r) ErrNotPortable,
       fail_if (map ascii_lower (trim_right c ''. '') = ''.git'') ErrNotPortable,
       fail_if (trim_right c ''. '' \<noteq> c) ErrNotPortable,
       fail_if (\<exists>x \<in> set c. x \<in> set (''<>:|?*'' @ [CHR 0x22])) ErrNotPortable,
       fail_if (windows_reserved_name ut c) ErrNotPortable]"

definition validate_portable_slash_path :: "unicode_tables \<Rightarrow> portable_path_limits \<Rightarrow> string \<Rightarrow> portable_error option" where
  "validate_portable_slash_path ut limits v =
    checks
      [fail_if (max_path_bytes limits < 0 \<or> max_component_bytes limits < 0 \<or> max_depth limits < 0) ErrPathLimit,
       fail_if (\<not> utf8_valid v) ErrNotPortable,
       fail_if (v = []) ErrNotPortable,
       fail_if (CHR 0x5C \<in> set v) ErrNotPortable,
       fail_if (has_prefix v ''/'' \<or> has_prefix v ''//'' \<or> is_abs v \<or> drive_qualified v) ErrNotPortable,
       fail_if (0 < max_path_bytes limits \<and> max_path_bytes limits < int (length v)) ErrPathLimit,
       fail_if (0 < max_depth limits \<and> max_depth limits < int (length (split_on slash v))) ErrPathLimit,
       first_error (\<lambda>c. if c = dotdot then Some ErrParentTraversal
         else validate_portable_component ut c (max_component_bytes limits)) (split_on slash v)]"

text \<open>
  The collision trie of \<open>ValidatePortablePathSet\<close>: a node has the spelling of its component, the
  first path it came with, and its children by key.
\<close>

datatype collision_node = CollisionNode (cn_spelling: string) (cn_first: string) (cn_children: "(string \<times> collision_node) list")

type_synonym collision_children = "(string \<times> collision_node) list"

fun add_components :: "(string \<Rightarrow> string) \<Rightarrow> string \<Rightarrow> string list \<Rightarrow> collision_children \<Rightarrow> portable_error + collision_children" where
  "add_components key v [] children = Inr children"
| "add_components key v (c # cs) children =
    (case map_of children (key c) of
       Some next \<Rightarrow>
         if cn_spelling next \<noteq> c then Inl ErrPathCollision
         else (case add_components key v cs (cn_children next) of
                 Inl e \<Rightarrow> Inl e
               | Inr sub \<Rightarrow> Inr ((key c, CollisionNode c (cn_first next) sub) # filter (\<lambda>kn. fst kn \<noteq> key c) children))
     | None \<Rightarrow>
         (case add_components key v cs [] of
            Inl e \<Rightarrow> Inl e
          | Inr sub \<Rightarrow> Inr ((key c, CollisionNode c v sub) # children)))"

fun path_set_loop :: "unicode_tables \<Rightarrow> portable_path_limits \<Rightarrow> collision_children \<Rightarrow> string list \<Rightarrow> portable_error option" where
  "path_set_loop ut limits root [] = None"
| "path_set_loop ut limits root (v # vs) =
    (case validate_portable_slash_path ut limits v of
       Some e \<Rightarrow> Some e
     | None \<Rightarrow>
       (case add_components (ut_fold ut) v (split_on slash v) root of
          Inl e \<Rightarrow> Some e
        | Inr root \<Rightarrow> path_set_loop ut limits root vs))"

definition validate_portable_path_set :: "unicode_tables \<Rightarrow> portable_path_limits \<Rightarrow> string list \<Rightarrow> portable_error option" where
  "validate_portable_path_set ut limits paths = path_set_loop ut limits [] paths"

section \<open>Confinement\<close>

lemma validate_component_name: "validate_component c = None \<Longrightarrow> path_name c"
  by (auto simp: validate_component_def path_name_def filepath_base_def)

lemma validate_components_names: "first_error validate_component cs = None \<Longrightarrow> path_names cs"
  by (auto simp: first_error_None_iff validate_component_name)

text \<open>
  C34: \<open>JoinChild\<close> only returns destinations strictly below the canonical root, whatever links the
  components lead through, and where the components name nothing that exists it is the plain
  join of the canonical root and the components.
\<close>

theorem join_child_confined:
  assumes "fs_resolves fs" and "join_child fs root cs = Inr d"
  shows "\<exists>rs n ns. canonical fs root = Inr (abs_path rs) \<and> d = abs_path (rs @ n # ns) \<and> path_names (rs @ n # ns) \<and>
    path_names cs \<and> canonical fs (abs_path (rs @ cs)) = Inr d"
proof -
  from assms(2) obtain r where r: "path_names cs" "canonical fs root = Inr r" "canonical_child fs r (path_join (r # cs)) = Inr d"
    by (auto simp: join_child_def validate_components_names split: if_splits option.splits sum.splits)
  note abs = fs_resolvesD(1) [OF assms(1)]
  from canonical_clean [OF abs r(2)] obtain rs where rs: "r = abs_path rs" "path_names rs" by blast
  from r(3) obtain us n ns where c: "canonical fs (path_join (r # cs)) = Inr d" "canonical fs r = Inr (abs_path us)"
    "d = abs_path (us @ n # ns)" "path_names (us @ n # ns)"
    unfolding canonical_child_iff [OF abs] by blast
  have "abs_path us = r" using c(2) canonical_canonical [OF assms(1) r(2)] by simp
  moreover have "path_join (r # cs) = abs_path (rs @ cs)" using rs r(1) path_join_abs by simp
  ultimately have "canonical fs root = Inr (abs_path us)" "canonical fs (abs_path (rs @ cs)) = Inr d"
    using c(1) r(2) by simp_all
  with c r(1) rs \<open>abs_path us = r\<close> show ?thesis using abs_path_inj [of us rs] by (auto simp: ball_Un)
qed

lemma portable_component_name: "validate_portable_component ut c m = None \<Longrightarrow> path_name c"
  by (simp add: validate_portable_component_def validate_component_name)

lemma portable_component_bytes: "validate_portable_component ut c m = None \<Longrightarrow> 0 < m \<Longrightarrow> int (length c) \<le> m"
  by (simp add: validate_portable_component_def)

lemma portable_component_alias:
  assumes "validate_portable_component ut c m = None"
  shows "map ascii_lower c \<noteq> ''.git''" and "trim_right c ''. '' = c"
proof -
  have "map ascii_lower (trim_right c ''. '') \<noteq> ''.git'' \<and> trim_right c ''. '' = c"
    using assms by (simp add: validate_portable_component_def) (elim conjE, simp)
  then show "map ascii_lower c \<noteq> ''.git''" "trim_right c ''. '' = c" by metis+
qed

text \<open>
  C35: A path that \<open>ValidatePortableSlashPath\<close> accepts stays below whatever directory it is joined
  to, element by element as it is spelled, and keeps every limit that is set: its bytes, the bytes
  of each component, and its depth. No component is empty, a dot, two dots, or a spelling of
  \<open>.git\<close>, and none ends in a dot or a space.
\<close>

theorem portable_path_confined:
  assumes "validate_portable_slash_path ut limits v = None" and "path_names rs"
  shows "path_join [abs_path rs, v] = abs_path (rs @ split_on slash v) \<and> path_names (rs @ split_on slash v) \<and>
    (0 < max_path_bytes limits \<longrightarrow> int (length v) \<le> max_path_bytes limits) \<and>
    (0 < max_depth limits \<longrightarrow> int (length (split_on slash v)) \<le> max_depth limits) \<and>
    (\<forall>c \<in> set (split_on slash v). (0 < max_component_bytes limits \<longrightarrow> int (length c) \<le> max_component_bytes limits) \<and>
      map ascii_lower c \<noteq> ''.git'' \<and> last c \<notin> {CHR ''.'', CHR '' ''})"
proof -
  have v: "\<And>c. c \<in> set (split_on slash v) \<Longrightarrow> validate_portable_component ut c (max_component_bytes limits) = None"
    using assms(1) by (auto simp: validate_portable_slash_path_def first_error_None_iff split: if_splits)
  then have names: "path_names (split_on slash v)" using portable_component_name by blast
  have "v \<noteq> []" using assms(1) by (simp add: validate_portable_slash_path_def)
  have "path_join [abs_path rs, v] = path_join (abs_path rs # split_on slash v)"
    using join_split_on [of slash v] join_str_append [of "[abs_path rs]" "split_on slash v" "''/''"]
    by (simp add: path_join_def abs_path_def)
  also have "\<dots> = abs_path (rs @ split_on slash v)" using assms(2) names by (rule path_join_abs)
  finally have "path_join [abs_path rs, v] = abs_path (rs @ split_on slash v)" .
  moreover have "last c \<notin> {CHR ''.'', CHR '' ''} \<and> map ascii_lower c \<noteq> ''.git''" if "c \<in> set (split_on slash v)" for c
  proof -
    note c = portable_component_alias [OF v [OF that]]
    have "c \<noteq> []" using names that by (auto simp: path_name_def)
    then obtain d e where "c = d @ [e]" by (cases c rule: rev_cases) auto
    moreover from this c(2) have "e \<notin> set ''. ''"
      using length_dropWhile_le [of "\<lambda>c. c \<in> set ''. ''" "rev d"]
      by (auto simp: trim_right_def dest!: arg_cong [of _ _ length])
    ultimately show ?thesis using c(1) by simp
  qed
  ultimately show ?thesis
    using assms names portable_component_bytes [OF v]
    by (auto simp: validate_portable_slash_path_def not_less)
qed

section \<open>Collisions\<close>

text \<open>The spellings the trie holds along a list of keys.\<close>

fun spelled :: "string list \<Rightarrow> collision_children \<Rightarrow> string list option" where
  "spelled [] children = Some []"
| "spelled (k # ks) children =
    (case map_of children k of
       None \<Rightarrow> None
     | Some next \<Rightarrow> map_option ((#) (cn_spelling next)) (spelled ks (cn_children next)))"

abbreviation keys_of :: "(string \<Rightarrow> string) \<Rightarrow> nat \<Rightarrow> string list \<Rightarrow> string list" where
  "keys_of key n p \<equiv> map key (take n p)"

lemma map_of_replace: "map_of ((k, x) # filter (\<lambda>kn. fst kn \<noteq> k) xs) k' = (if k' = k then Some x else map_of xs k')"
  by (induction xs) auto

lemma spelled_add:
  "add_components key v p ch = Inr ch' \<Longrightarrow>
   spelled ks ch' = (if \<exists>n \<le> length p. ks = keys_of key n p then Some (take (length ks) p) else spelled ks ch)"
proof (induction key v p ch arbitrary: ks ch' rule: add_components.induct)
  case (1 key v ch)
  then have ch: "ch' = ch" by (simp only: add_components.simps sum.inject)
  show ?case
  proof (cases ks)
    case (Cons k ks')
    then show ?thesis unfolding ch by simp
  qed simp
next
  case (2 key v c cs ch)
  have shift: "(\<exists>n \<le> length (c # cs). k # ks' = keys_of key n (c # cs)) \<longleftrightarrow> k = key c \<and> (\<exists>n \<le> length cs. ks' = keys_of key n cs)"
    for k ks'
  proof
    assume "\<exists>n \<le> length (c # cs). k # ks' = keys_of key n (c # cs)"
    then obtain n where "n \<le> length (c # cs)" "k # ks' = keys_of key n (c # cs)" by (elim exE conjE)
    moreover from this obtain m where "n = Suc m" by (cases n) auto
    ultimately have "k = key c" "m \<le> length cs" "ks' = keys_of key m cs" by simp_all
    then show "k = key c \<and> (\<exists>n \<le> length cs. ks' = keys_of key n cs)" by blast
  next
    assume "k = key c \<and> (\<exists>n \<le> length cs. ks' = keys_of key n cs)"
    then obtain n where "k = key c" "n \<le> length cs" "ks' = keys_of key n cs" by blast
    then show "\<exists>n \<le> length (c # cs). k # ks' = keys_of key n (c # cs)" by (intro exI [of _ "Suc n"]) simp
  qed
  show ?case
  proof (cases ks)
    case Nil
    then show ?thesis by simp
  next
    case (Cons k ks')
    show ?thesis
    proof (cases "map_of ch (key c)")
      case None
      with 2(3) obtain sub where sub: "add_components key v cs [] = Inr sub" "ch' = (key c, CollisionNode c v sub) # ch"
        by (auto split: sum.splits)
      have "spelled ks' [] = None" if "\<not> (\<exists>n \<le> length cs. ks' = keys_of key n cs)"
      proof (cases ks')
        case Nil
        then have "ks' = keys_of key 0 cs" by simp
        with that show ?thesis by blast
      qed simp
      with 2(1) [OF None sub(1)] have sub': "spelled ks' sub =
          (if \<exists>n \<le> length cs. ks' = keys_of key n cs then Some (take (length ks') cs) else None)" by simp
      show ?thesis unfolding Cons shift sub(2) using None sub' by (cases "k = key c") simp_all
    next
      case (Some nxt)
      with 2(3) obtain sub where sub: "add_components key v cs (cn_children nxt) = Inr sub" "cn_spelling nxt = c"
        "ch' = (key c, CollisionNode c (cn_first nxt) sub) # filter (\<lambda>kn. fst kn \<noteq> key c) ch"
        by (auto split: sum.splits if_splits)
      have sub': "spelled ks' sub = (if \<exists>n \<le> length cs. ks' = keys_of key n cs then Some (take (length ks') cs)
          else spelled ks' (cn_children nxt))" using 2(2) [OF Some _ sub(1)] sub(2) by blast
      define P where "P \<longleftrightarrow> (\<exists>n \<le> length cs. ks' = keys_of key n cs)"
      show ?thesis unfolding Cons shift sub(3) spelled.simps map_of_replace P_def [symmetric]
        using Some sub(2) sub' [folded P_def] by (cases "k = key c"; cases P) simp_all
    qed
  qed
qed

lemma add_collides:
  "(\<exists>e. add_components key v p ch = Inl e) \<longleftrightarrow>
   (\<exists>n \<le> length p. \<exists>ss. spelled (keys_of key n p) ch = Some ss \<and> ss \<noteq> take n p)"
proof (induction key v p ch rule: add_components.induct)
  case (2 key v c cs ch)
  have shift: "(\<exists>n \<le> length (c # cs). P n) \<longleftrightarrow> P 0 \<or> (\<exists>n \<le> length cs. P (Suc n))" for P
    using le_Suc_eq by (metis (no_types, lifting) Suc_le_mono bot_nat_0.extremum length_Cons not0_implies_Suc)
  show ?case
  proof (cases "map_of ch (key c)")
    case None
    have "spelled (keys_of key n cs) [] = Some ss \<Longrightarrow> ss = take n cs" for n ss
      by (cases "take n cs") auto
    with 2(1) [OF None] None show ?thesis unfolding shift by (auto split: sum.splits)
  next
    case (Some nxt)
    show ?thesis
    proof (cases "cn_spelling nxt = c")
      case True
      with 2(2) [OF Some] Some show ?thesis unfolding shift by (auto split: sum.splits)
    next
      case False
      with Some show ?thesis unfolding shift
        by (auto intro!: disjI2 exI [of _ 0])
    qed
  qed
qed auto

text \<open>Two component lists disagree when some prefixes have the same keys and another spelling.\<close>

definition agree :: "(string \<Rightarrow> string) \<Rightarrow> string list \<Rightarrow> string list \<Rightarrow> bool" where
  "agree key p q \<longleftrightarrow> (\<forall>n \<le> length p. n \<le> length q \<longrightarrow> keys_of key n p = keys_of key n q \<longrightarrow> take n p = take n q)"

definition holds_paths :: "(string \<Rightarrow> string) \<Rightarrow> collision_children \<Rightarrow> string list set \<Rightarrow> bool" where
  "holds_paths key ch ps \<longleftrightarrow> (\<forall>ks ss. spelled ks ch = Some ss \<longleftrightarrow>
    ks = [] \<and> ss = [] \<or> (\<exists>p \<in> ps. \<exists>n \<le> length p. ks = keys_of key n p \<and> ss = take n p))"

lemma add_agrees:
  assumes "holds_paths key ch ps"
  shows "(\<exists>e. add_components key v p ch = Inl e) \<longleftrightarrow> (\<exists>q \<in> ps. \<not> agree key p q)"
proof -
  have "(\<exists>n \<le> length p. \<exists>ss. spelled (keys_of key n p) ch = Some ss \<and> ss \<noteq> take n p) \<longleftrightarrow> (\<exists>q \<in> ps. \<not> agree key p q)"
    (is "?l \<longleftrightarrow> ?r")
  proof
    assume ?l
    then obtain n ss where n: "n \<le> length p" "spelled (keys_of key n p) ch = Some ss" "ss \<noteq> take n p" by blast
    then have "keys_of key n p = [] \<and> ss = [] \<or>
        (\<exists>q \<in> ps. \<exists>m \<le> length q. keys_of key n p = keys_of key m q \<and> ss = take m q)"
      using assms unfolding holds_paths_def by blast
    moreover have "m = n" if "keys_of key n p = keys_of key m q" "m \<le> length q" for m q
      using that n(1) by (metis length_map length_take min.absorb2)
    ultimately show ?r using n by (auto simp: agree_def) metis
  next
    assume ?r
    then obtain q n where q: "q \<in> ps" "n \<le> length p" "n \<le> length q" "keys_of key n p = keys_of key n q" "take n p \<noteq> take n q"
      by (auto simp: agree_def)
    then have "spelled (keys_of key n p) ch = Some (take n q)" using assms unfolding holds_paths_def by metis
    with q show ?l by metis
  qed
  then show ?thesis by (simp add: add_collides)
qed

lemma add_holds:
  assumes "holds_paths key ch ps" and "add_components key v p ch = Inr ch'"
  shows "holds_paths key ch' (insert p ps)"
proof -
  have *: "\<forall>q \<in> ps. agree key p q" using add_agrees [OF assms(1), of v p] assms(2) by auto
  have "spelled ks ch' = Some ss \<longleftrightarrow>
      ks = [] \<and> ss = [] \<or> (\<exists>q \<in> insert p ps. \<exists>n \<le> length q. ks = keys_of key n q \<and> ss = take n q)" for ks ss
  proof (cases "\<exists>n \<le> length p. ks = keys_of key n p")
    case True
    then obtain n where n: "n \<le> length p" "ks = keys_of key n p" by blast
    then have "spelled ks ch' = Some (take n p)" using spelled_add [OF assms(2), of ks] by auto
    moreover have "ss = take n p" if "q \<in> insert p ps" "m \<le> length q" "ks = keys_of key m q" "ss = take m q" for q m
    proof -
      have "m = n" using that(2,3) n by (metis length_map length_take min.absorb2)
      with that n * show ?thesis unfolding agree_def by (cases "q = p") (simp, metis insert_iff)
    qed
    moreover have "take n p = []" if "ks = []" using that n by (auto dest: arg_cong [of _ _ length])
    ultimately show ?thesis using n by (metis insertI1 option.inject)
  next
    case False
    then have "spelled ks ch' = spelled ks ch" using spelled_add [OF assms(2), of ks] by (simp only: if_False)
    moreover have "(\<exists>q \<in> insert p ps. \<exists>n \<le> length q. ks = keys_of key n q \<and> ss = take n q) \<longleftrightarrow>
        (\<exists>q \<in> ps. \<exists>n \<le> length q. ks = keys_of key n q \<and> ss = take n q)" using False by blast
    moreover have "spelled ks ch = Some ss \<longleftrightarrow>
        ks = [] \<and> ss = [] \<or> (\<exists>q \<in> ps. \<exists>n \<le> length q. ks = keys_of key n q \<and> ss = take n q)"
      using assms(1) unfolding holds_paths_def by blast
    ultimately show ?thesis by simp
  qed
  then show ?thesis unfolding holds_paths_def by blast
qed

lemma agree_sym: "agree key p q \<longleftrightarrow> agree key q p"
  by (auto simp: agree_def)

lemma agree_refl: "agree key p p"
  by (simp add: agree_def)

fun all_agree :: "(string \<Rightarrow> string) \<Rightarrow> string list set \<Rightarrow> string list list \<Rightarrow> bool" where
  "all_agree key ps [] = True"
| "all_agree key ps (p # rest) = ((\<forall>q \<in> ps. agree key p q) \<and> all_agree key (insert p ps) rest)"

lemma all_agree_iff:
  "all_agree key ps xs \<longleftrightarrow> (\<forall>p \<in> set xs. \<forall>q \<in> ps \<union> set xs. agree key p q)"
proof (induction xs arbitrary: ps)
  case (Cons p xs)
  then show ?case using agree_refl agree_sym [of key] by (auto simp: ball_Un)
qed simp

lemma path_set_loop_iff:
  "holds_paths (ut_fold ut) root ps \<Longrightarrow>
   path_set_loop ut limits root vs = None \<longleftrightarrow>
   (\<forall>v \<in> set vs. validate_portable_slash_path ut limits v = None) \<and> all_agree (ut_fold ut) ps (map (split_on slash) vs)"
proof (induction ut limits root vs arbitrary: ps rule: path_set_loop.induct)
  case (2 ut limits root v vs)
  show ?case
  proof (cases "validate_portable_slash_path ut limits v")
    case None
    show ?thesis
    proof (cases "add_components (ut_fold ut) v (split_on slash v) root")
      case (Inl e)
      then show ?thesis using add_agrees [OF 2(2), of v "split_on slash v"] None by auto
    next
      case (Inr root')
      note IH = 2(1) [OF None Inr add_holds [OF 2(2) Inr]]
      have "\<forall>q \<in> ps. agree (ut_fold ut) (split_on slash v) q"
        using add_agrees [OF 2(2), of v "split_on slash v"] Inr by auto
      with IH None Inr show ?thesis by simp
    qed
  qed simp
qed simp

text \<open>
  C36: \<open>ValidatePortablePathSet\<close> accepts exactly the lists of portable paths in which no two
  collide: whenever the first components of two paths have the same keys one by one, they have
  the same spelling. The trie with its early exits decides it for all pairs and every depth, in
  any order of the paths.
\<close>

theorem path_set_collision_free:
  "validate_portable_path_set ut limits paths = None \<longleftrightarrow>
    (\<forall>v \<in> set paths. validate_portable_slash_path ut limits v = None) \<and>
    (\<forall>v \<in> set paths. \<forall>w \<in> set paths. agree (ut_fold ut) (split_on slash v) (split_on slash w))"
proof -
  have "spelled ks [] = Some ss \<longleftrightarrow> ks = [] \<and> ss = []" for ks ss by (cases ks) auto
  then have "holds_paths (ut_fold ut) [] {}" by (simp add: holds_paths_def)
  then show ?thesis by (simp add: validate_portable_path_set_def path_set_loop_iff all_agree_iff)
qed

section \<open>Concrete paths\<close>

definition ascii_tables :: unicode_tables where
  "ascii_tables = \<lparr>ut_upper = id, ut_format = (\<lambda>_. False), ut_fold = map ascii_lower\<rparr>"

definition no_limits :: portable_path_limits where
  "no_limits = \<lparr>max_path_bytes = 0, max_component_bytes = 0, max_depth = 0\<rparr>"

theorem join_child_confined_witness:
  "\<exists>rs n ns. canonical (tree_fs small_dirs) ''/w'' = Inr (abs_path rs) \<and> ''/w/r/new'' = abs_path (rs @ n # ns)"
proof -
  have "join_child (tree_fs small_dirs) ''/w'' [''r'', ''new''] = Inr ''/w/r/new''" by code_simp
  from join_child_confined [OF small_dirs_ok this] show ?thesis by blast
qed

lemma plain_text: "\<forall>c \<in> set s. byte c < 128 \<Longrightarrow> utf8_valid s \<and> runes s = bytes s"
  by (simp add: utf8_valid_ascii runes_def decode_runes_ascii comp_def)

lemma component_names:
  "validate_portable_component ascii_tables ''docs'' 0 = None"
  "validate_portable_component ascii_tables ''Docs'' 0 = None"
  "validate_portable_component ascii_tables ''a.md'' 0 = None"
proof -
  have ok: "validate_component ''docs'' = None" "validate_component ''Docs'' = None" "validate_component ''a.md'' = None"
    by code_simp+
  show "validate_portable_component ascii_tables ''docs'' 0 = None" "validate_portable_component ascii_tables ''Docs'' 0 = None"
    "validate_portable_component ascii_tables ''a.md'' 0 = None"
    using ok by (simp_all add: validate_portable_component_def plain_text windows_reserved_name_def trim_right_def
        upper_runes_def ascii_tables_def upper_rune_def is_portable_control_def is_control_def ascii_lower_def char_class_defs)
qed

lemma small_slash_paths:
  "validate_portable_slash_path ascii_tables no_limits ''docs/a.md'' = None"
  "validate_portable_slash_path ascii_tables no_limits ''Docs/a.md'' = None"
  by (simp_all add: validate_portable_slash_path_def no_limits_def plain_text is_abs_def drive_qualified_def component_names)

theorem portable_path_confined_witness:
  "path_join [abs_path [''w''], ''docs/a.md''] = abs_path [''w'', ''docs'', ''a.md'']"
  using portable_path_confined [OF small_slash_paths(1), of "[''w'']"] by (simp add: path_name_def)

lemma folded: "ut_fold ascii_tables ''docs'' = ''docs''" "ut_fold ascii_tables ''Docs'' = ''docs''"
  by code_simp+

theorem path_set_collision_free_witness:
  "\<not> agree (map ascii_lower) [''docs'', ''a.md''] [''Docs'', ''a.md'']"
proof -
  have "validate_portable_path_set ascii_tables no_limits [''docs/a.md'', ''Docs/a.md''] = Some ErrPathCollision"
    by (simp add: validate_portable_path_set_def small_slash_paths folded)
  then show ?thesis
    using path_set_collision_free [of ascii_tables no_limits "[''docs/a.md'', ''Docs/a.md'']"] small_slash_paths agree_sym agree_refl
    by (auto simp: ascii_tables_def)
qed

end
