(* ===== verification/Occupancy.thy ===== *)
theory Occupancy
  imports Paths
begin

text \<open>
  \<open>internal/runtime/occupancy.go\<close>, with the types of \<open>runtime.go\<close> and the foreground processes and
  fingerprints of \<open>process.go\<close>: who occupies a checkout. The terminal multiplexer, the Git
  program and the file system are outside; a \<open>runtime_view\<close> holds what they answer during one
  inspection. SHA-256 and the JSON encoder are parameters.
\<close>

section \<open>Sessions, panes and processes\<close>

type_synonym process_state = string

abbreviation (input) process_unknown :: process_state where "process_unknown \<equiv> ''unknown''"
abbreviation (input) process_shell :: process_state where "process_shell \<equiv> ''foreground-shell''"
abbreviation (input) process_command :: process_state where "process_command \<equiv> ''foreground-command''"
abbreviation (input) process_caller :: process_state where "process_caller \<equiv> ''caller-command''"

record foreground_process =
  fp_pid :: int
  fp_name :: string
  fp_cwd :: string
  fp_identity :: string

record process_observation =
  po_pane_id :: string
  po_shell_pid :: int
  po_group_id :: int
  po_processes :: "foreground_process list"
  po_state :: process_state
  po_error :: string

record pane =
  pn_id :: string
  pn_tab_id :: string
  pn_terminal_id :: string
  pn_cwd :: string
  pn_shell_cwd :: string
  pn_agent :: string
  pn_agent_name :: string
  pn_agent_status :: string
  pn_agent_session :: string
  pn_process :: "process_observation option"

record session =
  ss_handle :: string
  ss_label :: string
  ss_identity_observed :: bool
  ss_checkout :: string
  ss_linked :: bool
  ss_dirs :: "string list"
  ss_agent_status :: string
  ss_agent_sessions :: "string list"
  ss_panes :: "pane list"
  ss_focused :: bool

record agent_activity =
  aa_pane_id :: string
  aa_workspace_id :: string
  aa_agent :: string
  aa_name :: string
  aa_status :: string
  aa_cwd :: string
  aa_session :: string

definition blank_pane :: pane where
  "blank_pane = \<lparr>pn_id = [], pn_tab_id = [], pn_terminal_id = [], pn_cwd = [], pn_shell_cwd = [], pn_agent = [],
    pn_agent_name = [], pn_agent_status = [], pn_agent_session = [], pn_process = None\<rparr>"

section \<open>What one inspection sees\<close>

datatype discover_result = NotARepo | DiscoverFailed | Discovered (dr_root: string) (dr_linked: bool)

record submodule_node =
  sm_path :: string
  sm_initialized :: bool

text \<open>
  \<open>rv_present\<close> is \<open>rt != nil\<close>; the three optional interfaces of a runtime are a flag and its
  answer; \<open>None\<close> is an error.
\<close>

record runtime_view =
  rv_present :: bool
  rv_name :: string
  rv_resolves_pane :: bool
  rv_current_pane :: "string option"
  rv_list :: "session list option"
  rv_lists_agents :: bool
  rv_activities :: "agent_activity list option"
  rv_inspects_processes :: bool
  rv_pane_processes :: "string \<Rightarrow> process_observation option"
  rv_pid :: int
  rv_discover :: "string \<Rightarrow> discover_result"
  rv_submodules :: "string \<Rightarrow> submodule_node list option"
  rv_fs :: file_system

record digests =
  dg_sha256 :: "string \<Rightarrow> string"
  dg_json_pane :: "pane \<Rightarrow> string"
  dg_json_workspace :: "string \<times> string \<times> string \<times> bool \<times> bool \<times> pane list \<Rightarrow> string"
  dg_json_strings :: "string list \<Rightarrow> string"

definition process_digest :: "digests \<Rightarrow> string \<Rightarrow> string" where
  "process_digest dg body = hex_bytes (dg_sha256 dg body)"

definition pane_fingerprint :: "digests \<Rightarrow> pane \<Rightarrow> string" where
  "pane_fingerprint dg p = process_digest dg (dg_json_pane dg p)"

definition workspace_fingerprint :: "digests \<Rightarrow> session \<Rightarrow> string" where
  "workspace_fingerprint dg s = process_digest dg (dg_json_workspace dg
    (ss_handle s, ss_label s, ss_checkout s, ss_identity_observed s, ss_linked s, sort_key pn_id (ss_panes s)))"

definition observe_pane_process :: "runtime_view \<Rightarrow> string \<Rightarrow> int \<Rightarrow> pane \<Rightarrow> pane" where
  "observe_pane_process v caller_pane caller_pid p =
    (if \<not> rv_inspects_processes v then p
     else
       let failed = (\<lambda>e. \<lparr>po_pane_id = pn_id p, po_shell_pid = 0, po_group_id = 0, po_processes = [],
                        po_state = process_unknown, po_error = e\<rparr>);
           observed = (case rv_pane_processes v (pn_id p) of
             None \<Rightarrow> failed ''foreground process inspection failed''
           | Some o' \<Rightarrow> if po_pane_id o' \<noteq> pn_id p
               then failed ''process response does not identify the requested pane'' else o');
           observed = observed\<lparr>po_processes := sort_key fp_pid (po_processes observed)\<rparr>;
           caller_pid = (if caller_pid = 0 then rv_pid v else caller_pid);
           found = (\<exists>q \<in> set (po_processes observed). fp_pid q = caller_pid);
           exact = (\<forall>q \<in> set (po_processes observed). fp_pid q = caller_pid \<or> fp_pid q = po_shell_pid observed);
           observed =
             (if po_state observed = process_command \<and> pn_id p = caller_pane \<and> pn_agent p = [] \<and>
                 pn_agent_session p = [] \<and> found \<and> exact
              then observed\<lparr>po_state := process_caller\<rparr> else observed)
       in p\<lparr>pn_process := Some observed\<rparr>)"

definition workspace_protection :: "file_system \<Rightarrow> session \<Rightarrow> string \<Rightarrow> string" where
  "workspace_protection fs s target =
    (if \<not> ss_identity_observed s then []
     else if ss_checkout s = [] then ''workspace checkout ownership is unknown''
     else case (canonical fs (ss_checkout s), canonical fs target) of
       (Inr checkout, Inr canonical_target) \<Rightarrow>
         if \<not> ss_linked s then ''parent/canonical workspace is preserved''
         else if checkout \<noteq> canonical_target then ''workspace belongs to another checkout''
         else []
     | _ \<Rightarrow> ''workspace checkout identity cannot be verified'')"

section \<open>Coverage\<close>

datatype occupancy_error = PathFailed path_error | GitFailed | NoAgentCwd

record checkout_identity =
  ci_path :: string
  ci_git :: bool
  ci_linked :: bool

datatype occupancy_profile = OccupancyStrict | OccupancyCleanup

definition inspect_checkout_identity :: "runtime_view \<Rightarrow> string \<Rightarrow> occupancy_error + checkout_identity" where
  "inspect_checkout_identity v dir =
    (case canonical (rv_fs v) dir of
       Inl e \<Rightarrow> Inl (PathFailed e)
     | Inr c \<Rightarrow>
       let plain = Inr \<lparr>ci_path = c, ci_git = False, ci_linked = False\<rparr> in
       (case rv_discover v c of
          Discovered root linked \<Rightarrow>
            if root \<noteq> [] then
              (case canonical (rv_fs v) root of
                 Inl e \<Rightarrow> Inl (PathFailed e)
               | Inr r \<Rightarrow> Inr \<lparr>ci_path = r, ci_git = True, ci_linked = linked\<rparr>)
            else plain
        | DiscoverFailed \<Rightarrow> Inl GitFailed
        | NotARepo \<Rightarrow> plain))"

definition contains_checked :: "runtime_view \<Rightarrow> string \<Rightarrow> string \<Rightarrow> occupancy_error + bool" where
  "contains_checked v root p = (case contains_path (rv_fs v) root p of Inl e \<Rightarrow> Inl (PathFailed e) | Inr b \<Rightarrow> Inr b)"

text \<open>The loop over the initialized submodules of \<open>parent\<close>: is one of them at \<open>child\<close>?\<close>

fun submodule_at :: "runtime_view \<Rightarrow> string \<Rightarrow> string \<Rightarrow> submodule_node list \<Rightarrow> occupancy_error + bool" where
  "submodule_at v parent child [] = Inr False"
| "submodule_at v parent child (n # ns) =
    (if sm_initialized n then
       (case canonical (rv_fs v) (path_join [parent, sm_path n]) of
          Inl e \<Rightarrow> Inl (PathFailed e)
        | Inr root \<Rightarrow> if root = child then Inr True else submodule_at v parent child ns)
     else submodule_at v parent child ns)"

fun covers_pairs :: "runtime_view \<Rightarrow> (string \<times> string) list \<Rightarrow> occupancy_error + bool" where
  "covers_pairs v [] = Inr False"
| "covers_pairs v ((a, b) # pairs) =
    (case contains_checked v a b of
       Inl e \<Rightarrow> Inl e
     | Inr inside \<Rightarrow>
       if \<not> inside then covers_pairs v pairs
       else case rv_submodules v a of
         None \<Rightarrow> Inl GitFailed
       | Some nodes \<Rightarrow>
         (case submodule_at v a b nodes of
            Inl e \<Rightarrow> Inl e
          | Inr True \<Rightarrow> Inr True
          | Inr False \<Rightarrow> covers_pairs v pairs))"

definition activity_covers_checkout ::
  "runtime_view \<Rightarrow> checkout_identity \<Rightarrow> string \<Rightarrow> occupancy_profile \<Rightarrow> occupancy_error + bool" where
  "activity_covers_checkout v target cwd profile =
    (if cwd = [] then Inl NoAgentCwd
     else case inspect_checkout_identity v cwd of
       Inl e \<Rightarrow> Inl e
     | Inr activity \<Rightarrow>
       if ci_git target \<and> ci_git activity then
         (if ci_path target = ci_path activity then Inr True
          else if profile = OccupancyCleanup \<and> ci_linked target
          then contains_checked v (ci_path target) (ci_path activity)
          else covers_pairs v ((ci_path target, ci_path activity) #
            (if profile = OccupancyStrict then [(ci_path activity, ci_path target)] else [])))
       else contains_checked v (ci_path target) (ci_path activity))"

text \<open>The paths of one pane: does one lie inside the target, does one lie outside, is there one?\<close>

fun classify_paths :: "(string \<Rightarrow> 'e + bool) \<Rightarrow> string list \<Rightarrow> bool \<times> bool \<times> bool \<Rightarrow> 'e + bool \<times> bool \<times> bool" where
  "classify_paths covers [] acc = Inr acc"
| "classify_paths covers (p # ps) (inside, outside, observed) =
    (if p = [] then classify_paths covers ps (inside, outside, observed)
     else case covers p of
       Inl e \<Rightarrow> Inl e
     | Inr True \<Rightarrow> classify_paths covers ps (True, outside, True)
     | Inr False \<Rightarrow> classify_paths covers ps (inside, True, True))"

fun classify_panes :: "(string \<Rightarrow> 'e + bool) \<Rightarrow> (pane \<Rightarrow> string list) \<Rightarrow> pane list \<Rightarrow> 'e + pane list \<times> pane list" where
  "classify_panes covers paths [] = Inr ([], [])"
| "classify_panes covers paths (p # ps) =
    (case classify_paths covers (paths p) (False, False, False) of
       Inl e \<Rightarrow> Inl e
     | Inr (inside, outside, observed) \<Rightarrow>
       (case classify_panes covers paths ps of
          Inl e \<Rightarrow> Inl e
        | Inr (covering, mixed) \<Rightarrow>
            Inr ((if inside then [p] else []) @ covering,
                 (if outside \<or> \<not> observed then [p] else []) @ mixed)))"

definition session_panes :: "session \<Rightarrow> pane list" where
  "session_panes s =
    (if ss_panes s = []
     then map (\<lambda>(i, dir). blank_pane\<lparr>pn_id := ss_handle s @ '':'' @ dec_of i, pn_cwd := dir\<rparr>) (enumerate 0 (ss_dirs s))
     else ss_panes s)"

definition pane_paths :: "pane \<Rightarrow> string list" where
  "pane_paths p = [pn_cwd p] @
    (case pn_process p of None \<Rightarrow> [] | Some o' \<Rightarrow> filter (\<lambda>c. c \<noteq> []) (map fp_cwd (po_processes o'))) @
    (if pn_shell_cwd p \<noteq> [] \<and> pn_shell_cwd p \<noteq> pn_cwd p then [pn_shell_cwd p] else [])"

definition classify_occupancy_session ::
  "runtime_view \<Rightarrow> checkout_identity \<Rightarrow> session \<Rightarrow> occupancy_profile \<Rightarrow> occupancy_error + pane list \<times> pane list" where
  "classify_occupancy_session v target s profile =
    classify_panes (\<lambda>p. activity_covers_checkout v target p profile) pane_paths (session_panes s)"

definition pane_present :: "pane list \<Rightarrow> string \<Rightarrow> bool" where
  \<comment> \<open>\<open>occupancyPanePresent\<close>, and \<open>panePresent\<close> of \<open>retire\<close>\<close>
  "pane_present panes i \<longleftrightarrow> i \<noteq> [] \<and> (\<exists>p \<in> set panes. pn_id p = i)"

section \<open>Occupancy\<close>

record occupancy_options =
  oo_profile :: occupancy_profile
  oo_caller_workspace :: string
  oo_caller_pane :: string
  oo_close_unknown :: bool
  oo_inspect_processes :: bool
  oo_caller_pid :: int

record occupancy_observation =
  ob_supported :: bool
  ob_attempted :: bool
  ob_failed :: bool

definition observation_observed :: "occupancy_observation \<Rightarrow> bool" where
  "observation_observed ob \<longleftrightarrow> ob_supported ob \<and> ob_attempted ob \<and> \<not> ob_failed ob"

record occupancy_session =
  os_runtime :: session
  os_panes :: "pane list"
  os_mixed :: "pane list"
  os_is_caller :: bool

record occupancy_agent =
  oa_activity :: agent_activity
  oa_status :: string
  oa_session_handle :: string
  oa_is_caller :: bool
  oa_blocking :: bool

record occupancy =
  oc_target :: string
  oc_backend :: string
  oc_profile :: occupancy_profile
  oc_caller_workspace :: string
  oc_reported_caller_pane :: string
  oc_caller_pane :: string
  oc_session_list :: occupancy_observation
  oc_agent_list :: occupancy_observation
  oc_current_pane :: occupancy_observation
  oc_coverage_failed :: bool
  oc_sessions :: "occupancy_session list"
  oc_agents :: "occupancy_agent list"

definition correlated_session :: "occupancy_session list \<Rightarrow> agent_activity \<Rightarrow> string" where
  "correlated_session sessions a =
    (case List.find (\<lambda>s. aa_workspace_id a \<noteq> [] \<and> ss_handle (os_runtime s) = aa_workspace_id a \<or>
        pane_present (ss_panes (os_runtime s)) (aa_pane_id a)) sessions of
       Some s \<Rightarrow> ss_handle (os_runtime s)
     | None \<Rightarrow> [])"

definition normalize_occupancy_status :: "(nat \<Rightarrow> nat) \<Rightarrow> string \<Rightarrow> string" where
  "normalize_occupancy_status lr status =
    (let status = to_lower lr (trim_space status) in if status = [] then ''unknown'' else status)"

definition occupancy_agent_blocks :: "occupancy_options \<Rightarrow> string \<Rightarrow> bool \<Rightarrow> bool \<Rightarrow> bool" where
  "occupancy_agent_blocks opts status caller correlated =
    (if oo_profile opts \<noteq> OccupancyCleanup then \<not> caller
     else if caller \<or> \<not> correlated then True
     else if status = ''idle'' \<or> status = ''done'' then False
     else if status = ''unknown'' then \<not> oo_close_unknown opts
     else True)"

definition occupancy_agent_of ::
  "(nat \<Rightarrow> nat) \<Rightarrow> string \<Rightarrow> occupancy_session list \<Rightarrow> occupancy_options \<Rightarrow> agent_activity \<Rightarrow> occupancy_agent" where
  "occupancy_agent_of lr caller_pane sessions opts a =
    (let status = normalize_occupancy_status lr (aa_status a);
         caller = (caller_pane \<noteq> [] \<and> aa_pane_id a = caller_pane);
         handle = correlated_session sessions a
     in \<lparr>oa_activity = a, oa_status = status, oa_session_handle = handle, oa_is_caller = caller,
         oa_blocking = occupancy_agent_blocks opts status caller (handle \<noteq> [])\<rparr>)"

text \<open>\<open>appendOccupancyAgent\<close> over a list of activities, until the first error.\<close>

fun append_agents ::
  "(nat \<Rightarrow> nat) \<Rightarrow> runtime_view \<Rightarrow> checkout_identity \<Rightarrow> string \<Rightarrow> occupancy_session list \<Rightarrow> occupancy_options \<Rightarrow>
   agent_activity list \<Rightarrow> occupancy_error + occupancy_agent list" where
  "append_agents lr v checkout caller_pane sessions opts [] = Inr []"
| "append_agents lr v checkout caller_pane sessions opts (a # as) =
    (case activity_covers_checkout v checkout (aa_cwd a) (oo_profile opts) of
       Inl e \<Rightarrow> Inl e
     | Inr covered \<Rightarrow>
       (case append_agents lr v checkout caller_pane sessions opts as of
          Inl e \<Rightarrow> Inl e
        | Inr agents \<Rightarrow>
            Inr ((if covered then [occupancy_agent_of lr caller_pane sessions opts a] else []) @ agents)))"

text \<open>
  The body of the loop over the listed sessions: the foreground processes of a session are probed
  when it covers the target, and \<open>None\<close> is a session that does not cover it.
\<close>

definition probed_session :: "runtime_view \<Rightarrow> checkout_identity \<Rightarrow> string \<Rightarrow> occupancy_options \<Rightarrow> session \<Rightarrow> session" where
  "probed_session v checkout caller_pane opts s =
    (if oo_inspect_processes opts \<and>
        (case classify_occupancy_session v checkout s (oo_profile opts) of Inr (c # cs, _) \<Rightarrow> True | _ \<Rightarrow> False)
     then s\<lparr>ss_panes := map (observe_pane_process v caller_pane (oo_caller_pid opts)) (ss_panes s)\<rparr> else s)"

definition occupancy_session_of ::
  "runtime_view \<Rightarrow> checkout_identity \<Rightarrow> string \<Rightarrow> occupancy_options \<Rightarrow> session \<Rightarrow> occupancy_error + occupancy_session option" where
  "occupancy_session_of v checkout caller_pane opts s =
    (let s = probed_session v checkout caller_pane opts s
     in case classify_occupancy_session v checkout s (oo_profile opts) of
          Inl e \<Rightarrow> Inl e
        | Inr (covering, mixed) \<Rightarrow>
            Inr (if covering = [] then None
                 else Some \<lparr>os_runtime = s, os_panes = covering, os_mixed = mixed,
                   os_is_caller = (ss_handle s = oo_caller_workspace opts \<or> pane_present (ss_panes s) caller_pane)\<rparr>))"

fun occupancy_sessions ::
  "runtime_view \<Rightarrow> checkout_identity \<Rightarrow> string \<Rightarrow> occupancy_options \<Rightarrow> session list \<Rightarrow> occupancy_error + occupancy_session list" where
  "occupancy_sessions v checkout caller_pane opts [] = Inr []"
| "occupancy_sessions v checkout caller_pane opts (s # ss) =
    (case occupancy_session_of v checkout caller_pane opts s of
       Inl e \<Rightarrow> Inl e
     | Inr found \<Rightarrow>
       (case occupancy_sessions v checkout caller_pane opts ss of
          Inl e \<Rightarrow> Inl e
        | Inr rest \<Rightarrow> Inr ((case found of None \<Rightarrow> [] | Some o' \<Rightarrow> [o']) @ rest)))"

text \<open>The activities a runtime without an agent list shows on the panes of its covering sessions.\<close>

definition pane_activities :: "occupancy_session list \<Rightarrow> agent_activity list" where
  "pane_activities sessions = concat (map (\<lambda>s. map (\<lambda>p.
      \<lparr>aa_pane_id = pn_id p, aa_workspace_id = ss_handle (os_runtime s), aa_agent = pn_agent p, aa_name = [],
       aa_status = pn_agent_status p, aa_cwd = (if pn_cwd p = [] then pn_shell_cwd p else pn_cwd p),
       aa_session = pn_agent_session p\<rparr>)
    (filter (\<lambda>p. pn_agent p \<noteq> [] \<or> pn_agent_session p \<noteq> []) (os_panes s))) sessions)"

definition no_observation :: occupancy_observation where
  "no_observation = \<lparr>ob_supported = False, ob_attempted = False, ob_failed = False\<rparr>"

text \<open>\<open>InspectOccupancy\<close>, in the parts it has: the caller's pane, the sessions, the agents.\<close>

definition observe_caller :: "runtime_view \<Rightarrow> occupancy_options \<Rightarrow> occupancy \<Rightarrow> occupancy" where
  "observe_caller v opts result =
    (let resolve = rv_resolves_pane v \<and> oo_caller_pane opts \<noteq> [];
         pane = (case rv_current_pane v of None \<Rightarrow> [] | Some p \<Rightarrow> p)
     in result\<lparr>
       oc_current_pane := \<lparr>ob_supported = rv_resolves_pane v, ob_attempted = resolve, ob_failed = resolve \<and> pane = []\<rparr>,
       oc_caller_pane := (if resolve then pane else oc_caller_pane result)\<rparr>)"

definition observe_sessions :: "runtime_view \<Rightarrow> checkout_identity \<Rightarrow> occupancy_options \<Rightarrow> occupancy \<Rightarrow> occupancy" where
  "observe_sessions v checkout opts result =
    (let result = result\<lparr>oc_session_list := \<lparr>ob_supported = True, ob_attempted = True, ob_failed = (rv_list v = None)\<rparr>\<rparr>
     in case rv_list v of
          None \<Rightarrow> result
        | Some sessions \<Rightarrow>
          (case occupancy_sessions v checkout (oc_caller_pane result) opts sessions of
             Inl e \<Rightarrow> result\<lparr>oc_coverage_failed := True, oc_sessions := []\<rparr>
           | Inr found \<Rightarrow> result\<lparr>oc_sessions := found\<rparr>))"

definition observe_agents ::
  "(nat \<Rightarrow> nat) \<Rightarrow> runtime_view \<Rightarrow> checkout_identity \<Rightarrow> occupancy_options \<Rightarrow> occupancy \<Rightarrow> occupancy" where
  "observe_agents lr v checkout opts result =
    (let agents = append_agents lr v checkout (oc_caller_pane result) (oc_sessions result) opts in
     if \<not> rv_lists_agents v then
       (case agents (pane_activities (oc_sessions result)) of
          Inl e \<Rightarrow> result\<lparr>oc_coverage_failed := True, oc_agents := []\<rparr>
        | Inr found \<Rightarrow> result\<lparr>oc_agents := found\<rparr>)
     else
       (case rv_activities v of
          None \<Rightarrow> result\<lparr>oc_agent_list := \<lparr>ob_supported = True, ob_attempted = True, ob_failed = True\<rparr>\<rparr>
        | Some activities \<Rightarrow>
          (case agents activities of
             Inl e \<Rightarrow> result\<lparr>oc_agent_list := \<lparr>ob_supported = True, ob_attempted = True, ob_failed = True\<rparr>, oc_agents := []\<rparr>
           | Inr found \<Rightarrow>
               result\<lparr>oc_agent_list := \<lparr>ob_supported = True, ob_attempted = True, ob_failed = False\<rparr>, oc_agents := found\<rparr>)))"

definition fresh_occupancy :: "checkout_identity \<Rightarrow> occupancy_options \<Rightarrow> occupancy" where
  "fresh_occupancy checkout opts = \<lparr>oc_target = ci_path checkout, oc_backend = ''none'', oc_profile = oo_profile opts,
     oc_caller_workspace = oo_caller_workspace opts, oc_reported_caller_pane = oo_caller_pane opts,
     oc_caller_pane = oo_caller_pane opts, oc_session_list = no_observation, oc_agent_list = no_observation,
     oc_current_pane = no_observation, oc_coverage_failed = False, oc_sessions = [], oc_agents = []\<rparr>"

definition inspect_occupancy ::
  "(nat \<Rightarrow> nat) \<Rightarrow> runtime_view \<Rightarrow> string \<Rightarrow> occupancy_options \<Rightarrow> occupancy_error + occupancy" where
  "inspect_occupancy lr v target opts =
    (case inspect_checkout_identity v target of
       Inl e \<Rightarrow> Inl e
     | Inr checkout \<Rightarrow>
       let result = fresh_occupancy checkout opts
       in if \<not> rv_present v then Inr result
       else let result = result\<lparr>oc_backend := rv_name v\<rparr>
       in if oc_backend result = ''none'' then Inr result
       else Inr (observe_agents lr v checkout opts
         (observe_sessions v checkout opts (observe_caller v opts result))))"

text \<open>\<open>Session.Covers\<close> and \<open>ForegroundFingerprint\<close>, whose error is \<open>None\<close>.\<close>

definition session_covers :: "file_system \<Rightarrow> session \<Rightarrow> string \<Rightarrow> bool" where
  "session_covers fs s dir \<longleftrightarrow> (\<exists>d \<in> set (ss_dirs s). contains_path fs dir d = Inr True)"

fun foreground_values :: "digests \<Rightarrow> string \<Rightarrow> pane list \<Rightarrow> string list option" where
  "foreground_values dg handle [] = Some []"
| "foreground_values dg handle (p # ps) =
    (case pn_process p of
       None \<Rightarrow> foreground_values dg handle ps
     | Some o' \<Rightarrow>
       if po_state o' = process_unknown \<or> po_error o' \<noteq> [] then None
       else map_option
         (\<lambda>vs. (if pn_agent p = [] \<and> pn_agent_session p = [] \<and> po_state o' = process_command
                then [handle @ '':'' @ pane_fingerprint dg p] else []) @ vs)
         (foreground_values dg handle ps))"

fun sessions_values :: "digests \<Rightarrow> occupancy_session list \<Rightarrow> string list option" where
  "sessions_values dg [] = Some []"
| "sessions_values dg (s # ss) =
    (case foreground_values dg (ss_handle (os_runtime s)) (os_panes s) of
       None \<Rightarrow> None
     | Some vs \<Rightarrow> map_option ((@) vs) (sessions_values dg ss))"

definition foreground_fingerprint :: "digests \<Rightarrow> occupancy \<Rightarrow> string option" where
  "foreground_fingerprint dg oc =
    map_option (\<lambda>vs. if vs = [] then [] else process_digest dg (dg_json_strings dg (sort vs)))
      (sessions_values dg (oc_sessions oc))"

section \<open>What is found\<close>

lemma classify_paths_spec:
  "classify_paths covers ps (a, b, c) = Inr (a', b', c') \<Longrightarrow>
   (\<forall>p \<in> set ps. p \<noteq> [] \<longrightarrow> (\<exists>x. covers p = Inr x)) \<and>
   (a' \<longleftrightarrow> a \<or> (\<exists>p \<in> set ps. p \<noteq> [] \<and> covers p = Inr True)) \<and>
   (b' \<longleftrightarrow> b \<or> (\<exists>p \<in> set ps. p \<noteq> [] \<and> covers p = Inr False)) \<and>
   (c' \<longleftrightarrow> c \<or> (\<exists>p \<in> set ps. p \<noteq> []))"
proof (induction covers ps "(a, b, c)" arbitrary: a b c rule: classify_paths.induct)
  case (2 covers p ps a b c)
  show ?case
  proof (cases "p = []")
    case True
    with 2 show ?thesis by simp
  next
    case False
    with 2(4) obtain x where x: "covers p = Inr x" by (auto split: sum.splits)
    show ?thesis
    proof (cases x)
      case True
      with x False 2(4) 2(2) [OF False x] show ?thesis by auto
    next
      case False: False
      with x \<open>p \<noteq> []\<close> 2(4) 2(3) [OF \<open>p \<noteq> []\<close> x] show ?thesis by auto
    qed
  qed
qed simp

definition pane_inside :: "(string \<Rightarrow> 'e + bool) \<Rightarrow> (pane \<Rightarrow> string list) \<Rightarrow> pane \<Rightarrow> bool" where
  "pane_inside covers paths p \<longleftrightarrow> (\<exists>c \<in> set (paths p). c \<noteq> [] \<and> covers c = Inr True)"

definition pane_elsewhere :: "(string \<Rightarrow> 'e + bool) \<Rightarrow> (pane \<Rightarrow> string list) \<Rightarrow> pane \<Rightarrow> bool" where
  "pane_elsewhere covers paths p \<longleftrightarrow>
    (\<exists>c \<in> set (paths p). c \<noteq> [] \<and> covers c = Inr False) \<or> (\<forall>c \<in> set (paths p). c = [])"

lemma classify_panes_spec:
  "classify_panes covers paths ps = Inr (covering, mixed) \<Longrightarrow>
   (\<forall>p \<in> set ps. \<forall>c \<in> set (paths p). c \<noteq> [] \<longrightarrow> (\<exists>x. covers c = Inr x)) \<and>
   covering = filter (pane_inside covers paths) ps \<and> mixed = filter (pane_elsewhere covers paths) ps"
proof (induction covers paths ps arbitrary: covering mixed rule: classify_panes.induct)
  case (2 covers paths p ps)
  from 2(2) obtain a b c where abc: "classify_paths covers (paths p) (False, False, False) = Inr (a, b, c)"
    by (auto split: sum.splits)
  with 2(2) obtain cv mx where rest: "classify_panes covers paths ps = Inr (cv, mx)"
    "covering = (if a then [p] else []) @ cv" "mixed = (if b \<or> \<not> c then [p] else []) @ mx"
    by (auto split: sum.splits)
  note IH = 2(1) [OF abc refl refl rest(1)]
  have "a \<longleftrightarrow> pane_inside covers paths p" "b \<or> \<not> c \<longleftrightarrow> pane_elsewhere covers paths p"
    using classify_paths_spec [OF abc] unfolding pane_inside_def pane_elsewhere_def by auto
  with IH rest classify_paths_spec [OF abc] show ?case by auto
qed simp

abbreviation covers_at :: "runtime_view \<Rightarrow> checkout_identity \<Rightarrow> occupancy_options \<Rightarrow> string \<Rightarrow> occupancy_error + bool" where
  "covers_at v checkout opts p \<equiv> activity_covers_checkout v checkout p (oo_profile opts)"

lemma observe_keeps:
  "pn_id (observe_pane_process v cp pid p) = pn_id p"
  "pn_cwd (observe_pane_process v cp pid p) = pn_cwd p"
  "pn_shell_cwd (observe_pane_process v cp pid p) = pn_shell_cwd p"
  "pn_agent (observe_pane_process v cp pid p) = pn_agent p"
  "pn_agent_session (observe_pane_process v cp pid p) = pn_agent_session p"
  "pn_agent_status (observe_pane_process v cp pid p) = pn_agent_status p"
  by (simp_all add: observe_pane_process_def Let_def)

lemma observe_knows: "rv_inspects_processes v \<Longrightarrow> pn_process (observe_pane_process v cp pid p) \<noteq> None"
  by (simp add: observe_pane_process_def Let_def)

lemma occupancy_session_found:
  assumes "occupancy_session_of v checkout cp opts s = Inr (Some x)"
  shows "os_runtime x = probed_session v checkout cp opts s"
    and "os_mixed x = filter (pane_elsewhere (covers_at v checkout opts) pane_paths) (session_panes (os_runtime x))"
    and "os_panes x = filter (pane_inside (covers_at v checkout opts) pane_paths) (session_panes (os_runtime x))"
    and "os_panes x \<noteq> []"
    and "os_is_caller x \<longleftrightarrow> ss_handle s = oo_caller_workspace opts \<or> pane_present (ss_panes (os_runtime x)) cp"
proof -
  let ?s = "probed_session v checkout cp opts s"
  from assms obtain covering mixed where
    c: "classify_panes (covers_at v checkout opts) pane_paths (session_panes ?s) = Inr (covering, mixed)" "covering \<noteq> []"
    and x: "x = \<lparr>os_runtime = ?s, os_panes = covering, os_mixed = mixed,
      os_is_caller = (ss_handle ?s = oo_caller_workspace opts \<or> pane_present (ss_panes ?s) cp)\<rparr>"
    by (auto simp: occupancy_session_of_def classify_occupancy_session_def Let_def split: sum.splits if_splits)
  have "ss_handle ?s = ss_handle s" by (simp add: probed_session_def)
  with classify_panes_spec [OF c(1)] c(2) show "os_runtime x = ?s"
    "os_mixed x = filter (pane_elsewhere (covers_at v checkout opts) pane_paths) (session_panes (os_runtime x))"
    "os_panes x = filter (pane_inside (covers_at v checkout opts) pane_paths) (session_panes (os_runtime x))"
    "os_panes x \<noteq> []"
    "os_is_caller x \<longleftrightarrow> ss_handle s = oo_caller_workspace opts \<or> pane_present (ss_panes (os_runtime x)) cp"
    unfolding x by simp_all
qed

lemma probed_handle [simp]: "ss_handle (probed_session v checkout cp opts s) = ss_handle s"
  by (simp add: probed_session_def)

lemma probed_panes:
  "session_panes (probed_session v checkout cp opts s) = session_panes s \<or>
   session_panes (probed_session v checkout cp opts s) = map (observe_pane_process v cp (oo_caller_pid opts)) (session_panes s)"
  by (simp add: probed_session_def session_panes_def)

lemma occupancy_session_missed:
  assumes "occupancy_session_of v checkout cp opts s = Inr None" and "p \<in> set (session_panes s)"
    and "c \<in> {pn_cwd p, pn_shell_cwd p}" and "c \<noteq> []"
  shows "covers_at v checkout opts c = Inr False"
proof -
  let ?s = "probed_session v checkout cp opts s"
  from assms(1) obtain mixed where
    none: "classify_panes (covers_at v checkout opts) pane_paths (session_panes ?s) = Inr ([], mixed)"
    by (auto simp: occupancy_session_of_def classify_occupancy_session_def Let_def split: sum.splits if_splits)
  have "\<exists>p' \<in> set (session_panes ?s). pn_cwd p' = pn_cwd p \<and> pn_shell_cwd p' = pn_shell_cwd p"
  proof (rule disjE [OF probed_panes [of v checkout cp opts s]])
    assume "session_panes ?s = session_panes s"
    with assms(2) show ?thesis by auto
  next
    assume "session_panes ?s = map (observe_pane_process v cp (oo_caller_pid opts)) (session_panes s)"
    with assms(2) show ?thesis by (auto simp: observe_keeps)
  qed
  then obtain p' where p': "p' \<in> set (session_panes ?s)" "pn_cwd p' = pn_cwd p" "pn_shell_cwd p' = pn_shell_cwd p" by blast
  then have c: "c \<in> set (pane_paths p')" using assms(3,4) by (auto simp: pane_paths_def)
  with classify_panes_spec [OF none] p'(1) assms(4) obtain x where x: "covers_at v checkout opts c = Inr x" by blast
  have "\<not> pane_inside (covers_at v checkout opts) pane_paths p'"
    using classify_panes_spec [OF none] p'(1) by (metis filter_empty_conv)
  with x c assms(4) show ?thesis by (cases x) (auto simp: pane_inside_def)
qed

lemma occupancy_sessions_spec:
  "occupancy_sessions v checkout cp opts ss = Inr found \<Longrightarrow>
   (\<forall>s \<in> set ss. \<exists>r. occupancy_session_of v checkout cp opts s = Inr r \<and> (\<forall>x. r = Some x \<longrightarrow> x \<in> set found)) \<and>
   (\<forall>x \<in> set found. \<exists>s \<in> set ss. occupancy_session_of v checkout cp opts s = Inr (Some x))"
proof (induction v checkout cp opts ss arbitrary: found rule: occupancy_sessions.induct)
  case (2 v checkout cp opts s ss)
  from 2(2) obtain r rest where r: "occupancy_session_of v checkout cp opts s = Inr r"
    "occupancy_sessions v checkout cp opts ss = Inr rest" "found = (case r of None \<Rightarrow> [] | Some x \<Rightarrow> [x]) @ rest"
    by (auto split: sum.splits)
  from 2(1) [OF r(1,2)] r show ?case by (cases r) auto
qed simp

lemma append_agents_spec:
  "append_agents lr v checkout cp sessions opts as = Inr found \<Longrightarrow>
   (\<forall>a \<in> set as. \<exists>b. covers_at v checkout opts (aa_cwd a) = Inr b \<and>
      (b \<longrightarrow> occupancy_agent_of lr cp sessions opts a \<in> set found)) \<and>
   (\<forall>g \<in> set found. \<exists>a \<in> set as. covers_at v checkout opts (aa_cwd a) = Inr True \<and>
      g = occupancy_agent_of lr cp sessions opts a)"
proof (induction as arbitrary: found)
  case (Cons a as)
  from Cons(2) obtain b rest where b: "covers_at v checkout opts (aa_cwd a) = Inr b"
    "append_agents lr v checkout cp sessions opts as = Inr rest"
    "found = (if b then [occupancy_agent_of lr cp sessions opts a] else []) @ rest"
    by (auto split: sum.splits)
  from Cons(1) [OF b(2)] b show ?case by (cases b) auto
qed simp

lemma correlated_found: "correlated_session sessions a \<noteq> [] \<Longrightarrow> \<exists>s \<in> set sessions. ss_handle (os_runtime s) = correlated_session sessions a"
proof -
  assume "correlated_session sessions a \<noteq> []"
  then obtain s where "List.find (\<lambda>s. aa_workspace_id a \<noteq> [] \<and> ss_handle (os_runtime s) = aa_workspace_id a \<or>
      pane_present (ss_panes (os_runtime s)) (aa_pane_id a)) sessions = Some s"
    "correlated_session sessions a = ss_handle (os_runtime s)"
    by (auto simp: correlated_session_def split: option.splits)
  then show ?thesis by (metis (mono_tags, lifting) find_Some_iff nth_mem)
qed

lemma cleanup_agent_free:
  "oo_profile opts = OccupancyCleanup \<Longrightarrow> \<not> occupancy_agent_blocks opts status caller correlated \<Longrightarrow>
   \<not> caller \<and> correlated \<and> (status \<in> {''idle'', ''done''} \<or> status = ''unknown'' \<and> oo_close_unknown opts)"
  by (auto simp: occupancy_agent_blocks_def split: if_splits)

text \<open>What an inspection of a live runtime that met no failure holds.\<close>

lemma observe_agents_live:
  assumes "oc = observe_agents lr v checkout opts r" and "\<not> oc_coverage_failed oc" "\<not> ob_failed (oc_agent_list oc)"
  shows "append_agents lr v checkout (oc_caller_pane oc) (oc_sessions oc) opts
      (if rv_lists_agents v then the (rv_activities v) else pane_activities (oc_sessions oc)) = Inr (oc_agents oc)"
    and "rv_lists_agents v \<longrightarrow> rv_activities v \<noteq> None"
    and "oc_target oc = oc_target r" "oc_caller_pane oc = oc_caller_pane r" "oc_sessions oc = oc_sessions r"
    "oc_session_list oc = oc_session_list r" "oc_coverage_failed r = False" "oc_current_pane oc = oc_current_pane r"
    "oc_backend oc = oc_backend r"
  using assms by (auto simp: observe_agents_def Let_def split: sum.splits option.splits if_splits)

lemma observe_sessions_live:
  assumes "oc = observe_sessions v checkout opts r" and "\<not> oc_coverage_failed oc" "\<not> ob_failed (oc_session_list oc)"
  obtains listed where "rv_list v = Some listed" "occupancy_sessions v checkout (oc_caller_pane oc) opts listed = Inr (oc_sessions oc)"
    "ob_supported (oc_session_list oc)" "oc_target oc = oc_target r" "oc_caller_pane oc = oc_caller_pane r"
    "oc_current_pane oc = oc_current_pane r" "oc_backend oc = oc_backend r"
  using assms by (auto simp: observe_sessions_def Let_def split: sum.splits option.splits if_splits)

lemma inspect_occupancy_live:
  assumes "inspect_occupancy lr v target opts = Inr oc"
    and "rv_present v" "rv_name v \<noteq> ''none''" "\<not> oc_coverage_failed oc" "\<not> ob_failed (oc_session_list oc)"
    and "\<not> ob_failed (oc_agent_list oc)"
  obtains checkout listed where "inspect_checkout_identity v target = Inr checkout" "oc_target oc = ci_path checkout"
    "rv_list v = Some listed" "occupancy_sessions v checkout (oc_caller_pane oc) opts listed = Inr (oc_sessions oc)"
    "append_agents lr v checkout (oc_caller_pane oc) (oc_sessions oc) opts
      (if rv_lists_agents v then the (rv_activities v) else pane_activities (oc_sessions oc)) = Inr (oc_agents oc)"
    "rv_lists_agents v \<longrightarrow> rv_activities v \<noteq> None" "ob_supported (oc_session_list oc)"
proof -
  from assms(1-3) obtain checkout where checkout: "inspect_checkout_identity v target = Inr checkout"
    and "oc = observe_agents lr v checkout opts
      (observe_sessions v checkout opts (observe_caller v opts (fresh_occupancy checkout opts\<lparr>oc_backend := rv_name v\<rparr>)))"
    by (auto simp: inspect_occupancy_def Let_def fresh_occupancy_def split: sum.splits)
  moreover define r where "r = fresh_occupancy checkout opts\<lparr>oc_backend := rv_name v\<rparr>"
  ultimately have c: "inspect_checkout_identity v target = Inr checkout" "oc_target r = ci_path checkout"
    "oc = observe_agents lr v checkout opts (observe_sessions v checkout opts (observe_caller v opts r))"
    by (simp_all add: fresh_occupancy_def)
  note a = observe_agents_live [OF c(3) assms(4,6)]
  have "oc_target (observe_caller v opts r) = ci_path checkout" using c(2) by (simp add: observe_caller_def Let_def)
  moreover obtain listed where "rv_list v = Some listed"
    "occupancy_sessions v checkout (oc_caller_pane oc) opts listed = Inr (oc_sessions oc)"
    "ob_supported (oc_session_list oc)" "oc_target oc = oc_target (observe_caller v opts r)"
    using observe_sessions_live [OF refl, of v checkout opts "observe_caller v opts r"] a assms(5) by metis
  ultimately show ?thesis using that c(1) a(1,2) by simp
qed

end
