(* ===== verification/RetirePolicy.thy ===== *)
theory RetirePolicy
  imports Occupancy
begin

text \<open>
  \<open>internal/retire/safety.go\<close> and \<open>process.go\<close>: the policy that decides from what a runtime shows
  whether a checkout can be retired. Blockers are values with what their text is made of; the
  process environment is a function.
\<close>

section \<open>Types\<close>

datatype agent_close_class = AgentCloseEligible | AgentCloseBlocked | AgentCloseUnknown

definition agent_status_idle :: "string list" where
  "agent_status_idle = [''idle'', ''done'']"

definition agent_status_active :: "string list" where
  "agent_status_active = [''working'', ''running'', ''busy'', ''blocked'', ''waiting'']"

definition classify_agent_status :: "(nat \<Rightarrow> nat) \<Rightarrow> string \<Rightarrow> agent_close_class" where
  "classify_agent_status lr status =
    (let s = to_lower lr (trim_space status)
     in if s \<in> set agent_status_idle then AgentCloseEligible
        else if s \<in> set agent_status_active then AgentCloseBlocked
        else AgentCloseUnknown)"

record close_options =
  ro_cwd :: string
  ro_caller_workspace :: string
  ro_caller_pane :: string
  ro_close_unknown :: bool
  ro_assume_no_runtime :: bool
  ro_poll_interval :: int
  ro_timeout :: int
  ro_process_closures :: "(string \<times> string) list"

record retire_session =
  rs_runtime :: session
  rs_panes :: "pane list"
  rs_mixed :: "pane list"
  rs_protection :: string

datatype blocker =
    CallerInsideTarget string
  | CannotEnumerate string
  | WorkspacePreserved string string
  | CallerRuntimeCovers string
  | CallerPaneCovers string
  | OutsidePanes string nat
  | ForegroundUnknown string
  | ForegroundPrograms string
  | AgentWithoutSession string
  | AgentActive string string
  | AgentStatusUnknown string
  | AgentStatusUnrecognized string string

record inspection =
  in_target :: string
  in_sessions :: "retire_session list"
  in_closed_sessions :: nat
  in_blockers :: "blocker list"
  in_unknown_sessions :: "string list"
  in_active_sessions :: "string list"
  in_runtime_unknown :: bool
  in_caller_contained :: bool
  in_process_sessions :: "string list"

definition inspection_ready :: "inspection \<Rightarrow> bool" where
  "inspection_ready i \<longleftrightarrow> in_blockers i = []"

datatype retire_error =
    OccupancyFailed occupancy_error
  | GetwdFailed
  | CompareFailed path_error
  | CurrentPaneFailed
  | CoverageFailed
  | ListSessionsFailed
  | ListAgentsFailed

section \<open>Blockers\<close>

definition add_blocker :: "blocker \<Rightarrow> inspection \<Rightarrow> inspection" where
  "add_blocker b i = i\<lparr>in_blockers := in_blockers i @ [b]\<rparr>"

definition block_if :: "bool \<Rightarrow> blocker \<Rightarrow> inspection \<Rightarrow> inspection" where
  "block_if c b i = (if c then add_blocker b i else i)"

definition append_agent_status_blocker :: "(nat \<Rightarrow> nat) \<Rightarrow> string \<Rightarrow> string \<Rightarrow> bool \<Rightarrow> inspection \<Rightarrow> inspection" where
  "append_agent_status_blocker lr handle raw_status close_unknown i =
    (let status = to_lower lr (trim_space raw_status)
     in if status \<in> set agent_status_idle then i
        else if status \<in> set agent_status_active then
          add_blocker (AgentActive handle status) (i\<lparr>in_active_sessions := in_active_sessions i @ [handle]\<rparr>)
        else if status = [] \<or> status = ''unknown'' then
          block_if (\<not> close_unknown) (AgentStatusUnknown handle)
            (i\<lparr>in_unknown_sessions := in_unknown_sessions i @ [handle]\<rparr>)
        else add_blocker (AgentStatusUnrecognized handle status) i)"

definition closure_of :: "(string \<times> string) list \<Rightarrow> string \<Rightarrow> string" where
  \<comment> \<open>a lookup in a Go map of strings\<close>
  "closure_of m k = (case map_of m k of None \<Rightarrow> [] | Some x \<Rightarrow> x)"

definition process_is_unknown :: "process_observation option \<Rightarrow> bool" where
  "process_is_unknown process \<longleftrightarrow>
    (case process of None \<Rightarrow> True | Some o' \<Rightarrow> po_state o' = process_unknown \<or> po_error o' \<noteq> [])"

definition process_runs :: "process_observation option \<Rightarrow> bool" where
  "process_runs process \<longleftrightarrow> (case process of None \<Rightarrow> False | Some o' \<Rightarrow> po_state o' = process_command)"

definition inspect_foreground_pane ::
  "digests \<Rightarrow> (nat \<Rightarrow> nat) \<Rightarrow> close_options \<Rightarrow> string \<Rightarrow> pane \<Rightarrow> inspection \<Rightarrow> inspection" where
  "inspect_foreground_pane dg lr opts handle p i =
    (let i = block_if (process_is_unknown (pn_process p)) (ForegroundUnknown (pn_id p)) i
     in if pn_agent p \<noteq> [] \<or> pn_agent_session p \<noteq> [] then
          append_agent_status_blocker lr handle (pn_agent_status p) (ro_close_unknown opts) i
        else if process_runs (pn_process p) then
          block_if (closure_of (ro_process_closures opts) (pn_id p) \<noteq> pane_fingerprint dg p) (ForegroundPrograms (pn_id p))
            (i\<lparr>in_process_sessions := in_process_sessions i @ [handle]\<rparr>)
        else i)"

definition inspect_foreground_activity ::
  "digests \<Rightarrow> (nat \<Rightarrow> nat) \<Rightarrow> close_options \<Rightarrow> occupancy_session \<Rightarrow> inspection \<Rightarrow> inspection" where
  "inspect_foreground_activity dg lr opts s i =
    foldl (\<lambda>i p. inspect_foreground_pane dg lr opts (ss_handle (os_runtime s)) p i) i (os_panes s)"

definition process_closures_for :: "digests \<Rightarrow> retire_session \<Rightarrow> (string \<times> string) list" where
  "process_closures_for dg s =
    map (\<lambda>p. (pn_id p, pane_fingerprint dg p))
      (rev (filter (\<lambda>p. pn_agent p = [] \<and> pn_agent_session p = [] \<and> process_runs (pn_process p)) (rs_panes s)))"

definition covering_agent_statuses :: "(nat \<Rightarrow> nat) \<Rightarrow> pane list \<Rightarrow> string \<Rightarrow> string list" where
  "covering_agent_statuses lr panes fallback =
    (let found = map (\<lambda>p. to_lower lr (pn_agent_status p))
           (filter (\<lambda>p. pn_agent p \<noteq> [] \<or> pn_agent_session p \<noteq> [] \<or> pn_agent_status p \<noteq> []) panes)
     in sort (remdups (if found = [] then [to_lower lr fallback] else found)))"

definition unique_sorted :: "string list \<Rightarrow> string list" where
  "unique_sorted values = sort (remdups (filter (\<lambda>v. v \<noteq> []) values))"

definition dedupe :: "inspection \<Rightarrow> inspection" where
  "dedupe i = i\<lparr>in_blockers := rev (remdups (rev (in_blockers i))),
    in_unknown_sessions := unique_sorted (in_unknown_sessions i),
    in_active_sessions := unique_sorted (in_active_sessions i),
    in_process_sessions := unique_sorted (in_process_sessions i)\<rparr>"

section \<open>Inspect\<close>

text \<open>The caller's identity, from the options or the environment of the process.\<close>

definition caller_options :: "(string \<Rightarrow> string) \<Rightarrow> string \<Rightarrow> close_options \<Rightarrow> close_options" where
  "caller_options getenv runtime_name opts =
    (let opts = (if ro_caller_workspace opts = [] \<and> runtime_name \<notin> {''tmux'', ''zellij'', ''none''}
           then opts\<lparr>ro_caller_workspace := getenv ''HERDR_WORKSPACE_ID''\<rparr> else opts)
     in if ro_caller_pane opts \<noteq> [] then opts
        else if runtime_name = ''herdr'' then opts\<lparr>ro_caller_pane := getenv ''HERDR_PANE_ID''\<rparr>
        else if runtime_name = ''tmux'' then opts\<lparr>ro_caller_pane := getenv ''TMUX_PANE''\<rparr>
        else if runtime_name = ''zellij'' \<or> runtime_name = ''none'' then opts
        else opts\<lparr>ro_caller_pane :=
          (if getenv ''HERDR_PANE_ID'' = [] then getenv ''TMUX_PANE'' else getenv ''HERDR_PANE_ID'')\<rparr>)"

definition occupancy_options_of :: "close_options \<Rightarrow> occupancy_options" where
  "occupancy_options_of opts = \<lparr>oo_profile = OccupancyCleanup, oo_caller_workspace = ro_caller_workspace opts,
    oo_caller_pane = ro_caller_pane opts, oo_close_unknown = ro_close_unknown opts, oo_inspect_processes = True,
    oo_caller_pid = 0\<rparr>"

definition fresh_inspection :: "string \<Rightarrow> inspection" where
  "fresh_inspection target = \<lparr>in_target = target, in_sessions = [], in_closed_sessions = 0, in_blockers = [],
    in_unknown_sessions = [], in_active_sessions = [], in_runtime_unknown = False, in_caller_contained = False,
    in_process_sessions = []\<rparr>"

text \<open>
  The body of the loop over the covering sessions: what the session is, then what its agents and
  programs do.
\<close>

definition inspect_structure ::
  "runtime_view \<Rightarrow> string \<Rightarrow> bool \<Rightarrow> inspection \<Rightarrow> occupancy_session \<Rightarrow> inspection" where
  "inspect_structure v target external i s =
    (let handle = ss_handle (os_runtime s);
         protection = workspace_protection (rv_fs v) (os_runtime s) target;
         i = i\<lparr>in_sessions := in_sessions i @
           [\<lparr>rs_runtime = os_runtime s, rs_panes = os_panes s, rs_mixed = os_mixed s, rs_protection = protection\<rparr>]\<rparr>;
         i = block_if (protection \<noteq> []) (WorkspacePreserved handle protection) i;
         i = (if os_is_caller s
              then block_if (\<not> external) (CallerRuntimeCovers handle) (i\<lparr>in_caller_contained := True\<rparr>) else i)
     in block_if (os_mixed s \<noteq> []) (OutsidePanes handle (length (os_mixed s))) i)"

definition inspect_session ::
  "digests \<Rightarrow> (nat \<Rightarrow> nat) \<Rightarrow> runtime_view \<Rightarrow> close_options \<Rightarrow> string \<Rightarrow> bool \<Rightarrow> inspection \<Rightarrow> occupancy_session \<Rightarrow> inspection" where
  "inspect_session dg lr v opts target external i s =
    (let i = inspect_structure v target external i s
     in if rv_inspects_processes v then inspect_foreground_activity dg lr opts s i
        else foldl (\<lambda>i status. append_agent_status_blocker lr (ss_handle (os_runtime s)) status (ro_close_unknown opts) i) i
          (covering_agent_statuses lr (os_panes s) (ss_agent_status (os_runtime s))))"

definition inspect_agent ::
  "(nat \<Rightarrow> nat) \<Rightarrow> close_options \<Rightarrow> bool \<Rightarrow> inspection \<Rightarrow> occupancy_agent \<Rightarrow> inspection" where
  "inspect_agent lr opts external i a =
    (if \<not> oa_blocking a then i
     else
       let i = (if oa_is_caller a then i\<lparr>in_caller_contained := True\<rparr> else i)
       in if oa_is_caller a \<and> \<not> external then
            add_blocker (if oa_session_handle a \<noteq> [] then CallerRuntimeCovers (oa_session_handle a)
              else CallerPaneCovers (aa_pane_id (oa_activity a))) i
          else if oa_session_handle a = [] then add_blocker (AgentWithoutSession (aa_pane_id (oa_activity a))) i
          else append_agent_status_blocker lr (oa_session_handle a) (oa_status a) (ro_close_unknown opts) i)"

definition inspect_target ::
  "digests \<Rightarrow> (nat \<Rightarrow> nat) \<Rightarrow> (string \<Rightarrow> string) \<Rightarrow> runtime_view \<Rightarrow> string \<Rightarrow> close_options \<Rightarrow> bool \<Rightarrow> retire_error + inspection" where
  \<comment> \<open>\<open>inspect\<close>\<close>
  "inspect_target dg lr getenv v target opts external =
    (let opts = caller_options getenv (if rv_present v then rv_name v else []) opts
     in case inspect_occupancy lr v target (occupancy_options_of opts) of
          Inl e \<Rightarrow> Inl (OccupancyFailed e)
        | Inr evidence \<Rightarrow>
          (case (if ro_cwd opts = [] then fs_cwd (rv_fs v) else Some (ro_cwd opts)) of
             None \<Rightarrow> Inl GetwdFailed
           | Some cwd \<Rightarrow>
             (case contains_path (rv_fs v) (oc_target evidence) cwd of
                Inl e \<Rightarrow> Inl (CompareFailed e)
              | Inr inside \<Rightarrow>
                let i = fresh_inspection (oc_target evidence);
                    i = (if inside
                         then block_if (\<not> external) (CallerInsideTarget (oc_target evidence)) (i\<lparr>in_caller_contained := True\<rparr>)
                         else i)
                in if ob_failed (oc_current_pane evidence) then Inl CurrentPaneFailed
                   else if oc_coverage_failed evidence then Inl CoverageFailed
                   else if \<not> ob_supported (oc_session_list evidence) then
                     Inr (dedupe (block_if (\<not> ro_assume_no_runtime opts) (CannotEnumerate (oc_backend evidence))
                       (i\<lparr>in_runtime_unknown := True\<rparr>)))
                   else if ob_failed (oc_session_list evidence) \<and> \<not> ro_assume_no_runtime opts then Inl ListSessionsFailed
                   else if ob_failed (oc_agent_list evidence) then Inl ListAgentsFailed
                   else
                     let i = (if ob_failed (oc_session_list evidence) then i\<lparr>in_runtime_unknown := True\<rparr> else i);
                         i = foldl (inspect_session dg lr v opts (oc_target evidence) external) i (oc_sessions evidence);
                         i = foldl (inspect_agent lr opts external) i (oc_agents evidence)
                     in Inr (dedupe i))))"

definition inspect_retirement where
  \<comment> \<open>\<open>Inspect\<close>\<close>
  "inspect_retirement dg lr getenv v target opts = inspect_target dg lr getenv v target opts False"

definition inspect_for_external_coordinator where
  "inspect_for_external_coordinator dg lr getenv v target opts = inspect_target dg lr getenv v target opts True"

section \<open>InspectSessions\<close>

definition shell_paths :: "pane \<Rightarrow> string list" where
  "shell_paths p = [pn_cwd p] @ (if pn_shell_cwd p \<noteq> [] \<and> pn_shell_cwd p \<noteq> pn_cwd p then [pn_shell_cwd p] else [])"

definition classify_session :: "file_system \<Rightarrow> string \<Rightarrow> session \<Rightarrow> path_error + pane list \<times> pane list" where
  "classify_session fs target s = classify_panes (contains_path fs target) shell_paths (session_panes s)"

definition inspect_listed_session ::
  "(nat \<Rightarrow> nat) \<Rightarrow> close_options \<Rightarrow> session \<Rightarrow> pane list \<times> pane list \<Rightarrow> inspection \<Rightarrow> inspection" where
  "inspect_listed_session lr opts s cm i =
    (case cm of (covering, mixed) \<Rightarrow>
       if covering = [] then i
       else
         let i = i\<lparr>in_sessions := in_sessions i @ [\<lparr>rs_runtime = s, rs_panes = covering, rs_mixed = mixed, rs_protection = []\<rparr>]\<rparr>;
             i = (if ss_handle s = ro_caller_workspace opts \<or> pane_present (ss_panes s) (ro_caller_pane opts)
                  then add_blocker (CallerRuntimeCovers (ss_handle s)) (i\<lparr>in_caller_contained := True\<rparr>) else i);
             i = block_if (mixed \<noteq> []) (OutsidePanes (ss_handle s) (length mixed)) i
         in foldl (\<lambda>i status. append_agent_status_blocker lr (ss_handle s) status (ro_close_unknown opts) i) i
              (covering_agent_statuses lr covering (ss_agent_status s)))"

fun inspect_listed ::
  "(nat \<Rightarrow> nat) \<Rightarrow> file_system \<Rightarrow> string \<Rightarrow> close_options \<Rightarrow> session list \<Rightarrow> inspection \<Rightarrow> retire_error + inspection" where
  "inspect_listed lr fs target opts [] i = Inr i"
| "inspect_listed lr fs target opts (s # ss) i =
    (case classify_session fs target s of
       Inl e \<Rightarrow> Inl (CompareFailed e)
     | Inr cm \<Rightarrow> inspect_listed lr fs target opts ss (inspect_listed_session lr opts s cm i))"

definition inspect_sessions ::
  "(nat \<Rightarrow> nat) \<Rightarrow> (string \<Rightarrow> string) \<Rightarrow> file_system \<Rightarrow> string \<Rightarrow> session list \<Rightarrow> close_options \<Rightarrow> retire_error + inspection" where
  "inspect_sessions lr getenv fs target sessions opts =
    (case canonical fs target of
       Inl e \<Rightarrow> Inl (CompareFailed e)
     | Inr target \<Rightarrow>
       (case (if ro_cwd opts = [] then fs_cwd fs else Some (ro_cwd opts)) of
          None \<Rightarrow> Inl GetwdFailed
        | Some cwd \<Rightarrow>
          (case contains_path fs target cwd of
             Inl e \<Rightarrow> Inl (CompareFailed e)
           | Inr inside \<Rightarrow>
             let i = fresh_inspection target;
                 i = (if inside then add_blocker (CallerInsideTarget target) (i\<lparr>in_caller_contained := True\<rparr>) else i);
                 opts = (if ro_caller_workspace opts = [] then opts\<lparr>ro_caller_workspace := getenv ''HERDR_WORKSPACE_ID''\<rparr> else opts);
                 opts = (if ro_caller_pane opts \<noteq> [] then opts
                   else opts\<lparr>ro_caller_pane :=
                     (if getenv ''HERDR_PANE_ID'' = [] then getenv ''TMUX_PANE'' else getenv ''HERDR_PANE_ID'')\<rparr>)
             in map_sum id dedupe (inspect_listed lr fs target opts sessions i))))"

section \<open>Fingerprint of an inspection\<close>

definition mixed_parts :: "pane \<Rightarrow> string list" where
  "mixed_parts p = [''mixed'', pn_id p, pn_cwd p, pn_shell_cwd p]"

definition session_parts :: "digests \<Rightarrow> retire_session \<Rightarrow> string list" where
  "session_parts dg s =
    [workspace_fingerprint dg (rs_runtime s), ss_agent_status (rs_runtime s), rs_protection s] @
    map (pane_fingerprint dg) (sort_key pn_id (rs_panes s)) @
    concat (map mixed_parts (sort_key pn_id (rs_mixed s)))"

definition inspection_fingerprint :: "digests \<Rightarrow> inspection \<Rightarrow> string" where
  "inspection_fingerprint dg i =
    hex_bytes (dg_sha256 dg (join_str [CHR 0x00]
      ([in_target i] @
       concat (map (session_parts dg) (sort_key (\<lambda>s. ss_handle (rs_runtime s)) (in_sessions i))) @
       in_unknown_sessions i @ in_active_sessions i)))"

section \<open>No blocker was added\<close>

abbreviation unblocked :: "inspection \<Rightarrow> bool" where
  "unblocked i \<equiv> in_blockers i = []"

definition closeable_status :: "(nat \<Rightarrow> nat) \<Rightarrow> bool \<Rightarrow> string \<Rightarrow> bool" where
  "closeable_status lr close_unknown raw \<longleftrightarrow>
    (let status = to_lower lr (trim_space raw)
     in status \<in> set agent_status_idle \<or> (status = [] \<or> status = ''unknown'') \<and> close_unknown)"

lemma foldl_unblocked:
  assumes "\<And>i x. unblocked (f i x) \<Longrightarrow> unblocked i \<and> Q x" and "unblocked (foldl f i xs)"
  shows "unblocked i \<and> (\<forall>x \<in> set xs. Q x)"
  using assms(2)
proof (induction xs arbitrary: i)
  case (Cons x xs)
  from Cons.IH [of "f i x"] Cons.prems have "unblocked (f i x)" "\<forall>x \<in> set xs. Q x" by simp_all
  with assms(1) show ?case by auto
qed simp

lemma foldl_sessions:
  assumes "\<And>i x. in_sessions (f i x) = in_sessions i @ g x"
  shows "in_sessions (foldl f i xs) = in_sessions i @ concat (map g xs)"
  by (induction xs arbitrary: i) (simp_all add: assms)

lemma foldl_keeps:
  assumes "\<And>i x. h (f i x) = h i"
  shows "h (foldl f i xs) = h i"
  by (induction xs arbitrary: i) (simp_all add: assms)

lemma block_if_simps [simp]:
  "unblocked (block_if c b i) \<longleftrightarrow> unblocked i \<and> \<not> c" "\<not> unblocked (add_blocker b i)"
  "in_sessions (block_if c b i) = in_sessions i" "in_sessions (add_blocker b i) = in_sessions i"
  "in_target (block_if c b i) = in_target i" "in_target (add_blocker b i) = in_target i"
  "in_runtime_unknown (block_if c b i) = in_runtime_unknown i" "in_runtime_unknown (add_blocker b i) = in_runtime_unknown i"
  by (simp_all add: block_if_def add_blocker_def)

lemma agent_status_unblocked:
  "unblocked (append_agent_status_blocker lr h raw u i) \<longleftrightarrow> unblocked i \<and> closeable_status lr u raw"
  by (auto simp: append_agent_status_blocker_def closeable_status_def Let_def agent_status_idle_def agent_status_active_def)

lemma agent_status_keeps [simp]:
  "in_sessions (append_agent_status_blocker lr h raw u i) = in_sessions i"
  "in_target (append_agent_status_blocker lr h raw u i) = in_target i"
  "in_runtime_unknown (append_agent_status_blocker lr h raw u i) = in_runtime_unknown i"
  by (simp_all add: append_agent_status_blocker_def Let_def)

definition pane_settled :: "digests \<Rightarrow> (nat \<Rightarrow> nat) \<Rightarrow> close_options \<Rightarrow> pane \<Rightarrow> bool" where
  \<comment> \<open>an idle shell, a closeable agent, or programs whose exact fingerprint was approved\<close>
  "pane_settled dg lr opts p \<longleftrightarrow> \<not> process_is_unknown (pn_process p) \<and>
    (if pn_agent p \<noteq> [] \<or> pn_agent_session p \<noteq> [] then closeable_status lr (ro_close_unknown opts) (pn_agent_status p)
     else process_runs (pn_process p) \<longrightarrow> closure_of (ro_process_closures opts) (pn_id p) = pane_fingerprint dg p)"

lemma foreground_pane_unblocked:
  "unblocked (inspect_foreground_pane dg lr opts h p i) \<Longrightarrow> unblocked i \<and> pane_settled dg lr opts p"
  by (auto simp: inspect_foreground_pane_def pane_settled_def Let_def agent_status_unblocked split: if_splits)

lemma foreground_pane_keeps [simp]:
  "in_sessions (inspect_foreground_pane dg lr opts h p i) = in_sessions i"
  "in_target (inspect_foreground_pane dg lr opts h p i) = in_target i"
  "in_runtime_unknown (inspect_foreground_pane dg lr opts h p i) = in_runtime_unknown i"
  by (simp_all add: inspect_foreground_pane_def Let_def)

definition session_settled :: "digests \<Rightarrow> (nat \<Rightarrow> nat) \<Rightarrow> runtime_view \<Rightarrow> close_options \<Rightarrow> occupancy_session \<Rightarrow> bool" where
  "session_settled dg lr v opts s \<longleftrightarrow>
    (if rv_inspects_processes v then \<forall>p \<in> set (os_panes s). pane_settled dg lr opts p
     else \<forall>st \<in> set (covering_agent_statuses lr (os_panes s) (ss_agent_status (os_runtime s))).
       closeable_status lr (ro_close_unknown opts) st)"

definition retire_session_of :: "file_system \<Rightarrow> string \<Rightarrow> occupancy_session \<Rightarrow> retire_session" where
  "retire_session_of fs target s = \<lparr>rs_runtime = os_runtime s, rs_panes = os_panes s, rs_mixed = os_mixed s,
    rs_protection = workspace_protection fs (os_runtime s) target\<rparr>"

definition session_free :: "digests \<Rightarrow> (nat \<Rightarrow> nat) \<Rightarrow> runtime_view \<Rightarrow> close_options \<Rightarrow> string \<Rightarrow> bool \<Rightarrow> occupancy_session \<Rightarrow> bool" where
  "session_free dg lr v opts target external s \<longleftrightarrow>
    workspace_protection (rv_fs v) (os_runtime s) target = [] \<and> os_mixed s = [] \<and>
    (os_is_caller s \<longrightarrow> external) \<and> session_settled dg lr v opts s"

definition agent_settled :: "(nat \<Rightarrow> nat) \<Rightarrow> close_options \<Rightarrow> bool \<Rightarrow> occupancy_agent \<Rightarrow> bool" where
  "agent_settled lr opts external a \<longleftrightarrow> (oa_blocking a \<longrightarrow> (oa_is_caller a \<longrightarrow> external) \<and> oa_session_handle a \<noteq> [] \<and>
    closeable_status lr (ro_close_unknown opts) (oa_status a))"

lemma inspect_structure_facts:
  "unblocked (inspect_structure v target external i s) \<longleftrightarrow>
    unblocked i \<and> workspace_protection (rv_fs v) (os_runtime s) target = [] \<and> os_mixed s = [] \<and> (os_is_caller s \<longrightarrow> external)"
  "in_sessions (inspect_structure v target external i s) = in_sessions i @ [retire_session_of (rv_fs v) target s]"
  "in_target (inspect_structure v target external i s) = in_target i"
  "in_runtime_unknown (inspect_structure v target external i s) = in_runtime_unknown i"
  by (auto simp: inspect_structure_def Let_def retire_session_of_def)

lemma inspect_session_unblocked:
  assumes "unblocked (inspect_session dg lr v opts target external i s)"
  shows "unblocked i \<and> session_free dg lr v opts target external s"
proof -
  let ?i = "inspect_structure v target external i s"
  have "unblocked ?i \<and> session_settled dg lr v opts s"
  proof (cases "rv_inspects_processes v")
    case True
    have "unblocked ?i \<and> (\<forall>p \<in> set (os_panes s). pane_settled dg lr opts p)"
      by (rule foldl_unblocked [where f = "\<lambda>i p. inspect_foreground_pane dg lr opts (ss_handle (os_runtime s)) p i"])
        (use assms True foreground_pane_unblocked in \<open>auto simp: inspect_session_def inspect_foreground_activity_def Let_def\<close>)
    with True show ?thesis by (simp add: session_settled_def)
  next
    case False
    let ?statuses = "covering_agent_statuses lr (os_panes s) (ss_agent_status (os_runtime s))"
    have "unblocked ?i \<and> (\<forall>st \<in> set ?statuses. closeable_status lr (ro_close_unknown opts) st)"
      by (rule foldl_unblocked [where f = "\<lambda>i st. append_agent_status_blocker lr (ss_handle (os_runtime s)) st (ro_close_unknown opts) i"])
        (use assms False agent_status_unblocked in \<open>auto simp: inspect_session_def Let_def\<close>)
    with False show ?thesis by (simp add: session_settled_def)
  qed
  then show ?thesis unfolding inspect_structure_facts session_free_def by blast
qed

lemma inspect_session_keeps:
  "in_sessions (inspect_session dg lr v opts target external i s) = in_sessions i @ [retire_session_of (rv_fs v) target s]"
  "in_target (inspect_session dg lr v opts target external i s) = in_target i"
  "in_runtime_unknown (inspect_session dg lr v opts target external i s) = in_runtime_unknown i"
  by (simp_all add: inspect_session_def inspect_foreground_activity_def Let_def foldl_keeps [of in_sessions]
      foldl_keeps [of in_target] foldl_keeps [of in_runtime_unknown] inspect_structure_facts)

lemma inspect_agent_unblocked:
  "unblocked (inspect_agent lr opts external i a) \<Longrightarrow> unblocked i \<and> agent_settled lr opts external a"
  by (auto simp: inspect_agent_def agent_settled_def Let_def agent_status_unblocked split: if_splits)

lemma inspect_agent_keeps:
  "in_sessions (inspect_agent lr opts external i a) = in_sessions i"
  "in_target (inspect_agent lr opts external i a) = in_target i"
  "in_runtime_unknown (inspect_agent lr opts external i a) = in_runtime_unknown i"
  by (simp_all add: inspect_agent_def Let_def)

lemma dedupe_keeps [simp]:
  "unblocked (dedupe i) \<longleftrightarrow> unblocked i" "in_sessions (dedupe i) = in_sessions i" "in_target (dedupe i) = in_target i"
  "in_runtime_unknown (dedupe i) = in_runtime_unknown i"
  by (simp_all add: dedupe_def)

text \<open>What a ready inspection of a known runtime went through.\<close>

lemma inspect_target_ready:
  assumes "inspect_target dg lr getenv v target opts external = Inr i" and "inspection_ready i" and "\<not> in_runtime_unknown i"
  obtains evidence opts' cwd where "opts' = caller_options getenv (if rv_present v then rv_name v else []) opts"
    "inspect_occupancy lr v target (occupancy_options_of opts') = Inr evidence"
    "Some cwd = (if ro_cwd opts' = [] then fs_cwd (rv_fs v) else Some (ro_cwd opts'))"
    "\<exists>inside. contains_path (rv_fs v) (oc_target evidence) cwd = Inr inside \<and> (inside \<longrightarrow> external)"
    "ob_supported (oc_session_list evidence)" "\<not> ob_failed (oc_session_list evidence)"
    "\<not> ob_failed (oc_agent_list evidence)" "\<not> ob_failed (oc_current_pane evidence)" "\<not> oc_coverage_failed evidence"
    "in_target i = oc_target evidence"
    "in_sessions i = map (retire_session_of (rv_fs v) (oc_target evidence)) (oc_sessions evidence)"
    "\<forall>s \<in> set (oc_sessions evidence). session_free dg lr v opts' (oc_target evidence) external s"
    "\<forall>a \<in> set (oc_agents evidence). agent_settled lr opts' external a"
proof -
  let ?opts = "caller_options getenv (if rv_present v then rv_name v else []) opts"
  from assms(1) obtain evidence cwd inside where
    e: "inspect_occupancy lr v target (occupancy_options_of ?opts) = Inr evidence"
    "(if ro_cwd ?opts = [] then fs_cwd (rv_fs v) else Some (ro_cwd ?opts)) = Some cwd"
    "contains_path (rv_fs v) (oc_target evidence) cwd = Inr inside"
    unfolding inspect_target_def Let_def by (auto split: sum.splits option.splits simp del: if_splits)
  define i0 where "i0 = (if inside
    then block_if (\<not> external) (CallerInsideTarget (oc_target evidence)) (fresh_inspection (oc_target evidence)\<lparr>in_caller_contained := True\<rparr>)
    else fresh_inspection (oc_target evidence))"
  have i0: "in_sessions i0 = []" "in_target i0 = oc_target evidence" "\<not> in_runtime_unknown i0"
    "unblocked i0 \<longleftrightarrow> (inside \<longrightarrow> external)"
    by (auto simp: i0_def fresh_inspection_def)
  define i2 where "i2 = foldl (inspect_agent lr ?opts external)
    (foldl (inspect_session dg lr v ?opts (oc_target evidence) external) i0 (oc_sessions evidence)) (oc_agents evidence)"
  have i: "\<not> ob_failed (oc_current_pane evidence)" "\<not> oc_coverage_failed evidence" "ob_supported (oc_session_list evidence)"
    "\<not> ob_failed (oc_session_list evidence)" "\<not> ob_failed (oc_agent_list evidence)" "i = dedupe i2"
    using assms(1,3) unfolding inspect_target_def Let_def e sum.case option.case i0_def [symmetric] i2_def
    by (auto split: if_splits simp: foldl_keeps [of in_runtime_unknown, OF inspect_agent_keeps(3)]
        foldl_keeps [of in_runtime_unknown, OF inspect_session_keeps(3)])
  have keeps: "in_sessions i2 = map (retire_session_of (rv_fs v) (oc_target evidence)) (oc_sessions evidence)"
    "in_target i2 = oc_target evidence"
    unfolding i2_def foldl_keeps [of in_sessions, OF inspect_agent_keeps(1)] foldl_sessions [OF inspect_session_keeps(1)]
      foldl_keeps [of in_target, OF inspect_agent_keeps(2)] foldl_keeps [of in_target, OF inspect_session_keeps(2)] i0
    by (simp_all add: concat_map_singleton)
  have "unblocked i2" using assms(2) i(6) by (simp add: inspection_ready_def)
  with foldl_unblocked [of "inspect_agent lr ?opts external" "agent_settled lr ?opts external"] inspect_agent_unblocked
  have mid: "unblocked (foldl (inspect_session dg lr v ?opts (oc_target evidence) external) i0 (oc_sessions evidence))"
    and agents: "\<forall>a \<in> set (oc_agents evidence). agent_settled lr ?opts external a" unfolding i2_def by blast+
  from foldl_unblocked [of "inspect_session dg lr v ?opts (oc_target evidence) external"
      "session_free dg lr v ?opts (oc_target evidence) external", OF inspect_session_unblocked mid]
  have inside: "inside \<longrightarrow> external"
    and sessions: "\<forall>s \<in> set (oc_sessions evidence). session_free dg lr v ?opts (oc_target evidence) external s"
    using i0(4) by blast+
  show ?thesis
    by (rule that [OF refl e(1) e(2) [symmetric] _ i(3,4,5,1,2) _ _ sessions agents])
      (use e(3) inside keeps i(6) in auto)
qed

end
