(* ===== verification/RetireClose.thy ===== *)
theory RetireClose
  imports RetirePolicy
begin

text \<open>
  \<open>CloseAndWait\<close> of \<open>internal/retire/safety.go\<close>: close every covering session and wait until none
  is left. The runtime is outside and changes at any time, so a run is given by what it answers:
  \<open>ev_first\<close> to the first inspection, then, for each round of the loop, a view, a reading of the
  clock, the outcome of the close and whether the context ended during the wait. The result
  carries the closes that were asked for, with the round of each.
\<close>

section \<open>A ready inspection\<close>

definition agent_closeable :: "(nat \<Rightarrow> nat) \<Rightarrow> bool \<Rightarrow> string \<Rightarrow> bool" where
  "agent_closeable lr close_unknown status \<longleftrightarrow>
    status \<in> {''idle'', ''done''} \<or> status = ''unknown'' \<and> close_unknown \<or> closeable_status lr close_unknown status"

text \<open>What \<open>Ready\<close> stands for, in terms of what the runtime showed.\<close>

definition checkout_free ::
  "digests \<Rightarrow> (nat \<Rightarrow> nat) \<Rightarrow> runtime_view \<Rightarrow> checkout_identity \<Rightarrow> close_options \<Rightarrow> session list \<Rightarrow> inspection \<Rightarrow> bool" where
  "checkout_free dg lr v checkout opts listed i \<longleftrightarrow>
    (\<forall>s \<in> set listed. \<forall>p \<in> set (session_panes s). \<forall>c \<in> {pn_cwd p, pn_shell_cwd p}.
       c \<noteq> [] \<and> activity_covers_checkout v checkout c OccupancyCleanup \<noteq> Inr False \<longrightarrow>
       (\<exists>r \<in> set (in_sessions i). ss_handle (rs_runtime r) = ss_handle s)) \<and>
    (\<forall>r \<in> set (in_sessions i). rs_protection r = [] \<and> ss_handle (rs_runtime r) \<noteq> ro_caller_workspace opts \<and>
       (\<forall>p \<in> set (session_panes (rs_runtime r)). \<forall>c \<in> set (pane_paths p).
          c \<noteq> [] \<longrightarrow> activity_covers_checkout v checkout c OccupancyCleanup = Inr True) \<and>
       (rv_inspects_processes v \<longrightarrow> (\<forall>p \<in> set (rs_panes r). pane_settled dg lr opts p))) \<and>
    (rv_lists_agents v \<longrightarrow> (\<exists>activities. rv_activities v = Some activities \<and> (\<forall>a \<in> set activities.
       activity_covers_checkout v checkout (aa_cwd a) OccupancyCleanup \<noteq> Inr False \<longrightarrow>
       agent_closeable lr (ro_close_unknown opts) (normalize_occupancy_status lr (aa_status a)) \<and>
       (\<exists>r \<in> set (in_sessions i). ss_handle (rs_runtime r) = aa_workspace_id a \<or>
          pane_present (ss_panes (rs_runtime r)) (aa_pane_id a)))))"

lemma correlated_reason:
  "correlated_session sessions a \<noteq> [] \<Longrightarrow> \<exists>s \<in> set sessions. ss_handle (os_runtime s) = aa_workspace_id a \<or>
    pane_present (ss_panes (os_runtime s)) (aa_pane_id a)"
proof -
  assume "correlated_session sessions a \<noteq> []"
  then obtain s where "List.find (\<lambda>s. aa_workspace_id a \<noteq> [] \<and> ss_handle (os_runtime s) = aa_workspace_id a \<or>
      pane_present (ss_panes (os_runtime s)) (aa_pane_id a)) sessions = Some s"
    by (auto simp: correlated_session_def split: option.splits)
  then show ?thesis by (metis (mono_tags, lifting) find_Some_iff nth_mem)
qed

lemma ready_free:
  assumes "inspect_retirement dg lr getenv v target opts = Inr i" and "inspection_ready i" and "\<not> in_runtime_unknown i"
  shows "\<exists>checkout listed opts' cwd. opts' = caller_options getenv (if rv_present v then rv_name v else []) opts \<and>
    inspect_checkout_identity v target = Inr checkout \<and> in_target i = ci_path checkout \<and> rv_list v = Some listed \<and>
    Some cwd = (if ro_cwd opts' = [] then fs_cwd (rv_fs v) else Some (ro_cwd opts')) \<and>
    contains_path (rv_fs v) (in_target i) cwd = Inr False \<and> checkout_free dg lr v checkout opts' listed i"
proof -
  obtain evidence opts' cwd where
    o: "opts' = caller_options getenv (if rv_present v then rv_name v else []) opts"
    and e: "inspect_occupancy lr v target (occupancy_options_of opts') = Inr evidence"
    and cwd: "Some cwd = (if ro_cwd opts' = [] then fs_cwd (rv_fs v) else Some (ro_cwd opts'))"
      "\<exists>inside. contains_path (rv_fs v) (oc_target evidence) cwd = Inr inside \<and> (inside \<longrightarrow> False)"
    and ok: "ob_supported (oc_session_list evidence)" "\<not> ob_failed (oc_session_list evidence)"
      "\<not> ob_failed (oc_agent_list evidence)" "\<not> oc_coverage_failed evidence"
    and t: "in_target i = oc_target evidence"
      "in_sessions i = map (retire_session_of (rv_fs v) (oc_target evidence)) (oc_sessions evidence)"
    and sessions: "\<forall>s \<in> set (oc_sessions evidence). session_free dg lr v opts' (oc_target evidence) False s"
    and agents: "\<forall>a \<in> set (oc_agents evidence). agent_settled lr opts' False a"
    by (rule inspect_target_ready [OF assms(1) [unfolded inspect_retirement_def] assms(2,3)]) (rule that; assumption)
  let ?oo = "occupancy_options_of opts'"
  have oo: "oo_profile ?oo = OccupancyCleanup" "oo_caller_workspace ?oo = ro_caller_workspace opts'"
    "oo_close_unknown ?oo = ro_close_unknown opts'" by (simp_all add: occupancy_options_of_def)
  have "rv_present v" "rv_name v \<noteq> ''none''"
    using e ok(1) by (auto simp: inspect_occupancy_def Let_def fresh_occupancy_def no_observation_def split: sum.splits if_splits)
  with inspect_occupancy_live [OF e _ _ ok(4,2,3)] obtain checkout listed where
    c: "inspect_checkout_identity v target = Inr checkout" "oc_target evidence = ci_path checkout" "rv_list v = Some listed"
    and found: "occupancy_sessions v checkout (oc_caller_pane evidence) ?oo listed = Inr (oc_sessions evidence)"
    and appended: "append_agents lr v checkout (oc_caller_pane evidence) (oc_sessions evidence) ?oo
      (if rv_lists_agents v then the (rv_activities v) else pane_activities (oc_sessions evidence)) = Inr (oc_agents evidence)"
      "rv_lists_agents v \<longrightarrow> rv_activities v \<noteq> None" by metis
  note spec = occupancy_sessions_spec [OF found]
  have in_r: "\<exists>r \<in> set (in_sessions i). rs_runtime r = os_runtime x" if "x \<in> set (oc_sessions evidence)" for x
    using that t(2) by (auto simp: retire_session_of_def)
  have listed: "\<exists>r \<in> set (in_sessions i). ss_handle (rs_runtime r) = ss_handle s"
    if "s \<in> set listed" "p \<in> set (session_panes s)" "c \<in> {pn_cwd p, pn_shell_cwd p}" "c \<noteq> []"
      "activity_covers_checkout v checkout c OccupancyCleanup \<noteq> Inr False" for s p c
  proof -
    from spec that(1) obtain r where r: "occupancy_session_of v checkout (oc_caller_pane evidence) ?oo s = Inr r"
      "\<forall>x. r = Some x \<longrightarrow> x \<in> set (oc_sessions evidence)" by blast
    with occupancy_session_missed [OF _ that(2-4), of v checkout "oc_caller_pane evidence" ?oo] that(5) oo(1)
    obtain x where x: "r = Some x" by (cases r) auto
    with r occupancy_session_found(1) have "ss_handle (os_runtime x) = ss_handle s" by fastforce
    with in_r [of x] r(2) x show ?thesis by metis
  qed
  have held: "rs_protection r = [] \<and> ss_handle (rs_runtime r) \<noteq> ro_caller_workspace opts' \<and>
       (\<forall>p \<in> set (session_panes (rs_runtime r)). \<forall>c \<in> set (pane_paths p).
          c \<noteq> [] \<longrightarrow> activity_covers_checkout v checkout c OccupancyCleanup = Inr True) \<and>
       (rv_inspects_processes v \<longrightarrow> (\<forall>p \<in> set (rs_panes r). pane_settled dg lr opts' p))"
    if "r \<in> set (in_sessions i)" for r
  proof -
    from that t(2) obtain x where x: "x \<in> set (oc_sessions evidence)"
      "r = retire_session_of (rv_fs v) (oc_target evidence) x" by auto
    with spec obtain s where s: "occupancy_session_of v checkout (oc_caller_pane evidence) ?oo s = Inr (Some x)" by blast
    note f = occupancy_session_found [OF s]
    from sessions x(1) have free: "session_free dg lr v opts' (oc_target evidence) False x" by blast
    have "\<forall>p \<in> set (session_panes (os_runtime x)). \<forall>c \<in> set (pane_paths p).
        c \<noteq> [] \<longrightarrow> activity_covers_checkout v checkout c OccupancyCleanup = Inr True"
    proof (intro ballI impI)
      fix p c assume p: "p \<in> set (session_panes (os_runtime x))" and c: "c \<in> set (pane_paths p)" "c \<noteq> []"
      have "\<not> pane_elsewhere (covers_at v checkout ?oo) pane_paths p"
        using f(2) free p by (simp add: session_free_def filter_empty_conv)
      moreover obtain covering mixed where
        "classify_panes (covers_at v checkout ?oo) pane_paths (session_panes (os_runtime x)) = Inr (covering, mixed)"
        using s unfolding f(1) by (auto simp: occupancy_session_of_def classify_occupancy_session_def Let_def split: sum.splits)
      then obtain b where "covers_at v checkout ?oo c = Inr b" using classify_panes_spec p c by blast
      ultimately show "activity_covers_checkout v checkout c OccupancyCleanup = Inr True"
        using c oo(1) by (cases b) (auto simp: pane_elsewhere_def)
    qed
    moreover have "ss_handle (os_runtime x) \<noteq> ro_caller_workspace opts'"
      using free f(1,5) oo(2) by (auto simp: session_free_def)
    ultimately show ?thesis
      using free x(2) by (auto simp: session_free_def retire_session_of_def session_settled_def)
  qed
  have agents_ok: "agent_closeable lr (ro_close_unknown opts') (normalize_occupancy_status lr (aa_status a)) \<and>
       (\<exists>r \<in> set (in_sessions i). ss_handle (rs_runtime r) = aa_workspace_id a \<or>
          pane_present (ss_panes (rs_runtime r)) (aa_pane_id a))"
    if "rv_lists_agents v" "rv_activities v = Some activities" "a \<in> set activities"
      "activity_covers_checkout v checkout (aa_cwd a) OccupancyCleanup \<noteq> Inr False" for activities a
  proof -
    let ?g = "occupancy_agent_of lr (oc_caller_pane evidence) (oc_sessions evidence) ?oo a"
    from append_agents_spec [OF appended(1)] that(1-3) obtain b where
      "covers_at v checkout ?oo (aa_cwd a) = Inr b" "b \<longrightarrow> ?g \<in> set (oc_agents evidence)" by auto
    with that(4) oo(1) have g: "?g \<in> set (oc_agents evidence)" by (cases b) auto
    have parts: "oa_status ?g = normalize_occupancy_status lr (aa_status a)"
      "oa_session_handle ?g = correlated_session (oc_sessions evidence) a"
      "oa_blocking ?g = occupancy_agent_blocks ?oo (oa_status ?g) (oa_is_caller ?g) (oa_session_handle ?g \<noteq> [])"
      by (simp_all add: occupancy_agent_of_def Let_def)
    have "agent_closeable lr (ro_close_unknown opts') (oa_status ?g) \<and> oa_session_handle ?g \<noteq> []"
    proof (cases "oa_blocking ?g")
      case True
      with agents g show ?thesis unfolding agent_settled_def agent_closeable_def by blast
    next
      case False
      with parts(3) cleanup_agent_free [OF oo(1)] oo(3) show ?thesis unfolding agent_closeable_def by blast
    qed
    with parts correlated_reason [of "oc_sessions evidence" a] in_r show ?thesis by metis
  qed
  have "checkout_free dg lr v checkout opts' listed i"
    unfolding checkout_free_def
  proof (intro conjI ballI impI, goal_cases)
    case (1 s p c)
    then show ?case using listed [of s p c] by blast
  next
    case (2 r)
    then show ?case using held by blast
  next
    case (3 r)
    then show ?case using held by blast
  next
    case (4 r p c)
    then show ?case using held by blast
  next
    case (5 r p)
    then show ?case using held by blast
  next
    case 6
    then show ?case using agents_ok appended(2) by blast
  qed
  with o c cwd t(1) show ?thesis by auto
qed

section \<open>CloseAndWait\<close>

record close_environment =
  ev_first :: runtime_view
  ev_start :: int
  ev_view :: "nat \<Rightarrow> runtime_view"
  ev_now :: "nat \<Rightarrow> int"
  ev_close_fails :: "nat \<Rightarrow> string \<Rightarrow> bool"
  ev_done :: "nat \<Rightarrow> bool"

datatype close_error =
    InspectionFailed retire_error
  | RetirementBlocked "blocker list"
  | ReinspectionFailed retire_error
  | BlockedAfterChange "blocker list"
  | CloseTimedOut nat
  | StalePlan string
  | CloseFailed string
  | ContextDone
  | OutOfRounds

type_synonym close_result = "close_error option \<times> inspection \<times> (nat \<times> string) list"

definition close_timeout :: "close_options \<Rightarrow> int" where
  \<comment> \<open>nanoseconds\<close>
  "close_timeout opts = (if ro_timeout opts \<le> 0 then 5000000000 else ro_timeout opts)"

definition approved_workspaces :: "digests \<Rightarrow> inspection \<Rightarrow> (string \<times> string) list" where
  "approved_workspaces dg i =
    rev (map (\<lambda>s. (ss_handle (rs_runtime s), workspace_fingerprint dg (rs_runtime s))) (in_sessions i))"

definition logged :: "nat \<times> string \<Rightarrow> close_result \<Rightarrow> close_result" where
  "logged e r = (case r of (err, i, events) \<Rightarrow> (err, i, e # events))"

text \<open>The loop: \<open>n\<close> bounds the rounds, \<open>k\<close> counts them, \<open>closed\<close> holds the handles closed so far.\<close>

fun close_loop ::
  "nat \<Rightarrow> digests \<Rightarrow> (nat \<Rightarrow> nat) \<Rightarrow> (string \<Rightarrow> string) \<Rightarrow> close_environment \<Rightarrow> close_options \<Rightarrow> inspection \<Rightarrow> int \<Rightarrow>
   nat \<Rightarrow> string list \<Rightarrow> close_result" where
  "close_loop 0 dg lr getenv env opts i deadline k closed = (Some OutOfRounds, i, [])"
| "close_loop (Suc n) dg lr getenv env opts i deadline k closed =
    (case inspect_retirement dg lr getenv (ev_view env k) (in_target i) opts of
       Inl e \<Rightarrow> (Some (ReinspectionFailed e), i, [])
     | Inr fresh \<Rightarrow>
       if \<not> inspection_ready fresh then (Some (BlockedAfterChange (in_blockers fresh)), fresh, [])
       else if in_sessions fresh = [] then (None, i\<lparr>in_sessions := [], in_closed_sessions := length closed\<rparr>, [])
       else if deadline < ev_now env k then (Some (CloseTimedOut (length (in_sessions fresh))), i, [])
       else
         (case List.find (\<lambda>s. ss_handle (rs_runtime s) \<notin> set closed) (in_sessions fresh) of
            None \<Rightarrow>
              if ev_done env k then (Some ContextDone, i, [])
              else close_loop n dg lr getenv env opts i deadline (Suc k) closed
          | Some s \<Rightarrow>
            let handle = ss_handle (rs_runtime s) in
            if closure_of (approved_workspaces dg i) handle \<noteq> workspace_fingerprint dg (rs_runtime s)
            then (Some (StalePlan handle), fresh, [])
            else if ev_close_fails env k handle then (Some (CloseFailed handle), i, [(k, handle)])
            else logged (k, handle)
              (if ev_done env k then (Some ContextDone, i, [])
               else close_loop n dg lr getenv env opts i deadline (Suc k) (handle # closed))))"

declare close_loop.simps(2) [simp del]

definition close_and_wait ::
  "nat \<Rightarrow> digests \<Rightarrow> (nat \<Rightarrow> nat) \<Rightarrow> (string \<Rightarrow> string) \<Rightarrow> close_environment \<Rightarrow> string \<Rightarrow> close_options \<Rightarrow> close_result" where
  "close_and_wait rounds dg lr getenv env target opts =
    (case inspect_retirement dg lr getenv (ev_first env) target opts of
       Inl e \<Rightarrow> (Some (InspectionFailed e), fresh_inspection [], [])
     | Inr i \<Rightarrow>
       if \<not> inspection_ready i then (Some (RetirementBlocked (in_blockers i)), i, [])
       else if in_runtime_unknown i \<or> \<not> rv_present (ev_first env) \<or> rv_name (ev_first env) = ''none'' then (None, i, [])
       else close_loop rounds dg lr getenv env opts i (ev_start env + close_timeout opts) 0 [])"

section \<open>What is closed, and when the loop succeeds\<close>

definition close_granted ::
  "digests \<Rightarrow> (nat \<Rightarrow> nat) \<Rightarrow> (string \<Rightarrow> string) \<Rightarrow> close_environment \<Rightarrow> close_options \<Rightarrow> inspection \<Rightarrow> nat \<times> string \<Rightarrow> bool" where
  \<comment> \<open>a fresh, ready inspection shows the session exactly as the first inspection did\<close>
  "close_granted dg lr getenv env opts i e \<longleftrightarrow> (case e of (k, handle) \<Rightarrow>
    (\<exists>fresh. inspect_retirement dg lr getenv (ev_view env k) (in_target i) opts = Inr fresh \<and> inspection_ready fresh \<and>
      (\<exists>s \<in> set (in_sessions fresh). ss_handle (rs_runtime s) = handle \<and>
        (\<exists>s0 \<in> set (in_sessions i). ss_handle (rs_runtime s0) = handle \<and>
          workspace_fingerprint dg (rs_runtime s0) = workspace_fingerprint dg (rs_runtime s)))))"

lemma closure_approved:
  assumes "\<And>x. dg_sha256 dg x \<noteq> []"
    and "closure_of (approved_workspaces dg i) handle = workspace_fingerprint dg s"
  shows "\<exists>s0 \<in> set (in_sessions i). ss_handle (rs_runtime s0) = handle \<and>
    workspace_fingerprint dg (rs_runtime s0) = workspace_fingerprint dg s"
proof -
  have "hex_bytes x \<noteq> []" if "x \<noteq> []" for x using that by (cases x) (auto simp: hex_bytes_def)
  then have "workspace_fingerprint dg s \<noteq> []" using assms(1) by (simp add: workspace_fingerprint_def process_digest_def)
  with assms(2) have "map_of (approved_workspaces dg i) handle = Some (workspace_fingerprint dg s)"
    by (simp add: closure_of_def split: option.splits)
  from map_of_SomeD [OF this] show ?thesis by (auto simp: approved_workspaces_def)
qed

lemma find_SomeD: "List.find P xs = Some x \<Longrightarrow> x \<in> set xs \<and> P x"
  by (metis find_Some_iff nth_mem)

lemma close_loop_events:
  assumes "\<And>x. dg_sha256 dg x \<noteq> []" and "close_loop n dg lr getenv env opts i deadline k closed = (err, j, events)"
  shows "(\<forall>e \<in> set events. close_granted dg lr getenv env opts i e \<and> k \<le> fst e \<and> ev_now env (fst e) \<le> deadline \<and> snd e \<notin> set closed) \<and>
    distinct (map snd events) \<and> sorted (map fst events) \<and> distinct (map fst events)"
  using assms(2)
proof (induction n arbitrary: k closed err j events)
  case (Suc n)
  show ?case
  proof (cases "events = []")
    case False
    from Suc.prems False obtain fresh where fresh: "inspect_retirement dg lr getenv (ev_view env k) (in_target i) opts = Inr fresh"
      "inspection_ready fresh" "in_sessions fresh \<noteq> []" "\<not> deadline < ev_now env k"
      by (auto simp: close_loop.simps(2) split: sum.splits if_splits)
    show ?thesis
    proof (cases "List.find (\<lambda>s. ss_handle (rs_runtime s) \<notin> set closed) (in_sessions fresh)")
      case None
      with Suc.prems fresh False have "close_loop n dg lr getenv env opts i deadline (Suc k) closed = (err, j, events)"
        by (auto simp: close_loop.simps(2) split: if_splits)
      from Suc.IH [OF this] show ?thesis by auto
    next
      case (Some s)
      let ?h = "ss_handle (rs_runtime s)"
      have s: "s \<in> set (in_sessions fresh)" "?h \<notin> set closed" using find_SomeD [OF Some] by auto
      from Suc.prems fresh Some False have a: "closure_of (approved_workspaces dg i) ?h = workspace_fingerprint dg (rs_runtime s)"
        by (auto simp: close_loop.simps(2) Let_def split: if_splits)
      have granted: "close_granted dg lr getenv env opts i (k, ?h)"
        using closure_approved [OF assms(1) a] fresh(1,2) s(1) unfolding close_granted_def by blast
      show ?thesis
      proof (cases "ev_close_fails env k ?h \<or> ev_done env k")
        case True
        with Suc.prems fresh Some a have "events = [(k, ?h)]"
          by (auto simp: close_loop.simps(2) Let_def logged_def split: if_splits)
        with granted s(2) fresh(4) show ?thesis by auto
      next
        case False
        with Suc.prems fresh Some a obtain rest where
          rest: "close_loop n dg lr getenv env opts i deadline (Suc k) (?h # closed) = (err, j, rest)" "events = (k, ?h) # rest"
          by (cases "close_loop n dg lr getenv env opts i deadline (Suc k) (?h # closed)")
            (auto simp: close_loop.simps(2) Let_def logged_def)
        from Suc.IH [OF rest(1)] granted s(2) fresh(4) rest(2) show ?thesis by fastforce
      qed
    qed
  qed simp
qed simp

lemma close_loop_success:
  assumes "close_loop n dg lr getenv env opts i deadline k closed = (None, j, events)"
  shows "\<exists>m fresh. k \<le> m \<and> inspect_retirement dg lr getenv (ev_view env m) (in_target i) opts = Inr fresh \<and>
    inspection_ready fresh \<and> in_sessions fresh = [] \<and> (\<forall>e \<in> set events. fst e < m) \<and>
    j = i\<lparr>in_sessions := [], in_closed_sessions := length closed + length events\<rparr>"
  using assms
proof (induction n arbitrary: k closed events)
  case (Suc n)
  from Suc.prems obtain fresh where fresh: "inspect_retirement dg lr getenv (ev_view env k) (in_target i) opts = Inr fresh"
    "inspection_ready fresh"
    by (auto simp: close_loop.simps(2) split: sum.splits if_splits)
  show ?case
  proof (cases "in_sessions fresh = []")
    case True
    with Suc.prems fresh show ?thesis by (auto simp: close_loop.simps(2))
  next
    case False
    show ?thesis
    proof (cases "List.find (\<lambda>s. ss_handle (rs_runtime s) \<notin> set closed) (in_sessions fresh)")
      case None
      with Suc.prems fresh False have "close_loop n dg lr getenv env opts i deadline (Suc k) closed = (None, j, events)"
        by (auto simp: close_loop.simps(2) split: if_splits)
      from Suc.IH [OF this] show ?thesis using Suc_leD by blast
    next
      case (Some s)
      let ?h = "ss_handle (rs_runtime s)"
      from Suc.prems fresh Some False obtain rest where
        rest: "close_loop n dg lr getenv env opts i deadline (Suc k) (?h # closed) = (None, j, rest)" "events = (k, ?h) # rest"
        by (cases "close_loop n dg lr getenv env opts i deadline (Suc k) (?h # closed)")
          (auto simp: close_loop.simps(2) Let_def logged_def split: if_splits)
      from Suc.IH [OF rest(1)] obtain m fresh' where "Suc k \<le> m"
        "inspect_retirement dg lr getenv (ev_view env m) (in_target i) opts = Inr fresh'"
        "inspection_ready fresh'" "in_sessions fresh' = []" "\<forall>e \<in> set rest. fst e < m"
        "j = i\<lparr>in_sessions := [], in_closed_sessions := length (?h # closed) + length rest\<rparr>" by blast
      with rest(2) show ?thesis by (intro exI [of _ m] exI [of _ fresh']) auto
    qed
  qed
qed simp

lemma close_and_wait_cases:
  assumes "close_and_wait rounds dg lr getenv env target opts = (err, j, events)" and "events \<noteq> []"
  obtains i where "inspect_retirement dg lr getenv (ev_first env) target opts = Inr i" "inspection_ready i" "\<not> in_runtime_unknown i"
    "close_loop rounds dg lr getenv env opts i (ev_start env + close_timeout opts) 0 [] = (err, j, events)"
  using assms by (auto simp: close_and_wait_def split: sum.splits if_splits)

lemma granted_handle: "close_granted dg lr getenv env opts i e \<Longrightarrow> snd e \<in> (\<lambda>s. ss_handle (rs_runtime s)) ` set (in_sessions i)"
  by (auto simp: close_granted_def) (metis image_eqI)

text \<open>
  C28: Whatever the runtime does between its answers, \<open>CloseAndWait\<close> closes only sessions of the
  first inspection, which was ready, and each at most once: immediately before every close a fresh
  inspection is ready too and shows that session with the very fingerprint it had in the first
  one. No inspection authorises two closes, none is asked for after the deadline, and there are
  no more closes than sessions at the start.
\<close>

theorem close_only_approved:
  assumes "\<And>x. dg_sha256 dg x \<noteq> []"
    and "close_and_wait rounds dg lr getenv env target opts = (err, j, events)" and "events \<noteq> []"
  shows "\<exists>i. inspect_retirement dg lr getenv (ev_first env) target opts = Inr i \<and> inspection_ready i \<and>
    (\<forall>e \<in> set events. close_granted dg lr getenv env opts i e \<and> ev_now env (fst e) \<le> ev_start env + close_timeout opts) \<and>
    distinct (map snd events) \<and> sorted (map fst events) \<and> distinct (map fst events) \<and>
    length events \<le> length (in_sessions i)"
proof -
  from close_and_wait_cases [OF assms(2,3)] obtain i where
    i: "inspect_retirement dg lr getenv (ev_first env) target opts = Inr i" "inspection_ready i"
    and loop: "close_loop rounds dg lr getenv env opts i (ev_start env + close_timeout opts) 0 [] = (err, j, events)"
    by blast
  note facts = close_loop_events [OF assms(1) loop]
  then have "set (map snd events) \<subseteq> set (map (\<lambda>s. ss_handle (rs_runtime s)) (in_sessions i))"
    using granted_handle by fastforce
  then have "card (set (map snd events)) \<le> length (map (\<lambda>s. ss_handle (rs_runtime s)) (in_sessions i))"
    by (meson card_length card_mono dual_order.trans finite_set)
  with facts have "length events \<le> length (in_sessions i)"
    using distinct_card [of "map snd events"] by simp
  with facts i show ?thesis by blast
qed

lemma caller_options_keep [simp]:
  "ro_assume_no_runtime (caller_options getenv name opts) = ro_assume_no_runtime opts"
  "ro_close_unknown (caller_options getenv name opts) = ro_close_unknown opts"
  by (simp_all add: caller_options_def Let_def)

lemma ready_known:
  assumes "inspect_retirement dg lr getenv v target opts = Inr i" and "inspection_ready i" and "\<not> ro_assume_no_runtime opts"
  shows "\<not> in_runtime_unknown i"
proof -
  have keep: "in_runtime_unknown (foldl (inspect_agent lr o' e) (foldl (inspect_session dg lr v o' t e) i ss) as) = in_runtime_unknown i"
    for o' e t i ss as
    by (simp add: foldl_keeps [of in_runtime_unknown, OF inspect_agent_keeps(3)]
        foldl_keeps [of in_runtime_unknown, OF inspect_session_keeps(3)])
  show ?thesis
    using assms unfolding inspect_retirement_def inspect_target_def Let_def
    by (auto simp: inspection_ready_def keep fresh_inspection_def split: sum.splits option.splits if_splits)
qed

text \<open>
  C29: When \<open>CloseAndWait\<close> succeeds on a live runtime, and the caller did not acknowledge a
  missing one, then after the last close there was an inspection in which no listed session has
  a pane or shell inside the target, no recognized agent works there, and the caller is not in
  it.
\<close>

theorem close_success_clear:
  assumes "close_and_wait rounds dg lr getenv env target opts = (None, j, events)"
    and "\<not> ro_assume_no_runtime opts" and "rv_present (ev_first env)" and "rv_name (ev_first env) \<noteq> ''none''"
  shows "\<exists>m v checkout listed cwd. v = ev_view env m \<and> (\<forall>e \<in> set events. fst e < m) \<and>
    inspect_checkout_identity v (in_target j) = Inr checkout \<and> rv_list v = Some listed \<and>
    contains_path (rv_fs v) (ci_path checkout) cwd = Inr False \<and>
    (\<forall>s \<in> set listed. \<forall>p \<in> set (session_panes s). \<forall>c \<in> {pn_cwd p, pn_shell_cwd p}.
       c \<noteq> [] \<longrightarrow> activity_covers_checkout v checkout c OccupancyCleanup = Inr False) \<and>
    (rv_lists_agents v \<longrightarrow> (\<exists>activities. rv_activities v = Some activities \<and>
       (\<forall>a \<in> set activities. activity_covers_checkout v checkout (aa_cwd a) OccupancyCleanup = Inr False))) \<and>
    in_sessions j = [] \<and> in_closed_sessions j = length events"
proof -
  from assms(1) obtain i where i: "inspect_retirement dg lr getenv (ev_first env) target opts = Inr i" "inspection_ready i"
    by (auto simp: close_and_wait_def split: sum.splits if_splits)
  with assms ready_known [OF i assms(2)]
  have "close_loop rounds dg lr getenv env opts i (ev_start env + close_timeout opts) 0 [] = (None, j, events)"
    by (simp add: close_and_wait_def)
  from close_loop_success [OF this] obtain m fresh where
    fresh: "inspect_retirement dg lr getenv (ev_view env m) (in_target i) opts = Inr fresh" "inspection_ready fresh"
      "in_sessions fresh = []" "\<forall>e \<in> set events. fst e < m"
    and j: "j = i\<lparr>in_sessions := [], in_closed_sessions := length events\<rparr>" by auto
  from ready_free [OF fresh(1,2) ready_known [OF fresh(1,2) assms(2)]] obtain checkout listed opts' cwd where
    c: "inspect_checkout_identity (ev_view env m) (in_target i) = Inr checkout" "in_target fresh = ci_path checkout"
      "rv_list (ev_view env m) = Some listed" "contains_path (rv_fs (ev_view env m)) (in_target fresh) cwd = Inr False"
    and free: "checkout_free dg lr (ev_view env m) checkout opts' listed fresh" by blast
  have "\<forall>s \<in> set listed. \<forall>p \<in> set (session_panes s). \<forall>c \<in> {pn_cwd p, pn_shell_cwd p}.
       c \<noteq> [] \<longrightarrow> activity_covers_checkout (ev_view env m) checkout c OccupancyCleanup = Inr False"
    using free fresh(3) by (auto simp: checkout_free_def)
  moreover have "rv_lists_agents (ev_view env m) \<longrightarrow> (\<exists>activities. rv_activities (ev_view env m) = Some activities \<and>
       (\<forall>a \<in> set activities. activity_covers_checkout (ev_view env m) checkout (aa_cwd a) OccupancyCleanup = Inr False))"
    using free fresh(3) by (auto simp: checkout_free_def)
  ultimately show ?thesis using c fresh(4) j by (intro exI [of _ m] exI [of _ "ev_view env m"] exI [of _ checkout]
        exI [of _ listed] exI [of _ cwd]) simp
qed

section \<open>The loop ends\<close>

lemma fst_logged [simp]: "fst (logged e r) = fst r"
  by (cases r) (simp add: logged_def)

lemma close_loop_ends:
  "k \<le> m \<Longrightarrow> m < k + n \<Longrightarrow> deadline < ev_now env m \<Longrightarrow>
   fst (close_loop n dg lr getenv env opts i deadline k closed) \<noteq> Some OutOfRounds"
proof (induction n arbitrary: k closed)
  case (Suc n)
  show ?case
  proof (cases "k = m")
    case True
    with Suc.prems show ?thesis by (auto simp: close_loop.simps(2) split: sum.splits)
  next
    case False
    with Suc.prems Suc.IH [of "Suc k"] show ?thesis
      by (auto simp: close_loop.simps(2) Let_def split: sum.splits option.splits)
  qed
qed simp

lemma close_loop_progress:
  assumes "\<And>m. m \<le> length ss \<Longrightarrow> \<exists>fresh. inspect_retirement dg lr getenv (ev_view env m) (in_target i) opts = Inr fresh \<and>
      inspection_ready fresh \<and> in_sessions fresh = drop m ss"
    and "\<And>m. m < length ss \<Longrightarrow> ev_now env m \<le> deadline \<and> \<not> ev_done env m \<and> \<not> ev_close_fails env m (ss_handle (rs_runtime (ss ! m)))"
    and "distinct (map (\<lambda>s. ss_handle (rs_runtime s)) ss)" and "in_sessions i = ss"
  shows "k \<le> length ss \<Longrightarrow> length ss < k + n \<Longrightarrow> set closed = (\<lambda>s. ss_handle (rs_runtime s)) ` set (take k ss) \<Longrightarrow>
    close_loop n dg lr getenv env opts i deadline k closed =
      (None, i\<lparr>in_sessions := [], in_closed_sessions := length closed + (length ss - k)\<rparr>,
       map (\<lambda>m. (m, ss_handle (rs_runtime (ss ! m)))) [k..<length ss])"
proof (induction n arbitrary: k closed)
  case (Suc n)
  from assms(1) [OF Suc.prems(1)] obtain fresh where
    fresh: "inspect_retirement dg lr getenv (ev_view env k) (in_target i) opts = Inr fresh" "inspection_ready fresh"
      "in_sessions fresh = drop k ss" by blast
  show ?case
  proof (cases "k = length ss")
    case True
    with fresh show ?thesis by (simp add: close_loop.simps(2))
  next
    case False
    with Suc.prems(1) have k: "k < length ss" by simp
    let ?h = "ss_handle (rs_runtime (ss ! k))"
    have d: "drop k ss = ss ! k # drop (Suc k) ss" using k by (simp add: Cons_nth_drop_Suc)
    have "?h \<notin> set closed"
    proof
      assume "?h \<in> set closed"
      then obtain s where "s \<in> set (take k ss)" "ss_handle (rs_runtime s) = ?h" using Suc.prems(3) by auto
      then obtain l where "l < k" "ss_handle (rs_runtime (ss ! l)) = ?h" using k by (auto simp: in_set_conv_nth)
      with assms(3) k show False by (auto simp: distinct_conv_nth)
    qed
    then have find: "List.find (\<lambda>s. ss_handle (rs_runtime s) \<notin> set closed) (in_sessions fresh) = Some (ss ! k)"
      using fresh(3) d by simp
    have approved: "closure_of (approved_workspaces dg i) ?h = workspace_fingerprint dg (rs_runtime (ss ! k))"
    proof -
      have "map_of (approved_workspaces dg i) ?h = Some (workspace_fingerprint dg (rs_runtime (ss ! k)))"
        using assms(3,4) k by (intro map_of_is_SomeI) (auto simp: approved_workspaces_def comp_def simp flip: rev_map)
      then show ?thesis by (simp add: closure_of_def)
    qed
    have "set (?h # closed) = (\<lambda>s. ss_handle (rs_runtime s)) ` set (take (Suc k) ss)"
      using Suc.prems(3) k by (simp add: take_Suc_conv_app_nth)
    with Suc.IH [of "Suc k" "?h # closed"] Suc.prems k
    have "close_loop n dg lr getenv env opts i deadline (Suc k) (?h # closed) =
      (None, i\<lparr>in_sessions := [], in_closed_sessions := Suc (length closed) + (length ss - Suc k)\<rparr>,
       map (\<lambda>m. (m, ss_handle (rs_runtime (ss ! m)))) [Suc k..<length ss])" by simp
    moreover have "[k..<length ss] = k # [Suc k..<length ss]" using k by (simp add: upt_conv_Cons)
    moreover have "Suc (length closed) + (length ss - Suc k) = length closed + (length ss - k)" using k by simp
    ultimately show ?thesis
      using fresh d find approved assms(2) [OF k] by (simp add: close_loop.simps(2) Let_def logged_def)
  qed
qed simp

text \<open>
  C30: \<open>CloseAndWait\<close> always returns: it ends at the latest in the first round whose clock reading
  is past the deadline. And it gets there: if in every round the runtime shows the sessions of
  the first inspection less those already closed, closes succeed, the context lives and the
  clock stays within the deadline, then it closes them all, one per round, and succeeds.
\<close>

theorem close_returns:
  assumes "inspect_retirement dg lr getenv (ev_first env) target opts = Inr i"
  shows "((\<exists>m < rounds. ev_start env + close_timeout opts < ev_now env m) \<longrightarrow>
      fst (close_and_wait rounds dg lr getenv env target opts) \<noteq> Some OutOfRounds) \<and>
    (inspection_ready i \<and> \<not> in_runtime_unknown i \<and> rv_present (ev_first env) \<and> rv_name (ev_first env) \<noteq> ''none'' \<and>
      distinct (map (\<lambda>s. ss_handle (rs_runtime s)) (in_sessions i)) \<and> length (in_sessions i) < rounds \<and>
      (\<forall>m \<le> length (in_sessions i). \<exists>fresh. inspect_retirement dg lr getenv (ev_view env m) (in_target i) opts = Inr fresh \<and>
        inspection_ready fresh \<and> in_sessions fresh = drop m (in_sessions i)) \<and>
      (\<forall>m < length (in_sessions i). ev_now env m \<le> ev_start env + close_timeout opts \<and> \<not> ev_done env m \<and>
        \<not> ev_close_fails env m (ss_handle (rs_runtime (in_sessions i ! m)))) \<longrightarrow>
      close_and_wait rounds dg lr getenv env target opts =
        (None, i\<lparr>in_sessions := [], in_closed_sessions := length (in_sessions i)\<rparr>,
         map (\<lambda>m. (m, ss_handle (rs_runtime (in_sessions i ! m)))) [0..<length (in_sessions i)]))"
    (is "?ends \<and> (?ok \<longrightarrow> ?done)")
proof (intro conjI impI)
  assume "\<exists>m < rounds. ev_start env + close_timeout opts < ev_now env m"
  then show "fst (close_and_wait rounds dg lr getenv env target opts) \<noteq> Some OutOfRounds"
    using assms close_loop_ends [of 0 _ rounds] by (auto simp: close_and_wait_def)
next
  assume ok: ?ok
  then have "close_loop rounds dg lr getenv env opts i (ev_start env + close_timeout opts) 0 [] =
    (None, i\<lparr>in_sessions := [], in_closed_sessions := length ([]::string list) + (length (in_sessions i) - 0)\<rparr>,
     map (\<lambda>m. (m, ss_handle (rs_runtime (in_sessions i ! m)))) [0..<length (in_sessions i)])"
    by (intro close_loop_progress [where ss = "in_sessions i"]) auto
  with ok assms show ?done by (simp add: close_and_wait_def)
qed

end
