(* ===== verification/GitStatus.thy ===== *)
theory GitStatus
  imports Paths
begin

text \<open>
  \<open>internal/gitx/status.go\<close>, with \<open>nulLines\<close> of \<open>exec.go\<close> and the changed paths of
  \<open>transactions.go\<close>: what \<open>dev\<close> reads from \<open>git status\<close>, and the checkpoint commit that depends
  on it. Git's output and the modification times of files are parameters.
\<close>

section \<open>strings and strconv\<close>

function fields_from :: "string \<Rightarrow> string \<Rightarrow> string list" where
  \<comment> \<open>\<open>strings.Fields\<close>; \<open>cur\<close> is the field being read, last byte first\<close>
  "fields_from cur s =
    (case s of
       [] \<Rightarrow> if cur = [] then [] else [rev cur]
     | c # s' \<Rightarrow>
       (case List.find (\<lambda>w. w \<noteq> [] \<and> has_prefix s w) space_encodings of
          Some w \<Rightarrow> (if cur = [] then [] else [rev cur]) @ fields_from [] (drop (length w) s)
        | None \<Rightarrow> fields_from (c # cur) s'))"
  by pat_completeness auto
termination
  by (relation "measure (\<lambda>(cur, s). length s)") (auto simp: find_Some_iff has_prefix_iff)

declare fields_from.simps [simp del]

definition str_fields :: "string \<Rightarrow> string list" where
  "str_fields s = fields_from [] s"

fun split_n :: "nat \<Rightarrow> char \<Rightarrow> string \<Rightarrow> string list" where
  \<comment> \<open>\<open>strings.SplitN(s, sep, n)\<close> for a positive \<open>n\<close>\<close>
  "split_n 0 d s = []"
| "split_n (Suc 0) d s = [s]"
| "split_n (Suc (Suc n)) d s =
    (if d \<in> set s then takeWhile (\<lambda>c. c \<noteq> d) s # split_n (Suc n) d (drop 1 (dropWhile (\<lambda>c. c \<noteq> d) s)) else [s])"

definition trim_prefix :: "string \<Rightarrow> string \<Rightarrow> string" where
  "trim_prefix s p = (if has_prefix s p then drop (length p) s else s)"

text \<open>\<open>strconv.Atoi\<close> with its error ignored: 0 for a syntax error, the nearest \<open>int64\<close> out of range.\<close>

definition digits_value :: "string \<Rightarrow> int" where
  "digits_value ds = foldl (\<lambda>v d. 10 * v + int (byte d - 48)) 0 ds"

definition atoi :: "string \<Rightarrow> int" where
  "atoi s =
    (let neg = has_prefix s ''-'';
         ds = (if neg \<or> has_prefix s ''+'' then drop 1 s else s)
     in if ds = [] \<or> \<not> (\<forall>d \<in> set ds. is_digit d) then 0
        else if neg then max (- (2 ^ 63)) (- digits_value ds)
        else min (2 ^ 63 - 1) (digits_value ds))"

definition nul_lines :: "string \<Rightarrow> string list" where
  "nul_lines s =
    (let s = rev (dropWhile (\<lambda>c. c = CHR 0x00) (rev s)) in if s = [] then [] else split_on CHR 0x00 s)"

section \<open>Status\<close>

record git_status =
  gs_branch :: string
  gs_detached :: bool
  gs_upstream :: string
  gs_ahead :: int
  gs_behind :: int
  gs_changed :: nat
  gs_staged :: nat
  gs_unstaged :: nat
  gs_untracked :: nat
  gs_added :: nat
  gs_modified :: nat
  gs_deleted :: nat
  gs_renamed :: nat
  gs_latest :: gotime
  gs_conflicted :: nat

definition no_status :: git_status where
  "no_status = \<lparr>gs_branch = [], gs_detached = False, gs_upstream = [], gs_ahead = 0, gs_behind = 0, gs_changed = 0,
    gs_staged = 0, gs_unstaged = 0, gs_untracked = 0, gs_added = 0, gs_modified = 0, gs_deleted = 0, gs_renamed = 0,
    gs_latest = zero_time, gs_conflicted = 0\<rparr>"

definition status_dirty :: "git_status \<Rightarrow> bool" where
  "status_dirty s \<longleftrightarrow> 0 < gs_changed s"

definition status_published :: "git_status \<Rightarrow> bool" where
  "status_published s \<longleftrightarrow> gs_upstream s \<noteq> []"

definition status_synced :: "git_status \<Rightarrow> bool" where
  "status_synced s \<longleftrightarrow> status_published s \<and> gs_ahead s = 0 \<and> gs_behind s = 0"

definition count_part :: "string \<Rightarrow> nat \<Rightarrow> string \<Rightarrow> string list" where
  "count_part mark n name = (if 0 < n then [mark @ dec_of n @ name] else [])"

abbreviation (input) up_arrow :: string where "up_arrow \<equiv> [CHR 0xE2, CHR 0x87, CHR 0xA1]"
abbreviation (input) down_arrow :: string where "down_arrow \<equiv> [CHR 0xE2, CHR 0x87, CHR 0xA3]"

definition status_summary :: "git_status \<Rightarrow> string" where
  "status_summary s =
    (let parts =
       (if 0 < gs_ahead s \<and> 0 < gs_behind s
        then [[CHR 0xE2, CHR 0x87, CHR 0x95] @ up_arrow @ int_text (gs_ahead s) @ down_arrow @ int_text (gs_behind s)]
        else if 0 < gs_ahead s then [up_arrow @ int_text (gs_ahead s)]
        else if 0 < gs_behind s then [down_arrow @ int_text (gs_behind s)] else []) @
       count_part ''='' (gs_conflicted s) [] @ count_part ''+'' (gs_staged s) [] @
       count_part ''!'' (gs_unstaged s) [] @ count_part ''?'' (gs_untracked s) []
     in if parts = [] then (if status_published s then ''clean'' else ''local'') else join_str '' '' parts)"

definition status_breakdown :: "git_status \<Rightarrow> string" where
  "status_breakdown s =
    (if gs_changed s = 0 then ''0 changed paths''
     else dec_of (gs_changed s) @ '' changed paths ('' @
       join_str '', '' (count_part ''+'' (gs_staged s) '' staged'' @ count_part ''!'' (gs_unstaged s) '' unstaged'' @
         count_part ''?'' (gs_untracked s) '' untracked'' @ count_part ''='' (gs_conflicted s) '' conflicted'') @ '')'')"

definition status_type_breakdown :: "git_status \<Rightarrow> string" where
  "status_type_breakdown s =
    join_str '', '' (count_part [] (gs_added s) '' added'' @ count_part [] (gs_modified s) '' modified'' @
      count_part [] (gs_deleted s) '' deleted'' @ count_part [] (gs_renamed s) '' renamed/copied'')"

section \<open>Reading the records\<close>

definition parse_branch_header :: "string \<Rightarrow> git_status \<Rightarrow> git_status" where
  "parse_branch_header rec s =
    (case str_fields rec of
       f0 # f1 # f2 # rest \<Rightarrow>
         if f1 = ''branch.head'' then
           (if f2 = ''(detached)'' then s\<lparr>gs_detached := True\<rparr> else s\<lparr>gs_branch := f2\<rparr>)
         else if f1 = ''branch.upstream'' then s\<lparr>gs_upstream := f2\<rparr>
         else if f1 = ''branch.ab'' then
           (case rest of
              [] \<Rightarrow> s
            | f3 # _ \<Rightarrow> s\<lparr>gs_ahead := atoi (trim_prefix f2 ''+''), gs_behind := atoi (trim_prefix f3 ''-'')\<rparr>)
         else s
     | _ \<Rightarrow> s)"

definition status_path :: "string \<Rightarrow> string" where
  "status_path rec =
    (case rec of
       [] \<Rightarrow> []
     | c # _ \<Rightarrow>
       let fields = (if c = CHR ''1'' then 9 else if c = CHR ''2'' then 10 else if c = CHR ''u'' then 11 else 0) in
       if fields = 0 then []
       else let parts = split_n fields CHR '' '' rec
         in if length parts \<noteq> fields then [] else last parts)"

definition classify_change :: "char \<Rightarrow> git_status \<Rightarrow> git_status" where
  "classify_change code s =
    (if code = CHR ''A'' then s\<lparr>gs_added := gs_added s + 1\<rparr>
     else if code = CHR ''M'' \<or> code = CHR ''T'' then s\<lparr>gs_modified := gs_modified s + 1\<rparr>
     else if code = CHR ''D'' then s\<lparr>gs_deleted := gs_deleted s + 1\<rparr>
     else if code = CHR ''R'' \<or> code = CHR ''C'' then s\<lparr>gs_renamed := gs_renamed s + 1\<rparr>
     else s)"

definition update_latest_change :: "(string \<Rightarrow> gotime option) \<Rightarrow> string \<Rightarrow> string \<Rightarrow> git_status \<Rightarrow> git_status" where
  "update_latest_change mtime dir path s =
    (if path = [] then s
     else case mtime (path_join [dir, path]) of
       None \<Rightarrow> s
     | Some t \<Rightarrow> if instant (gs_latest s) < instant t then s\<lparr>gs_latest := t\<rparr> else s)"

definition status_record :: "(string \<Rightarrow> gotime option) \<Rightarrow> string \<Rightarrow> git_status \<Rightarrow> string \<Rightarrow> git_status" where
  "status_record mtime dir s rec =
    (case rec of
       [] \<Rightarrow> s
     | c # _ \<Rightarrow>
       if c = CHR ''#'' then parse_branch_header rec s
       else if c = CHR ''1'' \<or> c = CHR ''2'' then
         (case str_fields rec of
            f0 # (x # y # _) # _ \<Rightarrow>
              let s = s\<lparr>gs_changed := gs_changed s + 1\<rparr>;
                  s = (if x \<noteq> CHR ''.'' then s\<lparr>gs_staged := gs_staged s + 1\<rparr> else s);
                  s = (if y \<noteq> CHR ''.'' then s\<lparr>gs_unstaged := gs_unstaged s + 1\<rparr> else s)
              in update_latest_change mtime dir (status_path rec) (classify_change y (classify_change x s))
          | _ \<Rightarrow> s)
       else if c = CHR ''u'' then
         update_latest_change mtime dir (status_path rec)
           (s\<lparr>gs_changed := gs_changed s + 1, gs_conflicted := gs_conflicted s + 1\<rparr>)
       else if c = CHR ''?'' then
         update_latest_change mtime dir (trim_prefix rec ''? '')
           (s\<lparr>gs_changed := gs_changed s + 1, gs_untracked := gs_untracked s + 1\<rparr>)
       else s)"

definition status_from_output :: "(string \<Rightarrow> gotime option) \<Rightarrow> string \<Rightarrow> string \<Rightarrow> git_status" where
  "status_from_output mtime dir out = foldl (status_record mtime dir) no_status (nul_lines out)"

section \<open>Changed paths and the checkpoint commit\<close>

fun changed_fields :: "string list \<Rightarrow> string list" where
  "changed_fields [] = []"
| "changed_fields (entry # rest) =
    (if length entry < 4 then changed_fields rest
     else drop 3 entry #
       (case rest of
          [] \<Rightarrow> []
        | old # rest' \<Rightarrow>
            if hd entry = CHR ''R'' \<or> hd entry = CHR ''C'' then changed_fields rest' else changed_fields rest))"

definition changed_paths :: "string \<Rightarrow> string list" where
  "changed_paths out = changed_fields (split_on CHR 0x00 out)"

definition agent_artifact_prefixes :: "string list" where
  "agent_artifact_prefixes = [''.specstory/history/'', ''.claude/plans/'', ''.cursor/plans/'', ''.cursor/rules/'',
    ''.opencode/plans/'', ''.specify/'', ''.codex/'']"

definition is_agent_artifact :: "string \<Rightarrow> bool" where
  "is_agent_artifact path \<longleftrightarrow>
    (let path = trim_prefix path ''./''
     in (\<exists>p \<in> set agent_artifact_prefixes. has_prefix path p) \<or> path = ''.specstory/statistics.json'')"

definition agent_artifact_pathspecs :: "string list" where
  "agent_artifact_pathspecs = [''.specstory/history/**'', ''.specstory/statistics.json'', ''.claude/plans/**'',
    ''.cursor/plans/**'', ''.cursor/rules/**'', ''.opencode/plans/**'', ''.specify/**'', ''.codex/**'']"

text \<open>
  \<open>WipCommit\<close>: Git's answers to \<open>status\<close> in both formats (\<open>None\<close> is a failure), and whether it
  stages and commits. The last component lists the commands that change the repository.
\<close>

datatype wip_error = WipGitFailed | WipConflicted

definition wip_commit ::
  "(string \<Rightarrow> gotime option) \<Rightarrow> string option \<Rightarrow> string option \<Rightarrow> (string list \<Rightarrow> bool) \<Rightarrow> string \<Rightarrow> string \<Rightarrow>
   (wip_error + bool) \<times> string list list" where
  "wip_commit mtime status_out changed_out git_ok dir message =
    (case status_out of
       None \<Rightarrow> (Inl WipGitFailed, [])
     | Some out \<Rightarrow>
       let st = status_from_output mtime dir out in
       if \<not> status_dirty st then (Inr False, [])
       else if 0 < gs_conflicted st then (Inl WipConflicted, [])
       else
         (case changed_out of
            None \<Rightarrow> (Inl WipGitFailed, [])
          | Some changed \<Rightarrow>
            if \<forall>p \<in> set (changed_paths changed). is_agent_artifact p then (Inr False, [])
            else
              let add = [''add'', ''-A'', ''--'', ''.''] @ map (\<lambda>p. '':(exclude)'' @ p) agent_artifact_pathspecs;
                  commit = [''commit'', ''-m'', if message = [] then ''wip: checkpoint'' else message]
              in if \<not> git_ok add then (Inl WipGitFailed, [add])
                 else if \<not> git_ok commit then (Inl WipGitFailed, [add, commit])
                 else (Inr True, [add, commit])))"

section \<open>What Git prints\<close>

text \<open>
  The records of \<open>git status --porcelain=v2 --branch -z\<close>: a rename or copy is two of them, the
  second being the path it came from.
\<close>

datatype status_entry =
    EHeader string
  | EOrdinary char char string
  | ERename char char string string
  | EUnmerged string
  | EUntracked string
  | EIgnored string

fun entry_records :: "status_entry \<Rightarrow> string list" where
  "entry_records (EHeader h) = [''# '' @ h]"
| "entry_records (EOrdinary x y rest) = [''1 '' @ [x, y] @ '' '' @ rest]"
| "entry_records (ERename x y rest old) = [''2 '' @ [x, y] @ '' '' @ rest, old]"
| "entry_records (EUnmerged rest) = [''u '' @ rest]"
| "entry_records (EUntracked path) = [''? '' @ path]"
| "entry_records (EIgnored path) = [''! '' @ path]"

definition status_output :: "status_entry list \<Rightarrow> string" where
  "status_output es = concat (map (\<lambda>r. r @ [CHR 0x00]) (concat (map entry_records es)))"

definition space_heads :: "char list" where
  "space_heads = map hd space_encodings"

fun entry_ok :: "status_entry \<Rightarrow> bool" where
  "entry_ok (EOrdinary x y rest) \<longleftrightarrow> x \<notin> set space_heads \<and> y \<notin> set space_heads \<and> CHR 0x00 \<notin> {x, y} \<union> set rest"
| "entry_ok (ERename x y rest old) \<longleftrightarrow> x \<notin> set space_heads \<and> y \<notin> set space_heads \<and> CHR 0x00 \<notin> {x, y} \<union> set rest \<and>
    old \<noteq> [] \<and> CHR 0x00 \<notin> set old"
| "entry_ok (EHeader t) \<longleftrightarrow> CHR 0x00 \<notin> set t"
| "entry_ok (EUnmerged t) \<longleftrightarrow> CHR 0x00 \<notin> set t"
| "entry_ok (EUntracked t) \<longleftrightarrow> CHR 0x00 \<notin> set t"
| "entry_ok (EIgnored t) \<longleftrightarrow> CHR 0x00 \<notin> set t"

fun rename_source :: "status_entry \<Rightarrow> string" where
  "rename_source (ERename x y rest old) = old"
| "rename_source _ = []"

fun entry_changed :: "status_entry \<Rightarrow> bool" where
  "entry_changed (EHeader _) = False"
| "entry_changed (EIgnored _) = False"
| "entry_changed _ = True"

fun entry_staged :: "status_entry \<Rightarrow> bool" where
  "entry_staged (EOrdinary x y rest) = (x \<noteq> CHR ''.'')"
| "entry_staged (ERename x y rest old) = (x \<noteq> CHR ''.'')"
| "entry_staged _ = False"

fun entry_unstaged :: "status_entry \<Rightarrow> bool" where
  "entry_unstaged (EOrdinary x y rest) = (y \<noteq> CHR ''.'')"
| "entry_unstaged (ERename x y rest old) = (y \<noteq> CHR ''.'')"
| "entry_unstaged _ = False"

fun entry_unmerged :: "status_entry \<Rightarrow> bool" where
  "entry_unmerged (EUnmerged _) = True" | "entry_unmerged _ = False"

fun entry_untracked :: "status_entry \<Rightarrow> bool" where
  "entry_untracked (EUntracked _) = True" | "entry_untracked _ = False"

section \<open>The records come back\<close>

lemma split_terminated: "\<forall>r \<in> set rs. d \<notin> set r \<Longrightarrow> split_on d (concat (map (\<lambda>r. r @ [d]) rs)) = rs @ [[]]"
  by (induction rs) (auto simp: split_on_sep)

lemma nul_lines_records:
  assumes "\<forall>r \<in> set rs. r \<noteq> [] \<and> CHR 0x00 \<notin> set r"
  shows "nul_lines (concat (map (\<lambda>r. r @ [CHR 0x00]) rs)) = rs"
proof (cases rs rule: rev_cases)
  case (snoc qs r)
  let ?q = "concat (map (\<lambda>r. r @ [CHR 0x00]) qs)"
  have r: "r \<noteq> []" "CHR 0x00 \<notin> set r" using assms snoc by auto
  then have "last r \<noteq> CHR 0x00" using last_in_set by metis
  with r(1) have "dropWhile (\<lambda>c. c = CHR 0x00) (rev (?q @ r @ [CHR 0x00])) = rev (?q @ r)"
    by (cases r rule: rev_cases) auto
  moreover have "split_on CHR 0x00 (?q @ r) = rs"
  proof -
    have "split_on CHR 0x00 (concat (map (\<lambda>r. r @ [CHR 0x00]) qs) @ t) = qs @ split_on CHR 0x00 t"
      if "\<forall>r \<in> set qs. CHR 0x00 \<notin> set r" for t
      using that by (induction qs) (auto simp: split_on_sep)
    with assms snoc r(2) show ?thesis by (simp add: split_on_no_sep)
  qed
  ultimately show ?thesis using r(1) snoc by (simp add: nul_lines_def)
qed (simp add: nul_lines_def)

lemma entry_records_ok: "entry_ok e \<Longrightarrow> \<forall>r \<in> set (entry_records e). r \<noteq> [] \<and> CHR 0x00 \<notin> set r"
  by (cases e) auto

lemma nul_lines_output: "\<forall>e \<in> set es. entry_ok e \<Longrightarrow> nul_lines (status_output es) = concat (map entry_records es)"
  unfolding status_output_def by (rule nul_lines_records) (use entry_records_ok in auto)

lemma no_space_here: "c \<notin> set space_heads \<Longrightarrow> List.find (\<lambda>w. w \<noteq> [] \<and> has_prefix (c # s) w) space_encodings = None"
  by (auto simp: space_heads_def space_encodings_def)

lemma fields_plain: "c \<notin> set space_heads \<Longrightarrow> fields_from cur (c # s) = fields_from (c # cur) s"
proof -
  assume "c \<notin> set space_heads"
  note none = no_space_here [OF this, of s]
  show ?thesis by (subst fields_from.simps) (simp only: list.case none option.case)
qed

lemma fields_space: "fields_from cur (CHR '' '' # s) = (if cur = [] then [] else [rev cur]) @ fields_from [] s"
  by (subst fields_from.simps) (simp add: space_encodings_def)

lemma fields_record:
  assumes "x \<notin> set space_heads" "y \<notin> set space_heads" "c \<notin> set space_heads"
  shows "str_fields (c # CHR '' '' # x # y # CHR '' '' # rest) = [c] # [x, y] # fields_from [] rest"
  using assms by (simp add: str_fields_def fields_plain fields_space)

lemma digit_heads: "CHR ''1'' \<notin> set space_heads" "CHR ''2'' \<notin> set space_heads"
  by (simp_all add: space_heads_def space_encodings_def)

section \<open>What the counters count\<close>

definition rec_codes :: "string \<Rightarrow> (char \<times> char) option" where
  "rec_codes r = (if r \<noteq> [] \<and> (hd r = CHR ''1'' \<or> hd r = CHR ''2'')
    then (case str_fields r of f0 # (x # y # _) # _ \<Rightarrow> Some (x, y) | _ \<Rightarrow> None) else None)"

definition rec_is :: "char \<Rightarrow> string \<Rightarrow> bool" where
  "rec_is c r \<longleftrightarrow> r \<noteq> [] \<and> hd r = c"

lemma counters_stay:
  "gs_changed (parse_branch_header r s) = gs_changed s" "gs_staged (parse_branch_header r s) = gs_staged s"
  "gs_unstaged (parse_branch_header r s) = gs_unstaged s" "gs_untracked (parse_branch_header r s) = gs_untracked s"
  "gs_conflicted (parse_branch_header r s) = gs_conflicted s"
  "gs_changed (classify_change c s) = gs_changed s" "gs_staged (classify_change c s) = gs_staged s"
  "gs_unstaged (classify_change c s) = gs_unstaged s" "gs_untracked (classify_change c s) = gs_untracked s"
  "gs_conflicted (classify_change c s) = gs_conflicted s"
  "gs_changed (update_latest_change mt d p s) = gs_changed s" "gs_staged (update_latest_change mt d p s) = gs_staged s"
  "gs_unstaged (update_latest_change mt d p s) = gs_unstaged s" "gs_untracked (update_latest_change mt d p s) = gs_untracked s"
  "gs_conflicted (update_latest_change mt d p s) = gs_conflicted s"
  by (simp_all add: parse_branch_header_def classify_change_def update_latest_change_def split: list.splits option.splits)

definition rec_change :: "string \<Rightarrow> bool" where
  "rec_change r \<longleftrightarrow> rec_codes r \<noteq> None \<or> rec_is CHR ''u'' r \<or> rec_is CHR ''?'' r"

lemma status_record_counts:
  "gs_changed (status_record mt d s r) = gs_changed s + (if rec_change r then 1 else 0)"
  "gs_staged (status_record mt d s r) =
     gs_staged s + (if (case rec_codes r of Some (x, y) \<Rightarrow> x \<noteq> CHR ''.'' | None \<Rightarrow> False) then 1 else 0)"
  "gs_unstaged (status_record mt d s r) =
     gs_unstaged s + (if (case rec_codes r of Some (x, y) \<Rightarrow> y \<noteq> CHR ''.'' | None \<Rightarrow> False) then 1 else 0)"
  "gs_untracked (status_record mt d s r) = gs_untracked s + (if rec_is CHR ''?'' r then 1 else 0)"
  "gs_conflicted (status_record mt d s r) = gs_conflicted s + (if rec_is CHR ''u'' r then 1 else 0)"
  by (auto simp: status_record_def rec_change_def rec_codes_def rec_is_def counters_stay Let_def split: list.splits)

lemma foldl_count:
  assumes "\<And>s r. g (f s r) = g s + (if P r then 1 else (0::nat))"
  shows "g (foldl f s rs) = g s + length (filter P rs)"
  by (induction rs arbitrary: s) (simp_all add: assms)

lemma status_folds:
  "gs_changed (foldl (status_record mt d) s rs) = gs_changed s + length (filter rec_change rs)"
  "gs_staged (foldl (status_record mt d) s rs) = gs_staged s +
     length (filter (\<lambda>r. case rec_codes r of Some (x, y) \<Rightarrow> x \<noteq> CHR ''.'' | None \<Rightarrow> False) rs)"
  "gs_unstaged (foldl (status_record mt d) s rs) = gs_unstaged s +
     length (filter (\<lambda>r. case rec_codes r of Some (x, y) \<Rightarrow> y \<noteq> CHR ''.'' | None \<Rightarrow> False) rs)"
  "gs_untracked (foldl (status_record mt d) s rs) = gs_untracked s + length (filter (rec_is CHR ''?'') rs)"
  "gs_conflicted (foldl (status_record mt d) s rs) = gs_conflicted s + length (filter (rec_is CHR ''u'') rs)"
  by (rule foldl_count, rule status_record_counts)+

lemma count_entries:
  assumes "\<And>e. e \<in> set es \<Longrightarrow> length (filter P (entry_records e)) = (if Q e then 1 else 0) + (if R e then 1 else 0)"
  shows "length (filter P (concat (map entry_records es))) = length (filter Q es) + length (filter R es)"
  using assms by (induction es) auto

lemma entry_codes:
  assumes "entry_ok e"
  shows "map rec_codes (entry_records e) =
    (case e of EOrdinary x y rest \<Rightarrow> [Some (x, y)] | ERename x y rest old \<Rightarrow> [Some (x, y), rec_codes old] | _ \<Rightarrow> [None])"
  using assms fields_record digit_heads by (cases e) (auto simp: rec_codes_def)

definition misleading :: "status_entry \<Rightarrow> bool" where
  "misleading e \<longleftrightarrow> rename_source e \<noteq> [] \<and> hd (rename_source e) \<in> set ''12u?#''"

text \<open>
  From the records Git prints for any list of entries, in any order, the status counts each of
  them once: every changed path in \<open>Changed\<close>, and those staged, unstaged, untracked and unmerged
  in their counters, provided the old path of no rename begins with a record's code.
\<close>

lemma status_counts:
  assumes "\<forall>e \<in> set es. entry_ok e \<and> \<not> misleading e"
  shows "let s = status_from_output mtime dir (status_output es) in
    gs_changed s = length (filter entry_changed es) \<and>
    gs_staged s = length (filter entry_staged es) \<and> gs_unstaged s = length (filter entry_unstaged es) \<and>
    gs_untracked s = length (filter entry_untracked es) \<and> gs_conflicted s = length (filter entry_unmerged es) \<and>
    (status_dirty s \<longleftrightarrow> (\<exists>e \<in> set es. entry_changed e))"
proof -
  define s where "s = status_from_output mtime dir (status_output es)"
  have rs: "s = foldl (status_record mtime dir) no_status (concat (map entry_records es))"
    using assms(1) by (simp add: s_def status_from_output_def nul_lines_output)
  have old: "rec_codes old = None \<and> \<not> rec_is CHR ''u'' old \<and> \<not> rec_is CHR ''?'' old"
    if "ERename x y rest old \<in> set es" for x y rest old
    using assms(1) that by (fastforce simp: misleading_def rec_codes_def rec_is_def)
  have codes: "map rec_codes (entry_records e) =
    (case e of EOrdinary x y rest \<Rightarrow> [Some (x, y)] | ERename x y rest old \<Rightarrow> [Some (x, y), None] | _ \<Rightarrow> [None])"
    if "e \<in> set es" for e
    using assms(1) that entry_codes [of e] old by (cases e) auto
  have count: "length (filter P (concat (map entry_records es))) = length (filter Q es)"
    if "\<And>e. e \<in> set es \<Longrightarrow> length (filter P (entry_records e)) = (if Q e then 1 else 0)" for P Q
    using count_entries [of es P Q "\<lambda>_. False"] that by simp
  have zero: "gs_changed no_status = 0" "gs_staged no_status = 0" "gs_unstaged no_status = 0"
    "gs_untracked no_status = 0" "gs_conflicted no_status = 0" by (simp_all add: no_status_def)
  have "gs_changed s = length (filter entry_changed es)"
    unfolding rs status_folds(1) zero add_0
  proof (rule count)
    show "length (filter rec_change (entry_records e)) = (if entry_changed e then 1 else 0)" if "e \<in> set es" for e
      using codes [OF that] old that by (cases e) (auto simp: rec_change_def rec_is_def)
  qed
  moreover have "gs_staged s = length (filter entry_staged es)"
    unfolding rs status_folds(2) zero add_0
  proof (rule count)
    show "length (filter (\<lambda>r. case rec_codes r of Some (x, y) \<Rightarrow> x \<noteq> CHR ''.'' | None \<Rightarrow> False) (entry_records e)) =
      (if entry_staged e then 1 else 0)" if "e \<in> set es" for e
      using codes [OF that] by (cases e) auto
  qed
  moreover have "gs_unstaged s = length (filter entry_unstaged es)"
    unfolding rs status_folds(3) zero add_0
  proof (rule count)
    show "length (filter (\<lambda>r. case rec_codes r of Some (x, y) \<Rightarrow> y \<noteq> CHR ''.'' | None \<Rightarrow> False) (entry_records e)) =
      (if entry_unstaged e then 1 else 0)" if "e \<in> set es" for e
      using codes [OF that] by (cases e) auto
  qed
  moreover have "gs_untracked s = length (filter entry_untracked es)"
    unfolding rs status_folds(4) zero add_0
  proof (rule count)
    show "length (filter (rec_is CHR ''?'') (entry_records e)) = (if entry_untracked e then 1 else 0)" if "e \<in> set es" for e
      using old that by (cases e) (auto simp: rec_is_def)
  qed
  moreover have "gs_conflicted s = length (filter entry_unmerged es)"
    unfolding rs status_folds(5) zero add_0
  proof (rule count)
    show "length (filter (rec_is CHR ''u'') (entry_records e)) = (if entry_unmerged e then 1 else 0)" if "e \<in> set es" for e
      using old that by (cases e) (auto simp: rec_is_def)
  qed
  ultimately show ?thesis unfolding Let_def s_def [symmetric] by (auto simp: status_dirty_def filter_empty_conv)
qed

text \<open>
  C37: The old path of a rename is read as a record of its own: every rename whose old path begins
  with a \<open>u\<close> counts as one unmerged path, so a checkout without conflicts is reported conflicted
  and the checkpoint commit refuses it.
\<close>

theorem status_misreads_rename:
  assumes "\<forall>e \<in> set es. entry_ok e"
  shows "gs_conflicted (status_from_output mtime dir (status_output es)) = length (filter entry_unmerged es) +
      length (filter (\<lambda>e. rename_source e \<noteq> [] \<and> hd (rename_source e) = CHR ''u'') es) \<and>
    ((\<exists>e \<in> set es. rename_source e \<noteq> [] \<and> hd (rename_source e) = CHR ''u'') \<longrightarrow>
      wip_commit mtime (Some (status_output es)) changed git_ok dir message = (Inl WipConflicted, []))"
proof -
  define s where "s = status_from_output mtime dir (status_output es)"
  have rs: "s = foldl (status_record mtime dir) no_status (concat (map entry_records es))"
    using assms(1) by (simp add: s_def status_from_output_def nul_lines_output)
  have "gs_conflicted s = length (filter entry_unmerged es) +
      length (filter (\<lambda>e. rename_source e \<noteq> [] \<and> hd (rename_source e) = CHR ''u'') es)"
    unfolding rs status_folds(5)
  proof (simp add: no_status_def, rule count_entries)
    show "length (filter (rec_is CHR ''u'') (entry_records e)) =
        (if entry_unmerged e then 1 else 0) + (if rename_source e \<noteq> [] \<and> hd (rename_source e) = CHR ''u'' then 1 else 0)" for e
      by (cases e) (auto simp: rec_is_def)
  qed
  moreover have "wip_commit mtime (Some (status_output es)) changed git_ok dir message = (Inl WipConflicted, [])"
    if e: "e \<in> set es" "rename_source e \<noteq> []" "hd (rename_source e) = CHR ''u''" for e
  proof -
    have "0 < gs_conflicted s" using calculation e by (auto simp: filter_empty_conv)
    moreover have "gs_conflicted s' \<le> gs_changed s' \<Longrightarrow>
        gs_conflicted (foldl (status_record mtime dir) s' rs) \<le> gs_changed (foldl (status_record mtime dir) s' rs)" for s' rs
      by (induction rs arbitrary: s') (auto simp: status_record_counts rec_change_def)
    then have "gs_conflicted s \<le> gs_changed s" unfolding rs by (simp add: no_status_def)
    ultimately show ?thesis by (simp add: wip_commit_def s_def status_dirty_def Let_def)
  qed
  ultimately show ?thesis unfolding s_def by blast
qed

section \<open>Concrete outputs\<close>

definition demo_entries :: "status_entry list" where
  "demo_entries = [EHeader ''branch.head main'', EOrdinary CHR ''M'' CHR ''.'' ''N... 100644 a.go'',
    ERename CHR ''R'' CHR ''M'' ''N... 100644 R100 new.go'' ''old.go'', EUntracked ''notes.txt'']"

lemma status_counts_witness:
  "gs_changed (status_from_output (\<lambda>_. None) ''/r'' (status_output demo_entries)) = 3"
  using status_counts [of demo_entries "\<lambda>_. None" "''/r''"]
  by (simp add: demo_entries_def Let_def misleading_def space_heads_def space_encodings_def)

theorem status_misreads_rename_witness:
  "wip_commit (\<lambda>_. None) (Some (status_output [ERename CHR ''R'' CHR ''.'' ''N... R100 helpers.go'' ''utils.go'']))
    None (\<lambda>_. True) ''/r'' [] = (Inl WipConflicted, [])"
  using status_misreads_rename [of "[ERename CHR ''R'' CHR ''.'' ''N... R100 helpers.go'' ''utils.go'']" "\<lambda>_. None" "''/r''"]
  by (simp add: space_heads_def space_encodings_def)

end
