(* ===== verification/GitRepo.thy ===== *)
theory GitRepo
  imports GitStatus
begin

text \<open>
  \<open>internal/gitx/repo.go\<close>, \<open>worktree.go\<close> and \<open>InProgress\<close> of \<open>transactions.go\<close>: which repository a
  directory belongs to and which worktrees Git registers for it. A \<open>git_view\<close> holds what the Git
  program prints, without the newlines at its end, and what \<open>os.Stat\<close> and \<open>os.SameFile\<close> answer.
\<close>

datatype git_answer = GitOut string | GitNotRepo | GitFailed

datatype stat_answer = StatThere | StatMissing | StatError

record git_view =
  gv_run :: "string \<Rightarrow> string list \<Rightarrow> git_answer"
  gv_stat :: "string \<Rightarrow> stat_answer"
  gv_same_file :: "string \<Rightarrow> string \<Rightarrow> bool"
  gv_modules :: "string \<Rightarrow> (string \<times> bool) list option"
  gv_fs :: file_system

datatype git_error =
    ErrNotARepo
  | GitRunFailed
  | GitCanonical path_error
  | GitMainCheckout
  | ErrWorktreeNotFound
  | ErrWorktreeAmbiguous
  | GitNoMainRecord
  | GitStatFailed
  | GitSubmodules
  | GitCallerInside

section \<open>Discover\<close>

record git_repo =
  gr_root :: string
  gr_git_dir :: string
  gr_common_dir :: string
  gr_name :: string
  gr_linked :: bool
  gr_main_root :: string
  gr_bare :: bool

definition git_run :: "git_view \<Rightarrow> string \<Rightarrow> string list \<Rightarrow> git_error + string" where
  "git_run v dir args = (case gv_run v dir args of GitOut out \<Rightarrow> Inr out | GitNotRepo \<Rightarrow> Inl ErrNotARepo | GitFailed \<Rightarrow> Inl GitRunFailed)"

definition git_lines :: "string \<Rightarrow> string list" where
  "git_lines s = filter (\<lambda>l. l \<noteq> []) (split_on CHR 0x0A s)"

definition canonical_field :: "git_view \<Rightarrow> string \<Rightarrow> git_error + string" where
  "canonical_field v p =
    (if p = [] then Inr [] else case canonical (gv_fs v) p of Inl e \<Rightarrow> Inl (GitCanonical e) | Inr q \<Rightarrow> Inr q)"

definition same_canonical_path :: "git_view \<Rightarrow> string \<Rightarrow> string \<Rightarrow> bool" where
  "same_canonical_path v a b \<longleftrightarrow>
    a = b \<or> gv_stat v a = StatThere \<and> gv_stat v b = StatThere \<and> gv_same_file v a b"

text \<open>The three or four lines of \<open>rev-parse\<close>: root, Git directory, common directory, bare.\<close>

definition rev_parse_fields :: "string list \<Rightarrow> (string \<times> string \<times> string \<times> bool) option" where
  "rev_parse_fields f =
    (case f of
       [root, git_dir, common, bare] \<Rightarrow> Some (root, git_dir, common, bare = ''true'')
     | [git_dir, common, bare] \<Rightarrow> Some ([], git_dir, common, bare = ''true'')
     | _ \<Rightarrow> None)"

text \<open>The main checkout of a linked worktree.\<close>

definition linked_main_root :: "git_view \<Rightarrow> string \<Rightarrow> string \<Rightarrow> git_error + string" where
  "linked_main_root v dir common =
    (let configured = (case git_run v dir [''config'', ''--file'', path_join [common, ''config''], ''--get'', ''core.worktree''] of
           Inr c \<Rightarrow> c | Inl _ \<Rightarrow> []);
         main_root = (if configured = [] then path_dir common
           else path_clean (if is_abs configured then configured else path_join [common, configured]))
     in case git_run v main_root [''rev-parse'', ''--path-format=absolute'', ''--show-toplevel'', ''--git-common-dir''] of
          Inl _ \<Rightarrow> Inl GitMainCheckout
        | Inr probe \<Rightarrow>
          (case git_lines probe of
             [toplevel, probed_common] \<Rightarrow>
               if \<not> same_canonical_path v probed_common common then Inl GitMainCheckout
               else canonical_field v toplevel
           | _ \<Rightarrow> Inl GitMainCheckout))"

definition bare_name :: "string \<Rightarrow> string" where
  "bare_name main_root =
    (let name = trim_suffix (filepath_base main_root) ''.git''
     in if has_prefix name ''.'' then filepath_base (path_dir main_root) else name)"

definition discover_args :: "string list" where
  "discover_args = [''rev-parse'', ''--path-format=absolute'', ''--show-toplevel'', ''--git-dir'', ''--git-common-dir'',
    ''--is-bare-repository'']"

definition discover_fields :: "git_view \<Rightarrow> string \<times> string \<times> string \<times> bool \<Rightarrow> git_error + string \<times> string \<times> string \<times> bool" where
  "discover_fields v parsed =
    (case parsed of (root, git_dir, common, bare) \<Rightarrow>
      (case canonical_field v root of Inl e \<Rightarrow> Inl e | Inr root \<Rightarrow>
      (case canonical_field v git_dir of Inl e \<Rightarrow> Inl e | Inr git_dir \<Rightarrow>
      (case canonical_field v common of Inl e \<Rightarrow> Inl e | Inr common \<Rightarrow> Inr (root, git_dir, common, bare)))))"

definition discover :: "git_view \<Rightarrow> string \<Rightarrow> git_error + git_repo" where
  "discover v dir =
    (case git_run v dir discover_args of
       Inl e \<Rightarrow> Inl e
     | Inr out \<Rightarrow>
       (case rev_parse_fields (git_lines out) of
          None \<Rightarrow> Inl ErrNotARepo
        | Some parsed \<Rightarrow>
          (case discover_fields v parsed of
             Inl e \<Rightarrow> Inl e
           | Inr (root, git_dir, common, bare) \<Rightarrow>
             (case (if bare then Inr (trim_suffix common ''/'')
                    else if git_dir = common then Inr root
                    else linked_main_root v dir common) of
                Inl e \<Rightarrow> Inl e
              | Inr main_root \<Rightarrow>
                Inr \<lparr>gr_root = root, gr_git_dir = git_dir, gr_common_dir = common,
                  gr_name = (if bare then bare_name main_root else filepath_base main_root),
                  gr_linked = (root \<noteq> [] \<and> git_dir \<noteq> common), gr_main_root = main_root, gr_bare = bare\<rparr>))))"

definition is_repo :: "git_view \<Rightarrow> string \<Rightarrow> bool" where
  "is_repo v dir = (case gv_run v dir [''rev-parse'', ''--git-dir''] of GitOut _ \<Rightarrow> True | _ \<Rightarrow> False)"

definition branch_exists :: "git_view \<Rightarrow> string \<Rightarrow> string \<Rightarrow> bool" where
  "branch_exists v dir branch \<longleftrightarrow> branch \<noteq> [] \<and>
    (case gv_run v dir [''show-ref'', ''--verify'', ''--quiet'', ''refs/heads/'' @ branch] of GitOut _ \<Rightarrow> True | _ \<Rightarrow> False)"

definition default_branch :: "git_view \<Rightarrow> string \<Rightarrow> string" where
  "default_branch v dir =
    (case gv_run v dir [''symbolic-ref'', ''--short'', ''refs/remotes/origin/HEAD''] of
       GitOut out \<Rightarrow>
         if slash \<in> set out then drop 1 (dropWhile (\<lambda>c. c \<noteq> slash) out)
         else (case List.find (branch_exists v dir) [''main'', ''master'', ''trunk'', ''develop''] of None \<Rightarrow> [] | Some b \<Rightarrow> b)
     | _ \<Rightarrow> (case List.find (branch_exists v dir) [''main'', ''master'', ''trunk'', ''develop''] of None \<Rightarrow> [] | Some b \<Rightarrow> b))"

text \<open>\<open>InProgress\<close>: the first state file of an unfinished operation.\<close>

definition progress_candidates :: "string list" where
  "progress_candidates = [''MERGE_HEAD'', ''CHERRY_PICK_HEAD'', ''REVERT_HEAD'', ''BISECT_LOG'', ''rebase-merge'',
    ''rebase-apply'', ''sequencer'']"

fun first_progress :: "git_view \<Rightarrow> (string \<times> string) list \<Rightarrow> git_error + string option" where
  "first_progress v [] = Inr None"
| "first_progress v ((candidate, root) # rest) =
    (case gv_stat v (path_join [root, candidate]) of
       StatThere \<Rightarrow> Inr (Some candidate)
     | StatError \<Rightarrow> Inl GitStatFailed
     | StatMissing \<Rightarrow> first_progress v rest)"

definition in_progress :: "git_view \<Rightarrow> string \<Rightarrow> git_error + string option" where
  "in_progress v dir =
    (case discover v dir of
       Inl e \<Rightarrow> Inl e
     | Inr r \<Rightarrow> first_progress v
         (concat (map (\<lambda>c. [(c, gr_git_dir r), (c, gr_common_dir r)]) progress_candidates)))"

section \<open>Worktrees\<close>

record worktree =
  wt_path :: string
  wt_head :: string
  wt_branch :: string
  wt_detached :: bool
  wt_bare :: bool
  wt_locked :: bool
  wt_locked_reason :: string
  wt_prunable :: bool
  wt_prunable_reason :: string
  wt_main :: bool

definition str_cut :: "char \<Rightarrow> string \<Rightarrow> string \<times> string" where
  \<comment> \<open>\<open>strings.Cut\<close> without its flag\<close>
  "str_cut d s = (takeWhile (\<lambda>c. c \<noteq> d) s, drop 1 (dropWhile (\<lambda>c. c \<noteq> d) s))"

definition fresh_worktree :: "string \<Rightarrow> bool \<Rightarrow> worktree" where
  "fresh_worktree path main = \<lparr>wt_path = path, wt_head = [], wt_branch = [], wt_detached = False, wt_bare = False,
    wt_locked = False, wt_locked_reason = [], wt_prunable = False, wt_prunable_reason = [], wt_main = main\<rparr>"

definition worktree_attribute :: "string \<Rightarrow> string \<Rightarrow> worktree \<Rightarrow> worktree" where
  "worktree_attribute key val w =
    (if key = ''HEAD'' then w\<lparr>wt_head := val\<rparr>
     else if key = ''branch'' then w\<lparr>wt_branch := trim_prefix val ''refs/heads/''\<rparr>
     else if key = ''detached'' then w\<lparr>wt_detached := True\<rparr>
     else if key = ''bare'' then w\<lparr>wt_bare := True\<rparr>
     else if key = ''locked'' then w\<lparr>wt_locked := True, wt_locked_reason := val\<rparr>
     else if key = ''prunable'' then w\<lparr>wt_prunable := True, wt_prunable_reason := val\<rparr>
     else w)"

text \<open>The loop over the lines; \<open>list\<close> in order, \<open>cur\<close> the record being read.\<close>

definition flush_worktree :: "worktree list \<Rightarrow> worktree option \<Rightarrow> worktree list" where
  "flush_worktree list cur = list @ (case cur of None \<Rightarrow> [] | Some w \<Rightarrow> [w])"

fun parse_worktrees :: "file_system \<Rightarrow> worktree list \<Rightarrow> worktree option \<Rightarrow> string list \<Rightarrow> git_error + worktree list" where
  "parse_worktrees fs list cur [] = Inr (flush_worktree list cur)"
| "parse_worktrees fs list cur (line # rest) =
    (if line = [] then parse_worktrees fs (flush_worktree list cur) None rest
     else let (key, val) = str_cut CHR '' '' line
       in if key = ''worktree'' then
            (let list = flush_worktree list cur
             in case canonical fs val of
                  Inl e \<Rightarrow> Inl (GitCanonical e)
                | Inr path \<Rightarrow> parse_worktrees fs list (Some (fresh_worktree path (list = []))) rest)
          else parse_worktrees fs list (map_option (worktree_attribute key val) cur) rest)"

definition worktrees :: "git_view \<Rightarrow> string \<Rightarrow> git_error + worktree list" where
  "worktrees v dir =
    (case git_run v dir [''worktree'', ''list'', ''--porcelain''] of
       Inl e \<Rightarrow> Inl e
     | Inr out \<Rightarrow>
       (case parse_worktrees (gv_fs v) [] None (split_on CHR 0x0A out) of
          Inl e \<Rightarrow> Inl e
        | Inr [] \<Rightarrow> Inr []
        | Inr (w # ws) \<Rightarrow>
            if wt_bare w then Inr (w # ws)
            else (case discover v dir of Inl e \<Rightarrow> Inl e | Inr r \<Rightarrow> Inr (w\<lparr>wt_path := gr_main_root r\<rparr> # ws))))"

definition worktree_for :: "git_view \<Rightarrow> string \<Rightarrow> string \<Rightarrow> git_error + worktree option" where
  "worktree_for v dir branch =
    (case worktrees v dir of Inl e \<Rightarrow> Inl e | Inr ws \<Rightarrow> Inr (List.find (\<lambda>w. wt_branch w = branch) ws))"

record registered_worktree =
  rw_worktree :: worktree
  rw_repository_path :: string
  rw_common_dir :: string
  rw_path :: string

fun match_worktrees :: "git_view \<Rightarrow> string \<Rightarrow> worktree list \<Rightarrow> string \<Rightarrow> (worktree \<times> string) list \<Rightarrow>
    git_error + string \<times> (worktree \<times> string) list" where
  "match_worktrees v path [] repository found = Inr (repository, found)"
| "match_worktrees v path (w # ws) repository found =
    (case canonical (gv_fs v) (wt_path w) of
       Inl e \<Rightarrow> Inl (GitCanonical e)
     | Inr canonical_path \<Rightarrow>
         match_worktrees v path ws (if wt_main w then canonical_path else repository)
           (if same_canonical_path v path canonical_path then found @ [(w, canonical_path)] else found))"

definition resolve_worktree_in :: "git_view \<Rightarrow> worktree list \<Rightarrow> string \<Rightarrow> string \<Rightarrow> git_error + registered_worktree" where
  \<comment> \<open>\<open>resolveRegisteredWorktree\<close>\<close>
  "resolve_worktree_in v ws common exact =
    (case canonical (gv_fs v) exact of Inl e \<Rightarrow> Inl (GitCanonical e) | Inr path \<Rightarrow>
    (case canonical (gv_fs v) common of Inl e \<Rightarrow> Inl (GitCanonical e) | Inr canonical_common \<Rightarrow>
    (case match_worktrees v path ws [] [] of
       Inl e \<Rightarrow> Inl e
     | Inr (repository, found) \<Rightarrow>
       (case found of
          [] \<Rightarrow> Inl ErrWorktreeNotFound
        | [(w, p)] \<Rightarrow>
            if repository = [] then Inl GitNoMainRecord
            else Inr \<lparr>rw_worktree = w, rw_repository_path = repository, rw_common_dir = canonical_common, rw_path = p\<rparr>
        | _ \<Rightarrow> Inl ErrWorktreeAmbiguous))))"

definition resolve_registered_worktree :: "git_view \<Rightarrow> string \<Rightarrow> string \<Rightarrow> git_error + registered_worktree" where
  "resolve_registered_worktree v repo_path exact =
    (case worktrees v repo_path of Inl e \<Rightarrow> Inl e | Inr ws \<Rightarrow>
    (case git_run v repo_path [''rev-parse'', ''--path-format=absolute'', ''--git-common-dir''] of
       Inl e \<Rightarrow> Inl e | Inr common \<Rightarrow> resolve_worktree_in v ws common exact))"

definition is_linked_worktree :: "registered_worktree \<Rightarrow> bool" where
  "is_linked_worktree w \<longleftrightarrow> \<not> wt_main (rw_worktree w) \<and> \<not> wt_bare (rw_worktree w)"

text \<open>
  \<open>RemoveWorktree\<close> up to the command it runs: \<open>gv_modules\<close> is the graph of submodules, each with
  whether it is anything but an uninitialized one.
\<close>

definition remove_worktree_guard :: "git_view \<Rightarrow> string \<Rightarrow> git_error option" where
  "remove_worktree_guard v path =
    (if gv_stat v path \<noteq> StatThere then None
     else case gv_modules v path of
       None \<Rightarrow> Some GitSubmodules
     | Some nodes \<Rightarrow>
       if \<exists>n \<in> set nodes. snd n then Some GitSubmodules
       else (case discover v path of
         Inl _ \<Rightarrow> None
       | Inr r \<Rightarrow> fail_if (fs_lstat (gv_fs v) (path_join [gr_git_dir r, ''modules'']) \<in> {LstatLink, LstatOther}) GitSubmodules))"

definition remove_worktree_args :: "string \<Rightarrow> bool \<Rightarrow> string list" where
  "remove_worktree_args path force = [''worktree'', ''remove''] @ (if force then [''--force''] else []) @ [path]"

definition remove_worktree :: "git_view \<Rightarrow> string \<Rightarrow> string \<Rightarrow> bool \<Rightarrow> git_error option" where
  "remove_worktree v dir path force =
    (case remove_worktree_guard v path of
       Some e \<Rightarrow> Some e
     | None \<Rightarrow>
       (case fs_cwd (gv_fs v) of
          None \<Rightarrow> Some GitRunFailed
        | Some cwd \<Rightarrow>
          (case contains_path (gv_fs v) path cwd of
             Inl e \<Rightarrow> Some (GitCanonical e)
           | Inr True \<Rightarrow> Some GitCallerInside
           | Inr False \<Rightarrow>
             (case git_run v dir (remove_worktree_args path force) of Inl e \<Rightarrow> Some e | Inr _ \<Rightarrow> None))))"

definition prune_worktrees :: "git_view \<Rightarrow> string \<Rightarrow> git_error option" where
  "prune_worktrees v dir = (case git_run v dir [''worktree'', ''prune''] of Inl e \<Rightarrow> Some e | Inr _ \<Rightarrow> None)"

section \<open>Worktrees read back\<close>

text \<open>A worktree as \<open>git worktree list --porcelain\<close> prints it, a line per attribute.\<close>

definition worktree_lines :: "worktree \<Rightarrow> string list" where
  "worktree_lines w =
    [''worktree '' @ wt_path w] @
    (if wt_bare w then [''bare''] else []) @
    (if wt_head w = [] then [] else [''HEAD '' @ wt_head w]) @
    (if wt_branch w = [] then [] else [''branch refs/heads/'' @ wt_branch w]) @
    (if wt_detached w then [''detached''] else []) @
    (if wt_locked w then [if wt_locked_reason w = [] then ''locked'' else ''locked '' @ wt_locked_reason w] else []) @
    (if wt_prunable w then [if wt_prunable_reason w = [] then ''prunable'' else ''prunable '' @ wt_prunable_reason w] else []) @
    [[]]"

definition worktree_ok :: "file_system \<Rightarrow> worktree \<Rightarrow> bool" where
  \<comment> \<open>canonical path, values on one line, a reason only with its flag\<close>
  "worktree_ok fs w \<longleftrightarrow> canonical fs (wt_path w) = Inr (wt_path w) \<and>
    (\<forall>t \<in> {wt_path w, wt_head w, wt_branch w, wt_locked_reason w, wt_prunable_reason w}. CHR 0x0A \<notin> set t) \<and>
    (wt_locked_reason w \<noteq> [] \<longrightarrow> wt_locked w) \<and> (wt_prunable_reason w \<noteq> [] \<longrightarrow> wt_prunable w)"

definition worktree_output :: "worktree list \<Rightarrow> string" where
  "worktree_output ws = join_str [CHR 0x0A] (concat (map worktree_lines ws))"

lemma str_cut_at: "d \<notin> set k \<Longrightarrow> str_cut d (k @ d # v) = (k, v)"
proof -
  assume "d \<notin> set k"
  then have "\<forall>c \<in> set k. c \<noteq> d" by blast
  then show ?thesis by (simp add: str_cut_def takeWhile_append2 dropWhile_append2)
qed

lemma str_cut_none: "d \<notin> set k \<Longrightarrow> str_cut d k = (k, [])"
proof -
  assume "d \<notin> set k"
  then have "\<forall>c \<in> set k. c \<noteq> d" by blast
  then show ?thesis by (simp add: str_cut_def takeWhile_eq_all_conv [THEN iffD2] dropWhile_eq_Nil_conv [THEN iffD2])
qed

lemma attribute_line:
  assumes "CHR '' '' \<notin> set key" "key \<noteq> ''worktree''"
  shows "parse_worktrees fs list (Some w) ((key @ CHR '' '' # val) # rest) =
      parse_worktrees fs list (Some (worktree_attribute key val w)) rest"
    and "key \<noteq> [] \<Longrightarrow> parse_worktrees fs list (Some w) (key # rest) =
      parse_worktrees fs list (Some (worktree_attribute key [] w)) rest"
  using assms by (simp_all add: str_cut_at str_cut_none)

lemma path_line:
  "canonical fs p = Inr p \<Longrightarrow> parse_worktrees fs list None ((''worktree '' @ p) # rest) =
    parse_worktrees fs list (Some (fresh_worktree p (list = []))) rest"
  using str_cut_at [of "CHR '' ''" "''worktree''" p] by (simp add: flush_worktree_def)

lemma parse_worktree:
  assumes "worktree_ok fs w" and "wt_main w = (list = [])"
  shows "parse_worktrees fs list None (worktree_lines w @ rest) = parse_worktrees fs (list @ [w]) None rest"
proof -
  define w0 where "w0 = fresh_worktree (wt_path w) (list = [])"
  define w1 where "w1 = (if wt_bare w then w0\<lparr>wt_bare := True\<rparr> else w0)"
  define w2 where "w2 = (if wt_head w = [] then w1 else w1\<lparr>wt_head := wt_head w\<rparr>)"
  define w3 where "w3 = (if wt_branch w = [] then w2 else w2\<lparr>wt_branch := wt_branch w\<rparr>)"
  define w4 where "w4 = (if wt_detached w then w3\<lparr>wt_detached := True\<rparr> else w3)"
  define w5 where "w5 = (if wt_locked w then w4\<lparr>wt_locked := True, wt_locked_reason := wt_locked_reason w\<rparr> else w4)"
  define w6 where "w6 = (if wt_prunable w then w5\<lparr>wt_prunable := True, wt_prunable_reason := wt_prunable_reason w\<rparr> else w5)"
  note attr = attribute_line [where fs = fs and list = list]
  have s0: "parse_worktrees fs list None ([''worktree '' @ wt_path w] @ r) = parse_worktrees fs list (Some w0) r" for r
    using path_line assms(1) by (simp add: worktree_ok_def w0_def)
  have s1: "parse_worktrees fs list (Some w0) ((if wt_bare w then [''bare''] else []) @ r) = parse_worktrees fs list (Some w1) r" for r
    using attr(2) [of "''bare''" w0 r] by (simp add: w1_def worktree_attribute_def)
  have s2: "parse_worktrees fs list (Some w1) ((if wt_head w = [] then [] else [''HEAD '' @ wt_head w]) @ r) =
      parse_worktrees fs list (Some w2) r" for r
    using attr(1) [of "''HEAD''" w1 "wt_head w" r] by (simp add: w2_def worktree_attribute_def)
  have s3: "parse_worktrees fs list (Some w2) ((if wt_branch w = [] then [] else [''branch refs/heads/'' @ wt_branch w]) @ r) =
      parse_worktrees fs list (Some w3) r" for r
    using attr(1) [of "''branch''" w2 "''refs/heads/'' @ wt_branch w" r]
    by (simp add: w3_def worktree_attribute_def trim_prefix_def)
  have s4: "parse_worktrees fs list (Some w3) ((if wt_detached w then [''detached''] else []) @ r) =
      parse_worktrees fs list (Some w4) r" for r
    using attr(2) [of "''detached''" w3 r] by (simp add: w4_def worktree_attribute_def)
  have s5: "parse_worktrees fs list (Some w4) ((if wt_locked w
        then [if wt_locked_reason w = [] then ''locked'' else ''locked '' @ wt_locked_reason w] else []) @ r) =
      parse_worktrees fs list (Some w5) r" for r
    using attr(2) [of "''locked''" w4 r] attr(1) [of "''locked''" w4 "wt_locked_reason w" r]
    by (simp add: w5_def worktree_attribute_def)
  have s6: "parse_worktrees fs list (Some w5) ((if wt_prunable w
        then [if wt_prunable_reason w = [] then ''prunable'' else ''prunable '' @ wt_prunable_reason w] else []) @ r) =
      parse_worktrees fs list (Some w6) r" for r
    using attr(2) [of "''prunable''" w5 r] attr(1) [of "''prunable''" w5 "wt_prunable_reason w" r]
    by (simp add: w6_def worktree_attribute_def)
  have "w6 = w"
    using assms by (cases w) (auto simp: w6_def w5_def w4_def w3_def w2_def w1_def w0_def fresh_worktree_def worktree_ok_def)
  then show ?thesis
    unfolding worktree_lines_def append_assoc s0 s1 s2 s3 s4 s5 s6 by (simp add: flush_worktree_def)
qed

text \<open>Only the first worktree is the main one.\<close>

fun main_first :: "worktree list \<Rightarrow> bool" where
  "main_first [] = True"
| "main_first (w # ws) \<longleftrightarrow> wt_main w \<and> (\<forall>x \<in> set ws. \<not> wt_main x)"

lemma parse_linked:
  assumes "\<forall>w \<in> set ws. worktree_ok fs w \<and> \<not> wt_main w" and "list \<noteq> []"
  shows "parse_worktrees fs list None (concat (map worktree_lines ws) @ rest) = parse_worktrees fs (list @ ws) None rest"
  using assms
proof (induction ws arbitrary: list)
  case (Cons w ws)
  with parse_worktree [of fs w list "concat (map worktree_lines ws) @ rest"] show ?case by simp
qed simp

lemma parse_output:
  assumes "\<forall>w \<in> set ws. worktree_ok fs w" and "main_first ws"
  shows "parse_worktrees fs [] None (concat (map worktree_lines ws) @ rest) = parse_worktrees fs ws None rest"
proof (cases ws)
  case (Cons w ws')
  have "parse_worktrees fs [] None (worktree_lines w @ concat (map worktree_lines ws') @ rest) =
      parse_worktrees fs [w] None (concat (map worktree_lines ws') @ rest)"
    using assms Cons by (subst parse_worktree) simp_all
  also have "\<dots> = parse_worktrees fs ws None rest" using assms Cons by (subst parse_linked) auto
  finally show ?thesis using Cons by simp
qed simp

lemma worktree_lines_plain: "worktree_ok fs w \<Longrightarrow> \<forall>l \<in> set (worktree_lines w). CHR 0x0A \<notin> set l"
  by (auto simp: worktree_ok_def worktree_lines_def)

lemma parse_last_blank: "parse_worktrees fs list cur (ls @ [[]]) = parse_worktrees fs list cur ls"
  by (induction fs list cur ls rule: parse_worktrees.induct) (auto simp: flush_worktree_def Let_def split: prod.splits sum.splits)

lemma trimmed_lines:
  assumes "ls \<noteq> []" and "last ls \<noteq> []" and "\<forall>l \<in> set ls. c \<notin> set l"
  shows "split_on c (rev (dropWhile (\<lambda>x. x = c) (rev (join_str [c] (ls @ [[]]))))) = ls"
proof -
  have body: "join_str [c] (ls @ [[]]) = join_str [c] ls @ [c]"
    using join_str_append [OF assms(1), of "[[]]" "[c]"] by simp
  have "join_str [c] ls \<noteq> [] \<and> last (join_str [c] ls) = last (last ls)"
    using assms(1,2)
  proof (induction "[c]" ls rule: join_str.induct)
    case (3 s s' ss)
    then show ?case by auto
  qed simp_all
  then obtain b l where e: "join_str [c] ls = b @ [l]" and "l = last (last ls)" by (metis append_butlast_last_id)
  with assms have "l \<noteq> c" by (metis last_in_set)
  with e body have "rev (dropWhile (\<lambda>x. x = c) (rev (join_str [c] (ls @ [[]])))) = join_str [c] ls" by simp
  then show ?thesis using split_on_join [OF assms(1,3)] by simp
qed

lemma worktree_lines_shape:
  "\<exists>ls. worktree_lines w = ls @ [[]] \<and> ls \<noteq> [] \<and> last ls \<noteq> []"
  by (intro exI [of _ "butlast (worktree_lines w)"]) (auto simp: worktree_lines_def)

lemma parse_printed:
  assumes ok: "\<forall>w \<in> set ws. worktree_ok fs w" and main_one: "main_first ws" and some: "ws \<noteq> []"
  shows "parse_worktrees fs [] None (split_on CHR 0x0A (rev (dropWhile (\<lambda>c. c = CHR 0x0A) (rev (worktree_output ws))))) = Inr ws"
proof -
  obtain vs w where ws: "ws = vs @ [w]" using some by (metis rev_exhaust)
  obtain ls where ls: "worktree_lines w = ls @ [[]]" "ls \<noteq> []" "last ls \<noteq> []" using worktree_lines_shape by blast
  define all where "all = concat (map worktree_lines vs) @ ls"
  have out: "worktree_output ws = join_str [CHR 0x0A] (all @ [[]])" by (simp add: worktree_output_def ws ls all_def)
  have "\<forall>l \<in> set (concat (map worktree_lines ws)). CHR 0x0A \<notin> set l" using ok worktree_lines_plain by fastforce
  then have "\<forall>l \<in> set all. CHR 0x0A \<notin> set l" by (simp add: ws ls all_def)
  then have "split_on CHR 0x0A (rev (dropWhile (\<lambda>c. c = CHR 0x0A) (rev (worktree_output ws)))) = all"
    unfolding out using ls by (intro trimmed_lines) (simp_all add: all_def)
  moreover have "parse_worktrees fs [] None (all @ [[]]) = Inr ws"
    using parse_output [OF ok main_one, of "[]"] by (simp add: all_def ws ls flush_worktree_def)
  ultimately show ?thesis using parse_last_blank [of fs "[]" None all] by simp
qed


text \<open>A clone at \<open>/w\<close> with one linked worktree, locked for a reason.\<close>

definition two_worktrees :: "worktree list" where
  "two_worktrees =
    [(fresh_worktree ''/w'' True)\<lparr>wt_head := ''c0'', wt_branch := ''main''\<rparr>,
     (fresh_worktree ''/w/r'' False)\<lparr>wt_head := ''c1'', wt_branch := ''feature/a'', wt_locked := True, wt_locked_reason := ''on usb''\<rparr>]"

definition two_worktrees_view :: git_view where
  "two_worktrees_view = \<lparr>
    gv_run = (\<lambda>dir args.
      if args = discover_args
      then GitOut (join_str [CHR 0x0A] [''/w'', ''/w/.git'', ''/w/.git'', ''false''])
      else GitOut (rev (dropWhile (\<lambda>c. c = CHR 0x0A) (rev (worktree_output two_worktrees))))),
    gv_stat = (\<lambda>_. StatThere), gv_same_file = (\<lambda>a b. a = b), gv_modules = (\<lambda>_. Some []), gv_fs = tree_fs small_dirs\<rparr>"

lemma two_worktrees_discovered: "map_option gr_main_root (case discover two_worktrees_view ''/w'' of Inl e \<Rightarrow> None | Inr r \<Rightarrow> Some r) = Some ''/w''"
  by code_simp

lemma two_worktrees_ok: "\<forall>w \<in> set two_worktrees. worktree_ok (tree_fs small_dirs) w"
  by code_simp


end
