(* ===== verification/RetireService.thy ===== *)
theory RetireService
  imports RetireClose GitRepo TaskStore
begin

text \<open>
  \<open>internal/retire/service.go\<close>: the whole retirement of a checkout. It validates the target, closes
  the sessions that work in it, validates again, inspects again, and only then removes the linked
  worktree, deletes the merged branch and deletes the task. A \<open>service_view\<close> is what Git, the file
  system and the task directory answer during one stage; every stage of \<open>Retire\<close> has its own, so
  anything may have changed between two of them.
\<close>

section \<open>Targets and results\<close>

record retire_target =
  rt_task :: string
  rt_repo :: string
  rt_checkout :: string
  rt_branch :: string
  rt_base :: string
  rt_linked :: bool

record retire_result =
  rr_closed :: nat
  rr_removed_worktree :: bool
  rr_deleted_branch :: bool
  rr_deleted_task :: bool

record service_view =
  sv_git :: git_view
  sv_mtime :: "string \<Rightarrow> gotime option"
  sv_dir :: task_dir
  sv_os :: task_os

datatype service_error =
    TargetIncomplete
  | TargetPath path_error
  | NoBaseBranch
  | NeedsTaskStore
  | TaskUnreadable task_error
  | TaskNotDone string
  | TaskMoved
  | TaskBaseChanged
  | OperationUnknown git_error
  | OperationActive string
  | CheckoutStatFailed
  | DetachedWorktree
  | BranchGone
  | BranchNotContained
  | WorktreesUnknown git_error
  | MainCheckout
  | WorktreeOnOtherBranch string
  | PruneFailed git_error
  | OrphanedPath
  | CheckoutStatusFailed git_error
  | CheckoutDirty
  | CloseRefused close_error
  | FinalInspectionFailed retire_error
  | RuntimeReclaimed
  | RemoveFailed git_error
  | BranchDeleteFailed git_error
  | TaskDeleteFailed task_error

datatype retire_event =
    PruneRun string
  | SessionClose string
  | WorktreeRemove string string
  | BranchDelete string string
  | TaskDelete string

section \<open>validateTaskIdentity and validateTarget\<close>

definition task_checkout :: "task \<Rightarrow> string" where
  "task_checkout t = (if effective_mode t = mode_worktree \<and> t_worktree t \<noteq> [] then t_worktree t else t_repo_path t)"

definition validate_task_identity :: "task_lib \<Rightarrow> bool \<Rightarrow> service_view \<Rightarrow> retire_target \<Rightarrow> service_error option" where
  "validate_task_identity lib has_tasks v target =
    (if rt_task target = [] then None
     else if \<not> has_tasks then Some NeedsTaskStore
     else
       (case store_Get lib (sv_os v) (sv_dir v) (rt_task target) of
          Inl e \<Rightarrow> Some (TaskUnreadable e)
        | Inr t \<Rightarrow>
          if t_state t \<noteq> state_done then Some (TaskNotDone (t_state t))
          else
            (case canonical (gv_fs (sv_git v)) (t_repo_path t) of
               Inl e \<Rightarrow> Some (TargetPath e)
             | Inr repo \<Rightarrow>
               (case canonical (gv_fs (sv_git v)) (task_checkout t) of
                  Inl e \<Rightarrow> Some (TargetPath e)
                | Inr checkout \<Rightarrow>
                  if repo \<noteq> rt_repo target \<or> checkout \<noteq> rt_checkout target \<or> t_branch t \<noteq> rt_branch target
                  then Some TaskMoved
                  else fail_if (t_base t \<noteq> [] \<and> t_base t \<noteq> rt_base target) TaskBaseChanged))))"

definition status_args :: "string list" where
  "status_args = [''status'', ''--porcelain=v2'', ''--branch'', ''--untracked-files=normal'', ''-z'']"

definition checkout_dirty :: "service_view \<Rightarrow> string \<Rightarrow> git_error + bool" where
  \<comment> \<open>\<open>wtDirty\<close> with \<open>StatusOf\<close>\<close>
  "checkout_dirty v path =
    (case git_run (sv_git v) path status_args of
       Inl e \<Rightarrow> Inl e
     | Inr out \<Rightarrow> Inr (status_dirty (status_from_output (sv_mtime v) path out)))"

definition no_operation :: "service_view \<Rightarrow> string \<Rightarrow> service_error option" where
  "no_operation v checkout =
    (case gv_stat (sv_git v) checkout of
       StatThere \<Rightarrow>
         (case in_progress (sv_git v) checkout of
            Inl e \<Rightarrow> Some (OperationUnknown e)
          | Inr (Some operation) \<Rightarrow> Some (OperationActive operation)
          | Inr None \<Rightarrow> None)
     | StatMissing \<Rightarrow> None
     | StatError \<Rightarrow> Some CheckoutStatFailed)"

definition branch_integrated :: "git_view \<Rightarrow> retire_target \<Rightarrow> service_error option" where
  "branch_integrated v target =
    (if rt_branch target \<noteq> [] \<and> rt_branch target \<noteq> rt_base target then
       if \<not> branch_exists v (rt_repo target) (rt_branch target) then fail_if (rt_task target = []) BranchGone
       else (case git_run v (rt_repo target) [''merge-base'', ''--is-ancestor'', rt_branch target, rt_base target] of
               Inl _ \<Rightarrow> Some BranchNotContained | Inr _ \<Rightarrow> None)
     else None)"

definition registered_at :: "git_view \<Rightarrow> string \<Rightarrow> worktree list \<Rightarrow> worktree option" where
  \<comment> \<open>the loop over the worktrees; a path that cannot be resolved is passed over\<close>
  "registered_at v checkout ws = List.find (\<lambda>w. canonical (gv_fs v) (wt_path w) = Inr checkout) ws"

definition validate_linked :: "service_view \<Rightarrow> retire_target \<Rightarrow> (service_error + retire_target) \<times> retire_event list" where
  \<comment> \<open>the part of \<open>validateTarget\<close> for a linked worktree\<close>
  "validate_linked v target =
    (let g = sv_git v in
     case worktrees g (rt_repo target) of
       Inl e \<Rightarrow> (Inl (WorktreesUnknown e), [])
     | Inr ws \<Rightarrow>
       (case registered_at g (rt_checkout target) ws of
          Some w \<Rightarrow>
            if wt_main w then (Inl MainCheckout, [])
            else if wt_branch w \<noteq> rt_branch target then (Inl (WorktreeOnOtherBranch (wt_branch w)), [])
            else
              (case checkout_dirty v (rt_checkout target) of
                 Inl e \<Rightarrow> (Inl (CheckoutStatusFailed e), [])
               | Inr dirty \<Rightarrow> (if dirty then Inl CheckoutDirty else Inr target, []))
        | None \<Rightarrow>
            if gv_stat g (rt_checkout target) = StatMissing then
              (case prune_worktrees g (rt_repo target) of
                 Some e \<Rightarrow> (Inl (PruneFailed e), [PruneRun (rt_repo target)])
               | None \<Rightarrow> (Inr (target\<lparr>rt_linked := False\<rparr>), [PruneRun (rt_repo target)]))
            else (Inl OrphanedPath, [])))"

definition validate_target ::
  "task_lib \<Rightarrow> bool \<Rightarrow> service_view \<Rightarrow> retire_target \<Rightarrow> (service_error + retire_target) \<times> retire_event list" where
  "validate_target lib has_tasks v target =
    (let fs = gv_fs (sv_git v) in
     if rt_repo target = [] \<or> rt_checkout target = [] then (Inl TargetIncomplete, [])
     else case canonical fs (rt_repo target) of Inl e \<Rightarrow> (Inl (TargetPath e), []) | Inr repo \<Rightarrow>
     (case canonical fs (rt_checkout target) of Inl e \<Rightarrow> (Inl (TargetPath e), []) | Inr checkout \<Rightarrow>
      let target = target\<lparr>rt_repo := repo, rt_checkout := checkout\<rparr> in
      if rt_base target = [] then (Inl NoBaseBranch, [])
      else case validate_task_identity lib has_tasks v target of Some e \<Rightarrow> (Inl e, []) | None \<Rightarrow>
      (case no_operation v checkout of Some e \<Rightarrow> (Inl e, []) | None \<Rightarrow>
       if rt_linked target \<and> rt_branch target = [] then (Inl DetachedWorktree, [])
       else case branch_integrated (sv_git v) target of Some e \<Rightarrow> (Inl e, []) | None \<Rightarrow>
       if \<not> rt_linked target then (Inr target, []) else validate_linked v target)))"

section \<open>Retire\<close>

text \<open>One view for each stage; the sessions are closed in the environment of \<open>CloseAndWait\<close>.\<close>

record retire_world =
  wd_first :: service_view
  wd_close :: close_environment
  wd_second :: service_view
  wd_runtime :: runtime_view
  wd_remove :: service_view
  wd_branch :: service_view
  wd_tasks :: service_view

type_synonym retire_outcome = "service_error option \<times> retire_result \<times> retire_event list \<times> task_dir"

definition no_result :: retire_result where
  "no_result = \<lparr>rr_closed = 0, rr_removed_worktree = False, rr_deleted_branch = False, rr_deleted_task = False\<rparr>"

definition after_events :: "retire_event list \<Rightarrow> retire_outcome \<Rightarrow> retire_outcome" where
  "after_events es r = (case r of (err, result, events, d) \<Rightarrow> (err, result, es @ events, d))"

definition retire_task :: "task_lib \<Rightarrow> bool \<Rightarrow> service_view \<Rightarrow> retire_target \<Rightarrow> retire_result \<Rightarrow> retire_outcome" where
  "retire_task lib has_tasks v target result =
    (if rt_task target \<noteq> [] \<and> has_tasks then
       (case validate_task_identity lib has_tasks v target of
          Some e \<Rightarrow> (Some e, result, [], sv_dir v)
        | None \<Rightarrow>
          (case store_delete (sv_os v) (rt_task target) (sv_dir v) of
             (Some e, d) \<Rightarrow> (Some (TaskDeleteFailed e), result, [TaskDelete (rt_task target)], d)
           | (None, d) \<Rightarrow> (None, result\<lparr>rr_deleted_task := True\<rparr>, [TaskDelete (rt_task target)], d)))
     else (None, result, [], sv_dir v))"

definition retire_branch :: "task_lib \<Rightarrow> bool \<Rightarrow> retire_world \<Rightarrow> bool \<Rightarrow> retire_target \<Rightarrow> retire_result \<Rightarrow> retire_outcome" where
  "retire_branch lib has_tasks world delete_branch target result =
    (let v = sv_git (wd_branch world); rest = retire_task lib has_tasks (wd_tasks world) target in
     if delete_branch \<and> rt_branch target \<noteq> [] \<and> rt_branch target \<noteq> rt_base target \<and>
       branch_exists v (rt_repo target) (rt_branch target) then
       (case git_run v (rt_repo target) [''branch'', ''-d'', rt_branch target] of
          Inl e \<Rightarrow> (Some (BranchDeleteFailed e), result, [BranchDelete (rt_repo target) (rt_branch target)], sv_dir (wd_tasks world))
        | Inr _ \<Rightarrow> after_events [BranchDelete (rt_repo target) (rt_branch target)] (rest (result\<lparr>rr_deleted_branch := True\<rparr>)))
     else rest result)"

definition retire_worktree :: "task_lib \<Rightarrow> bool \<Rightarrow> retire_world \<Rightarrow> bool \<Rightarrow> retire_target \<Rightarrow> retire_result \<Rightarrow> retire_outcome" where
  "retire_worktree lib has_tasks world delete_branch target result =
    (let rest = retire_branch lib has_tasks world delete_branch target in
     if rt_linked target then
       (case remove_worktree (sv_git (wd_remove world)) (rt_repo target) (rt_checkout target) False of
          Some e \<Rightarrow> (Some (RemoveFailed e), result, [WorktreeRemove (rt_repo target) (rt_checkout target)], sv_dir (wd_tasks world))
        | None \<Rightarrow> after_events [WorktreeRemove (rt_repo target) (rt_checkout target)]
            (rest (result\<lparr>rr_removed_worktree := True\<rparr>)))
     else rest result)"

text \<open>The second half, after the sessions were closed.\<close>

definition retire_closed ::
  "digests \<Rightarrow> (nat \<Rightarrow> nat) \<Rightarrow> (string \<Rightarrow> string) \<Rightarrow> task_lib \<Rightarrow> bool \<Rightarrow> retire_world \<Rightarrow> close_options \<Rightarrow> bool \<Rightarrow>
   retire_target \<Rightarrow> retire_result \<Rightarrow> retire_outcome" where
  "retire_closed dg lr getenv lib has_tasks world safety delete_branch target result =
    (case validate_target lib has_tasks (wd_second world) target of
       (Inl e, pruned) \<Rightarrow> (Some e, result, pruned, sv_dir (wd_tasks world))
     | (Inr target, pruned) \<Rightarrow>
       after_events pruned
         (case inspect_retirement dg lr getenv (wd_runtime world) (rt_checkout target) safety of
            Inl e \<Rightarrow> (Some (FinalInspectionFailed e), result, [], sv_dir (wd_tasks world))
          | Inr i \<Rightarrow>
            if \<not> inspection_ready i \<or> in_sessions i \<noteq> [] then (Some RuntimeReclaimed, result, [], sv_dir (wd_tasks world))
            else retire_worktree lib has_tasks world delete_branch target result))"

definition retire_checkout ::
  "nat \<Rightarrow> digests \<Rightarrow> (nat \<Rightarrow> nat) \<Rightarrow> (string \<Rightarrow> string) \<Rightarrow> task_lib \<Rightarrow> bool \<Rightarrow> retire_world \<Rightarrow> close_options \<Rightarrow> bool \<Rightarrow>
   retire_target \<Rightarrow> retire_outcome" where
  "retire_checkout rounds dg lr getenv lib has_tasks world safety delete_branch target =
    (case validate_target lib has_tasks (wd_first world) target of
       (Inl e, pruned) \<Rightarrow> (Some e, no_result, pruned, sv_dir (wd_tasks world))
     | (Inr target, pruned) \<Rightarrow>
       (case close_and_wait rounds dg lr getenv (wd_close world) (rt_checkout target) safety of
          (err, i, closes) \<Rightarrow>
            after_events (pruned @ map (\<lambda>c. SessionClose (snd c)) closes)
              (case err of
                 Some e \<Rightarrow> (Some (CloseRefused e), no_result, [], sv_dir (wd_tasks world))
               | None \<Rightarrow> retire_closed dg lr getenv lib has_tasks world safety delete_branch target
                   (no_result\<lparr>rr_closed := in_closed_sessions i\<rparr>))))"

section \<open>What a validated target is\<close>

definition branch_merged :: "git_view \<Rightarrow> retire_target \<Rightarrow> bool" where
  "branch_merged v t \<longleftrightarrow> rt_branch t \<in> {[], rt_base t} \<or>
    (if branch_exists v (rt_repo t) (rt_branch t)
     then \<exists>out. gv_run v (rt_repo t) [''merge-base'', ''--is-ancestor'', rt_branch t, rt_base t] = GitOut out
     else rt_task t \<noteq> [])"

definition linked_clean :: "service_view \<Rightarrow> retire_target \<Rightarrow> bool" where
  "linked_clean v t \<longleftrightarrow> rt_branch t \<noteq> [] \<and>
    (\<exists>ws w. worktrees (sv_git v) (rt_repo t) = Inr ws \<and> w \<in> set ws \<and>
      canonical (gv_fs (sv_git v)) (wt_path w) = Inr (rt_checkout t) \<and> \<not> wt_main w \<and> wt_branch w = rt_branch t) \<and>
    checkout_dirty v (rt_checkout t) = Inr False"

definition target_proved :: "task_lib \<Rightarrow> bool \<Rightarrow> service_view \<Rightarrow> retire_target \<Rightarrow> bool" where
  "target_proved lib has_tasks v t \<longleftrightarrow>
    rt_base t \<noteq> [] \<and> validate_task_identity lib has_tasks v t = None \<and>
    no_operation v (rt_checkout t) = None \<and> branch_merged (sv_git v) t \<and> (rt_linked t \<longrightarrow> linked_clean v t)"

lemma identity_linked [simp]:
  "validate_task_identity lib has_tasks v (t\<lparr>rt_linked := b\<rparr>) = validate_task_identity lib has_tasks v t"
  by (simp add: validate_task_identity_def split: sum.splits)

lemma branch_integrated_merged: "branch_integrated v t = None \<Longrightarrow> branch_merged v t"
  by (auto simp: branch_integrated_def branch_merged_def git_run_def fail_if_def split: if_splits sum.splits git_answer.splits)

lemma validate_linked_cases:
  assumes "validate_linked v t = (Inr t', pruned)" and "rt_branch t \<noteq> []"
  shows "t' = t \<and> linked_clean v t \<and> pruned = [] \<or>
    t' = t\<lparr>rt_linked := False\<rparr> \<and> gv_stat (sv_git v) (rt_checkout t) = StatMissing \<and> pruned = [PruneRun (rt_repo t)]"
  using assms
  by (auto simp: validate_linked_def Let_def linked_clean_def registered_at_def find_Some_iff2 find_Some_iff
      split: sum.splits option.splits if_splits) (metis nth_mem)+

lemma validate_target_proved:
  assumes "validate_target lib has_tasks v t = (Inr t', pruned)"
  shows "target_proved lib has_tasks v t' \<and> rt_task t' = rt_task t \<and> rt_branch t' = rt_branch t \<and> rt_base t' = rt_base t \<and>
    canonical (gv_fs (sv_git v)) (rt_repo t) = Inr (rt_repo t') \<and> canonical (gv_fs (sv_git v)) (rt_checkout t) = Inr (rt_checkout t') \<and>
    (rt_linked t' \<longrightarrow> rt_linked t)"
proof -
  obtain repo checkout where c: "canonical (gv_fs (sv_git v)) (rt_repo t) = Inr repo"
      "canonical (gv_fs (sv_git v)) (rt_checkout t) = Inr checkout"
    using assms by (auto simp: validate_target_def Let_def split: sum.splits if_splits)
  define t0 where "t0 = t\<lparr>rt_repo := repo, rt_checkout := checkout\<rparr>"
  have facts: "rt_base t0 \<noteq> []" "validate_task_identity lib has_tasks v t0 = None" "no_operation v (rt_checkout t0) = None"
    "\<not> (rt_linked t0 \<and> rt_branch t0 = [])" "branch_integrated (sv_git v) t0 = None"
    "(if \<not> rt_linked t0 then (Inr t0, []) else validate_linked v t0) = (Inr t', pruned)"
    using assms c unfolding validate_target_def Let_def t0_def by (auto split: option.splits if_splits)
  then have "t' = t0 \<and> (rt_linked t0 \<longrightarrow> linked_clean v t0) \<or> t' = t0\<lparr>rt_linked := False\<rparr>"
    using validate_linked_cases [of v t0 t' pruned] by (auto split: if_splits)
  moreover have "branch_merged (sv_git v) t0" using facts branch_integrated_merged by blast
  then have "branch_merged (sv_git v) (t0\<lparr>rt_linked := False\<rparr>)" by (simp add: branch_merged_def split: if_splits)
  ultimately show ?thesis
    using facts c \<open>branch_merged (sv_git v) t0\<close> by (auto simp: target_proved_def t0_def)
qed

section \<open>The stages\<close>

lemma retire_task_stage:
  assumes "retire_task lib has_tasks v t r = (err, r', events, d)"
  shows "err \<noteq> None \<and> events = [] \<and> r' = r \<and> d = sv_dir v \<or>
    err = None \<and> (rt_task t = [] \<or> \<not> has_tasks) \<and> events = [] \<and> r' = r \<and> d = sv_dir v \<or>
    rt_task t \<noteq> [] \<and> has_tasks \<and> validate_task_identity lib has_tasks v t = None \<and> events = [TaskDelete (rt_task t)] \<and>
      d = snd (store_delete (sv_os v) (rt_task t) (sv_dir v)) \<and>
      (err = None \<longleftrightarrow> fst (store_delete (sv_os v) (rt_task t) (sv_dir v)) = None) \<and>
      r' = (if err = None then r\<lparr>rr_deleted_task := True\<rparr> else r)"
  using assms
  by (cases "validate_task_identity lib has_tasks v t";
      cases "store_delete (sv_os v) (rt_task t) (sv_dir v)" rule: prod.exhaust)
    (auto simp: retire_task_def split: option.splits if_splits, metis)

lemma identity_done:
  assumes "validate_task_identity lib has_tasks v t = None" and "rt_task t \<noteq> []"
  shows "\<exists>tk. store_Get lib (sv_os v) (sv_dir v) (rt_task t) = Inr tk \<and> t_state tk = state_done \<and>
    t_branch tk = rt_branch t \<and> canonical (gv_fs (sv_git v)) (t_repo_path tk) = Inr (rt_repo t) \<and>
    canonical (gv_fs (sv_git v)) (task_checkout tk) = Inr (rt_checkout t)"
  using assms by (auto simp: validate_task_identity_def split: sum.splits if_splits)

definition stage_ok :: "retire_world \<Rightarrow> bool \<Rightarrow> task_lib \<Rightarrow> bool \<Rightarrow> retire_target \<Rightarrow> retire_result \<Rightarrow> retire_event \<Rightarrow> bool" where
  \<comment> \<open>what must hold, beyond the second validation, when a destructive command is run\<close>
  "stage_ok world delete_branch lib has_tasks t result e \<longleftrightarrow>
    (case e of
       WorktreeRemove repo path \<Rightarrow> rt_linked t \<and> repo = rt_repo t \<and> path = rt_checkout t
     | BranchDelete repo b \<Rightarrow> repo = rt_repo t \<and> b = rt_branch t \<and> b \<notin> {[], rt_base t} \<and> delete_branch \<and>
         (rt_linked t \<longrightarrow> rr_removed_worktree result)
     | TaskDelete j \<Rightarrow> j = rt_task t \<and> (rt_linked t \<longrightarrow> rr_removed_worktree result) \<and>
         (\<exists>tk. store_Get lib (sv_os (wd_tasks world)) (sv_dir (wd_tasks world)) j = Inr tk \<and> t_state tk = state_done \<and>
           t_branch tk = rt_branch t \<and>
           canonical (gv_fs (sv_git (wd_tasks world))) (t_repo_path tk) = Inr (rt_repo t) \<and>
           canonical (gv_fs (sv_git (wd_tasks world))) (task_checkout tk) = Inr (rt_checkout t))
     | _ \<Rightarrow> True)"

lemma retire_task_ok:
  assumes "retire_task lib has_tasks (wd_tasks world) t r = (err, r', events, d)" and "rt_linked t \<longrightarrow> rr_removed_worktree r"
  shows "\<forall>e \<in> set events. stage_ok world db lib has_tasks t r' e"
  using retire_task_stage [OF assms(1)] assms(2) identity_done [of lib has_tasks "wd_tasks world" t]
  by (auto simp: stage_ok_def)

lemma retire_task_result:
  "retire_task lib has_tasks v t r = (err, r', events, d) \<Longrightarrow>
    rr_removed_worktree r' = rr_removed_worktree r \<and> rr_deleted_branch r' = rr_deleted_branch r \<and> rr_closed r' = rr_closed r"
  by (drule retire_task_stage) (auto split: if_splits)

lemma retire_branch_cases:
  assumes "retire_branch lib has_tasks world db t r = (err, r', events, d)"
  obtains (kept) "retire_task lib has_tasks (wd_tasks world) t r = (err, r', events, d)"
      "\<not> (db \<and> rt_branch t \<notin> {[], rt_base t} \<and> branch_exists (sv_git (wd_branch world)) (rt_repo t) (rt_branch t))"
    | (failed) "err \<noteq> None" "r' = r" "events = [BranchDelete (rt_repo t) (rt_branch t)]" "d = sv_dir (wd_tasks world)"
      "db" "rt_branch t \<notin> {[], rt_base t}"
    | (deleted) rest where "events = BranchDelete (rt_repo t) (rt_branch t) # rest" "db" "rt_branch t \<notin> {[], rt_base t}"
      "retire_task lib has_tasks (wd_tasks world) t (r\<lparr>rr_deleted_branch := True\<rparr>) = (err, r', rest, d)"
  using assms
  by (auto simp: retire_branch_def Let_def after_events_def split: if_splits sum.splits prod.splits)

lemma retire_worktree_cases:
  assumes "retire_worktree lib has_tasks world db t r = (err, r', events, d)"
  obtains (kept) "retire_branch lib has_tasks world db t r = (err, r', events, d)" "\<not> rt_linked t"
    | (failed) "err \<noteq> None" "r' = r" "events = [WorktreeRemove (rt_repo t) (rt_checkout t)]" "d = sv_dir (wd_tasks world)" "rt_linked t"
    | (removed) rest where "events = WorktreeRemove (rt_repo t) (rt_checkout t) # rest" "rt_linked t"
      "retire_branch lib has_tasks world db t (r\<lparr>rr_removed_worktree := True\<rparr>) = (err, r', rest, d)"
  using assms
  by (auto simp: retire_worktree_def Let_def after_events_def split: if_splits option.splits prod.splits)

lemma retire_branch_ok:
  assumes "retire_branch lib has_tasks world db t r = (err, r', events, d)" and "rt_linked t \<longrightarrow> rr_removed_worktree r"
  shows "\<forall>e \<in> set events. stage_ok world db lib has_tasks t r' e"
  using assms(1)
proof (cases rule: retire_branch_cases)
  case kept
  then show ?thesis using retire_task_ok assms(2) by blast
next
  case failed
  then show ?thesis using assms(2) by (simp add: stage_ok_def)
next
  case (deleted rest)
  with retire_task_ok [OF deleted(4)] retire_task_result [OF deleted(4)] assms(2) show ?thesis by (auto simp: stage_ok_def)
qed

lemma retire_worktree_ok:
  assumes "retire_worktree lib has_tasks world db t r = (err, r', events, d)"
  shows "\<forall>e \<in> set events. stage_ok world db lib has_tasks t r' e"
  using assms
proof (cases rule: retire_worktree_cases)
  case kept
  then show ?thesis using retire_branch_ok by blast
next
  case failed
  then show ?thesis by (simp add: stage_ok_def)
next
  case (removed rest)
  with retire_branch_ok [OF removed(3)] show ?thesis by (auto simp: stage_ok_def)
qed

section \<open>What was removed, and what the result says\<close>

lemma inspection_closes_none:
  assumes "inspect_retirement dg lr getenv v target opts = Inr i"
  shows "in_closed_sessions i = 0"
proof -
  have status [simp]: "in_closed_sessions (append_agent_status_blocker lr h st cu j) = in_closed_sessions j" for h st cu j
    by (simp add: append_agent_status_blocker_def Let_def block_if_def add_blocker_def)
  have pane: "in_closed_sessions (inspect_foreground_pane dg lr o' h p j) = in_closed_sessions j" for o' h p j
    by (simp add: inspect_foreground_pane_def Let_def block_if_def add_blocker_def)
  have struct [simp]: "in_closed_sessions (inspect_structure v t e j s) = in_closed_sessions j" for t e j s
    by (simp add: inspect_structure_def Let_def block_if_def add_blocker_def)
  have session: "in_closed_sessions (inspect_session dg lr v o' t e j s) = in_closed_sessions j" for o' t e j s
    by (simp add: inspect_session_def inspect_foreground_activity_def Let_def foldl_keeps [of in_closed_sessions, OF pane]
        foldl_keeps [of in_closed_sessions, OF status])
  have agent: "in_closed_sessions (inspect_agent lr o' e j a) = in_closed_sessions j" for o' e j a
    by (simp add: inspect_agent_def Let_def add_blocker_def)
  have [simp]: "in_closed_sessions (dedupe j) = in_closed_sessions j" for j by (simp add: dedupe_def)
  show ?thesis
    using assms unfolding inspect_retirement_def inspect_target_def Let_def
    by (auto simp: foldl_keeps [of in_closed_sessions, OF session] foldl_keeps [of in_closed_sessions, OF agent]
        fresh_inspection_def block_if_def add_blocker_def split: sum.splits option.splits if_splits)
qed

lemma close_counts:
  assumes "close_and_wait rounds dg lr getenv env target opts = (None, i, events)"
  shows "in_closed_sessions i = length events"
proof -
  from assms consider "inspect_retirement dg lr getenv (ev_first env) target opts = Inr i" "events = []"
    | i0 deadline where "close_loop rounds dg lr getenv env opts i0 deadline 0 [] = (None, i, events)"
    by (auto simp: close_and_wait_def split: sum.splits if_splits)
  then show ?thesis
    by cases (use inspection_closes_none close_loop_success in \<open>fastforce+\<close>)
qed

definition destructive :: "retire_event \<Rightarrow> bool" where
  "destructive e \<longleftrightarrow> (case e of WorktreeRemove _ _ \<Rightarrow> True | BranchDelete _ _ \<Rightarrow> True | TaskDelete _ \<Rightarrow> True | _ \<Rightarrow> False)"

lemma validate_target_events:
  "validate_target lib has_tasks v t = (r, pruned) \<Longrightarrow> \<forall>e \<in> set pruned. \<exists>repo. e = PruneRun repo"
  by (auto simp: validate_target_def validate_linked_def Let_def split: sum.splits option.splits if_splits)

text \<open>How a run goes: it stops before the sessions are closed, while they are, or after.\<close>

lemma retire_checkout_cases:
  assumes "retire_checkout rounds dg lr getenv lib has_tasks world safety db target = (err, r, events, d)"
  obtains (invalid) "err \<noteq> None" "r = no_result" "d = sv_dir (wd_tasks world)" "\<forall>e \<in> set events. \<exists>repo. e = PruneRun repo"
    | (unclosed) e t pruned i closes where "err = Some (CloseRefused e)" "r = no_result" "d = sv_dir (wd_tasks world)"
      "events = pruned @ map (\<lambda>c. SessionClose (snd c)) closes" "\<forall>e \<in> set pruned. \<exists>repo. e = PruneRun repo"
      "validate_target lib has_tasks (wd_first world) target = (Inr t, pruned)"
      "close_and_wait rounds dg lr getenv (wd_close world) (rt_checkout t) safety = (Some e, i, closes)"
    | (closed) t pruned i closes rest where
      "validate_target lib has_tasks (wd_first world) target = (Inr t, pruned)" "\<forall>e \<in> set pruned. \<exists>repo. e = PruneRun repo"
      "close_and_wait rounds dg lr getenv (wd_close world) (rt_checkout t) safety = (None, i, closes)"
      "events = pruned @ map (\<lambda>c. SessionClose (snd c)) closes @ rest"
      "retire_closed dg lr getenv lib has_tasks world safety db t (no_result\<lparr>rr_closed := in_closed_sessions i\<rparr>) = (err, r, rest, d)"
  using assms validate_target_events [of lib has_tasks "wd_first world" target]
  by (auto simp: retire_checkout_def after_events_def split: sum.splits prod.splits option.splits)

lemma retire_closed_cases:
  assumes "retire_closed dg lr getenv lib has_tasks world safety db t r = (err, r', events, d)"
  obtains (stopped) "err \<noteq> None" "r' = r" "d = sv_dir (wd_tasks world)" "\<forall>e \<in> set events. \<exists>repo. e = PruneRun repo"
    | (cleared) t' pruned i rest where "validate_target lib has_tasks (wd_second world) t = (Inr t', pruned)"
      "\<forall>e \<in> set pruned. \<exists>repo. e = PruneRun repo"
      "inspect_retirement dg lr getenv (wd_runtime world) (rt_checkout t') safety = Inr i" "inspection_ready i" "in_sessions i = []"
      "events = pruned @ rest" "retire_worktree lib has_tasks world db t' r = (err, r', rest, d)"
proof (cases "validate_target lib has_tasks (wd_second world) t")
  case (Pair v pruned)
  note pruned = validate_target_events [OF Pair]
  show ?thesis
  proof (cases v)
    case (Inl e)
    with assms Pair pruned show ?thesis by (intro stopped) (auto simp: retire_closed_def)
  next
    case (Inr t')
    show ?thesis
    proof (cases "\<exists>i. inspect_retirement dg lr getenv (wd_runtime world) (rt_checkout t') safety = Inr i \<and>
        inspection_ready i \<and> in_sessions i = []")
      case True
      then obtain i where i: "inspect_retirement dg lr getenv (wd_runtime world) (rt_checkout t') safety = Inr i"
        "inspection_ready i" "in_sessions i = []" by blast
      with assms Pair Inr obtain rest where "events = pruned @ rest" "retire_worktree lib has_tasks world db t' r = (err, r', rest, d)"
        by (auto simp: retire_closed_def after_events_def split: prod.splits)
      with i Pair Inr pruned show ?thesis by (intro cleared) auto
    next
      case False
      with assms Pair Inr pruned show ?thesis
        by (intro stopped) (auto simp: retire_closed_def after_events_def split: sum.splits if_splits)
    qed
  qed
qed

lemma prune_harmless: "\<forall>e \<in> set es. \<exists>repo. e = PruneRun repo \<Longrightarrow> e \<in> set es \<Longrightarrow> \<not> destructive e"
  by (auto simp: destructive_def)

text \<open>
  C25: \<open>Retire\<close> runs a destructive command only after everything was proved anew. Whenever it removes
  a worktree, deletes a branch or deletes a task, the runtime let every session go, the target was
  validated again after that (its task, if any, is done and still describes this checkout, no Git
  operation is in progress, its branch is contained in the base, and a linked worktree is
  registered at this path for this branch, is not the main checkout, and is clean), and a last
  inspection found no session. Only the validated checkout, branch and task are touched; the branch
  and the task only after the worktree is gone, the base branch never, and the task only if its
  record still says done right before the deletion.
\<close>

theorem retire_guarded:
  assumes "retire_checkout rounds dg lr getenv lib has_tasks world safety delete_branch target = (err, result, events, d)"
    and "e \<in> set events" and "destructive e"
  shows "\<exists>t first i j closes.
    close_and_wait rounds dg lr getenv (wd_close world) (rt_checkout first) safety = (None, j, closes) \<and>
    fst (validate_target lib has_tasks (wd_first world) target) = Inr first \<and>
    fst (validate_target lib has_tasks (wd_second world) first) = Inr t \<and> target_proved lib has_tasks (wd_second world) t \<and>
    rt_task t = rt_task target \<and> rt_branch t = rt_branch target \<and> rt_base t = rt_base target \<and>
    inspect_retirement dg lr getenv (wd_runtime world) (rt_checkout t) safety = Inr i \<and> inspection_ready i \<and> in_sessions i = [] \<and>
    stage_ok world delete_branch lib has_tasks t result e"
  using assms(1)
proof (cases rule: retire_checkout_cases)
  case (closed first pruned j closes rest)
  from assms(2,3) closed(2,4) have e: "e \<in> set rest" by (auto simp: destructive_def)
  from closed(5) show ?thesis
  proof (cases rule: retire_closed_cases)
    case stopped
    with e assms(3) prune_harmless show ?thesis by blast
  next
    case (cleared t pruned' i rest')
    with e assms(3) have "e \<in> set rest'" using prune_harmless by auto
    with retire_worktree_ok [OF cleared(7)] have "stage_ok world delete_branch lib has_tasks t result e" by blast
    with closed(1,3) cleared(1,3,4,5) validate_target_proved [OF closed(1)] validate_target_proved [OF cleared(1)]
    show ?thesis by auto
  qed
qed (use assms(2,3) in \<open>auto simp: destructive_def\<close>)

definition command_ok :: "retire_world \<Rightarrow> retire_event \<Rightarrow> bool" where
  "command_ok world e \<longleftrightarrow>
    (case e of
       WorktreeRemove repo path \<Rightarrow> remove_worktree (sv_git (wd_remove world)) repo path False = None
     | BranchDelete repo b \<Rightarrow> (\<exists>out. gv_run (sv_git (wd_branch world)) repo [''branch'', ''-d'', b] = GitOut out)
     | TaskDelete j \<Rightarrow> fst (store_delete (sv_os (wd_tasks world)) j (sv_dir (wd_tasks world))) = None
     | _ \<Rightarrow> True)"

definition removes :: "retire_event \<Rightarrow> bool" where
  "removes e \<longleftrightarrow> (case e of WorktreeRemove _ _ \<Rightarrow> True | _ \<Rightarrow> False)"

definition deletes_branch :: "retire_event \<Rightarrow> bool" where
  "deletes_branch e \<longleftrightarrow> (case e of BranchDelete _ _ \<Rightarrow> True | _ \<Rightarrow> False)"

definition deletes_task :: "retire_event \<Rightarrow> bool" where
  "deletes_task e \<longleftrightarrow> (case e of TaskDelete _ \<Rightarrow> True | _ \<Rightarrow> False)"

definition closes_session :: "retire_event \<Rightarrow> bool" where
  "closes_session e \<longleftrightarrow> (case e of SessionClose _ \<Rightarrow> True | _ \<Rightarrow> False)"

lemmas event_kinds = removes_def deletes_branch_def deletes_task_def closes_session_def command_ok_def

text \<open>The account of a stage that starts with the result \<open>r\<close>.\<close>

definition accounted ::
  "retire_world \<Rightarrow> retire_target \<Rightarrow> bool \<Rightarrow> retire_result \<Rightarrow> service_error option \<Rightarrow> retire_result \<Rightarrow> retire_event list \<Rightarrow> task_dir \<Rightarrow> bool" where
  "accounted world t has_tasks r err r' events d \<longleftrightarrow>
    (rr_removed_worktree r' \<longleftrightarrow> rr_removed_worktree r \<or> (\<exists>e \<in> set events. removes e \<and> command_ok world e)) \<and>
    (rr_deleted_branch r' \<longleftrightarrow> rr_deleted_branch r \<or> (\<exists>e \<in> set events. deletes_branch e \<and> command_ok world e)) \<and>
    (rr_deleted_task r' \<longleftrightarrow> rr_deleted_task r \<or> (\<exists>e \<in> set events. deletes_task e \<and> command_ok world e)) \<and>
    rr_closed r' = rr_closed r \<and> (\<forall>e \<in> set events. \<not> closes_session e) \<and>
    (\<forall>pre e post. events = pre @ e # post \<longrightarrow> \<not> command_ok world e \<longrightarrow> post = [] \<and> err \<noteq> None) \<and>
    d = (if \<exists>e \<in> set events. deletes_task e then snd (store_delete (sv_os (wd_tasks world)) (rt_task t) (sv_dir (wd_tasks world)))
         else sv_dir (wd_tasks world)) \<and>
    (err = None \<longrightarrow> rt_task t \<noteq> [] \<longrightarrow> has_tasks \<longrightarrow> rr_deleted_task r')"

lemma accounted_same_task: "rt_task t' = rt_task t \<Longrightarrow> accounted world t' = accounted world t"
  by (intro ext) (simp only: accounted_def)

lemma accounted_quiet:
  assumes "\<forall>e \<in> set events. \<exists>repo. e = PruneRun repo" and "err \<noteq> None"
  shows "accounted world t has_tasks r err r events (sv_dir (wd_tasks world))"
proof -
  have "command_ok world e \<and> \<not> removes e \<and> \<not> deletes_branch e \<and> \<not> deletes_task e \<and> \<not> closes_session e" if "e \<in> set events" for e
    using assms(1) that by (auto simp: event_kinds)
  then show ?thesis using assms(2) by (auto simp: accounted_def)
qed

lemma accounted_Cons:
  assumes "accounted world t has_tasks r1 err r' events d" and "command_ok world e" and "\<not> deletes_task e" and "\<not> closes_session e"
    and "r1 = (if removes e then r\<lparr>rr_removed_worktree := True\<rparr> else if deletes_branch e then r\<lparr>rr_deleted_branch := True\<rparr> else r)"
  shows "accounted world t has_tasks r err r' (e # events) d"
proof -
  have "post = [] \<and> err \<noteq> None" if "e # events = pre @ x # post" "\<not> command_ok world x" for pre x post
    using assms(1,2) that by (cases pre) (auto simp: accounted_def)
  moreover have "\<not> (removes e \<and> deletes_branch e)" by (cases e) (simp_all add: event_kinds)
  then have "rr_removed_worktree r1 \<longleftrightarrow> rr_removed_worktree r \<or> removes e" "rr_deleted_branch r1 \<longleftrightarrow> rr_deleted_branch r \<or> deletes_branch e"
    "rr_deleted_task r1 = rr_deleted_task r" "rr_closed r1 = rr_closed r"
    using assms(5) by auto
  ultimately show ?thesis
    using assms(1-4) unfolding accounted_def by (simp only: list.set bex_simps ball_simps simp_thms) blast
qed

lemma retire_task_accounted:
  assumes "retire_task lib has_tasks (wd_tasks world) t r = (err, r', events, d)"
  shows "accounted world t has_tasks r err r' events d"
proof -
  consider "err \<noteq> None" "events = []" "r' = r" "d = sv_dir (wd_tasks world)"
    | "err = None" "rt_task t = [] \<or> \<not> has_tasks" "events = []" "r' = r" "d = sv_dir (wd_tasks world)"
    | "events = [TaskDelete (rt_task t)]" "d = snd (store_delete (sv_os (wd_tasks world)) (rt_task t) (sv_dir (wd_tasks world)))"
      "err = None \<longleftrightarrow> command_ok world (TaskDelete (rt_task t))" "r' = (if err = None then r\<lparr>rr_deleted_task := True\<rparr> else r)"
    using retire_task_stage [OF assms] by (auto simp: command_ok_def)
  then show ?thesis
    by cases (auto simp: accounted_def removes_def deletes_branch_def deletes_task_def closes_session_def Cons_eq_append_conv)
qed

lemma accounted_failed:
  assumes "\<not> command_ok world e" and "\<not> deletes_task e" and "\<not> closes_session e" and "err \<noteq> None"
  shows "accounted world t has_tasks r err r [e] (sv_dir (wd_tasks world))"
  using assms by (auto simp: accounted_def Cons_eq_append_conv)

lemma retire_branch_accounted:
  assumes "retire_branch lib has_tasks world db t r = (err, r', events, d)"
  shows "accounted world t has_tasks r err r' events d"
proof (cases "retire_task lib has_tasks (wd_tasks world) t r = (err, r', events, d)")
  case True
  then show ?thesis by (rule retire_task_accounted)
next
  case False
  let ?e = "BranchDelete (rt_repo t) (rt_branch t)"
  have "\<not> command_ok world ?e \<and> err \<noteq> None \<and> r' = r \<and> events = [?e] \<and> d = sv_dir (wd_tasks world) \<or>
      command_ok world ?e \<and> (\<exists>rest. events = ?e # rest \<and>
        retire_task lib has_tasks (wd_tasks world) t (r\<lparr>rr_deleted_branch := True\<rparr>) = (err, r', rest, d))"
    using assms False
    by (auto simp: retire_branch_def Let_def after_events_def command_ok_def git_run_def
        split: if_splits sum.splits prod.splits git_answer.splits)
  then show ?thesis
    using accounted_failed [of world ?e err t has_tasks r] accounted_Cons [OF retire_task_accounted, of lib has_tasks world t _ err r' _ d ?e]
    by (auto simp: removes_def deletes_branch_def deletes_task_def closes_session_def)
qed

lemma retire_worktree_accounted:
  assumes "retire_worktree lib has_tasks world db t r = (err, r', events, d)"
  shows "accounted world t has_tasks r err r' events d"
proof (cases "retire_branch lib has_tasks world db t r = (err, r', events, d)")
  case True
  then show ?thesis by (rule retire_branch_accounted)
next
  case False
  let ?e = "WorktreeRemove (rt_repo t) (rt_checkout t)"
  have "\<not> command_ok world ?e \<and> err \<noteq> None \<and> r' = r \<and> events = [?e] \<and> d = sv_dir (wd_tasks world) \<or>
      command_ok world ?e \<and> (\<exists>rest. events = ?e # rest \<and>
        retire_branch lib has_tasks world db t (r\<lparr>rr_removed_worktree := True\<rparr>) = (err, r', rest, d))"
    using assms False
    by (auto simp: retire_worktree_def Let_def after_events_def command_ok_def split: if_splits option.splits prod.splits)
  then show ?thesis
    using accounted_failed [of world ?e err t has_tasks r] accounted_Cons [OF retire_branch_accounted, of lib has_tasks world db t _ err r' _ d ?e]
    by (auto simp: removes_def deletes_branch_def deletes_task_def closes_session_def)
qed

lemma accounted_quiet_first:
  assumes "\<forall>e \<in> set es. command_ok world e \<and> \<not> removes e \<and> \<not> deletes_branch e \<and> \<not> deletes_task e \<and> \<not> closes_session e"
    and "accounted world t has_tasks r err r' events d"
  shows "accounted world t has_tasks r err r' (es @ events) d"
  using assms
proof (induction es)
  case (Cons e es)
  then have "accounted world t has_tasks r err r' (es @ events) d" by simp
  from accounted_Cons [OF this, of e r] Cons.prems(1) show ?case by simp
qed simp

lemma prune_quiet:
  assumes "\<forall>e \<in> set es. \<exists>repo. e = PruneRun repo"
  shows "\<forall>e \<in> set es. command_ok world e \<and> \<not> removes e \<and> \<not> deletes_branch e \<and> \<not> deletes_task e \<and> \<not> closes_session e"
  using assms by (auto simp: event_kinds)

lemma retire_closed_accounted:
  assumes "retire_closed dg lr getenv lib has_tasks world safety db t r = (err, r', events, d)"
  shows "accounted world t has_tasks r err r' events d"
  using assms
proof (cases rule: retire_closed_cases)
  case stopped
  then show ?thesis using accounted_quiet by blast
next
  case (cleared t' pruned i rest)
  have "rt_task t' = rt_task t" using validate_target_proved [OF cleared(1)] by simp
  with retire_worktree_accounted [OF cleared(7)] have "accounted world t has_tasks r err r' rest d"
    using accounted_same_task by metis
  from accounted_quiet_first [OF prune_quiet [OF cleared(2)] this] show ?thesis by (simp add: cleared(6))
qed

lemma checks_never_refuse:
  "validate_task_identity lib has_tasks v t \<noteq> Some (CloseRefused e)"
  "no_operation v checkout \<noteq> Some (CloseRefused e)"
  "branch_integrated g t \<noteq> Some (CloseRefused e)"
  "fst (validate_linked v t) \<noteq> Inl (CloseRefused e)"
     apply (simp add: validate_task_identity_def fail_if_def split: sum.split)
    apply (simp add: no_operation_def split: sum.split option.split stat_answer.split)
   apply (simp add: branch_integrated_def fail_if_def split: sum.split)
  apply (simp add: validate_linked_def Let_def split: sum.split option.split)
  done

lemma validate_target_never_refuses: "fst (validate_target lib has_tasks v t) \<noteq> Inl (CloseRefused e)"
proof
  assume "fst (validate_target lib has_tasks v t) = Inl (CloseRefused e)"
  then show False
    using checks_never_refuse by (auto simp: validate_target_def Let_def split: sum.splits option.splits if_splits)
qed

lemma after_marked: "e \<notin> set xs \<Longrightarrow> xs @ ys = pre @ e # post \<Longrightarrow> \<exists>pre'. ys = pre' @ e # post"
proof (induction xs arbitrary: pre)
  case (Cons x xs)
  then show ?case by (cases pre) auto
qed simp

lemma stages_never_refuse:
  "fst (retire_task lib has_tasks v t r) \<noteq> Some (CloseRefused e)"
  "fst (retire_branch lib has_tasks world db t r) \<noteq> Some (CloseRefused e)"
  "fst (retire_worktree lib has_tasks world db t r) \<noteq> Some (CloseRefused e)"
proof -
  show task: "fst (retire_task lib has_tasks v t r) \<noteq> Some (CloseRefused e)" for v r
    using checks_never_refuse(1) by (auto simp: retire_task_def split: option.splits prod.splits)
  have after: "fst (after_events es o') = fst o'" for es o' by (simp add: after_events_def split: prod.split)
  show branch: "fst (retire_branch lib has_tasks world db t r) \<noteq> Some (CloseRefused e)" for r
    using task by (simp add: retire_branch_def Let_def after split: sum.split)
  show "fst (retire_worktree lib has_tasks world db t r) \<noteq> Some (CloseRefused e)"
    using branch by (simp add: retire_worktree_def Let_def after split: option.split)
qed

lemma retire_closed_never_refuses:
  assumes "retire_closed dg lr getenv lib has_tasks world safety db t r = (err, r', events, d)"
  shows "\<not> (\<exists>e. err = Some (CloseRefused e))"
proof -
  have after: "fst (after_events es o') = fst o'" for es o' by (simp add: after_events_def split: prod.split)
  have "fst (retire_closed dg lr getenv lib has_tasks world safety db t r) \<noteq> Some (CloseRefused e)" for e
    using validate_target_never_refuses [of lib has_tasks "wd_second world" t e] stages_never_refuse(3)
    by (auto simp: retire_closed_def after split: prod.split sum.split)
  with assms show ?thesis by auto
qed

lemma no_result_simps [simp]:
  "rr_closed no_result = 0" "\<not> rr_removed_worktree no_result" "\<not> rr_deleted_branch no_result" "\<not> rr_deleted_task no_result"
  by (simp_all add: no_result_def)


section \<open>Running it again\<close>

lemma close_nothing:
  assumes "inspect_retirement dg lr getenv (ev_first env) target opts = Inr i" and "inspection_ready i" and "in_sessions i = []"
    and "inspect_retirement dg lr getenv (ev_view env 0) (in_target i) opts = Inr j" and "inspection_ready j" and "in_sessions j = []"
    and "0 < rounds"
  shows "\<exists>k. close_and_wait rounds dg lr getenv env target opts = (None, k, []) \<and> in_closed_sessions k = 0"
proof -
  obtain n where "rounds = Suc n" using assms(7) by (cases rounds) auto
  with assms inspection_closes_none [OF assms(1)] show ?thesis
    by (auto simp: close_and_wait_def close_loop.simps(2))
qed

lemma unlinked_target_ok:
  assumes "canonical (gv_fs (sv_git v)) (rt_repo t) = Inr (rt_repo t)" and "canonical (gv_fs (sv_git v)) (rt_checkout t) = Inr (rt_checkout t)"
    and "rt_repo t \<noteq> []" and "rt_checkout t \<noteq> []" and "rt_base t \<noteq> []" and "rt_branch t \<noteq> []" and "rt_task t \<noteq> []"
    and "validate_task_identity lib has_tasks v t = None"
    and "gv_stat (sv_git v) (rt_checkout t) = StatMissing" and "\<not> branch_exists (sv_git v) (rt_repo t) (rt_branch t)"
  shows "validate_target lib has_tasks v t = (if rt_linked t then validate_linked v t else (Inr t, []))"
  using assms by (simp add: validate_target_def Let_def no_operation_def branch_integrated_def fail_if_def)

text \<open>
  C27: A retirement that failed half way can be run again. If the worktree is already gone from the
  disk and from Git's registry, its branch is deleted and the runtime shows nothing in the way,
  then for a task that is done and still describes this checkout the next run succeeds: it prunes
  the registry, asks for no removal a second time, and deletes the task's file.
\<close>

theorem retire_reconciles:
  assumes "canonical (gv_fs (sv_git v)) (rt_repo t) = Inr (rt_repo t)" and "canonical (gv_fs (sv_git v)) (rt_checkout t) = Inr (rt_checkout t)"
    and "rt_repo t \<noteq> []" and "rt_checkout t \<noteq> []" and "rt_base t \<noteq> []" and "rt_branch t \<noteq> []" and "rt_task t \<noteq> []" and "rt_linked t"
    and identity: "validate_task_identity lib True v t = None"
    and gone: "gv_stat (sv_git v) (rt_checkout t) = StatMissing" "\<not> branch_exists (sv_git v) (rt_repo t) (rt_branch t)"
      "worktrees (sv_git v) (rt_repo t) = Inr ws" "\<forall>w \<in> set ws. canonical (gv_fs (sv_git v)) (wt_path w) \<noteq> Inr (rt_checkout t)"
    and pruned: "prune_worktrees (sv_git v) (rt_repo t) = None"
    and world: "wd_first world = v" "wd_second world = v" "wd_branch world = v" "wd_tasks world = v"
    and quiet: "inspect_retirement dg lr getenv (ev_first (wd_close world)) (rt_checkout t) safety = Inr i" "inspection_ready i" "in_sessions i = []"
      "inspect_retirement dg lr getenv (ev_view (wd_close world) 0) (in_target i) safety = Inr j" "inspection_ready j" "in_sessions j = []"
      "inspect_retirement dg lr getenv (wd_runtime world) (rt_checkout t) safety = Inr k" "inspection_ready k" "in_sessions k = []"
    and calls: "sv_os v TLock" "sv_os v TRemove" "sv_os v TSyncDir" and "0 < rounds"
  shows "retire_checkout rounds dg lr getenv lib True world safety delete_branch t =
    (None, no_result\<lparr>rr_deleted_task := True\<rparr>, [PruneRun (rt_repo t), TaskDelete (rt_task t)],
     dir_del (task_file (rt_task t)) (sv_dir v))"
proof -
  let ?u = "t\<lparr>rt_linked := False\<rparr>"
  have "registered_at (sv_git v) (rt_checkout t) ws = None" using gone(4) by (simp add: registered_at_def find_None_iff)
  then have linked: "validate_linked v t = (Inr ?u, [PruneRun (rt_repo t)])"
    using gone pruned by (simp add: validate_linked_def)
  have first: "validate_target lib True v t = (Inr ?u, [PruneRun (rt_repo t)])"
    using unlinked_target_ok [of v t lib True] assms(1-10) gone linked by simp
  have second: "validate_target lib True v ?u = (Inr ?u, [])"
    using unlinked_target_ok [of v ?u lib True] assms(1-10) gone by simp
  obtain c where close: "close_and_wait rounds dg lr getenv (wd_close world) (rt_checkout t) safety = (None, c, [])" "in_closed_sessions c = 0"
    using close_nothing [OF quiet(1-6)] assms by blast
  obtain tk where "store_Get lib (sv_os v) (sv_dir v) (rt_task t) = Inr tk" using identity_done [OF identity assms(7)] by blast
  then have "validate_id (rt_task t) = None" "map_of (sv_dir v) (task_file (rt_task t)) \<noteq> None"
    by (auto simp: store_Get_def store_get_def read_file_def split: option.splits sum.splits if_splits)
  then have "store_delete (sv_os v) (rt_task t) (sv_dir v) = (None, dir_del (task_file (rt_task t)) (sv_dir v))"
    using calls by (auto simp: store_delete_def fail_if_def)
  with identity assms(7) have task: "retire_task lib True v ?u r = (None, r\<lparr>rr_deleted_task := True\<rparr>, [TaskDelete (rt_task t)],
      dir_del (task_file (rt_task t)) (sv_dir v))" for r
    by (simp add: retire_task_def)
  have "no_result\<lparr>rr_closed := 0\<rparr> = no_result" by (simp add: no_result_def)
  with first second close quiet(7-9) task gone(2) world show ?thesis
    by (simp add: retire_checkout_def retire_closed_def retire_worktree_def retire_branch_def after_events_def)
qed

end
