(* ===== verification/RetireDemo.thy ===== *)
theory RetireDemo
  imports RetireClose
begin

text \<open>A concrete machine: one tmux session works in the checkout, and is closed.\<close>

definition demo_digests :: digests where
  "demo_digests = \<lparr>dg_sha256 = (\<lambda>x. ''h''), dg_json_pane = pn_id, dg_json_workspace = (\<lambda>w. fst w), dg_json_strings = concat\<rparr>"

definition demo_session :: session where
  "demo_session = \<lparr>ss_handle = ''dev'', ss_label = ''dev'', ss_identity_observed = False, ss_checkout = [], ss_linked = False,
    ss_dirs = [''/w/r''], ss_agent_status = ''idle'', ss_agent_sessions = [],
    ss_panes = [blank_pane\<lparr>pn_id := ''p1'', pn_cwd := ''/w/r''\<rparr>], ss_focused = False\<rparr>"

definition demo_view :: "session list \<Rightarrow> runtime_view" where
  "demo_view ss = \<lparr>rv_present = True, rv_name = ''tmux'', rv_resolves_pane = False, rv_current_pane = None,
    rv_list = Some ss, rv_lists_agents = False, rv_activities = None, rv_inspects_processes = False,
    rv_pane_processes = (\<lambda>_. None), rv_pid = 1, rv_discover = (\<lambda>_. NotARepo), rv_submodules = (\<lambda>_. None),
    rv_fs = tree_fs small_dirs\<rparr>"

definition demo_options :: close_options where
  "demo_options = \<lparr>ro_cwd = ''/w'', ro_caller_workspace = ''other'', ro_caller_pane = ''%9'', ro_close_unknown = False,
    ro_assume_no_runtime = False, ro_poll_interval = 0, ro_timeout = 0, ro_process_closures = []\<rparr>"

definition demo_env :: close_environment where
  "demo_env = \<lparr>ev_first = demo_view [demo_session], ev_start = 0,
    ev_view = (\<lambda>k. demo_view (if k = 0 then [demo_session] else [])), ev_now = (\<lambda>k. int k),
    ev_close_fails = (\<lambda>_ _. False), ev_done = (\<lambda>_. False)\<rparr>"

abbreviation demo_inspect :: "runtime_view \<Rightarrow> string \<Rightarrow> retire_error + inspection" where
  "demo_inspect v target \<equiv> inspect_retirement demo_digests id (\<lambda>_. []) v target demo_options"

definition demo_inspection :: inspection where
  "demo_inspection = (fresh_inspection ''/w/r'')\<lparr>in_sessions := [\<lparr>rs_runtime = demo_session, rs_panes = ss_panes demo_session,
    rs_mixed = [], rs_protection = []\<rparr>]\<rparr>"

lemma demo_inspections:
  "demo_inspect (demo_view [demo_session]) ''/w/r'' = Inr demo_inspection"
  "demo_inspect (demo_view []) ''/w/r'' = Inr (fresh_inspection ''/w/r'')"
  by code_simp+

lemma demo_run: "close_and_wait 5 demo_digests id (\<lambda>_. []) demo_env ''/w/r'' demo_options =
  (None, demo_inspection\<lparr>in_sessions := [], in_closed_sessions := 1\<rparr>, [(0, ''dev'')])"
  by code_simp

theorem close_only_approved_witness:
  "\<exists>i. demo_inspect (demo_view [demo_session]) ''/w/r'' = Inr i \<and> inspection_ready i \<and>
    close_granted demo_digests id (\<lambda>_. []) demo_env demo_options i (0, ''dev'')"
proof -
  have "dg_sha256 demo_digests x \<noteq> []" for x by (simp add: demo_digests_def)
  from close_only_approved [OF this demo_run] show ?thesis by (simp add: demo_env_def) blast
qed

theorem close_success_clear_witness:
  "\<exists>m. 0 < m \<and> rv_list (ev_view demo_env m) = Some []"
proof -
  have "\<not> ro_assume_no_runtime demo_options" "rv_present (ev_first demo_env)" "rv_name (ev_first demo_env) \<noteq> ''none''"
    by (simp_all add: demo_options_def demo_env_def demo_view_def)
  from close_success_clear [OF demo_run this] obtain m where "\<forall>e \<in> set [(0::nat, ''dev'')]. fst e < m" by blast
  then show ?thesis by (intro exI [of _ m]) (simp add: demo_env_def demo_view_def)
qed

theorem close_returns_witness:
  "close_and_wait 5 demo_digests id (\<lambda>_. []) demo_env ''/w/r'' demo_options =
    (None, demo_inspection\<lparr>in_sessions := [], in_closed_sessions := length (in_sessions demo_inspection)\<rparr>, [(0, ''dev'')])"
proof -
  have first: "demo_inspect (ev_first demo_env) ''/w/r'' = Inr demo_inspection"
    using demo_inspections(1) by (simp add: demo_env_def)
  have handles: "map (\<lambda>s. ss_handle (rs_runtime s)) (in_sessions demo_inspection) = [''dev'']"
    by (simp add: demo_inspection_def demo_session_def)
  have t: "in_target demo_inspection = ''/w/r''" "length (in_sessions demo_inspection) = 1"
    by (simp_all add: demo_inspection_def fresh_inspection_def)
  have views: "\<exists>fresh. demo_inspect (ev_view demo_env m) ''/w/r'' = Inr fresh \<and> inspection_ready fresh \<and>
      in_sessions fresh = drop m (in_sessions demo_inspection)" if "m \<le> 1" for m
    using that demo_inspections t(2)
    by (cases "m = 0") (auto simp: demo_env_def inspection_ready_def demo_inspection_def fresh_inspection_def)
  have "inspection_ready demo_inspection" "\<not> in_runtime_unknown demo_inspection" "rv_present (ev_first demo_env)"
    "rv_name (ev_first demo_env) \<noteq> ''none''"
    "\<forall>m < 1. ev_now demo_env m \<le> ev_start demo_env + close_timeout demo_options \<and> \<not> ev_done demo_env m \<and>
      \<not> ev_close_fails demo_env m (ss_handle (rs_runtime (in_sessions demo_inspection ! m)))"
    by (simp_all add: inspection_ready_def demo_inspection_def fresh_inspection_def demo_env_def demo_view_def
        close_timeout_def demo_options_def)
  with close_returns [OF first, of 5] handles views t show ?thesis
    by (auto simp: demo_inspection_def demo_session_def)
qed

end
