(* ===== verification/RetireServiceDemo.thy ===== *)
theory RetireServiceDemo
  imports RetireService RetireDemo TaskDemo
begin

text \<open>
  A machine with one linked worktree: its retirement while a session still works in it, and the
  retirement run again after everything but the task was removed.
\<close>

definition gone_lib :: task_lib where
  "gone_lib = \<lparr>tl_sha256 = (\<lambda>_. ''h''), tl_encode = (\<lambda>t. Some ''x''),
    tl_decode = (\<lambda>b. Some \<lparr>t_id = [], t_name = [], t_repo = ''r'', t_repo_path = ''/w'', t_branch = ''b'', t_base = ''main'',
      t_worktree = ''/w/r'', t_mode = mode_worktree, t_state = state_done, t_owner = [], t_next = [], t_note = [], t_tags = [],
      t_agent_session = [], t_runtime_handle = [], t_runtime_name = [],
      t_created = zero_time, t_updated = zero_time, t_stored_revision = []\<rparr>), tl_lower = id\<rparr>"

definition gone_dir :: task_dir where
  "gone_dir = [(task_file ''a'', EFile ''x'')]"

definition git_lines_out :: "string list \<Rightarrow> git_answer" where
  "git_lines_out ls = GitOut (join_str [CHR 0x0A] ls)"

text \<open>\<open>present\<close> says whether the worktree and its branch are still there.\<close>

definition gone_git :: "bool \<Rightarrow> string list list \<Rightarrow> git_view" where
  "gone_git present dirs = \<lparr>
    gv_run = (\<lambda>dir args.
      if args = discover_args then
        (if dir = ''/w/r'' then git_lines_out [''/w/r'', ''/w/.git/worktrees/r'', ''/w/.git'', ''false'']
         else git_lines_out [''/w'', ''/w/.git'', ''/w/.git'', ''false''])
      else if args = [''rev-parse'', ''--path-format=absolute'', ''--show-toplevel'', ''--git-common-dir''] then
        git_lines_out [''/w'', ''/w/.git'']
      else if args = [''worktree'', ''list'', ''--porcelain''] then
        git_lines_out ([''worktree /w'', ''HEAD c0'', ''branch refs/heads/main''] @
          (if present then [[], ''worktree /w/r'', ''HEAD c1'', ''branch refs/heads/b''] else []))
      else if hd args = ''config'' then GitFailed
      else if hd args = ''show-ref'' then (if present then GitOut [] else GitFailed)
      else GitOut []),
    gv_stat = (\<lambda>p. if p \<in> {''/w'', ''/w/.git''} \<or> present \<and> p = ''/w/r'' then StatThere else StatMissing),
    gv_same_file = (\<lambda>a b. a = b), gv_modules = (\<lambda>_. Some []), gv_fs = tree_fs dirs\<rparr>"

definition gone_view :: "bool \<Rightarrow> service_view" where
  "gone_view present = \<lparr>sv_git = gone_git present (if present then small_dirs else [[], [''w'']]), sv_mtime = (\<lambda>_. None),
    sv_dir = gone_dir, sv_os = (\<lambda>_. True)\<rparr>"

definition gone_target :: retire_target where
  "gone_target = \<lparr>rt_task = ''a'', rt_repo = ''/w'', rt_checkout = ''/w/r'', rt_branch = ''b'', rt_base = ''main'', rt_linked = True\<rparr>"

definition gone_world :: "bool \<Rightarrow> close_environment \<Rightarrow> retire_world" where
  "gone_world present env = \<lparr>wd_first = gone_view present, wd_close = env, wd_second = gone_view present,
    wd_runtime = demo_view [], wd_remove = gone_view present, wd_branch = gone_view present, wd_tasks = gone_view present\<rparr>"

definition gone_task :: task where
  "gone_task = \<lparr>t_id = ''a'', t_name = [], t_repo = ''r'', t_repo_path = ''/w'', t_branch = ''b'', t_base = ''main'',
      t_worktree = ''/w/r'', t_mode = mode_worktree, t_state = state_done, t_owner = [], t_next = [], t_note = [], t_tags = [],
      t_agent_session = [], t_runtime_handle = [], t_runtime_name = [],
      t_created = zero_time, t_updated = zero_time, t_stored_revision = []\<rparr>"

lemma gone_task_valid: "task_validate id gone_task = None"
  by (simp add: task_validate_def gone_task_def demo_id_valid parse_state_def trim_space_def space_encodings_def trim_with.simps
      to_lower_def ascii_lower_def all_states_def checks.simps char_class_defs)

lemma gone_stored: "store_Get gone_lib (\<lambda>_. True) gone_dir ''a'' = Inr (gone_task\<lparr>t_stored_revision := revision gone_lib gone_task\<rparr>)"
proof -
  have "read_file True gone_dir ''a'' = Inr ''x''" by (simp add: read_file_def gone_dir_def)
  moreover have "decode_task gone_lib ''a'' ''x'' = Inr (gone_task\<lparr>t_stored_revision := revision gone_lib gone_task\<rparr>)"
    using gone_task_valid by (simp add: decode_task_def gone_lib_def gone_task_def Let_def)
  ultimately show ?thesis by (simp add: store_Get_def store_get_def demo_id_valid)
qed

lemma gone_paths:
  "canonical (gv_fs (sv_git (gone_view p))) ''/w'' = Inr ''/w''" "canonical (gv_fs (sv_git (gone_view p))) ''/w/r'' = Inr ''/w/r''"
  by (cases p; simp; code_simp)+

lemma gone_identity:
  "rt_task t = ''a'' \<Longrightarrow> rt_repo t = ''/w'' \<Longrightarrow> rt_checkout t = ''/w/r'' \<Longrightarrow> rt_branch t = ''b'' \<Longrightarrow> rt_base t = ''main'' \<Longrightarrow>
    validate_task_identity gone_lib True (gone_view p) t = None"
proof -
  have "sv_os (gone_view p) = (\<lambda>_. True)" "sv_dir (gone_view p) = gone_dir" by (simp_all add: gone_view_def)
  moreover have "task_checkout (gone_task\<lparr>t_stored_revision := s\<rparr>) = ''/w/r''" for s
    by (simp add: task_checkout_def effective_mode_def gone_task_def)
  ultimately show "rt_task t = ''a'' \<Longrightarrow> rt_repo t = ''/w'' \<Longrightarrow> rt_checkout t = ''/w/r'' \<Longrightarrow> rt_branch t = ''b'' \<Longrightarrow> rt_base t = ''main'' \<Longrightarrow>
    validate_task_identity gone_lib True (gone_view p) t = None"
    using gone_stored gone_paths [of p] by (simp add: validate_task_identity_def gone_task_def fail_if_def)
qed

lemma gone_checks:
  "no_operation (gone_view True) ''/w/r'' = None"
  "branch_integrated (sv_git (gone_view True)) gone_target = None"
  "validate_linked (gone_view True) gone_target = (Inr gone_target, [])"
  "remove_worktree (sv_git (gone_view True)) ''/w'' ''/w/r'' False = None"
  "branch_exists (sv_git (gone_view True)) ''/w'' ''b''"
  "git_run (sv_git (gone_view True)) ''/w'' [''branch'', ''-d'', ''b''] = Inr []"
  by code_simp+

lemma gone_validated: "validate_target gone_lib True (gone_view True) gone_target = (Inr gone_target, [])"
proof -
  have same: "gone_target\<lparr>rt_repo := ''/w'', rt_checkout := ''/w/r''\<rparr> = gone_target" by (simp add: gone_target_def)
  have "validate_task_identity gone_lib True (gone_view True) gone_target = None"
    by (rule gone_identity) (simp_all add: gone_target_def)
  moreover have "rt_repo gone_target = ''/w''" "rt_checkout gone_target = ''/w/r''" "rt_base gone_target = ''main''"
    "rt_branch gone_target = ''b''" "rt_linked gone_target"
    by (simp_all add: gone_target_def)
  ultimately show ?thesis using gone_paths [of True] gone_checks by (simp add: validate_target_def same)
qed

lemma gone_delete: "store_delete (sv_os (gone_view p)) ''a'' (sv_dir (gone_view p)) = (None, [])"
  by (simp add: store_delete_def gone_view_def gone_dir_def demo_id_valid fail_if_def dir_del_def)

lemma gone_inspections:
  "demo_inspect (demo_view []) ''/w/r'' = Inr (fresh_inspection ''/w/r'')" "inspection_ready (fresh_inspection ''/w/r'')"
  "in_sessions (fresh_inspection ''/w/r'') = []" "in_target (fresh_inspection ''/w/r'') = ''/w/r''"
  using demo_inspections(2) by (simp_all add: fresh_inspection_def inspection_ready_def)

text \<open>The whole retirement: the session is closed, then worktree, branch and task are removed.\<close>

lemma gone_run:
  "retire_checkout 5 demo_digests id (\<lambda>_. []) gone_lib True (gone_world True demo_env) demo_options True gone_target =
    (None, \<lparr>rr_closed = 1, rr_removed_worktree = True, rr_deleted_branch = True, rr_deleted_task = True\<rparr>,
     [SessionClose ''dev'', WorktreeRemove ''/w'' ''/w/r'', BranchDelete ''/w'' ''b'', TaskDelete ''a''], [])"
proof -
  have t: "rt_task gone_target = ''a''" "rt_repo gone_target = ''/w''" "rt_checkout gone_target = ''/w/r''"
    "rt_base gone_target = ''main''" "rt_branch gone_target = ''b''" "rt_linked gone_target"
    by (simp_all add: gone_target_def)
  have "validate_task_identity gone_lib True (gone_view True) gone_target = None"
    by (rule gone_identity) (simp_all add: gone_target_def)
  then show ?thesis
    using gone_validated gone_checks gone_delete [of True] gone_inspections demo_run t
    by (simp add: retire_checkout_def retire_closed_def retire_worktree_def retire_branch_def retire_task_def after_events_def
        gone_world_def no_result_def)
qed

theorem retire_guarded_witness:
  "\<exists>t. target_proved gone_lib True (gone_view True) t \<and> rt_linked t \<and> rt_checkout t = ''/w/r''"
proof -
  have "destructive (WorktreeRemove ''/w'' ''/w/r'')" by (simp add: destructive_def)
  from retire_guarded [OF gone_run _ this] show ?thesis by (auto simp: stage_ok_def gone_world_def)
qed


text \<open>The second run, when only the task is left.\<close>

definition quiet_env :: close_environment where
  "quiet_env = demo_env\<lparr>ev_first := demo_view [], ev_view := (\<lambda>_. demo_view [])\<rparr>"

lemma gone_registry:
  "gv_stat (sv_git (gone_view False)) ''/w/r'' = StatMissing" "\<not> branch_exists (sv_git (gone_view False)) ''/w'' ''b''"
  "prune_worktrees (sv_git (gone_view False)) ''/w'' = None"
  "case worktrees (sv_git (gone_view False)) ''/w'' of Inl _ \<Rightarrow> False
    | Inr ws \<Rightarrow> \<forall>w \<in> set ws. canonical (gv_fs (sv_git (gone_view False))) (wt_path w) \<noteq> Inr ''/w/r''"
  by code_simp+

theorem retire_reconciles_witness:
  "retire_checkout 5 demo_digests id (\<lambda>_. []) gone_lib True (gone_world False quiet_env) demo_options True gone_target =
    (None, no_result\<lparr>rr_deleted_task := True\<rparr>, [PruneRun ''/w'', TaskDelete ''a''], [])"
proof -
  obtain ws where ws: "worktrees (sv_git (gone_view False)) ''/w'' = Inr ws"
      "\<forall>w \<in> set ws. canonical (gv_fs (sv_git (gone_view False))) (wt_path w) \<noteq> Inr ''/w/r''"
    using gone_registry(4) by (auto split: sum.splits)
  have t: "rt_task gone_target = ''a''" "rt_repo gone_target = ''/w''" "rt_checkout gone_target = ''/w/r''"
    "rt_base gone_target = ''main''" "rt_branch gone_target = ''b''" "rt_linked gone_target"
    by (simp_all add: gone_target_def)
  have identity: "validate_task_identity gone_lib True (gone_view False) gone_target = None"
    by (rule gone_identity) (simp_all add: gone_target_def)
  have env: "ev_first quiet_env = demo_view []" "ev_view quiet_env 0 = demo_view []" by (simp_all add: quiet_env_def)
  have dir: "dir_del (task_file ''a'') (sv_dir (gone_view False)) = []" by (simp add: dir_del_def gone_view_def gone_dir_def)
  show ?thesis
    by (subst retire_reconciles [of "gone_view False" gone_target gone_lib ws "gone_world False quiet_env" demo_digests id "\<lambda>_. []"
          demo_options "fresh_inspection ''/w/r''" "fresh_inspection ''/w/r''" "fresh_inspection ''/w/r''" 5 True])
      (simp_all add: t identity gone_registry(1-3) ws gone_paths gone_inspections env dir gone_world_def,
       simp_all add: gone_view_def)
qed

end
