(* ===== verification/RetireAudit.thy ===== *)
theory RetireAudit
  imports GoText
begin

text \<open>
  \<open>internal/retire/audit.go\<close>: the read-only audit of a retirement, sixteen checks over facts that
  were collected or not. Texts of details are left out, except the error text the input carries.
\<close>

section \<open>Facts, checks and results\<close>

datatype audit_status = AuditEligible | AuditBlocked | AuditUnknown | AuditNotApplicable

record fact =
  fact_known :: bool
  fact_value :: bool

definition known_fact :: "bool \<Rightarrow> fact" where
  "known_fact v = \<lparr>fact_known = True, fact_value = v\<rparr>"

record audit_input =
  ai_target_kind :: string
  ai_registered :: fact
  ai_unlocked :: fact
  ai_branch_named :: fact
  ai_identity_matches :: fact
  ai_path_exists :: fact
  ai_status_error :: string
  ai_dirty :: fact
  ai_in_progress :: fact
  ai_base_known :: bool
  ai_contained :: fact
  ai_task_present :: fact
  ai_task_state :: string
  ai_artifact_known :: bool
  ai_finalized :: bool
  ai_runtime_known :: bool
  ai_runtime_ready :: bool

record audit_check =
  ac_id :: string
  ac_status :: audit_status

record audit_result =
  ar_status :: audit_status
  ar_checks :: "audit_check list"

definition audit_ids :: "string list" where
  "audit_ids = [''target-kind'', ''registered'', ''worktree-unlocked'', ''branch-named'', ''task-identity'', ''path-exists'',
    ''status-available'', ''clean'', ''no-git-operation'', ''base-known'', ''branch-contained'', ''task-state'',
    ''artifact-known'', ''artifact-finalized'', ''runtime-known'', ''runtime-ready'']"

definition target_kind_check :: "string \<Rightarrow> audit_status" where
  "target_kind_check kind = (if kind \<in> {''dev'', ''external''} then AuditEligible else AuditUnknown)"

definition registration_check :: "audit_input \<Rightarrow> audit_status" where
  "registration_check i =
    (if \<not> fact_known (ai_registered i) then AuditUnknown
     else if fact_value (ai_registered i) then AuditEligible
     else if \<not> fact_known (ai_path_exists i) then AuditUnknown
     else if fact_value (ai_path_exists i) then AuditBlocked
     else AuditEligible)"

text \<open>\<open>unlockedCheck\<close>, \<open>branchNamedCheck\<close> and \<open>identityCheck\<close> differ in their texts only.\<close>

definition fact_check :: "fact \<Rightarrow> audit_status" where
  "fact_check f = (if \<not> fact_known f then AuditUnknown else if \<not> fact_value f then AuditBlocked else AuditEligible)"

definition path_check :: "fact \<Rightarrow> audit_status" where
  "path_check f = (if \<not> fact_known f then AuditUnknown else AuditEligible)"

definition status_check :: "audit_input \<Rightarrow> audit_status" where
  "status_check i =
    (if \<not> fact_known (ai_path_exists i) then AuditUnknown
     else if \<not> fact_value (ai_path_exists i) then AuditNotApplicable
     else if ai_status_error i \<noteq> [] then AuditUnknown
     else if \<not> fact_known (ai_dirty i) then AuditUnknown
     else AuditEligible)"

definition clean_check :: "audit_input \<Rightarrow> audit_status" where
  "clean_check i =
    (if fact_known (ai_path_exists i) \<and> \<not> fact_value (ai_path_exists i) then AuditNotApplicable
     else if ai_status_error i \<noteq> [] \<or> \<not> fact_known (ai_dirty i) then AuditUnknown
     else if fact_value (ai_dirty i) then AuditBlocked
     else AuditEligible)"

definition operation_check :: "audit_input \<Rightarrow> audit_status" where
  "operation_check i =
    (if fact_known (ai_path_exists i) \<and> \<not> fact_value (ai_path_exists i) then AuditNotApplicable
     else if \<not> fact_known (ai_in_progress i) then AuditUnknown
     else if fact_value (ai_in_progress i) then AuditBlocked
     else AuditEligible)"

definition base_check :: "bool \<Rightarrow> audit_status" where
  "base_check known = (if \<not> known then AuditUnknown else AuditEligible)"

definition containment_check :: "audit_input \<Rightarrow> audit_status" where
  "containment_check i =
    (if \<not> ai_base_known i then AuditUnknown
     else if \<not> fact_known (ai_contained i) then AuditUnknown
     else if \<not> fact_value (ai_contained i) then AuditBlocked
     else AuditEligible)"

definition task_check :: "(nat \<Rightarrow> nat) \<Rightarrow> audit_input \<Rightarrow> audit_status" where
  "task_check lr i =
    (let present = (if \<not> fact_known (ai_task_present i) \<and> ai_task_state i \<noteq> [] then known_fact True else ai_task_present i)
     in if \<not> fact_known present then AuditUnknown
        else
          let state = to_lower lr (trim_space (ai_task_state i))
          in if \<not> fact_value present then (if state \<noteq> [] then AuditUnknown else AuditEligible)
             else if state = ''done'' then AuditEligible
             else if state = [] then AuditUnknown
             else AuditBlocked)"

definition artifact_known_check :: "bool \<Rightarrow> audit_status" where
  "artifact_known_check known = (if \<not> known then AuditUnknown else AuditEligible)"

definition artifact_finalized_check :: "audit_input \<Rightarrow> audit_status" where
  "artifact_finalized_check i =
    (if \<not> ai_artifact_known i then AuditUnknown else if \<not> ai_finalized i then AuditBlocked else AuditEligible)"

definition runtime_known_check :: "bool \<Rightarrow> audit_status" where
  "runtime_known_check known = (if \<not> known then AuditUnknown else AuditEligible)"

definition runtime_ready_check :: "audit_input \<Rightarrow> audit_status" where
  "runtime_ready_check i =
    (if \<not> ai_runtime_known i then AuditUnknown else if \<not> ai_runtime_ready i then AuditBlocked else AuditEligible)"

fun aggregate_from :: "audit_status \<Rightarrow> audit_check list \<Rightarrow> audit_status" where
  "aggregate_from status [] = status"
| "aggregate_from status (c # cs) =
    (if ac_status c = AuditBlocked then AuditBlocked
     else aggregate_from (if ac_status c = AuditUnknown then AuditUnknown else status) cs)"

definition aggregate_audit_status :: "audit_check list \<Rightarrow> audit_status" where
  "aggregate_audit_status cs = aggregate_from AuditEligible cs"

definition not_applicable_audit :: audit_result where
  "not_applicable_audit =
    \<lparr>ar_status = AuditNotApplicable, ar_checks = map (\<lambda>i. \<lparr>ac_id = i, ac_status = AuditNotApplicable\<rparr>) audit_ids\<rparr>"

definition audit_checks :: "(nat \<Rightarrow> nat) \<Rightarrow> audit_input \<Rightarrow> audit_check list" where
  "audit_checks lr i =
    [\<lparr>ac_id = ''target-kind'', ac_status = target_kind_check (ai_target_kind i)\<rparr>,
     \<lparr>ac_id = ''registered'', ac_status = registration_check i\<rparr>,
     \<lparr>ac_id = ''worktree-unlocked'', ac_status = fact_check (ai_unlocked i)\<rparr>,
     \<lparr>ac_id = ''branch-named'', ac_status = fact_check (ai_branch_named i)\<rparr>,
     \<lparr>ac_id = ''task-identity'', ac_status = fact_check (ai_identity_matches i)\<rparr>,
     \<lparr>ac_id = ''path-exists'', ac_status = path_check (ai_path_exists i)\<rparr>,
     \<lparr>ac_id = ''status-available'', ac_status = status_check i\<rparr>,
     \<lparr>ac_id = ''clean'', ac_status = clean_check i\<rparr>,
     \<lparr>ac_id = ''no-git-operation'', ac_status = operation_check i\<rparr>,
     \<lparr>ac_id = ''base-known'', ac_status = base_check (ai_base_known i)\<rparr>,
     \<lparr>ac_id = ''branch-contained'', ac_status = containment_check i\<rparr>,
     \<lparr>ac_id = ''task-state'', ac_status = task_check lr i\<rparr>,
     \<lparr>ac_id = ''artifact-known'', ac_status = artifact_known_check (ai_artifact_known i)\<rparr>,
     \<lparr>ac_id = ''artifact-finalized'', ac_status = artifact_finalized_check i\<rparr>,
     \<lparr>ac_id = ''runtime-known'', ac_status = runtime_known_check (ai_runtime_known i)\<rparr>,
     \<lparr>ac_id = ''runtime-ready'', ac_status = runtime_ready_check i\<rparr>]"

definition audit :: "(nat \<Rightarrow> nat) \<Rightarrow> audit_input \<Rightarrow> audit_result" where
  "audit lr i =
    (if ai_target_kind i \<in> {''canonical'', ''ephemeral''} then not_applicable_audit
     else \<lparr>ar_status = aggregate_audit_status (audit_checks lr i), ar_checks = audit_checks lr i\<rparr>)"

section \<open>What an audit says\<close>

lemma aggregate_from_iff:
  "status \<in> {AuditEligible, AuditUnknown} \<Longrightarrow>
    aggregate_from status cs =
      (if \<exists>c \<in> set cs. ac_status c = AuditBlocked then AuditBlocked
       else if \<exists>c \<in> set cs. ac_status c = AuditUnknown then AuditUnknown else status)"
  by (induction cs arbitrary: status) auto

text \<open>What has been established, positively, when nothing is left to check.\<close>

definition fact_holds :: "fact \<Rightarrow> bool" where
  "fact_holds f \<longleftrightarrow> fact_known f \<and> fact_value f"

definition fact_excluded :: "fact \<Rightarrow> bool" where
  "fact_excluded f \<longleftrightarrow> fact_known f \<and> \<not> fact_value f"

definition retirement_evident :: "(nat \<Rightarrow> nat) \<Rightarrow> audit_input \<Rightarrow> bool" where
  "retirement_evident lr i \<longleftrightarrow>
    ai_target_kind i \<in> {''dev'', ''external''} \<and>
    fact_holds (ai_unlocked i) \<and> fact_holds (ai_branch_named i) \<and> fact_holds (ai_identity_matches i) \<and>
    fact_known (ai_registered i) \<and>
    (fact_excluded (ai_path_exists i) \<or>
     fact_holds (ai_path_exists i) \<and> fact_value (ai_registered i) \<and> ai_status_error i = [] \<and>
     fact_excluded (ai_dirty i) \<and> fact_excluded (ai_in_progress i)) \<and>
    ai_base_known i \<and> fact_holds (ai_contained i) \<and>
    ai_artifact_known i \<and> ai_finalized i \<and> ai_runtime_known i \<and> ai_runtime_ready i \<and>
    task_check lr i = AuditEligible"

lemmas audit_check_defs = target_kind_check_def registration_check_def fact_check_def path_check_def status_check_def
  clean_check_def operation_check_def base_check_def containment_check_def artifact_known_check_def
  artifact_finalized_check_def runtime_known_check_def runtime_ready_check_def

lemma audit_clear:
  "aggregate_audit_status (audit_checks lr i) = AuditEligible \<longleftrightarrow>
    (\<forall>c \<in> set (audit_checks lr i). ac_status c \<notin> {AuditBlocked, AuditUnknown})"
  by (auto simp: aggregate_audit_status_def aggregate_from_iff)

lemma task_check_cases: "task_check lr i \<in> {AuditEligible, AuditBlocked, AuditUnknown}"
  by (simp add: task_check_def Let_def)

definition passes :: "audit_status \<Rightarrow> bool" where
  "passes st \<longleftrightarrow> st \<notin> {AuditBlocked, AuditUnknown}"

lemma check_passes:
  "passes (target_kind_check k) \<longleftrightarrow> k \<in> {''dev'', ''external''}"
  "passes (registration_check i) \<longleftrightarrow> fact_known (ai_registered i) \<and> (fact_value (ai_registered i) \<or> fact_excluded (ai_path_exists i))"
  "passes (fact_check f) \<longleftrightarrow> fact_holds f" "passes (path_check f) \<longleftrightarrow> fact_known f"
  "passes (status_check i) \<longleftrightarrow> fact_excluded (ai_path_exists i) \<or>
    fact_holds (ai_path_exists i) \<and> ai_status_error i = [] \<and> fact_known (ai_dirty i)"
  "passes (clean_check i) \<longleftrightarrow> fact_excluded (ai_path_exists i) \<or> ai_status_error i = [] \<and> fact_excluded (ai_dirty i)"
  "passes (operation_check i) \<longleftrightarrow> fact_excluded (ai_path_exists i) \<or> fact_excluded (ai_in_progress i)"
  "passes (base_check b) \<longleftrightarrow> b" "passes (containment_check i) \<longleftrightarrow> ai_base_known i \<and> fact_holds (ai_contained i)"
  "passes (task_check lr i) \<longleftrightarrow> task_check lr i = AuditEligible"
  "passes (artifact_known_check b) \<longleftrightarrow> b" "passes (artifact_finalized_check i) \<longleftrightarrow> ai_artifact_known i \<and> ai_finalized i"
  "passes (runtime_known_check b) \<longleftrightarrow> b" "passes (runtime_ready_check i) \<longleftrightarrow> ai_runtime_known i \<and> ai_runtime_ready i"
  using task_check_cases [of lr i]
  by (auto simp: passes_def audit_check_defs fact_holds_def fact_excluded_def)

lemma clear_iff_evident:
  "(\<forall>c \<in> set (audit_checks lr i). ac_status c \<notin> {AuditBlocked, AuditUnknown}) \<longleftrightarrow> retirement_evident lr i"
  unfolding passes_def [symmetric] by (simp add: audit_checks_def check_passes retirement_evident_def)
    (auto simp: fact_excluded_def fact_holds_def)


end
