(* ===== verification/RetireOrphan.thy ===== *)
theory RetireOrphan
  imports Paths "HOL-Library.List_Lexorder" "HOL-Library.Char_ord"
begin

text \<open>
  \<open>internal/retire/orphan.go\<close>: a directory that only holds what agents leave behind, and the files of
  it that the repository does not have. The tree below the path and what \<open>os.ReadFile\<close> answers are
  parameters; \<open>FOther\<close> is anything that is not a directory, links included.
\<close>

section \<open>InspectOrphan\<close>

datatype file_node = FDir "(string \<times> file_node) list option" | FOther

definition artifact_only_entries :: "string list" where
  "artifact_only_entries = [''.specstory'', ''.claude'', ''.cursor'', ''.opencode'', ''.codex'', ''.specify'', ''.DS_Store'']"

record orphan =
  orphan_path :: string
  orphan_files :: "string list"

datatype orphan_error = OrphanUnreadable | OrphanWalkFailed | OrphanReadFailed string

text \<open>\<open>filepath.WalkDir\<close> with the function that collects what is not a directory.\<close>

fun walk_files :: "string \<Rightarrow> file_node \<Rightarrow> string list option"
  and walk_entries :: "string \<Rightarrow> (string \<times> file_node) list \<Rightarrow> string list option" where
  "walk_files p FOther = Some [p]"
| "walk_files p (FDir None) = None"
| "walk_files p (FDir (Some es)) = walk_entries p es"
| "walk_entries p [] = Some []"
| "walk_entries p ((n, t) # es) =
    (case walk_files (path_join [p, n]) t of
       None \<Rightarrow> None
     | Some fs \<Rightarrow> (case walk_entries p es of None \<Rightarrow> None | Some gs \<Rightarrow> Some (fs @ gs)))"

fun relative_files :: "string \<Rightarrow> string list \<Rightarrow> string list option" where
  "relative_files path [] = Some []"
| "relative_files path (f # fs) =
    (case path_rel path f of
       None \<Rightarrow> None
     | Some r \<Rightarrow> (case relative_files path fs of None \<Rightarrow> None | Some rs \<Rightarrow> Some (r # rs)))"

text \<open>
  \<open>node\<close> is what \<open>os.Stat\<close> and \<open>os.ReadDir\<close> see at the path; the walk does not follow a path that is
  itself a link.
\<close>

definition inspect_orphan :: "file_node option \<Rightarrow> bool \<Rightarrow> string \<Rightarrow> orphan_error + orphan option" where
  "inspect_orphan node link path =
    (case node of
       None \<Rightarrow> Inr None
     | Some FOther \<Rightarrow> Inr None
     | Some (FDir None) \<Rightarrow> Inl OrphanUnreadable
     | Some (FDir (Some entries)) \<Rightarrow>
       if entries = [] then Inr (Some \<lparr>orphan_path = path, orphan_files = []\<rparr>)
       else if \<not> (\<forall>e \<in> set entries. fst e \<in> set artifact_only_entries) then Inr None
       else
         (case walk_files path (if link then FOther else FDir (Some entries)) of
            None \<Rightarrow> Inl OrphanWalkFailed
          | Some found \<Rightarrow>
            (case relative_files path found of
               None \<Rightarrow> Inl OrphanWalkFailed
             | Some rels \<Rightarrow> Inr (Some \<lparr>orphan_path = path, orphan_files = sort rels\<rparr>))))"

section \<open>Unsalvaged\<close>

definition ignorable_artifact :: "string \<Rightarrow> bool" where
  "ignorable_artifact rel \<longleftrightarrow> filepath_base rel = ''.DS_Store'' \<or> path_clean rel = ''.specstory/statistics.json''"

fun unsalvaged_from :: "(string \<Rightarrow> string option) \<Rightarrow> string \<Rightarrow> string \<Rightarrow> string list \<Rightarrow> orphan_error + string list" where
  "unsalvaged_from read path repo [] = Inr []"
| "unsalvaged_from read path repo (rel # rels) =
    (if ignorable_artifact rel then unsalvaged_from read path repo rels
     else
       (case read (path_join [path, rel]) of
          None \<Rightarrow> Inl (OrphanReadFailed rel)
        | Some mine \<Rightarrow>
          (case unsalvaged_from read path repo rels of
             Inl e \<Rightarrow> Inl e
           | Inr rest \<Rightarrow> Inr (if read (path_join [repo, rel]) \<noteq> Some mine then rel # rest else rest))))"

definition unsalvaged :: "(string \<Rightarrow> string option) \<Rightarrow> orphan \<Rightarrow> string \<Rightarrow> orphan_error + string list" where
  "unsalvaged read o' repo = unsalvaged_from read (orphan_path o') repo (orphan_files o')"

section \<open>Nothing is lost\<close>

text \<open>The files of a tree, as the names on the way to them.\<close>

fun file_at :: "string list \<Rightarrow> file_node \<Rightarrow> bool" where
  "file_at ns FOther = (ns = [])"
| "file_at ns (FDir None) = False"
| "file_at [] (FDir (Some es)) = False"
| "file_at (n # ns) (FDir (Some es)) = (\<exists>e \<in> set es. fst e = n \<and> file_at ns (snd e))"

fun names_ok :: "file_node \<Rightarrow> bool" where
  "names_ok FOther = True"
| "names_ok (FDir None) = True"
| "names_ok (FDir (Some es)) = (\<forall>e \<in> set es. path_name (fst e) \<and> names_ok (snd e))"

lemma file_at_empty [simp]: "\<not> file_at ns (FDir (Some []))"
  by (cases ns) simp_all

lemma walk_finds:
  "walk_files p t = Some fs \<Longrightarrow> p = abs_path ds \<Longrightarrow> path_names ds \<Longrightarrow> names_ok t \<Longrightarrow>
    set fs = {abs_path (ds @ ns) | ns. file_at ns t}"
  "walk_entries p es = Some fs \<Longrightarrow> p = abs_path ds \<Longrightarrow> path_names ds \<Longrightarrow> names_ok (FDir (Some es)) \<Longrightarrow>
    set fs = {abs_path (ds @ ns) | ns. file_at ns (FDir (Some es))}"
proof (induction p t and p es arbitrary: fs ds and fs ds rule: walk_files_walk_entries.induct)
  case (5 p n t es)
  from 5(3) obtain gs hs where
    g: "walk_files (path_join [p, n]) t = Some gs" "walk_entries p es = Some hs" "fs = gs @ hs"
    by (auto split: option.splits)
  have n: "path_name n" "names_ok t" "names_ok (FDir (Some es))" using 5(6) by auto
  then have "path_join [p, n] = abs_path (ds @ [n])" "path_names (ds @ [n])"
    using path_join_abs [of ds "[n]"] 5(4,5) by auto
  from 5(1) [OF g(1) this n(2)] have "set gs = {abs_path (ds @ n # ns) | ns. file_at ns t}" by simp
  moreover from 5(2) [OF g(1) g(2) 5(4,5) n(3)] have "set hs = {abs_path (ds @ ns) | ns. file_at ns (FDir (Some es))}" .
  moreover have "{abs_path (ds @ ns) | ns. file_at ns (FDir (Some ((n, t) # es)))} =
      {abs_path (ds @ n # ns) | ns. file_at ns t} \<union> {abs_path (ds @ ns) | ns. file_at ns (FDir (Some es))}" (is "?l = ?r")
  proof
    show "?l \<subseteq> ?r"
    proof
      fix x assume "x \<in> ?l"
      then obtain ns where "x = abs_path (ds @ ns)" "file_at ns (FDir (Some ((n, t) # es)))" by blast
      then consider ms where "ns = n # ms" "file_at ms t" | "file_at ns (FDir (Some es))" by (cases ns) auto
      then show "x \<in> ?r" using \<open>x = abs_path (ds @ ns)\<close> by cases blast+
    qed
    show "?r \<subseteq> ?l"
    proof
      fix x assume "x \<in> ?r"
      then consider ns where "x = abs_path (ds @ n # ns)" "file_at ns t" | ns where "x = abs_path (ds @ ns)" "file_at ns (FDir (Some es))"
        by blast
      then show "x \<in> ?l"
      proof cases
        case 1
        then show ?thesis by (intro CollectI exI [of _ "n # ns"]) simp
      next
        case (2 ns)
        then show ?thesis by (intro CollectI exI [of _ ns]) (cases ns; auto)
      qed
    qed
  qed
  ultimately show ?case using g(3) by simp
qed auto

lemma file_at_names: "file_at ns t \<Longrightarrow> names_ok t \<Longrightarrow> path_names ns"
  by (induction ns t rule: file_at.induct) auto

lemma rel_strip_append: "rel_strip ds (ds @ ns) = ([], ns)"
  by (induction ds) (cases ns; simp)+

lemma relative_files_map:
  "relative_files path fs = Some rels \<Longrightarrow> map (path_rel path) fs = map Some rels"
  by (induction fs arbitrary: rels) (auto split: option.splits)

lemma unsalvaged_exact:
  "unsalvaged_from read path repo rels = Inr lost \<Longrightarrow>
    (\<forall>rel \<in> set rels. ignorable_artifact rel \<or> read (path_join [path, rel]) \<noteq> None) \<and>
    lost = filter (\<lambda>rel. \<not> ignorable_artifact rel \<and> read (path_join [repo, rel]) \<noteq> read (path_join [path, rel])) rels"
  by (induction rels arbitrary: lost) (auto split: if_splits option.splits sum.splits)

lemma path_join_joined:
  assumes "path_names ds" and "path_names ns" and "ns \<noteq> []"
  shows "path_join [abs_path ds, join_str ''/'' ns] = abs_path (ds @ ns)"
proof -
  have "path_join [abs_path ds, join_str ''/'' ns] = path_join (abs_path ds # ns)"
    using join_str_append [of "[abs_path ds]" ns "''/''"] assms(3) by (simp add: path_join_def abs_path_def)
  then show ?thesis using path_join_abs [OF assms(1,2)] by simp
qed


definition leftover :: file_node where
  "leftover = FDir (Some [(''.DS_Store'', FOther), (''.specstory'', FDir (Some [(''a.md'', FOther), (''b.md'', FOther)]))])"

definition leftover_read :: "string \<Rightarrow> string option" where
  "leftover_read p = map_of [(''/w/o/.DS_Store'', ''x''), (''/w/o/.specstory/a.md'', ''one''), (''/w/r/.specstory/a.md'', ''one''),
    (''/w/o/.specstory/b.md'', ''two!''), (''/w/r/.specstory/b.md'', ''two'')] p"

lemma leftover_inspected:
  "inspect_orphan (Some leftover) False (abs_path [''w'', ''o'']) =
    Inr (Some \<lparr>orphan_path = ''/w/o'', orphan_files = [''.DS_Store'', ''.specstory/a.md'', ''.specstory/b.md'']\<rparr>)"
  "unsalvaged leftover_read \<lparr>orphan_path = ''/w/o'', orphan_files = [''.DS_Store'', ''.specstory/a.md'', ''.specstory/b.md'']\<rparr> ''/w/r'' =
    Inr [''.specstory/b.md'']"
  by code_simp+


end
