(* ===== verification/GoFormat.thy ===== *)
theory GoFormat
  imports GoText
begin

text \<open>
  What the lifecycle handlers use of Go's \<open>strconv\<close>, \<open>strings\<close> and \<open>time\<close> to write evidence: quoted
  strings (\<open>%q\<close>), the shell quoting of \<open>taskflow/park.go\<close> and durations. Which runes beyond ASCII are
  printable is a parameter.
\<close>

section \<open>strconv.Quote\<close>

definition hex_width :: "nat \<Rightarrow> nat \<Rightarrow> string" where
  \<comment> \<open>lower-case hexadecimal digits, padded with zeros\<close>
  "hex_width w n = replicate (w - length (hex_of n)) CHR ''0'' @ hex_of n"

definition ascii_printable :: "nat \<Rightarrow> bool" where
  "ascii_printable r \<longleftrightarrow> 32 \<le> r \<and> r < 127"

definition quote_rune :: "(nat \<Rightarrow> bool) \<Rightarrow> string \<Rightarrow> nat \<times> nat \<Rightarrow> string" where
  \<comment> \<open>\<open>bytes\<close> is what the rune was decoded from\<close>
  "quote_rune printable bytes rw = (case rw of (r, w) \<Rightarrow>
    (if w = 1 \<and> r = rune_error then [CHR 0x5C, CHR ''x''] @ hex_width 2 (byte (hd bytes))
     else if r = 34 \<or> r = 92 then CHR 0x5C # bytes
     else if (if r < 128 then ascii_printable r else printable r) then bytes
     else if r = 7 then [CHR 0x5C, CHR ''a''] else if r = 8 then [CHR 0x5C, CHR ''b'']
     else if r = 12 then [CHR 0x5C, CHR ''f''] else if r = 10 then [CHR 0x5C, CHR ''n'']
     else if r = 13 then [CHR 0x5C, CHR ''r''] else if r = 9 then [CHR 0x5C, CHR ''t'']
     else if r = 11 then [CHR 0x5C, CHR ''v'']
     else if r < 32 \<or> r = 127 then [CHR 0x5C, CHR ''x''] @ hex_width 2 r
     else if r < 65536 then [CHR 0x5C, CHR ''u''] @ hex_width 4 r
     else [CHR 0x5C, CHR ''U''] @ hex_width 8 r))"

fun quote_runes :: "(nat \<Rightarrow> bool) \<Rightarrow> string \<Rightarrow> (nat \<times> nat) list \<Rightarrow> string" where
  "quote_runes printable s [] = []"
| "quote_runes printable s ((r, w) # rs) = quote_rune printable (take w s) (r, w) @ quote_runes printable (drop w s) rs"

definition quote_go :: "(nat \<Rightarrow> bool) \<Rightarrow> string \<Rightarrow> string" where
  "quote_go printable s = CHR 0x22 # quote_runes printable s (decode_runes (map byte s)) @ [CHR 0x22]"

section \<open>Shell quoting\<close>

definition shell_special :: string where
  "shell_special = [CHR '' '', CHR 0x09, CHR 0x0A, CHR 0x27, CHR 0x22, CHR 0x60, CHR 0x5C, CHR ''$'', CHR '';'', CHR ''&'',
    CHR ''|'', CHR ''('', CHR '')'', CHR ''<'', CHR ''>'', CHR ''*'']"

definition shell_quote :: "string \<Rightarrow> string" where
  "shell_quote v =
    (if v \<noteq> [] \<and> (\<forall>c \<in> set v. c \<notin> set shell_special) then v
     else [CHR 0x27] @ replace_all [CHR 0x27] [CHR 0x27, CHR 0x5C, CHR 0x27, CHR 0x27] v @ [CHR 0x27])"

section \<open>time.Duration\<close>

definition frac_text :: "nat \<Rightarrow> nat \<Rightarrow> string" where
  \<comment> \<open>\<open>fmtFrac\<close>: the last \<open>prec\<close> decimals without trailing zeros\<close>
  "frac_text prec u =
    (let ds = dec_of (u mod 10 ^ prec);
         ds = rev (dropWhile (\<lambda>c. c = CHR ''0'') (rev (replicate (prec - length ds) CHR ''0'' @ ds)))
     in if prec = 0 \<or> ds = [] then [] else CHR ''.'' # ds)"

definition seconds_text :: "nat \<Rightarrow> string" where
  "seconds_text u =
    (let s = u div 10 ^ 9; m = s div 60; h = m div 60
     in (if m = 0 then [] else (if h = 0 then [] else dec_of h @ ''h'') @ dec_of (m mod 60) @ ''m'') @
        dec_of (s mod 60) @ frac_text 9 u @ ''s'')"

definition duration_text :: "64 word \<Rightarrow> string" where
  \<comment> \<open>\<open>Duration.String\<close>\<close>
  "duration_text d =
    (let u = unat (if sint d < 0 then - d else d)
     in (if sint d < 0 then ''-'' else []) @
       (if u = 0 then ''0s''
        else if u < 10 ^ 3 then dec_of u @ ''ns''
        else if u < 10 ^ 6 then dec_of (u div 10 ^ 3) @ frac_text 3 u @ [CHR 0xC2, CHR 0xB5, CHR ''s'']
        else if u < 10 ^ 9 then dec_of (u div 10 ^ 6) @ frac_text 6 u @ ''ms''
        else seconds_text u))"

end
