(* ===== verification/LifeHooks.thy ===== *)
theory LifeHooks
  imports GoFormat FlowService TaskStore RetirePolicy GitStatus GitRepo
begin

text \<open>
  \<open>taskflow/lifecycle.go\<close> and \<open>lifecycle_types.go\<close>: the lifecycle service with the functions it is
  given (\<open>LifecycleHooks\<close>, the runtime resolvers, the stores), what one observation of a task and its
  checkout holds for parking and resuming, and the ledger of an execution. A hook is a function on a state of the
  world \<open>'w\<close> that returns what its Go function returns, value and error.
\<close>

section \<open>Errors\<close>

datatype life_error =
    LPlain string
  | LStale string
  | LInvalidPlan string string

definition stale_boundary :: "string \<Rightarrow> life_error" where
  "stale_boundary reason = LStale reason"

fun life_error_text :: "life_error \<Rightarrow> string" where
  \<comment> \<open>\<open>Error\<close> of a plain error, of \<open>StalePlanError\<close> with a reason only, and of \<open>InvalidPlanError\<close>\<close>
  "life_error_text (LPlain t) = t"
| "life_error_text (LStale r) = ''stale taskflow plan: '' @ (if r = [] then ''plan authority changed'' else r)"
| "life_error_text (LInvalidPlan i r) =
    (let prefix = (if i = [] then ''invalid taskflow plan'' else ''invalid taskflow plan '' @ i)
     in if r = [] then prefix else prefix @ '': '' @ r)"

fun flow_error_of :: "life_error \<Rightarrow> flow_error" where
  "flow_error_of (LPlain _) = FPlain"
| "flow_error_of (LStale _) = FStalePlan [] [] [] []"
| "flow_error_of (LInvalidPlan i _) = FInvalidPlan i None"

definition error_string :: "string option \<Rightarrow> string" where
  "error_string e = (case e of None \<Rightarrow> [] | Some t \<Rightarrow> t)"

record worktree_error =
  we_text :: string
  we_not_found :: bool

section \<open>Artifact readiness\<close>

record artifact_intent =
  at_id :: string
  at_status :: string
  at_worktree_path :: string
  at_branch :: string
  at_base :: string
  at_artifact_commit :: string
  at_archive_commit :: string
  at_archive_plan :: string

record intent_readiness =
  ir_intent :: artifact_intent
  ir_state :: string
  ir_finalized :: bool
  ir_receipt_reachable :: bool
  ir_error :: "string option"

record history_readiness =
  hr_ready :: bool
  hr_fingerprint :: string
  hr_pending :: "string list"

record artifact_inspection =
  ar_checkout :: string
  ar_known_empty :: bool
  ar_intents :: "intent_readiness list"
  ar_error :: "string option"
  ar_history :: "history_readiness option"

abbreviation (input) readiness_discarded :: string where "readiness_discarded \<equiv> ''discarded''"
abbreviation (input) readiness_finalized_reachable :: string where "readiness_finalized_reachable \<equiv> ''finalized-reachable''"

definition intent_ready :: "intent_readiness \<Rightarrow> bool" where
  \<comment> \<open>the body of the loop of \<open>Ready\<close>\<close>
  "intent_ready r \<longleftrightarrow> ir_error r = None \<and>
    (if ir_state r = readiness_discarded then True
     else if ir_state r = readiness_finalized_reachable then ir_finalized r \<and> ir_receipt_reachable r
     else False)"

definition artifact_ready :: "artifact_inspection \<Rightarrow> bool" where
  "artifact_ready i \<longleftrightarrow>
    (if case ar_history i of None \<Rightarrow> False | Some hist \<Rightarrow> \<not> hr_ready hist then False
     else if ar_error i \<noteq> None then False
     else if ar_intents i = [] then ar_known_empty i
     else if ar_known_empty i then False
     else \<forall>r \<in> set (ar_intents i). intent_ready r)"

definition no_artifacts :: artifact_inspection where
  "no_artifacts = \<lparr>ar_checkout = [], ar_known_empty = False, ar_intents = [], ar_error = None, ar_history = None\<rparr>"

section \<open>Occupancy and worktrees\<close>

text \<open>The occupancy of a checkout with the texts of the errors its observations carry.\<close>

record life_occupancy = occupancy +
  oe_session_list :: "string option"
  oe_agent_list :: "string option"
  oe_current_pane :: "string option"
  oe_coverage :: "string option"

definition empty_observation :: occupancy_observation where
  "empty_observation = \<lparr>ob_supported = False, ob_attempted = False, ob_failed = False\<rparr>"

definition no_occupancy :: life_occupancy where
  "no_occupancy = \<lparr>oc_target = [], oc_backend = [], oc_profile = OccupancyStrict, oc_caller_workspace = [],
    oc_reported_caller_pane = [], oc_caller_pane = [], oc_session_list = empty_observation, oc_agent_list = empty_observation,
    oc_current_pane = empty_observation, oc_coverage_failed = False, oc_sessions = [], oc_agents = [],
    oe_session_list = None, oe_agent_list = None, oe_current_pane = None, oe_coverage = None\<rparr>"

record create_request =
  cq_repo_path :: string
  cq_repo_name :: string
  cq_branch :: string
  cq_base :: string
  cq_path :: string
  cq_label :: string
  cq_no_provision :: bool

datatype create_answer =
    CreateExists string
  | CreateFailed string
  | CreatedAt "string option"

record submodule_node =
  sn_path :: string
  sn_initialized :: bool

record submodule_graph =
  sg_fingerprint :: string
  sg_nodes :: "submodule_node list"

section \<open>The service\<close>

text \<open>
  A runtime is named by what its \<open>Name\<close> returns. \<open>ls_verify_submodules\<close> is the operation that
  \<open>prepareSubmodules\<close> records, and \<open>ls_apply_removal\<close> is \<open>Removal.Apply\<close> on the removal that operation
  verified, with the directories a \<open>PrunedDirectoriesError\<close> names. The lock fields are the errors of the
  acquisition, the unlock fields those of the release; \<open>ls_canonical\<close> is the hook, \<open>ls_pathx\<close> is
  \<open>pathx.Canonical\<close> itself. The last fields are what \<open>decorateSubmodules\<close> calls: whether \<open>.git\<close> is absent,
  \<open>gitx.SubmodulesOf\<close>, \<open>submodule.InspectRemoval\<close> (the layout fingerprint of a removal, if there is one,
  and the error), the common directory \<open>gitx.Discover\<close> finds, the revision \<open>submodule.Load\<close> returns and
  \<open>submoduleClaims\<close>. \<open>ls_render_worktree\<close> is
  \<open>renderWorktreePath\<close> and \<open>ls_validate_target\<close> is \<open>wt.ValidateTarget\<close>; a worktree is created with the
  lock held and without a runtime.
\<close>

record 'w life_service =
  ls_host :: string
  ls_cwd :: string
  ls_workspace :: string
  ls_pane :: string
  ls_allow_shared :: bool
  ls_sha :: "string \<Rightarrow> string"
  ls_digests :: digests
  ls_printable :: "nat \<Rightarrow> bool"
  ls_default_runtime :: "string option"
  ls_named_runtime :: "string \<Rightarrow> string option"
  ls_now :: "'w \<Rightarrow> gotime"
  ls_ctx_error :: "'w \<Rightarrow> string option"
  ls_available :: "string \<Rightarrow> 'w \<Rightarrow> bool"
  ls_canonical :: "string \<Rightarrow> 'w \<Rightarrow> string \<times> string option"
  ls_repo_lock :: "string \<Rightarrow> 'w \<Rightarrow> string option \<times> 'w"
  ls_task_lock :: "'w \<Rightarrow> string option \<times> 'w"
  ls_get_record :: "string \<Rightarrow> 'w \<Rightarrow> (string + task_record) \<times> 'w"
  ls_discover :: "string \<Rightarrow> 'w \<Rightarrow> (string + git_repo) \<times> 'w"
  ls_default_branch :: "string \<Rightarrow> 'w \<Rightarrow> string \<times> 'w"
  ls_resolve_worktree :: "string \<Rightarrow> string \<Rightarrow> 'w \<Rightarrow> (registered_worktree \<times> worktree_error option) \<times> 'w"
  ls_status :: "string \<Rightarrow> 'w \<Rightarrow> (git_status \<times> string option) \<times> 'w"
  ls_in_progress :: "string \<Rightarrow> 'w \<Rightarrow> (string \<times> bool \<times> string option) \<times> 'w"
  ls_git_run :: "string \<Rightarrow> string list \<Rightarrow> 'w \<Rightarrow> (string \<times> string option) \<times> 'w"
  ls_ref_state :: "string \<Rightarrow> string \<Rightarrow> 'w \<Rightarrow> (bool \<times> string option) \<times> 'w"
  ls_inspect_artifacts :: "string \<Rightarrow> 'w \<Rightarrow> (artifact_inspection \<times> string option) \<times> 'w"
  ls_inspect_cleanup :: "string \<Rightarrow> string \<Rightarrow> close_options \<Rightarrow> 'w \<Rightarrow> (inspection \<times> string option) \<times> 'w"
  ls_wip_commit :: "string \<Rightarrow> string \<Rightarrow> 'w \<Rightarrow> (bool \<times> string option) \<times> 'w"
  ls_close_and_wait :: "string \<Rightarrow> string \<Rightarrow> close_options \<Rightarrow> 'w \<Rightarrow> (inspection \<times> string option) \<times> 'w"
  ls_remove_worktree :: "string \<Rightarrow> string \<Rightarrow> 'w \<Rightarrow> string option \<times> 'w"
  ls_apply_removal :: "string \<Rightarrow> string \<Rightarrow> 'w \<Rightarrow> (string option \<times> string list option) \<times> 'w"
  ls_task_update :: "task \<Rightarrow> string \<Rightarrow> 'w \<Rightarrow> (task_record option \<times> string option) \<times> 'w"
  ls_task_unlock :: "'w \<Rightarrow> string option \<times> 'w"
  ls_repo_unlock :: "string \<Rightarrow> 'w \<Rightarrow> string option \<times> 'w"
  ls_verify_submodules :: "plan \<Rightarrow> 'w \<Rightarrow> (string \<times> life_error option) \<times> 'w"
  ls_worktrees :: "string \<Rightarrow> 'w \<Rightarrow> (string + worktree list) \<times> 'w"
  ls_inspect_occupancy :: "string \<Rightarrow> string \<Rightarrow> occupancy_options \<Rightarrow> 'w \<Rightarrow> (life_occupancy \<times> string option) \<times> 'w"
  ls_open_runtime :: "string \<Rightarrow> string \<Rightarrow> string \<Rightarrow> 'w \<Rightarrow> (string \<times> string option) \<times> 'w"
  ls_create_worktree :: "create_request \<Rightarrow> 'w \<Rightarrow> create_answer \<times> 'w"
  ls_render_worktree :: "task \<Rightarrow> 'w \<Rightarrow> string \<times> string option"
  ls_validate_target :: "string \<Rightarrow> string \<Rightarrow> 'w \<Rightarrow> string option"
  ls_pathx :: "string \<Rightarrow> 'w \<Rightarrow> string \<times> string option"
  ls_git_absent :: "string \<Rightarrow> 'w \<Rightarrow> bool"
  ls_submodules :: "string \<Rightarrow> 'w \<Rightarrow> (string + submodule_graph) \<times> 'w"
  ls_inspect_removal :: "string \<Rightarrow> bool \<Rightarrow> bool \<Rightarrow> 'w \<Rightarrow> (string option \<times> string option) \<times> 'w"
  ls_submodule_repo :: "string \<Rightarrow> 'w \<Rightarrow> (string + string) \<times> 'w"
  ls_submodule_intent :: "string \<Rightarrow> string \<Rightarrow> 'w \<Rightarrow> (string + string) \<times> 'w"
  ls_submodule_claims :: "submodule_graph \<Rightarrow> string \<Rightarrow> 'w \<Rightarrow> (string \<times> string option) \<times> 'w"

section \<open>Observations\<close>

record life_observation =
  lo_host :: string
  lo_cwd :: string
  lo_workspace :: string
  lo_pane :: string
  lo_record :: task_record
  lo_task :: task
  lo_mode :: string
  lo_repo_path :: string
  lo_common_dir :: string
  lo_checkout :: string
  lo_worktree :: registered_worktree
  lo_worktree_found :: bool
  lo_worktree_err :: "worktree_error option"
  lo_branch_matches :: nat
  lo_status :: git_status
  lo_status_err :: "string option"
  lo_head :: string
  lo_head_err :: "string option"
  lo_base_oid :: string
  lo_base_oid_err :: "string option"
  lo_upstream_oid :: string
  lo_upstream_oid_err :: "string option"
  lo_operation :: string
  lo_in_progress :: bool
  lo_operation_err :: "string option"
  lo_runtime :: "string option"
  lo_runtime_err :: "string option"
  lo_runtime_available :: bool
  lo_cleanup :: inspection
  lo_cleanup_err :: "string option"
  lo_artifact :: artifact_inspection
  lo_artifact_err :: "string option"
  lo_base_ref :: string
  lo_base_ref_exists :: bool
  lo_base_ref_err :: "string option"
  lo_local_exists :: bool
  lo_local_oid :: string
  lo_local_oid_err :: "string option"
  lo_remote_branch :: string
  lo_remote_exists :: bool
  lo_remote_oid :: string
  lo_remote_oid_err :: "string option"
  lo_occupancy :: life_occupancy
  lo_occupancy_err :: "string option"
  lo_saved_live :: bool
  lo_desired :: string
  lo_desired_err :: "string option"

definition no_worktree :: registered_worktree where
  "no_worktree = \<lparr>rw_worktree = fresh_worktree [] False, rw_repository_path = [], rw_common_dir = [], rw_path = []\<rparr>"

definition has_checkout :: "life_observation \<Rightarrow> bool" where
  "has_checkout o' \<longleftrightarrow> lo_worktree_found o' \<and> lo_checkout o' \<noteq> []"

definition observed_linked :: "life_observation \<Rightarrow> bool" where
  \<comment> \<open>\<open>isLinkedWorktree\<close>\<close>
  "observed_linked o' \<longleftrightarrow> lo_worktree_found o' \<and> is_linked_worktree (lo_worktree o')"

definition desired_next :: "life_observation \<Rightarrow> action_options \<Rightarrow> string" where
  "desired_next o' options =
    (case options of
       ParkWarmO v \<Rightarrow> if pw_next v \<noteq> [] then pw_next v else t_next (lo_task o')
     | ParkColdO v \<Rightarrow> if pc_next v \<noteq> [] then pc_next v else t_next (lo_task o')
     | _ \<Rightarrow> t_next (lo_task o'))"

definition cleanup_options :: "life_observation \<Rightarrow> bool \<Rightarrow> bool \<Rightarrow> duration \<Rightarrow> close_options" where
  "cleanup_options o' close_unknown assume_no_runtime timeout =
    \<lparr>ro_cwd = lo_cwd o', ro_caller_workspace = lo_workspace o', ro_caller_pane = lo_pane o',
     ro_close_unknown = close_unknown, ro_assume_no_runtime = assume_no_runtime,
     ro_poll_interval = 0, ro_timeout = sint timeout, ro_process_closures = []\<rparr>"

definition runtime_name :: "string option \<Rightarrow> string" where
  "runtime_name rt = (case rt of None \<Rightarrow> [] | Some n \<Rightarrow> n)"

definition status_fields :: "git_status \<Rightarrow> string list" where
  "status_fields s = [gs_branch s, bool_text (gs_detached s), gs_upstream s, int_text (gs_ahead s), int_text (gs_behind s),
    dec_of (gs_changed s), dec_of (gs_staged s), dec_of (gs_unstaged s), dec_of (gs_untracked s), dec_of (gs_conflicted s)]"

definition stringify_status :: "git_status \<Rightarrow> string" where
  "stringify_status s = join_str [CHR 0x00] (status_fields s)"

definition same_status :: "git_status \<Rightarrow> git_status \<Rightarrow> bool" where
  "same_status l r \<longleftrightarrow> stringify_status l = stringify_status r"

section \<open>The ledger of an execution\<close>

text \<open>
  The milestone and remote fields stay empty in a parking and a resume; \<open>ex_removal\<close> says that a
  removal of submodules was verified (\<open>submoduleRemoval\<close> is not nil).
\<close>

record execution =
  ex_plan :: plan
  ex_observed :: life_observation
  ex_revision :: string
  ex_steps :: "step_result list"
  ex_warnings :: "string list"
  ex_recovery :: "string list"
  ex_snapshot :: string
  ex_partial :: bool
  ex_removal :: bool
  ex_handoff :: "handoff option"
  ex_resume_path :: string
  ex_resume_name :: string
  ex_resume_handle :: string

definition run_effect ::
  "'w life_service \<Rightarrow> effect \<Rightarrow> (execution \<Rightarrow> 'w \<Rightarrow> (string \<times> life_error option) \<times> execution \<times> 'w) \<Rightarrow>
   execution \<Rightarrow> 'w \<Rightarrow> life_error option \<times> execution \<times> 'w" where
  \<comment> \<open>\<open>run\<close>\<close>
  "run_effect s e operation ex w =
    (case operation ex w of ((detail, err), ex', w') \<Rightarrow>
      let step = \<lparr>sr_diagnostic = None, sr_effect = e,
            sr_status = (if err = None then StepCompleted else StepFailed), sr_detail = detail,
            sr_failure = (case err of None \<Rightarrow> [] | Some f \<Rightarrow> life_error_text f),
            sr_started_at = time_utc (ls_now s w), sr_finished_at = time_utc (ls_now s w')\<rparr>
      in (err, ex'\<lparr>ex_steps := ex_steps ex' @ [step]\<rparr>, w'))"

definition execution_result :: "execution \<Rightarrow> flow_result" where
  \<comment> \<open>\<open>result\<close>\<close>
  "execution_result ex =
    (let completed = (\<exists>s \<in> set (ex_steps ex). sr_status s = StepCompleted);
         finished = (ex_steps ex \<noteq> [] \<and> sr_status (last (ex_steps ex)) = StepCompleted \<and>
           ex_snapshot ex \<noteq> [] \<and> ex_recovery ex = [])
     in new_result \<lparr>rs_steps = ex_steps ex, rs_warnings = ex_warnings ex, rs_recovery = ex_recovery ex,
          rs_partial = (if finished then False else completed \<or> ex_partial ex),
          rs_milestone = milestone_none, rs_handoff = ex_handoff ex, rs_remote = None, rs_snapshot = ex_snapshot ex\<rparr>)"

definition advise :: "string \<Rightarrow> execution \<Rightarrow> execution" where
  \<comment> \<open>\<open>fail\<close> appends the recovery advice\<close>
  "advise recovery ex = ex\<lparr>ex_recovery := ex_recovery ex @ [recovery]\<rparr>"

abbreviation (input) effect_verify_submodules :: string where "effect_verify_submodules \<equiv> ''verify-submodule-recovery''"

definition fresh_execution :: "plan \<Rightarrow> life_observation \<Rightarrow> string \<Rightarrow> execution" where
  "fresh_execution p o' rv = \<lparr>ex_plan = p, ex_observed = o', ex_revision = rv, ex_steps = [], ex_warnings = [],
    ex_recovery = [], ex_snapshot = [], ex_partial = False, ex_removal = False, ex_handoff = None,
    ex_resume_path = [], ex_resume_name = [], ex_resume_handle = []\<rparr>"

definition execution_effects :: "plan \<Rightarrow> effect list" where
  "execution_effects p = filter (\<lambda>e. e_code e \<noteq> effect_verify_submodules) (p_effects p)"

end
