(* ===== verification/ParkPlan.thy ===== *)
theory ParkPlan
  imports LifeHooks
begin

text \<open>
  \<open>taskflow/park.go\<close>: the conditions, effects and texts of the plans that park a task, from one
  observation. The authority of a plan is a parameter here; \<open>LifeAuthority\<close> defines it.
\<close>

section \<open>Texts\<close>

definition mk_condition :: "string \<Rightarrow> string \<Rightarrow> string \<Rightarrow> string \<Rightarrow> string \<Rightarrow> condition" where
  \<comment> \<open>\<open>condition\<close>\<close>
  "mk_condition code verdict requirement evidence remediation =
    \<lparr>c_code = code, c_verdict = verdict, c_requirement = requirement, c_evidence = evidence, c_remediation = remediation\<rparr>"

fun blocker_text :: "blocker \<Rightarrow> string" where
  \<comment> \<open>the texts of \<open>Inspection.Blockers\<close>\<close>
  "blocker_text (CallerInsideTarget t) = ''caller is inside target checkout '' @ t"
| "blocker_text (CannotEnumerate b) = ''runtime backend '' @ b @ '' cannot enumerate covering sessions; use the explicit assume-no-runtime acknowledgement from an external caller''"
| "blocker_text (WorkspacePreserved h p) = ''workspace '' @ h @ '' is preserved: '' @ p"
| "blocker_text (CallerRuntimeCovers h) = ''caller runtime '' @ h @ '' contains the target checkout''"
| "blocker_text (CallerPaneCovers p) = ''caller runtime pane '' @ p @ '' contains the target checkout''"
| "blocker_text (OutsidePanes h n) = ''runtime '' @ h @ '' also contains '' @ dec_of n @ '' pane(s) outside the target''"
| "blocker_text (ForegroundUnknown p) = ''pane '' @ p @ '' foreground processes are unknown; inspect or close it independently''"
| "blocker_text (ForegroundPrograms p) = ''pane '' @ p @ '' has foreground programs; exact interactive termination approval is required''"
| "blocker_text (AgentWithoutSession p) = ''recognized agent in pane '' @ p @ '' covers the target without a closeable runtime session''"
| "blocker_text (AgentActive h s) = ''runtime '' @ h @ '' has agent status '' @ s"
| "blocker_text (AgentStatusUnknown h) = ''runtime '' @ h @ '' has unknown agent status; pass --close-unknown from outside it''"
| "blocker_text (AgentStatusUnrecognized h s) = ''runtime '' @ h @ '' has unrecognized agent status '' @ s"

definition requirement_for :: "bool \<Rightarrow> string" where
  "requirement_for required = (if required then requirement_required else requirement_advisory)"

definition desired_note :: "string \<Rightarrow> string \<Rightarrow> string" where
  "desired_note current requested = (if requested \<noteq> [] then requested else current)"

definition wip_message :: "string \<Rightarrow> string" where
  "wip_message next_action =
    (if next_action = [] then ''wip: checkpoint''
     else ''wip: checkpoint '' @ [CHR 0xE2, CHR 0x80, CHR 0x94] @ '' '' @ next_action)"

definition artifact_states :: "artifact_inspection \<Rightarrow> string" where
  \<comment> \<open>the rest of \<open>artifactEvidence\<close>\<close>
  "artifact_states i =
    (if ar_known_empty i then ''no artifact intents match the exact checkout''
     else if ar_intents i = [] then ''artifact readiness is incomplete''
     else join_str '', '' (map (\<lambda>r. at_id (ir_intent r) @ ''='' @ ir_state r) (ar_intents i)))"

definition artifact_evidence :: "life_observation \<Rightarrow> string" where
  "artifact_evidence o' =
    (case ar_history (lo_artifact o') of
       Some hist \<Rightarrow> if \<not> hr_ready hist then dec_of (length (hr_pending hist)) @ '' configured history files need a verified archive''
         else artifact_states (lo_artifact o')
     | None \<Rightarrow> artifact_states (lo_artifact o'))"

definition append_park_flags :: "string list \<Rightarrow> string \<Rightarrow> string \<Rightarrow> bool \<Rightarrow> bool \<Rightarrow> bool \<Rightarrow> bool \<Rightarrow> string list" where
  "append_park_flags parts next_action note wip push close_unknown assume_no_runtime =
    parts @ (if next_action \<noteq> [] then [''--next'', shell_quote next_action] else []) @
    (if note \<noteq> [] then [''--note'', shell_quote note] else []) @
    (if wip then [''--wip''] else []) @ (if push then [''--push''] else []) @
    (if close_unknown then [''--close-unknown''] else []) @
    (if assume_no_runtime then [''--assume-no-runtime''] else [])"

definition timeout_flags :: "duration \<Rightarrow> string list" where
  "timeout_flags t = (if 0 < sint t then [''--timeout'', duration_text t] else [])"

definition park_fallback :: "string \<Rightarrow> bool \<Rightarrow> action_options \<Rightarrow> string" where
  "park_fallback i cold options =
    (let parts = [''dev'', ''park'', shell_quote i] @ (if cold then [''--cold''] else [])
     in join_str '' '' (case options of
       ParkWarmO v \<Rightarrow> append_park_flags parts (pw_next v) (pw_note v) (pw_commit_wip v) (pw_push v)
         (pw_close_unknown v) (pw_assume_no_runtime v) @ timeout_flags (pw_timeout v) @
         (if pw_keep_session v then [''--keep-session''] else [])
     | ParkColdO v \<Rightarrow> append_park_flags parts (pc_next v) (pc_note v) (pc_commit_wip v) (pc_push v)
         (pc_close_unknown v) (pc_assume_no_runtime v) @ timeout_flags (pc_timeout v)
     | _ \<Rightarrow> parts))"

section \<open>The checkout\<close>

definition checkout_exact_verdict :: "(nat \<Rightarrow> bool) \<Rightarrow> life_observation \<Rightarrow> string \<times> string" where
  "checkout_exact_verdict pr o' =
    (let wt = lo_worktree o'; t = lo_task o';
         head = (case lo_head_err o' of Some e \<Rightarrow> (verdict_error, e)
           | None \<Rightarrow> if wt_head (rw_worktree wt) \<noteq> lo_head o'
               then (verdict_blocked, ''worktree registry HEAD '' @ quote_go pr (wt_head (rw_worktree wt)) @
                 '' differs from checkout HEAD '' @ quote_go pr (lo_head o'))
               else (verdict_met, ''exact path, Git common directory, and HEAD match''))
     in if rw_common_dir wt \<noteq> lo_common_dir o' then
          (verdict_blocked, ''worktree common directory '' @ quote_go pr (rw_common_dir wt) @ '' differs from '' @ quote_go pr (lo_common_dir o'))
        else if lo_mode o' = mode_worktree then
          (if t_worktree t = [] then
             (if t_state t \<noteq> state_cold \<or> lo_branch_matches o' \<noteq> 1
              then (verdict_blocked, ''the task has no exact persisted checkout identity'') else head)
           else if rw_path wt = [] then (verdict_blocked, ''the exact registered worktree path is empty'') else head)
        else if t_worktree t \<noteq> [] then
          (verdict_blocked, lo_mode o' @ '' task unexpectedly retains worktree path '' @ quote_go pr (t_worktree t))
        else if rw_path wt \<noteq> lo_repo_path o' then
          (verdict_blocked, ''registered main path '' @ quote_go pr (rw_path wt) @ '' differs from '' @ quote_go pr (lo_repo_path o'))
        else head)"

definition absent_checkout_conditions :: "life_observation \<Rightarrow> bool \<Rightarrow> bool \<Rightarrow> condition list" where
  "absent_checkout_conditions o' cold commit_wip =
    (let ve = (case lo_worktree_err o' of
           Some e \<Rightarrow> if \<not> we_not_found e then (verdict_error, we_text e) else (verdict_blocked, ''the task checkout is not registered'')
         | None \<Rightarrow> (verdict_blocked, ''the task checkout is not registered''))
     in [mk_condition ''checkout-present'' (fst ve) requirement_required (snd ve) ''restore or reconcile the exact checkout'',
         mk_condition ''checkout-exact'' verdict_blocked requirement_required ''no exact Git worktree identity'' ''refresh repository topology'',
         mk_condition ''checkout-linked'' verdict_blocked requirement_required ''checkout kind is unknown'' ''refresh repository topology'',
         mk_condition ''checkout-unlocked'' verdict_unknown (requirement_for cold) ''worktree flags are unknown'' ''refresh repository topology'',
         mk_condition ''checkout-branch'' verdict_unknown requirement_required ''checkout branch is unknown'' ''refresh Git status'',
         mk_condition ''git-status'' verdict_unknown requirement_required ''checkout is absent'' ''restore the checkout'',
         mk_condition ''git-operation-clear'' verdict_unknown (requirement_for (cold \<or> commit_wip)) ''checkout is absent'' ''restore the checkout'',
         mk_condition ''git-conflict-clear'' verdict_unknown (requirement_for (cold \<or> commit_wip)) ''checkout is absent'' ''restore the checkout'',
         mk_condition ''checkout-clean'' verdict_unknown (requirement_for cold) ''checkout is absent'' ''restore the checkout''])"

definition kind_condition :: "life_observation \<Rightarrow> condition" where
  "kind_condition o' =
    (let ve = (if lo_mode o' = mode_worktree then
           (if \<not> observed_linked o' then (verdict_blocked, ''task checkout resolves to the main or bare worktree'')
            else (verdict_met, ''linked worktree''))
         else if \<not> wt_main (rw_worktree (lo_worktree o')) \<or> wt_bare (rw_worktree (lo_worktree o')) then
           (verdict_blocked, ''canonical task does not resolve to Git's main checkout'')
         else (verdict_met, ''canonical main checkout''))
     in mk_condition ''checkout-linked'' (fst ve) requirement_required (snd ve) ''reconcile the checkout mode'')"

definition flag_condition :: "life_observation \<Rightarrow> bool \<Rightarrow> condition" where
  "flag_condition o' cold =
    (let wt = rw_worktree (lo_worktree o');
         ve = (if wt_locked wt \<or> wt_prunable wt
           then (verdict_blocked, ''locked='' @ bool_text (wt_locked wt) @ '' prunable='' @ bool_text (wt_prunable wt))
           else (verdict_met, ''worktree is unlocked and not prunable''))
     in mk_condition ''checkout-unlocked'' (fst ve) (requirement_for (cold \<and> lo_mode o' = mode_worktree)) (snd ve)
          ''unlock or repair the worktree registration'')"

definition branch_condition :: "(nat \<Rightarrow> bool) \<Rightarrow> life_observation \<Rightarrow> condition" where
  "branch_condition pr o' =
    (let wt = rw_worktree (lo_worktree o'); b = t_branch (lo_task o');
         ve = (if wt_detached wt \<or> wt_branch wt \<noteq> b \<or>
             lo_status_err o' = None \<and> (gs_detached (lo_status o') \<or> gs_branch (lo_status o') \<noteq> b)
           then (verdict_blocked, ''registry='' @ quote_go pr (wt_branch wt) @ '' status='' @ quote_go pr (gs_branch (lo_status o')) @
             '' expected='' @ quote_go pr b)
           else (verdict_met, ''checkout is on '' @ b))
     in mk_condition ''checkout-branch'' (fst ve) requirement_required (snd ve) ''switch or reconcile the exact task branch'')"

definition operation_condition :: "life_observation \<Rightarrow> bool \<Rightarrow> condition" where
  \<comment> \<open>\<open>required\<close> is \<open>cold || commitWIP\<close>\<close>
  "operation_condition o' required =
    (case lo_operation_err o' of
       Some e \<Rightarrow> mk_condition ''git-operation-clear'' verdict_error (requirement_for required) e ''repair Git operation observation''
     | None \<Rightarrow>
       if lo_in_progress o' then
         mk_condition ''git-operation-clear'' (if required then verdict_blocked else verdict_met) (requirement_for required)
           (''Git operation '' @ lo_operation o' @ '' is in progress'') ''finish or abort the Git operation''
       else mk_condition ''git-operation-clear'' verdict_met (requirement_for required) ''no Git operation is in progress'' [])"

definition conflict_condition :: "life_observation \<Rightarrow> bool \<Rightarrow> condition" where
  "conflict_condition o' required =
    (let n = gs_conflicted (lo_status o')
     in mk_condition ''git-conflict-clear'' (if 0 < n \<and> required then verdict_blocked else verdict_met) (requirement_for required)
          (if 0 < n then dec_of n @ '' unmerged path(s)'' else ''no unmerged paths'')
          ''resolve conflicts before checkpointing or cold parking'')"

definition clean_condition :: "life_observation \<Rightarrow> bool \<Rightarrow> bool \<Rightarrow> condition" where
  "clean_condition o' cold commit_wip =
    (let st = lo_status o';
         ve = (if \<not> status_dirty st then (verdict_met, ''checkout is clean'')
           else if cold \<and> commit_wip
             then (verdict_met, status_breakdown st @ ''; declared WIP commit will be followed by a fresh clean check'')
           else if cold then (verdict_blocked, status_breakdown st)
           else (verdict_met, status_breakdown st @ ''; bytes remain in place''))
     in mk_condition ''checkout-clean'' (fst ve) (requirement_for cold) (snd ve) ''commit changes or request an explicit WIP checkpoint'')"

definition status_conditions :: "life_observation \<Rightarrow> bool \<Rightarrow> bool \<Rightarrow> condition list" where
  "status_conditions o' cold commit_wip =
    (case lo_status_err o' of
       Some e \<Rightarrow>
         [mk_condition ''git-status'' verdict_error requirement_required e ''repair Git status observation'',
          mk_condition ''git-operation-clear'' verdict_error (requirement_for (cold \<or> commit_wip)) e ''repair Git status observation'',
          mk_condition ''git-conflict-clear'' verdict_error (requirement_for (cold \<or> commit_wip)) e ''repair Git status observation'',
          mk_condition ''checkout-clean'' verdict_error (requirement_for cold) e ''repair Git status observation'']
     | None \<Rightarrow>
         [mk_condition ''git-status'' verdict_met requirement_required (status_summary (lo_status o')) [],
          operation_condition o' (cold \<or> commit_wip), conflict_condition o' (cold \<or> commit_wip),
          clean_condition o' cold commit_wip])"

definition park_checkout_conditions :: "(nat \<Rightarrow> bool) \<Rightarrow> life_observation \<Rightarrow> bool \<Rightarrow> bool \<Rightarrow> condition list" where
  "park_checkout_conditions pr o' cold commit_wip =
    [mk_condition ''task-current'' verdict_met requirement_required
       (''task '' @ t_id (lo_task o') @ '' revision '' @ tr_revision (lo_record o')) [],
     mk_condition ''repo-identity'' verdict_met requirement_required (''Git common directory '' @ lo_common_dir o') []] @
    (if \<not> has_checkout o' then absent_checkout_conditions o' cold commit_wip
     else
       [mk_condition ''checkout-present'' verdict_met requirement_required (''registered checkout '' @ lo_checkout o') [],
        (case checkout_exact_verdict pr o' of (v, e) \<Rightarrow>
          mk_condition ''checkout-exact'' v requirement_required e ''reconcile the task and Git worktree identities''),
        kind_condition o', flag_condition o' cold, branch_condition pr o'] @
       status_conditions o' cold commit_wip)"

section \<open>The runtime\<close>

definition runtime_conditions :: "string \<times> string \<times> string \<Rightarrow> string \<times> string \<times> string \<times> string \<Rightarrow>
    string \<times> string \<times> string \<times> string \<Rightarrow> condition list" where
  \<comment> \<open>availability, occupancy, caller: verdict, requirement, evidence and advice of each\<close>
  "runtime_conditions a oc cl =
    (case a of (rq, v, e) \<Rightarrow> case oc of (v', rq', e', m') \<Rightarrow> case cl of (v'', rq'', e'', m'') \<Rightarrow>
      [mk_condition ''runtime-available'' v rq e ''select an available runtime backend'',
       mk_condition ''cleanup-occupancy'' v' rq' e' m', mk_condition ''caller-containment'' v'' rq'' e'' m''])"

definition available_verdict :: "life_observation \<Rightarrow> string \<times> string" where
  "available_verdict o' =
    (let n = runtime_name (lo_runtime o')
     in if n \<noteq> ''none'' \<and> \<not> lo_runtime_available o'
        then (verdict_blocked, ''runtime backend '' @ n @ '' is unavailable'')
        else (verdict_met, ''runtime backend '' @ n @ '' is available''))"

definition blockers_text :: "inspection \<Rightarrow> string" where
  "blockers_text i = join_str ''; '' (map blocker_text (in_blockers i))"

definition closeable_text :: "life_observation \<Rightarrow> string" where
  "closeable_text o' = dec_of (length (in_sessions (lo_cleanup o'))) @ '' closeable '' @ runtime_name (lo_runtime o') @ '' session(s)''"

definition runtime_failed_conditions :: "string \<Rightarrow> string \<Rightarrow> string \<Rightarrow> condition list" where
  "runtime_failed_conditions e caller_requirement caller_advice =
    [mk_condition ''runtime-available'' verdict_error requirement_required e ''repair runtime backend resolution'',
     mk_condition ''cleanup-occupancy'' verdict_error requirement_required e ''repair runtime backend resolution'',
     mk_condition ''caller-containment'' verdict_unknown caller_requirement ''runtime was not inspected'' caller_advice]"

definition warm_runtime_conditions :: "life_observation \<Rightarrow> park_warm_options \<Rightarrow> condition list" where
  "warm_runtime_conditions o' options =
    (if pw_keep_session options then
       [mk_condition ''runtime-available'' verdict_met requirement_advisory ''runtime is intentionally retained'' [],
        mk_condition ''cleanup-occupancy'' verdict_met requirement_required ''--keep-session requests no runtime closure'' [],
        mk_condition ''caller-containment'' verdict_met requirement_advisory ''caller containment is irrelevant while retaining the runtime'' []]
     else case lo_runtime_err o' of
       Some e \<Rightarrow> runtime_failed_conditions e requirement_advisory ''inspect runtime occupancy''
     | None \<Rightarrow>
       if lo_runtime o' = Some ''none'' then
         [mk_condition ''runtime-available'' verdict_met requirement_advisory ''runtime=none is explicitly unobserved'' [],
          mk_condition ''cleanup-occupancy'' verdict_met requirement_required ''warm parking does not remove the checkout or require runtime closure'' [],
          mk_condition ''caller-containment'' verdict_met requirement_advisory ''caller containment is irrelevant without runtime closure'' []]
       else (case available_verdict o' of (v, e) \<Rightarrow>
         (case lo_cleanup_err o' of
            Some failure \<Rightarrow> runtime_conditions (requirement_required, v, e)
              (verdict_error, requirement_required, failure, ''repair runtime occupancy observation'')
              (verdict_unknown, requirement_advisory, ''runtime occupancy failed'', ''inspect from outside the checkout'')
          | None \<Rightarrow>
            if in_caller_contained (lo_cleanup o') then runtime_conditions (requirement_advisory, v, e)
              (verdict_met, requirement_required, ''caller is contained; warm parking will not close any runtime'',
                ''exit the runtime and let a later sweep close it'')
              (verdict_met, requirement_advisory, ''caller remains inside the checkout or its runtime'', ''runtime will be retained'')
            else if in_blockers (lo_cleanup o') \<noteq> [] then runtime_conditions (requirement_required, v, e)
              (verdict_blocked, requirement_required, blockers_text (lo_cleanup o'),
                ''stop active agents or use only the explicit unknown-runtime acknowledgement'')
              (verdict_met, requirement_advisory, ''caller is outside the target runtime'', [])
            else runtime_conditions (requirement_required, v, e)
              (verdict_met, requirement_required, closeable_text o', [])
              (verdict_met, requirement_advisory, ''caller is outside the target runtime'', []))))"

definition cold_runtime_conditions :: "life_observation \<Rightarrow> condition list" where
  "cold_runtime_conditions o' =
    (case lo_runtime_err o' of
       Some e \<Rightarrow> runtime_failed_conditions e requirement_required ''run cold parking from outside the checkout''
     | None \<Rightarrow> (case available_verdict o' of (v, e) \<Rightarrow>
         (case lo_cleanup_err o' of
            Some failure \<Rightarrow> runtime_conditions (requirement_required, v, e)
              (verdict_error, requirement_required, failure, ''repair runtime occupancy observation'')
              (verdict_unknown, requirement_required, ''runtime occupancy failed'', ''run cold parking from outside the checkout'')
          | None \<Rightarrow> runtime_conditions (requirement_required, v, e)
              (if in_blockers (lo_cleanup o') \<noteq> []
               then (verdict_blocked, requirement_required, blockers_text (lo_cleanup o'), ''stop active agents and close mixed runtime panes'')
               else (verdict_met, requirement_required, closeable_text o', ''stop active agents and close mixed runtime panes''))
              (if in_caller_contained (lo_cleanup o')
               then (verdict_blocked, requirement_required, ''caller is inside the checkout or a covering runtime'', ''run cold parking from outside the target checkout'')
               else (verdict_met, requirement_required, ''caller is outside the checkout and runtime'', ''run cold parking from outside the target checkout'')))))"

section \<open>Publication, artifacts, base and next action\<close>

definition cold_publication_conditions :: "life_observation \<Rightarrow> park_cold_options \<Rightarrow> condition list" where
  "cold_publication_conditions o' options =
    (case lo_status_err o' of
       Some e \<Rightarrow> [mk_condition ''branch-published'' verdict_error requirement_required e ''repair Git status observation'',
                  mk_condition ''branch-pushed'' verdict_error requirement_required e ''repair Git status observation'']
     | None \<Rightarrow>
       let st = lo_status o';
           published = (if status_published st then (verdict_met, ''upstream '' @ gs_upstream st)
             else if pc_push options then (verdict_met, ''declared push will set origin/'' @ t_branch (lo_task o') @ '' as upstream'')
             else (verdict_blocked, ''branch has no upstream''));
           pushed = (if 0 < gs_ahead st \<or> pc_commit_wip options \<and> status_dirty st then
               (if pc_push options then (verdict_met, ''declared push will be followed by an ahead=0 check'')
                else (verdict_blocked, ''committed or checkpointed work would remain ahead of upstream''))
             else (verdict_met, ''ahead='' @ int_text (gs_ahead st)))
       in [mk_condition ''branch-published'' (fst published) requirement_required (snd published) ''request --push or publish the branch first'',
           mk_condition ''branch-pushed'' (fst pushed) requirement_required (snd pushed) ''request --push and resolve any rejected push''])"

definition warm_publication_conditions :: "life_observation \<Rightarrow> condition list" where
  "warm_publication_conditions o' =
    (case lo_status_err o' of
       Some e \<Rightarrow> [mk_condition ''branch-published'' verdict_error requirement_advisory e ''refresh Git status'',
                  mk_condition ''branch-pushed'' verdict_error requirement_advisory e ''refresh Git status'']
     | None \<Rightarrow>
       [mk_condition ''branch-published'' verdict_met requirement_advisory
          (if status_published (lo_status o') then ''upstream '' @ gs_upstream (lo_status o') else ''branch has no upstream'')
          ''use --push to publish the branch'',
        mk_condition ''branch-pushed'' verdict_met requirement_advisory
          (''ahead='' @ int_text (gs_ahead (lo_status o')) @ '' behind='' @ int_text (gs_behind (lo_status o')))
          ''use --push to publish committed work''])"

definition artifact_condition :: "life_observation \<Rightarrow> condition" where
  "artifact_condition o' =
    (if lo_mode o' = mode_worktree then
       (if \<not> has_checkout o' \<or> \<not> observed_linked o' then
          mk_condition ''artifact-ready'' verdict_blocked requirement_required
            ''artifact readiness requires an exact linked checkout'' ''restore or reconcile the linked worktree''
        else case lo_artifact_err o' of
          Some e \<Rightarrow> mk_condition ''artifact-ready'' verdict_error requirement_required e ''repair artifact intent observation''
        | None \<Rightarrow>
          if artifact_ready (lo_artifact o') then
            mk_condition ''artifact-ready'' verdict_met requirement_required (artifact_evidence o') []
          else mk_condition ''artifact-ready'' verdict_blocked requirement_required (artifact_evidence o')
            ''finalize/discard intents and archive pending capture files'')
     else mk_condition ''artifact-ready'' verdict_met requirement_advisory ''no linked worktree will be removed'' [])"

definition base_condition :: "life_observation \<Rightarrow> condition" where
  "base_condition o' =
    (if lo_mode o' = mode_branch then
       (if lo_base_ref o' = [] then
          mk_condition ''explicit-base'' verdict_blocked requirement_required
            ''task has no recorded base and Git has no default branch'' ''record an explicit base branch''
        else case lo_base_ref_err o' of
          Some e \<Rightarrow> mk_condition ''explicit-base'' verdict_error requirement_required e ''repair explicit base ref observation''
        | None \<Rightarrow>
          if \<not> lo_base_ref_exists o' then
            mk_condition ''explicit-base'' verdict_blocked requirement_required
              (''base ref '' @ lo_base_ref o' @ '' does not exist'') ''restore or choose an existing base branch''
          else mk_condition ''explicit-base'' verdict_met requirement_required
            (''canonical checkout will return to '' @ lo_base_ref o') [])
     else mk_condition ''explicit-base'' verdict_met requirement_advisory ''linked checkout removal retains the task branch'' [])"

definition next_condition :: "string \<Rightarrow> condition" where
  "next_condition n =
    (if n = [] then mk_condition ''next-action'' verdict_needs_input requirement_advisory
       ''no next action is recorded'' ''set --next so resuming is cheap''
     else mk_condition ''next-action'' verdict_met requirement_advisory (''next: '' @ n) [])"

section \<open>Effects\<close>

definition should_close_warm :: "life_observation \<Rightarrow> park_warm_options \<Rightarrow> bool" where
  "should_close_warm o' options \<longleftrightarrow> \<not> pw_keep_session options \<and> lo_runtime_err o' = None \<and> lo_runtime o' \<noteq> None \<and>
    lo_runtime o' \<noteq> Some ''none'' \<and> \<not> in_caller_contained (lo_cleanup o') \<and> in_sessions (lo_cleanup o') \<noteq> []"

definition should_close_cold :: "life_observation \<Rightarrow> bool" where
  "should_close_cold o' \<longleftrightarrow> lo_runtime_err o' = None \<and> lo_runtime o' \<noteq> None \<and> lo_runtime o' \<noteq> Some ''none'' \<and>
    in_sessions (lo_cleanup o') \<noteq> []"

definition runtime_disposition_warm :: "life_observation \<Rightarrow> park_warm_options \<Rightarrow> string" where
  "runtime_disposition_warm o' options =
    (if pw_keep_session options \<or> in_caller_contained (lo_cleanup o') then ''retain'' else ''clear'')"

definition task_update_effect :: "life_observation \<Rightarrow> string \<Rightarrow> string \<Rightarrow> string \<Rightarrow> string \<Rightarrow> string \<Rightarrow> effect" where
  "task_update_effect o' state path disposition next_action note =
    new_effect ''update-task'' ''write lifecycle task state last'' (t_id (lo_task o')) False False
      [(''expected-revision'', tr_revision (lo_record o')), (''state'', state), (''owner'', ''current-host''),
       (''worktree-path'', path), (''runtime'', disposition), (''next'', next_action), (''note'', note)]"

definition commit_effects :: "life_observation \<Rightarrow> bool \<Rightarrow> string \<Rightarrow> effect list" where
  "commit_effects o' commit_wip next_action =
    (if commit_wip \<and> lo_status_err o' = None \<and> status_dirty (lo_status o') then
       [new_effect ''commit-wip'' ''checkpoint uncommitted product work'' (lo_checkout o') False False
          [(''message'', wip_message next_action)]]
     else [])"

definition push_effects :: "life_observation \<Rightarrow> bool \<Rightarrow> effect list" where
  "push_effects o' push =
    (if push then [new_effect ''push-branch'' ''push the task branch'' (t_branch (lo_task o')) False True
       [(''remote'', ''origin''), (''checkout'', lo_checkout o')]] else [])"

definition close_effects :: "life_observation \<Rightarrow> bool \<Rightarrow> effect list" where
  "close_effects o' close =
    (if close then [new_effect ''close-runtime'' ''close runtime sessions covering the checkout'' (lo_checkout o') False False
       [(''backend'', runtime_name (lo_runtime o'))]] else [])"

definition vacate_effect :: "life_observation \<Rightarrow> effect" where
  "vacate_effect o' =
    (if lo_mode o' = mode_worktree then
       new_effect ''remove-worktree'' ''remove the exact linked worktree without force'' (lo_checkout o') True False
         [(''repo'', lo_repo_path o'), (''branch'', t_branch (lo_task o')), (''head'', lo_head o'), (''force'', ''false'')]
     else new_effect ''switch-base'' ''switch the canonical checkout back to the explicit base'' (lo_repo_path o') False False
         [(''base'', lo_base_ref o'), (''task-branch'', t_branch (lo_task o'))])"

section \<open>The two plans\<close>

definition park_warm_conditions :: "(nat \<Rightarrow> bool) \<Rightarrow> life_observation \<Rightarrow> park_warm_options \<Rightarrow> condition list" where
  "park_warm_conditions pr o' options =
    park_checkout_conditions pr o' False (pw_commit_wip options) @ warm_publication_conditions o' @
    warm_runtime_conditions o' options @ [next_condition (desired_next o' (ParkWarmO options))]"

definition park_warm_effects :: "life_observation \<Rightarrow> park_warm_options \<Rightarrow> effect list" where
  "park_warm_effects o' options =
    (let n = desired_next o' (ParkWarmO options)
     in commit_effects o' (pw_commit_wip options) n @ push_effects o' (pw_push options) @
        close_effects o' (should_close_warm o' options) @
        [task_update_effect o' state_warm (t_worktree (lo_task o')) (runtime_disposition_warm o' options) n
           (desired_note (t_note (lo_task o')) (pw_note options))])"

definition park_warm_spec :: "(nat \<Rightarrow> bool) \<Rightarrow> string_map \<Rightarrow> gotime \<Rightarrow> park_warm_options \<Rightarrow> life_observation \<Rightarrow> plan_spec" where
  "park_warm_spec pr authority displayed options o' =
    \<lparr>ps_authority = authority, ps_conditions = park_warm_conditions pr o' options,
     ps_effects = park_warm_effects o' options,
     ps_retained = [''branch:'' @ t_branch (lo_task o')] @
       (if lo_checkout o' \<noteq> [] then [''checkout:'' @ lo_checkout o'] else []) @
       (if (pw_keep_session options \<or> in_caller_contained (lo_cleanup o')) \<and> t_runtime_handle (lo_task o') \<noteq> []
        then [''runtime:'' @ t_runtime_handle (lo_task o')] else []),
     ps_confirmation = \<lparr>cf_kind = confirmation_approval, cf_prompt = ''Park this task WARM?'', cf_token = []\<rparr>,
     ps_fallback = park_fallback (t_id (lo_task o')) False (ParkWarmO options),
     ps_summary = ''Park '' @ task_title (lo_task o') @ '' WARM'', ps_displayed_at = displayed\<rparr>"

definition park_cold_conditions :: "(nat \<Rightarrow> bool) \<Rightarrow> life_observation \<Rightarrow> park_cold_options \<Rightarrow> condition list" where
  "park_cold_conditions pr o' options =
    park_checkout_conditions pr o' True (pc_commit_wip options) @ cold_publication_conditions o' options @
    [artifact_condition o'] @ cold_runtime_conditions o' @
    [base_condition o', next_condition (desired_next o' (ParkColdO options))]"

definition park_cold_effects :: "life_observation \<Rightarrow> park_cold_options \<Rightarrow> effect list" where
  "park_cold_effects o' options =
    (let n = desired_next o' (ParkColdO options)
     in commit_effects o' (pc_commit_wip options) n @ push_effects o' (pc_push options) @
        close_effects o' (should_close_cold o') @ [vacate_effect o'] @
        [task_update_effect o' state_cold [] ''clear'' n (desired_note (t_note (lo_task o')) (pc_note options))])"

definition park_cold_spec :: "(nat \<Rightarrow> bool) \<Rightarrow> string_map \<Rightarrow> gotime \<Rightarrow> park_cold_options \<Rightarrow> life_observation \<Rightarrow> plan_spec" where
  "park_cold_spec pr authority displayed options o' =
    \<lparr>ps_authority = authority, ps_conditions = park_cold_conditions pr o' options,
     ps_effects = park_cold_effects o' options, ps_retained = [''branch:'' @ t_branch (lo_task o')],
     ps_confirmation = \<lparr>cf_kind = confirmation_approval, cf_prompt = ''Park this task COLD and remove its checkout?'', cf_token = []\<rparr>,
     ps_fallback = park_fallback (t_id (lo_task o')) True (ParkColdO options),
     ps_summary = ''Park '' @ task_title (lo_task o') @ '' COLD'', ps_displayed_at = displayed\<rparr>"

end
