(* ===== verification/LifeAuthority.thy ===== *)
theory LifeAuthority
  imports ParkPlan
begin

text \<open>
  The authority of a lifecycle plan (\<open>baseAuthority\<close> of \<open>lifecycle_observe.go\<close>) and the hashes of its
  observations (\<open>lifecycle_types.go\<close>). What only a completion or a review observes is empty in a
  parking and a resume; \<open>unobserved_authority\<close> holds those entries.
\<close>

definition authority_hash :: "(string \<Rightarrow> string) \<Rightarrow> string \<Rightarrow> string list \<Rightarrow> string" where
  "authority_hash sha domain vs = ''sha256:'' @ sum_hex sha domain (indexed (\<lambda>i v. id_string (dec_of i) v) 0 vs)"

section \<open>Hashes\<close>

definition intent_values :: "intent_readiness \<Rightarrow> string list" where
  "intent_values r = (let i = ir_intent r in
    [at_id i, at_status i, at_worktree_path i, at_branch i, at_base i, at_artifact_commit i, at_archive_commit i,
     at_archive_plan i, ir_state r, bool_text (ir_finalized r), bool_text (ir_receipt_reachable r), error_string (ir_error r)])"

definition artifact_values :: "artifact_inspection \<Rightarrow> string option \<Rightarrow> string list" where
  "artifact_values i err =
    [ar_checkout i, bool_text (ar_known_empty i), bool_text (artifact_ready i), error_string err] @
    (case ar_history i of None \<Rightarrow> [] | Some hist \<Rightarrow> [hr_fingerprint hist, bool_text (hr_ready hist)]) @
    concat (map intent_values (ar_intents i))"

definition artifact_authority :: "(string \<Rightarrow> string) \<Rightarrow> artifact_inspection \<Rightarrow> string option \<Rightarrow> string" where
  "artifact_authority sha i err = authority_hash sha ''taskflow-artifact-v1'' (artifact_values i err)"

definition pane_values :: "pane \<Rightarrow> string list" where
  "pane_values p = [pn_id p, pn_cwd p, pn_shell_cwd p, pn_agent p, pn_agent_status p, pn_agent_session p]"

definition session_values :: "retire_session \<Rightarrow> string list" where
  "session_values s = [ss_handle (rs_runtime s), ss_label (rs_runtime s), ss_agent_status (rs_runtime s)] @
    concat (map pane_values (rs_panes s)) @ [''mixed''] @ concat (map pane_values (rs_mixed s))"

definition cleanup_values :: "digests \<Rightarrow> inspection \<Rightarrow> string option \<Rightarrow> string list" where
  "cleanup_values dg i err =
    [in_target i, inspection_fingerprint dg i, dec_of (in_closed_sessions i), bool_text (in_runtime_unknown i),
     bool_text (in_caller_contained i), error_string err] @
    map blocker_text (in_blockers i) @ concat (map session_values (in_sessions i))"

definition cleanup_authority :: "(string \<Rightarrow> string) \<Rightarrow> digests \<Rightarrow> inspection \<Rightarrow> string option \<Rightarrow> string" where
  "cleanup_authority sha dg i err = authority_hash sha ''taskflow-cleanup-v1'' (cleanup_values dg i err)"

definition observation_authority :: "occupancy_observation \<Rightarrow> string option \<Rightarrow> string" where
  "observation_authority ob err = join_str [CHR 0x00] [bool_text (ob_supported ob), bool_text (ob_attempted ob), error_string err]"

definition occupancy_session_values :: "digests \<Rightarrow> occupancy_session \<Rightarrow> string list" where
  "occupancy_session_values dg s = [workspace_fingerprint dg (os_runtime s), bool_text (os_is_caller s)] @
    concat (map pane_values (os_panes s)) @ [''mixed''] @ concat (map pane_values (os_mixed s))"

definition occupancy_agent_values :: "occupancy_agent \<Rightarrow> string list" where
  "occupancy_agent_values a = (let v = oa_activity a in
    [aa_pane_id v, aa_workspace_id v, aa_agent v, aa_name v, oa_status a, aa_cwd v, oa_session_handle a,
     bool_text (oa_is_caller a), bool_text (oa_blocking a)])"

definition profile_text :: "occupancy_profile \<Rightarrow> string" where
  \<comment> \<open>\<open>strconv.Itoa(int(profile))\<close>\<close>
  "profile_text p = (case p of OccupancyStrict \<Rightarrow> ''0'' | OccupancyCleanup \<Rightarrow> ''1'')"

definition occupancy_values :: "digests \<Rightarrow> life_occupancy \<Rightarrow> string option \<Rightarrow> string list" where
  "occupancy_values dg oc err =
    [oc_target oc, oc_backend oc, profile_text (oc_profile oc), oc_caller_workspace oc, oc_reported_caller_pane oc, oc_caller_pane oc,
     observation_authority (oc_session_list oc) (oe_session_list oc), observation_authority (oc_agent_list oc) (oe_agent_list oc),
     observation_authority (oc_current_pane oc) (oe_current_pane oc), error_string (oe_coverage oc), error_string err] @
    concat (map (occupancy_session_values dg) (oc_sessions oc)) @ concat (map occupancy_agent_values (oc_agents oc))"

definition occupancy_authority :: "(string \<Rightarrow> string) \<Rightarrow> digests \<Rightarrow> life_occupancy \<Rightarrow> string option \<Rightarrow> string" where
  "occupancy_authority sha dg oc err = authority_hash sha ''taskflow-occupancy-v1'' (occupancy_values dg oc err)"

definition worktree_error_text :: "worktree_error option \<Rightarrow> string" where
  "worktree_error_text e = (case e of None \<Rightarrow> [] | Some e \<Rightarrow> we_text e)"

definition worktree_authority ::
  "(string \<Rightarrow> string) \<Rightarrow> registered_worktree \<Rightarrow> bool \<Rightarrow> worktree_error option \<Rightarrow> nat \<Rightarrow> string" where
  "worktree_authority sha w found err matches = authority_hash sha ''taskflow-worktree-v1''
    (if \<not> found then [''false'', worktree_error_text err, dec_of matches]
     else let v = rw_worktree w in
       [''true'', worktree_error_text err, dec_of matches, rw_repository_path w, rw_common_dir w, rw_path w,
        wt_path v, wt_head v, wt_branch v, bool_text (wt_detached v), bool_text (wt_bare v), bool_text (wt_main v),
        bool_text (wt_locked v), wt_locked_reason v, bool_text (wt_prunable v), wt_prunable_reason v])"

section \<open>The entries of the authority\<close>

definition task_authority :: "life_observation \<Rightarrow> string_map" where
  "task_authority o' = (let t = lo_task o' in
    [(''task.id'', t_id t), (''task.revision'', tr_revision (lo_record o')), (''task.mode'', lo_mode o'),
     (''task.state'', t_state t), (''task.repo'', t_repo t), (''task.repo-path'', t_repo_path t),
     (''task.branch'', t_branch t), (''task.base'', t_base t), (''task.worktree-path'', t_worktree t),
     (''task.owner'', t_owner t), (''task.runtime-name'', t_runtime_name t), (''task.runtime-handle'', t_runtime_handle t),
     (''repo.main-path'', lo_repo_path o'), (''repo.git-common-dir'', lo_common_dir o')])"

definition worktree_entries :: "(string \<Rightarrow> string) \<Rightarrow> life_observation \<Rightarrow> string_map" where
  "worktree_entries sha o' = (let v = rw_worktree (lo_worktree o') in
    [(''worktree.fingerprint'', worktree_authority sha (lo_worktree o') (lo_worktree_found o') (lo_worktree_err o') (lo_branch_matches o')),
     (''worktree.present'', bool_text (lo_worktree_found o')), (''worktree.path'', rw_path (lo_worktree o')),
     (''worktree.branch'', wt_branch v), (''worktree.head'', wt_head v), (''worktree.main'', bool_text (wt_main v)),
     (''worktree.locked'', bool_text (wt_locked v)), (''worktree.locked-reason'', wt_locked_reason v),
     (''worktree.prunable'', bool_text (wt_prunable v)), (''worktree.prunable-reason'', wt_prunable_reason v)])"

definition git_entries :: "life_observation \<Rightarrow> string_map" where
  "git_entries o' = (let st = lo_status o' in
    [(''git.status-error'', error_string (lo_status_err o')), (''git.branch'', gs_branch st),
     (''git.detached'', bool_text (gs_detached st)), (''git.upstream'', gs_upstream st),
     (''git.ahead'', int_text (gs_ahead st)), (''git.behind'', int_text (gs_behind st)),
     (''git.changed'', dec_of (gs_changed st)), (''git.staged'', dec_of (gs_staged st)),
     (''git.unstaged'', dec_of (gs_unstaged st)), (''git.untracked'', dec_of (gs_untracked st)),
     (''git.conflicted'', dec_of (gs_conflicted st)), (''git.head'', lo_head o'),
     (''git.head-error'', error_string (lo_head_err o')), (''git.base-oid'', lo_base_oid o'),
     (''git.base-oid-error'', error_string (lo_base_oid_err o')), (''git.upstream-oid'', lo_upstream_oid o'),
     (''git.upstream-oid-error'', error_string (lo_upstream_oid_err o')), (''git.operation'', lo_operation o'),
     (''git.operation-active'', bool_text (lo_in_progress o')), (''git.operation-error'', error_string (lo_operation_err o')),
     (''git.local-branch-exists'', bool_text (lo_local_exists o')), (''git.local-branch-oid'', lo_local_oid o'),
     (''git.local-branch-oid-error'', error_string (lo_local_oid_err o')), (''git.remote-branch'', lo_remote_branch o'),
     (''git.remote-branch-exists'', bool_text (lo_remote_exists o')), (''git.remote-branch-oid'', lo_remote_oid o'),
     (''git.remote-branch-oid-error'', error_string (lo_remote_oid_err o'))])"

definition runtime_entries :: "'w life_service \<Rightarrow> life_observation \<Rightarrow> string_map" where
  "runtime_entries s o' = (let i = lo_cleanup o' in
    [(''runtime.error'', error_string (lo_runtime_err o')), (''runtime.backend'', runtime_name (lo_runtime o')),
     (''runtime.available'', bool_text (lo_runtime_available o')),
     (''runtime.cleanup-fingerprint'', cleanup_authority (ls_sha s) (ls_digests s) i (lo_cleanup_err o')),
     (''runtime.cleanup-error'', error_string (lo_cleanup_err o')),
     (''runtime.cleanup-sessions'', dec_of (length (in_sessions i))),
     (''runtime.cleanup-blockers'', join_str [CHR 0x00] (map blocker_text (in_blockers i))),
     (''runtime.cleanup-caller'', bool_text (in_caller_contained i)),
     (''runtime.cleanup-unknown'', bool_text (in_runtime_unknown i)),
     (''runtime.occupancy-fingerprint'', occupancy_authority (ls_sha s) (ls_digests s) (lo_occupancy o') (lo_occupancy_err o')),
     (''runtime.occupancy-error'', error_string (lo_occupancy_err o')),
     (''runtime.occupancy-sessions'', dec_of (length (oc_sessions (lo_occupancy o')))),
     (''runtime.occupancy-agents'', dec_of (length (oc_agents (lo_occupancy o')))),
     (''runtime.saved-live'', bool_text (lo_saved_live o')),
     (''artifact.fingerprint'', artifact_authority (ls_sha s) (lo_artifact o') (lo_artifact_err o')),
     (''artifact.ready'', bool_text (artifact_ready (lo_artifact o'))),
     (''artifact.known-empty'', bool_text (ar_known_empty (lo_artifact o'))),
     (''artifact.intent-count'', dec_of (length (ar_intents (lo_artifact o')))),
     (''artifact.error'', error_string (lo_artifact_err o')),
     (''resume.base-ref'', lo_base_ref o'), (''resume.base-ref-exists'', bool_text (lo_base_ref_exists o')),
     (''resume.base-ref-exists-error'', error_string (lo_base_ref_err o')),
     (''resume.desired-worktree'', lo_desired o'), (''resume.desired-worktree-error'', error_string (lo_desired_err o')),
     (''service.host'', ls_host s), (''service.allow-shared-checkout'', bool_text (ls_allow_shared s)),
     (''caller.cwd'', ls_cwd s), (''caller.workspace'', ls_workspace s), (''caller.pane'', ls_pane s)])"

definition empty_integration_hash :: "(string \<Rightarrow> string) \<Rightarrow> digests \<Rightarrow> string" where
  "empty_integration_hash sha dg = authority_hash sha ''taskflow-integration-v1''
    [worktree_authority sha no_worktree False None 0, stringify_status no_status, [], [], [], [], ''false'', [],
     occupancy_authority sha dg no_occupancy None, ''0'', [], [], []]"

definition empty_finish_hash :: "(string \<Rightarrow> string) \<Rightarrow> string" where
  "empty_finish_hash sha = authority_hash sha ''taskflow-finish-v1'' [[], ''0'', ''0'', stringify_status no_status, []]"

definition unobserved_authority :: "(string \<Rightarrow> string) \<Rightarrow> digests \<Rightarrow> string_map" where
  "unobserved_authority sha dg =
    [(''finish.fingerprint'', []), (''finish.authority'', empty_finish_hash sha), (''finish.error'', []),
     (''finish.base-only'', ''0''), (''finish.branch-only'', ''0''), (''finish.status-changed'', ''0''),
     (''finish.status-staged'', ''0''), (''finish.status-unstaged'', ''0''), (''finish.status-untracked'', ''0''),
     (''finish.status-conflicted'', ''0''), (''finish.unique-dirty'', ''0''), (''finish.equivalent-dirty'', ''0''),
     (''completion.base-ref'', []), (''completion.base-oid'', []), (''completion.base-oid-error'', []),
     (''completion.expected-branch'', []), (''completion.branch-oid'', []), (''completion.proof-ref'', []),
     (''completion.proof-oid'', []), (''completion.proof-oid-error'', []), (''completion.proof-contained'', ''false''),
     (''completion.proof-error'', []), (''completion.integration'', empty_integration_hash sha dg), (''review.kind'', []),
     (''review.remote-url'', []), (''review.repository'', []), (''review.provider-bin'', []), (''review.provider-error'', []),
     (''review.provider-available'', ''false''),
     (''finish.change-count'', ''0'')]"

fun option_authority :: "action_options \<Rightarrow> string_map" where
  \<comment> \<open>\<open>appendOptionAuthority\<close> for the parking actions and the resume\<close>
  "option_authority (ParkWarmO v) =
    [(''option.next'', pw_next v), (''option.note'', pw_note v), (''option.commit-wip'', bool_text (pw_commit_wip v)),
     (''option.push'', bool_text (pw_push v)), (''option.keep-session'', bool_text (pw_keep_session v)),
     (''option.close-unknown'', bool_text (pw_close_unknown v)),
     (''option.assume-no-runtime'', bool_text (pw_assume_no_runtime v)), (''option.timeout'', duration_text (pw_timeout v))]"
| "option_authority (ParkColdO v) =
    [(''option.next'', pc_next v), (''option.note'', pc_note v), (''option.commit-wip'', bool_text (pc_commit_wip v)),
     (''option.push'', bool_text (pc_push v)), (''option.close-unknown'', bool_text (pc_close_unknown v)),
     (''option.assume-no-runtime'', bool_text (pc_assume_no_runtime v)), (''option.timeout'', duration_text (pc_timeout v))]"
| "option_authority (ResumeO v) =
    [(''option.fetch-refs'', bool_text (rs_fetch_refs v)), (''option.no-provision'', bool_text (rs_no_provision v)),
     (''option.take-ownership'', bool_text (rs_take_ownership v))]"
| "option_authority _ = []"

definition base_authority :: "'w life_service \<Rightarrow> action_options \<Rightarrow> life_observation \<Rightarrow> string_map" where
  "base_authority s options o' = task_authority o' @ worktree_entries (ls_sha s) o' @ git_entries o' @
    runtime_entries s o' @ unobserved_authority (ls_sha s) (ls_digests s) @ option_authority options"

end
