(* ===== verification/ParkApply.thy ===== *)
theory ParkApply
  imports LifeAuthority
begin

text \<open>
  \<open>taskflow/lifecycle_apply.go\<close>: the checks repeated right before a mutation and the execution of the
  effects of a parking plan. Each function threads the execution (or the observation it updates) and
  the world through the hooks in the order the code calls them; the first error stops it.
\<close>

section \<open>Fresh reads\<close>

definition resolve_ref_oid :: "'w life_service \<Rightarrow> string \<Rightarrow> string \<Rightarrow> 'w \<Rightarrow> (string \<times> string option) \<times> 'w" where
  "resolve_ref_oid s dir ref w =
    (if ref = [] then (([], None), w)
     else case ls_git_run s dir [''rev-parse'', ''--verify'', ref @ ''^{commit}''] w of ((v, err), w') \<Rightarrow> ((trim_space v, err), w'))"

definition head_args :: "string list" where
  "head_args = [''rev-parse'', ''HEAD'']"

definition revalidate_git_baseline :: "'w life_service \<Rightarrow> life_observation \<Rightarrow> 'w \<Rightarrow> life_error option \<times> 'w" where
  "revalidate_git_baseline s o' w =
    (case ls_resolve_worktree s (lo_repo_path o') (lo_checkout o') w of ((registered, err), w) \<Rightarrow>
     if err \<noteq> None then (Some (stale_boundary (''exact worktree registration changed: '' @ we_text (the err))), w)
     else if registered \<noteq> lo_worktree o' then
       (Some (stale_boundary ''exact worktree path, branch, HEAD, Main, locked, or prunable flags changed''), w)
     else case ls_status s (lo_checkout o') w of ((status, err), w) \<Rightarrow>
     if err \<noteq> None then (Some (stale_boundary (''Git status observation changed: '' @ the err)), w)
     else if \<not> same_status status (lo_status o') then
       (Some (stale_boundary ''Git status, branch, upstream, ahead, behind, dirty, or conflict evidence changed''), w)
     else case ls_git_run s (lo_checkout o') head_args w of ((head, err), w) \<Rightarrow>
     if err \<noteq> None \<or> trim_space head \<noteq> lo_head o' then (Some (stale_boundary ''checkout HEAD changed''), w)
     else case resolve_ref_oid s (lo_repo_path o') (t_base (lo_task o')) w of ((base_oid, base_err), w) \<Rightarrow>
     case resolve_ref_oid s (lo_repo_path o') (gs_upstream status) w of ((upstream_oid, upstream_err), w) \<Rightarrow>
     if error_string base_err \<noteq> error_string (lo_base_oid_err o') \<or> base_oid \<noteq> lo_base_oid o' \<or>
        error_string upstream_err \<noteq> error_string (lo_upstream_oid_err o') \<or> upstream_oid \<noteq> lo_upstream_oid o'
     then (Some (stale_boundary ''base or upstream ref OID changed''), w)
     else case ls_in_progress s (lo_checkout o') w of ((operation, active, err), w) \<Rightarrow>
     (fail_if (err \<noteq> None \<or> operation \<noteq> lo_operation o' \<or> active \<noteq> lo_in_progress o')
        (stale_boundary ''Git operation evidence changed''), w))"

definition refresh_branch_text :: "(nat \<Rightarrow> bool) \<Rightarrow> registered_worktree \<Rightarrow> git_status \<Rightarrow> string \<Rightarrow> string" where
  "refresh_branch_text pr registered status expected =
    ''checkout branch changed: registry='' @ quote_go pr (wt_branch (rw_worktree registered)) @
    '' status='' @ quote_go pr (gs_branch status) @ '' expected='' @ quote_go pr expected"

definition refresh_kind_error :: "life_observation \<Rightarrow> registered_worktree \<Rightarrow> string option" where
  \<comment> \<open>the checks of \<open>refreshCheckout\<close> on the registered worktree alone\<close>
  "refresh_kind_error o' registered = checks
    [fail_if (rw_path registered \<noteq> lo_checkout o' \<or> rw_common_dir registered \<noteq> lo_common_dir o')
       ''checkout path or Git common directory changed'',
     fail_if (lo_mode o' = mode_worktree \<and> \<not> is_linked_worktree registered)
       ''worktree task no longer resolves to a linked checkout'',
     fail_if (lo_mode o' \<noteq> mode_worktree \<and> (\<not> wt_main (rw_worktree registered) \<or> wt_bare (rw_worktree registered)))
       ''canonical task no longer resolves to the main checkout'']"

definition refresh_checkout :: "'w life_service \<Rightarrow> life_observation \<Rightarrow> string \<Rightarrow> 'w \<Rightarrow> string option \<times> life_observation \<times> 'w" where
  "refresh_checkout s o' expected w =
    (case ls_resolve_worktree s (lo_repo_path o') (lo_checkout o') w of ((registered, err), w) \<Rightarrow>
     if err \<noteq> None then (Some (we_text (the err)), o', w)
     else case refresh_kind_error o' registered of Some e \<Rightarrow> (Some e, o', w)
     | None \<Rightarrow> case ls_status s (lo_checkout o') w of ((status, err), w) \<Rightarrow>
     if err \<noteq> None then (err, o', w)
     else if gs_detached status \<or> expected \<noteq> [] \<and> gs_branch status \<noteq> expected \<or>
             wt_branch (rw_worktree registered) \<noteq> gs_branch status
     then (Some (refresh_branch_text (ls_printable s) registered status expected), o', w)
     else case ls_git_run s (lo_checkout o') head_args w of ((head, err), w) \<Rightarrow>
     if err \<noteq> None then (err, o', w)
     else if wt_head (rw_worktree registered) \<noteq> trim_space head then
       (Some (''worktree registry HEAD '' @ quote_go (ls_printable s) (wt_head (rw_worktree registered)) @
          '' differs from checkout HEAD '' @ quote_go (ls_printable s) (trim_space head)), o', w)
     else case resolve_ref_oid s (lo_repo_path o') (t_base (lo_task o')) w of ((base_oid, base_err), w) \<Rightarrow>
     case resolve_ref_oid s (lo_repo_path o') (gs_upstream status) w of ((upstream_oid, upstream_err), w) \<Rightarrow>
     case ls_in_progress s (lo_checkout o') w of ((operation, active, err), w) \<Rightarrow>
     if err \<noteq> None then (err, o', w)
     else (None, o'\<lparr>lo_worktree := registered, lo_status := status, lo_status_err := None,
       lo_head := trim_space head, lo_head_err := None, lo_base_oid := base_oid, lo_base_oid_err := base_err,
       lo_upstream_oid := upstream_oid, lo_upstream_oid_err := upstream_err, lo_operation := operation,
       lo_in_progress := active, lo_operation_err := None\<rparr>, w))"

definition ensure_park_branch_identity :: "'w life_service \<Rightarrow> life_observation \<Rightarrow> 'w \<Rightarrow> life_error option \<times> 'w" where
  "ensure_park_branch_identity s o' w =
    (case revalidate_git_baseline s o' w of
       (Some e, w) \<Rightarrow> (Some e, w)
     | (None, w) \<Rightarrow>
       (fail_if (gs_detached (lo_status o') \<or> gs_branch (lo_status o') \<noteq> t_branch (lo_task o') \<or>
          lo_in_progress o' \<or> 0 < gs_conflicted (lo_status o'))
          (stale_boundary ''task branch, conflict, or Git operation evidence changed before push''), w))"

definition cold_git_error :: "life_observation \<Rightarrow> life_error option" where
  \<comment> \<open>the checks of \<open>ensureColdGitReady\<close> after the baseline was confirmed\<close>
  "cold_git_error o' = checks
    [fail_if (status_dirty (lo_status o')) (LPlain (''cold parking requires a clean checkout: '' @ status_breakdown (lo_status o'))),
     fail_if (gs_detached (lo_status o') \<or> gs_branch (lo_status o') \<noteq> t_branch (lo_task o'))
       (LPlain ''cold parking checkout is no longer on the task branch''),
     fail_if (lo_in_progress o' \<or> 0 < gs_conflicted (lo_status o'))
       (LPlain ''cold parking refuses an active Git operation or unresolved conflict''),
     fail_if (\<not> status_published (lo_status o') \<or> gs_ahead (lo_status o') \<noteq> 0)
       (LPlain (''cold parking requires a published ahead=0 branch; status is '' @ status_summary (lo_status o')))]"

definition ensure_cold_git_ready :: "'w life_service \<Rightarrow> life_observation \<Rightarrow> 'w \<Rightarrow> life_error option \<times> 'w" where
  "ensure_cold_git_ready s o' w =
    (case revalidate_git_baseline s o' w of (Some e, w) \<Rightarrow> (Some e, w) | (None, w) \<Rightarrow> (cold_git_error o', w))"

definition revalidate_cold_artifact :: "'w life_service \<Rightarrow> life_observation \<Rightarrow> 'w \<Rightarrow> life_error option \<times> 'w" where
  "revalidate_cold_artifact s o' w =
    (if lo_mode o' \<noteq> mode_worktree then (None, w)
     else case ls_inspect_artifacts s (lo_checkout o') w of ((fresh, err), w) \<Rightarrow>
       (checks [map_option LPlain err,
          fail_if (\<not> artifact_ready fresh) (LPlain ''artifact readiness changed to blocked''),
          fail_if (artifact_authority (ls_sha s) fresh None \<noteq> artifact_authority (ls_sha s) (lo_artifact o') (lo_artifact_err o'))
            (stale_boundary ''artifact intent or receipt authority changed'')], w))"

record closure_flags =
  cl_close_unknown :: bool
  cl_assume_no_runtime :: bool
  cl_timeout :: duration

definition flag_options :: "life_observation \<Rightarrow> closure_flags \<Rightarrow> close_options" where
  "flag_options o' f = cleanup_options o' (cl_close_unknown f) (cl_assume_no_runtime f) (cl_timeout f)"

definition revalidate_cleanup_baseline ::
  "'w life_service \<Rightarrow> life_observation \<Rightarrow> closure_flags \<Rightarrow> 'w \<Rightarrow> life_error option \<times> 'w" where
  "revalidate_cleanup_baseline s o' f w =
    (case ls_inspect_cleanup s (runtime_name (lo_runtime o')) (lo_checkout o') (flag_options o' f) w of ((fresh, err), w) \<Rightarrow>
      (checks [map_option LPlain err,
         fail_if (cleanup_authority (ls_sha s) (ls_digests s) fresh None \<noteq>
             cleanup_authority (ls_sha s) (ls_digests s) (lo_cleanup o') (lo_cleanup_err o'))
           (stale_boundary ''runtime occupancy, caller, agent, or session evidence changed'')], w))"

definition coverage_gone :: "inspection \<Rightarrow> bool" where
  \<comment> \<open>\<open>Ready() && !CallerContained && len(Sessions) == 0\<close>\<close>
  "coverage_gone i \<longleftrightarrow> inspection_ready i \<and> \<not> in_caller_contained i \<and> in_sessions i = []"

definition ensure_runtime_released ::
  "'w life_service \<Rightarrow> life_observation \<Rightarrow> closure_flags \<Rightarrow> 'w \<Rightarrow> life_error option \<times> life_observation \<times> 'w" where
  "ensure_runtime_released s o' f w =
    (case ls_inspect_cleanup s (runtime_name (lo_runtime o')) (lo_checkout o') (flag_options o' f) w of ((fresh, err), w) \<Rightarrow>
     case checks [map_option LPlain err, fail_if (\<not> coverage_gone fresh) (LPlain ''runtime coverage reappeared after closure'')] of
       Some e \<Rightarrow> (Some e, o', w)
     | None \<Rightarrow> (None, o'\<lparr>lo_cleanup := fresh, lo_cleanup_err := None\<rparr>, w))"

definition ensure_cold_removal_boundary ::
  "'w life_service \<Rightarrow> life_observation \<Rightarrow> closure_flags \<Rightarrow> bool \<Rightarrow> 'w \<Rightarrow> life_error option \<times> life_observation \<times> 'w" where
  "ensure_cold_removal_boundary s o' f runtime_was_closed w =
    (case ensure_cold_git_ready s o' w of (Some e, w) \<Rightarrow> (Some e, o', w) | (None, w) \<Rightarrow>
     case revalidate_cold_artifact s o' w of (Some e, w) \<Rightarrow> (Some e, o', w) | (None, w) \<Rightarrow>
     case ls_inspect_cleanup s (runtime_name (lo_runtime o')) (lo_checkout o') (flag_options o' f) w of ((fresh, err), w) \<Rightarrow>
     case checks [map_option LPlain err,
         fail_if (\<not> coverage_gone fresh) (LPlain ''cleanup occupancy is no longer empty and safe''),
         fail_if (\<not> runtime_was_closed \<and> cleanup_authority (ls_sha s) (ls_digests s) fresh None \<noteq>
             cleanup_authority (ls_sha s) (ls_digests s) (lo_cleanup o') (lo_cleanup_err o'))
           (stale_boundary ''runtime occupancy changed before cleanup'')] of
       Some e \<Rightarrow> (Some e, o', w)
     | None \<Rightarrow> (None, o'\<lparr>lo_cleanup := fresh, lo_cleanup_err := None\<rparr>, w))"

section \<open>Steps\<close>

text \<open>
  What an effect of a plan runs is a list of steps; a step that fails gives the error and the recovery
  advice its call of \<open>fail\<close> adds to the ledger.
\<close>

type_synonym 'w park_step = "execution \<Rightarrow> 'w \<Rightarrow> (life_error \<times> string list) option \<times> execution \<times> 'w"

definition check_step :: "(life_observation \<Rightarrow> 'w \<Rightarrow> life_error option \<times> 'w) \<Rightarrow> string \<Rightarrow> 'w park_step" where
  \<comment> \<open>\<open>if err := check(*observed); err != nil { return e.fail(err, advice) }\<close>\<close>
  "check_step g advice ex w = (case g (ex_observed ex) w of (err, w') \<Rightarrow> (map_option (\<lambda>e. (e, [advice])) err, ex, w'))"

definition update_step ::
  "(life_observation \<Rightarrow> 'w \<Rightarrow> life_error option \<times> life_observation \<times> 'w) \<Rightarrow> string \<Rightarrow> 'w park_step" where
  \<comment> \<open>the same for a check that updates the observation\<close>
  "update_step g advice ex w = (case g (ex_observed ex) w of (err, o', w') \<Rightarrow>
    (map_option (\<lambda>e. (e, [advice])) err, ex\<lparr>ex_observed := o'\<rparr>, w'))"

definition run_step ::
  "'w life_service \<Rightarrow> effect \<Rightarrow> (execution \<Rightarrow> 'w \<Rightarrow> (string \<times> life_error option) \<times> execution \<times> 'w) \<Rightarrow> string \<Rightarrow> 'w park_step" where
  "run_step s e operation advice ex w = (case run_effect s e operation ex w of (err, ex', w') \<Rightarrow>
    (map_option (\<lambda>e. (e, [advice])) err, ex', w'))"

fun run_steps :: "'w park_step list \<Rightarrow> execution \<Rightarrow> 'w \<Rightarrow> life_error option \<times> execution \<times> 'w" where
  "run_steps [] ex w = (None, ex, w)"
| "run_steps (m # ms) ex w =
    (case m ex w of
       (Some (e, advice), ex', w') \<Rightarrow> (Some e, ex'\<lparr>ex_recovery := ex_recovery ex' @ advice\<rparr>, w')
     | (None, ex', w') \<Rightarrow> run_steps ms ex' w')"

section \<open>The operations\<close>

definition detail_of :: "effect \<Rightarrow> string \<Rightarrow> string" where
  \<comment> \<open>\<open>effect.Details.Map()[key]\<close>\<close>
  "detail_of e key = closure_of (rev (fields_map (e_details e))) key"

definition local_branch_ref :: "string \<Rightarrow> string" where
  "local_branch_ref branch = (if branch = [] then [] else ''refs/heads/'' @ branch)"

definition wip_operation :: "'w life_service \<Rightarrow> effect \<Rightarrow> execution \<Rightarrow> 'w \<Rightarrow> (string \<times> life_error option) \<times> execution \<times> 'w" where
  "wip_operation s e ex w =
    (case ls_wip_commit s (lo_checkout (ex_observed ex)) (detail_of e ''message'') w of ((made, err), w') \<Rightarrow>
      ((case err of Some t \<Rightarrow> ([], Some (LPlain (''checkpoint WIP: '' @ t)))
        | None \<Rightarrow> (if \<not> made then ''no product changes required a checkpoint'' else ''created WIP checkpoint'', None)), ex, w'))"

definition push_args :: "string \<Rightarrow> string list" where
  "push_args branch = [''push'', ''--set-upstream'', ''origin'', branch]"

definition push_operation :: "'w life_service \<Rightarrow> execution \<Rightarrow> 'w \<Rightarrow> (string \<times> life_error option) \<times> execution \<times> 'w" where
  "push_operation s ex w =
    (let b = t_branch (lo_task (ex_observed ex)) in
     case ls_git_run s (lo_checkout (ex_observed ex)) (push_args b) w of ((_, err), w') \<Rightarrow>
      ((case err of Some t \<Rightarrow> ([], Some (LPlain (''push '' @ b @ '': '' @ t)))
        | None \<Rightarrow> (''pushed origin/'' @ b, None)), ex, w'))"

definition close_operation ::
  "'w life_service \<Rightarrow> closure_flags \<Rightarrow> execution \<Rightarrow> 'w \<Rightarrow> (string \<times> life_error option) \<times> execution \<times> 'w" where
  "close_operation s f ex w =
    (let o' = ex_observed ex in
     case ls_close_and_wait s (runtime_name (lo_runtime o')) (lo_checkout o') (flag_options o' f) w of ((closed, err), w') \<Rightarrow>
      (case err of Some t \<Rightarrow> (([], Some (LPlain t)), ex, w')
       | None \<Rightarrow> ((''closed '' @ dec_of (in_closed_sessions closed) @ '' '' @ runtime_name (lo_runtime o') @ '' session(s)'', None),
           ex\<lparr>ex_observed := o'\<lparr>lo_cleanup := closed\<rparr>\<rparr>, w')))"

definition remove_with_submodules :: "'w life_service \<Rightarrow> execution \<Rightarrow> 'w \<Rightarrow> string option \<times> execution \<times> 'w" where
  "remove_with_submodules s ex w =
    (let o' = ex_observed ex in
     if \<not> ex_removal ex then
       (case ls_remove_worktree s (lo_repo_path o') (lo_checkout o') w of (err, w') \<Rightarrow> (err, ex, w'))
     else case ls_apply_removal s (lo_repo_path o') (lo_checkout o') w of ((err, pruned), w') \<Rightarrow>
       (err, (case pruned of None \<Rightarrow> ex | Some paths \<Rightarrow> ex\<lparr>ex_partial := True, ex_recovery := ex_recovery ex @
          [''Empty submodule administration directories were pruned: '' @ join_str '', '' paths @
           ''. Outer cleanup is incomplete; refresh the plan before retrying.'']\<rparr>), w'))"

definition remove_operation :: "'w life_service \<Rightarrow> execution \<Rightarrow> 'w \<Rightarrow> (string \<times> life_error option) \<times> execution \<times> 'w" where
  "remove_operation s ex w =
    (case remove_with_submodules s ex w of (err, ex', w') \<Rightarrow>
      ((case err of Some t \<Rightarrow> ([], Some (LPlain (''remove exact worktree '' @ lo_checkout (ex_observed ex) @ '': '' @ t)))
        | None \<Rightarrow> (''removed exact linked worktree; branch retained'', None)), ex', w'))"

definition switch_operation ::
  "'w life_service \<Rightarrow> string \<Rightarrow> execution \<Rightarrow> 'w \<Rightarrow> (string \<times> life_error option) \<times> execution \<times> 'w" where
  "switch_operation s base ex w =
    (case ls_git_run s (lo_repo_path (ex_observed ex)) [''switch'', base] w of ((_, err), w') \<Rightarrow>
      ((case err of Some t \<Rightarrow> ([], Some (LPlain (''switch canonical checkout to '' @ base @ '': '' @ t)))
        | None \<Rightarrow> (''switched canonical checkout to '' @ base, None)), ex, w'))"

definition record_operation ::
  "'w life_service \<Rightarrow> string \<Rightarrow> (life_observation \<Rightarrow> task \<Rightarrow> task) \<Rightarrow> execution \<Rightarrow> 'w \<Rightarrow>
   (string \<times> life_error option) \<times> execution \<times> 'w" where
  \<comment> \<open>the task write that ends a parking, with the name of the state it records\<close>
  "record_operation s label candidate ex w =
    (let o' = ex_observed ex in
     case ls_task_update s (candidate o' (lo_task o')) (ex_revision ex) w of ((updated, err), w') \<Rightarrow>
      (case err of Some t \<Rightarrow> (([], Some (LPlain (''write '' @ label @ '' task state: '' @ t))), ex, w')
       | None \<Rightarrow> (case updated of
           None \<Rightarrow> (([], Some (LPlain (''write '' @ label @ '' task state returned no revision''))), ex, w')
         | Some r \<Rightarrow> ((''recorded '' @ label @ '' at revision '' @ tr_revision r, None),
             ex\<lparr>ex_snapshot := ''task:'' @ tr_revision r, ex_observed := o'\<lparr>lo_task := tr_task r\<rparr>\<rparr>, w'))))"

definition refresh_step :: "'w life_service \<Rightarrow> string \<Rightarrow> string option \<Rightarrow> string \<Rightarrow> 'w park_step" where
  \<comment> \<open>\<open>refreshCheckout\<close> on the task branch, or on another one, with the prefix of its error\<close>
  "refresh_step s prefix other = update_step (\<lambda>o' w.
    case refresh_checkout s o' (case other of None \<Rightarrow> t_branch (lo_task o') | Some b \<Rightarrow> b) w of (err, o'', w') \<Rightarrow>
      (map_option (\<lambda>t. LPlain (prefix @ '': '' @ t)) err, o'', w'))"

definition branch_retained_step :: "'w life_service \<Rightarrow> string \<Rightarrow> string \<Rightarrow> string \<Rightarrow> string \<Rightarrow> 'w park_step" where
  "branch_retained_step s failure failure_advice missing missing_advice ex w =
    (case ls_ref_state s (lo_repo_path (ex_observed ex)) (local_branch_ref (t_branch (lo_task (ex_observed ex)))) w of
       ((there, err), w') \<Rightarrow>
         ((case err of Some t \<Rightarrow> Some (LPlain (failure @ '': '' @ t), [failure_advice])
           | None \<Rightarrow> if \<not> there then Some (LPlain missing, [missing_advice]) else None), ex, w'))"

definition base_exists_step :: "'w life_service \<Rightarrow> string \<Rightarrow> 'w park_step" where
  "base_exists_step s base ex w =
    (case ls_ref_state s (lo_repo_path (ex_observed ex)) base w of ((there, err), w') \<Rightarrow>
      ((case err of
          Some t \<Rightarrow> Some (LPlain (''observe explicit base before canonical checkout switch: '' @ t), [''repair Git ref observation and retry''])
        | None \<Rightarrow> if base = [] \<or> \<not> there
            then Some (stale_boundary ''explicit base ref changed before canonical checkout switch'', [''restore the recorded base and retry''])
            else None), ex, w'))"

section \<open>Parking WARM\<close>

definition warm_flags :: "park_warm_options \<Rightarrow> closure_flags" where
  "warm_flags v = \<lparr>cl_close_unknown = pw_close_unknown v, cl_assume_no_runtime = pw_assume_no_runtime v, cl_timeout = pw_timeout v\<rparr>"

definition warm_candidate :: "string \<Rightarrow> park_warm_options \<Rightarrow> life_observation \<Rightarrow> task \<Rightarrow> task" where
  "warm_candidate host v o' t =
    (let t = t\<lparr>t_state := state_warm, t_owner := host\<rparr>;
         t = (if pw_next v \<noteq> [] then t\<lparr>t_next := pw_next v\<rparr> else t);
         t = (if pw_note v \<noteq> [] then t\<lparr>t_note := pw_note v\<rparr> else t)
     in if \<not> pw_keep_session v \<and> \<not> in_caller_contained (lo_cleanup o')
        then t\<lparr>t_runtime_handle := [], t_runtime_name := []\<rparr> else t)"

definition warm_warnings :: "park_warm_options \<Rightarrow> life_observation \<Rightarrow> string list" where
  "warm_warnings v o' =
    (if lo_status_err o' = None \<and> status_dirty (lo_status o') \<and> \<not> pw_commit_wip v
     then [lo_checkout o' @ '' has uncommitted changes; bytes remain in place''] else []) @
    (if desired_next o' (ParkWarmO v) = [] then [''no next action is recorded''] else []) @
    (if \<not> pw_keep_session v \<and> in_caller_contained (lo_cleanup o')
     then [''runtime remains active because the caller is contained; exit normally and reconcile later''] else [])"

definition warm_steps :: "'w life_service \<Rightarrow> park_warm_options \<Rightarrow> string \<Rightarrow> bool \<Rightarrow> effect \<Rightarrow> 'w park_step list" where
  \<comment> \<open>the body of the loop of \<open>applyParkWarm\<close>; \<open>closed\<close> is \<open>closedRuntime\<close>\<close>
  "warm_steps s v i closed e =
    (if e_code e = ''commit-wip'' then
       [check_step (revalidate_git_baseline s) ''refresh the task and retry warm parking'',
        run_step s e (wip_operation s e) ''preserve the checkout and retry after fixing the checkpoint failure'',
        refresh_step s ''refresh after WIP checkpoint'' None ''inspect the committed checkpoint before retrying'']
     else if e_code e = ''push-branch'' then
       [check_step (revalidate_git_baseline s) ''inspect the checkout and retry the push'',
        run_step s e (push_operation s) ''the checkout remains present; resolve the push and retry warm parking'',
        refresh_step s ''refresh after push'' None ''inspect the published branch before retrying'']
     else if e_code e = ''close-runtime'' then
       [check_step (revalidate_git_baseline s) ''refresh the task and retry runtime closure'',
        check_step (\<lambda>o'. revalidate_cleanup_baseline s o' (warm_flags v)) ''inspect runtime occupancy from outside the checkout'',
        run_step s e (close_operation s (warm_flags v)) ''the checkout and task record remain; inspect runtime occupancy and retry'',
        update_step (\<lambda>o'. ensure_runtime_released s o' (warm_flags v)) ''a runtime reclaimed the checkout; close it from outside and retry'']
     else if e_code e = ''update-task'' then
       [check_step (revalidate_git_baseline s) ''refresh the task before recording WARM''] @
       (if pw_keep_session v then []
        else if closed then [update_step (\<lambda>o'. ensure_runtime_released s o' (warm_flags v))
          ''runtime occupancy changed; refresh and retry warm parking'']
        else [check_step (\<lambda>o'. revalidate_cleanup_baseline s o' (warm_flags v))
          ''runtime occupancy changed; refresh and retry warm parking'']) @
       [run_step s e (record_operation s ''WARM'' (warm_candidate (ls_host s) v))
          ''Git/runtime effects may already be complete; reload the task and reconcile its state'']
     else [\<lambda>ex w. (Some (LInvalidPlan i (''unexpected ParkWarm effect '' @ e_code e), []), ex, w)])"

fun warm_loop ::
  "'w life_service \<Rightarrow> park_warm_options \<Rightarrow> string \<Rightarrow> bool \<Rightarrow> effect list \<Rightarrow> execution \<Rightarrow> 'w \<Rightarrow> life_error option \<times> execution \<times> 'w" where
  "warm_loop s v i closed [] ex w = (None, ex, w)"
| "warm_loop s v i closed (e # es) ex w =
    (case run_steps (warm_steps s v i closed e) ex w of
       (Some err, ex', w') \<Rightarrow> (Some err, ex', w')
     | (None, ex', w') \<Rightarrow> warm_loop s v i (closed \<or> e_code e = ''close-runtime'') es ex' w')"

definition warm_options_of :: "plan \<Rightarrow> park_warm_options option" where
  "warm_options_of p = (case q_options (p_request p) of OVal (ParkWarmO v) \<Rightarrow> Some v | _ \<Rightarrow> None)"

definition apply_park_warm ::
  "'w life_service \<Rightarrow> park_warm_options \<Rightarrow> execution \<Rightarrow> 'w \<Rightarrow> life_error option \<times> execution \<times> 'w" where
  "apply_park_warm s v ex w =
    warm_loop s v (p_id (ex_plan ex)) False (execution_effects (ex_plan ex))
      (ex\<lparr>ex_warnings := ex_warnings ex @ warm_warnings v (ex_observed ex)\<rparr>) w"

section \<open>Parking COLD\<close>

definition cold_flags :: "park_cold_options \<Rightarrow> closure_flags" where
  "cold_flags v = \<lparr>cl_close_unknown = pc_close_unknown v, cl_assume_no_runtime = pc_assume_no_runtime v, cl_timeout = pc_timeout v\<rparr>"

definition cold_candidate :: "string \<Rightarrow> park_cold_options \<Rightarrow> life_observation \<Rightarrow> task \<Rightarrow> task" where
  "cold_candidate host v o' t =
    (let t = t\<lparr>t_state := state_cold, t_owner := host, t_worktree := [], t_runtime_handle := [], t_runtime_name := []\<rparr>;
         t = (if pc_next v \<noteq> [] then t\<lparr>t_next := pc_next v\<rparr> else t)
     in if pc_note v \<noteq> [] then t\<lparr>t_note := pc_note v\<rparr> else t)"

record cold_progress =
  cp_closed :: bool
  cp_removed :: bool
  cp_switched :: bool

definition dirty_after_checkpoint :: "life_observation \<Rightarrow> 'w \<Rightarrow> life_error option \<times> 'w" where
  "dirty_after_checkpoint o' w = (fail_if (status_dirty (lo_status o'))
    (LPlain (''checkout remains dirty after WIP checkpoint: '' @ status_breakdown (lo_status o'))), w)"

definition cold_order_step :: "string \<Rightarrow> cold_progress \<Rightarrow> 'w park_step" where
  "cold_order_step i pr ex w =
    (checks
      [fail_if (lo_mode (ex_observed ex) = mode_worktree \<and> \<not> cp_removed pr)
         (LInvalidPlan i ''task update reached before worktree removal'', []),
       fail_if (lo_mode (ex_observed ex) = mode_branch \<and> \<not> cp_switched pr)
         (LInvalidPlan i ''task update reached before canonical base switch'', [])], ex, w)"

definition cold_steps :: "'w life_service \<Rightarrow> park_cold_options \<Rightarrow> string \<Rightarrow> cold_progress \<Rightarrow> effect \<Rightarrow> 'w park_step list" where
  \<comment> \<open>the body of the loop of \<open>applyParkCold\<close>\<close>
  "cold_steps s v i pr e =
    (if e_code e = ''commit-wip'' then
       [check_step (revalidate_git_baseline s) ''refresh the task and retry cold parking'',
        run_step s e (wip_operation s e) ''preserve the checkout and resolve the checkpoint failure'',
        refresh_step s ''refresh after WIP checkpoint'' None ''inspect the checkpoint before retrying'',
        check_step dirty_after_checkpoint ''commit or finalize the remaining bytes before cold parking'']
     else if e_code e = ''push-branch'' then
       [check_step (ensure_park_branch_identity s) ''inspect the checkout before retrying the push'',
        run_step s e (push_operation s) ''the checkout remains present; resolve the push before retrying cold parking'',
        refresh_step s ''refresh after push'' None ''inspect the published branch before retrying'']
     else if e_code e = ''close-runtime'' then
       [check_step (ensure_cold_git_ready s) ''restore a clean, fully pushed branch before runtime cleanup'',
        check_step (revalidate_cold_artifact s) ''finalize or restore artifact receipts before runtime cleanup'',
        check_step (\<lambda>o'. revalidate_cleanup_baseline s o' (cold_flags v)) ''runtime occupancy changed; refresh cold parking'',
        run_step s e (close_operation s (cold_flags v)) ''the checkout remains present; inspect runtime occupancy and retry'',
        update_step (\<lambda>o'. ensure_runtime_released s o' (cold_flags v)) ''a runtime reclaimed the checkout; close it from outside before retrying'']
     else if e_code e = ''remove-worktree'' then
       [update_step (\<lambda>o'. ensure_cold_removal_boundary s o' (cold_flags v) (cp_closed pr))
          ''the worktree was preserved; refresh every safety condition before retrying'',
        run_step s e (remove_operation s) ''inspect the still-registered worktree; never force removal without preserving bytes'',
        branch_retained_step s ''verify retained task branch after worktree removal''
          ''restore reliable Git ref observation before updating task state''
          ''task branch disappeared after worktree removal'' ''restore the retained task branch before updating task state'']
     else if e_code e = ''switch-base'' then
       [update_step (\<lambda>o'. ensure_cold_removal_boundary s o' (cold_flags v) (cp_closed pr))
          ''canonical checkout was not switched; refresh cold parking'',
        base_exists_step s (detail_of e ''base''),
        run_step s e (switch_operation s (detail_of e ''base'')) ''the task branch remains retained; inspect the canonical checkout and retry'',
        refresh_step s ''verify canonical base switch'' (Some (detail_of e ''base''))
          ''inspect the canonical checkout before reconciling task state'',
        branch_retained_step s ''verify task branch after canonical checkout switch''
          ''repair Git ref observation before updating task state''
          ''task branch disappeared during canonical checkout switch'' ''restore the task branch before updating task state'']
     else if e_code e = ''update-task'' then
       [cold_order_step i pr,
        run_step s e (record_operation s ''COLD'' (cold_candidate (ls_host s) v))
          ''checkout cleanup succeeded but task persistence failed; reload and reconcile the task path/runtime/state'']
     else [\<lambda>ex w. (Some (LInvalidPlan i (''unexpected ParkCold effect '' @ e_code e), []), ex, w)])"

definition cold_progress_after :: "effect \<Rightarrow> cold_progress \<Rightarrow> cold_progress" where
  "cold_progress_after e pr =
    (if e_code e = ''close-runtime'' then pr\<lparr>cp_closed := True\<rparr>
     else if e_code e = ''remove-worktree'' then pr\<lparr>cp_removed := True\<rparr>
     else if e_code e = ''switch-base'' then pr\<lparr>cp_switched := True\<rparr> else pr)"

fun cold_loop ::
  "'w life_service \<Rightarrow> park_cold_options \<Rightarrow> string \<Rightarrow> cold_progress \<Rightarrow> effect list \<Rightarrow> execution \<Rightarrow> 'w \<Rightarrow>
   life_error option \<times> execution \<times> 'w" where
  "cold_loop s v i pr [] ex w = (None, ex, w)"
| "cold_loop s v i pr (e # es) ex w =
    (case run_steps (cold_steps s v i pr e) ex w of
       (Some err, ex', w') \<Rightarrow> (Some err, ex', w')
     | (None, ex', w') \<Rightarrow> cold_loop s v i (cold_progress_after e pr) es ex' w')"

definition apply_park_cold ::
  "'w life_service \<Rightarrow> park_cold_options \<Rightarrow> execution \<Rightarrow> 'w \<Rightarrow> life_error option \<times> execution \<times> 'w" where
  "apply_park_cold s v ex w =
    cold_loop s v (p_id (ex_plan ex)) \<lparr>cp_closed = False, cp_removed = False, cp_switched = False\<rparr>
      (execution_effects (ex_plan ex))
      (ex\<lparr>ex_warnings := ex_warnings ex @
        (if desired_next (ex_observed ex) (ParkColdO v) = [] then [''no next action is recorded''] else [])\<rparr>) w"

end
