(* ===== verification/ParkTrace.thy ===== *)
theory ParkTrace
  imports ParkApply
begin

text \<open>
  What a parking does to the world, in which order. \<open>traced\<close> gives every hook that reads or changes Git,
  the runtime, the artifacts or the task a log of its calls with their answers; the theorems are about
  the log of a whole execution, for any hooks and any world.
\<close>

section \<open>Calls\<close>

datatype call =
    Resolve string string "registered_worktree \<times> worktree_error option"
  | Status string "git_status \<times> string option"
  | GitRun string "string list" "string \<times> string option"
  | InProgress string "string \<times> bool \<times> string option"
  | RefState string string "bool \<times> string option"
  | Artifacts string "artifact_inspection \<times> string option"
  | Cleanup string string close_options "inspection \<times> string option"
  | WipCommit string string "bool \<times> string option"
  | CloseAndWait string string close_options "inspection \<times> string option"
  | RemoveWorktree string string "string option"
  | ApplyRemoval string string "string option \<times> string list option"
  | TaskUpdate task string "task_record option \<times> string option"
  | Worktrees string "string + worktree list"
  | Occupied string string occupancy_options "life_occupancy \<times> string option"
  | Discovered string "string + git_repo"
  | OpenRuntime string string string "string \<times> string option"
  | CreateWorktree create_request create_answer

fun is_mutation :: "call \<Rightarrow> bool" where
  "is_mutation (GitRun dir args r) \<longleftrightarrow> args \<noteq> [] \<and> hd args \<in> {''push'', ''switch'', ''fetch''}"
| "is_mutation (WipCommit dir m r) = True"
| "is_mutation (CloseAndWait rt dir os r) = True"
| "is_mutation (RemoveWorktree repo dir r) = True"
| "is_mutation (ApplyRemoval repo dir r) = True"
| "is_mutation (TaskUpdate t old r) = True"
| "is_mutation (OpenRuntime rt dir l r) = True"
| "is_mutation (CreateWorktree q r) = True"
| "is_mutation _ = False"

definition logged_call :: "('w \<Rightarrow> 'r \<times> 'w) \<Rightarrow> ('r \<Rightarrow> call) \<Rightarrow> 'w \<times> call list \<Rightarrow> 'r \<times> 'w \<times> call list" where
  "logged_call f c wt = (case f (fst wt) of (r, w') \<Rightarrow> (r, w', snd wt @ [c r]))"

definition unlogged_call :: "('w \<Rightarrow> 'r \<times> 'w) \<Rightarrow> 'w \<times> call list \<Rightarrow> 'r \<times> 'w \<times> call list" where
  "unlogged_call f wt = (case f (fst wt) of (r, w') \<Rightarrow> (r, w', snd wt))"

definition traced :: "'w life_service \<Rightarrow> ('w \<times> call list) life_service" where
  "traced s = \<lparr>ls_host = ls_host s, ls_cwd = ls_cwd s, ls_workspace = ls_workspace s, ls_pane = ls_pane s,
    ls_allow_shared = ls_allow_shared s, ls_sha = ls_sha s, ls_digests = ls_digests s, ls_printable = ls_printable s,
    ls_default_runtime = ls_default_runtime s, ls_named_runtime = ls_named_runtime s,
    ls_now = (\<lambda>w. ls_now s (fst w)), ls_ctx_error = (\<lambda>w. ls_ctx_error s (fst w)),
    ls_available = (\<lambda>n w. ls_available s n (fst w)), ls_canonical = (\<lambda>p w. ls_canonical s p (fst w)),
    ls_repo_lock = (\<lambda>d. unlogged_call (ls_repo_lock s d)), ls_task_lock = unlogged_call (ls_task_lock s),
    ls_get_record = (\<lambda>i. unlogged_call (ls_get_record s i)), ls_discover = (\<lambda>d. logged_call (ls_discover s d) (Discovered d)),
    ls_default_branch = (\<lambda>d. unlogged_call (ls_default_branch s d)),
    ls_resolve_worktree = (\<lambda>r p. logged_call (ls_resolve_worktree s r p) (Resolve r p)),
    ls_status = (\<lambda>d. logged_call (ls_status s d) (Status d)),
    ls_in_progress = (\<lambda>d. logged_call (ls_in_progress s d) (InProgress d)),
    ls_git_run = (\<lambda>d a. logged_call (ls_git_run s d a) (GitRun d a)),
    ls_ref_state = (\<lambda>d r. logged_call (ls_ref_state s d r) (RefState d r)),
    ls_inspect_artifacts = (\<lambda>d. logged_call (ls_inspect_artifacts s d) (Artifacts d)),
    ls_inspect_cleanup = (\<lambda>r d os. logged_call (ls_inspect_cleanup s r d os) (Cleanup r d os)),
    ls_wip_commit = (\<lambda>d m. logged_call (ls_wip_commit s d m) (WipCommit d m)),
    ls_close_and_wait = (\<lambda>r d os. logged_call (ls_close_and_wait s r d os) (CloseAndWait r d os)),
    ls_remove_worktree = (\<lambda>r d. logged_call (ls_remove_worktree s r d) (RemoveWorktree r d)),
    ls_apply_removal = (\<lambda>r d. logged_call (ls_apply_removal s r d) (ApplyRemoval r d)),
    ls_task_update = (\<lambda>t old. logged_call (ls_task_update s t old) (TaskUpdate t old)),
    ls_task_unlock = unlogged_call (ls_task_unlock s), ls_repo_unlock = (\<lambda>d. unlogged_call (ls_repo_unlock s d)),
    ls_verify_submodules = (\<lambda>p. unlogged_call (ls_verify_submodules s p)),
    ls_worktrees = (\<lambda>d. logged_call (ls_worktrees s d) (Worktrees d)),
    ls_inspect_occupancy = (\<lambda>r d os. logged_call (ls_inspect_occupancy s r d os) (Occupied r d os)),
    ls_open_runtime = (\<lambda>r d l. logged_call (ls_open_runtime s r d l) (OpenRuntime r d l)),
    ls_create_worktree = (\<lambda>q. logged_call (ls_create_worktree s q) (CreateWorktree q)),
    ls_render_worktree = (\<lambda>t w. ls_render_worktree s t (fst w)),
    ls_validate_target = (\<lambda>p r w. ls_validate_target s p r (fst w)),
    ls_pathx = (\<lambda>p w. ls_pathx s p (fst w)), ls_git_absent = (\<lambda>d w. ls_git_absent s d (fst w)),
    ls_submodules = (\<lambda>d. unlogged_call (ls_submodules s d)),
    ls_inspect_removal = (\<lambda>d rec req. unlogged_call (ls_inspect_removal s d rec req)),
    ls_submodule_repo = (\<lambda>d. unlogged_call (ls_submodule_repo s d)),
    ls_submodule_intent = (\<lambda>d b. unlogged_call (ls_submodule_intent s d b)),
    ls_submodule_claims = (\<lambda>g i. unlogged_call (ls_submodule_claims s g i))\<rparr>"

lemma traced_simps [simp]:
  "ls_host (traced s) = ls_host s" "ls_sha (traced s) = ls_sha s" "ls_digests (traced s) = ls_digests s"
  "ls_printable (traced s) = ls_printable s"
  "ls_resolve_worktree (traced s) = (\<lambda>r p. logged_call (ls_resolve_worktree s r p) (Resolve r p))"
  "ls_status (traced s) = (\<lambda>d. logged_call (ls_status s d) (Status d))"
  "ls_in_progress (traced s) = (\<lambda>d. logged_call (ls_in_progress s d) (InProgress d))"
  "ls_git_run (traced s) = (\<lambda>d a. logged_call (ls_git_run s d a) (GitRun d a))"
  "ls_ref_state (traced s) = (\<lambda>d r. logged_call (ls_ref_state s d r) (RefState d r))"
  "ls_inspect_artifacts (traced s) = (\<lambda>d. logged_call (ls_inspect_artifacts s d) (Artifacts d))"
  "ls_inspect_cleanup (traced s) = (\<lambda>r d os. logged_call (ls_inspect_cleanup s r d os) (Cleanup r d os))"
  "ls_wip_commit (traced s) = (\<lambda>d m. logged_call (ls_wip_commit s d m) (WipCommit d m))"
  "ls_close_and_wait (traced s) = (\<lambda>r d os. logged_call (ls_close_and_wait s r d os) (CloseAndWait r d os))"
  "ls_remove_worktree (traced s) = (\<lambda>r d. logged_call (ls_remove_worktree s r d) (RemoveWorktree r d))"
  "ls_apply_removal (traced s) = (\<lambda>r d. logged_call (ls_apply_removal s r d) (ApplyRemoval r d))"
  "ls_task_update (traced s) = (\<lambda>t old. logged_call (ls_task_update s t old) (TaskUpdate t old))"
  "ls_discover (traced s) = (\<lambda>d. logged_call (ls_discover s d) (Discovered d))"
  "ls_worktrees (traced s) = (\<lambda>d. logged_call (ls_worktrees s d) (Worktrees d))"
  "ls_inspect_occupancy (traced s) = (\<lambda>r d os. logged_call (ls_inspect_occupancy s r d os) (Occupied r d os))"
  "ls_open_runtime (traced s) = (\<lambda>r d l. logged_call (ls_open_runtime s r d l) (OpenRuntime r d l))"
  "ls_create_worktree (traced s) = (\<lambda>q. logged_call (ls_create_worktree s q) (CreateWorktree q))"
  "ls_canonical (traced s) = (\<lambda>p w. ls_canonical s p (fst w))" "ls_allow_shared (traced s) = ls_allow_shared s"
  "ls_workspace (traced s) = ls_workspace s" "ls_pane (traced s) = ls_pane s" "ls_cwd (traced s) = ls_cwd s"
  "ls_default_runtime (traced s) = ls_default_runtime s" "ls_named_runtime (traced s) = ls_named_runtime s"
  "ls_now (traced s) = (\<lambda>w. ls_now s (fst w))" "ls_ctx_error (traced s) = (\<lambda>w. ls_ctx_error s (fst w))"
  "ls_available (traced s) = (\<lambda>n w. ls_available s n (fst w))"
  "ls_repo_lock (traced s) = (\<lambda>d. unlogged_call (ls_repo_lock s d))" "ls_task_lock (traced s) = unlogged_call (ls_task_lock s)"
  "ls_repo_unlock (traced s) = (\<lambda>d. unlogged_call (ls_repo_unlock s d))" "ls_task_unlock (traced s) = unlogged_call (ls_task_unlock s)"
  "ls_get_record (traced s) = (\<lambda>i. unlogged_call (ls_get_record s i))"
  "ls_default_branch (traced s) = (\<lambda>d. unlogged_call (ls_default_branch s d))"
  "ls_verify_submodules (traced s) = (\<lambda>p. unlogged_call (ls_verify_submodules s p))"
  "ls_render_worktree (traced s) = (\<lambda>t w. ls_render_worktree s t (fst w))"
  "ls_validate_target (traced s) = (\<lambda>p r w. ls_validate_target s p r (fst w))"
  "ls_pathx (traced s) = (\<lambda>p w. ls_pathx s p (fst w))" "ls_git_absent (traced s) = (\<lambda>d w. ls_git_absent s d (fst w))"
  "ls_submodules (traced s) = (\<lambda>d. unlogged_call (ls_submodules s d))"
  "ls_inspect_removal (traced s) = (\<lambda>d rec req. unlogged_call (ls_inspect_removal s d rec req))"
  "ls_submodule_repo (traced s) = (\<lambda>d. unlogged_call (ls_submodule_repo s d))"
  "ls_submodule_intent (traced s) = (\<lambda>d b. unlogged_call (ls_submodule_intent s d b))"
  "ls_submodule_claims (traced s) = (\<lambda>g i. unlogged_call (ls_submodule_claims s g i))"
  by (simp_all add: traced_def)

section \<open>Guarded logs\<close>

definition quiet :: "call list \<Rightarrow> bool" where
  "quiet tr \<longleftrightarrow> (\<forall>c \<in> set tr. \<not> is_mutation c)"

definition recent :: "(call set \<Rightarrow> bool) \<Rightarrow> call list \<Rightarrow> bool" where
  \<comment> \<open>the calls since the last mutation have the property\<close>
  "recent P tr \<longleftrightarrow> (\<exists>xs ys. tr = xs @ ys \<and> quiet ys \<and> P (set ys))"

definition guarded :: "(call list \<Rightarrow> call \<Rightarrow> bool) \<Rightarrow> call list \<Rightarrow> bool" where
  "guarded G tr \<longleftrightarrow> (\<forall>pre c post. tr = pre @ c # post \<longrightarrow> is_mutation c \<longrightarrow> G pre c)"

lemma quiet_simps [simp]: "quiet []" "quiet (c # cs) \<longleftrightarrow> \<not> is_mutation c \<and> quiet cs" "quiet (xs @ ys) \<longleftrightarrow> quiet xs \<and> quiet ys"
  by (auto simp: quiet_def)

lemma guarded_Nil [simp]: "guarded G []"
  by (simp add: guarded_def)

lemma guarded_snoc: "guarded G (tr @ [c]) \<longleftrightarrow> guarded G tr \<and> (is_mutation c \<longrightarrow> G tr c)"
proof
  assume "guarded G (tr @ [c])"
  then show "guarded G tr \<and> (is_mutation c \<longrightarrow> G tr c)"
    unfolding guarded_def by (metis append.assoc append_Cons)
next
  assume r: "guarded G tr \<and> (is_mutation c \<longrightarrow> G tr c)"
  show "guarded G (tr @ [c])"
    unfolding guarded_def
  proof (intro allI impI)
    fix pre c' post
    assume "tr @ [c] = pre @ c' # post" and "is_mutation c'"
    then show "G pre c'"
      using r by (cases post rule: rev_cases) (auto simp: guarded_def)
  qed
qed

lemma guarded_quiet: "quiet ys \<Longrightarrow> guarded G (tr @ ys) \<longleftrightarrow> guarded G tr"
proof (induction ys rule: rev_induct)
  case (snoc c ys)
  then show ?case using guarded_snoc[of G "tr @ ys" c] by simp
qed simp

lemma recent_quiet: "recent P tr \<Longrightarrow> quiet zs \<Longrightarrow> mono P \<Longrightarrow> recent P (tr @ zs)"
  unfolding recent_def by (metis (no_types, lifting) append.assoc le_boolE monoD quiet_simps(3) set_append sup_ge1)

lemma recentI: "quiet ys \<Longrightarrow> P (set ys) \<Longrightarrow> recent P (tr @ ys)"
  unfolding recent_def by blast

section \<open>Steps and their logs\<close>

type_synonym assertion = "execution \<Rightarrow> call list \<Rightarrow> bool"

definition holds :: "assertion \<Rightarrow> ('w \<times> call list) park_step \<Rightarrow> assertion \<Rightarrow> (call list \<Rightarrow> bool) \<Rightarrow> bool" where
  \<comment> \<open>from \<open>P\<close>, a step that goes on ends in \<open>Q\<close> and one that fails leaves a log with \<open>R\<close>\<close>
  "holds P m Q R \<longleftrightarrow> (\<forall>ex w tr. P ex tr \<longrightarrow>
    (case m ex (w, tr) of (err, ex', (w', tr')) \<Rightarrow> if err = None then Q ex' tr' else R tr'))"

definition run_holds :: "assertion \<Rightarrow> ('w \<times> call list) park_step list \<Rightarrow> assertion \<Rightarrow> (call list \<Rightarrow> bool) \<Rightarrow> bool" where
  "run_holds P ms Q R \<longleftrightarrow> (\<forall>ex w tr. P ex tr \<longrightarrow>
    (case run_steps ms ex (w, tr) of (err, ex', (w', tr')) \<Rightarrow> if err = None then Q ex' tr' else R tr'))"

lemma run_Nil: "run_holds P [] P R"
  by (simp add: run_holds_def)

lemma run_Cons: "holds P m Q' R \<Longrightarrow> run_holds Q' ms Q R \<Longrightarrow> run_holds P (m # ms) Q R"
  unfolding run_holds_def holds_def by (fastforce split: prod.splits option.splits)

lemma holds_consequence: "holds P m Q R \<Longrightarrow> (\<And>ex tr. P' ex tr \<Longrightarrow> P ex tr) \<Longrightarrow> (\<And>ex tr. Q ex tr \<Longrightarrow> Q' ex tr) \<Longrightarrow> holds P' m Q' R"
  unfolding holds_def by (fastforce split: prod.splits)

section \<open>What the checks have read\<close>

definition baseline_seen :: "life_observation \<Rightarrow> call set \<Rightarrow> bool" where
  \<comment> \<open>the registration, status, commit and operation are those of the observation\<close>
  "baseline_seen o' S \<longleftrightarrow>
    Resolve (lo_repo_path o') (lo_checkout o') (lo_worktree o', None) \<in> S \<and>
    (\<exists>st. Status (lo_checkout o') (st, None) \<in> S \<and> same_status st (lo_status o')) \<and>
    (\<exists>out. GitRun (lo_checkout o') head_args (out, None) \<in> S \<and> trim_space out = lo_head o') \<and>
    InProgress (lo_checkout o') (lo_operation o', lo_in_progress o', None) \<in> S"

definition artifacts_seen :: "life_observation \<Rightarrow> call set \<Rightarrow> bool" where
  "artifacts_seen o' S \<longleftrightarrow> (lo_mode o' = mode_worktree \<longrightarrow>
    (\<exists>fresh. Artifacts (lo_checkout o') (fresh, None) \<in> S \<and> artifact_ready fresh))"

definition occupancy_seen :: "'w life_service \<Rightarrow> life_observation \<Rightarrow> closure_flags \<Rightarrow> call set \<Rightarrow> bool" where
  \<comment> \<open>the runtime shows what the observation holds\<close>
  "occupancy_seen s o' f S \<longleftrightarrow> (\<exists>fresh. Cleanup (runtime_name (lo_runtime o')) (lo_checkout o') (flag_options o' f) (fresh, None) \<in> S \<and>
    cleanup_authority (ls_sha s) (ls_digests s) fresh None =
    cleanup_authority (ls_sha s) (ls_digests s) (lo_cleanup o') (lo_cleanup_err o'))"

definition coverage_seen_gone :: "life_observation \<Rightarrow> closure_flags \<Rightarrow> call set \<Rightarrow> bool" where
  "coverage_seen_gone o' f S \<longleftrightarrow>
    (\<exists>fresh. Cleanup (runtime_name (lo_runtime o')) (lo_checkout o') (flag_options o' f) (fresh, None) \<in> S \<and> coverage_gone fresh)"

lemmas seen_defs = baseline_seen_def artifacts_seen_def occupancy_seen_def coverage_seen_gone_def

lemma seen_mono: "mono (baseline_seen o')" "mono (artifacts_seen o')" "mono (occupancy_seen s o' f)" "mono (coverage_seen_gone o' f)"
  by (auto simp: mono_def le_fun_def seen_defs)

definition log_grows :: "call list \<Rightarrow> call list \<Rightarrow> (call set \<Rightarrow> bool) \<Rightarrow> bool" where
  \<comment> \<open>the new calls change nothing and have the property\<close>
  "log_grows tr tr' P \<longleftrightarrow> (\<exists>ys. tr' = tr @ ys \<and> quiet ys \<and> P (set ys))"

lemma log_growsI: "tr' = tr @ ys \<Longrightarrow> quiet ys \<Longrightarrow> P (set ys) \<Longrightarrow> log_grows tr tr' P"
  by (auto simp: log_grows_def)

lemma log_grows_trans:
  assumes "log_grows tr tr1 P" and "log_grows tr1 tr' Q" and "mono P" and "mono Q"
  shows "log_grows tr tr' (\<lambda>S. P S \<and> Q S)"
proof -
  obtain ys zs where yz: "tr' = tr @ (ys @ zs)" "quiet (ys @ zs)" "P (set ys)" "Q (set zs)"
    using assms(1,2) by (auto simp: log_grows_def)
  moreover have "P (set (ys @ zs))"
    using monoD[OF assms(3), of "set ys" "set (ys @ zs)"] yz(3) by simp
  moreover have "Q (set (ys @ zs))"
    using monoD[OF assms(4), of "set zs" "set (ys @ zs)"] yz(4) by simp
  ultimately show ?thesis using yz by (auto intro: log_growsI)
qed

lemma log_grows_weaken: "log_grows tr tr' P \<Longrightarrow> (\<And>S. P S \<Longrightarrow> Q S) \<Longrightarrow> log_grows tr tr' Q"
  by (auto simp: log_grows_def)

lemma resolve_ref_oid_log:
  "resolve_ref_oid (traced s) dir ref (w, tr) = (r, w', tr') \<Longrightarrow> log_grows tr tr' (\<lambda>S. True)"
  by (auto simp: resolve_ref_oid_def logged_call_def log_grows_def split: prod.splits if_splits)

lemma revalidate_git_log:
  assumes "revalidate_git_baseline (traced s) o' (w, tr) = (r, w', tr')"
  shows "log_grows tr tr' (\<lambda>S. r = None \<longrightarrow> baseline_seen o' S)"
  using assms
  by (auto simp: revalidate_git_baseline_def logged_call_def baseline_seen_def log_grows_def head_args_def
      split: prod.splits if_splits dest!: resolve_ref_oid_log) blast+

lemma ensure_cold_git_log:
  assumes "ensure_cold_git_ready (traced s) o' (w, tr) = (r, w', tr')"
  shows "log_grows tr tr' (\<lambda>S. r = None \<longrightarrow> baseline_seen o' S \<and> cold_git_error o' = None)"
  using assms by (auto simp: ensure_cold_git_ready_def split: prod.splits option.splits dest!: revalidate_git_log
      elim!: log_grows_weaken)

lemma branch_identity_log:
  assumes "ensure_park_branch_identity (traced s) o' (w, tr) = (r, w', tr')"
  shows "log_grows tr tr' (\<lambda>S. r = None \<longrightarrow> baseline_seen o' S \<and> gs_branch (lo_status o') = t_branch (lo_task o'))"
  using assms by (auto simp: ensure_park_branch_identity_def split: prod.splits option.splits dest!: revalidate_git_log
      elim!: log_grows_weaken)

lemma artifact_log:
  assumes "revalidate_cold_artifact (traced s) o' (w, tr) = (r, w', tr')"
  shows "log_grows tr tr' (\<lambda>S. r = None \<longrightarrow> artifacts_seen o' S)"
  using assms by (auto simp: revalidate_cold_artifact_def logged_call_def artifacts_seen_def log_grows_def
      split: prod.splits if_splits)

lemma occupancy_log:
  assumes "revalidate_cleanup_baseline (traced s) o' f (w, tr) = (r, w', tr')"
  shows "log_grows tr tr' (\<lambda>S. r = None \<longrightarrow> occupancy_seen s o' f S)"
  using assms by (auto simp: revalidate_cleanup_baseline_def logged_call_def occupancy_seen_def log_grows_def
      split: prod.splits if_splits)

lemma released_log:
  assumes "ensure_runtime_released (traced s) o' f (w, tr) = (r, o2, w', tr')"
  shows "log_grows tr tr' (\<lambda>S. r = None \<longrightarrow> coverage_seen_gone o' f S)"
  using assms by (auto simp: ensure_runtime_released_def logged_call_def coverage_seen_gone_def log_grows_def
      split: prod.splits option.splits)

lemma refresh_log:
  assumes "refresh_checkout (traced s) o' expected (w, tr) = (r, o2, w', tr')"
  shows "log_grows tr tr' (\<lambda>S. True)"
  using assms by (auto simp: refresh_checkout_def logged_call_def log_grows_def head_args_def
      split: prod.splits if_splits option.splits dest!: resolve_ref_oid_log)

lemma boundary_log:
  assumes "ensure_cold_removal_boundary (traced s) o' f closed (w, tr) = (r, o2, w', tr')"
  shows "log_grows tr tr' (\<lambda>S. r = None \<longrightarrow> baseline_seen o' S \<and> cold_git_error o' = None \<and> artifacts_seen o' S \<and> coverage_seen_gone o' f S)"
proof -
  obtain r1 w1 tr1 where git: "ensure_cold_git_ready (traced s) o' (w, tr) = (r1, w1, tr1)" by (metis prod_cases3)
  show ?thesis
  proof (cases "r1 = None")
    case False
    then show ?thesis using assms git ensure_cold_git_log[OF git]
      by (auto simp: ensure_cold_removal_boundary_def elim!: log_grows_weaken)
  next
    case True
    obtain r2 w2 tr2 where art: "revalidate_cold_artifact (traced s) o' (w1, tr1) = (r2, w2, tr2)" by (metis prod_cases3)
    have a: "log_grows tr tr2 (\<lambda>S. (baseline_seen o' S \<and> cold_git_error o' = None) \<and> (r2 = None \<longrightarrow> artifacts_seen o' S))"
      using log_grows_trans[OF ensure_cold_git_log[OF git] artifact_log[OF art]] True
      by (auto simp: mono_def le_fun_def seen_defs)
    show ?thesis
      using assms git art True a
      by (auto simp: ensure_cold_removal_boundary_def logged_call_def log_grows_def coverage_seen_gone_def seen_defs
          split: prod.splits option.splits)
  qed
qed

end
