(* ===== verification/ParkGuard.thy ===== *)
theory ParkGuard
  imports ParkTrace
begin

text \<open>
  The order a parking keeps: before every call that changes something, the calls since the last change
  have read what makes it safe, and the task is written last. Both are invariants of the log along the
  loop over the effects, for any list of effects that writes the task last.
\<close>

section \<open>What a log must show\<close>

definition same_frame :: "life_observation \<Rightarrow> life_observation \<Rightarrow> bool" where
  "same_frame a b \<longleftrightarrow> lo_repo_path a = lo_repo_path b \<and> lo_checkout a = lo_checkout b \<and> lo_common_dir a = lo_common_dir b \<and>
    lo_mode a = lo_mode b \<and> lo_task a = lo_task b \<and> lo_runtime a = lo_runtime b \<and>
    lo_cwd a = lo_cwd b \<and> lo_workspace a = lo_workspace b \<and> lo_pane a = lo_pane b"

fun is_task_write :: "call \<Rightarrow> bool" where
  "is_task_write (TaskUpdate t old r) = True"
| "is_task_write _ = False"

definition unwritten :: "call list \<Rightarrow> bool" where
  "unwritten tr \<longleftrightarrow> (\<forall>c \<in> set tr. \<not> is_task_write c)"

definition cold_evidence :: "life_observation \<Rightarrow> closure_flags \<Rightarrow> call list \<Rightarrow> bool" where
  \<comment> \<open>clean, published, nothing ahead, artifacts ready, no session: all read since the last change\<close>
  "cold_evidence o0 f pre \<longleftrightarrow> (\<exists>o'. same_frame o0 o' \<and> cold_git_error o' = None \<and>
    recent (\<lambda>S. baseline_seen o' S \<and> artifacts_seen o' S \<and> coverage_seen_gone o' f S) pre)"

fun removed_by :: "life_observation \<Rightarrow> call \<Rightarrow> bool" where
  "removed_by o0 (RemoveWorktree repo dir r) \<longleftrightarrow> repo = lo_repo_path o0 \<and> dir = lo_checkout o0 \<and> r = None"
| "removed_by o0 (ApplyRemoval repo dir r) \<longleftrightarrow> repo = lo_repo_path o0 \<and> dir = lo_checkout o0 \<and> fst r = None"
| "removed_by o0 _ = False"

fun switched_by :: "life_observation \<Rightarrow> call \<Rightarrow> bool" where
  "switched_by o0 (GitRun dir args r) \<longleftrightarrow> dir = lo_repo_path o0 \<and> (\<exists>b. args = [''switch'', b]) \<and> snd r = None"
| "switched_by o0 _ = False"

definition branch_seen :: "life_observation \<Rightarrow> call set \<Rightarrow> bool" where
  "branch_seen o0 S \<longleftrightarrow> RefState (lo_repo_path o0) (local_branch_ref (t_branch (lo_task o0))) (True, None) \<in> S"

definition vacated :: "life_observation \<Rightarrow> call list \<Rightarrow> bool" where
  "vacated o0 pre \<longleftrightarrow>
    (lo_mode o0 = mode_worktree \<longrightarrow> (\<exists>c \<in> set pre. removed_by o0 c) \<and> branch_seen o0 (set pre)) \<and>
    (lo_mode o0 = mode_branch \<longrightarrow> (\<exists>c \<in> set pre. switched_by o0 c) \<and> branch_seen o0 (set pre))"

fun cold_call_ok :: "'w life_service \<Rightarrow> park_cold_options \<Rightarrow> string \<Rightarrow> life_observation \<Rightarrow> call list \<Rightarrow> call \<Rightarrow> bool" where
  "cold_call_ok s v rv o0 pre (WipCommit dir m r) \<longleftrightarrow> dir = lo_checkout o0 \<and>
     (\<exists>o'. same_frame o0 o' \<and> recent (baseline_seen o') pre)"
| "cold_call_ok s v rv o0 pre (GitRun dir args r) \<longleftrightarrow>
     (if hd args = ''push'' then dir = lo_checkout o0 \<and> args = push_args (t_branch (lo_task o0)) \<and>
        (\<exists>o'. same_frame o0 o' \<and> gs_branch (lo_status o') = t_branch (lo_task o0) \<and> recent (baseline_seen o') pre)
      else dir = lo_repo_path o0 \<and> cold_evidence o0 (cold_flags v) pre \<and>
        (\<exists>b. args = [''switch'', b] \<and> b \<noteq> [] \<and> recent (\<lambda>S. RefState dir b (True, None) \<in> S) pre))"
| "cold_call_ok s v rv o0 pre (CloseAndWait rt dir os r) \<longleftrightarrow>
     rt = runtime_name (lo_runtime o0) \<and> dir = lo_checkout o0 \<and> os = flag_options o0 (cold_flags v) \<and>
     (\<exists>o'. same_frame o0 o' \<and> cold_git_error o' = None \<and>
       recent (\<lambda>S. baseline_seen o' S \<and> artifacts_seen o' S \<and> occupancy_seen s o' (cold_flags v) S) pre)"
| "cold_call_ok s v rv o0 pre (RemoveWorktree repo dir r) \<longleftrightarrow>
     repo = lo_repo_path o0 \<and> dir = lo_checkout o0 \<and> cold_evidence o0 (cold_flags v) pre"
| "cold_call_ok s v rv o0 pre (ApplyRemoval repo dir r) \<longleftrightarrow>
     repo = lo_repo_path o0 \<and> dir = lo_checkout o0 \<and> cold_evidence o0 (cold_flags v) pre"
| "cold_call_ok s v rv o0 pre (TaskUpdate t old r) \<longleftrightarrow>
     t = cold_candidate (ls_host s) v o0 (lo_task o0) \<and> old = rv \<and> vacated o0 pre"
| "cold_call_ok s v rv o0 pre _ = False"

definition cold_guard :: "'w life_service \<Rightarrow> park_cold_options \<Rightarrow> string \<Rightarrow> life_observation \<Rightarrow> call list \<Rightarrow> call \<Rightarrow> bool" where
  "cold_guard s v rv o0 pre c \<longleftrightarrow> unwritten pre \<and> cold_call_ok s v rv o0 pre c"

definition task_written_last :: "effect list \<Rightarrow> bool" where
  "task_written_last es \<longleftrightarrow> (\<forall>e \<in> set (butlast es). e_code e \<noteq> ''update-task'')"

section \<open>Facts about frames and logs\<close>

lemma same_frame_refl [simp]: "same_frame o' o'"
  by (simp add: same_frame_def)

lemma same_frame_trans: "same_frame a b \<Longrightarrow> same_frame b c \<Longrightarrow> same_frame a c"
  by (simp add: same_frame_def)

lemma frame_flag_options: "same_frame a b \<Longrightarrow> flag_options b f = flag_options a f"
  by (simp add: same_frame_def flag_options_def cleanup_options_def)

lemma refresh_frame: "refresh_checkout s o' expected w = (r, o2, w') \<Longrightarrow> same_frame o' o2"
  by (auto simp: refresh_checkout_def same_frame_def split: prod.splits if_splits option.splits)

lemma released_frame: "ensure_runtime_released s o' f w = (r, o2, w') \<Longrightarrow> same_frame o' o2"
  by (auto simp: ensure_runtime_released_def same_frame_def split: prod.splits option.splits)

lemma boundary_frame: "ensure_cold_removal_boundary s o' f closed w = (r, o2, w') \<Longrightarrow> same_frame o' o2"
  by (auto simp: ensure_cold_removal_boundary_def same_frame_def split: prod.splits option.splits)

lemma unwritten_simps [simp]: "unwritten []" "unwritten (c # cs) \<longleftrightarrow> \<not> is_task_write c \<and> unwritten cs"
  "unwritten (xs @ ys) \<longleftrightarrow> unwritten xs \<and> unwritten ys"
  by (auto simp: unwritten_def)

lemma task_write_mutates: "is_task_write c \<Longrightarrow> is_mutation c"
  by (cases c) auto

lemma quiet_unwritten: "quiet ys \<Longrightarrow> unwritten ys"
  by (auto simp: quiet_def unwritten_def dest: task_write_mutates)

lemma recent_conj:
  assumes "recent P tr" and "recent Q tr" and "mono P" and "mono Q"
  shows "recent (\<lambda>S. P S \<and> Q S) tr"
proof -
  obtain xs ys where y: "tr = xs @ ys" "quiet ys" "P (set ys)" using assms(1) by (auto simp: recent_def)
  obtain us vs where z: "tr = us @ vs" "quiet vs" "Q (set vs)" using assms(2) by (auto simp: recent_def)
  have "set ys \<subseteq> set vs \<or> set vs \<subseteq> set ys"
    using y(1) z(1) by (auto simp: append_eq_append_conv2)
  then show ?thesis
  proof
    assume "set ys \<subseteq> set vs"
    then have "P (set vs)" using monoD[OF assms(3)] y(3) by auto
    then show ?thesis using z by (auto simp: recent_def)
  next
    assume "set vs \<subseteq> set ys"
    then have "Q (set ys)" using monoD[OF assms(4)] z(3) by auto
    then show ?thesis using y by (auto simp: recent_def)
  qed
qed

lemma mono_conj: "mono P \<Longrightarrow> mono Q \<Longrightarrow> mono (\<lambda>S :: call set. P S \<and> Q S)"
  by (auto simp: mono_def le_fun_def)

lemma mono_member: "mono (\<lambda>S :: call set. c \<in> S)"
  by (auto simp: mono_def le_fun_def)

lemma recent_grows: "recent P tr \<Longrightarrow> log_grows tr tr' Q \<Longrightarrow> mono P \<Longrightarrow> recent P tr'"
  by (auto simp: log_grows_def intro: recent_quiet)

lemma recent_log: "log_grows tr tr' P \<Longrightarrow> recent P tr'"
  by (auto simp: log_grows_def intro: recentI)

lemma log_grows_subset: "log_grows tr tr' P \<Longrightarrow> set tr \<subseteq> set tr'"
  by (auto simp: log_grows_def)

lemma recent_weaken: "recent P tr \<Longrightarrow> (\<And>S. P S \<Longrightarrow> Q S) \<Longrightarrow> recent Q tr"
  by (auto simp: recent_def)

section \<open>Rules for the steps\<close>

definition grows :: "assertion \<Rightarrow> bool" where
  \<comment> \<open>reads keep the assertion\<close>
  "grows J \<longleftrightarrow> (\<forall>ex tr tr' Q. J ex tr \<longrightarrow> log_grows tr tr' Q \<longrightarrow> J ex tr')"

definition framed :: "assertion \<Rightarrow> bool" where
  \<comment> \<open>so does a new observation of the same checkout\<close>
  "framed J \<longleftrightarrow> (\<forall>ex tr o2. J ex tr \<longrightarrow> same_frame (ex_observed ex) o2 \<longrightarrow> J (ex\<lparr>ex_observed := o2\<rparr>) tr)"

lemma grows_recent: "grows J \<Longrightarrow> (\<And>o'. mono (E o')) \<Longrightarrow> grows (\<lambda>ex tr. J ex tr \<and> recent (E (ex_observed ex)) tr)"
  unfolding grows_def by (blast intro: recent_grows)

lemma check_hold:
  assumes log: "\<And>o' w tr r w' tr'. g o' (w, tr) = (r, w', tr') \<Longrightarrow> log_grows tr tr' (\<lambda>S. r = None \<longrightarrow> E o' S)"
    and J: "grows J" and R: "\<And>ex tr. J ex tr \<Longrightarrow> R tr"
  shows "holds J (check_step g advice) (\<lambda>ex tr. J ex tr \<and> recent (E (ex_observed ex)) tr) R"
  unfolding holds_def
proof (intro allI impI)
  fix ex :: execution and w tr
  assume j: "J ex tr"
  obtain r w' tr' where g: "g (ex_observed ex) (w, tr) = (r, w', tr')" by (metis prod_cases3)
  note l = log[OF g]
  have "J ex tr'" using j l J by (auto simp: grows_def)
  moreover have "r = None \<Longrightarrow> recent (E (ex_observed ex)) tr'"
    using recent_log[OF l] by simp
  ultimately show "case check_step g advice ex (w, tr) of (err, ex', w', tr') \<Rightarrow>
      if err = None then J ex' tr' \<and> recent (E (ex_observed ex')) tr' else R tr'"
    using g R by (auto simp: check_step_def)
qed

lemma update_hold:
  assumes log: "\<And>o' w tr r o2 w' tr'. g o' (w, tr) = (r, o2, w', tr') \<Longrightarrow>
      log_grows tr tr' (\<lambda>S. r = None \<longrightarrow> E o' S) \<and> same_frame o' o2"
    and J: "grows J" "framed J" and R: "\<And>ex tr. J ex tr \<Longrightarrow> R tr"
  shows "holds J (update_step g advice) (\<lambda>ex tr. J ex tr \<and> (\<exists>o'. same_frame o' (ex_observed ex) \<and> recent (E o') tr)) R"
  unfolding holds_def
proof (intro allI impI)
  fix ex :: execution and w tr
  assume j: "J ex tr"
  obtain r o2 w' tr' where g: "g (ex_observed ex) (w, tr) = (r, o2, w', tr')" by (metis prod_cases4)
  note l = log[OF g]
  have "J (ex\<lparr>ex_observed := o2\<rparr>) tr'" using j l J unfolding grows_def framed_def by blast
  moreover have "r = None \<Longrightarrow> recent (E (ex_observed ex)) tr'"
    using recent_log[OF conjunct1[OF l]] by simp
  ultimately show "case update_step g advice ex (w, tr) of (err, ex', w', tr') \<Rightarrow>
      if err = None then J ex' tr' \<and> (\<exists>o'. same_frame o' (ex_observed ex') \<and> recent (E o') tr') else R tr'"
    using g R l by (auto simp: update_step_def)
qed

lemma refresh_hold:
  assumes "grows J" and "framed J" and "\<And>ex tr. J ex tr \<Longrightarrow> R tr"
  shows "holds J (refresh_step (traced s) prefix other advice) J R"
  unfolding refresh_step_def
proof (rule holds_consequence[OF update_hold])
  show "J ex tr \<Longrightarrow> J ex tr" for ex tr .
  show "J ex tr \<and> (\<exists>o'. same_frame o' (ex_observed ex) \<and> recent (\<lambda>S. True) tr) \<Longrightarrow> J ex tr" for ex tr by simp
qed (use assms in \<open>auto split: prod.splits dest: refresh_log refresh_frame\<close>)

section \<open>Parking COLD\<close>

definition cold_inv :: "'w life_service \<Rightarrow> park_cold_options \<Rightarrow> string \<Rightarrow> life_observation \<Rightarrow> cold_progress \<Rightarrow> assertion" where
  "cold_inv s v rv o0 pr ex tr \<longleftrightarrow> guarded (cold_guard s v rv o0) tr \<and> unwritten tr \<and>
    same_frame o0 (ex_observed ex) \<and> ex_revision ex = rv \<and>
    (cp_removed pr \<longrightarrow> (\<exists>c \<in> set tr. removed_by o0 c) \<and> branch_seen o0 (set tr)) \<and>
    (cp_switched pr \<longrightarrow> (\<exists>c \<in> set tr. switched_by o0 c) \<and> branch_seen o0 (set tr))"

lemma cold_inv_grows: "grows (cold_inv s v rv o0 pr)"
  unfolding grows_def
  by (auto simp: cold_inv_def log_grows_def guarded_quiet quiet_unwritten branch_seen_def)

lemma cold_inv_framed: "framed (cold_inv s v rv o0 pr)"
  unfolding framed_def by (auto simp: cold_inv_def intro: same_frame_trans)

lemma cold_inv_guarded: "cold_inv s v rv o0 pr ex tr \<Longrightarrow> guarded (cold_guard s v rv o0) tr"
  by (simp add: cold_inv_def)

lemma cold_inv_snoc:
  assumes "cold_inv s v rv o0 pr ex tr" and "cold_call_ok s v rv o0 tr c" and "\<not> is_task_write c"
    and "same_frame o0 (ex_observed ex')" and "ex_revision ex' = rv"
  shows "cold_inv s v rv o0 pr ex' (tr @ [c])"
  using assms by (auto simp: cold_inv_def guarded_snoc cold_guard_def branch_seen_def)

definition one_call :: "(execution \<Rightarrow> 'w \<times> call list \<Rightarrow> (string \<times> life_error option) \<times> execution \<times> 'w \<times> call list) \<Rightarrow>
    (life_observation \<Rightarrow> call \<Rightarrow> bool) \<Rightarrow> (life_observation \<Rightarrow> call \<Rightarrow> bool) \<Rightarrow> bool" where
  \<comment> \<open>the operation makes one call \<open>C\<close>, and succeeds only if the call satisfies \<open>D\<close>\<close>
  "one_call operation C D \<longleftrightarrow> (\<forall>ex w tr r ex' w' tr'. operation ex (w, tr) = (r, ex', w', tr') \<longrightarrow>
    (\<exists>c. tr' = tr @ [c] \<and> same_frame (ex_observed ex) (ex_observed ex') \<and> ex_revision ex' = ex_revision ex \<and>
      C (ex_observed ex) c \<and> (snd r = None \<longrightarrow> D (ex_observed ex) c)))"

lemma one_callE:
  assumes "one_call operation C D" and "operation ex (w, tr) = (r, ex', w', tr')"
  obtains c where "tr' = tr @ [c]" "same_frame (ex_observed ex) (ex_observed ex')" "ex_revision ex' = ex_revision ex"
    "C (ex_observed ex) c" "snd r = None \<longrightarrow> D (ex_observed ex) c"
  using assms unfolding one_call_def by blast

lemma run_hold:
  assumes op: "one_call operation C D"
    and snoc: "\<And>ex ex' tr c. I ex tr \<Longrightarrow> E (ex_observed ex) tr \<Longrightarrow> C (ex_observed ex) c \<Longrightarrow>
      same_frame (ex_observed ex) (ex_observed ex') \<Longrightarrow> ex_revision ex' = ex_revision ex \<Longrightarrow> I ex' (tr @ [c])"
    and R: "\<And>ex tr. I ex tr \<Longrightarrow> R tr"
  shows "holds (\<lambda>ex tr. I ex tr \<and> E (ex_observed ex) tr) (run_step s' e operation advice)
    (\<lambda>ex tr. I ex tr \<and> (\<exists>c \<in> set tr. \<exists>ex0 tr0. I ex0 tr0 \<and> D (ex_observed ex0) c)) R"
  unfolding holds_def
proof (intro allI impI)
  fix ex :: execution and w tr
  assume j: "I ex tr \<and> E (ex_observed ex) tr"
  obtain r ex' w' tr' where run: "operation ex (w, tr) = (r, ex', w', tr')" by (metis prod_cases4)
  obtain c where c: "tr' = tr @ [c]" "same_frame (ex_observed ex) (ex_observed ex')" "ex_revision ex' = ex_revision ex"
    "C (ex_observed ex) c" "snd r = None \<longrightarrow> D (ex_observed ex) c"
    using one_callE[OF op run] by blast
  have inv: "I (ex'\<lparr>ex_steps := st\<rparr>) tr'" for st
    unfolding c(1) using j c by (intro snoc[of ex]) auto
  have "snd r = None \<Longrightarrow> \<exists>c \<in> set tr'. \<exists>ex0 tr0. I ex0 tr0 \<and> D (ex_observed ex0) c"
    using j c(1,5) by auto
  then show "case run_step s' e operation advice ex (w, tr) of (err, ex', w', tr') \<Rightarrow>
      if err = None then I ex' tr' \<and> (\<exists>c \<in> set tr'. \<exists>ex0 tr0. I ex0 tr0 \<and> D (ex_observed ex0) c) else R tr'"
    using run inv R[OF inv] by (cases r) (simp add: run_step_def run_effect_def Let_def)
qed

lemma cold_run_hold:
  assumes op: "one_call operation C D"
    and ok: "\<And>o' tr c. same_frame o0 o' \<Longrightarrow> E o' tr \<Longrightarrow> C o' c \<Longrightarrow> cold_call_ok s v rv o0 tr c \<and> \<not> is_task_write c"
  shows "holds (\<lambda>ex tr. cold_inv s v rv o0 pr ex tr \<and> E (ex_observed ex) tr) (run_step s' e operation advice)
    (\<lambda>ex tr. cold_inv s v rv o0 pr ex tr \<and> (\<exists>c \<in> set tr. \<exists>o'. same_frame o0 o' \<and> D o' c)) (guarded (cold_guard s v rv o0))"
proof (rule holds_consequence[OF run_hold[OF op _ cold_inv_guarded, where E = E]])
  fix ex ex' :: execution and tr c
  assume j: "cold_inv s v rv o0 pr ex tr" "E (ex_observed ex) tr" "C (ex_observed ex) c"
    "same_frame (ex_observed ex) (ex_observed ex')" "ex_revision ex' = ex_revision ex"
  then have f: "same_frame o0 (ex_observed ex)" by (simp add: cold_inv_def)
  show "cold_inv s v rv o0 pr ex' (tr @ [c])"
    using ok[OF f j(2,3)] same_frame_trans[OF f j(4)] j(1,5) by (intro cold_inv_snoc[OF j(1)]) (auto simp: cold_inv_def)
qed (auto simp: cold_inv_def)

lemma wip_one_call: "one_call (wip_operation (traced s) e)
    (\<lambda>o' c. \<exists>m r. c = WipCommit (lo_checkout o') m r) (\<lambda>o' c. True)"
  by (auto simp: one_call_def wip_operation_def logged_call_def split: prod.splits)

lemma push_one_call: "one_call (push_operation (traced s))
    (\<lambda>o' c. \<exists>r. c = GitRun (lo_checkout o') (push_args (t_branch (lo_task o'))) r) (\<lambda>o' c. True)"
  by (auto simp: one_call_def push_operation_def logged_call_def Let_def split: prod.splits)

lemma close_one_call: "one_call (close_operation (traced s) f)
    (\<lambda>o' c. \<exists>r. c = CloseAndWait (runtime_name (lo_runtime o')) (lo_checkout o') (flag_options o' f) r) (\<lambda>o' c. True)"
  by (auto simp: one_call_def close_operation_def logged_call_def Let_def same_frame_def split: prod.splits option.splits)

lemma remove_one_call: "one_call (remove_operation (traced s))
    (\<lambda>o' c. (\<exists>r. c = RemoveWorktree (lo_repo_path o') (lo_checkout o') r) \<or> (\<exists>r. c = ApplyRemoval (lo_repo_path o') (lo_checkout o') r))
    (\<lambda>o' c. removed_by o' c)"
  by (auto simp: one_call_def remove_operation_def remove_with_submodules_def logged_call_def Let_def
      split: prod.splits option.splits if_splits)

lemma switch_one_call: "one_call (switch_operation (traced s) b)
    (\<lambda>o' c. \<exists>r. c = GitRun (lo_repo_path o') [''switch'', b] r) (\<lambda>o' c. switched_by o' c)"
  by (auto simp: one_call_def switch_operation_def logged_call_def Let_def split: prod.splits option.splits)

lemma run_weaken: "holds P m Q R \<Longrightarrow> (\<And>ex tr. Q ex tr \<Longrightarrow> Q' ex tr) \<Longrightarrow> run_holds Q' ms Q'' R \<Longrightarrow> run_holds P (m # ms) Q'' R"
  by (rule run_Cons[OF holds_consequence])

lemma run_conseq: "holds P m Q R \<Longrightarrow> (\<And>ex tr. P' ex tr \<Longrightarrow> P ex tr) \<Longrightarrow> (\<And>ex tr. Q ex tr \<Longrightarrow> Q' ex tr) \<Longrightarrow>
  run_holds Q' ms Q'' R \<Longrightarrow> run_holds P' (m # ms) Q'' R"
  by (rule run_Cons[OF holds_consequence])

lemmas cold_rules = cold_inv_grows cold_inv_framed cold_inv_guarded

lemma mono_true: "mono (\<lambda>S :: call set. c)"
  by (simp add: mono_def)

lemmas log_monos = seen_mono mono_conj mono_member mono_true

text \<open>The checks, for any assertion that reads keep.\<close>

lemma git_check: "grows J \<Longrightarrow> (\<And>ex tr. J ex tr \<Longrightarrow> R tr) \<Longrightarrow>
  holds J (check_step (revalidate_git_baseline (traced s)) advice) (\<lambda>ex tr. J ex tr \<and> recent (baseline_seen (ex_observed ex)) tr) R"
  by (rule check_hold[where E = baseline_seen]) (auto dest: revalidate_git_log)

lemma identity_check: "grows J \<Longrightarrow> (\<And>ex tr. J ex tr \<Longrightarrow> R tr) \<Longrightarrow>
  holds J (check_step (ensure_park_branch_identity (traced s)) advice)
    (\<lambda>ex tr. J ex tr \<and> recent (\<lambda>S. baseline_seen (ex_observed ex) S \<and>
      gs_branch (lo_status (ex_observed ex)) = t_branch (lo_task (ex_observed ex))) tr) R"
  by (rule check_hold[where E = "\<lambda>o' S. baseline_seen o' S \<and> gs_branch (lo_status o') = t_branch (lo_task o')"])
    (auto dest: branch_identity_log)

lemma cold_git_check: "grows J \<Longrightarrow> (\<And>ex tr. J ex tr \<Longrightarrow> R tr) \<Longrightarrow>
  holds J (check_step (ensure_cold_git_ready (traced s)) advice)
    (\<lambda>ex tr. J ex tr \<and> recent (\<lambda>S. baseline_seen (ex_observed ex) S \<and> cold_git_error (ex_observed ex) = None) tr) R"
  by (rule check_hold[where E = "\<lambda>o' S. baseline_seen o' S \<and> cold_git_error o' = None"]) (auto dest: ensure_cold_git_log)

lemma artifact_check: "grows J \<Longrightarrow> (\<And>ex tr. J ex tr \<Longrightarrow> R tr) \<Longrightarrow>
  holds J (check_step (revalidate_cold_artifact (traced s)) advice) (\<lambda>ex tr. J ex tr \<and> recent (artifacts_seen (ex_observed ex)) tr) R"
  by (rule check_hold[where E = artifacts_seen]) (auto dest: artifact_log)

lemma occupancy_check: "grows J \<Longrightarrow> (\<And>ex tr. J ex tr \<Longrightarrow> R tr) \<Longrightarrow>
  holds J (check_step (\<lambda>o'. revalidate_cleanup_baseline (traced s) o' f) advice)
    (\<lambda>ex tr. J ex tr \<and> recent (occupancy_seen s (ex_observed ex) f) tr) R"
  by (rule check_hold[where E = "\<lambda>o'. occupancy_seen s o' f"]) (auto dest: occupancy_log)

lemma released_update: "grows J \<Longrightarrow> framed J \<Longrightarrow> (\<And>ex tr. J ex tr \<Longrightarrow> R tr) \<Longrightarrow>
  holds J (update_step (\<lambda>o'. ensure_runtime_released (traced s) o' f) advice)
    (\<lambda>ex tr. J ex tr \<and> (\<exists>o'. same_frame o' (ex_observed ex) \<and> recent (coverage_seen_gone o' f) tr)) R"
  by (rule update_hold[where E = "\<lambda>o'. coverage_seen_gone o' f"]) (auto dest: released_log released_frame)

lemma boundary_update: "grows J \<Longrightarrow> framed J \<Longrightarrow> (\<And>ex tr. J ex tr \<Longrightarrow> R tr) \<Longrightarrow>
  holds J (update_step (\<lambda>o'. ensure_cold_removal_boundary (traced s) o' f closed) advice)
    (\<lambda>ex tr. J ex tr \<and> (\<exists>o'. same_frame o' (ex_observed ex) \<and> recent (\<lambda>S. baseline_seen o' S \<and> cold_git_error o' = None \<and>
      artifacts_seen o' S \<and> coverage_seen_gone o' f S) tr)) R"
  by (rule update_hold[where E = "\<lambda>o' S. baseline_seen o' S \<and> cold_git_error o' = None \<and> artifacts_seen o' S \<and> coverage_seen_gone o' f S"])
    (auto dest: boundary_log boundary_frame)

lemma cold_commit_steps:
  "e_code e = ''commit-wip'' \<Longrightarrow> run_holds (cold_inv s v rv o0 pr) (cold_steps (traced s) v i pr e) (cold_inv s v rv o0 pr) (guarded (cold_guard s v rv o0))"
  unfolding cold_steps_def if_P
  apply (rule run_Cons[OF git_check[OF cold_inv_grows]])
   apply (erule cold_inv_guarded)
  apply (rule run_weaken[OF cold_run_hold[OF wip_one_call]])
    apply (auto simp: same_frame_def)[1]
   apply (erule conjunct1)
  apply (rule run_Cons[OF refresh_hold[OF cold_rules]])
   apply assumption
  apply (rule run_weaken[OF check_hold[where E = "\<lambda>_ _. True", OF _ cold_inv_grows]])
     apply (auto simp: dirty_after_checkpoint_def log_grows_def)[1]
    apply (erule cold_inv_guarded)
   apply (erule conjunct1)
  apply (rule run_Nil)
  done

lemma cold_push_steps:
  "e_code e = ''push-branch'' \<Longrightarrow> run_holds (cold_inv s v rv o0 pr) (cold_steps (traced s) v i pr e) (cold_inv s v rv o0 pr) (guarded (cold_guard s v rv o0))"
  apply (simp only: cold_steps_def) apply simp
  apply (rule run_Cons[OF identity_check[OF cold_inv_grows]])
   apply (erule cold_inv_guarded)
  apply (rule run_conseq[OF cold_run_hold[OF push_one_call,
      where E = "\<lambda>o' tr. gs_branch (lo_status o') = t_branch (lo_task o') \<and> recent (baseline_seen o') tr"]])
     apply (auto simp: same_frame_def push_args_def)[1]
    apply (auto simp: recent_def)[1]
   apply (erule conjunct1)
  apply (rule run_Cons[OF refresh_hold[OF cold_rules]])
   apply assumption
  apply (rule run_Nil)
  done

lemma recent_three:
  assumes "recent (\<lambda>S. P S \<and> c) tr" "recent Q tr" "recent U tr" "mono P" "mono Q" "mono U"
  shows "c \<and> recent (\<lambda>S. P S \<and> Q S \<and> U S) tr"
proof -
  have "recent P tr" and c using assms(1) by (auto simp: recent_def)
  then show ?thesis
    using recent_conj[OF \<open>recent P tr\<close> recent_conj[OF assms(2,3,5,6)] assms(4) mono_conj[OF assms(5,6)]] by simp
qed

lemma cold_close_steps:
  assumes "e_code e = ''close-runtime''"
  shows "run_holds (cold_inv s v rv o0 pr) (cold_steps (traced s) v i pr e)
    (cold_inv s v rv o0 (pr\<lparr>cp_closed := True\<rparr>)) (guarded (cold_guard s v rv o0))"
proof -
  let ?I = "cold_inv s v rv o0 pr" and ?R = "guarded (cold_guard s v rv o0)"
  let ?git = "\<lambda>o' S. baseline_seen o' S \<and> cold_git_error o' = None"
  let ?J = "\<lambda>ex tr. ?I ex tr \<and> recent (?git (ex_observed ex)) tr"
  let ?K = "\<lambda>ex tr. ?J ex tr \<and> recent (artifacts_seen (ex_observed ex)) tr"
  let ?E = "\<lambda>o' tr. cold_git_error o' = None \<and>
    recent (\<lambda>S. baseline_seen o' S \<and> artifacts_seen o' S \<and> occupancy_seen s o' (cold_flags v) S) tr"
  have J: "grows ?J" by (rule grows_recent[OF cold_inv_grows]) (intro log_monos)
  have K: "grows ?K" by (rule grows_recent[OF J]) (intro log_monos)
  have git: "holds ?I (check_step (ensure_cold_git_ready (traced s)) a) ?J ?R" for a
    by (rule cold_git_check[OF cold_inv_grows cold_inv_guarded])
  have art: "holds ?J (check_step (revalidate_cold_artifact (traced s)) a) ?K ?R" for a
    by (rule artifact_check[OF J]) (elim conjE, erule cold_inv_guarded)
  have occ: "holds ?K (check_step (\<lambda>o'. revalidate_cleanup_baseline (traced s) o' (cold_flags v)) a)
      (\<lambda>ex tr. ?I ex tr \<and> ?E (ex_observed ex) tr) ?R" for a
  proof (rule holds_consequence[OF occupancy_check[OF K, where f = "cold_flags v"]])
    fix ex tr
    show "?K ex tr \<Longrightarrow> ?R tr" by (elim conjE) (erule cold_inv_guarded)
    assume "?K ex tr \<and> recent (occupancy_seen s (ex_observed ex) (cold_flags v)) tr"
    then show "?I ex tr \<and> ?E (ex_observed ex) tr"
      using recent_three[OF _ _ _ seen_mono(1,2,3)] by blast
  qed
  have close: "holds (\<lambda>ex tr. ?I ex tr \<and> ?E (ex_observed ex) tr)
      (run_step (traced s) e (close_operation (traced s) (cold_flags v)) a) ?I ?R" for a
  proof (rule holds_consequence[OF cold_run_hold[OF close_one_call, where E = ?E]])
    fix o' tr c
    assume f: "same_frame o0 o'" and ev: "?E o' tr"
      and c: "\<exists>r. c = CloseAndWait (runtime_name (lo_runtime o')) (lo_checkout o') (flag_options o' (cold_flags v)) r"
    show "cold_call_ok s v rv o0 tr c \<and> \<not> is_task_write c"
      using c ev f frame_flag_options[OF f, of "cold_flags v"] by (auto simp: same_frame_def[of o0 o'] intro!: exI[of _ o'])
  qed auto
  have free: "holds ?I (update_step (\<lambda>o'. ensure_runtime_released (traced s) o' (cold_flags v)) a)
      (cold_inv s v rv o0 (pr\<lparr>cp_closed := True\<rparr>)) ?R" for a
    by (rule holds_consequence[OF released_update[OF cold_inv_grows cold_inv_framed cold_inv_guarded]]) (auto simp: cold_inv_def)
  show ?thesis
    using assms by (simp add: cold_steps_def) (rule run_Cons[OF git run_Cons[OF art run_Cons[OF occ run_Cons[OF close run_Cons[OF free run_Nil]]]]])
qed

lemma branch_retained_hold:
  "holds (\<lambda>ex tr. cold_inv s v rv o0 pr ex tr \<and> X (set tr)) (branch_retained_step (traced s) a b c d)
    (\<lambda>ex tr. cold_inv s v rv o0 pr ex tr \<and> branch_seen o0 (set tr) \<and> (\<exists>S. S \<subseteq> set tr \<and> X S)) (guarded (cold_guard s v rv o0))"
  unfolding holds_def
proof (intro allI impI)
  fix ex :: execution and w tr
  assume j: "cold_inv s v rv o0 pr ex tr \<and> X (set tr)"
  let ?dir = "lo_repo_path (ex_observed ex)" and ?ref = "local_branch_ref (t_branch (lo_task (ex_observed ex)))"
  obtain there err w' where r: "ls_ref_state s ?dir ?ref w = ((there, err), w')" by (metis surj_pair)
  let ?tr = "tr @ [RefState ?dir ?ref (there, err)]"
  have inv: "cold_inv s v rv o0 pr ex ?tr"
    using j cold_inv_grows[of s v rv o0 pr] log_growsI[of ?tr tr "[RefState ?dir ?ref (there, err)]" "\<lambda>_. True"]
    unfolding grows_def by auto
  moreover have "there \<and> err = None \<Longrightarrow> branch_seen o0 (set ?tr)"
    using j by (auto simp: branch_seen_def cold_inv_def same_frame_def)
  moreover have "\<exists>S. S \<subseteq> set ?tr \<and> X S" using j by (intro exI[of _ "set tr"]) auto
  ultimately show "case branch_retained_step (traced s) a b c d ex (w, tr) of (err, ex', w', tr') \<Rightarrow>
      if err = None then cold_inv s v rv o0 pr ex' tr' \<and> branch_seen o0 (set tr') \<and> (\<exists>S. S \<subseteq> set tr' \<and> X S)
      else guarded (cold_guard s v rv o0) tr'"
    using r by (auto simp: branch_retained_step_def logged_call_def split: option.splits dest: cold_inv_guarded)
qed

lemma same_frame_sym: "same_frame a b \<Longrightarrow> same_frame b a"
  by (simp add: same_frame_def)

lemma boundary_evidence:
  assumes "cold_inv s v rv o0 pr ex tr" and "same_frame o' (ex_observed ex)"
    and "recent (\<lambda>S. baseline_seen o' S \<and> cold_git_error o' = None \<and> artifacts_seen o' S \<and> coverage_seen_gone o' f S) tr"
  shows "cold_evidence o0 f tr"
proof -
  have "same_frame o0 o'"
    using assms(1,2) by (auto simp: cold_inv_def intro: same_frame_trans same_frame_sym)
  moreover have "cold_git_error o' = None" using assms(3) by (auto simp: recent_def)
  ultimately show ?thesis
    using assms(3) by (auto simp: cold_evidence_def elim!: recent_weaken intro!: exI[of _ o'])
qed

lemma removed_frame: "same_frame o0 o' \<Longrightarrow> removed_by o' c = removed_by o0 c"
  by (cases c) (auto simp: same_frame_def)

lemma switched_frame: "same_frame o0 o' \<Longrightarrow> switched_by o' c = switched_by o0 c"
  by (cases c) (auto simp: same_frame_def)

lemma boundary_first:
  "holds (cold_inv s v rv o0 pr) (update_step (\<lambda>o'. ensure_cold_removal_boundary (traced s) o' f closed) advice)
    (\<lambda>ex tr. cold_inv s v rv o0 pr ex tr \<and> cold_evidence o0 f tr) (guarded (cold_guard s v rv o0))"
  by (rule holds_consequence[OF boundary_update[OF cold_inv_grows cold_inv_framed cold_inv_guarded]])
    (auto intro: boundary_evidence)

lemma cold_remove_steps:
  "e_code e = ''remove-worktree'' \<Longrightarrow> run_holds (cold_inv s v rv o0 pr) (cold_steps (traced s) v i pr e)
    (cold_inv s v rv o0 (pr\<lparr>cp_removed := True\<rparr>)) (guarded (cold_guard s v rv o0))"
  apply (simp only: cold_steps_def) apply simp
  apply (rule run_Cons[OF boundary_first])
  apply (rule run_conseq[where Q' = "\<lambda>ex tr. cold_inv s v rv o0 pr ex tr \<and> (\<exists>c \<in> set tr. removed_by o0 c)",
      OF cold_run_hold[OF remove_one_call, where E = "\<lambda>o' tr. cold_evidence o0 (cold_flags v) tr"]])
     apply (auto simp: same_frame_def)[1]
    apply assumption
   apply (auto simp: removed_frame)[1]
  apply (rule run_weaken[where Q' = "cold_inv s v rv o0 (pr\<lparr>cp_removed := True\<rparr>)",
      OF branch_retained_hold[where X = "\<lambda>S. \<exists>c \<in> S. removed_by o0 c"]])
   apply (auto simp: cold_inv_def)[1]
  apply (rule run_Nil)
  done

lemma evidence_grows: "cold_evidence o0 f tr \<Longrightarrow> log_grows tr tr' Q \<Longrightarrow> cold_evidence o0 f tr'"
proof -
  assume "cold_evidence o0 f tr" and g: "log_grows tr tr' Q"
  then obtain o' where o': "same_frame o0 o'" "cold_git_error o' = None"
    "recent (\<lambda>S. baseline_seen o' S \<and> artifacts_seen o' S \<and> coverage_seen_gone o' f S) tr"
    unfolding cold_evidence_def by auto
  have "recent (\<lambda>S. baseline_seen o' S \<and> artifacts_seen o' S \<and> coverage_seen_gone o' f S) tr'"
    by (rule recent_grows[OF o'(3) g]) (intro log_monos)
  then show "cold_evidence o0 f tr'" unfolding cold_evidence_def using o'(1,2) by auto
qed

lemma base_exists_hold:
  "holds (\<lambda>ex tr. cold_inv s v rv o0 pr ex tr \<and> cold_evidence o0 f tr) (base_exists_step (traced s) b)
    (\<lambda>ex tr. cold_inv s v rv o0 pr ex tr \<and> cold_evidence o0 f tr \<and> b \<noteq> [] \<and>
       recent (\<lambda>S. RefState (lo_repo_path o0) b (True, None) \<in> S) tr) (guarded (cold_guard s v rv o0))"
  unfolding holds_def
proof (intro allI impI)
  fix ex :: execution and w tr
  assume j: "cold_inv s v rv o0 pr ex tr \<and> cold_evidence o0 f tr"
  let ?dir = "lo_repo_path (ex_observed ex)"
  obtain there err w' where r: "ls_ref_state s ?dir b w = ((there, err), w')" by (metis surj_pair)
  let ?tr = "tr @ [RefState ?dir b (there, err)]"
  have dir: "?dir = lo_repo_path o0" using j by (simp add: cold_inv_def same_frame_def)
  have grown: "log_grows tr ?tr (\<lambda>S. RefState ?dir b (there, err) \<in> S)" by (auto intro: log_growsI)
  have inv: "cold_inv s v rv o0 pr ex ?tr \<and> cold_evidence o0 f ?tr"
    using j grown cold_inv_grows[of s v rv o0 pr] evidence_grows unfolding grows_def by blast
  moreover have "recent (\<lambda>S. RefState ?dir b (there, err) \<in> S) ?tr" by (rule recent_log[OF grown])
  ultimately show "case base_exists_step (traced s) b ex (w, tr) of (err, ex', w', tr') \<Rightarrow>
      if err = None then cold_inv s v rv o0 pr ex' tr' \<and> cold_evidence o0 f tr' \<and> b \<noteq> [] \<and>
        recent (\<lambda>S. RefState (lo_repo_path o0) b (True, None) \<in> S) tr'
      else guarded (cold_guard s v rv o0) tr'"
    using r dir by (auto simp: base_exists_step_def logged_call_def split: option.splits dest: cold_inv_guarded)
qed

lemma refresh_keeps:
  "holds (\<lambda>ex tr. cold_inv s v rv o0 pr ex tr \<and> (\<exists>c \<in> set tr. switched_by o0 c)) (refresh_step (traced s) prefix other advice)
    (\<lambda>ex tr. cold_inv s v rv o0 pr ex tr \<and> (\<exists>c \<in> set tr. switched_by o0 c)) (guarded (cold_guard s v rv o0))"
proof (rule refresh_hold)
  show "grows (\<lambda>ex tr. cold_inv s v rv o0 pr ex tr \<and> (\<exists>c \<in> set tr. switched_by o0 c))"
    using cold_inv_grows[of s v rv o0 pr] log_grows_subset unfolding grows_def by blast
  show "framed (\<lambda>ex tr. cold_inv s v rv o0 pr ex tr \<and> (\<exists>c \<in> set tr. switched_by o0 c))"
    using cold_inv_framed[of s v rv o0 pr] unfolding framed_def by blast
qed (auto dest: cold_inv_guarded)

lemma cold_switch_steps:
  "e_code e = ''switch-base'' \<Longrightarrow> run_holds (cold_inv s v rv o0 pr) (cold_steps (traced s) v i pr e)
    (cold_inv s v rv o0 (pr\<lparr>cp_switched := True\<rparr>)) (guarded (cold_guard s v rv o0))"
  apply (simp only: cold_steps_def) apply simp
  apply (rule run_Cons[OF boundary_first])
  apply (rule run_Cons[OF base_exists_hold])
  apply (rule run_conseq[where Q' = "\<lambda>ex tr. cold_inv s v rv o0 pr ex tr \<and> (\<exists>c \<in> set tr. switched_by o0 c)",
      OF cold_run_hold[OF switch_one_call, where E = "\<lambda>o' tr. cold_evidence o0 (cold_flags v) tr \<and> detail_of e ''base'' \<noteq> [] \<and>
        recent (\<lambda>S. RefState (lo_repo_path o0) (detail_of e ''base'') (True, None) \<in> S) tr"]])
     apply (auto simp: same_frame_def)[1]
    apply assumption
   apply (auto simp: switched_frame)[1]
  apply (rule run_Cons[OF refresh_keeps])
  apply (rule run_weaken[where Q' = "cold_inv s v rv o0 (pr\<lparr>cp_switched := True\<rparr>)",
      OF branch_retained_hold[where X = "\<lambda>S. \<exists>c \<in> S. switched_by o0 c"]])
   apply (auto simp: cold_inv_def)[1]
  apply (rule run_Nil)
  done

lemma record_one_call: "record_operation (traced s) label f ex (w, tr) = (r, ex', w', tr') \<Longrightarrow>
    \<exists>x. tr' = tr @ [TaskUpdate (f (ex_observed ex) (lo_task (ex_observed ex))) (ex_revision ex) x]"
  by (auto simp: record_operation_def logged_call_def Let_def split: prod.splits option.splits)

lemma cold_candidate_frame: "cold_candidate host v a t = cold_candidate host v b t"
  by (simp add: cold_candidate_def Let_def)

lemma cold_update_steps:
  assumes "e_code e = ''update-task''"
  shows "run_holds (cold_inv s v rv o0 pr) (cold_steps (traced s) v i pr e) (\<lambda>ex tr. guarded (cold_guard s v rv o0) tr)
    (guarded (cold_guard s v rv o0))"
proof -
  have order: "holds (cold_inv s v rv o0 pr) (cold_order_step i pr) (\<lambda>ex tr. cold_inv s v rv o0 pr ex tr \<and> vacated o0 tr)
      (guarded (cold_guard s v rv o0))"
    by (auto simp: holds_def cold_order_step_def vacated_def same_frame_def cold_inv_def)
  have run: "holds (\<lambda>ex tr. cold_inv s v rv o0 pr ex tr \<and> vacated o0 tr)
      (run_step (traced s) e (record_operation (traced s) ''COLD'' (cold_candidate (ls_host s) v)) advice)
      (\<lambda>ex tr. guarded (cold_guard s v rv o0) tr) (guarded (cold_guard s v rv o0))" for advice
    unfolding holds_def
  proof (intro allI impI)
    fix ex :: execution and w tr
    assume j: "cold_inv s v rv o0 pr ex tr \<and> vacated o0 tr"
    obtain d err ex' w' tr' where r: "record_operation (traced s) ''COLD'' (cold_candidate (ls_host s) v) ex (w, tr) = ((d, err), ex', w', tr')"
      by (metis surj_pair)
    obtain x where "tr' = tr @ [TaskUpdate (cold_candidate (ls_host s) v (ex_observed ex) (lo_task (ex_observed ex))) (ex_revision ex) x]"
      using record_one_call[OF r] by auto
    moreover have "lo_task (ex_observed ex) = lo_task o0" "ex_revision ex = rv"
      using j by (auto simp: cold_inv_def same_frame_def)
    ultimately have "guarded (cold_guard s v rv o0) tr'"
      using j by (auto simp: cold_inv_def guarded_snoc cold_guard_def intro: cold_candidate_frame)
    then show "case run_step (traced s) e (record_operation (traced s) ''COLD'' (cold_candidate (ls_host s) v)) advice ex (w, tr) of
        (err, ex', w', tr') \<Rightarrow> if err = None then guarded (cold_guard s v rv o0) tr' else guarded (cold_guard s v rv o0) tr'"
      using r by (auto simp: run_step_def run_effect_def Let_def)
  qed
  show ?thesis
    using assms by (simp add: cold_steps_def) (rule run_Cons[OF order run_Cons[OF run run_Nil]])
qed

lemma cold_other_steps:
  assumes "e_code e \<notin> {''commit-wip'', ''push-branch'', ''close-runtime'', ''remove-worktree'', ''switch-base'', ''update-task''}"
  shows "run_holds (cold_inv s v rv o0 pr) (cold_steps (traced s) v i pr e) Q (guarded (cold_guard s v rv o0))"
  using assms by (auto simp: cold_steps_def run_holds_def dest: cold_inv_guarded)

lemma cold_effect_steps:
  assumes "e_code e \<noteq> ''update-task''"
  shows "run_holds (cold_inv s v rv o0 pr) (cold_steps (traced s) v i pr e) (cold_inv s v rv o0 (cold_progress_after e pr))
    (guarded (cold_guard s v rv o0))"
proof -
  consider "e_code e = ''commit-wip''" | "e_code e = ''push-branch''" | "e_code e = ''close-runtime''" |
    "e_code e = ''remove-worktree''" | "e_code e = ''switch-base''" |
    "e_code e \<notin> {''commit-wip'', ''push-branch'', ''close-runtime'', ''remove-worktree'', ''switch-base'', ''update-task''}"
    using assms by blast
  then show ?thesis
    by cases (simp_all add: cold_progress_after_def cold_commit_steps cold_push_steps cold_close_steps cold_remove_steps
        cold_switch_steps cold_other_steps)
qed

lemma run_holdsD:
  "run_holds P ms Q R \<Longrightarrow> P ex tr \<Longrightarrow> run_steps ms ex (w, tr) = (err, ex', w', tr') \<Longrightarrow> if err = None then Q ex' tr' else R tr'"
  unfolding run_holds_def by (drule spec[where x = ex], drule spec[where x = w], drule spec[where x = tr], simp)

lemma cold_loop_guarded:
  assumes "task_written_last es" and "cold_inv s v rv o0 pr ex tr"
    and "cold_loop (traced s) v i pr es ex (w, tr) = (err, ex', w', tr')"
  shows "guarded (cold_guard s v rv o0) tr'"
  using assms
proof (induction es arbitrary: pr ex w tr)
  case Nil
  then show ?case by (auto simp: cold_inv_def)
next
  case (Cons e es)
  obtain err1 ex1 w1 tr1 where run: "run_steps (cold_steps (traced s) v i pr e) ex (w, tr) = (err1, ex1, w1, tr1)"
    by (metis surj_pair)
  show ?case
  proof (cases "e_code e = ''update-task''")
    case True
    then have "es = []" using Cons.prems(1) by (cases es) (auto simp: task_written_last_def)
    moreover have "guarded (cold_guard s v rv o0) tr1"
      using run_holdsD[OF cold_update_steps[OF True] Cons.prems(2) run] by (auto split: if_splits)
    ultimately show ?thesis using Cons.prems(3) run by (auto split: option.splits)
  next
    case False
    note step = run_holdsD[OF cold_effect_steps[OF False] Cons.prems(2) run]
    have "task_written_last es" using Cons.prems(1) by (cases es) (auto simp: task_written_last_def)
    then show ?thesis
      using Cons.IH[of "cold_progress_after e pr" ex1 tr1 w1] Cons.prems(3) run step
      by (cases err1) auto
  qed
qed

lemma park_cold_effects_last: "task_written_last (park_cold_effects o' v)" "task_written_last (park_warm_effects o' u)"
  by (auto simp: task_written_last_def park_cold_effects_def park_warm_effects_def Let_def commit_effects_def push_effects_def
      close_effects_def vacate_effect_def new_effect_def butlast_append split: if_splits)

lemma cold_guarded:
  assumes "task_written_last (execution_effects (ex_plan ex))" and "quiet tr0"
    and "apply_park_cold (traced s) v ex (w, tr0) = (err, ex', w', tr)"
  shows "guarded (cold_guard s v (ex_revision ex) (ex_observed ex)) tr"
  by (rule cold_loop_guarded[OF assms(1) _ assms(3)[unfolded apply_park_cold_def]])
    (use assms(2) guarded_quiet[OF assms(2), of _ "[]"] in \<open>simp add: cold_inv_def quiet_unwritten\<close>)


end
