(* ===== verification/ParkWarm.thy ===== *)
theory ParkWarm
  imports ParkGuard
begin

text \<open>
  The order of a WARM parking, with the rules of \<open>ParkGuard\<close>: nothing is removed and no branch is
  switched, each change follows fresh reads, and the task is written last.
\<close>

fun warm_call_ok :: "'w life_service \<Rightarrow> park_warm_options \<Rightarrow> string \<Rightarrow> life_observation \<Rightarrow> call list \<Rightarrow> call \<Rightarrow> bool" where
  "warm_call_ok s v rv o0 pre (WipCommit dir m r) \<longleftrightarrow> dir = lo_checkout o0 \<and>
     (\<exists>o'. same_frame o0 o' \<and> recent (baseline_seen o') pre)"
| "warm_call_ok s v rv o0 pre (GitRun dir args r) \<longleftrightarrow> dir = lo_checkout o0 \<and> args = push_args (t_branch (lo_task o0)) \<and>
     (\<exists>o'. same_frame o0 o' \<and> recent (baseline_seen o') pre)"
| "warm_call_ok s v rv o0 pre (CloseAndWait rt dir os r) \<longleftrightarrow>
     rt = runtime_name (lo_runtime o0) \<and> dir = lo_checkout o0 \<and> os = flag_options o0 (warm_flags v) \<and>
     (\<exists>o'. same_frame o0 o' \<and> recent (\<lambda>S. baseline_seen o' S \<and> occupancy_seen s o' (warm_flags v) S) pre)"
| "warm_call_ok s v rv o0 pre (TaskUpdate t old r) \<longleftrightarrow> old = rv \<and>
     (\<exists>o'. same_frame o0 o' \<and> t = warm_candidate (ls_host s) v o' (lo_task o0) \<and> recent (baseline_seen o') pre \<and>
       (pw_keep_session v \<or> recent (occupancy_seen s o' (warm_flags v)) pre \<or> recent (coverage_seen_gone o' (warm_flags v)) pre))"
| "warm_call_ok s v rv o0 pre _ = False"

definition warm_guard :: "'w life_service \<Rightarrow> park_warm_options \<Rightarrow> string \<Rightarrow> life_observation \<Rightarrow> call list \<Rightarrow> call \<Rightarrow> bool" where
  "warm_guard s v rv o0 pre c \<longleftrightarrow> unwritten pre \<and> warm_call_ok s v rv o0 pre c"

definition warm_inv :: "'w life_service \<Rightarrow> park_warm_options \<Rightarrow> string \<Rightarrow> life_observation \<Rightarrow> assertion" where
  "warm_inv s v rv o0 ex tr \<longleftrightarrow> guarded (warm_guard s v rv o0) tr \<and> unwritten tr \<and>
    same_frame o0 (ex_observed ex) \<and> ex_revision ex = rv"

lemma warm_inv_grows: "grows (warm_inv s v rv o0)"
  unfolding grows_def by (auto simp: warm_inv_def log_grows_def guarded_quiet quiet_unwritten)

lemma warm_inv_framed: "framed (warm_inv s v rv o0)"
  unfolding framed_def by (auto simp: warm_inv_def intro: same_frame_trans)

lemma warm_inv_guarded: "warm_inv s v rv o0 ex tr \<Longrightarrow> guarded (warm_guard s v rv o0) tr"
  by (simp add: warm_inv_def)

lemmas warm_rules = warm_inv_grows warm_inv_framed warm_inv_guarded

lemma warm_run_hold:
  assumes op: "one_call operation C D"
    and ok: "\<And>o' tr c. same_frame o0 o' \<Longrightarrow> E o' tr \<Longrightarrow> C o' c \<Longrightarrow> warm_call_ok s v rv o0 tr c \<and> \<not> is_task_write c"
  shows "holds (\<lambda>ex tr. warm_inv s v rv o0 ex tr \<and> E (ex_observed ex) tr) (run_step s' e operation advice)
    (warm_inv s v rv o0) (guarded (warm_guard s v rv o0))"
proof (rule holds_consequence[OF run_hold[OF op _ warm_inv_guarded, where E = E]])
  fix ex ex' :: execution and tr c
  assume j: "warm_inv s v rv o0 ex tr" "E (ex_observed ex) tr" "C (ex_observed ex) c"
    "same_frame (ex_observed ex) (ex_observed ex')" "ex_revision ex' = ex_revision ex"
  then have f: "same_frame o0 (ex_observed ex)" by (simp add: warm_inv_def)
  show "warm_inv s v rv o0 ex' (tr @ [c])"
    using ok[OF f j(2,3)] same_frame_trans[OF f j(4)] j(1,5) by (auto simp: warm_inv_def guarded_snoc warm_guard_def)
qed auto


lemma warm_git: "holds (warm_inv s v rv o0) (check_step (revalidate_git_baseline (traced s)) a)
    (\<lambda>ex tr. warm_inv s v rv o0 ex tr \<and> recent (baseline_seen (ex_observed ex)) tr) (guarded (warm_guard s v rv o0))"
  by (rule git_check[OF warm_inv_grows warm_inv_guarded])

lemma warm_git_grows: "grows (\<lambda>ex tr. warm_inv s v rv o0 ex tr \<and> recent (baseline_seen (ex_observed ex)) tr)"
  by (rule grows_recent[OF warm_inv_grows]) (intro log_monos)

lemma warm_occupancy: "holds (\<lambda>ex tr. warm_inv s v rv o0 ex tr \<and> recent (baseline_seen (ex_observed ex)) tr)
    (check_step (\<lambda>o'. revalidate_cleanup_baseline (traced s) o' f) a)
    (\<lambda>ex tr. warm_inv s v rv o0 ex tr \<and> recent (baseline_seen (ex_observed ex)) tr \<and> recent (occupancy_seen s (ex_observed ex) f) tr)
    (guarded (warm_guard s v rv o0))"
  by (rule holds_consequence[OF occupancy_check[OF warm_git_grows]]) (auto dest: warm_inv_guarded)

lemma warm_refresh: "holds (warm_inv s v rv o0) (refresh_step (traced s) prefix other a) (warm_inv s v rv o0) (guarded (warm_guard s v rv o0))"
  by (rule refresh_hold[OF warm_rules])

lemma warm_wip: "holds (\<lambda>ex tr. warm_inv s v rv o0 ex tr \<and> recent (baseline_seen (ex_observed ex)) tr)
    (run_step (traced s) e (wip_operation (traced s) e) a) (warm_inv s v rv o0) (guarded (warm_guard s v rv o0))"
  by (rule warm_run_hold[OF wip_one_call]) (auto simp: same_frame_def)

lemma warm_push: "holds (\<lambda>ex tr. warm_inv s v rv o0 ex tr \<and> recent (baseline_seen (ex_observed ex)) tr)
    (run_step (traced s) e (push_operation (traced s)) a) (warm_inv s v rv o0) (guarded (warm_guard s v rv o0))"
  by (rule warm_run_hold[OF push_one_call]) (auto simp: same_frame_def)

lemma warm_close: "holds (\<lambda>ex tr. warm_inv s v rv o0 ex tr \<and> recent (baseline_seen (ex_observed ex)) tr \<and>
      recent (occupancy_seen s (ex_observed ex) (warm_flags v)) tr)
    (run_step (traced s) e (close_operation (traced s) (warm_flags v)) a) (warm_inv s v rv o0) (guarded (warm_guard s v rv o0))"
proof (rule holds_consequence[OF warm_run_hold[OF close_one_call,
    where E = "\<lambda>o'. recent (\<lambda>S. baseline_seen o' S \<and> occupancy_seen s o' (warm_flags v) S)"]])
  fix o' tr c
  assume f: "same_frame o0 o'" and ev: "recent (\<lambda>S. baseline_seen o' S \<and> occupancy_seen s o' (warm_flags v) S) tr"
    and c: "\<exists>r. c = CloseAndWait (runtime_name (lo_runtime o')) (lo_checkout o') (flag_options o' (warm_flags v)) r"
  show "warm_call_ok s v rv o0 tr c \<and> \<not> is_task_write c"
    using c ev f frame_flag_options[OF f, of "warm_flags v"] by (auto simp: same_frame_def[of o0 o'] intro!: exI[of _ o'])
qed (use recent_conj[OF _ _ seen_mono(1,3)] in blast)+

lemma released_same:
  assumes "ensure_runtime_released s o' f w = (r, o2, w')"
  shows "baseline_seen o2 = baseline_seen o'" "coverage_seen_gone o2 f = coverage_seen_gone o' f"
  using assms by (auto simp: ensure_runtime_released_def baseline_seen_def coverage_seen_gone_def flag_options_def
      cleanup_options_def fun_eq_iff split: prod.splits option.splits)

abbreviation warm_fresh :: "'w life_service \<Rightarrow> park_warm_options \<Rightarrow> string \<Rightarrow> life_observation \<Rightarrow> assertion" where
  "warm_fresh s v rv o0 ex tr \<equiv> warm_inv s v rv o0 ex tr \<and> recent (baseline_seen (ex_observed ex)) tr"

lemma warm_released: "holds (warm_fresh s v rv o0) (update_step (\<lambda>o'. ensure_runtime_released (traced s) o' f) a)
    (\<lambda>ex tr. warm_fresh s v rv o0 ex tr \<and> recent (coverage_seen_gone (ex_observed ex) f) tr) (guarded (warm_guard s v rv o0))"
  unfolding holds_def
proof (intro allI impI)
  fix ex :: execution and w tr
  assume j: "warm_fresh s v rv o0 ex tr"
  obtain r o2 w' tr' where g: "ensure_runtime_released (traced s) (ex_observed ex) f (w, tr) = (r, o2, w', tr')" by (metis prod_cases4)
  note l = released_log[OF g]
  have inv: "warm_inv s v rv o0 (ex\<lparr>ex_observed := o2\<rparr>) tr'"
    using j l warm_inv_grows[of s v rv o0] warm_inv_framed[of s v rv o0] released_frame[OF g] unfolding grows_def framed_def by blast
  moreover have "recent (baseline_seen o2) tr'"
    using recent_grows[OF conjunct2[OF j] l seen_mono(1)] released_same(1)[OF g] by simp
  moreover have "r = None \<Longrightarrow> recent (coverage_seen_gone o2 f) tr'"
    using recent_log[OF l] released_same(2)[OF g] by simp
  ultimately show "case update_step (\<lambda>o'. ensure_runtime_released (traced s) o' f) a ex (w, tr) of (err, ex', w', tr') \<Rightarrow>
      if err = None then warm_fresh s v rv o0 ex' tr' \<and> recent (coverage_seen_gone (ex_observed ex') f) tr'
      else guarded (warm_guard s v rv o0) tr'"
    using g warm_inv_guarded[OF inv] by (auto simp: update_step_def)
qed

abbreviation unoccupied :: "'w life_service \<Rightarrow> park_warm_options \<Rightarrow> life_observation \<Rightarrow> call list \<Rightarrow> bool" where
  "unoccupied s v o' tr \<equiv> pw_keep_session v \<or> recent (occupancy_seen s o' (warm_flags v)) tr \<or>
    recent (coverage_seen_gone o' (warm_flags v)) tr"

lemma warm_record: "holds (\<lambda>ex tr. warm_fresh s v rv o0 ex tr \<and> unoccupied s v (ex_observed ex) tr)
    (run_step (traced s) e (record_operation (traced s) label (warm_candidate (ls_host s) v)) a)
    (\<lambda>ex. guarded (warm_guard s v rv o0)) (guarded (warm_guard s v rv o0))"
  unfolding holds_def
proof (intro allI impI)
  fix ex :: execution and w tr
  let ?o = "ex_observed ex" and ?op = "record_operation (traced s) label (warm_candidate (ls_host s) v)"
  assume j: "warm_fresh s v rv o0 ex tr \<and> unoccupied s v ?o tr"
  obtain d err ex' w' tr' where r: "?op ex (w, tr) = ((d, err), ex', w', tr')" by (metis surj_pair)
  obtain x where tr': "tr' = tr @ [TaskUpdate (warm_candidate (ls_host s) v ?o (lo_task ?o)) (ex_revision ex) x]"
    using record_one_call[OF r] by auto
  have inv: "guarded (warm_guard s v rv o0) tr" "unwritten tr" "same_frame o0 ?o" "ex_revision ex = rv"
    using j by (simp_all add: warm_inv_def)
  have "lo_task ?o = lo_task o0" using inv(3) by (simp add: same_frame_def)
  then have "guarded (warm_guard s v rv o0) tr'"
    using j inv unfolding tr' guarded_snoc warm_guard_def warm_call_ok.simps by (metis inv(2))
  then show "case run_step (traced s) e ?op a ex (w, tr) of
      (err, ex', w', tr') \<Rightarrow> if err = None then guarded (warm_guard s v rv o0) tr' else guarded (warm_guard s v rv o0) tr'"
    using r by (auto simp: run_step_def run_effect_def Let_def)
qed

section \<open>The loop\<close>

lemma warm_released_end: "holds (warm_inv s v rv o0) (update_step (\<lambda>o'. ensure_runtime_released (traced s) o' f) a)
    (warm_inv s v rv o0) (guarded (warm_guard s v rv o0))"
  by (rule holds_consequence[OF released_update[OF warm_rules]]) auto

lemma warm_update_steps:
  assumes "e_code e = ''update-task''"
  shows "run_holds (warm_inv s v rv o0) (warm_steps (traced s) v i closed e) (\<lambda>ex. guarded (warm_guard s v rv o0))
    (guarded (warm_guard s v rv o0))"
proof -
  let ?G = "guarded (warm_guard s v rv o0)"
  have last: "run_holds (\<lambda>ex tr. warm_fresh s v rv o0 ex tr \<and> unoccupied s v (ex_observed ex) tr)
      [run_step (traced s) e (record_operation (traced s) label (warm_candidate (ls_host s) v)) a] (\<lambda>ex. ?G) ?G" for label a
    by (rule run_Cons[OF warm_record run_Nil])
  consider "pw_keep_session v" | "\<not> pw_keep_session v" "closed" | "\<not> pw_keep_session v" "\<not> closed" by blast
  then show ?thesis
  proof cases
    case 1
    then show ?thesis using assms by (simp add: warm_steps_def) (rule run_weaken[OF warm_git _ last], simp)
  next
    case 2
    then show ?thesis using assms
      by (simp add: warm_steps_def) (rule run_Cons[OF warm_git], rule run_weaken[OF warm_released _ last], simp)
  next
    case 3
    then show ?thesis using assms
      by (simp add: warm_steps_def) (rule run_Cons[OF warm_git], rule run_weaken[OF warm_occupancy _ last], simp)
  qed
qed

lemma warm_effect_steps:
  assumes "e_code e \<noteq> ''update-task''"
  shows "run_holds (warm_inv s v rv o0) (warm_steps (traced s) v i closed e) (warm_inv s v rv o0) (guarded (warm_guard s v rv o0))"
proof -
  note ends = run_Cons[OF warm_refresh run_Nil]
  consider "e_code e = ''commit-wip''" | "e_code e = ''push-branch''" | "e_code e = ''close-runtime''" |
    "e_code e \<notin> {''commit-wip'', ''push-branch'', ''close-runtime'', ''update-task''}"
    using assms by blast
  then show ?thesis
  proof cases
    case 1
    then show ?thesis by (simp add: warm_steps_def) (rule run_Cons[OF warm_git run_Cons[OF warm_wip ends]])
  next
    case 2
    then show ?thesis by (simp add: warm_steps_def) (rule run_Cons[OF warm_git run_Cons[OF warm_push ends]])
  next
    case 3
    then show ?thesis
      by (simp add: warm_steps_def) (rule run_Cons[OF warm_git run_Cons[OF warm_occupancy run_Cons[OF warm_close
          run_Cons[OF warm_released_end run_Nil]]]])
  next
    case 4
    then show ?thesis by (auto simp: warm_steps_def run_holds_def dest: warm_inv_guarded)
  qed
qed

lemma warm_loop_guarded:
  assumes "task_written_last es" and "warm_inv s v rv o0 ex tr"
    and "warm_loop (traced s) v i closed es ex (w, tr) = (err, ex', w', tr')"
  shows "guarded (warm_guard s v rv o0) tr'"
  using assms
proof (induction es arbitrary: closed ex w tr)
  case Nil
  then show ?case by (auto simp: warm_inv_def)
next
  case (Cons e es)
  obtain err1 ex1 w1 tr1 where run: "run_steps (warm_steps (traced s) v i closed e) ex (w, tr) = (err1, ex1, w1, tr1)"
    by (metis surj_pair)
  show ?case
  proof (cases "e_code e = ''update-task''")
    case True
    then have "es = []" using Cons.prems(1) by (cases es) (auto simp: task_written_last_def)
    moreover have "guarded (warm_guard s v rv o0) tr1"
      using run_holdsD[OF warm_update_steps[OF True] Cons.prems(2) run] by (auto split: if_splits)
    ultimately show ?thesis using Cons.prems(3) run by (auto split: option.splits)
  next
    case False
    note step = run_holdsD[OF warm_effect_steps[OF False] Cons.prems(2) run]
    have "task_written_last es" using Cons.prems(1) by (cases es) (auto simp: task_written_last_def)
    then show ?thesis using Cons.IH[of ex1 tr1 _ w1] Cons.prems(3) run step by (cases err1) auto
  qed
qed

lemma warm_guarded:
  assumes "task_written_last (execution_effects (ex_plan ex))" and "quiet tr0"
    and "apply_park_warm (traced s) v ex (w, tr0) = (err, ex', w', tr)"
  shows "guarded (warm_guard s v (ex_revision ex) (ex_observed ex)) tr"
  by (rule warm_loop_guarded[OF assms(1) _ assms(3)[unfolded apply_park_warm_def]])
    (use assms(2) guarded_quiet[OF assms(2), of _ "[]"] in \<open>simp add: warm_inv_def quiet_unwritten\<close>)

text \<open>
  C3: Whatever the hooks answer and however the execution of a WARM parking ends, it removes nothing and
  switches no branch. Its checkpoint, push and close name the observed checkout, and each is preceded,
  with no other change in between, by reads that answered what the plan had observed of the registration,
  the status, the commit and the operation, the close also by an inspection that shows the sessions
  observed. The task is written after all of them, against the revision read under the lock, in state WARM,
  after fresh reads of Git and, unless the session is to be kept, of the runtime.
\<close>

theorem warm_mutations_guarded:
  assumes "task_written_last (execution_effects (ex_plan ex))"
    and "apply_park_warm (traced s) v ex (w, []) = (err, ex', w', pre @ c # post)"
    and "is_mutation c"
  shows "unwritten pre \<and> warm_call_ok s v (ex_revision ex) (ex_observed ex) pre c"
  using warm_guarded[OF assms(1) _ assms(2)] assms(3) by (auto simp: guarded_def warm_guard_def)

end
