(* ===== verification/ParkReady.thy ===== *)
theory ParkReady
  imports ParkPlan
begin

text \<open>
  When a parking plan is ready: the conditions of \<open>ParkPlan\<close> against one closed formula over the
  observation, for COLD and for WARM, and what the effects of a ready COLD plan are.
\<close>

section \<open>Conditions that hold\<close>

definition cond_ok :: "condition \<Rightarrow> bool" where
  "cond_ok c \<longleftrightarrow> c_requirement c = requirement_advisory \<or> c_requirement c = requirement_required \<and> c_verdict c = verdict_met"

lemma cond_ok_mk [simp]: "cond_ok (mk_condition code v rq e m) \<longleftrightarrow>
    rq = requirement_advisory \<or> rq = requirement_required \<and> v = verdict_met"
  by (simp add: cond_ok_def mk_condition_def)

lemma requirement_for_simps [simp]:
  "requirement_for b = requirement_advisory \<longleftrightarrow> \<not> b" "requirement_for b = requirement_required \<longleftrightarrow> b"
  "requirement_for True = requirement_required" "requirement_for False = requirement_advisory"
  by (auto simp: requirement_for_def)

lemma ready_cond_ok: "availability_for cs = Ready \<longleftrightarrow> list_all cond_ok cs"
  by (auto simp: availability_Ready_iff cond_ok_def list_all_iff)

section \<open>The checkout\<close>

definition exact_checkout :: "life_observation \<Rightarrow> bool" where
  "exact_checkout o' \<longleftrightarrow> rw_common_dir (lo_worktree o') = lo_common_dir o' \<and>
    lo_head_err o' = None \<and> wt_head (rw_worktree (lo_worktree o')) = lo_head o' \<and>
    (if lo_mode o' = mode_worktree
     then (if t_worktree (lo_task o') = [] then t_state (lo_task o') = state_cold \<and> lo_branch_matches o' = 1
           else rw_path (lo_worktree o') \<noteq> [])
     else t_worktree (lo_task o') = [] \<and> rw_path (lo_worktree o') = lo_repo_path o')"

definition on_branch :: "life_observation \<Rightarrow> bool" where
  "on_branch o' \<longleftrightarrow> \<not> wt_detached (rw_worktree (lo_worktree o')) \<and> wt_branch (rw_worktree (lo_worktree o')) = t_branch (lo_task o') \<and>
    (lo_status_err o' = None \<longrightarrow> \<not> gs_detached (lo_status o') \<and> gs_branch (lo_status o') = t_branch (lo_task o'))"

definition right_kind :: "life_observation \<Rightarrow> bool" where
  "right_kind o' \<longleftrightarrow> (if lo_mode o' = mode_worktree then observed_linked o'
    else wt_main (rw_worktree (lo_worktree o')) \<and> \<not> wt_bare (rw_worktree (lo_worktree o')))"

lemma exact_verdict: "fst (checkout_exact_verdict pr o') = verdict_met \<longleftrightarrow> exact_checkout o'"
  by (auto simp: checkout_exact_verdict_def exact_checkout_def Let_def split: option.splits)

lemma kind_ok: "cond_ok (kind_condition o') \<longleftrightarrow> right_kind o'"
  by (auto simp: kind_condition_def right_kind_def Let_def)

lemma flag_ok: "cond_ok (flag_condition o' cold) \<longleftrightarrow>
    (cold \<and> lo_mode o' = mode_worktree \<longrightarrow>
      \<not> wt_locked (rw_worktree (lo_worktree o')) \<and> \<not> wt_prunable (rw_worktree (lo_worktree o')))"
  by (auto simp: flag_condition_def Let_def)

lemma branch_ok: "cond_ok (branch_condition pr o') \<longleftrightarrow> on_branch o'"
  by (auto simp: branch_condition_def on_branch_def Let_def)

lemma absent_not_ok: "\<not> list_all cond_ok (absent_checkout_conditions o' cold wip)"
  by (simp add: absent_checkout_conditions_def Let_def)

lemma status_ok: "list_all cond_ok (status_conditions o' cold wip) \<longleftrightarrow> lo_status_err o' = None \<and>
    (cold \<or> wip \<longrightarrow> lo_operation_err o' = None \<and> \<not> lo_in_progress o' \<and> gs_conflicted (lo_status o') = 0) \<and>
    (cold \<and> \<not> wip \<longrightarrow> \<not> status_dirty (lo_status o'))"
  by (auto simp: status_conditions_def operation_condition_def conflict_condition_def clean_condition_def Let_def
      split: option.splits)

lemma checkout_ok: "list_all cond_ok (park_checkout_conditions pr o' cold wip) \<longleftrightarrow> has_checkout o' \<and> exact_checkout o' \<and>
    right_kind o' \<and> cond_ok (flag_condition o' cold) \<and> on_branch o' \<and> list_all cond_ok (status_conditions o' cold wip)"
proof (cases "has_checkout o'")
  case True
  then show ?thesis
    by (auto simp: park_checkout_conditions_def kind_ok branch_ok exact_verdict[of pr, symmetric] split: prod.splits)
next
  case False
  then show ?thesis by (simp add: park_checkout_conditions_def absent_not_ok)
qed

section \<open>The runtime\<close>

definition runtime_usable :: "life_observation \<Rightarrow> bool" where
  "runtime_usable o' \<longleftrightarrow> runtime_name (lo_runtime o') = ''none'' \<or> lo_runtime_available o'"

lemma available_ok: "fst (available_verdict o') = verdict_met \<longleftrightarrow> runtime_usable o'"
  by (auto simp: available_verdict_def runtime_usable_def Let_def)

lemma cold_runtime_ok: "list_all cond_ok (cold_runtime_conditions o') \<longleftrightarrow> lo_runtime_err o' = None \<and> runtime_usable o' \<and>
    lo_cleanup_err o' = None \<and> in_blockers (lo_cleanup o') = [] \<and> \<not> in_caller_contained (lo_cleanup o')"
  using available_ok[of o']
  by (auto simp: cold_runtime_conditions_def runtime_failed_conditions_def runtime_conditions_def split: option.splits prod.splits)

lemma warm_runtime_ok: "list_all cond_ok (warm_runtime_conditions o' options) \<longleftrightarrow>
    pw_keep_session options \<or> lo_runtime_err o' = None \<and> (lo_runtime o' = Some ''none'' \<or>
      lo_cleanup_err o' = None \<and> (in_caller_contained (lo_cleanup o') \<or>
        in_blockers (lo_cleanup o') = [] \<and> runtime_usable o'))"
  using available_ok[of o']
  by (auto simp: warm_runtime_conditions_def runtime_failed_conditions_def runtime_conditions_def split: option.splits prod.splits)

section \<open>COLD\<close>

lemma publication_ok: "list_all cond_ok (cold_publication_conditions o' options) \<longleftrightarrow> lo_status_err o' = None \<and>
    (pc_push options \<or> status_published (lo_status o') \<and> gs_ahead (lo_status o') \<le> 0 \<and>
      \<not> (pc_commit_wip options \<and> status_dirty (lo_status o')))"
  by (auto simp: cold_publication_conditions_def Let_def split: option.splits)

lemma artifact_ok: "cond_ok (artifact_condition o') \<longleftrightarrow> (lo_mode o' = mode_worktree \<longrightarrow>
    has_checkout o' \<and> observed_linked o' \<and> lo_artifact_err o' = None \<and> artifact_ready (lo_artifact o'))"
  by (auto simp: artifact_condition_def split: option.splits)

lemma base_ok: "cond_ok (base_condition o') \<longleftrightarrow> (lo_mode o' = mode_branch \<longrightarrow>
    lo_base_ref o' \<noteq> [] \<and> lo_base_ref_err o' = None \<and> lo_base_ref_exists o')"
  by (auto simp: base_condition_def split: option.splits)

lemma next_ok [simp]: "cond_ok (next_condition n)"
  by (simp add: next_condition_def)

definition cold_parkable :: "life_observation \<Rightarrow> park_cold_options \<Rightarrow> bool" where
  "cold_parkable o' options \<longleftrightarrow>
    has_checkout o' \<and> exact_checkout o' \<and> right_kind o' \<and> on_branch o' \<and>
    (lo_mode o' = mode_worktree \<longrightarrow> \<not> wt_locked (rw_worktree (lo_worktree o')) \<and> \<not> wt_prunable (rw_worktree (lo_worktree o'))) \<and>
    lo_status_err o' = None \<and> lo_operation_err o' = None \<and> \<not> lo_in_progress o' \<and> gs_conflicted (lo_status o') = 0 \<and>
    (status_dirty (lo_status o') \<longrightarrow> pc_commit_wip options \<and> pc_push options) \<and>
    (pc_push options \<or> status_published (lo_status o') \<and> gs_ahead (lo_status o') \<le> 0) \<and>
    (lo_mode o' = mode_worktree \<longrightarrow> lo_artifact_err o' = None \<and> artifact_ready (lo_artifact o')) \<and>
    (lo_mode o' = mode_branch \<longrightarrow> lo_base_ref o' \<noteq> [] \<and> lo_base_ref_err o' = None \<and> lo_base_ref_exists o') \<and>
    lo_runtime_err o' = None \<and> runtime_usable o' \<and> lo_cleanup_err o' = None \<and>
    in_blockers (lo_cleanup o') = [] \<and> \<not> in_caller_contained (lo_cleanup o')"

lemma cold_ready_formula:
  "availability_for (ps_conditions (park_cold_spec pr authority displayed options o')) = Ready \<longleftrightarrow> cold_parkable o' options"
  by (auto simp: park_cold_spec_def ready_cond_ok park_cold_conditions_def checkout_ok status_ok flag_ok publication_ok
      artifact_ok cold_runtime_ok base_ok cold_parkable_def right_kind_def)


section \<open>WARM\<close>

definition warm_parkable :: "life_observation \<Rightarrow> park_warm_options \<Rightarrow> bool" where
  "warm_parkable o' options \<longleftrightarrow>
    has_checkout o' \<and> exact_checkout o' \<and> right_kind o' \<and> on_branch o' \<and> lo_status_err o' = None \<and>
    (pw_commit_wip options \<longrightarrow> lo_operation_err o' = None \<and> \<not> lo_in_progress o' \<and> gs_conflicted (lo_status o') = 0) \<and>
    (pw_keep_session options \<or> lo_runtime_err o' = None \<and> (lo_runtime o' = Some ''none'' \<or>
      lo_cleanup_err o' = None \<and> (in_caller_contained (lo_cleanup o') \<or>
        in_blockers (lo_cleanup o') = [] \<and> runtime_usable o')))"

lemma warm_publication_ok: "list_all cond_ok (warm_publication_conditions o')"
  by (auto simp: warm_publication_conditions_def split: option.splits)

lemma warm_ready_exact:
  "availability_for (ps_conditions (park_warm_spec pr authority displayed options o')) = Ready \<longleftrightarrow> warm_parkable o' options"
  by (auto simp: park_warm_spec_def ready_cond_ok park_warm_conditions_def checkout_ok status_ok flag_ok warm_publication_ok
      warm_runtime_ok warm_parkable_def)

end
