(* ===== verification/ParkLive.thy ===== *)
theory ParkLive
  imports ParkApply ParkReady
begin

text \<open>
  That a COLD parking ends in a parked task: when the plan was ready, the reads answer what the plan had
  observed and each change succeeds with the effect Git and the runtime document for it, the execution
  runs every effect of its plan and writes the task. \<open>cooperative\<close> states what is asked of the hooks.
\<close>

section \<open>Hooks that cooperate\<close>

definition reads_as :: "'w life_service \<Rightarrow> closure_flags \<Rightarrow> life_observation \<Rightarrow> 'w \<Rightarrow> bool" where
  \<comment> \<open>every read answers what the observation holds and changes nothing\<close>
  "reads_as s f o' w \<longleftrightarrow>
    ls_resolve_worktree s (lo_repo_path o') (lo_checkout o') w = ((lo_worktree o', None), w) \<and>
    ls_status s (lo_checkout o') w = ((lo_status o', None), w) \<and>
    (\<exists>out. ls_git_run s (lo_checkout o') head_args w = ((out, None), w) \<and> trim_space out = lo_head o') \<and>
    resolve_ref_oid s (lo_repo_path o') (t_base (lo_task o')) w = ((lo_base_oid o', lo_base_oid_err o'), w) \<and>
    resolve_ref_oid s (lo_repo_path o') (gs_upstream (lo_status o')) w = ((lo_upstream_oid o', lo_upstream_oid_err o'), w) \<and>
    ls_in_progress s (lo_checkout o') w = ((lo_operation o', lo_in_progress o', None), w) \<and>
    ls_inspect_artifacts s (lo_checkout o') w = ((lo_artifact o', None), w) \<and>
    ls_inspect_cleanup s (runtime_name (lo_runtime o')) (lo_checkout o') (flag_options o' f) w = ((lo_cleanup o', None), w)"

definition sound_checkout :: "string \<Rightarrow> life_observation \<Rightarrow> bool" where
  \<comment> \<open>a checkout on a branch, with nothing in progress\<close>
  "sound_checkout b o' \<longleftrightarrow> rw_path (lo_worktree o') = lo_checkout o' \<and> rw_common_dir (lo_worktree o') = lo_common_dir o' \<and>
    (if lo_mode o' = mode_worktree then is_linked_worktree (lo_worktree o')
     else wt_main (rw_worktree (lo_worktree o')) \<and> \<not> wt_bare (rw_worktree (lo_worktree o'))) \<and>
    \<not> gs_detached (lo_status o') \<and> gs_branch (lo_status o') = b \<and> wt_branch (rw_worktree (lo_worktree o')) = b \<and>
    wt_head (rw_worktree (lo_worktree o')) = lo_head o' \<and> \<not> lo_in_progress o' \<and> gs_conflicted (lo_status o') = 0"

definition moved :: "life_observation \<Rightarrow> life_observation \<Rightarrow> bool" where
  \<comment> \<open>the same checkout after a change: only what \<open>refreshCheckout\<close> reads differs\<close>
  "moved o' o2 \<longleftrightarrow> o2 = o'\<lparr>lo_worktree := lo_worktree o2, lo_status := lo_status o2, lo_status_err := None,
     lo_head := lo_head o2, lo_head_err := None, lo_base_oid := lo_base_oid o2, lo_base_oid_err := lo_base_oid_err o2,
     lo_upstream_oid := lo_upstream_oid o2, lo_upstream_oid_err := lo_upstream_oid_err o2, lo_operation := lo_operation o2,
     lo_in_progress := lo_in_progress o2, lo_operation_err := None\<rparr>"

abbreviation task_branch :: "life_observation \<Rightarrow> string" where
  "task_branch o' \<equiv> t_branch (lo_task o')"

definition in_sync :: "git_status \<Rightarrow> bool" where
  "in_sync st \<longleftrightarrow> status_published st \<and> gs_ahead st = 0"

definition stands :: "'w life_service \<Rightarrow> closure_flags \<Rightarrow> string \<Rightarrow> life_observation \<Rightarrow> 'w \<Rightarrow> bool" where
  "stands s f b o' w \<longleftrightarrow> reads_as s f o' w \<and> sound_checkout b o' \<and> lo_cleanup_err o' = None \<and> lo_artifact_err o' = None"

definition commits :: "'w life_service \<Rightarrow> closure_flags \<Rightarrow> (life_observation \<Rightarrow> 'w \<Rightarrow> bool) \<Rightarrow> bool" where
  "commits s f W \<longleftrightarrow> (\<forall>o' w m. W o' w \<longrightarrow> (\<exists>made o2 w2. ls_wip_commit s (lo_checkout o') m w = ((made, None), w2) \<and>
    moved o' o2 \<and> W o2 w2 \<and> \<not> status_dirty (lo_status o2)))"

definition pushes :: "'w life_service \<Rightarrow> closure_flags \<Rightarrow> (life_observation \<Rightarrow> 'w \<Rightarrow> bool) \<Rightarrow> bool" where
  "pushes s f W \<longleftrightarrow> (\<forall>o' w. W o' w \<longrightarrow> (\<exists>out o2 w2. ls_git_run s (lo_checkout o') (push_args (task_branch o')) w = ((out, None), w2) \<and>
    moved o' o2 \<and> W o2 w2 \<and> status_dirty (lo_status o2) = status_dirty (lo_status o') \<and> in_sync (lo_status o2)))"

definition closes :: "'w life_service \<Rightarrow> closure_flags \<Rightarrow> (life_observation \<Rightarrow> 'w \<Rightarrow> bool) \<Rightarrow> bool" where
  "closes s f W \<longleftrightarrow> (\<forall>o' w. W o' w \<longrightarrow> in_blockers (lo_cleanup o') = [] \<longrightarrow>
    (\<exists>closed w2. ls_close_and_wait s (runtime_name (lo_runtime o')) (lo_checkout o') (flag_options o' f) w = ((closed, None), w2) \<and>
      coverage_gone closed \<and> W (o'\<lparr>lo_cleanup := closed\<rparr>) w2))"

definition keeps_branch :: "'w life_service \<Rightarrow> string \<Rightarrow> life_observation \<Rightarrow> 'w \<Rightarrow> bool" where
  \<comment> \<open>the branch is there and the task can be written\<close>
  "keeps_branch s rv o' w \<longleftrightarrow>
    ls_ref_state s (lo_repo_path o') (local_branch_ref (task_branch o')) w = ((True, None), w) \<and>
    (\<forall>t. \<exists>r w2. ls_task_update s t rv w = ((Some r, None), w2) \<and> tr_task r = t)"

definition vacates :: "'w life_service \<Rightarrow> closure_flags \<Rightarrow> string \<Rightarrow> (life_observation \<Rightarrow> 'w \<Rightarrow> bool) \<Rightarrow> bool" where
  "vacates s f rv W \<longleftrightarrow> (\<forall>o' w. W o' w \<longrightarrow> cold_git_error o' = None \<longrightarrow> coverage_gone (lo_cleanup o') \<longrightarrow>
    (lo_mode o' = mode_worktree \<longrightarrow> (\<exists>w2. ls_remove_worktree s (lo_repo_path o') (lo_checkout o') w = (None, w2) \<and> keeps_branch s rv o' w2)) \<and>
    (lo_mode o' \<noteq> mode_worktree \<longrightarrow> ls_ref_state s (lo_repo_path o') (lo_base_ref o') w = ((True, None), w) \<and>
      (\<exists>out o2 w2. ls_git_run s (lo_repo_path o') [''switch'', lo_base_ref o'] w = ((out, None), w2) \<and> moved o' o2 \<and>
        stands s f (lo_base_ref o') o2 w2 \<and> keeps_branch s rv o' w2)))"

definition cooperative :: "'w life_service \<Rightarrow> closure_flags \<Rightarrow> string \<Rightarrow> (life_observation \<Rightarrow> 'w \<Rightarrow> bool) \<Rightarrow> bool" where
  \<comment> \<open>\<open>W o' w\<close>: the world is as observed, on the task's branch\<close>
  "cooperative s f rv W \<longleftrightarrow> (\<forall>o' w. W o' w \<longrightarrow> stands s f (task_branch o') o' w) \<and>
    commits s f W \<and> pushes s f W \<and> closes s f W \<and> vacates s f rv W"

section \<open>The checks pass\<close>

lemma moved_fields:
  assumes "moved o' o2"
  shows "lo_repo_path o2 = lo_repo_path o'" "lo_checkout o2 = lo_checkout o'" "lo_common_dir o2 = lo_common_dir o'"
    "lo_mode o2 = lo_mode o'" "lo_task o2 = lo_task o'" "lo_runtime o2 = lo_runtime o'" "lo_cleanup o2 = lo_cleanup o'"
    "lo_cleanup_err o2 = lo_cleanup_err o'" "lo_artifact o2 = lo_artifact o'" "lo_artifact_err o2 = lo_artifact_err o'"
    "lo_base_ref o2 = lo_base_ref o'"
  by (subst assms[unfolded moved_def]; simp)+

lemma same_status_same [simp]: "same_status st st"
  by (simp add: same_status_def)

lemma git_passes: "reads_as s f o' w \<Longrightarrow> revalidate_git_baseline s o' w = (None, w)"
  by (auto simp: reads_as_def revalidate_git_baseline_def)

lemma cleanup_passes: "reads_as s f o' w \<Longrightarrow> lo_cleanup_err o' = None \<Longrightarrow> revalidate_cleanup_baseline s o' f w = (None, w)"
  by (simp add: reads_as_def revalidate_cleanup_baseline_def checks.simps)

lemma artifact_passes: "reads_as s f o' w \<Longrightarrow> lo_artifact_err o' = None \<Longrightarrow> (lo_mode o' = mode_worktree \<Longrightarrow> artifact_ready (lo_artifact o')) \<Longrightarrow>
    revalidate_cold_artifact s o' w = (None, w)"
  by (simp add: reads_as_def revalidate_cold_artifact_def checks.simps)

lemma cold_git_passes: "sound_checkout (task_branch o') o' \<Longrightarrow> \<not> status_dirty (lo_status o') \<Longrightarrow> in_sync (lo_status o') \<Longrightarrow>
    cold_git_error o' = None"
  by (simp add: sound_checkout_def in_sync_def cold_git_error_def checks.simps)

lemma refresh_passes:
  assumes "moved o' o2" and "reads_as s f o2 w" and "sound_checkout b o2"
  shows "refresh_checkout s o' b w = (None, o2, w)"
proof -
  have kind: "refresh_kind_error o' (lo_worktree o2) = None"
    using assms(3) moved_fields[OF assms(1)] by (auto simp: sound_checkout_def refresh_kind_error_def checks.simps split: if_splits)
  obtain out where r: "ls_resolve_worktree s (lo_repo_path o') (lo_checkout o') w = ((lo_worktree o2, None), w)"
    "ls_status s (lo_checkout o') w = ((lo_status o2, None), w)"
    "ls_git_run s (lo_checkout o') head_args w = ((out, None), w)" "trim_space out = lo_head o2"
    "resolve_ref_oid s (lo_repo_path o') (t_base (lo_task o')) w = ((lo_base_oid o2, lo_base_oid_err o2), w)"
    "resolve_ref_oid s (lo_repo_path o') (gs_upstream (lo_status o2)) w = ((lo_upstream_oid o2, lo_upstream_oid_err o2), w)"
    "ls_in_progress s (lo_checkout o') w = ((lo_operation o2, lo_in_progress o2, None), w)"
    using assms(2) moved_fields[OF assms(1)] unfolding reads_as_def by metis
  show ?thesis
    using r kind assms(3) assms(1)[unfolded moved_def, symmetric] by (simp add: refresh_checkout_def sound_checkout_def)
qed

lemma released_passes: "reads_as s f o' w \<Longrightarrow> lo_cleanup_err o' = None \<Longrightarrow> coverage_gone (lo_cleanup o') \<Longrightarrow>
    ensure_runtime_released s o' f w = (None, o', w)"
  by (simp add: reads_as_def ensure_runtime_released_def checks.simps)

lemma boundary_passes:
  assumes "stands s f (task_branch o') o' w" and "cold_git_error o' = None" and "coverage_gone (lo_cleanup o')"
    and "lo_mode o' = mode_worktree \<Longrightarrow> artifact_ready (lo_artifact o')"
  shows "ensure_cold_removal_boundary s o' f closed w = (None, o', w)"
proof -
  have r: "reads_as s f o' w" and e: "lo_cleanup_err o' = None" "lo_artifact_err o' = None" using assms(1) by (auto simp: stands_def)
  have "ls_inspect_cleanup s (runtime_name (lo_runtime o')) (lo_checkout o') (flag_options o' f) w = ((lo_cleanup o', None), w)"
    using r by (simp add: reads_as_def)
  moreover have "o'\<lparr>lo_cleanup := lo_cleanup o', lo_cleanup_err := None\<rparr> = o'" using e(1) by simp
  ultimately show ?thesis
    using git_passes[OF r] artifact_passes[OF r e(2) assms(4)] assms(2,3) e
    by (simp add: ensure_cold_removal_boundary_def ensure_cold_git_ready_def checks.simps)
qed

section \<open>The effects run\<close>

definition ledger :: "execution \<Rightarrow> (effect \<times> step_status) list" where
  "ledger ex = map (\<lambda>st. (sr_effect st, sr_status st)) (ex_steps ex)"

definition advanced :: "effect \<Rightarrow> execution \<Rightarrow> execution \<Rightarrow> bool" where
  "advanced e ex ex2 \<longleftrightarrow> ledger ex2 = ledger ex @ [(e, StepCompleted)] \<and> ex_revision ex2 = ex_revision ex \<and>
    ex_removal ex2 = ex_removal ex \<and> ex_recovery ex2 = ex_recovery ex"

definition stepped :: "'w life_service \<Rightarrow> effect \<Rightarrow> string \<Rightarrow> 'w \<Rightarrow> 'w \<Rightarrow> execution \<Rightarrow> execution" where
  "stepped s e d w w2 ex = ex\<lparr>ex_steps := ex_steps ex @ [\<lparr>sr_diagnostic = None, sr_effect = e, sr_status = StepCompleted,
     sr_detail = d, sr_failure = [], sr_started_at = time_utc (ls_now s w), sr_finished_at = time_utc (ls_now s w2)\<rparr>]\<rparr>"

lemma stepped_fields [simp]: "ex_observed (stepped s e d w w2 ex) = ex_observed ex" "ex_revision (stepped s e d w w2 ex) = ex_revision ex"
  "ex_removal (stepped s e d w w2 ex) = ex_removal ex" "ex_recovery (stepped s e d w w2 ex) = ex_recovery ex"
  "ex_snapshot (stepped s e d w w2 ex) = ex_snapshot ex" "ledger (stepped s e d w w2 ex) = ledger ex @ [(e, StepCompleted)]"
  by (simp_all add: stepped_def ledger_def)

lemma ledger_observed [simp]: "ledger (ex\<lparr>ex_observed := o2\<rparr>) = ledger ex" "ledger (ex\<lparr>ex_snapshot := x\<rparr>) = ledger ex"
  by (simp_all add: ledger_def)

lemma run_step_passes: "operation ex w = ((d, None), ex2, w2) \<Longrightarrow> run_step s e operation a ex w = (None, stepped s e d w w2 ex2, w2)"
  by (simp add: run_step_def run_effect_def stepped_def)

lemma refresh_step_passes:
  assumes "moved (ex_observed ex) o2" and "reads_as s f o2 w" and "sound_checkout b o2"
    and "(case other of None \<Rightarrow> task_branch (ex_observed ex) | Some b \<Rightarrow> b) = b"
  shows "refresh_step s prefix other a ex w = (None, ex\<lparr>ex_observed := o2\<rparr>, w)"
  using refresh_passes[OF assms(1,2,3)] assms(4) by (simp add: refresh_step_def update_step_def)

lemma cooperates: "cooperative s f rv W \<Longrightarrow> W o' w \<Longrightarrow> stands s f (task_branch o') o' w"
  by (simp add: cooperative_def)

lemma refresh_after:
  assumes coop: "cooperative s f rv W" and o2: "moved (ex_observed ex) o2" "W o2 w"
  shows "refresh_step s prefix None a ex w = (None, ex\<lparr>ex_observed := o2\<rparr>, w)"
  using cooperates[OF coop o2(2)] moved_fields(5)[OF o2(1)]
  by (intro refresh_step_passes[OF o2(1), of s f w "task_branch o2"]) (auto simp: stands_def)

lemma git_check_passes: "reads_as s f (ex_observed ex) w \<Longrightarrow> check_step (revalidate_git_baseline s) a ex w = (None, ex, w)"
  by (simp add: check_step_def git_passes)

lemma live_commit:
  assumes coop: "cooperative s f rv W" and W: "W (ex_observed ex) w" and e: "e_code e = ''commit-wip''"
  shows "\<exists>ex2 w2. run_steps (cold_steps s v i pr e) ex w = (None, ex2, w2) \<and> advanced e ex ex2 \<and> W (ex_observed ex2) w2 \<and>
    moved (ex_observed ex) (ex_observed ex2) \<and> \<not> status_dirty (lo_status (ex_observed ex2))"
proof -
  let ?o = "ex_observed ex"
  obtain made o2 w2 where c: "ls_wip_commit s (lo_checkout ?o) (detail_of e ''message'') w = ((made, None), w2)"
    "moved ?o o2" "W o2 w2" "\<not> status_dirty (lo_status o2)"
    using coop W unfolding cooperative_def commits_def by blast
  have reads: "reads_as s f ?o w" using cooperates[OF coop W] by (simp add: stands_def)
  obtain d where op: "wip_operation s e ex w = ((d, None), ex, w2)" using c(1) by (simp add: wip_operation_def)
  have refresh: "refresh_step s prefix None a (stepped s e d w w2 ex) w2 = (None, (stepped s e d w w2 ex)\<lparr>ex_observed := o2\<rparr>, w2)" for prefix a
    by (rule refresh_after[OF coop]) (simp_all add: c)
  have clean: "lo_status (ex_observed ex3) = lo_status o2 \<Longrightarrow> check_step dirty_after_checkpoint a ex3 w2 = (None, ex3, w2)" for ex3 a
    using c(4) by (simp add: check_step_def dirty_after_checkpoint_def)
  show ?thesis
    using c by (simp add: cold_steps_def e git_check_passes[OF reads] run_step_passes[where operation = "wip_operation s e", OF op]
        refresh clean advanced_def)
qed

lemma live_push:
  assumes coop: "cooperative s f rv W" and W: "W (ex_observed ex) w" and e: "e_code e = ''push-branch''"
  shows "\<exists>ex2 w2. run_steps (cold_steps s v i pr e) ex w = (None, ex2, w2) \<and> advanced e ex ex2 \<and> W (ex_observed ex2) w2 \<and>
    moved (ex_observed ex) (ex_observed ex2) \<and> in_sync (lo_status (ex_observed ex2)) \<and>
    status_dirty (lo_status (ex_observed ex2)) = status_dirty (lo_status (ex_observed ex))"
proof -
  let ?o = "ex_observed ex"
  obtain out o2 w2 where c: "ls_git_run s (lo_checkout ?o) (push_args (task_branch ?o)) w = ((out, None), w2)"
    "moved ?o o2" "W o2 w2" "status_dirty (lo_status o2) = status_dirty (lo_status ?o)" "in_sync (lo_status o2)"
    using coop W unfolding cooperative_def pushes_def by blast
  have st: "reads_as s f ?o w" "sound_checkout (task_branch ?o) ?o" using cooperates[OF coop W] by (simp_all add: stands_def)
  have identity: "check_step (ensure_park_branch_identity s) a ex w = (None, ex, w)" for a
    using st by (simp add: check_step_def ensure_park_branch_identity_def git_passes sound_checkout_def)
  have op: "push_operation s ex w = ((''pushed origin/'' @ task_branch ?o, None), ex, w2)"
    using c(1) by (simp add: push_operation_def Let_def)
  have refresh: "refresh_step s prefix None a (stepped s e d w w2 ex) w2 = (None, (stepped s e d w w2 ex)\<lparr>ex_observed := o2\<rparr>, w2)" for prefix a d
    by (rule refresh_after[OF coop]) (simp_all add: c)
  show ?thesis
    using c by (simp add: cold_steps_def e identity run_step_passes[where operation = "push_operation s", OF op] refresh advanced_def)
qed

lemma live_close:
  assumes coop: "cooperative s (cold_flags v) rv W" and W: "W (ex_observed ex) w" and e: "e_code e = ''close-runtime''"
    and clean: "cold_git_error (ex_observed ex) = None" "in_blockers (lo_cleanup (ex_observed ex)) = []"
    and ready: "lo_mode (ex_observed ex) = mode_worktree \<Longrightarrow> artifact_ready (lo_artifact (ex_observed ex))"
  shows "\<exists>ex2 w2 closed. run_steps (cold_steps s v i pr e) ex w = (None, ex2, w2) \<and> advanced e ex ex2 \<and> W (ex_observed ex2) w2 \<and>
    ex_observed ex2 = (ex_observed ex)\<lparr>lo_cleanup := closed\<rparr> \<and> coverage_gone closed"
proof -
  let ?o = "ex_observed ex" and ?f = "cold_flags v"
  obtain closed w2 where c: "ls_close_and_wait s (runtime_name (lo_runtime ?o)) (lo_checkout ?o) (flag_options ?o ?f) w = ((closed, None), w2)"
    "coverage_gone closed" "W (?o\<lparr>lo_cleanup := closed\<rparr>) w2"
    using coop W clean(2) unfolding cooperative_def closes_def by blast
  have st: "reads_as s ?f ?o w" "lo_cleanup_err ?o = None" "lo_artifact_err ?o = None"
    using cooperates[OF coop W] by (simp_all add: stands_def)
  have st2: "reads_as s ?f (?o\<lparr>lo_cleanup := closed\<rparr>) w2" using cooperates[OF coop c(3)] by (simp add: stands_def)
  have git: "check_step (ensure_cold_git_ready s) a ex w = (None, ex, w)" for a
    using st(1) clean(1) by (simp add: check_step_def ensure_cold_git_ready_def git_passes)
  have artifacts: "check_step (revalidate_cold_artifact s) a ex w = (None, ex, w)" for a
    using artifact_passes[OF st(1,3) ready] by (simp add: check_step_def)
  have sessions: "check_step (\<lambda>o'. revalidate_cleanup_baseline s o' ?f) a ex w = (None, ex, w)" for a
    using cleanup_passes[OF st(1,2)] by (simp add: check_step_def)
  obtain d where op: "close_operation s ?f ex w = ((d, None), ex\<lparr>ex_observed := ?o\<lparr>lo_cleanup := closed\<rparr>\<rparr>, w2)"
    using c(1) by (simp add: close_operation_def Let_def)
  have free: "ensure_runtime_released s (?o\<lparr>lo_cleanup := closed\<rparr>) ?f w2 = (None, ?o\<lparr>lo_cleanup := closed\<rparr>, w2)"
    using released_passes[OF st2] st(2) c(2) by simp
  show ?thesis
    using c by (simp add: cold_steps_def e git artifacts sessions run_step_passes[where operation = "close_operation s (cold_flags v)", OF op]
        update_step_def free advanced_def) (rule exI[of _ closed], simp)
qed

lemma branch_there: "ls_ref_state s (lo_repo_path o') (local_branch_ref (task_branch o')) w = ((True, None), w) \<Longrightarrow>
    lo_repo_path (ex_observed ex) = lo_repo_path o' \<Longrightarrow> lo_task (ex_observed ex) = lo_task o' \<Longrightarrow>
    branch_retained_step s a b c d ex w = (None, ex, w)"
  by (simp add: branch_retained_step_def)

lemma base_detail: "closure_of (rev (fields_map (new_fields [(''base'', x), (''task-branch'', y)]))) ''base'' = x"
proof -
  have "''base'' \<le> ''task-branch''" by code_simp
  then show ?thesis by (simp add: new_fields_def fields_map_def closure_of_def)
qed

lemma live_vacate:
  assumes coop: "cooperative s (cold_flags v) rv W" and W: "W (ex_observed ex) w" 
    and e: "e_code e = e_code (vacate_effect (ex_observed ex))"
    and d: "lo_mode (ex_observed ex) \<noteq> mode_worktree \<Longrightarrow> detail_of e ''base'' = lo_base_ref (ex_observed ex)"
    and clean: "cold_git_error (ex_observed ex) = None" "coverage_gone (lo_cleanup (ex_observed ex))"
    and ready: "lo_mode (ex_observed ex) = mode_worktree \<Longrightarrow> artifact_ready (lo_artifact (ex_observed ex))"
    and base: "lo_mode (ex_observed ex) \<noteq> mode_worktree \<Longrightarrow> lo_base_ref (ex_observed ex) \<noteq> []" and keep: "\<not> ex_removal ex"
  shows "\<exists>ex2 w2. run_steps (cold_steps s v i pr e) ex w = (None, ex2, w2) \<and> advanced e ex ex2 \<and> lo_mode (ex_observed ex2) = lo_mode (ex_observed ex) \<and>
    lo_task (ex_observed ex2) = lo_task (ex_observed ex) \<and> (\<forall>t. \<exists>r w3. ls_task_update s t rv w2 = ((Some r, None), w3) \<and> tr_task r = t)"
proof -
  let ?o = "ex_observed ex" and ?f = "cold_flags v"
  have boundary: "update_step (\<lambda>o'. ensure_cold_removal_boundary s o' ?f closed) a ex w = (None, ex, w)" for closed a
    using boundary_passes[OF cooperates[OF coop W] clean ready] by (simp add: update_step_def)
  have go: "vacates s ?f rv W" using coop by (simp add: cooperative_def)
  show ?thesis
  proof (cases "lo_mode ?o = mode_worktree")
    case True
    then obtain w2 where c: "ls_remove_worktree s (lo_repo_path ?o) (lo_checkout ?o) w = (None, w2)" "keeps_branch s rv ?o w2"
      using go W clean unfolding vacates_def by blast
    have code: "e_code e = ''remove-worktree''" using True e by (simp add: vacate_effect_def new_effect_def)
    obtain d where op: "remove_operation s ex w = ((d, None), ex, w2)"
      using c(1) keep by (simp add: remove_operation_def remove_with_submodules_def Let_def)
    have there: "branch_retained_step s a b c' d' (stepped s e d w w2 ex) w2 = (None, stepped s e d w w2 ex, w2)" for a b c' d'
      using c(2) by (intro branch_there[of s ?o]) (simp_all add: keeps_branch_def)
    show ?thesis
      using c(2) by (simp add: cold_steps_def code boundary run_step_passes[where operation = "remove_operation s", OF op] there
          advanced_def keeps_branch_def)
  next
    case False
    then obtain out o2 w2 where c: "ls_ref_state s (lo_repo_path ?o) (lo_base_ref ?o) w = ((True, None), w)"
      "ls_git_run s (lo_repo_path ?o) [''switch'', lo_base_ref ?o] w = ((out, None), w2)" "moved ?o o2"
      "stands s ?f (lo_base_ref ?o) o2 w2" "keeps_branch s rv ?o w2"
      using go W clean unfolding vacates_def by blast
    have code: "e_code e = ''switch-base''" "detail_of e ''base'' = lo_base_ref ?o"
      using False e d by (simp_all add: vacate_effect_def new_effect_def)
    have exists: "base_exists_step s (lo_base_ref ?o) ex w = (None, ex, w)"
      using c(1) base[OF False] by (simp add: base_exists_step_def)
    obtain d where op: "switch_operation s (lo_base_ref ?o) ex w = ((d, None), ex, w2)" using c(2) by (simp add: switch_operation_def)
    let ?ex = "stepped s e d w w2 ex"
    have refresh: "refresh_step s prefix (Some (lo_base_ref ?o)) a ?ex w2 = (None, ?ex\<lparr>ex_observed := o2\<rparr>, w2)" for prefix a
      using c(3,4) by (intro refresh_step_passes[of _ o2 s ?f w2 "lo_base_ref ?o"]) (simp_all add: stands_def)
    have there: "branch_retained_step s a b c' d' (?ex\<lparr>ex_observed := o2\<rparr>) w2 = (None, ?ex\<lparr>ex_observed := o2\<rparr>, w2)" for a b c' d'
      using c(5) moved_fields[OF c(3)] by (intro branch_there[of s ?o]) (simp_all add: keeps_branch_def)
    show ?thesis
      using c(5) moved_fields[OF c(3)]
      by (simp add: cold_steps_def code boundary exists run_step_passes[where operation = "switch_operation s (lo_base_ref (ex_observed ex))", OF op]
          refresh there advanced_def keeps_branch_def)
  qed
qed

lemma live_update:
  assumes e: "e_code e = ''update-task''" and writable: "\<forall>t. \<exists>r w3. ls_task_update s t (ex_revision ex) w = ((Some r, None), w3) \<and> tr_task r = t"
    and order: "lo_mode (ex_observed ex) = mode_worktree \<longrightarrow> cp_removed pr" "lo_mode (ex_observed ex) = mode_branch \<longrightarrow> cp_switched pr"
  shows "\<exists>ex2 w2. run_steps (cold_steps s v i pr e) ex w = (None, ex2, w2) \<and> advanced e ex ex2 \<and> ex_snapshot ex2 \<noteq> [] \<and>
    lo_task (ex_observed ex2) = cold_candidate (ls_host s) v (ex_observed ex) (lo_task (ex_observed ex))"
proof -
  let ?o = "ex_observed ex" and ?t = "cold_candidate (ls_host s) v (ex_observed ex) (lo_task (ex_observed ex))"
  obtain r w2 where u: "ls_task_update s ?t (ex_revision ex) w = ((Some r, None), w2)" "tr_task r = ?t" using writable by blast
  have checks: "cold_order_step i pr ex w = (None, ex, w)" using order by (auto simp: cold_order_step_def checks.simps fail_if_def)
  obtain d where op: "record_operation s ''COLD'' (cold_candidate (ls_host s) v) ex w =
      ((d, None), ex\<lparr>ex_snapshot := ''task:'' @ tr_revision r, ex_observed := ?o\<lparr>lo_task := ?t\<rparr>\<rparr>, w2)"
    using u by (simp add: record_operation_def Let_def)
  show ?thesis
    by (simp add: cold_steps_def e checks
        run_step_passes[where operation = "record_operation s ''COLD'' (cold_candidate (ls_host s) v)", OF op] advanced_def)
qed

section \<open>The whole plan\<close>

definition onward :: "effect list \<Rightarrow> execution \<Rightarrow> execution \<Rightarrow> bool" where
  "onward es ex ex2 \<longleftrightarrow> ledger ex2 = ledger ex @ map (\<lambda>e. (e, StepCompleted)) es \<and> ex_revision ex2 = ex_revision ex \<and>
    ex_removal ex2 = ex_removal ex \<and> ex_recovery ex2 = ex_recovery ex"

definition same_place :: "life_observation \<Rightarrow> life_observation \<Rightarrow> bool" where
  "same_place o' o2 \<longleftrightarrow> lo_mode o2 = lo_mode o' \<and> lo_task o2 = lo_task o' \<and> lo_base_ref o2 = lo_base_ref o' \<and>
    lo_artifact o2 = lo_artifact o'"

lemma moved_place: "moved o' o2 \<Longrightarrow> same_place o' o2"
  using moved_fields[of o' o2] by (simp add: same_place_def)

lemma same_place_trans: "same_place a b \<Longrightarrow> same_place b c \<Longrightarrow> same_place a c"
  by (simp add: same_place_def)

lemma onward_Nil [simp]: "onward [] ex ex"
  by (simp add: onward_def)

lemma onward_append: "onward es ex ex2 \<Longrightarrow> onward es' ex2 ex3 \<Longrightarrow> onward (es @ es') ex ex3"
  by (simp add: onward_def)

lemma advanced_onward: "advanced e ex ex2 \<longleftrightarrow> onward [e] ex ex2"
  by (simp add: advanced_def onward_def)

lemma loop_Cons: "run_steps (cold_steps s v i pr e) ex w = (None, ex2, w2) \<Longrightarrow>
    cold_loop s v i pr (e # es) ex w = cold_loop s v i (cold_progress_after e pr) es ex2 w2"
  by simp

lemma stage_commit:
  assumes coop: "cooperative s f rv W" and W: "W (ex_observed ex) w"
  shows "\<exists>ex2 w2. (\<forall>es. cold_loop s v i pr (commit_effects (ex_observed ex) b n @ es) ex w = cold_loop s v i pr es ex2 w2) \<and>
    onward (commit_effects (ex_observed ex) b n) ex ex2 \<and> W (ex_observed ex2) w2 \<and> same_place (ex_observed ex) (ex_observed ex2) \<and>
    lo_cleanup (ex_observed ex2) = lo_cleanup (ex_observed ex) \<and>
    (if commit_effects (ex_observed ex) b n = [] then ex_observed ex2 = ex_observed ex else \<not> status_dirty (lo_status (ex_observed ex2)))"
proof (cases "commit_effects (ex_observed ex) b n")
  case Nil
  then show ?thesis using W by (intro exI[of _ ex] exI[of _ w]) (simp add: same_place_def)
next
  case (Cons e es)
  then have e: "es = []" "e_code e = ''commit-wip''" by (auto simp: commit_effects_def new_effect_def split: if_splits)
  obtain ex2 w2 where r: "run_steps (cold_steps s v i pr e) ex w = (None, ex2, w2)" "advanced e ex ex2" "W (ex_observed ex2) w2"
    "moved (ex_observed ex) (ex_observed ex2)" "\<not> status_dirty (lo_status (ex_observed ex2))"
    using live_commit[OF coop W e(2)] by blast
  have "cold_progress_after e pr = pr" using e(2) by (simp add: cold_progress_after_def)
  then show ?thesis
    using r moved_place[OF r(4)] moved_fields(7)[OF r(4)] loop_Cons[OF r(1)] Cons e(1)
    by (intro exI[of _ ex2] exI[of _ w2]) (simp add: advanced_onward)
qed

lemma stage_push:
  assumes coop: "cooperative s f rv W" and W: "W (ex_observed ex) w"
  shows "\<exists>ex2 w2. (\<forall>es. cold_loop s v i pr (push_effects o' b @ es) ex w = cold_loop s v i pr es ex2 w2) \<and>
    onward (push_effects o' b) ex ex2 \<and> W (ex_observed ex2) w2 \<and> same_place (ex_observed ex) (ex_observed ex2) \<and>
    lo_cleanup (ex_observed ex2) = lo_cleanup (ex_observed ex) \<and>
    status_dirty (lo_status (ex_observed ex2)) = status_dirty (lo_status (ex_observed ex)) \<and>
    (if b then in_sync (lo_status (ex_observed ex2)) else ex_observed ex2 = ex_observed ex)"
proof (cases b)
  case False
  then show ?thesis using W by (intro exI[of _ ex] exI[of _ w]) (simp add: same_place_def push_effects_def)
next
  case True
  obtain e where e: "push_effects o' b = [e]" "e_code e = ''push-branch''" using True by (simp add: push_effects_def new_effect_def)
  obtain ex2 w2 where r: "run_steps (cold_steps s v i pr e) ex w = (None, ex2, w2)" "advanced e ex ex2" "W (ex_observed ex2) w2"
    "moved (ex_observed ex) (ex_observed ex2)" "in_sync (lo_status (ex_observed ex2))"
    "status_dirty (lo_status (ex_observed ex2)) = status_dirty (lo_status (ex_observed ex))"
    using live_push[OF coop W e(2)] by blast
  have "cold_progress_after e pr = pr" using e(2) by (simp add: cold_progress_after_def)
  then show ?thesis
    using r moved_place[OF r(4)] moved_fields(7)[OF r(4)] loop_Cons[OF r(1)] e(1) True
    by (intro exI[of _ ex2] exI[of _ w2]) (simp add: advanced_onward)
qed

lemma stage_close:
  assumes coop: "cooperative s (cold_flags v) rv W" and W: "W (ex_observed ex) w"
    and clean: "cold_git_error (ex_observed ex) = None" "in_blockers (lo_cleanup (ex_observed ex)) = []"
    and ready: "lo_mode (ex_observed ex) = mode_worktree \<Longrightarrow> artifact_ready (lo_artifact (ex_observed ex))"
    and gone: "b \<or> coverage_gone (lo_cleanup (ex_observed ex))"
  shows "\<exists>ex2 w2 pr2. (\<forall>es. cold_loop s v i pr (close_effects o' b @ es) ex w = cold_loop s v i pr2 es ex2 w2) \<and>
    onward (close_effects o' b) ex ex2 \<and> W (ex_observed ex2) w2 \<and> same_place (ex_observed ex) (ex_observed ex2) \<and>
    cold_git_error (ex_observed ex2) = None \<and> coverage_gone (lo_cleanup (ex_observed ex2))"
proof (cases b)
  case False
  then show ?thesis using W clean gone by (intro exI[of _ ex] exI[of _ w] exI[of _ pr]) (simp add: same_place_def close_effects_def)
next
  case True
  obtain e where e: "close_effects o' b = [e]" "e_code e = ''close-runtime''" using True by (simp add: close_effects_def new_effect_def)
  obtain ex2 w2 closed where r: "run_steps (cold_steps s v i pr e) ex w = (None, ex2, w2)" "advanced e ex ex2" "W (ex_observed ex2) w2"
    "ex_observed ex2 = (ex_observed ex)\<lparr>lo_cleanup := closed\<rparr>" "coverage_gone closed"
    using live_close[OF coop W e(2) clean ready] by blast
  have "cold_git_error (ex_observed ex2) = None" using clean(1) by (simp add: r(4) cold_git_error_def checks.simps)
  then show ?thesis
    using r(2-5) loop_Cons[OF r(1)] e(1)
    by (intro exI[of _ ex2] exI[of _ w2] exI[of _ "cold_progress_after e pr"]) (simp add: advanced_onward same_place_def)
qed

lemma stage_vacate:
  assumes coop: "cooperative s (cold_flags v) (ex_revision ex) W" and W: "W (ex_observed ex) w" and place: "same_place o' (ex_observed ex)"
    and clean: "cold_git_error (ex_observed ex) = None" "coverage_gone (lo_cleanup (ex_observed ex))"
    and ready: "lo_mode o' = mode_worktree \<Longrightarrow> artifact_ready (lo_artifact o')"
    and base: "lo_mode o' \<noteq> mode_worktree \<Longrightarrow> lo_base_ref o' \<noteq> []" and keep: "\<not> ex_removal ex" and u: "e_code u = ''update-task''"
  shows "\<exists>ex2 w2. cold_loop s v i pr [vacate_effect o', u] ex w = (None, ex2, w2) \<and> onward [vacate_effect o', u] ex ex2 \<and>
    ex_snapshot ex2 \<noteq> [] \<and> lo_task (ex_observed ex2) = cold_candidate (ls_host s) v o' (lo_task o')"
proof -
  let ?e = "vacate_effect o'" and ?o = "ex_observed ex"
  have eq: "lo_mode ?o = lo_mode o'" "lo_base_ref ?o = lo_base_ref o'" "lo_artifact ?o = lo_artifact o'" "lo_task ?o = lo_task o'"
    using place by (simp_all add: same_place_def)
  have e: "e_code ?e = e_code (vacate_effect ?o)" by (simp add: vacate_effect_def new_effect_def eq)
  have d: "lo_mode ?o \<noteq> mode_worktree \<Longrightarrow> detail_of ?e ''base'' = lo_base_ref ?o"
    using base_detail by (simp add: vacate_effect_def new_effect_def detail_of_def eq)
  obtain ex2 w2 where r: "run_steps (cold_steps s v i pr ?e) ex w = (None, ex2, w2)" "advanced ?e ex ex2" "lo_mode (ex_observed ex2) = lo_mode ?o"
    "lo_task (ex_observed ex2) = lo_task ?o" "\<forall>t. \<exists>r w3. ls_task_update s t (ex_revision ex) w2 = ((Some r, None), w3) \<and> tr_task r = t"
    using live_vacate[OF coop W e d clean _ _ keep] ready base eq by metis
  have rev2: "ex_revision ex2 = ex_revision ex" using r(2) by (simp add: advanced_def)
  have pr2: "lo_mode ?o = mode_worktree \<longrightarrow> cp_removed (cold_progress_after ?e pr)" "lo_mode ?o = mode_branch \<longrightarrow> cp_switched (cold_progress_after ?e pr)"
    by (simp_all add: cold_progress_after_def vacate_effect_def new_effect_def eq)
  obtain ex3 w3 where q: "run_steps (cold_steps s v i (cold_progress_after ?e pr) u) ex2 w2 = (None, ex3, w3)" "advanced u ex2 ex3"
    "ex_snapshot ex3 \<noteq> []" "lo_task (ex_observed ex3) = cold_candidate (ls_host s) v (ex_observed ex2) (lo_task (ex_observed ex2))"
    using live_update[OF u, of s ex2 w2 "cold_progress_after ?e pr" v i] r(3,5) pr2 unfolding rev2 by auto
  have "onward [?e, u] ex ex3" using onward_append[of "[?e]" ex ex2 "[u]" ex3] r(2) q(2) by (simp add: advanced_onward)
  moreover have "cold_candidate (ls_host s) v (ex_observed ex2) (lo_task (ex_observed ex2)) = cold_candidate (ls_host s) v o' (lo_task o')"
    by (simp add: cold_candidate_def r(4) eq)
  ultimately show ?thesis using r(1) q by simp
qed

definition lasting_sessions :: "life_observation \<Rightarrow> bool" where
  \<comment> \<open>no session is listed by a backend that is missing or called none\<close>
  "lasting_sessions o' \<longleftrightarrow> in_sessions (lo_cleanup o') = [] \<or> lo_runtime o' \<noteq> None \<and> lo_runtime o' \<noteq> Some ''none''"

lemma result_complete:
  assumes "ledger ex = map (\<lambda>e. (e, StepCompleted)) es" and "es \<noteq> []" and "ex_snapshot ex \<noteq> []" and "ex_recovery ex = []"
  shows "\<not> fr_partial (execution_result ex)"
proof -
  have st: "map sr_status (ex_steps ex) = map (\<lambda>e. StepCompleted) es"
    using arg_cong[OF assms(1), of "map snd"] by (simp add: ledger_def comp_def)
  then have all: "\<forall>x \<in> set (ex_steps ex). sr_status x = StepCompleted" by (auto simp: list_eq_iff_nth_eq in_set_conv_nth)
  have ne: "ex_steps ex \<noteq> []" using st assms(2) by auto
  then have "sr_status (last (ex_steps ex)) = StepCompleted" using all by simp
  then show ?thesis
    using all ne assms(3,4) by (auto simp: execution_result_def new_result_def Let_def failed_steps_def steps_with_status_def filter_empty_conv)
qed

lemma park_cold_runs:
  assumes coop: "cooperative s (cold_flags v) (ex_revision ex) W" and W: "W (ex_observed ex) w"
    and ready: "cold_parkable (ex_observed ex) v" and mode: "lo_mode (ex_observed ex) \<in> {mode_worktree, mode_branch}"
    and ahead: "0 \<le> gs_ahead (lo_status (ex_observed ex))" and lasting: "lasting_sessions (ex_observed ex)" and keep: "\<not> ex_removal ex"
  shows "\<exists>ex2 w2. cold_loop s v i pr (park_cold_effects (ex_observed ex) v) ex w = (None, ex2, w2) \<and>
    onward (park_cold_effects (ex_observed ex) v) ex ex2 \<and> ex_snapshot ex2 \<noteq> [] \<and>
    lo_task (ex_observed ex2) = cold_candidate (ls_host s) v (ex_observed ex) (lo_task (ex_observed ex))"
proof -
  let ?o = "ex_observed ex" and ?f = "cold_flags v" and ?n = "desired_next (ex_observed ex) (ParkColdO v)"
  let ?c = "commit_effects ?o (pc_commit_wip v) ?n" and ?p = "push_effects ?o (pc_push v)"
  let ?k = "close_effects ?o (should_close_cold ?o)" and ?e = "vacate_effect ?o"
  obtain u where es: "park_cold_effects ?o v = ?c @ ?p @ ?k @ [?e, u]" and u: "e_code u = ''update-task''"
    by (simp add: park_cold_effects_def Let_def task_update_effect_def new_effect_def)
  note r = ready[unfolded cold_parkable_def]
  obtain x1 w1 where a: "\<And>es. cold_loop s v i pr (?c @ es) ex w = cold_loop s v i pr es x1 w1" "onward ?c ex x1" "W (ex_observed x1) w1"
    "same_place ?o (ex_observed x1)" "lo_cleanup (ex_observed x1) = lo_cleanup ?o"
    "if ?c = [] then ex_observed x1 = ?o else \<not> status_dirty (lo_status (ex_observed x1))"
    using stage_commit[OF coop W] by metis
  have clean1: "\<not> status_dirty (lo_status (ex_observed x1))" using a(6) r by (auto simp: commit_effects_def split: if_splits)
  have sync1: "pc_push v \<or> in_sync (lo_status (ex_observed x1))" using a(6) r ahead by (auto simp: commit_effects_def in_sync_def split: if_splits)
  obtain x2 w2 where b: "\<And>es. cold_loop s v i pr (?p @ es) x1 w1 = cold_loop s v i pr es x2 w2" "onward ?p x1 x2" "W (ex_observed x2) w2"
    "same_place (ex_observed x1) (ex_observed x2)" "lo_cleanup (ex_observed x2) = lo_cleanup (ex_observed x1)"
    "status_dirty (lo_status (ex_observed x2)) = status_dirty (lo_status (ex_observed x1))"
    "if pc_push v then in_sync (lo_status (ex_observed x2)) else ex_observed x2 = ex_observed x1"
    using stage_push[OF coop a(3)] by metis
  have place2: "same_place ?o (ex_observed x2)" using same_place_trans[OF a(4) b(4)] .
  have git2: "cold_git_error (ex_observed x2) = None"
  proof (rule cold_git_passes)
    show "sound_checkout (task_branch (ex_observed x2)) (ex_observed x2)" using cooperates[OF coop b(3)] by (simp add: stands_def)
    show "\<not> status_dirty (lo_status (ex_observed x2))" using clean1 b(6) by simp
    show "in_sync (lo_status (ex_observed x2))" using sync1 b(7) by (auto split: if_splits)
  qed
  have ready2: "lo_mode (ex_observed x2) = mode_worktree \<Longrightarrow> artifact_ready (lo_artifact (ex_observed x2))"
    using r place2 by (auto simp: same_place_def)
  have block2: "in_blockers (lo_cleanup (ex_observed x2)) = []" using r a(5) b(5) by simp
  have gone2: "should_close_cold ?o \<or> coverage_gone (lo_cleanup (ex_observed x2))"
    using r a(5) b(5) lasting by (auto simp: should_close_cold_def coverage_gone_def inspection_ready_def lasting_sessions_def)
  obtain x3 w3 pr3 where c: "\<And>es. cold_loop s v i pr (?k @ es) x2 w2 = cold_loop s v i pr3 es x3 w3" "onward ?k x2 x3" "W (ex_observed x3) w3"
    "same_place (ex_observed x2) (ex_observed x3)" "cold_git_error (ex_observed x3) = None" "coverage_gone (lo_cleanup (ex_observed x3))"
    using stage_close[OF coop b(3) git2 block2 ready2 gone2] by metis
  have place3: "same_place ?o (ex_observed x3)" using same_place_trans[OF place2 c(4)] .
  have to3: "onward (?c @ ?p @ ?k) ex x3" using onward_append[OF a(2) onward_append[OF b(2) c(2)]] .
  then have kept: "ex_revision x3 = ex_revision ex" "\<not> ex_removal x3" using keep by (simp_all add: onward_def)
  have "\<exists>x4 w4. cold_loop s v i pr3 [?e, u] x3 w3 = (None, x4, w4) \<and> onward [?e, u] x3 x4 \<and> ex_snapshot x4 \<noteq> [] \<and>
      lo_task (ex_observed x4) = cold_candidate (ls_host s) v ?o (lo_task ?o)"
    by (rule stage_vacate[OF coop[folded kept(1)] c(3) place3 c(5,6) _ _ kept(2) u]) (use r mode in auto)
  then obtain x4 w4 where d: "cold_loop s v i pr3 [?e, u] x3 w3 = (None, x4, w4)" "onward [?e, u] x3 x4" "ex_snapshot x4 \<noteq> []"
    "lo_task (ex_observed x4) = cold_candidate (ls_host s) v ?o (lo_task ?o)" by blast
  show ?thesis
    unfolding es using onward_append[OF to3 d(2)] d by (simp add: a(1) b(1) c(1))
qed


end
