(* ===== verification/ParkDemo.thy ===== *)
theory ParkDemo
  imports ParkWarm ParkLive
begin

text \<open>
  A linked worktree parked by a service whose hooks answer the same at every read: COLD, with the
  removal of the worktree, and WARM, with a checkpoint.
\<close>

definition parked_worktree :: registered_worktree where
  "parked_worktree = \<lparr>rw_worktree = (fresh_worktree ''/w'' False)\<lparr>wt_head := ''h'', wt_branch := ''b''\<rparr>,
    rw_repository_path = ''/r'', rw_common_dir = ''/r/.git'', rw_path = ''/w''\<rparr>"

definition parked_status :: "nat \<Rightarrow> git_status" where
  "parked_status changed = \<lparr>gs_branch = ''b'', gs_detached = False, gs_upstream = ''u'', gs_ahead = 0, gs_behind = 0,
    gs_changed = changed, gs_staged = 0, gs_unstaged = changed, gs_untracked = 0, gs_added = 0, gs_modified = changed,
    gs_deleted = 0, gs_renamed = 0, gs_latest = zero_time, gs_conflicted = 0\<rparr>"

definition no_sessions :: inspection where
  "no_sessions = \<lparr>in_target = ''/w'', in_sessions = [], in_closed_sessions = 0, in_blockers = [], in_unknown_sessions = [],
    in_active_sessions = [], in_runtime_unknown = False, in_caller_contained = False, in_process_sessions = []\<rparr>"

definition parked_artifacts :: artifact_inspection where
  "parked_artifacts = no_artifacts\<lparr>ar_checkout := ''/w'', ar_known_empty := True\<rparr>"

definition parked_task :: task where
  "parked_task = \<lparr>t_id = ''r__b'', t_name = [], t_repo = ''r'', t_repo_path = ''/r'', t_branch = ''b'', t_base = [],
    t_worktree = ''/w'', t_mode = mode_worktree, t_state = state_hot, t_owner = ''host'', t_next = ''n'', t_note = [],
    t_tags = [], t_agent_session = [], t_runtime_handle = [], t_runtime_name = [], t_created = zero_time,
    t_updated = zero_time, t_stored_revision = ''1''\<rparr>"

definition parked_record :: task_record where
  "parked_record = \<lparr>tr_task = parked_task, tr_revision = ''1''\<rparr>"

definition parked_repo :: git_repo where
  "parked_repo = \<lparr>gr_root = ''/r'', gr_git_dir = ''/r/.git'', gr_common_dir = ''/r/.git'', gr_name = ''r'', gr_linked = False,
    gr_main_root = ''/r'', gr_bare = False\<rparr>"

definition plain_digests :: digests where
  "plain_digests = \<lparr>dg_sha256 = (\<lambda>t. t), dg_json_pane = (\<lambda>p. []), dg_json_workspace = (\<lambda>x. []), dg_json_strings = concat\<rparr>"

definition steady_service :: "nat \<Rightarrow> unit life_service" where
  "steady_service changed = \<lparr>ls_host = ''host'', ls_cwd = ''/'', ls_workspace = [], ls_pane = [], ls_allow_shared = False,
    ls_sha = (\<lambda>t. t), ls_digests = plain_digests, ls_printable = (\<lambda>c. True), ls_default_runtime = Some ''tmux'',
    ls_named_runtime = Some, ls_now = (\<lambda>_. zero_time), ls_ctx_error = (\<lambda>_. None), ls_available = (\<lambda>_ _. True),
    ls_canonical = (\<lambda>p _. (p, None)), ls_repo_lock = (\<lambda>_. Pair None), ls_task_lock = Pair None,
    ls_get_record = (\<lambda>_. Pair (Inr parked_record)), ls_discover = (\<lambda>_. Pair (Inr parked_repo)), ls_default_branch = (\<lambda>_. Pair ''main''),
    ls_resolve_worktree = (\<lambda>_ _. Pair (parked_worktree, None)), ls_status = (\<lambda>_. Pair (parked_status changed, None)),
    ls_in_progress = (\<lambda>_. Pair ([], False, None)), ls_git_run = (\<lambda>_ _. Pair (''h'', None)),
    ls_ref_state = (\<lambda>_ _. Pair (True, None)), ls_inspect_artifacts = (\<lambda>_. Pair (parked_artifacts, None)),
    ls_inspect_cleanup = (\<lambda>_ _ _. Pair (no_sessions, None)), ls_wip_commit = (\<lambda>_ _. Pair (True, None)),
    ls_close_and_wait = (\<lambda>_ _ _. Pair (no_sessions, None)), ls_remove_worktree = (\<lambda>_ _. Pair None),
    ls_apply_removal = (\<lambda>_ _. Pair (None, None)), ls_task_update = (\<lambda>t _. Pair (Some \<lparr>tr_task = t, tr_revision = ''2''\<rparr>, None)),
    ls_task_unlock = Pair None, ls_repo_unlock = (\<lambda>_. Pair None), ls_verify_submodules = (\<lambda>_. Pair ([], None)),
    ls_worktrees = (\<lambda>_. Pair (Inr [])), ls_inspect_occupancy = (\<lambda>_ _ _. Pair (no_occupancy, None)),
    ls_open_runtime = (\<lambda>_ _ _. Pair (''s'', None)), ls_create_worktree = (\<lambda>q. Pair (CreatedAt (Some (cq_path q)))),
    ls_render_worktree = (\<lambda>t _. (''/w'', None)), ls_validate_target = (\<lambda>_ _ _. None),
    ls_pathx = (\<lambda>p _. (p, None)), ls_git_absent = (\<lambda>_ _. False),
    ls_submodules = (\<lambda>_. Pair (Inr \<lparr>sg_fingerprint = [], sg_nodes = []\<rparr>)), ls_inspect_removal = (\<lambda>_ _ _. Pair (None, None)),
    ls_submodule_repo = (\<lambda>_. Pair (Inr ''/r/.git'')), ls_submodule_intent = (\<lambda>_ _. Pair (Inr [])),
    ls_submodule_claims = (\<lambda>_ _. Pair ([], None))\<rparr>"

definition parked_view :: "nat \<Rightarrow> life_observation" where
  "parked_view changed = \<lparr>lo_host = ''host'', lo_cwd = ''/'', lo_workspace = [], lo_pane = [], lo_record = parked_record, lo_task = parked_task,
    lo_mode = mode_worktree, lo_repo_path = ''/r'', lo_common_dir = ''/r/.git'', lo_checkout = ''/w'', lo_worktree = parked_worktree,
    lo_worktree_found = True, lo_worktree_err = None, lo_branch_matches = 0, lo_status = parked_status changed,
    lo_status_err = None, lo_head = ''h'', lo_head_err = None, lo_base_oid = [], lo_base_oid_err = None, lo_upstream_oid = ''h'',
    lo_upstream_oid_err = None, lo_operation = [], lo_in_progress = False, lo_operation_err = None, lo_runtime = Some ''tmux'',
    lo_runtime_err = None, lo_runtime_available = True, lo_cleanup = no_sessions, lo_cleanup_err = None,
    lo_artifact = parked_artifacts, lo_artifact_err = None, lo_base_ref = [], lo_base_ref_exists = False, lo_base_ref_err = None,
    lo_local_exists = True, lo_local_oid = ''h'', lo_local_oid_err = None, lo_remote_branch = ''origin/b'', lo_remote_exists = True,
    lo_remote_oid = ''h'', lo_remote_oid_err = None, lo_occupancy = no_occupancy, lo_occupancy_err = None, lo_saved_live = False,
    lo_desired = [], lo_desired_err = None\<rparr>"

definition parked_locator :: locator where
  "parked_locator = \<lparr>l_repo_key = ''repo'', l_row_key = ''row'', l_row_kind = ''task'', l_repository_id = [],
    l_git_common_dir = ''/r/.git'', l_task_id = ''r__b'', l_task_revision = ''1'', l_repo_path = ''/r'',
    l_checkout_path = ''/w'', l_branch = ''b'', l_base = [], l_upstream = ''u'', l_remote = [],
    l_head_oid = ''h'', l_base_oid = [], l_upstream_oid = ''h'', l_mode = mode_worktree, l_state = state_hot\<rparr>"

definition park_plan :: "effect list \<Rightarrow> plan" where
  "park_plan es = \<lparr>p_id = ''plan'', p_fingerprint = [],
    p_request = \<lparr>q_locator = parked_locator, q_action = park_cold, q_options = ONil, q_displayed_at = zero_time\<rparr>,
    p_locator = parked_locator, p_action = park_cold, p_source = state_hot, p_target = state_cold, p_has_transition = True,
    p_preserving = False, p_removes = True, p_availability = Ready,
    p_confirmation = \<lparr>cf_kind = [], cf_prompt = [], cf_token = []\<rparr>, p_milestone = [], p_fallback = [], p_summary = [],
    p_displayed_at = zero_time, p_authority = [], p_conditions = [], p_effects = es, p_retained = []\<rparr>"

definition parking :: "nat \<Rightarrow> effect list \<Rightarrow> execution" where
  "parking changed es = fresh_execution (park_plan es) (parked_view changed) ''1''"

definition cold_choice :: park_cold_options where
  "cold_choice = \<lparr>pc_recursive = False, pc_next = [], pc_note = [], pc_commit_wip = False, pc_push = False,
    pc_close_unknown = False, pc_assume_no_runtime = False, pc_timeout = 0\<rparr>"

definition warm_choice :: park_warm_options where
  "warm_choice = \<lparr>pw_next = [], pw_note = [], pw_commit_wip = True, pw_push = False, pw_keep_session = False,
    pw_close_unknown = False, pw_assume_no_runtime = False, pw_timeout = 0\<rparr>"

abbreviation cold_parking :: execution where
  "cold_parking \<equiv> parking 0 (park_cold_effects (parked_view 0) cold_choice)"

abbreviation warm_parking :: execution where
  "warm_parking \<equiv> parking 1 (park_warm_effects (parked_view 1) warm_choice)"

lemma cold_parking_effects: "map e_code (p_effects (ex_plan cold_parking)) = [''remove-worktree'', ''update-task'']"
  by code_simp

lemma warm_parking_effects: "map e_code (p_effects (ex_plan warm_parking)) = [''commit-wip'', ''update-task'']"
  by code_simp

section \<open>Its calls\<close>

definition git_reads :: "nat \<Rightarrow> call list" where
  "git_reads changed = [Resolve ''/r'' ''/w'' (parked_worktree, None), Status ''/w'' (parked_status changed, None),
    GitRun ''/w'' head_args (''h'', None), GitRun ''/r'' [''rev-parse'', ''--verify'', ''u^{commit}''] (''h'', None),
    InProgress ''/w'' ([], False, None)]"

definition all_reads :: "call list" where
  "all_reads = git_reads 0 @ [Artifacts ''/w'' (parked_artifacts, None),
    Cleanup ''tmux'' ''/w'' (flag_options (parked_view 0) (cold_flags cold_choice)) (no_sessions, None)]"

lemma trim_h: "trim_space ''h'' = ''h''"
  by code_simp

lemma same_status_refl: "same_status st st"
  by (simp add: same_status_def)

lemma steady_fields [simp]: "ls_host (steady_service n) = ''host''" "ls_resolve_worktree (steady_service n) a b = Pair (parked_worktree, None)"
  "ls_status (steady_service n) a = Pair (parked_status n, None)" "ls_in_progress (steady_service n) a = Pair ([], False, None)"
  "ls_git_run (steady_service n) a as = Pair (''h'', None)" "ls_ref_state (steady_service n) a b = Pair (True, None)"
  "ls_inspect_artifacts (steady_service n) a = Pair (parked_artifacts, None)"
  "ls_inspect_cleanup (steady_service n) a b os = Pair (no_sessions, None)" "ls_wip_commit (steady_service n) a b = Pair (True, None)"
  "ls_remove_worktree (steady_service n) a b = Pair None"
  "ls_task_update (steady_service n) t a = Pair (Some \<lparr>tr_task = t, tr_revision = ''2''\<rparr>, None)"
  by (simp_all add: steady_service_def)

lemmas steady_simps = logged_call_def trim_h same_status_refl fail_if_def checks.simps

lemma view_fields [simp]: "lo_repo_path (parked_view n) = ''/r''" "lo_checkout (parked_view n) = ''/w''"
  "lo_worktree (parked_view n) = parked_worktree" "lo_status (parked_view n) = parked_status n" "lo_head (parked_view n) = ''h''"
  "lo_task (parked_view n) = parked_task" "lo_mode (parked_view n) = mode_worktree" "lo_runtime (parked_view n) = Some ''tmux''"
  "lo_cleanup (parked_view n) = no_sessions" "lo_cleanup_err (parked_view n) = None"
  "lo_artifact (parked_view n) = parked_artifacts" "lo_artifact_err (parked_view n) = None"
  by (simp_all add: parked_view_def)

lemma parked_git: "revalidate_git_baseline (traced (steady_service n)) (parked_view n) ((), tr) = (None, (), tr @ git_reads n)"
  by (simp add: revalidate_git_baseline_def resolve_ref_oid_def git_reads_def steady_simps)
    (simp add: parked_view_def parked_task_def parked_status_def error_string_def)

lemma parked_clean: "cold_git_error (parked_view 0) = None"
  by (simp add: cold_git_error_def parked_view_def parked_task_def parked_status_def status_dirty_def status_published_def
      fail_if_def)

lemma parked_ready: "artifact_ready parked_artifacts"
  by (simp add: parked_artifacts_def no_artifacts_def artifact_ready_def)

lemma parked_gone: "coverage_gone no_sessions"
  by (simp add: coverage_gone_def no_sessions_def inspection_ready_def)

lemma parked_artifact_check: "revalidate_cold_artifact (traced (steady_service n)) (parked_view n) ((), tr) =
    (None, (), tr @ [Artifacts ''/w'' (parked_artifacts, None)])"
  by (simp add: revalidate_cold_artifact_def steady_simps parked_ready)

lemma parked_boundary: "ensure_cold_removal_boundary (traced (steady_service 0)) (parked_view 0) (cold_flags cold_choice) closed ((), tr) =
    (None, parked_view 0, (), tr @ all_reads)"
proof -
  have "parked_view 0\<lparr>lo_cleanup := no_sessions, lo_cleanup_err := None\<rparr> = parked_view 0" by (simp add: parked_view_def)
  then show ?thesis
    by (simp add: ensure_cold_removal_boundary_def ensure_cold_git_ready_def parked_artifact_check parked_git parked_clean
        steady_simps parked_gone all_reads_def runtime_name_def)
qed

lemma parked_run: "run_effect (traced s) e operation ex (w, tr) =
    (case operation ex (w, tr) of ((detail, err), ex', w') \<Rightarrow>
      (err, ex'\<lparr>ex_steps := ex_steps ex' @ [\<lparr>sr_diagnostic = None, sr_effect = e,
        sr_status = (if err = None then StepCompleted else StepFailed), sr_detail = detail,
        sr_failure = (case err of None \<Rightarrow> [] | Some f \<Rightarrow> life_error_text f),
        sr_started_at = time_utc (ls_now (traced s) (w, tr)), sr_finished_at = time_utc (ls_now (traced s) w')\<rparr>]\<rparr>, w'))"
  by (simp add: run_effect_def Let_def)

definition cold_calls :: "call list" where
  "cold_calls = [RefState ''/r'' (local_branch_ref ''b'') (True, None),
    TaskUpdate (cold_candidate ''host'' cold_choice (parked_view 0) parked_task) ''1''
      (Some \<lparr>tr_task = cold_candidate ''host'' cold_choice (parked_view 0) parked_task, tr_revision = ''2''\<rparr>, None)]"

lemma parking_fields [simp]: "ex_observed (parking n es) = parked_view n" "ex_revision (parking n es) = ''1''"
  "ex_removal (parking n es) = False" "ex_plan (parking n es) = park_plan es"
  by (simp_all add: parking_def fresh_execution_def)

lemma plan_fields: "p_effects (park_plan es) = es" "p_id (park_plan es) = ''plan''"
  by (simp_all add: park_plan_def)

lemma parked_task_branch [simp]: "t_branch parked_task = ''b''"
  by (simp add: parked_task_def)

lemma cold_effects_two:
  obtains e u where "execution_effects (ex_plan cold_parking) = [e, u]" "e_code e = ''remove-worktree''" "e_code u = ''update-task''"
  using cold_parking_effects by (auto simp: execution_effects_def map_eq_Cons_conv)

lemma cold_run_from:
  assumes "execution_effects (ex_plan ex) = [e, u]" and "e_code e = ''remove-worktree''" and "e_code u = ''update-task''"
    and "ex_observed ex = parked_view 0" and "ex_revision ex = ''1''" and "\<not> ex_removal ex"
  shows "\<exists>ex'. apply_park_cold (traced (steady_service 0)) cold_choice ex ((), tr) =
    (None, ex', (), tr @ all_reads @ RemoveWorktree ''/r'' ''/w'' None # cold_calls)"
  unfolding apply_park_cold_def assms(1)
  by (simp add: cold_steps_def assms update_step_def parked_boundary run_step_def parked_run remove_operation_def
      remove_with_submodules_def branch_retained_step_def cold_order_step_def record_operation_def steady_simps
      cold_progress_after_def cold_calls_def Let_def)

lemma cold_run: "\<exists>ex'. apply_park_cold (traced (steady_service 0)) cold_choice cold_parking ((), []) =
    (None, ex', (), all_reads @ RemoveWorktree ''/r'' ''/w'' None # cold_calls)"
proof -
  obtain e u where es: "execution_effects (ex_plan cold_parking) = [e, u]" "e_code e = ''remove-worktree''" "e_code u = ''update-task''"
    by (rule cold_effects_two)
  show ?thesis using cold_run_from[OF es, of "[]"] by simp
qed

lemma cold_written_last: "task_written_last (execution_effects (ex_plan cold_parking))"
  by (rule cold_effects_two) (simp add: task_written_last_def)


lemma parked_refresh: "refresh_checkout (traced (steady_service n)) (parked_view n) ''b'' ((), tr) = (None, parked_view n, (), tr @ git_reads n)"
proof -
  have "refresh_kind_error (parked_view n) parked_worktree = None"
    by (simp add: refresh_kind_error_def parked_worktree_def parked_view_def is_linked_worktree_def fresh_worktree_def fail_if_def checks.simps)
  moreover have "wt_branch (rw_worktree parked_worktree) = ''b''" "wt_head (rw_worktree parked_worktree) = ''h''"
    "gs_branch (parked_status n) = ''b''" "\<not> gs_detached (parked_status n)" "gs_upstream (parked_status n) = ''u''" "t_base parked_task = []"
    by (simp_all add: parked_worktree_def parked_status_def parked_task_def)
  moreover have "parked_view n\<lparr>lo_worktree := parked_worktree, lo_status := parked_status n, lo_status_err := None,
       lo_head := ''h'', lo_head_err := None, lo_base_oid := [], lo_base_oid_err := None,
       lo_upstream_oid := ''h'', lo_upstream_oid_err := None, lo_operation := [],
       lo_in_progress := False, lo_operation_err := None\<rparr> = parked_view n"
    by (simp add: parked_view_def)
  ultimately show ?thesis
    by (simp add: refresh_checkout_def resolve_ref_oid_def git_reads_def steady_simps)
qed

lemma parked_occupancy: "revalidate_cleanup_baseline (traced (steady_service n)) (parked_view n) f ((), tr) =
    (None, (), tr @ [Cleanup ''tmux'' ''/w'' (flag_options (parked_view n) f) (no_sessions, None)])"
  by (simp add: revalidate_cleanup_baseline_def steady_simps runtime_name_def)

definition warm_written :: task where
  "warm_written = warm_candidate ''host'' warm_choice (parked_view 1) parked_task"

definition warm_calls :: "string \<Rightarrow> call list" where
  "warm_calls message = git_reads 1 @ [WipCommit ''/w'' message (True, None)] @ git_reads 1 @ git_reads 1 @
    [Cleanup ''tmux'' ''/w'' (flag_options (parked_view 1) (warm_flags warm_choice)) (no_sessions, None)]"

lemma warm_effects_two:
  obtains e u where "execution_effects (ex_plan warm_parking) = [e, u]" "e_code e = ''commit-wip''" "e_code u = ''update-task''"
  using warm_parking_effects by (auto simp: execution_effects_def map_eq_Cons_conv)

lemma warm_run: "\<exists>ex' message. apply_park_warm (traced (steady_service 1)) warm_choice warm_parking ((), []) =
    (None, ex', (), warm_calls message @ TaskUpdate warm_written ''1'' (Some \<lparr>tr_task = warm_written, tr_revision = ''2''\<rparr>, None) # [])"
proof -
  obtain e u where es: "execution_effects (ex_plan warm_parking) = [e, u]" "e_code e = ''commit-wip''" "e_code u = ''update-task''"
    by (rule warm_effects_two)
  have keep: "\<not> pw_keep_session warm_choice" by (simp add: warm_choice_def)
  show ?thesis unfolding apply_park_warm_def es
    by (simp add: warm_steps_def es keep check_step_def refresh_step_def update_step_def parked_git[of 1, simplified] parked_refresh[of 1, simplified]
        parked_occupancy[of 1, simplified] run_step_def parked_run wip_operation_def record_operation_def steady_simps
        warm_calls_def warm_written_def Let_def)
qed

lemma warm_written_last: "task_written_last (execution_effects (ex_plan warm_parking))"
  by (rule warm_effects_two) (simp add: task_written_last_def)

theorem warm_mutations_guarded_witness:
  "\<exists>message. unwritten (warm_calls message) \<and> warm_call_ok (steady_service 1) warm_choice ''1'' (parked_view 1) (warm_calls message)
    (TaskUpdate warm_written ''1'' (Some \<lparr>tr_task = warm_written, tr_revision = ''2''\<rparr>, None))"
proof -
  obtain ex' message where run: "apply_park_warm (traced (steady_service 1)) warm_choice warm_parking ((), []) =
    (None, ex', (), warm_calls message @ TaskUpdate warm_written ''1'' (Some \<lparr>tr_task = warm_written, tr_revision = ''2''\<rparr>, None) # [])"
    using warm_run by blast
  have "ex_observed warm_parking = parked_view 1" "ex_revision warm_parking = ''1''" by (rule parking_fields)+
  then show ?thesis
    using warm_mutations_guarded [OF warm_written_last run] by (intro exI[of _ message]) simp
qed

section \<open>A parking that goes through\<close>

definition parked_world :: "life_observation \<Rightarrow> unit \<Rightarrow> bool" where
  "parked_world o' w \<longleftrightarrow> o' = parked_view 0"

lemma parked_stands: "stands (steady_service 0) f ''b'' (parked_view 0) ()"
  by (simp add: stands_def reads_as_def sound_checkout_def resolve_ref_oid_def trim_h)
    (simp add: parked_view_def parked_worktree_def parked_status_def parked_task_def is_linked_worktree_def fresh_worktree_def)

lemma parked_moved: "moved (parked_view 0) (parked_view 0)"
  by (simp add: moved_def parked_view_def)

lemma parked_close: "ls_close_and_wait (steady_service n) rt dir os () = ((no_sessions, None), ())"
  by (simp add: steady_service_def)

lemma parked_synced: "in_sync (parked_status 0)" "\<not> status_dirty (parked_status 0)"
  by (simp_all add: in_sync_def parked_status_def status_published_def status_dirty_def)

lemma parked_cooperates: "cooperative (steady_service 0) (cold_flags cold_choice) ''1'' parked_world"
proof -
  have kept: "(parked_view 0)\<lparr>lo_cleanup := no_sessions\<rparr> = parked_view 0" by (simp add: parked_view_def)
  have "commits (steady_service 0) (cold_flags cold_choice) parked_world"
    by (auto simp: commits_def parked_world_def parked_moved parked_synced)
  moreover have "pushes (steady_service 0) (cold_flags cold_choice) parked_world"
    by (simp add: pushes_def parked_world_def parked_moved parked_synced)
  moreover have "closes (steady_service 0) (cold_flags cold_choice) parked_world"
    by (simp add: closes_def parked_world_def parked_close parked_gone kept)
  moreover have "vacates (steady_service 0) (cold_flags cold_choice) ''1'' parked_world"
    by (simp add: vacates_def parked_world_def keeps_branch_def)
  ultimately show ?thesis using parked_stands by (simp add: cooperative_def parked_world_def)
qed

lemma parked_parkable: "cold_parkable (parked_view 0) cold_choice"
  by (simp add: cold_parkable_def has_checkout_def exact_checkout_def right_kind_def on_branch_def observed_linked_def runtime_usable_def
      parked_ready)
    (simp add: parked_view_def parked_worktree_def parked_status_def parked_task_def is_linked_worktree_def fresh_worktree_def
      no_sessions_def status_dirty_def status_published_def)

lemma parked_plan_effects: "execution_effects (ex_plan cold_parking) = park_cold_effects (parked_view 0) cold_choice"
proof -
  obtain e u where es: "park_cold_effects (parked_view 0) cold_choice = [e, u]" "e_code e = ''remove-worktree''" "e_code u = ''update-task''"
    using cold_parking_effects by (auto simp: plan_fields map_eq_Cons_conv)
  show ?thesis by (simp add: execution_effects_def plan_fields es)
qed


end
