(* ===== verification/ResumePlan.thy ===== *)
theory ResumePlan
  imports LifeAuthority
begin

text \<open>
  \<open>taskflow/resume.go\<close>: the conditions, effects and texts of the plan that resumes a task, from one
  observation, and what \<open>lifecycle_types.go\<close> reads from an occupancy.
\<close>

section \<open>Occupancy\<close>

definition observed_ok :: "occupancy_observation \<Rightarrow> string option \<Rightarrow> bool" where
  \<comment> \<open>\<open>Observed\<close>: supported, attempted and without error\<close>
  "observed_ok ob err \<longleftrightarrow> ob_supported ob \<and> ob_attempted ob \<and> err = None"

definition occupancy_probe_error :: "life_occupancy \<Rightarrow> string option \<Rightarrow> string option" where
  "occupancy_probe_error oc err = checks
    [err,
     map_option (\<lambda>t. ''resolve current '' @ oc_backend oc @ '' runtime pane: '' @ t) (oe_current_pane oc),
     map_option (\<lambda>t. ''classify '' @ oc_backend oc @ '' checkout coverage: '' @ t) (oe_coverage oc),
     map_option (\<lambda>t. ''list '' @ oc_backend oc @ '' runtime sessions: '' @ t) (oe_session_list oc),
     map_option (\<lambda>t. ''list '' @ oc_backend oc @ '' recognized agents: '' @ t) (oe_agent_list oc)]"

definition occupancy_observation_error :: "life_occupancy \<Rightarrow> string option \<Rightarrow> string option" where
  "occupancy_observation_error oc err = checks
    [occupancy_probe_error oc err,
     fail_if (\<not> observed_ok (oc_session_list oc) (oe_session_list oc))
       (oc_backend oc @ '' runtime session inventory is unsupported or was not attempted''),
     fail_if (ob_supported (oc_agent_list oc) \<and> \<not> observed_ok (oc_agent_list oc) (oe_agent_list oc))
       (oc_backend oc @ '' recognized-agent inventory was not attempted''),
     fail_if (\<not> ob_supported (oc_agent_list oc) \<and> oc_sessions oc \<noteq> [] \<and> oc_agents oc = [])
       (oc_backend oc @ '' has covering runtime sessions but cannot observe recognized-agent activity'')]"

definition occupancy_incomplete :: "life_occupancy \<Rightarrow> bool" where
  \<comment> \<open>\<open>occupancyObservationIncomplete\<close>\<close>
  "occupancy_incomplete oc \<longleftrightarrow> \<not> observed_ok (oc_session_list oc) (oe_session_list oc) \<or>
    ob_supported (oc_agent_list oc) \<and> \<not> observed_ok (oc_agent_list oc) (oe_agent_list oc) \<or>
    \<not> ob_supported (oc_agent_list oc) \<and> oc_sessions oc \<noteq> [] \<and> oc_agents oc = []"

definition agent_label :: "occupancy_agent \<Rightarrow> string" where
  "agent_label a = (let v = oa_activity a;
      label = (if aa_name v \<noteq> [] then aa_name v else if aa_agent v \<noteq> [] then aa_agent v else ''agent'')
    in label @ '' ('' @ oa_status a @ '', pane '' @ aa_pane_id v @ '')'')"

definition strict_occupancy_error :: "life_occupancy \<Rightarrow> string option \<Rightarrow> string option" where
  "strict_occupancy_error oc err = checks
    [occupancy_observation_error oc err,
     (let blockers = map agent_label (filter oa_blocking (oc_agents oc))
      in fail_if (blockers \<noteq> []) (''checkout is occupied by '' @ join_str '', '' blockers))]"

definition writer_occupancy_error :: "bool \<Rightarrow> life_occupancy \<Rightarrow> string option \<Rightarrow> string option" where
  "writer_occupancy_error allow_shared oc err =
    (if allow_shared then occupancy_probe_error oc err else strict_occupancy_error oc err)"

definition saved_handle_live :: "life_occupancy \<Rightarrow> string \<Rightarrow> bool" where
  "saved_handle_live oc handle \<longleftrightarrow> handle \<noteq> [] \<and> (\<exists>s \<in> set (oc_sessions oc). ss_handle (os_runtime s) = handle)"

section \<open>Texts\<close>

definition resume_needs_switch :: "life_observation \<Rightarrow> bool" where
  "resume_needs_switch o' \<longleftrightarrow> lo_mode o' = mode_branch \<and> has_checkout o' \<and> lo_status_err o' = None \<and>
    \<not> gs_detached (lo_status o') \<and> gs_branch (lo_status o') \<noteq> t_branch (lo_task o')"

definition should_open_runtime :: "life_observation \<Rightarrow> bool" where
  \<comment> \<open>\<open>shouldOpenResumeRuntime\<close>\<close>
  "should_open_runtime o' \<longleftrightarrow> lo_runtime_err o' = None \<and> lo_runtime o' \<noteq> None \<and> lo_runtime o' \<noteq> Some ''none'' \<and> \<not> lo_saved_live o'"

definition resume_effect_checkout :: "life_observation \<Rightarrow> string" where
  "resume_effect_checkout o' = (if has_checkout o' then lo_checkout o' else lo_desired o')"

definition resume_runtime_label :: "task \<Rightarrow> string" where
  "resume_runtime_label t = (if effective_mode t = mode_worktree then t_repo t @ ''/'' @ t_branch t else task_title t)"

definition resume_fallback :: "string \<Rightarrow> resume_options \<Rightarrow> string" where
  "resume_fallback i v = join_str '' '' ([''dev'', ''resume'', shell_quote i] @
    (if \<not> rs_fetch_refs v then [''--fetch=false''] else []) @
    (if rs_no_provision v then [''--no-provision''] else []) @
    (if rs_take_ownership v then [''--force''] else []))"

section \<open>Owner\<close>

definition resume_owner_condition :: "life_observation \<Rightarrow> resume_options \<Rightarrow> condition" where
  "resume_owner_condition o' v =
    (let t = lo_task o'
     in if owned_by t (lo_host o') then mk_condition ''task-owner'' verdict_met requirement_required
          (''task owner is '' @ (if t_owner t = [] then ''unclaimed'' else t_owner t)) []
        else if rs_take_ownership v then mk_condition ''task-owner'' verdict_met requirement_required
          (''ownership transfer from '' @ t_owner t @ '' was explicitly requested'') []
        else mk_condition ''task-owner'' verdict_blocked requirement_required (''task is owned by '' @ t_owner t)
          ''confirm the other machine pushed its work, then take ownership explicitly'')"

section \<open>A checkout that is absent\<close>

definition parked :: "life_observation \<Rightarrow> bool" where
  "parked o' \<longleftrightarrow> t_state (lo_task o') = state_warm \<or> t_state (lo_task o') = state_cold"

definition missing :: "life_observation \<Rightarrow> bool" where
  \<comment> \<open>the observation failed, if at all, because there is no such worktree\<close>
  "missing o' \<longleftrightarrow> (case lo_worktree_err o' of None \<Rightarrow> True | Some e \<Rightarrow> we_not_found e)"

definition rebuild_allowed :: "life_observation \<Rightarrow> bool" where
  "rebuild_allowed o' \<longleftrightarrow> lo_mode o' = mode_worktree \<and> parked o' \<and> missing o'"

definition parked_text :: "life_observation \<Rightarrow> string" where
  \<comment> \<open>\<open>ToUpper\<close> of one of the two parked states\<close>
  "parked_text o' = (if t_state (lo_task o') = state_warm then ''WARM'' else ''COLD'')"

definition missing_verdict :: "life_observation \<Rightarrow> string \<times> string" where
  "missing_verdict o' =
    (if rebuild_allowed o' then (verdict_met, parked_text o' @ '' worktree is absent and will be rebuilt'')
     else case lo_worktree_err o' of
       Some e \<Rightarrow> if \<not> we_not_found e then (verdict_error, we_text e) else (verdict_blocked, ''the task checkout is not registered'')
     | None \<Rightarrow> (verdict_blocked, ''the task checkout is not registered''))"

definition branch_ref_verdict :: "life_observation \<Rightarrow> bool \<Rightarrow> string \<times> string" where
  "branch_ref_verdict o' fetch =
    (case lo_local_oid_err o' of Some e \<Rightarrow> (verdict_error, e)
     | None \<Rightarrow> if lo_local_exists o' then (verdict_met, ''local task branch is available for reconstruction'')
       else case lo_remote_oid_err o' of Some e \<Rightarrow> (verdict_error, e)
       | None \<Rightarrow> if lo_remote_exists o' then (verdict_met, ''published task branch is available for reconstruction'')
         else if fetch then (verdict_met, ''published task branch must appear after the declared fetch'')
         else (verdict_blocked, ''neither local nor published task branch exists''))"

definition destination_condition :: "life_observation \<Rightarrow> condition" where
  "destination_condition o' =
    (case lo_desired_err o' of
       Some e \<Rightarrow> mk_condition ''checkout-linked'' verdict_error requirement_required e ''choose a valid managed worktree destination''
     | None \<Rightarrow>
       if lo_desired o' = [] then mk_condition ''checkout-linked'' verdict_blocked requirement_required
         ''managed worktree destination is empty'' ''configure paths.worktree_path''
       else mk_condition ''checkout-linked'' verdict_met requirement_required
         (''managed linked worktree will be created at '' @ lo_desired o') [])"

definition rebuild_base_condition :: "life_observation \<Rightarrow> bool \<Rightarrow> condition" where
  "rebuild_base_condition o' fetch =
    (if lo_base_ref o' = [] then mk_condition ''explicit-base'' verdict_blocked requirement_required
       (''neither origin/'' @ t_branch (lo_task o') @ '' nor the recorded base is available'')
       ''record an explicit base or fetch the published branch''
     else case lo_base_ref_err o' of
       Some e \<Rightarrow> mk_condition ''explicit-base'' verdict_error requirement_required e ''repair reconstruction base observation''
     | None \<Rightarrow>
       if \<not> lo_base_ref_exists o' \<and> \<not> fetch then mk_condition ''explicit-base'' verdict_blocked requirement_required
         (''explicit reconstruction base '' @ lo_base_ref o' @ '' does not exist'') ''fetch refs or restore the explicit base''
       else mk_condition ''explicit-base'' verdict_met requirement_required
         (''reconstruction base '' @ lo_base_ref o' @
           (if fetch \<and> \<not> lo_base_ref_exists o' then '' will be revalidated after fetch'' else [])) [])"

definition resume_absent_conditions :: "life_observation \<Rightarrow> resume_options \<Rightarrow> condition list" where
  "resume_absent_conditions o' v =
    (case missing_verdict o' of (mv, me) \<Rightarrow> case branch_ref_verdict o' (rs_fetch_refs v) of (bv, be) \<Rightarrow>
     let (dv, de) = (if rebuild_allowed o'
           then (verdict_met, ''exact branch and status will be checked immediately after reconstruction'')
           else (verdict_unknown, ''checkout is absent''))
     in [mk_condition ''checkout-present'' mv requirement_required me ''restore or rebuild the exact checkout'',
         mk_condition ''checkout-exact'' mv requirement_required me ''refresh repository topology'',
         mk_condition ''resume-checkout'' mv requirement_required me ''resume COLD or reconcile the missing WARM checkout'',
         mk_condition ''branch-ref'' bv requirement_required be ''restore or fetch the exact task branch before reconstruction''] @
        (if lo_mode o' = mode_worktree \<and> parked o'
         then [destination_condition o', rebuild_base_condition o' (rs_fetch_refs v)]
         else [mk_condition ''checkout-linked'' verdict_blocked requirement_required ''resume requires a present checkout'' ''reconcile the task checkout'',
               mk_condition ''explicit-base'' verdict_met requirement_advisory ''no reconstruction is planned'' []]) @
        [mk_condition ''checkout-branch'' dv requirement_required de ''restore the checkout'',
         mk_condition ''git-status'' dv requirement_required de ''restore the checkout'',
         mk_condition ''git-operation-clear'' dv requirement_advisory de ''restore the checkout'',
         mk_condition ''git-conflict-clear'' dv requirement_advisory de ''restore the checkout'',
         mk_condition ''branch-switch-safe'' verdict_met requirement_advisory ''no canonical branch switch is planned'' [],
         mk_condition ''target-branch'' verdict_met requirement_advisory ''worktree creation names the exact task branch'' []])"

section \<open>A checkout that is there\<close>

definition resume_kind_verdict :: "life_observation \<Rightarrow> string \<times> string" where
  "resume_kind_verdict o' =
    (if lo_mode o' = mode_worktree then
       (if \<not> observed_linked o' then (verdict_blocked, ''worktree task resolves to the main or bare checkout'')
        else (verdict_met, ''exact linked worktree''))
     else if \<not> wt_main (rw_worktree (lo_worktree o')) \<or> wt_bare (rw_worktree (lo_worktree o')) then
       (verdict_blocked, ''branch/direct task does not resolve to Git's main checkout'')
     else (verdict_met, ''canonical main checkout''))"

definition resume_branch_verdict :: "(nat \<Rightarrow> bool) \<Rightarrow> life_observation \<Rightarrow> string \<times> string" where
  "resume_branch_verdict pr o' =
    (let b = t_branch (lo_task o'); st = lo_status o'; wb = wt_branch (rw_worktree (lo_worktree o'));
         fine = (verdict_met, ''checkout is on task branch '' @ b)
     in if lo_mode o' = mode_worktree then
          (if gs_detached st \<or> gs_branch st \<noteq> b \<or> wb \<noteq> b
           then (verdict_blocked, ''registry='' @ quote_go pr wb @ '' status='' @ quote_go pr (gs_branch st) @ '' expected='' @ quote_go pr b)
           else fine)
        else if lo_mode o' = mode_direct then
          (if gs_detached st \<or> gs_branch st \<noteq> b
           then (verdict_blocked, ''direct checkout is on '' @ quote_go pr (gs_branch st) @ '', expected '' @ quote_go pr b) else fine)
        else if lo_mode o' = mode_branch then
          (if gs_detached st then (verdict_blocked, ''canonical checkout is detached'')
           else if gs_branch st \<noteq> b
           then (verdict_met, ''canonical checkout will switch from '' @ quote_go pr (gs_branch st) @ '' to '' @ quote_go pr b) else fine)
        else fine)"

definition resume_operation_verdict :: "life_observation \<Rightarrow> string \<times> string" where
  "resume_operation_verdict o' =
    (case lo_operation_err o' of Some e \<Rightarrow> (verdict_error, e)
     | None \<Rightarrow> if lo_in_progress o' then (verdict_blocked, ''Git operation '' @ lo_operation o' @ '' is in progress'')
       else (verdict_met, ''no Git operation is in progress''))"

definition resume_status_conditions :: "(nat \<Rightarrow> bool) \<Rightarrow> life_observation \<Rightarrow> condition list" where
  "resume_status_conditions pr o' =
    (case lo_status_err o' of
       Some e \<Rightarrow>
         [mk_condition ''checkout-branch'' verdict_error requirement_required e ''repair Git status observation'',
          mk_condition ''git-status'' verdict_error requirement_required e ''repair Git status observation'',
          mk_condition ''git-operation-clear'' verdict_error requirement_advisory e ''repair Git status observation'',
          mk_condition ''git-conflict-clear'' verdict_error requirement_advisory e ''repair Git status observation'',
          mk_condition ''branch-switch-safe'' verdict_error requirement_required e ''repair Git status observation'',
          mk_condition ''target-branch'' verdict_error requirement_required e ''repair Git status observation'']
     | None \<Rightarrow>
       let st = lo_status o'; switching = resume_needs_switch o'; b = t_branch (lo_task o');
           (bv, be) = resume_branch_verdict pr o'; (ov, oe) = resume_operation_verdict o';
           dirty = switching \<and> status_dirty st; lost = lo_mode o' = mode_branch \<and> switching \<and> \<not> lo_local_exists o'
       in [mk_condition ''git-status'' verdict_met requirement_required (status_summary st) [],
           mk_condition ''checkout-branch'' bv requirement_required be ''switch or reconcile the exact task branch'',
           mk_condition ''git-operation-clear'' ov (requirement_for switching) oe ''finish or abort the Git operation before switching branches'',
           mk_condition ''git-conflict-clear'' (if 0 < gs_conflicted st \<and> switching then verdict_blocked else verdict_met)
             (requirement_for switching)
             (if 0 < gs_conflicted st then dec_of (gs_conflicted st) @ '' unmerged path(s)'' else ''no unmerged paths'')
             ''resolve conflicts before switching branches'',
           mk_condition ''branch-switch-safe'' (if dirty then verdict_blocked else verdict_met) requirement_required
             (if dirty then status_breakdown st else if switching then ''canonical checkout is clean and may switch branches''
              else ''no branch switch is needed'') ''commit or preserve canonical checkout changes before switching'',
           mk_condition ''target-branch'' (if lost then verdict_blocked else verdict_met) requirement_required
             (if lost then ''target branch '' @ b @ '' does not exist'' else ''target branch '' @ b @ '' exists'')
             ''restore the local task branch''])"

definition resume_checkout_conditions :: "(nat \<Rightarrow> bool) \<Rightarrow> life_observation \<Rightarrow> resume_options \<Rightarrow> condition list" where
  "resume_checkout_conditions pr o' v =
    (if \<not> has_checkout o' then resume_absent_conditions o' v
     else case checkout_exact_verdict pr o' of (ev, ee) \<Rightarrow> case resume_kind_verdict o' of (kv, ke) \<Rightarrow>
       [mk_condition ''checkout-present'' verdict_met requirement_required (''registered checkout '' @ lo_checkout o') [],
        mk_condition ''checkout-exact'' ev requirement_required ee ''reconcile the task and Git worktree identities'',
        mk_condition ''checkout-linked'' kv requirement_required ke ''reconcile the checkout mode'',
        mk_condition ''resume-checkout'' kv requirement_required ''fresh exact checkout will be reused'' ''reconcile the checkout mode'',
        mk_condition ''explicit-base'' verdict_met requirement_advisory ''no reconstruction is needed'' []] @
       resume_status_conditions pr o')"

section \<open>The runtime\<close>

definition three_runtime_conditions :: "string \<times> string \<times> string \<Rightarrow> string \<times> string \<times> string \<Rightarrow> string \<times> string \<times> string \<Rightarrow> condition list" where
  \<comment> \<open>available, occupancy, saved handle: verdict, evidence and advice of each\<close>
  "three_runtime_conditions a oc sv =
    (case a of (v, e, m) \<Rightarrow> case oc of (v', e', m') \<Rightarrow> case sv of (v'', e'', m'') \<Rightarrow>
      [mk_condition ''runtime-available'' v requirement_required e m, mk_condition ''agent-occupancy'' v' requirement_required e' m',
       mk_condition ''saved-runtime'' v'' requirement_advisory e'' m''])"

definition absent_occupancy_verdict :: "bool \<Rightarrow> life_observation \<Rightarrow> string \<times> string" where
  "absent_occupancy_verdict allow_shared o' =
    (if runtime_name (lo_runtime o') = ''none'' \<and> \<not> allow_shared
     then (verdict_error, ''runtime=none cannot observe writers after checkout reconstruction'')
     else (verdict_met, ''missing checkout cannot be occupied; strict occupancy will be checked after reconstruction''))"

definition resume_occupancy_verdict :: "bool \<Rightarrow> life_observation \<Rightarrow> string \<times> string" where
  "resume_occupancy_verdict allow_shared o' =
    (let oc = lo_occupancy o'
     in case writer_occupancy_error allow_shared oc (lo_occupancy_err o') of
          Some e \<Rightarrow>
            (if lo_occupancy_err o' \<noteq> None \<or> oe_current_pane oc \<noteq> None \<or> oe_coverage oc \<noteq> None \<or> oe_session_list oc \<noteq> None \<or>
                oe_agent_list oc \<noteq> None \<or> occupancy_incomplete oc then verdict_error else verdict_blocked, e)
        | None \<Rightarrow> (verdict_met, if allow_shared
            then ''shared-checkout override accepts the observed or explicitly unobserved runtime occupancy''
            else ''no other recognized agent occupies the checkout''))"

definition saved_runtime_text :: "life_observation \<Rightarrow> string" where
  "saved_runtime_text o' =
    (if t_runtime_handle (lo_task o') = [] then ''no saved runtime handle''
     else if lo_saved_live o' then ''saved '' @ runtime_name (lo_runtime o') @ '' handle '' @ t_runtime_handle (lo_task o') @ '' covers the exact checkout''
     else ''saved runtime handle is stale and will be replaced or cleared'')"

definition resume_runtime_conditions :: "bool \<Rightarrow> life_observation \<Rightarrow> condition list" where
  "resume_runtime_conditions allow_shared o' =
    (case lo_runtime_err o' of
       Some e \<Rightarrow> three_runtime_conditions (verdict_error, e, ''repair runtime backend resolution'')
         (verdict_error, e, ''repair runtime backend resolution'') (verdict_unknown, ''saved runtime was not validated'', ''refresh runtime state'')
     | None \<Rightarrow> (case available_verdict o' of (av, ae) \<Rightarrow>
         if \<not> has_checkout o' then
           (case absent_occupancy_verdict allow_shared o' of (ov, oe) \<Rightarrow>
             three_runtime_conditions (av, ae, ''select an available runtime backend'')
               (ov, oe, ''select an observable runtime backend before reconstructing the checkout'')
               (verdict_met, ''saved runtime hint will be revalidated after reconstruction'', []))
         else (case resume_occupancy_verdict allow_shared o' of (ov, oe) \<Rightarrow>
           three_runtime_conditions (av, ae, ''select an available runtime backend'')
             (ov, oe, ''stop the other recognized agent or use another checkout'') (verdict_met, saved_runtime_text o', []))))"

section \<open>The plan\<close>

definition resume_rebuilds :: "life_observation \<Rightarrow> bool" where
  "resume_rebuilds o' \<longleftrightarrow> lo_mode o' = mode_worktree \<and> \<not> has_checkout o' \<and> parked o'"

definition resume_path :: "life_observation \<Rightarrow> string" where
  "resume_path o' = (if lo_mode o' = mode_worktree then resume_effect_checkout o' else [])"

definition resume_disposition :: "life_observation \<Rightarrow> string" where
  "resume_disposition o' =
    (if lo_runtime o' \<noteq> None \<and> lo_runtime o' \<noteq> Some ''none'' then
       (if lo_saved_live o' then ''reuse:'' @ runtime_name (lo_runtime o') @ '':'' @ t_runtime_handle (lo_task o')
        else ''open:'' @ runtime_name (lo_runtime o'))
     else ''clear'')"

definition resume_conditions :: "(nat \<Rightarrow> bool) \<Rightarrow> bool \<Rightarrow> life_observation \<Rightarrow> resume_options \<Rightarrow> condition list" where
  "resume_conditions pr allow_shared o' v =
    [mk_condition ''task-current'' verdict_met requirement_required
       (''task '' @ t_id (lo_task o') @ '' revision '' @ tr_revision (lo_record o')) [],
     mk_condition ''repo-identity'' verdict_met requirement_required (''Git common directory '' @ lo_common_dir o') [],
     resume_owner_condition o' v] @ resume_checkout_conditions pr o' v @ resume_runtime_conditions allow_shared o'"

definition resume_effects :: "life_observation \<Rightarrow> resume_options \<Rightarrow> effect list" where
  "resume_effects o' v =
    (let t = lo_task o'
     in (if rs_fetch_refs v then [new_effect ''fetch-refs'' ''fetch and prune origin before resuming'' (lo_repo_path o') False True
          [(''remote'', ''origin''), (''warning-on-failure'', ''true'')]] else []) @
        (if resume_rebuilds o' then [new_effect ''create-worktree'' ''rebuild the missing linked worktree'' (lo_desired o') False False
          [(''repo'', lo_repo_path o'), (''branch'', t_branch t), (''preferred-base'', lo_remote_branch o'),
           (''fallback-base'', t_base t), (''selected-base'', lo_base_ref o'),
           (''provision'', bool_text (\<not> rs_no_provision v)), (''runtime'', ''false'')]] else []) @
        (if resume_needs_switch o' then [new_effect ''switch-branch'' ''switch the clean canonical checkout to the task branch''
          (lo_repo_path o') False False [(''from'', gs_branch (lo_status o')), (''to'', t_branch t)]] else []) @
        (if should_open_runtime o' then [new_effect ''open-runtime'' ''open a runtime surface for the checkout'' (resume_effect_checkout o')
          False False [(''backend'', runtime_name (lo_runtime o')), (''label'', resume_runtime_label t)]] else []) @
        [task_update_effect o' state_hot (resume_path o') (resume_disposition o') (t_next t) (t_note t)])"

definition resume_retained :: "life_observation \<Rightarrow> string list" where
  "resume_retained o' = [''branch:'' @ t_branch (lo_task o')] @
    (if resume_effect_checkout o' \<noteq> [] then [''checkout:'' @ resume_effect_checkout o'] else []) @
    (if lo_runtime o' \<noteq> None \<and> lo_runtime o' \<noteq> Some ''none'' then [''runtime:'' @ runtime_name (lo_runtime o')] else [])"

definition resume_spec :: "(nat \<Rightarrow> bool) \<Rightarrow> bool \<Rightarrow> string_map \<Rightarrow> gotime \<Rightarrow> resume_options \<Rightarrow> life_observation \<Rightarrow> plan_spec" where
  "resume_spec pr allow_shared authority displayed v o' =
    \<lparr>ps_authority = authority, ps_conditions = resume_conditions pr allow_shared o' v, ps_effects = resume_effects o' v,
     ps_retained = resume_retained o',
     ps_confirmation = \<lparr>cf_kind = confirmation_approval, cf_prompt = ''Resume this task and claim its checkout?'', cf_token = []\<rparr>,
     ps_fallback = resume_fallback (t_id (lo_task o')) v,
     ps_summary = ''Resume '' @ task_title (lo_task o') @ '' HOT'', ps_displayed_at = displayed\<rparr>"

end
