(* ===== verification/ResumeApply.thy ===== *)
theory ResumeApply
  imports ResumePlan ParkApply
begin

text \<open>
  \<open>applyResume\<close> of \<open>taskflow/lifecycle_apply.go\<close> with the checks only it makes, as steps of
  \<open>ParkApply\<close>.
\<close>

section \<open>Checks\<close>

definition revalidate_repository :: "'w life_service \<Rightarrow> life_observation \<Rightarrow> 'w \<Rightarrow> life_error option \<times> 'w" where
  "revalidate_repository s o' w =
    (case ls_discover s (lo_repo_path o') w of
       (Inl e, w) \<Rightarrow> (Some (stale_boundary (''canonical repository is no longer discoverable: '' @ e)), w)
     | (Inr repo, w) \<Rightarrow>
       (case ls_canonical s (gr_main_root repo) w of (main, main_err) \<Rightarrow>
        case ls_canonical s (gr_common_dir repo) w of (common, common_err) \<Rightarrow>
          (checks
            [map_option (\<lambda>e. stale_boundary (''canonical repository path is no longer resolvable: '' @ e)) main_err,
             map_option (\<lambda>e. stale_boundary (''Git common directory is no longer resolvable: '' @ e)) common_err,
             fail_if (main \<noteq> lo_repo_path o' \<or> common \<noteq> lo_common_dir o')
               (stale_boundary ''canonical repository or Git common directory changed'')], w)))"

definition branch_checkout_count :: "'w life_service \<Rightarrow> life_observation \<Rightarrow> 'w \<Rightarrow> (string + nat) \<times> 'w" where
  "branch_checkout_count s o' w =
    (case ls_worktrees s (lo_repo_path o') w of
       (Inl e, w) \<Rightarrow> (Inl e, w)
     | (Inr ws, w) \<Rightarrow> (Inr (length (filter (\<lambda>x. wt_branch x = t_branch (lo_task o')) ws)), w))"

definition strict_options :: "'w life_service \<Rightarrow> occupancy_options" where
  "strict_options s = \<lparr>oo_profile = OccupancyStrict, oo_caller_workspace = ls_workspace s, oo_caller_pane = ls_pane s,
    oo_close_unknown = False, oo_inspect_processes = False, oo_caller_pid = 0\<rparr>"

definition revalidate_resume_checkout :: "'w life_service \<Rightarrow> life_observation \<Rightarrow> 'w \<Rightarrow> life_error option \<times> life_observation \<times> 'w" where
  "revalidate_resume_checkout s o' w =
    (case refresh_checkout s o' (t_branch (lo_task o')) w of (err, o2, w) \<Rightarrow>
      (map_option (\<lambda>t. stale_boundary (''resume checkout identity changed: '' @ t)) err, o2, w))"

definition revalidate_resume_occupancy ::
  "'w life_service \<Rightarrow> life_observation \<Rightarrow> bool \<Rightarrow> 'w \<Rightarrow> life_error option \<times> life_observation \<times> 'w" where
  "revalidate_resume_occupancy s o' compare w =
    (case ls_inspect_occupancy s (runtime_name (lo_runtime o')) (lo_checkout o') (strict_options s) w of ((fresh, err), w) \<Rightarrow>
     case checks
       [map_option LPlain (writer_occupancy_error (ls_allow_shared s) fresh err),
        fail_if (compare \<and> occupancy_authority (ls_sha s) (ls_digests s) fresh None \<noteq>
            occupancy_authority (ls_sha s) (ls_digests s) (lo_occupancy o') (lo_occupancy_err o'))
          (stale_boundary ''runtime session, caller, or recognized-agent occupancy changed'')] of
       Some e \<Rightarrow> (Some e, o', w)
     | None \<Rightarrow> (None, o'\<lparr>lo_occupancy := fresh, lo_occupancy_err := None,
         lo_saved_live := saved_handle_live fresh (t_runtime_handle (lo_task o'))\<rparr>, w))"

definition switchable :: "life_observation \<Rightarrow> bool" where
  "switchable o' \<longleftrightarrow> \<not> status_dirty (lo_status o') \<and> \<not> gs_detached (lo_status o') \<and> \<not> lo_in_progress o' \<and> gs_conflicted (lo_status o') = 0"

definition ensure_branch_switch_boundary :: "'w life_service \<Rightarrow> life_observation \<Rightarrow> 'w \<Rightarrow> life_error option \<times> 'w" where
  "ensure_branch_switch_boundary s o' w =
    (case revalidate_git_baseline s o' w of
       (Some e, w) \<Rightarrow> (Some e, w)
     | (None, w) \<Rightarrow>
       if \<not> switchable o' then (Some (LPlain ''canonical checkout is no longer clean and switchable''), w)
       else case ls_ref_state s (lo_repo_path o') (local_branch_ref (t_branch (lo_task o'))) w of ((there, err), w) \<Rightarrow>
         (checks [map_option (\<lambda>t. LPlain (''observe local task branch before switch: '' @ t)) err,
            fail_if (\<not> there) (stale_boundary ''local task branch disappeared before switch'')], w))"

definition ref_unchanged ::
  "'w life_service \<Rightarrow> string \<Rightarrow> string \<Rightarrow> string \<Rightarrow> string \<Rightarrow> bool \<times> string \<times> string option \<Rightarrow> 'w \<Rightarrow> life_error option \<times> 'w" where
  \<comment> \<open>one side of \<open>revalidateResumeBranchRefs\<close>: the ref exists, names a commit and has the error it had\<close>
  "ref_unchanged s dir ref failure changed observed w =
    (case ls_ref_state s dir ref w of ((there, err), w) \<Rightarrow>
     case err of Some t \<Rightarrow> (Some (LPlain (''observe '' @ failure @ '' before reconstruction: '' @ t)), w)
     | None \<Rightarrow>
       case (if there then resolve_ref_oid s dir ref w else (([], None), w)) of ((oid, err), w) \<Rightarrow>
       case observed of (there', oid', err') \<Rightarrow>
         (fail_if (there \<noteq> there' \<or> oid \<noteq> oid' \<or> error_string err \<noteq> error_string err')
            (stale_boundary (changed @ '' OID changed before worktree reconstruction'')), w))"

definition revalidate_resume_refs :: "'w life_service \<Rightarrow> bool \<Rightarrow> life_observation \<Rightarrow> 'w \<Rightarrow> life_error option \<times> 'w" where
  \<comment> \<open>\<open>revalidateResumeBranchRefs\<close>\<close>
  "revalidate_resume_refs s allow_remote_change o' w =
    (case ref_unchanged s (lo_repo_path o') (local_branch_ref (t_branch (lo_task o'))) ''local task branch'' ''local task branch''
        (lo_local_exists o', lo_local_oid o', lo_local_oid_err o') w of
       (Some e, w) \<Rightarrow> (Some e, w)
     | (None, w) \<Rightarrow> if allow_remote_change then (None, w)
       else ref_unchanged s (lo_repo_path o') (lo_remote_branch o') ''published task branch'' ''remote task branch''
         (lo_remote_exists o', lo_remote_oid o', lo_remote_oid_err o') w)"

definition expected_before_switch :: "life_observation \<Rightarrow> string" where
  \<comment> \<open>\<open>resumeExpectedBranchBeforeSwitch\<close>\<close>
  "expected_before_switch o' =
    (if lo_mode o' = mode_branch \<and> lo_status_err o' = None then gs_branch (lo_status o') else t_branch (lo_task o'))"

section \<open>Steps\<close>

definition choose_step :: "(life_observation \<Rightarrow> bool) \<Rightarrow> 'w park_step \<Rightarrow> 'w park_step \<Rightarrow> 'w park_step" where
  "choose_step p m m' ex w = (if p (ex_observed ex) then m ex w else m' ex w)"

definition skip_step :: "'w park_step" where
  "skip_step ex w = (None, ex, w)"

definition nested_steps :: "'w park_step list \<Rightarrow> 'w park_step" where
  \<comment> \<open>the steps of an inner block; the advice is already in the ledger\<close>
  "nested_steps ms ex w = (case run_steps ms ex w of (err, ex', w') \<Rightarrow> (map_option (\<lambda>e. (e, [])) err, ex', w'))"

definition warned :: "'w life_service \<Rightarrow> effect \<Rightarrow> (execution \<Rightarrow> 'w \<Rightarrow> (string \<times> life_error option) \<times> execution \<times> 'w) \<Rightarrow> string \<Rightarrow> 'w park_step" where
  \<comment> \<open>\<open>runWarning\<close>\<close>
  "warned s e operation prefix ex w =
    (case run_effect s e operation ex w of (err, ex', w') \<Rightarrow>
      (None, (case err of None \<Rightarrow> ex' | Some f \<Rightarrow> ex'\<lparr>ex_warnings := ex_warnings ex' @ [prefix @ '': '' @ life_error_text f]\<rparr>), w'))"

definition unregistered_step :: "'w life_service \<Rightarrow> nat option \<Rightarrow> string \<Rightarrow> string \<Rightarrow> string \<Rightarrow> 'w park_step" where
  \<comment> \<open>the number of checkouts of the task branch is the given one, or the observed one\<close>
  "unregistered_step s expected failure_advice changed changed_advice ex w =
    (case branch_checkout_count s (ex_observed ex) w of
       (Inl t, w') \<Rightarrow> (Some (LPlain t, [failure_advice]), ex, w')
     | (Inr n, w') \<Rightarrow>
       (if n \<noteq> (case expected of None \<Rightarrow> lo_branch_matches (ex_observed ex) | Some k \<Rightarrow> k)
        then Some (stale_boundary changed, [changed_advice]) else None, ex, w'))"

definition fetch_args :: "string list" where
  "fetch_args = [''fetch'', ''--prune'', ''origin'']"

definition fetch_operation :: "'w life_service \<Rightarrow> execution \<Rightarrow> 'w \<Rightarrow> (string \<times> life_error option) \<times> execution \<times> 'w" where
  "fetch_operation s ex w =
    (case ls_git_run s (lo_repo_path (ex_observed ex)) fetch_args w of ((_, err), w') \<Rightarrow>
      ((case err of Some t \<Rightarrow> ([], Some (LPlain t)) | None \<Rightarrow> (''fetched origin'', None)), ex, w'))"

definition fetch_steps :: "'w life_service \<Rightarrow> effect \<Rightarrow> 'w park_step list" where
  "fetch_steps s e =
    [check_step (revalidate_repository s) ''refresh the canonical repository before fetching'',
     choose_step has_checkout
       (check_step (revalidate_git_baseline s) ''refresh checkout authority before fetching'')
       (unregistered_step s None ''refresh worktree topology before fetching''
          ''task branch checkout topology changed before fetch'' ''refresh resume''),
     warned s e (fetch_operation s) ''fetch failed'',
     choose_step has_checkout
       (update_step (\<lambda>o' w. case refresh_checkout s o' (expected_before_switch o') w of (err, o2, w) \<Rightarrow>
          (map_option (\<lambda>t. LPlain (''refresh checkout after fetch: '' @ t)) err, o2, w)) ''inspect fetched refs and retry resume'')
       skip_step]"

section \<open>Rebuilding the checkout\<close>

definition rebuild_request :: "resume_options \<Rightarrow> effect \<Rightarrow> string \<Rightarrow> life_observation \<Rightarrow> create_request" where
  "rebuild_request v e base o' = \<lparr>cq_repo_path = lo_repo_path o', cq_repo_name = t_repo (lo_task o'),
    cq_branch = t_branch (lo_task o'), cq_base = base, cq_path = e_target e, cq_label = resume_runtime_label (lo_task o'),
    cq_no_provision = rs_no_provision v\<rparr>"

definition created_path :: "'w life_service \<Rightarrow> effect \<Rightarrow> create_answer \<Rightarrow> 'w \<Rightarrow> life_error + string" where
  \<comment> \<open>the canonical path of the created worktree, which must be the approved target\<close>
  "created_path s e answer w =
    (case answer of
       CreateExists p \<Rightarrow> Inl (stale_boundary (''the task branch became checked out at '' @ p))
     | CreateFailed t \<Rightarrow> Inl (LPlain t)
     | CreatedAt p \<Rightarrow>
       (if p = None \<or> p = Some [] then Inl (LPlain ''worktree manager returned no checkout path'')
        else case ls_canonical s (the p) w of (path, err) \<Rightarrow>
          (case err of Some t \<Rightarrow> Inl (LPlain t)
           | None \<Rightarrow> (case ls_canonical s (e_target e) w of (target, target_err) \<Rightarrow>
               if target_err \<noteq> None \<or> path \<noteq> target
               then Inl (LPlain (''worktree manager created '' @ quote_go (ls_printable s) path @ '', approved target is '' @
                  quote_go (ls_printable s) target))
               else Inr path))))"

definition create_operation ::
  "'w life_service \<Rightarrow> resume_options \<Rightarrow> effect \<Rightarrow> string \<Rightarrow> execution \<Rightarrow> 'w \<Rightarrow> (string \<times> life_error option) \<times> execution \<times> 'w" where
  "create_operation s v e base ex w =
    (case ls_create_worktree s (rebuild_request v e base (ex_observed ex)) w of (answer, w') \<Rightarrow>
      (case created_path s e answer w' of
         Inl f \<Rightarrow> (([], Some f), ex, w')
       | Inr path \<Rightarrow> ((''rebuilt linked worktree from '' @ base, None), ex\<lparr>ex_resume_path := path\<rparr>, w')))"

definition registered_step :: "'w life_service \<Rightarrow> 'w park_step" where
  "registered_step s ex w =
    (case ls_resolve_worktree s (lo_repo_path (ex_observed ex)) (ex_resume_path ex) w of ((registered, err), w') \<Rightarrow>
      (case err of
         Some e \<Rightarrow> (Some (LPlain (''resolve rebuilt exact worktree: '' @ we_text e),
           [''preserve the rebuilt checkout and reconcile its registration'']), ex, w')
       | None \<Rightarrow>
         (if \<not> is_linked_worktree registered \<or> wt_branch (rw_worktree registered) \<noteq> t_branch (lo_task (ex_observed ex))
          then Some (LPlain ''rebuilt checkout is not the exact linked task branch'', [''preserve and reconcile the rebuilt checkout''])
          else None,
          ex\<lparr>ex_observed := (ex_observed ex)\<lparr>lo_worktree := registered, lo_worktree_found := True, lo_worktree_err := None,
            lo_checkout := rw_path registered\<rparr>\<rparr>, w')))"

definition rebuild_steps :: "'w life_service \<Rightarrow> resume_options \<Rightarrow> effect \<Rightarrow> string \<Rightarrow> 'w park_step list" where
  \<comment> \<open>the creation from the chosen base and its verification\<close>
  "rebuild_steps s v e base =
    [unregistered_step s (Some 0) ''refresh repository topology before rebuilding''
       ''the task branch acquired a checkout before reconstruction'' ''refresh and reuse the newly registered exact checkout'',
     run_step s e (create_operation s v e base) ''inspect any partially created checkout, then refresh resume before retrying'',
     registered_step s,
     refresh_step s ''verify rebuilt worktree'' None ''preserve and inspect the rebuilt checkout'']"

definition rebuild_step :: "'w life_service \<Rightarrow> resume_options \<Rightarrow> effect \<Rightarrow> 'w park_step" where
  \<comment> \<open>the base is the local branch, or the published one when there is no local branch\<close>
  "rebuild_step s v e ex w =
    (let o' = ex_observed ex; branch = t_branch (lo_task o') in
     case ls_ref_state s (lo_repo_path o') (local_branch_ref branch) w of ((local, err), w) \<Rightarrow>
     case err of Some t \<Rightarrow> (Some (LPlain (''observe local task branch before reconstruction: '' @ t),
         [''repair Git ref observation and retry'']), ex, w)
     | None \<Rightarrow> case ls_ref_state s (lo_repo_path o') (lo_remote_branch o') w of ((remote, err), w) \<Rightarrow>
     case err of Some t \<Rightarrow> (Some (LPlain (''observe published task branch before reconstruction: '' @ t),
         [''repair Git ref observation and retry'']), ex, w)
     | None \<Rightarrow>
       if \<not> local \<and> \<not> remote then (Some (stale_boundary ''local and published task branches are unavailable after fetch'',
         [''restore origin/'' @ branch @ '' before reconstructing the checkout'']), ex, w)
       else nested_steps (rebuild_steps s v e (if local then branch else lo_remote_branch o')) ex w)"

section \<open>Opening the runtime and recording HOT\<close>

definition occupancy_step :: "'w life_service \<Rightarrow> bool \<Rightarrow> string \<Rightarrow> 'w park_step" where
  "occupancy_step s compare = update_step (\<lambda>o'. revalidate_resume_occupancy s o' compare)"

definition opened_early :: "life_observation \<Rightarrow> 'w \<Rightarrow> life_error option \<times> 'w" where
  "opened_early o' w = (fail_if (saved_handle_live (lo_occupancy o') (t_runtime_handle (lo_task o')))
    (stale_boundary ''saved runtime handle became live before the declared open''), w)"

definition handle_lost :: "bool \<Rightarrow> life_observation \<Rightarrow> 'w \<Rightarrow> life_error option \<times> 'w" where
  "handle_lost opened o' w = (fail_if (runtime_name (lo_runtime o') \<noteq> ''none'' \<and> \<not> opened \<and> t_runtime_handle (lo_task o') \<noteq> [] \<and>
      \<not> saved_handle_live (lo_occupancy o') (t_runtime_handle (lo_task o')))
    (stale_boundary ''saved runtime handle disappeared before HOT task write''), w)"

definition open_operation :: "'w life_service \<Rightarrow> execution \<Rightarrow> 'w \<Rightarrow> (string \<times> life_error option) \<times> execution \<times> 'w" where
  "open_operation s ex w =
    (let o' = ex_observed ex; name = runtime_name (lo_runtime o') in
     case ls_open_runtime s name (lo_checkout o') (resume_runtime_label (lo_task o')) w of ((handle, err), w') \<Rightarrow>
      (case err of Some t \<Rightarrow> (([], Some (LPlain t)), ex, w')
       | None \<Rightarrow> if handle = [] then (([], Some (LPlain ''runtime opened without a handle'')), ex, w')
         else ((''opened '' @ name @ '' runtime '' @ handle, None), ex\<lparr>ex_resume_name := name, ex_resume_handle := handle\<rparr>, w')))"

definition resume_switch_operation :: "'w life_service \<Rightarrow> execution \<Rightarrow> 'w \<Rightarrow> (string \<times> life_error option) \<times> execution \<times> 'w" where
  "resume_switch_operation s ex w =
    (let branch = t_branch (lo_task (ex_observed ex)) in
     case ls_git_run s (lo_repo_path (ex_observed ex)) [''switch'', branch] w of ((_, err), w') \<Rightarrow>
      ((case err of Some t \<Rightarrow> ([], Some (LPlain t)) | None \<Rightarrow> (''switched canonical checkout to '' @ branch, None)), ex, w'))"

definition hot_candidate :: "string \<Rightarrow> execution \<Rightarrow> task" where
  "hot_candidate host ex =
    (let o' = ex_observed ex; none = (runtime_name (lo_runtime o') = ''none'')
     in (lo_task o')\<lparr>t_state := state_hot, t_owner := host,
          t_worktree := (if lo_mode o' = mode_worktree then lo_checkout o' else []),
          t_runtime_name := (if none then [] else ex_resume_name ex),
          t_runtime_handle := (if none then [] else ex_resume_handle ex)\<rparr>)"

definition resume_handoff :: "life_observation \<Rightarrow> task \<Rightarrow> handoff" where
  "resume_handoff o' candidate =
    (if runtime_name (lo_runtime o') = ''none''
     then \<lparr>h_kind = ''directory'', h_path = lo_checkout o', h_runtime = [], h_runtime_handle = [], h_url = [], h_label = task_title candidate\<rparr>
     else \<lparr>h_kind = ''runtime'', h_path = lo_checkout o', h_runtime = t_runtime_name candidate,
       h_runtime_handle = t_runtime_handle candidate, h_url = [], h_label = task_title candidate\<rparr>)"

definition hot_operation :: "'w life_service \<Rightarrow> execution \<Rightarrow> 'w \<Rightarrow> (string \<times> life_error option) \<times> execution \<times> 'w" where
  "hot_operation s ex w =
    (let o' = ex_observed ex; candidate = hot_candidate (ls_host s) ex in
     if runtime_name (lo_runtime o') \<noteq> ''none'' \<and> (t_runtime_name candidate = [] \<or> t_runtime_handle candidate = [])
     then (([], Some (LPlain ''HOT task requires the validated or newly opened runtime handle'')), ex, w)
     else case ls_task_update s candidate (ex_revision ex) w of ((updated, err), w') \<Rightarrow>
      (case err of Some t \<Rightarrow> (([], Some (LPlain (''write HOT task state: '' @ t))), ex, w')
       | None \<Rightarrow> (case updated of
           None \<Rightarrow> (([], Some (LPlain ''write HOT task state returned no revision'')), ex, w')
         | Some r \<Rightarrow> ((''recorded HOT at revision '' @ tr_revision r, None),
             ex\<lparr>ex_snapshot := ''task:'' @ tr_revision r, ex_observed := o'\<lparr>lo_task := tr_task r\<rparr>,
               ex_handoff := Some (resume_handoff o' candidate)\<rparr>, w'))))"

section \<open>Resume\<close>

record resume_progress =
  rp_opened :: bool
  rp_changed :: bool

definition resume_steps :: "'w life_service \<Rightarrow> resume_options \<Rightarrow> string \<Rightarrow> resume_progress \<Rightarrow> effect \<Rightarrow> 'w park_step list" where
  \<comment> \<open>the body of the loop of \<open>applyResume\<close>; \<open>rp_opened\<close> is \<open>runtimeMutated\<close>, \<open>rp_changed\<close> is \<open>checkoutMutated\<close>\<close>
  "resume_steps s v i pr e =
    (let same = (\<not> rp_opened pr \<and> \<not> rp_changed pr) in
     if e_code e = ''fetch-refs'' then fetch_steps s e
     else if e_code e = ''create-worktree'' then
       [check_step (revalidate_resume_refs s (rs_fetch_refs v)) ''refresh the task branch before rebuilding its checkout'',
        rebuild_step s v e]
     else if e_code e = ''switch-branch'' then
       [occupancy_step s same ''another agent or runtime changed occupancy; refresh resume'',
        check_step (ensure_branch_switch_boundary s) ''preserve canonical checkout changes and retry resume'',
        run_step s e (resume_switch_operation s) ''inspect the canonical checkout and retry resume'',
        refresh_step s ''verify task branch switch'' None ''inspect the canonical checkout before retrying'']
     else if e_code e = ''open-runtime'' then
       [update_step (revalidate_resume_checkout s) ''refresh the exact checkout before opening a runtime'',
        occupancy_step s same ''another agent or runtime changed occupancy; refresh resume'',
        check_step opened_early ''refresh and reuse the saved runtime'',
        run_step s e (open_operation s) ''the checkout remains available; open a runtime manually or retry resume'']
     else if e_code e = ''update-task'' then
       [update_step (revalidate_resume_checkout s) ''refresh the exact checkout before recording HOT'',
        occupancy_step s same ''another recognized agent appeared; close the new surface or refresh resume'',
        check_step (handle_lost (rp_opened pr)) ''refresh resume and open a new runtime'',
        run_step s e (hot_operation s) ''checkout/runtime preparation may be complete; reload and reconcile task ownership, path, and runtime'']
     else [\<lambda>ex w. (Some (LInvalidPlan i (''unexpected Resume effect '' @ e_code e), []), ex, w)])"

definition resume_progress_after :: "effect \<Rightarrow> resume_progress \<Rightarrow> resume_progress" where
  "resume_progress_after e pr =
    (if e_code e = ''create-worktree'' \<or> e_code e = ''switch-branch'' then pr\<lparr>rp_changed := True\<rparr>
     else if e_code e = ''open-runtime'' then pr\<lparr>rp_opened := True\<rparr> else pr)"

fun resume_loop ::
  "'w life_service \<Rightarrow> resume_options \<Rightarrow> string \<Rightarrow> resume_progress \<Rightarrow> effect list \<Rightarrow> execution \<Rightarrow> 'w \<Rightarrow>
   life_error option \<times> execution \<times> 'w" where
  "resume_loop s v i pr [] ex w = (None, ex, w)"
| "resume_loop s v i pr (e # es) ex w =
    (case run_steps (resume_steps s v i pr e) ex w of
       (Some err, ex', w') \<Rightarrow> (Some err, ex', w')
     | (None, ex', w') \<Rightarrow> resume_loop s v i (resume_progress_after e pr) es ex' w')"

definition resume_start :: "execution \<Rightarrow> execution" where
  "resume_start ex =
    (let o' = ex_observed ex; ex = ex\<lparr>ex_resume_path := lo_checkout o'\<rparr>
     in if lo_runtime o' \<noteq> None \<and> lo_runtime o' \<noteq> Some ''none'' \<and> lo_saved_live o'
        then ex\<lparr>ex_resume_name := runtime_name (lo_runtime o'), ex_resume_handle := t_runtime_handle (lo_task o')\<rparr> else ex)"

definition apply_resume :: "'w life_service \<Rightarrow> resume_options \<Rightarrow> execution \<Rightarrow> 'w \<Rightarrow> life_error option \<times> execution \<times> 'w" where
  "apply_resume s v ex w =
    resume_loop s v (p_id (ex_plan ex)) \<lparr>rp_opened = False, rp_changed = False\<rparr>
      (execution_effects (ex_plan ex)) (resume_start ex) w"

end
