(* ===== verification/ResumeGuard.thy ===== *)
theory ResumeGuard
  imports ResumeApply ParkGuard
begin

text \<open>
  The order of a resume, with the rules of \<open>ParkGuard\<close>: what each fetch, creation, switch, opening and
  the final task write must have read before it, as an invariant of the log of calls.
\<close>

section \<open>What a log must show\<close>

definition same_task :: "life_observation \<Rightarrow> life_observation \<Rightarrow> bool" where
  "same_task a b \<longleftrightarrow> lo_repo_path a = lo_repo_path b \<and> lo_common_dir a = lo_common_dir b \<and> lo_mode a = lo_mode b \<and>
    lo_task a = lo_task b \<and> lo_runtime a = lo_runtime b \<and> lo_remote_branch a = lo_remote_branch b"

definition same_view :: "life_observation \<Rightarrow> life_observation \<Rightarrow> bool" where
  "same_view a b \<longleftrightarrow> same_task a b \<and> lo_checkout a = lo_checkout b"

definition repo_seen :: "life_observation \<Rightarrow> call set \<Rightarrow> bool" where
  "repo_seen o' S \<longleftrightarrow> (\<exists>g. Discovered (lo_repo_path o') (Inr g) \<in> S)"

definition topology_seen :: "life_observation \<Rightarrow> nat \<Rightarrow> call set \<Rightarrow> bool" where
  \<comment> \<open>the worktrees were listed and that many have the task branch\<close>
  "topology_seen o' n S \<longleftrightarrow> (\<exists>ws. Worktrees (lo_repo_path o') (Inr ws) \<in> S \<and>
    length (filter (\<lambda>x. wt_branch x = t_branch (lo_task o')) ws) = n)"

definition fetch_evidence :: "life_observation \<Rightarrow> call set \<Rightarrow> bool" where
  "fetch_evidence o' S \<longleftrightarrow> repo_seen o' S \<and>
    (if has_checkout o' then baseline_seen o' S else topology_seen o' (lo_branch_matches o') S)"

definition base_seen :: "life_observation \<Rightarrow> string \<Rightarrow> call set \<Rightarrow> bool" where
  \<comment> \<open>the base is the local task branch, or the published one, and exists\<close>
  "base_seen o' base S \<longleftrightarrow> base = t_branch (lo_task o') \<and> branch_seen o' S \<or>
    base = lo_remote_branch o' \<and> RefState (lo_repo_path o') base (True, None) \<in> S"

definition checkout_verified :: "life_observation \<Rightarrow> call set \<Rightarrow> bool" where
  \<comment> \<open>the checkout is registered there, of the right kind, on the task branch and at the commit the registry names\<close>
  "checkout_verified o' S \<longleftrightarrow> (\<exists>reg st out. Resolve (lo_repo_path o') (lo_checkout o') (reg, None) \<in> S \<and>
    refresh_kind_error o' reg = None \<and> Status (lo_checkout o') (st, None) \<in> S \<and>
    \<not> gs_detached st \<and> gs_branch st = wt_branch (rw_worktree reg) \<and>
    (t_branch (lo_task o') \<noteq> [] \<longrightarrow> gs_branch st = t_branch (lo_task o')) \<and>
    GitRun (lo_checkout o') head_args (out, None) \<in> S \<and> trim_space out = wt_head (rw_worktree reg))"

definition writer_seen :: "'w life_service \<Rightarrow> life_observation \<Rightarrow> call set \<Rightarrow> bool" where
  \<comment> \<open>the occupancy of the observation was read and no other writer is in the checkout\<close>
  "writer_seen s o' S \<longleftrightarrow> (\<exists>err. Occupied (runtime_name (lo_runtime o')) (lo_checkout o') (strict_options s) (lo_occupancy o', err) \<in> S \<and>
    writer_occupancy_error (ls_allow_shared s) (lo_occupancy o') err = None)"

definition handle_known :: "execution \<Rightarrow> call list \<Rightarrow> bool" where
  \<comment> \<open>the handle to record was just opened, or is the saved one and was seen live\<close>
  "handle_known ex pre \<longleftrightarrow> ex_resume_name ex \<noteq> [] \<and> ex_resume_handle ex \<noteq> [] \<and>
    ((\<exists>rt dir l. OpenRuntime rt dir l (ex_resume_handle ex, None) \<in> set pre) \<or>
     ex_resume_handle ex = t_runtime_handle (lo_task (ex_observed ex)) \<and>
     saved_handle_live (lo_occupancy (ex_observed ex)) (ex_resume_handle ex))"

fun resume_call_ok :: "'w life_service \<Rightarrow> resume_options \<Rightarrow> string \<Rightarrow> effect list \<Rightarrow> life_observation \<Rightarrow> call list \<Rightarrow> call \<Rightarrow> bool" where
  "resume_call_ok s v rv es o0 pre (GitRun dir args r) \<longleftrightarrow> dir = lo_repo_path o0 \<and>
     (if args = fetch_args then \<exists>o'. same_task o0 o' \<and> recent (fetch_evidence o') pre
      else args = [''switch'', t_branch (lo_task o0)] \<and> (\<exists>o'. same_task o0 o' \<and> switchable o' \<and>
        recent (writer_seen s o') pre \<and> recent (baseline_seen o') pre \<and> recent (branch_seen o0) pre))"
| "resume_call_ok s v rv es o0 pre (CreateWorktree q r) \<longleftrightarrow> (\<exists>e base. e \<in> set es \<and> e_code e = ''create-worktree'' \<and>
     q = rebuild_request v e base o0 \<and> recent (topology_seen o0 0) pre \<and> recent (base_seen o0 base) pre)"
| "resume_call_ok s v rv es o0 pre (OpenRuntime rt dir l r) \<longleftrightarrow> rt = runtime_name (lo_runtime o0) \<and>
     l = resume_runtime_label (lo_task o0) \<and> (\<exists>o'. same_task o0 o' \<and> dir = lo_checkout o' \<and>
       \<not> saved_handle_live (lo_occupancy o') (t_runtime_handle (lo_task o0)) \<and>
       recent (checkout_verified o') pre \<and> recent (writer_seen s o') pre)"
| "resume_call_ok s v rv es o0 pre (TaskUpdate t old r) \<longleftrightarrow> old = rv \<and>
     (\<exists>ex. same_task o0 (ex_observed ex) \<and> t = hot_candidate (ls_host s) ex \<and>
       recent (checkout_verified (ex_observed ex)) pre \<and> recent (writer_seen s (ex_observed ex)) pre \<and>
       (runtime_name (lo_runtime o0) = ''none'' \<or> handle_known ex pre))"
| "resume_call_ok s v rv es o0 pre _ = False"

definition resume_guard :: "'w life_service \<Rightarrow> resume_options \<Rightarrow> string \<Rightarrow> effect list \<Rightarrow> life_observation \<Rightarrow> call list \<Rightarrow> call \<Rightarrow> bool" where
  "resume_guard s v rv es o0 pre c \<longleftrightarrow> unwritten pre \<and> resume_call_ok s v rv es o0 pre c"

section \<open>Facts\<close>

lemma same_task_refl [simp]: "same_task o' o'" and same_view_refl [simp]: "same_view o' o'"
  by (simp_all add: same_task_def same_view_def)

lemma same_task_trans: "same_task a b \<Longrightarrow> same_task b c \<Longrightarrow> same_task a c"
  by (simp add: same_task_def)

lemma same_view_task: "same_view a b \<Longrightarrow> same_task a b"
  by (simp add: same_view_def)

lemma view_checkout: "same_view a b \<Longrightarrow> checkout_verified a = checkout_verified b"
  by (auto simp: same_view_def same_task_def checkout_verified_def refresh_kind_error_def fun_eq_iff)

lemma resume_monos: "mono (repo_seen o')" "mono (topology_seen o' n)" "mono (base_seen o' b)" "mono (checkout_verified o')"
    "mono (writer_seen s o')" "mono (branch_seen o')"
  unfolding mono_def le_fun_def le_bool_def
  by (auto simp: repo_seen_def topology_seen_def base_seen_def checkout_verified_def writer_seen_def branch_seen_def)

section \<open>Logs of the checks\<close>

lemma repository_log:
  assumes "revalidate_repository (traced s) o' (w, tr) = (r, w', tr')"
  shows "log_grows tr tr' (\<lambda>S. r = None \<longrightarrow> repo_seen o' S)"
  using assms by (auto simp: revalidate_repository_def logged_call_def repo_seen_def log_grows_def
      split: prod.splits sum.splits)

lemma count_log:
  assumes "branch_checkout_count (traced s) o' (w, tr) = (r, w', tr')"
  shows "log_grows tr tr' (\<lambda>S. \<forall>n. r = Inr n \<longrightarrow> topology_seen o' n S)"
  using assms by (auto simp: branch_checkout_count_def logged_call_def topology_seen_def log_grows_def
      split: prod.splits sum.splits)

lemma refresh_verified:
  assumes "refresh_checkout (traced s) o' (t_branch (lo_task o')) (w, tr) = (r, o2, w', tr')"
  shows "log_grows tr tr' (\<lambda>S. r = None \<longrightarrow> checkout_verified o' S)"
  using assms
  by (auto simp: refresh_checkout_def logged_call_def checkout_verified_def log_grows_def head_args_def
      split: prod.splits if_splits option.splits dest!: resolve_ref_oid_log) metis+

lemma refresh_view: "refresh_checkout s o' expected w = (r, o2, w') \<Longrightarrow> same_view o' o2"
  by (auto simp: refresh_checkout_def same_view_def same_task_def split: prod.splits option.splits if_splits)

lemma occupied_log:
  assumes "revalidate_resume_occupancy (traced s) o' compare (w, tr) = (r, o2, w', tr')"
  shows "log_grows tr tr' (\<lambda>S. r = None \<longrightarrow> writer_seen s o2 S) \<and> same_view o' o2"
  using assms by (auto simp: revalidate_resume_occupancy_def logged_call_def writer_seen_def log_grows_def strict_options_def
      same_view_def same_task_def split: prod.splits option.splits)

lemma switch_boundary_log:
  assumes "ensure_branch_switch_boundary (traced s) o' (w, tr) = (r, w', tr')"
  shows "log_grows tr tr' (\<lambda>S. r = None \<longrightarrow> switchable o' \<and> baseline_seen o' S \<and> branch_seen o' S)"
  using assms
  by (auto simp: ensure_branch_switch_boundary_def logged_call_def branch_seen_def log_grows_def baseline_seen_def
      split: prod.splits option.splits if_splits dest!: revalidate_git_log) blast+

lemma refs_log:
  assumes "revalidate_resume_refs (traced s) remote o' (w, tr) = (r, w', tr')"
  shows "log_grows tr tr' (\<lambda>S. True)"
  using assms by (auto simp: revalidate_resume_refs_def ref_unchanged_def logged_call_def log_grows_def
      split: prod.splits option.splits if_splits dest!: resolve_ref_oid_log)

section \<open>Rules\<close>

definition viewed :: "assertion \<Rightarrow> bool" where
  \<comment> \<open>a new observation of the same checkout keeps the assertion\<close>
  "viewed J \<longleftrightarrow> (\<forall>ex tr o2. J ex tr \<longrightarrow> same_view (ex_observed ex) o2 \<longrightarrow> J (ex\<lparr>ex_observed := o2\<rparr>) tr)"

lemma viewed_recent:
  "viewed J \<Longrightarrow> (\<And>a b. same_view a b \<Longrightarrow> E a = E b) \<Longrightarrow> viewed (\<lambda>ex tr. J ex tr \<and> recent (E (ex_observed ex)) tr)"
  unfolding viewed_def by simp metis

lemma update_seen:
  assumes log: "\<And>o' w tr r o2 w' tr'. g o' (w, tr) = (r, o2, w', tr') \<Longrightarrow>
      log_grows tr tr' (\<lambda>S. r = None \<longrightarrow> E o2 S) \<and> same_view o' o2"
    and J: "grows J" "viewed J" and R: "\<And>ex tr. J ex tr \<Longrightarrow> R tr"
  shows "holds J (update_step g advice) (\<lambda>ex tr. J ex tr \<and> recent (E (ex_observed ex)) tr) R"
  unfolding holds_def
proof (intro allI impI)
  fix ex :: execution and w tr
  assume j: "J ex tr"
  obtain r o2 w' tr' where g: "g (ex_observed ex) (w, tr) = (r, o2, w', tr')" by (metis prod_cases4)
  note l = log[OF g]
  have "J (ex\<lparr>ex_observed := o2\<rparr>) tr'" using j l J unfolding grows_def viewed_def by blast
  moreover have "r = None \<Longrightarrow> recent (E o2) tr'"
    using recent_log[OF conjunct1[OF l]] by simp
  ultimately show "case update_step g advice ex (w, tr) of (err, ex', w', tr') \<Rightarrow>
      if err = None then J ex' tr' \<and> recent (E (ex_observed ex')) tr' else R tr'"
    using g R by (auto simp: update_step_def)
qed

lemma pure_check:
  assumes "\<And>o' w. g o' w = (fail_if (c o') e, w)" and "\<And>ex tr. J ex tr \<Longrightarrow> R tr"
  shows "holds J (check_step g advice) (\<lambda>ex tr. J ex tr \<and> \<not> c (ex_observed ex)) R"
  unfolding holds_def using assms by (auto simp: check_step_def fail_if_def)

lemma choose_hold:
  assumes "holds (\<lambda>ex tr. J ex tr \<and> p (ex_observed ex)) m Q R" and "holds (\<lambda>ex tr. J ex tr \<and> \<not> p (ex_observed ex)) m' Q R"
  shows "holds J (choose_step p m m') Q R"
  using assms unfolding holds_def choose_step_def by simp

lemma nested_hold: "run_holds P ms Q R \<Longrightarrow> holds P (nested_steps ms) Q R"
  unfolding run_holds_def holds_def nested_steps_def by (auto split: prod.splits)

lemma run_rule:
  assumes "\<And>ex w tr d err ex' w' tr' st. P ex tr \<Longrightarrow> operation ex (w, tr) = ((d, err), ex', w', tr') \<Longrightarrow>
      if err = None then Q (ex'\<lparr>ex_steps := st\<rparr>) tr' else R tr'"
  shows "holds P (run_step s' e operation advice) Q R"
  unfolding holds_def
proof (intro allI impI)
  fix ex :: execution and w tr
  assume j: "P ex tr"
  obtain d err ex' w' tr' where run: "operation ex (w, tr) = ((d, err), ex', w', tr')" by (metis surj_pair)
  show "case run_step s' e operation advice ex (w, tr) of (err, ex', w', tr') \<Rightarrow> if err = None then Q ex' tr' else R tr'"
    using assms[OF j run] run by (simp add: run_step_def run_effect_def Let_def split: if_splits)
qed

lemma warned_rule:
  assumes "\<And>ex w tr d err ex' w' tr' st wn. P ex tr \<Longrightarrow> operation ex (w, tr) = ((d, err), ex', w', tr') \<Longrightarrow>
      Q (ex'\<lparr>ex_steps := st\<rparr>) tr' \<and> Q (ex'\<lparr>ex_steps := st, ex_warnings := wn\<rparr>) tr'"
  shows "holds P (warned s' e operation prefix) Q R"
  unfolding holds_def
proof (intro allI impI)
  fix ex :: execution and w tr
  assume j: "P ex tr"
  obtain d err ex' w' tr' where run: "operation ex (w, tr) = ((d, err), ex', w', tr')" by (metis surj_pair)
  show "case warned s' e operation prefix ex (w, tr) of (err, ex', w', tr') \<Rightarrow> if err = None then Q ex' tr' else R tr'"
    using assms[OF j run] run by (simp add: warned_def run_effect_def Let_def split: option.splits)
qed

section \<open>The invariant\<close>

definition resume_inv ::
  "'w life_service \<Rightarrow> resume_options \<Rightarrow> string \<Rightarrow> effect list \<Rightarrow> life_observation \<Rightarrow> resume_progress \<Rightarrow> assertion" where
  "resume_inv s v rv es o0 pr ex tr \<longleftrightarrow> guarded (resume_guard s v rv es o0) tr \<and> unwritten tr \<and>
    same_task o0 (ex_observed ex) \<and> ex_revision ex = rv \<and>
    (if rp_opened pr then \<exists>rt dir l. OpenRuntime rt dir l (ex_resume_handle ex, None) \<in> set tr
     else ex_resume_handle ex \<in> {[], t_runtime_handle (lo_task o0)})"

lemma resume_inv_grows: "grows (resume_inv s v rv es o0 pr)"
  unfolding grows_def by (auto simp: resume_inv_def log_grows_def guarded_quiet quiet_unwritten split: if_splits) blast

lemma resume_inv_viewed: "viewed (resume_inv s v rv es o0 pr)"
  unfolding viewed_def by (auto simp: resume_inv_def dest: same_view_task intro: same_task_trans)

lemma resume_inv_guarded: "resume_inv s v rv es o0 pr ex tr \<Longrightarrow> guarded (resume_guard s v rv es o0) tr"
  by (simp add: resume_inv_def)

lemma resume_inv_task: "resume_inv s v rv es o0 pr ex tr \<Longrightarrow> same_task o0 (ex_observed ex)"
  by (simp add: resume_inv_def)

lemma resume_inv_snoc:
  assumes "resume_inv s v rv es o0 pr ex tr" and "resume_call_ok s v rv es o0 tr c" and "\<not> is_task_write c"
    and "same_task o0 (ex_observed ex')" and "ex_revision ex' = rv" and "ex_resume_handle ex' = ex_resume_handle ex"
  shows "resume_inv s v rv es o0 pr ex' (tr @ [c])"
  using assms by (auto simp: resume_inv_def guarded_snoc resume_guard_def split: if_splits)

abbreviation resume_bad :: "'w life_service \<Rightarrow> resume_options \<Rightarrow> string \<Rightarrow> effect list \<Rightarrow> life_observation \<Rightarrow> call list \<Rightarrow> bool" where
  "resume_bad s v rv es o0 \<equiv> guarded (resume_guard s v rv es o0)"

section \<open>Fetching\<close>

lemma fetch_checked:
  "holds (\<lambda>ex tr. resume_inv s v rv es o0 pr ex tr \<and> recent (repo_seen (ex_observed ex)) tr)
    (choose_step has_checkout (check_step (revalidate_git_baseline (traced s)) a)
      (unregistered_step (traced s) None f c d))
    (\<lambda>ex tr. resume_inv s v rv es o0 pr ex tr \<and> recent (fetch_evidence (ex_observed ex)) tr) (resume_bad s v rv es o0)"
proof (rule choose_hold)
  have g: "grows (\<lambda>ex tr. resume_inv s v rv es o0 pr ex tr \<and> recent (repo_seen (ex_observed ex)) tr)"
    by (rule grows_recent[OF resume_inv_grows]) (intro resume_monos)
  show "holds (\<lambda>ex tr. (resume_inv s v rv es o0 pr ex tr \<and> recent (repo_seen (ex_observed ex)) tr) \<and> has_checkout (ex_observed ex))
     (check_step (revalidate_git_baseline (traced s)) a)
     (\<lambda>ex tr. resume_inv s v rv es o0 pr ex tr \<and> recent (fetch_evidence (ex_observed ex)) tr) (resume_bad s v rv es o0)"
  proof (rule holds_consequence[OF git_check[where J = "\<lambda>ex tr. (resume_inv s v rv es o0 pr ex tr \<and>
      recent (repo_seen (ex_observed ex)) tr) \<and> has_checkout (ex_observed ex)"]])
    show "grows (\<lambda>ex tr. (resume_inv s v rv es o0 pr ex tr \<and> recent (repo_seen (ex_observed ex)) tr) \<and> has_checkout (ex_observed ex))"
      using g unfolding grows_def by blast
    fix ex tr
    assume "((resume_inv s v rv es o0 pr ex tr \<and> recent (repo_seen (ex_observed ex)) tr) \<and> has_checkout (ex_observed ex)) \<and>
      recent (baseline_seen (ex_observed ex)) tr"
    then show "resume_inv s v rv es o0 pr ex tr \<and> recent (fetch_evidence (ex_observed ex)) tr"
      using recent_conj[of "repo_seen (ex_observed ex)" tr "baseline_seen (ex_observed ex)"] resume_monos(1) seen_mono(1)
      by (auto simp: fetch_evidence_def elim!: recent_weaken)
  qed (auto dest: resume_inv_guarded)
  show "holds (\<lambda>ex tr. (resume_inv s v rv es o0 pr ex tr \<and> recent (repo_seen (ex_observed ex)) tr) \<and> \<not> has_checkout (ex_observed ex))
     (unregistered_step (traced s) None f c d)
     (\<lambda>ex tr. resume_inv s v rv es o0 pr ex tr \<and> recent (fetch_evidence (ex_observed ex)) tr) (resume_bad s v rv es o0)"
    unfolding holds_def
  proof (intro allI impI)
    fix ex :: execution and w tr
    let ?o = "ex_observed ex"
    assume j: "(resume_inv s v rv es o0 pr ex tr \<and> recent (repo_seen ?o) tr) \<and> \<not> has_checkout ?o"
    obtain r w' tr' where b: "branch_checkout_count (traced s) ?o (w, tr) = (r, w', tr')" by (metis prod_cases3)
    note l = count_log[OF b]
    have inv: "resume_inv s v rv es o0 pr ex tr'" using j l resume_inv_grows[of s v rv es o0 pr] unfolding grows_def by blast
    have repo: "recent (repo_seen ?o) tr'" using recent_grows[OF _ l resume_monos(1)] j by blast
    have "recent (fetch_evidence ?o) tr'" if "r = Inr (lo_branch_matches ?o)"
      using recent_conj[OF repo recent_log[OF log_grows_weaken[OF l, of "topology_seen ?o (lo_branch_matches ?o)"]]
          resume_monos(1,2)] that j
      by (auto simp: fetch_evidence_def elim!: recent_weaken)
    then show "case unregistered_step (traced s) None f c d ex (w, tr) of (err, ex', w', tr') \<Rightarrow>
        if err = None then resume_inv s v rv es o0 pr ex' tr' \<and> recent (fetch_evidence (ex_observed ex')) tr' else resume_bad s v rv es o0 tr'"
      using b inv resume_inv_guarded[OF inv] by (auto simp: unregistered_step_def split: sum.splits)
  qed
qed

lemma fetch_one_call: "fetch_operation (traced s) ex (w, tr) = ((d, err), ex', w', tr') \<Longrightarrow>
    (\<exists>x. tr' = tr @ [GitRun (lo_repo_path (ex_observed ex)) fetch_args x]) \<and> ex' = ex"
  by (auto simp: fetch_operation_def logged_call_def split: prod.splits)

lemma create_one_call: "create_operation (traced s) v e base ex (w, tr) = ((d, err), ex', w', tr') \<Longrightarrow>
    (\<exists>x. tr' = tr @ [CreateWorktree (rebuild_request v e base (ex_observed ex)) x]) \<and> ex_observed ex' = ex_observed ex \<and>
    ex_revision ex' = ex_revision ex \<and> ex_resume_handle ex' = ex_resume_handle ex"
  by (auto simp: create_operation_def logged_call_def split: prod.splits sum.splits)

lemma fetch_warned:
  "holds (\<lambda>ex tr. resume_inv s v rv es o0 pr ex tr \<and> recent (fetch_evidence (ex_observed ex)) tr)
    (warned (traced s) e (fetch_operation (traced s)) prefix) (resume_inv s v rv es o0 pr) (resume_bad s v rv es o0)"
proof (rule warned_rule)
  fix ex :: execution and w tr d err ex' w' tr' st wn
  assume j: "resume_inv s v rv es o0 pr ex tr \<and> recent (fetch_evidence (ex_observed ex)) tr"
    and run: "fetch_operation (traced s) ex (w, tr) = ((d, err), ex', w', tr')"
  obtain x where c: "tr' = tr @ [GitRun (lo_repo_path (ex_observed ex)) fetch_args x]" "ex' = ex"
    using fetch_one_call[OF run] by blast
  have t: "same_task o0 (ex_observed ex)" "ex_revision ex = rv" using j by (simp_all add: resume_inv_def)
  have "lo_repo_path (ex_observed ex) = lo_repo_path o0" using t(1) by (simp add: same_task_def)
  then have ok: "resume_call_ok s v rv es o0 tr (GitRun (lo_repo_path (ex_observed ex)) fetch_args x)"
    unfolding resume_call_ok.simps using j t(1) by metis
  show "resume_inv s v rv es o0 pr (ex'\<lparr>ex_steps := st\<rparr>) tr' \<and> resume_inv s v rv es o0 pr (ex'\<lparr>ex_steps := st, ex_warnings := wn\<rparr>) tr'"
    unfolding c by (intro conjI; rule resume_inv_snoc[OF conjunct1[OF j] ok]) (use t in simp_all)
qed

lemma resume_refresh:
  assumes "\<And>o' w. g o' w = (case refresh_checkout (traced s) o' (b o') w of (err, o2, w) \<Rightarrow> (map_option (h o') err, o2, w))"
  shows "holds (resume_inv s v rv es o0 pr) (update_step g a) (resume_inv s v rv es o0 pr) (resume_bad s v rv es o0)"
proof (rule holds_consequence[OF update_seen[OF _ resume_inv_grows resume_inv_viewed resume_inv_guarded, where E = "\<lambda>o' S. True"]])
  fix o' w tr r o2 w' tr'
  assume "g o' (w, tr) = (r, o2, w', tr')"
  then obtain err where "refresh_checkout (traced s) o' (b o') (w, tr) = (err, o2, w', tr')"
    unfolding assms by (auto split: prod.splits)
  from refresh_log[OF this] refresh_view[OF this] show "log_grows tr tr' (\<lambda>S. r = None \<longrightarrow> True) \<and> same_view o' o2"
    by (auto elim: log_grows_weaken)
qed auto

lemma fetch_run:
  "run_holds (resume_inv s v rv es o0 pr) (fetch_steps (traced s) e) (resume_inv s v rv es o0 pr) (resume_bad s v rv es o0)"
  unfolding fetch_steps_def
proof (rule run_Cons[OF check_hold[OF _ resume_inv_grows resume_inv_guarded, where E = repo_seen]
      run_Cons[OF fetch_checked run_Cons[OF fetch_warned run_Cons[OF choose_hold run_Nil]]]])
  show "revalidate_repository (traced s) o' (w, tr) = (r, w', tr') \<Longrightarrow> log_grows tr tr' (\<lambda>S. r = None \<longrightarrow> repo_seen o' S)"
    for o' w tr r w' tr' by (rule repository_log)
  show "holds (\<lambda>ex tr. resume_inv s v rv es o0 pr ex tr \<and> has_checkout (ex_observed ex))
     (update_step (\<lambda>o' w. case refresh_checkout (traced s) o' (expected_before_switch o') w of (err, o2, w) \<Rightarrow>
       (map_option (\<lambda>t. LPlain (''refresh checkout after fetch: '' @ t)) err, o2, w)) ''inspect fetched refs and retry resume'')
     (resume_inv s v rv es o0 pr) (resume_bad s v rv es o0)"
    by (rule holds_consequence[OF resume_refresh]) auto
  show "holds (\<lambda>ex tr. resume_inv s v rv es o0 pr ex tr \<and> \<not> has_checkout (ex_observed ex)) skip_step
     (resume_inv s v rv es o0 pr) (resume_bad s v rv es o0)"
    by (simp add: holds_def skip_step_def)
qed

section \<open>Creating\<close>

lemma unregistered_hold:
  assumes "grows J" and "\<And>ex tr. J ex tr \<Longrightarrow> R tr"
  shows "holds J (unregistered_step (traced s) (Some 0) f c d) (\<lambda>ex tr. J ex tr \<and> recent (topology_seen (ex_observed ex) 0) tr) R"
  unfolding holds_def
proof (intro allI impI)
  fix ex :: execution and w tr
  let ?o = "ex_observed ex"
  assume j: "J ex tr"
  obtain r w' tr' where b: "branch_checkout_count (traced s) ?o (w, tr) = (r, w', tr')" by (metis prod_cases3)
  note l = count_log[OF b]
  have inv: "J ex tr'" using j l assms(1) unfolding grows_def by blast
  have "recent (topology_seen ?o 0) tr'" if "r = Inr 0" using recent_log[OF l] that by (auto elim!: recent_weaken)
  then show "case unregistered_step (traced s) (Some 0) f c d ex (w, tr) of (err, ex', w', tr') \<Rightarrow>
      if err = None then J ex' tr' \<and> recent (topology_seen (ex_observed ex') 0) tr' else R tr'"
    using b inv assms(2)[OF inv] by (auto simp: unregistered_step_def split: sum.splits)
qed

lemma same_task_seen: "same_task a b \<Longrightarrow> topology_seen a n = topology_seen b n" "same_task a b \<Longrightarrow> base_seen a base = base_seen b base"
    "same_task a b \<Longrightarrow> branch_seen a = branch_seen b" "same_task a b \<Longrightarrow> rebuild_request v e base a = rebuild_request v e base b"
  by (auto simp: same_task_def topology_seen_def base_seen_def branch_seen_def rebuild_request_def fun_eq_iff)

abbreviation resume_based ::
  "'w life_service \<Rightarrow> resume_options \<Rightarrow> string \<Rightarrow> effect list \<Rightarrow> life_observation \<Rightarrow> resume_progress \<Rightarrow> string \<Rightarrow> assertion" where
  "resume_based s v rv es o0 pr base ex tr \<equiv> resume_inv s v rv es o0 pr ex tr \<and> recent (base_seen (ex_observed ex) base) tr"

lemma create_hold:
  assumes "e \<in> set es" and "e_code e = ''create-worktree''"
  shows "holds (\<lambda>ex tr. resume_based s v rv es o0 pr base ex tr \<and> recent (topology_seen (ex_observed ex) 0) tr)
    (run_step (traced s) e (create_operation (traced s) v e base) a) (resume_inv s v rv es o0 pr) (resume_bad s v rv es o0)"
proof (rule run_rule)
  fix ex :: execution and w tr d err ex' w' tr' st
  let ?o = "ex_observed ex"
  assume j: "resume_based s v rv es o0 pr base ex tr \<and> recent (topology_seen ?o 0) tr"
    and run: "create_operation (traced s) v e base ex (w, tr) = ((d, err), ex', w', tr')"
  obtain x where c: "tr' = tr @ [CreateWorktree (rebuild_request v e base ?o) x]" "ex_observed ex' = ?o" "ex_revision ex' = ex_revision ex"
    "ex_resume_handle ex' = ex_resume_handle ex"
    using create_one_call[OF run] by blast
  have t: "same_task o0 ?o" "ex_revision ex = rv" using j by (simp_all add: resume_inv_def)
  have ok: "resume_call_ok s v rv es o0 tr (CreateWorktree (rebuild_request v e base ?o) x)"
    unfolding resume_call_ok.simps same_task_seen(4)[OF t(1)] using j assms
    by (metis same_task_seen(1,2)[OF t(1)] same_task_seen(4)[OF t(1)])
  have inv: "resume_inv s v rv es o0 pr ex tr" using j by simp
  have "resume_inv s v rv es o0 pr (ex'\<lparr>ex_steps := st\<rparr>) tr'"
    unfolding c(1) by (rule resume_inv_snoc[OF inv ok]) (use t c in simp_all)
  then show "if err = None then resume_inv s v rv es o0 pr (ex'\<lparr>ex_steps := st\<rparr>) tr' else resume_bad s v rv es o0 tr'"
    by (auto dest: resume_inv_guarded)
qed

lemma registered_hold:
  "holds (resume_inv s v rv es o0 pr) (registered_step (traced s)) (resume_inv s v rv es o0 pr) (resume_bad s v rv es o0)"
  unfolding holds_def
proof (intro allI impI)
  fix ex :: execution and w tr
  assume j: "resume_inv s v rv es o0 pr ex tr"
  have grown: "resume_inv s v rv es o0 pr ex (tr @ [Resolve p q x])" for p q x
    using j resume_inv_grows[of s v rv es o0 pr] log_growsI[of "tr @ [Resolve p q x]" tr "[Resolve p q x]" "\<lambda>S. True"]
    unfolding grows_def by auto
  have moved: "resume_inv s v rv es o0 pr (ex\<lparr>ex_observed := (ex_observed ex)\<lparr>lo_worktree := a, lo_worktree_found := f, lo_worktree_err := b,
      lo_checkout := p\<rparr>\<rparr>) tr'" if "resume_inv s v rv es o0 pr ex tr'" for a f b p tr'
    using that by (auto simp: resume_inv_def same_task_def)
  show "case registered_step (traced s) ex (w, tr) of (err, ex', w', tr') \<Rightarrow>
      if err = None then resume_inv s v rv es o0 pr ex' tr' else resume_bad s v rv es o0 tr'"
    using grown moved[OF grown] resume_inv_guarded[OF grown]
    by (simp add: registered_step_def logged_call_def split: prod.splits option.splits)
qed

lemma rebuild_run:
  assumes "e \<in> set es" and "e_code e = ''create-worktree''"
  shows "run_holds (resume_based s v rv es o0 pr base) (rebuild_steps (traced s) v e base) (resume_inv s v rv es o0 pr) (resume_bad s v rv es o0)"
proof -
  have g: "grows (resume_based s v rv es o0 pr base)"
    by (rule grows_recent[OF resume_inv_grows]) (intro resume_monos)
  show ?thesis
    unfolding rebuild_steps_def
    by (rule run_Cons[OF unregistered_hold[OF g] run_Cons[OF create_hold[OF assms] run_Cons[OF registered_hold
        run_Cons[OF _ run_Nil]]]]) (auto simp: refresh_step_def intro: resume_refresh dest: resume_inv_guarded)
qed

lemma rebuild_hold:
  assumes "e \<in> set es" and "e_code e = ''create-worktree''"
  shows "holds (resume_inv s v rv es o0 pr) (rebuild_step (traced s) v e) (resume_inv s v rv es o0 pr) (resume_bad s v rv es o0)"
  unfolding holds_def
proof (intro allI impI)
  fix ex :: execution and w tr
  let ?o = "ex_observed ex" and ?branch = "t_branch (lo_task (ex_observed ex))"
  assume j: "resume_inv s v rv es o0 pr ex tr"
  obtain l err w1 where r1: "ls_ref_state s (lo_repo_path ?o) (local_branch_ref ?branch) w = ((l, err), w1)" by (metis surj_pair)
  obtain r err2 w2 where r2: "ls_ref_state s (lo_repo_path ?o) (lo_remote_branch ?o) w1 = ((r, err2), w2)" by (metis surj_pair)
  let ?c1 = "RefState (lo_repo_path ?o) (local_branch_ref ?branch) (l, err)"
  let ?c2 = "RefState (lo_repo_path ?o) (lo_remote_branch ?o) (r, err2)"
  have inv: "resume_inv s v rv es o0 pr ex (tr @ ys)" if "quiet ys" for ys
    using j resume_inv_grows[of s v rv es o0 pr] log_growsI[OF refl that, of "\<lambda>S. True"] unfolding grows_def by blast
  define base where "base = (if l then ?branch else lo_remote_branch ?o)"
  have rec: "recent (base_seen ?o base) (tr @ [?c1, ?c2])" if "err = None" "err2 = None" "l \<or> r"
    by (rule recentI) (use that in \<open>auto simp: base_def base_seen_def branch_seen_def\<close>)
  have nested: "case nested_steps (rebuild_steps (traced s) v e base) ex (w2, tr @ [?c1, ?c2]) of (err, ex', w', tr') \<Rightarrow>
      if err = None then resume_inv s v rv es o0 pr ex' tr' else resume_bad s v rv es o0 tr'"
    if "err = None" "err2 = None" "l \<or> r"
    using nested_hold[OF rebuild_run[OF assms, of s v rv o0 pr base]] rec[OF that] inv[of "[?c1, ?c2]"]
    unfolding holds_def by auto
  have bad: "resume_bad s v rv es o0 (tr @ [?c1])" "resume_bad s v rv es o0 (tr @ [?c1, ?c2])"
    using resume_inv_guarded[OF inv] by simp_all
  show "case rebuild_step (traced s) v e ex (w, tr) of (err, ex', w', tr') \<Rightarrow>
      if err = None then resume_inv s v rv es o0 pr ex' tr' else resume_bad s v rv es o0 tr'"
    using r1 r2 nested bad unfolding base_def
    by (cases err; cases err2) (auto simp: rebuild_step_def logged_call_def Let_def)
qed

section \<open>Switching, opening and recording\<close>

lemma switch_call: "resume_switch_operation (traced s) ex (w, tr) = ((d, err), ex', w', tr') \<Longrightarrow>
    (\<exists>x. tr' = tr @ [GitRun (lo_repo_path (ex_observed ex)) [''switch'', t_branch (lo_task (ex_observed ex))] x]) \<and> ex' = ex"
  by (auto simp: resume_switch_operation_def logged_call_def Let_def split: prod.splits)

lemma open_call: "open_operation (traced s) ex (w, tr) = ((d, err), ex', w', tr') \<Longrightarrow>
    (\<exists>x. tr' = tr @ [OpenRuntime (runtime_name (lo_runtime (ex_observed ex))) (lo_checkout (ex_observed ex))
        (resume_runtime_label (lo_task (ex_observed ex))) x] \<and> (err = None \<longrightarrow> x = (ex_resume_handle ex', None))) \<and>
    ex_observed ex' = ex_observed ex \<and> ex_revision ex' = ex_revision ex"
  by (auto simp: open_operation_def logged_call_def Let_def split: prod.splits option.splits if_splits)

lemma hot_call: "hot_operation (traced s) ex (w, tr) = ((d, err), ex', w', tr') \<Longrightarrow> tr' = tr \<or>
    (\<exists>x. tr' = tr @ [TaskUpdate (hot_candidate (ls_host s) ex) (ex_revision ex) x]) \<and>
    (runtime_name (lo_runtime (ex_observed ex)) = ''none'' \<or> ex_resume_name ex \<noteq> [] \<and> ex_resume_handle ex \<noteq> [])"
  by (auto simp: hot_operation_def hot_candidate_def logged_call_def Let_def split: prod.splits option.splits if_splits)

lemma writer_step:
  assumes "grows J" and "viewed J" and "\<And>ex tr. J ex tr \<Longrightarrow> R tr"
  shows "holds J (occupancy_step (traced s) c a) (\<lambda>ex tr. J ex tr \<and> recent (writer_seen s (ex_observed ex)) tr) R"
  unfolding occupancy_step_def by (rule update_seen[OF _ assms]) (rule occupied_log)

lemma resume_checkout_refresh: "revalidate_resume_checkout s o' w = (r, o2, w') \<Longrightarrow>
    \<exists>err. refresh_checkout s o' (t_branch (lo_task o')) w = (err, o2, w') \<and> (r = None \<longleftrightarrow> err = None)"
  by (auto simp: revalidate_resume_checkout_def split: prod.splits)

lemma verified_step:
  assumes "grows J" and "viewed J" and "\<And>ex tr. J ex tr \<Longrightarrow> R tr"
  shows "holds J (update_step (revalidate_resume_checkout (traced s)) a)
    (\<lambda>ex tr. J ex tr \<and> recent (checkout_verified (ex_observed ex)) tr) R"
proof (rule update_seen[OF _ assms])
  fix o' w tr r o2 w' tr'
  assume g: "revalidate_resume_checkout (traced s) o' (w, tr) = (r, o2, w', tr')"
  obtain err where e: "refresh_checkout (traced s) o' (t_branch (lo_task o')) (w, tr) = (err, o2, w', tr')" "r = None \<longleftrightarrow> err = None"
    using resume_checkout_refresh[OF g] by (elim exE conjE)
  show "log_grows tr tr' (\<lambda>S. r = None \<longrightarrow> checkout_verified o2 S) \<and> same_view o' o2"
    using refresh_verified[OF e(1)] refresh_view[OF e(1)] view_checkout[OF refresh_view[OF e(1)]] e(2) by simp
qed

abbreviation resume_verified ::
  "'w life_service \<Rightarrow> resume_options \<Rightarrow> string \<Rightarrow> effect list \<Rightarrow> life_observation \<Rightarrow> resume_progress \<Rightarrow> assertion" where
  "resume_verified s v rv es o0 pr ex tr \<equiv> resume_inv s v rv es o0 pr ex tr \<and> recent (checkout_verified (ex_observed ex)) tr"

abbreviation resume_entered ::
  "'w life_service \<Rightarrow> resume_options \<Rightarrow> string \<Rightarrow> effect list \<Rightarrow> life_observation \<Rightarrow> resume_progress \<Rightarrow> assertion" where
  "resume_entered s v rv es o0 pr ex tr \<equiv> resume_verified s v rv es o0 pr ex tr \<and> recent (writer_seen s (ex_observed ex)) tr"

lemma verified_keeps: "grows (resume_verified s v rv es o0 pr)" "viewed (resume_verified s v rv es o0 pr)"
  by (rule grows_recent[OF resume_inv_grows], intro resume_monos)
    (rule viewed_recent[OF resume_inv_viewed view_checkout])

lemma entered_steps:
  assumes "run_holds (resume_entered s v rv es o0 pr) ms Q (resume_bad s v rv es o0)"
  shows "run_holds (resume_inv s v rv es o0 pr)
    (update_step (revalidate_resume_checkout (traced s)) a # occupancy_step (traced s) c b # ms) Q (resume_bad s v rv es o0)"
  by (rule run_Cons[OF verified_step[OF resume_inv_grows resume_inv_viewed resume_inv_guarded]
      run_Cons[OF writer_step[OF verified_keeps] assms]]) (auto dest: resume_inv_guarded)

lemma switch_run:
  "run_holds (resume_inv s v rv es o0 pr)
    [occupancy_step (traced s) c a, check_step (ensure_branch_switch_boundary (traced s)) a2,
     run_step (traced s) e (resume_switch_operation (traced s)) a3, refresh_step (traced s) prefix None a4]
    (resume_inv s v rv es o0 pr) (resume_bad s v rv es o0)"
proof (rule run_Cons[OF writer_step[OF resume_inv_grows resume_inv_viewed resume_inv_guarded]
      run_Cons[OF check_hold[where E = "\<lambda>o' S. switchable o' \<and> baseline_seen o' S \<and> branch_seen o' S"]
        run_Cons[OF run_rule run_Cons[OF _ run_Nil]]]])
  show "ensure_branch_switch_boundary (traced s) o' (w, tr) = (r, w', tr') \<Longrightarrow>
      log_grows tr tr' (\<lambda>S. r = None \<longrightarrow> switchable o' \<and> baseline_seen o' S \<and> branch_seen o' S)" for o' w tr r w' tr'
    by (rule switch_boundary_log)
  show "grows (\<lambda>ex tr. resume_inv s v rv es o0 pr ex tr \<and> recent (writer_seen s (ex_observed ex)) tr)"
    by (rule grows_recent[OF resume_inv_grows]) (intro resume_monos)
  show "holds (resume_inv s v rv es o0 pr) (refresh_step (traced s) prefix None a4) (resume_inv s v rv es o0 pr) (resume_bad s v rv es o0)"
    unfolding refresh_step_def by (rule resume_refresh) (rule refl)
next
  fix ex :: execution and w tr d err ex' w' tr' st
  let ?o = "ex_observed ex"
  assume j: "(resume_inv s v rv es o0 pr ex tr \<and> recent (writer_seen s ?o) tr) \<and>
      recent (\<lambda>S. switchable ?o \<and> baseline_seen ?o S \<and> branch_seen ?o S) tr"
    and run: "resume_switch_operation (traced s) ex (w, tr) = ((d, err), ex', w', tr')"
  obtain x where c: "tr' = tr @ [GitRun (lo_repo_path ?o) [''switch'', t_branch (lo_task ?o)] x]" "ex' = ex"
    using switch_call[OF run] by blast
  have t: "same_task o0 ?o" "ex_revision ex = rv" using j by (simp_all add: resume_inv_def)
  have at: "lo_repo_path ?o = lo_repo_path o0" "lo_task ?o = lo_task o0" using t(1) by (simp_all add: same_task_def)
  have ev: "switchable ?o" "recent (baseline_seen ?o) tr" "recent (branch_seen o0) tr"
    using j same_task_seen(3)[OF t(1)] unfolding recent_def by auto
  have ok: "resume_call_ok s v rv es o0 tr (GitRun (lo_repo_path ?o) [''switch'', t_branch (lo_task ?o)] x)"
    unfolding resume_call_ok.simps fetch_args_def at using j t(1) ev by simp blast
  have "resume_inv s v rv es o0 pr (ex'\<lparr>ex_steps := st\<rparr>) tr'"
    unfolding c by (rule resume_inv_snoc[OF conjunct1[OF conjunct1[OF j]] ok]) (use t in simp_all)
  then show "if err = None then resume_inv s v rv es o0 pr (ex'\<lparr>ex_steps := st\<rparr>) tr' else resume_bad s v rv es o0 tr'"
    by (auto dest: resume_inv_guarded)
qed (auto dest: resume_inv_guarded)

lemma open_hold:
  "holds (\<lambda>ex tr. resume_entered s v rv es o0 pr ex tr \<and>
      \<not> saved_handle_live (lo_occupancy (ex_observed ex)) (t_runtime_handle (lo_task (ex_observed ex))))
    (run_step (traced s) e (open_operation (traced s)) a) (resume_inv s v rv es o0 (pr\<lparr>rp_opened := True\<rparr>)) (resume_bad s v rv es o0)"
proof (rule run_rule)
  fix ex :: execution and w tr d err ex' w' tr' st
  let ?o = "ex_observed ex"
  assume j: "resume_entered s v rv es o0 pr ex tr \<and> \<not> saved_handle_live (lo_occupancy ?o) (t_runtime_handle (lo_task ?o))"
    and run: "open_operation (traced s) ex (w, tr) = ((d, err), ex', w', tr')"
  let ?c = "OpenRuntime (runtime_name (lo_runtime ?o)) (lo_checkout ?o) (resume_runtime_label (lo_task ?o))"
  obtain x where c: "tr' = tr @ [?c x]" "err = None \<longrightarrow> x = (ex_resume_handle ex', None)"
    "ex_observed ex' = ?o" "ex_revision ex' = ex_revision ex"
    using open_call[OF run] by blast
  have t: "same_task o0 ?o" "ex_revision ex = rv" using j by (simp_all add: resume_inv_def)
  have at: "lo_runtime ?o = lo_runtime o0" "lo_task ?o = lo_task o0" using t(1) by (simp_all add: same_task_def)
  have ok: "resume_call_ok s v rv es o0 tr (?c x)"
    unfolding resume_call_ok.simps at using j t(1) at by auto
  then have g: "resume_bad s v rv es o0 tr'" "unwritten tr'"
    using j unfolding c(1) by (auto simp: resume_inv_def guarded_snoc resume_guard_def)
  have "resume_inv s v rv es o0 (pr\<lparr>rp_opened := True\<rparr>) (ex'\<lparr>ex_steps := st\<rparr>) tr'" if "err = None"
    using g t c that by (auto simp: resume_inv_def)
  then show "if err = None then resume_inv s v rv es o0 (pr\<lparr>rp_opened := True\<rparr>) (ex'\<lparr>ex_steps := st\<rparr>) tr' else resume_bad s v rv es o0 tr'"
    using g by simp
qed

lemma hot_hold:
  "holds (\<lambda>ex tr. resume_entered s v rv es o0 pr ex tr \<and>
      \<not> (runtime_name (lo_runtime (ex_observed ex)) \<noteq> ''none'' \<and> \<not> rp_opened pr \<and> t_runtime_handle (lo_task (ex_observed ex)) \<noteq> [] \<and>
        \<not> saved_handle_live (lo_occupancy (ex_observed ex)) (t_runtime_handle (lo_task (ex_observed ex)))))
    (run_step (traced s) e (hot_operation (traced s)) a) (\<lambda>ex. resume_bad s v rv es o0) (resume_bad s v rv es o0)"
proof (rule run_rule)
  fix ex :: execution and w tr d err ex' w' tr' st
  let ?o = "ex_observed ex"
  assume j: "resume_entered s v rv es o0 pr ex tr \<and>
      \<not> (runtime_name (lo_runtime ?o) \<noteq> ''none'' \<and> \<not> rp_opened pr \<and> t_runtime_handle (lo_task ?o) \<noteq> [] \<and>
        \<not> saved_handle_live (lo_occupancy ?o) (t_runtime_handle (lo_task ?o)))"
    and run: "hot_operation (traced s) ex (w, tr) = ((d, err), ex', w', tr')"
  have t: "same_task o0 ?o" "ex_revision ex = rv" "unwritten tr" "resume_bad s v rv es o0 tr" using j by (simp_all add: resume_inv_def)
  have at: "lo_runtime ?o = lo_runtime o0" "lo_task ?o = lo_task o0" using t(1) by (simp_all add: same_task_def)
  have known: "handle_known ex tr" if "ex_resume_name ex \<noteq> []" "ex_resume_handle ex \<noteq> []" "runtime_name (lo_runtime ?o) \<noteq> ''none''"
    using j that at by (cases "rp_opened pr") (auto simp: resume_inv_def handle_known_def)
  have "resume_bad s v rv es o0 tr'"
    using hot_call[OF run]
  proof
    assume "(\<exists>x. tr' = tr @ [TaskUpdate (hot_candidate (ls_host s) ex) (ex_revision ex) x]) \<and>
      (runtime_name (lo_runtime ?o) = ''none'' \<or> ex_resume_name ex \<noteq> [] \<and> ex_resume_handle ex \<noteq> [])"
    then obtain x where c: "tr' = tr @ [TaskUpdate (hot_candidate (ls_host s) ex) rv x]"
      "runtime_name (lo_runtime o0) = ''none'' \<or> handle_known ex tr" using known at t(2) by auto
    have "resume_call_ok s v rv es o0 tr (TaskUpdate (hot_candidate (ls_host s) ex) rv x)"
      unfolding resume_call_ok.simps using j t(1) c(2) by blast
    then show ?thesis using t(3,4) unfolding c(1) by (simp add: guarded_snoc resume_guard_def)
  qed (use t(4) in simp)
  then show "if err = None then resume_bad s v rv es o0 tr' else resume_bad s v rv es o0 tr'" by simp
qed

section \<open>The loop\<close>

lemma resume_update_steps:
  assumes "e_code e = ''update-task''"
  shows "run_holds (resume_inv s v rv es o0 pr) (resume_steps (traced s) v i pr e) (\<lambda>ex. resume_bad s v rv es o0) (resume_bad s v rv es o0)"
  using assms
  by (simp add: resume_steps_def Let_def)
    (rule entered_steps[OF run_Cons[OF pure_check run_Cons[OF hot_hold run_Nil]]],
      auto simp: handle_lost_def dest: resume_inv_guarded)

lemma resume_progress_inv:
  "resume_inv s v rv es o0 pr ex tr \<Longrightarrow> e_code e \<noteq> ''open-runtime'' \<Longrightarrow> resume_inv s v rv es o0 (resume_progress_after e pr) ex tr"
  by (cases "rp_opened pr") (simp_all add: resume_inv_def resume_progress_after_def)

lemma run_holds_post: "run_holds P ms Q R \<Longrightarrow> (\<And>ex tr. Q ex tr \<Longrightarrow> Q' ex tr) \<Longrightarrow> run_holds P ms Q' R"
  unfolding run_holds_def by (fastforce split: prod.splits)

lemma open_run:
  assumes "e_code e = ''open-runtime''"
  shows "run_holds (resume_inv s v rv es o0 pr) (resume_steps (traced s) v i pr e)
    (resume_inv s v rv es o0 (pr\<lparr>rp_opened := True\<rparr>)) (resume_bad s v rv es o0)"
  using assms
  by (simp add: resume_steps_def Let_def)
    (rule entered_steps[OF run_Cons[OF pure_check run_Cons[OF open_hold run_Nil]]], auto simp: opened_early_def dest: resume_inv_guarded)

lemma create_run:
  assumes "e_code e = ''create-worktree''" and "e \<in> set es"
  shows "run_holds (resume_inv s v rv es o0 pr) (resume_steps (traced s) v i pr e) (resume_inv s v rv es o0 pr) (resume_bad s v rv es o0)"
proof -
  have refs: "holds (resume_inv s v rv es o0 pr) (check_step (revalidate_resume_refs (traced s) x) a) (resume_inv s v rv es o0 pr)
      (resume_bad s v rv es o0)" for x a
    by (rule holds_consequence[OF check_hold[OF _ resume_inv_grows resume_inv_guarded, where E = "\<lambda>o' S. True"]])
      (auto dest: refs_log)
  show ?thesis
    using assms(1) by (simp add: resume_steps_def Let_def) (rule run_Cons[OF refs run_Cons[OF rebuild_hold[OF assms(2,1)] run_Nil]])
qed

lemma resume_effect_steps:
  assumes "e_code e \<noteq> ''update-task''" and "e \<in> set es"
  shows "run_holds (resume_inv s v rv es o0 pr) (resume_steps (traced s) v i pr e)
    (resume_inv s v rv es o0 (resume_progress_after e pr)) (resume_bad s v rv es o0)"
proof -
  consider "e_code e = ''fetch-refs''" | "e_code e = ''create-worktree''" | "e_code e = ''switch-branch''" | "e_code e = ''open-runtime''" |
    "e_code e \<notin> {''fetch-refs'', ''create-worktree'', ''switch-branch'', ''open-runtime'', ''update-task''}"
    using assms by blast
  then show ?thesis
  proof cases
    case 1
    then show ?thesis by (simp add: resume_steps_def Let_def) (rule run_holds_post[OF fetch_run], auto intro: resume_progress_inv)
  next
    case 2
    then show ?thesis by (rule run_holds_post[OF create_run[OF _ assms(2)]]) (simp add: 2 resume_progress_inv)
  next
    case 3
    then show ?thesis by (simp add: resume_steps_def Let_def) (rule run_holds_post[OF switch_run], auto intro: resume_progress_inv)
  next
    case 4
    then show ?thesis using open_run[OF 4] by (simp add: resume_progress_after_def)
  next
    case 5
    then show ?thesis by (auto simp: resume_steps_def Let_def run_holds_def dest: resume_inv_guarded)
  qed
qed

lemma resume_loop_guarded:
  assumes "task_written_last es" and "set es \<subseteq> set es0" and "resume_inv s v rv es0 o0 pr ex tr"
    and "resume_loop (traced s) v i pr es ex (w, tr) = (err, ex', w', tr')"
  shows "resume_bad s v rv es0 o0 tr'"
  using assms
proof (induction es arbitrary: pr ex w tr)
  case Nil
  then show ?case by (auto dest: resume_inv_guarded)
next
  case (Cons e es)
  obtain err1 ex1 w1 tr1 where run: "run_steps (resume_steps (traced s) v i pr e) ex (w, tr) = (err1, ex1, w1, tr1)"
    by (metis surj_pair)
  show ?case
  proof (cases "e_code e = ''update-task''")
    case True
    then have "es = []" using Cons.prems(1) by (cases es) (auto simp: task_written_last_def)
    moreover have "resume_bad s v rv es0 o0 tr1"
      using run_holdsD[OF resume_update_steps[OF True] Cons.prems(3) run] by (auto split: if_splits)
    ultimately show ?thesis using Cons.prems(4) run by (auto split: option.splits)
  next
    case False
    have "e \<in> set es0" "set es \<subseteq> set es0" using Cons.prems(2) by auto
    note step = run_holdsD[OF resume_effect_steps[OF False this(1)] Cons.prems(3) run]
    have "task_written_last es" using Cons.prems(1) by (cases es) (auto simp: task_written_last_def)
    then show ?thesis
      using Cons.IH[of "resume_progress_after e pr" ex1 tr1 w1] Cons.prems(2,4) run step
      by (cases err1) auto
  qed
qed

lemma resume_effects_last: "task_written_last (resume_effects o' v)"
  by (auto simp: task_written_last_def resume_effects_def Let_def new_effect_def butlast_append split: if_splits)

lemma resume_guarded:
  assumes "task_written_last (execution_effects (ex_plan ex))" and "quiet tr0" and "ex_resume_handle ex = []"
    and "apply_resume (traced s) v ex (w, tr0) = (err, ex', w', tr)"
  shows "guarded (resume_guard s v (ex_revision ex) (execution_effects (ex_plan ex)) (ex_observed ex)) tr"
proof (rule resume_loop_guarded[OF assms(1) subset_refl _ assms(4)[unfolded apply_resume_def]])
  show "resume_inv s v (ex_revision ex) (execution_effects (ex_plan ex)) (ex_observed ex) \<lparr>rp_opened = False, rp_changed = False\<rparr>
      (resume_start ex) tr0"
    using assms(2,3) guarded_quiet[OF assms(2), of _ "[]"]
    by (simp add: resume_inv_def resume_start_def Let_def quiet_unwritten)
qed


end
