(* ===== verification/ResumeDemo.thy ===== *)
theory ResumeDemo
  imports ResumeGuard ParkDemo
begin

text \<open>
  A WARM task resumed by the service of \<open>ParkDemo\<close>: its checkout is verified, a runtime is opened on it,
  and the task is written HOT with the handle of that runtime.
\<close>

section \<open>The observation\<close>

definition free_occupancy :: life_occupancy where
  "free_occupancy = no_occupancy\<lparr>oc_session_list := \<lparr>ob_supported = True, ob_attempted = True, ob_failed = False\<rparr>\<rparr>"

definition idle_service :: "unit life_service" where
  "idle_service = (steady_service 0)\<lparr>ls_inspect_occupancy := \<lambda>_ _ _. Pair (free_occupancy, None)\<rparr>"

definition resumed_view :: life_observation where
  "resumed_view = (parked_view 0)\<lparr>lo_task := parked_task\<lparr>t_state := state_warm\<rparr>, lo_occupancy := free_occupancy\<rparr>"

definition resume_choice :: resume_options where
  "resume_choice = \<lparr>rs_fetch_refs = False, rs_no_provision = False, rs_take_ownership = False\<rparr>"

definition resuming :: execution where
  "resuming = fresh_execution (park_plan (resume_effects resumed_view resume_choice)) resumed_view ''1''"

lemma resuming_codes: "map e_code (execution_effects (ex_plan resuming)) = [''open-runtime'', ''update-task'']"
  by code_simp

lemma resuming_two:
  obtains e u where "execution_effects (ex_plan resuming) = [e, u]" "e_code e = ''open-runtime''" "e_code u = ''update-task''"
  using resuming_codes by (auto simp: map_eq_Cons_conv)

lemma resuming_last: "task_written_last (execution_effects (ex_plan resuming))"
  by (rule resuming_two) (simp add: task_written_last_def)

lemma resumed_fields [simp]: "lo_repo_path resumed_view = ''/r''" "lo_checkout resumed_view = ''/w''" "lo_runtime resumed_view = Some ''tmux''"
  "t_branch (lo_task resumed_view) = ''b''" "t_base (lo_task resumed_view) = []" "t_runtime_handle (lo_task resumed_view) = []"
  "lo_occupancy resumed_view = free_occupancy" "lo_occupancy_err resumed_view = None" "\<not> lo_saved_live resumed_view"
  "lo_mode resumed_view = mode_worktree"
  by (simp_all add: resumed_view_def parked_view_def parked_task_def)

lemma resuming_fields [simp]: "ex_observed resuming = resumed_view" "ex_revision resuming = ''1''" "ex_resume_handle resuming = []"
  by (simp_all add: resuming_def fresh_execution_def)

lemma idle_fields [simp]: "ls_host idle_service = ''host''" "ls_resolve_worktree idle_service a b = Pair (parked_worktree, None)"
  "ls_status idle_service a = Pair (parked_status 0, None)" "ls_in_progress idle_service a = Pair ([], False, None)"
  "ls_git_run idle_service a as = Pair (''h'', None)" "ls_inspect_occupancy idle_service a b oo = Pair (free_occupancy, None)"
  "ls_open_runtime idle_service a b c = Pair (''s'', None)" "\<not> ls_allow_shared idle_service"
  "ls_task_update idle_service t a = Pair (Some \<lparr>tr_task = t, tr_revision = ''2''\<rparr>, None)"
  by (simp_all add: idle_service_def steady_service_def)

section \<open>Its calls\<close>

definition occupied_read :: call where
  "occupied_read = Occupied ''tmux'' ''/w'' (strict_options idle_service) (free_occupancy, None)"

lemma resumed_refresh: "revalidate_resume_checkout (traced idle_service) resumed_view ((), tr) = (None, resumed_view, (), tr @ git_reads 0)"
proof -
  have "refresh_kind_error resumed_view parked_worktree = None"
    by (simp add: refresh_kind_error_def parked_worktree_def resumed_view_def parked_view_def is_linked_worktree_def fresh_worktree_def
        fail_if_def checks.simps)
  moreover have "wt_branch (rw_worktree parked_worktree) = ''b''" "wt_head (rw_worktree parked_worktree) = ''h''"
    "gs_branch (parked_status 0) = ''b''" "\<not> gs_detached (parked_status 0)" "gs_upstream (parked_status 0) = ''u''"
    by (simp_all add: parked_worktree_def parked_status_def)
  moreover have "resumed_view\<lparr>lo_worktree := parked_worktree, lo_status := parked_status 0, lo_status_err := None,
       lo_head := ''h'', lo_head_err := None, lo_base_oid := [], lo_base_oid_err := None,
       lo_upstream_oid := ''h'', lo_upstream_oid_err := None, lo_operation := [],
       lo_in_progress := False, lo_operation_err := None\<rparr> = resumed_view"
    by (simp add: resumed_view_def parked_view_def)
  ultimately show ?thesis
    by (simp add: revalidate_resume_checkout_def refresh_checkout_def resolve_ref_oid_def git_reads_def steady_simps)
qed

lemma free_writer: "strict_occupancy_error free_occupancy None = None"
  by code_simp

lemma resumed_occupancy: "revalidate_resume_occupancy (traced idle_service) resumed_view c ((), tr) =
    (None, resumed_view, (), tr @ [occupied_read])"
proof -
  have "resumed_view\<lparr>lo_occupancy := free_occupancy, lo_occupancy_err := None, lo_saved_live := False\<rparr> = resumed_view"
    by (simp add: resumed_view_def parked_view_def)
  then show ?thesis
    by (simp add: revalidate_resume_occupancy_def writer_occupancy_error_def free_writer runtime_name_def occupied_read_def steady_simps
        strict_options_def saved_handle_live_def)
qed

lemma resuming_start: "ex_observed (resume_start resuming) = resumed_view" "ex_revision (resume_start resuming) = ''1''"
  by (simp_all add: resume_start_def Let_def)

lemma surely_no_handle: "\<not> saved_handle_live free_occupancy []"
  by (simp add: saved_handle_live_def)

definition opened_calls :: "call list" where
  "opened_calls = git_reads 0 @ [occupied_read, OpenRuntime ''tmux'' ''/w'' (resume_runtime_label (lo_task resumed_view)) (''s'', None)]"

lemma resuming_run: "\<exists>ex' t. apply_resume (traced idle_service) resume_choice resuming ((), []) =
    (None, ex', (), (opened_calls @ git_reads 0 @ [occupied_read]) @ TaskUpdate t ''1'' (Some \<lparr>tr_task = t, tr_revision = ''2''\<rparr>, None) # []) \<and>
    t_state t = state_hot \<and> t_runtime_handle t = ''s''"
proof -
  obtain e u where es: "execution_effects (ex_plan resuming) = [e, u]" "e_code e = ''open-runtime''" "e_code u = ''update-task''"
    by (rule resuming_two)
  show ?thesis unfolding apply_resume_def es(1)
    by (simp add: resume_steps_def es Let_def update_step_def check_step_def occupancy_step_def resuming_start resumed_refresh[simplified]
        resumed_occupancy[simplified] opened_early_def handle_lost_def surely_no_handle run_step_def parked_run open_operation_def
        hot_operation_def hot_candidate_def resume_progress_after_def opened_calls_def runtime_name_def steady_simps)
qed


end
