(* ===== verification/LifeObserve.thy ===== *)
theory LifeObserve
  imports ResumeApply
begin

text \<open>
  \<open>taskflow/lifecycle_observe.go\<close>: what a plan to park or resume a task is made from. The locator of the
  request is checked, the recorded task must be the selected one, and one observation reads the
  repository, the checkout, the refs and the runtime in the order of the code; the plan follows from it.
  The completion actions, which these functions also serve, are not modelled.
\<close>

section \<open>The locator and the record\<close>

definition id_char :: "char \<Rightarrow> bool" where
  "id_char c \<longleftrightarrow> c \<in> set ''ABCDEFGHIJKLMNOPQRSTUVWXYZabcdefghijklmnopqrstuvwxyz0123456789._-''"

definition exact_task_id :: "string \<Rightarrow> bool" where
  \<comment> \<open>\<open>^[A-Za-z0-9._-]+$\<close>\<close>
  "exact_task_id i \<longleftrightarrow> i \<noteq> [] \<and> list_all id_char i"

definition validate_lifecycle_locator :: "locator \<Rightarrow> flow_error option" where
  "validate_lifecycle_locator l = fail_if
    (l_task_id l = [] \<or>
     \<not> exact_task_id (l_task_id l) \<or> filepath_base (l_task_id l) \<noteq> l_task_id l \<or> l_task_id l = ''.'' \<or> l_task_id l = ''..'' \<or>
     l_task_revision l = [] \<or> l_repo_path l = [] \<or> l_git_common_dir l = [] \<or> l_branch l = [] \<or>
     \<not> valid_mode (l_mode l) \<or> \<not> valid_state (l_state l)) (FInvalidRequest None)"

abbreviation (input) stale_reason :: flow_error where
  \<comment> \<open>a \<open>StalePlanError\<close> with a reason only\<close>
  "stale_reason \<equiv> FStalePlan [] [] [] []"

definition stale_task_revision :: "string \<Rightarrow> string \<Rightarrow> flow_error" where
  "stale_task_revision expected actual = FStalePlan [] [] expected actual"

definition validate_record_identity :: "'w life_service \<Rightarrow> locator \<Rightarrow> task_record \<Rightarrow> 'w \<Rightarrow> flow_error option" where
  "validate_record_identity s l r w =
    (let t = tr_task r; mode = effective_mode t in
     if tr_revision r \<noteq> l_task_revision l then Some (stale_task_revision (l_task_revision l) (tr_revision r))
     else if l_task_id l \<noteq> t_id t \<or> l_mode l \<noteq> mode \<or> l_state l \<noteq> t_state t \<or> l_branch l \<noteq> t_branch t \<or> l_base l \<noteq> t_base t
     then Some stale_reason
     else case ls_pathx s (l_repo_path l) w of (selected_repo, err) \<Rightarrow>
     if err \<noteq> None then Some stale_reason
     else case ls_pathx s (t_repo_path t) w of (recorded_repo, err) \<Rightarrow>
     if err \<noteq> None \<or> selected_repo \<noteq> recorded_repo then Some stale_reason
     else case (if mode \<noteq> mode_worktree then (recorded_repo, None)
         else if t_worktree t = [] then ([], None) else ls_pathx s (t_worktree t) w) of (expected, err) \<Rightarrow>
     if err \<noteq> None then Some stale_reason
     else case (if l_checkout_path l = [] then ([], None) else ls_pathx s (l_checkout_path l) w) of (selected, err) \<Rightarrow>
     fail_if (err \<noteq> None \<or> selected \<noteq> expected) stale_reason)"

section \<open>The observation\<close>

definition no_inspection :: inspection where
  "no_inspection = \<lparr>in_target = [], in_sessions = [], in_closed_sessions = 0, in_blockers = [], in_unknown_sessions = [],
    in_active_sessions = [], in_runtime_unknown = False, in_caller_contained = False, in_process_sessions = []\<rparr>"

definition unobserved :: "'w life_service \<Rightarrow> task_record \<Rightarrow> life_observation" where
  \<comment> \<open>the caller and the record; everything else has its zero value\<close>
  "unobserved s r = \<lparr>lo_host = ls_host s, lo_cwd = ls_cwd s, lo_workspace = ls_workspace s, lo_pane = ls_pane s,
    lo_record = r, lo_task = tr_task r, lo_mode = effective_mode (tr_task r), lo_repo_path = [], lo_common_dir = [],
    lo_checkout = [], lo_worktree = no_worktree, lo_worktree_found = False, lo_worktree_err = None, lo_branch_matches = 0,
    lo_status = no_status, lo_status_err = None, lo_head = [], lo_head_err = None, lo_base_oid = [], lo_base_oid_err = None,
    lo_upstream_oid = [], lo_upstream_oid_err = None, lo_operation = [], lo_in_progress = False, lo_operation_err = None,
    lo_runtime = None, lo_runtime_err = None, lo_runtime_available = False, lo_cleanup = no_inspection, lo_cleanup_err = None,
    lo_artifact = no_artifacts, lo_artifact_err = None, lo_base_ref = [], lo_base_ref_exists = False, lo_base_ref_err = None,
    lo_local_exists = False, lo_local_oid = [], lo_local_oid_err = None, lo_remote_branch = [], lo_remote_exists = False,
    lo_remote_oid = [], lo_remote_oid_err = None, lo_occupancy = no_occupancy, lo_occupancy_err = None, lo_saved_live = False,
    lo_desired = [], lo_desired_err = None\<rparr>"

definition observe_repository ::
  "'w life_service \<Rightarrow> locator \<Rightarrow> life_observation \<Rightarrow> 'w \<Rightarrow> (flow_error + life_observation) \<times> 'w" where
  \<comment> \<open>the first part of \<open>observeLifecycle\<close>\<close>
  "observe_repository s l o' w =
    (case ls_discover s (t_repo_path (lo_task o')) w of
       (Inl e, w) \<Rightarrow> (Inl (FInvalidRequest None), w)
     | (Inr repo, w) \<Rightarrow>
       (let (main, main_err) = ls_canonical s (gr_main_root repo) w;
            (common, common_err) = ls_canonical s (gr_common_dir repo) w;
            (recorded, recorded_err) = ls_canonical s (t_repo_path (lo_task o')) w;
            (requested, requested_err) = ls_canonical s (l_git_common_dir l) w;
            (key, key_err) = ls_canonical s (l_repo_key l) w
        in case checks
          [fail_if (main_err \<noteq> None) (FInvalidRequest None), fail_if (common_err \<noteq> None) (FInvalidRequest None),
           fail_if (recorded_err \<noteq> None) (FInvalidRequest None), fail_if (recorded \<noteq> main) stale_reason,
           fail_if (requested_err \<noteq> None) (FInvalidRequest None), fail_if (requested \<noteq> common) stale_reason,
           fail_if (is_abs (l_repo_key l) \<and> key_err \<noteq> None) (FInvalidRequest None),
           fail_if (is_abs (l_repo_key l) \<and> key \<noteq> common) stale_reason] of
          Some e \<Rightarrow> (Inl e, w)
        | None \<Rightarrow> (Inr (o'\<lparr>lo_repo_path := main, lo_common_dir := common\<rparr>), w)))"

definition registered_as :: "registered_worktree \<times> worktree_error option \<Rightarrow> life_observation \<Rightarrow> life_observation" where
  "registered_as a o' = (case a of (registered, err) \<Rightarrow>
    let o' = o'\<lparr>lo_worktree := registered, lo_worktree_err := err\<rparr>
    in if err = None then o'\<lparr>lo_worktree_found := True, lo_checkout := rw_path registered\<rparr> else o')"

definition observe_registered :: "'w life_service \<Rightarrow> string \<Rightarrow> life_observation \<Rightarrow> 'w \<Rightarrow> life_observation \<times> 'w" where
  \<comment> \<open>the worktree registered at a path\<close>
  "observe_registered s path o' w =
    (case ls_resolve_worktree s (lo_repo_path o') path w of (a, w) \<Rightarrow> (registered_as a o', w))"

definition not_found_text :: string where
  "not_found_text = ''registered worktree not found''"

definition observe_parked_branch :: "'w life_service \<Rightarrow> life_observation \<Rightarrow> 'w \<Rightarrow> life_observation \<times> 'w" where
  \<comment> \<open>the search of \<open>observeCheckout\<close> for a checkout of a parked task's branch\<close>
  "observe_parked_branch s o' w =
    (case ls_worktrees s (lo_repo_path o') w of
       (Inl e, w) \<Rightarrow> (o'\<lparr>lo_worktree_err := Some \<lparr>we_text = ''list worktrees for parked-task resume: '' @ e, we_not_found = False\<rparr>\<rparr>, w)
     | (Inr ws, w) \<Rightarrow>
       (let found = filter (\<lambda>x. wt_branch x = t_branch (lo_task o')) ws; o' = o'\<lparr>lo_branch_matches := length found\<rparr> in
        case found of
          [] \<Rightarrow> (if lo_worktree_err o' = None
             then o'\<lparr>lo_worktree_err := Some \<lparr>we_text = not_found_text @ '': branch '' @ t_branch (lo_task o') @ '' has no checkout'',
               we_not_found = True\<rparr>\<rparr> else o', w)
        | [x] \<Rightarrow> observe_registered s (wt_path x) o' w
        | _ \<Rightarrow> (o'\<lparr>lo_worktree_err := Some \<lparr>we_text = ''registered worktree path is ambiguous: branch '' @ t_branch (lo_task o') @
             '' has '' @ dec_of (length found) @ '' registered checkouts'', we_not_found = False\<rparr>\<rparr>, w)))"

definition observe_checkout :: "'w life_service \<Rightarrow> string \<Rightarrow> life_observation \<Rightarrow> 'w \<Rightarrow> life_observation \<times> 'w" where
  "observe_checkout s action o' w =
    (if lo_mode o' = mode_branch \<or> lo_mode o' = mode_direct then observe_registered s (lo_repo_path o') o' w
     else if lo_mode o' = mode_worktree then
       (case (if t_worktree (lo_task o') = [] then (o', w) else observe_registered s (t_worktree (lo_task o')) o' w) of (o', w) \<Rightarrow>
         if lo_worktree_found o' \<or> action \<noteq> resume \<or> \<not> parked o' then (o', w) else observe_parked_branch s o' w)
     else (o', w))"

definition observe_git :: "'w life_service \<Rightarrow> life_observation \<Rightarrow> 'w \<Rightarrow> life_observation \<times> 'w" where
  \<comment> \<open>the Git evidence of a checkout that is there\<close>
  "observe_git s o' w =
    (if \<not> has_checkout o' then (o', w)
     else case ls_status s (lo_checkout o') w of ((status, status_err), w) \<Rightarrow>
     let o' = o'\<lparr>lo_status := status, lo_status_err := status_err\<rparr> in
     if status_err \<noteq> None then (o', w)
     else case ls_git_run s (lo_checkout o') head_args w of ((head, head_err), w) \<Rightarrow>
     case resolve_ref_oid s (lo_repo_path o') (t_base (lo_task o')) w of ((base_oid, base_err), w) \<Rightarrow>
     case resolve_ref_oid s (lo_repo_path o') (gs_upstream status) w of ((upstream_oid, upstream_err), w) \<Rightarrow>
     case ls_in_progress s (lo_checkout o') w of ((operation, active, operation_err), w) \<Rightarrow>
     (o'\<lparr>lo_head := trim_space head, lo_head_err := head_err, lo_base_oid := base_oid, lo_base_oid_err := base_err,
        lo_upstream_oid := upstream_oid, lo_upstream_oid_err := upstream_err, lo_operation := operation,
        lo_in_progress := active, lo_operation_err := operation_err\<rparr>, w))"

definition observe_ref :: "'w life_service \<Rightarrow> string \<Rightarrow> string \<Rightarrow> 'w \<Rightarrow> (bool \<times> string \<times> string option) \<times> 'w" where
  \<comment> \<open>whether a ref exists, the commit it names and the error of the two reads\<close>
  "observe_ref s dir ref w =
    (case ls_ref_state s dir ref w of ((there, err), w) \<Rightarrow>
     if there \<and> err = None
     then (case resolve_ref_oid s dir ref w of ((oid, err), w) \<Rightarrow> ((there, oid, err), w))
     else ((there, [], err), w))"

definition observe_branches :: "'w life_service \<Rightarrow> life_observation \<Rightarrow> 'w \<Rightarrow> life_observation \<times> 'w" where
  "observe_branches s o' w =
    (let branch = t_branch (lo_task o'); remote_branch = ''origin/'' @ branch in
     case observe_ref s (lo_repo_path o') (local_branch_ref branch) w of ((local, local_oid, local_err), w) \<Rightarrow>
     case observe_ref s (lo_repo_path o') remote_branch w of ((remote, remote_oid, remote_err), w) \<Rightarrow>
     (o'\<lparr>lo_local_exists := local, lo_local_oid := local_oid, lo_local_oid_err := local_err, lo_remote_branch := remote_branch,
        lo_remote_exists := remote, lo_remote_oid := remote_oid, lo_remote_oid_err := remote_err\<rparr>, w))"

definition observe_base :: "'w life_service \<Rightarrow> life_observation \<Rightarrow> 'w \<Rightarrow> life_observation \<times> 'w" where
  \<comment> \<open>whether the base ref of the observation exists, when it has one\<close>
  "observe_base s o' w =
    (if lo_base_ref o' = [] then (o', w)
     else case ls_ref_state s (lo_repo_path o') (lo_base_ref o') w of ((there, err), w) \<Rightarrow>
       (o'\<lparr>lo_base_ref_exists := there, lo_base_ref_err := err\<rparr>, w))"

definition observe_cold_base :: "'w life_service \<Rightarrow> life_observation \<Rightarrow> 'w \<Rightarrow> life_observation \<times> 'w" where
  \<comment> \<open>case \<open>ParkCold\<close> of \<open>observeActionRefs\<close>\<close>
  "observe_cold_base s o' w =
    (if lo_mode o' \<noteq> mode_branch then (o', w)
     else case (if t_base (lo_task o') \<noteq> [] then (t_base (lo_task o'), w) else ls_default_branch s (lo_repo_path o') w) of
       (base, w) \<Rightarrow> observe_base s (o'\<lparr>lo_base_ref := base\<rparr>) w)"

definition rebuild_base :: "life_observation \<Rightarrow> life_observation" where
  \<comment> \<open>the base of a checkout to be rebuilt: the local branch, else the published one\<close>
  "rebuild_base o' =
    (if lo_local_exists o' then o'\<lparr>lo_base_ref := t_branch (lo_task o'), lo_base_ref_exists := True, lo_base_ref_err := lo_local_oid_err o'\<rparr>
     else if lo_remote_oid_err o' \<noteq> None then o'\<lparr>lo_base_ref := lo_remote_branch o', lo_base_ref_err := lo_remote_oid_err o'\<rparr>
     else o'\<lparr>lo_base_ref := lo_remote_branch o', lo_base_ref_exists := lo_remote_exists o'\<rparr>)"

definition observe_destination :: "'w life_service \<Rightarrow> life_observation \<Rightarrow> 'w \<Rightarrow> life_observation" where
  \<comment> \<open>where the checkout will be rebuilt\<close>
  "observe_destination s o' w =
    (let t = lo_task o'; (path, err) = (if t_state t = state_warm \<and> t_worktree t \<noteq> [] then ls_canonical s (t_worktree t) w
        else ls_render_worktree s t w)
     in o'\<lparr>lo_desired := path, lo_desired_err := (if err = None then ls_validate_target s path (lo_repo_path o') w else err)\<rparr>)"

definition observe_resume_base :: "'w life_service \<Rightarrow> life_observation \<Rightarrow> 'w \<Rightarrow> life_observation \<times> 'w" where
  \<comment> \<open>case \<open>Resume\<close> of \<open>observeActionRefs\<close>\<close>
  "observe_resume_base s o' w =
    (let o' = o'\<lparr>lo_base_ref := t_base (lo_task o')\<rparr> in
     if lo_mode o' = mode_worktree \<and> \<not> has_checkout o' then
       (if parked o' then observe_destination s (rebuild_base o') w else rebuild_base o', w)
     else observe_base s (if lo_remote_exists o' then o'\<lparr>lo_base_ref := lo_remote_branch o'\<rparr> else o') w)"

definition observe_refs :: "'w life_service \<Rightarrow> string \<Rightarrow> life_observation \<Rightarrow> 'w \<Rightarrow> life_observation \<times> 'w" where
  \<comment> \<open>\<open>observeActionRefs\<close>\<close>
  "observe_refs s action o' w =
    (case observe_branches s o' w of (o', w) \<Rightarrow>
     if action = park_cold then observe_cold_base s o' w
     else if action = resume then observe_resume_base s o' w else (o', w))"

definition validate_live_locator :: "locator \<Rightarrow> life_observation \<Rightarrow> flow_error option" where
  "validate_live_locator l o' =
    (if lo_status_err o' = None \<and> has_checkout o' then
       fail_if (l_upstream l \<noteq> gs_upstream (lo_status o') \<or> l_head_oid l \<noteq> [] \<and> l_head_oid l \<noteq> lo_head o' \<or>
         l_base_oid l \<noteq> [] \<and> l_base_oid l \<noteq> lo_base_oid o' \<or> l_upstream_oid l \<noteq> [] \<and> l_upstream_oid l \<noteq> lo_upstream_oid o') stale_reason
     else checks
       [fail_if (\<not> has_checkout o' \<and> l_head_oid l \<noteq> [] \<and> (lo_local_oid_err o' \<noteq> None \<or> l_head_oid l \<noteq> lo_local_oid o')) stale_reason,
        fail_if (\<not> has_checkout o' \<and> l_upstream_oid l \<noteq> [] \<and> l_upstream l = lo_remote_branch o' \<and>
          (lo_remote_oid_err o' \<noteq> None \<or> l_upstream_oid l \<noteq> lo_remote_oid o')) stale_reason])"

section \<open>The runtime\<close>

definition runtime_for :: "'w life_service \<Rightarrow> task \<Rightarrow> string + string" where
  "runtime_for s t =
    (let recorded = t_runtime_handle t \<noteq> [] \<and> t_runtime_name t \<noteq> []; name = t_runtime_name t;
         backend = (if recorded then ls_named_runtime s name else ls_default_runtime s)
     in case backend of
          None \<Rightarrow> Inl (if recorded then ''recorded runtime backend '' @ quote_go (ls_printable s) name @ '' is unavailable''
            else ''taskflow runtime resolver returned no backend'')
        | Some n \<Rightarrow>
          if recorded \<and> n \<noteq> name then Inl (''recorded runtime backend '' @ quote_go (ls_printable s) name @ '' resolved to '' @
            quote_go (ls_printable s) n)
          else if trim_space n = [] then Inl ''taskflow runtime resolver returned no backend'' else Inr n)"

definition observe_cleanup :: "'w life_service \<Rightarrow> closure_flags \<Rightarrow> life_observation \<Rightarrow> 'w \<Rightarrow> life_observation \<times> 'w" where
  "observe_cleanup s f o' w =
    (case ls_inspect_cleanup s (runtime_name (lo_runtime o')) (lo_checkout o') (flag_options o' f) w of ((i, err), w) \<Rightarrow>
      (o'\<lparr>lo_cleanup := i, lo_cleanup_err := err\<rparr>, w))"

definition observe_action_runtime :: "'w life_service \<Rightarrow> action_options \<Rightarrow> life_observation \<Rightarrow> 'w \<Rightarrow> life_observation \<times> 'w" where
  "observe_action_runtime s options o' w =
    (case options of
       ParkWarmO v \<Rightarrow> if pw_keep_session v \<or> \<not> has_checkout o' then (o', w) else observe_cleanup s (warm_flags v) o' w
     | ParkColdO v \<Rightarrow>
       if \<not> has_checkout o' then (o', w)
       else case observe_cleanup s (cold_flags v) o' w of (o', w) \<Rightarrow>
         if lo_mode o' = mode_worktree \<and> observed_linked o'
         then (case ls_inspect_artifacts s (lo_checkout o') w of ((a, err), w) \<Rightarrow> (o'\<lparr>lo_artifact := a, lo_artifact_err := err\<rparr>, w))
         else (o', w)
     | ResumeO v \<Rightarrow>
       if \<not> has_checkout o' then (o', w)
       else (case ls_inspect_occupancy s (runtime_name (lo_runtime o')) (lo_checkout o') (strict_options s) w of ((oc, err), w) \<Rightarrow>
         (o'\<lparr>lo_occupancy := oc, lo_occupancy_err := err,
            lo_saved_live := (if writer_occupancy_error (ls_allow_shared s) oc err = None
              then saved_handle_live oc (t_runtime_handle (lo_task o')) else lo_saved_live o')\<rparr>, w))
     | _ \<Rightarrow> (o', w))"

definition observe_runtime :: "'w life_service \<Rightarrow> action_options \<Rightarrow> life_observation \<Rightarrow> 'w \<Rightarrow> life_observation \<times> 'w" where
  \<comment> \<open>the end of \<open>observeLifecycle\<close>\<close>
  "observe_runtime s options o' w =
    (case runtime_for s (lo_task o') of
       Inl e \<Rightarrow> (o'\<lparr>lo_runtime := None, lo_runtime_err := Some e\<rparr>, w)
     | Inr n \<Rightarrow> observe_action_runtime s options
         (o'\<lparr>lo_runtime := Some n, lo_runtime_err := None, lo_runtime_available := ls_available s n w\<rparr>) w)"

definition observe_lifecycle ::
  "'w life_service \<Rightarrow> locator \<Rightarrow> string \<Rightarrow> action_options \<Rightarrow> task_record \<Rightarrow> 'w \<Rightarrow> (flow_error + life_observation) \<times> 'w" where
  "observe_lifecycle s l action options r w =
    (case observe_repository s l (unobserved s r) w of
       (Inl e, w) \<Rightarrow> (Inl e, w)
     | (Inr o', w) \<Rightarrow>
       case observe_checkout s action o' w of (o', w) \<Rightarrow>
       case observe_git s o' w of (o', w) \<Rightarrow>
       case observe_refs s action o' w of (o', w) \<Rightarrow>
       case validate_live_locator l o' of Some e \<Rightarrow> (Inl e, w)
       | None \<Rightarrow> case observe_runtime s options o' w of (o', w) \<Rightarrow> (Inr o', w))"

end
