(* ===== verification/LifeService.thy ===== *)
theory LifeService
  imports LifeObserve
begin

text \<open>
  The handlers of the lifecycle service for the two parking actions and the resume: the plan
  (\<open>planSpec\<close>, \<open>observeAndSpecify\<close>, \<open>decorateSubmodules\<close>) and its application under the locks of the
  repository and the task store (\<open>applyGuarded\<close>), which rebuilds the plan and compares it with the
  approved one before anything is changed.
\<close>

section \<open>Submodules\<close>

definition recursive_request :: "frequest \<Rightarrow> bool \<times> bool" where
  "recursive_request q = (case q_options q of
      OVal (ParkColdO v) \<Rightarrow> (pc_recursive v, l_mode (q_locator q) = mode_worktree)
    | OVal (RetireO v) \<Rightarrow> (rt_recursive v, l_mode (q_locator q) = mode_worktree)
    | OVal (RemoveCheckoutO v) \<Rightarrow> (rc_recursive v, True)
    | _ \<Rightarrow> (False, False))"

definition is_completion_action :: "string \<Rightarrow> bool" where
  "is_completion_action a \<longleftrightarrow> a \<in> {complete_direct, complete_ff, review_handoff, verify_merged}"

definition integration_required :: "frequest \<Rightarrow> bool" where
  \<comment> \<open>\<open>submoduleIntegrationRequired\<close>\<close>
  "integration_required q = (case q_options q of
      OVal (RemoveCheckoutO v) \<Rightarrow> rc_require_contained v
    | _ \<Rightarrow> q_action q = retire \<or> is_completion_action (q_action q))"

definition set_entry :: "string \<Rightarrow> string \<Rightarrow> string_map \<Rightarrow> string_map" where
  \<comment> \<open>\<open>m[k] = v\<close>\<close>
  "set_entry k v m = filter (\<lambda>p. fst p \<noteq> k) m @ [(k, v)]"

definition with_authority :: "string \<Rightarrow> string \<Rightarrow> plan_spec \<Rightarrow> plan_spec" where
  "with_authority k v spec = spec\<lparr>ps_authority := set_entry k v (ps_authority spec)\<rparr>"

definition with_condition :: "condition \<Rightarrow> plan_spec \<Rightarrow> plan_spec" where
  "with_condition c spec = spec\<lparr>ps_conditions := ps_conditions spec @ [c]\<rparr>"

definition removal_effect :: "submodule_graph \<Rightarrow> bool \<Rightarrow> effect \<Rightarrow> effect" where
  \<comment> \<open>the removal of a worktree with its children\<close>
  "removal_effect g blank e =
    (if e_code e \<noteq> ''remove-worktree'' then e
     else new_effect (e_code e)
       (if blank then ''recheck empty submodule layout, prune empty administration directories, then remove outer checkout''
        else ''stage verified children inside-out, remove outer checkout, then dispose private child clones'')
       (e_target e) True (e_network e)
       (set_entry ''private-child-clones''
         (if blank then ''none; only reviewed empty administration directories may be pruned''
          else ''dispose after fresh remote proof; preserve outer branch'')
         (set_entry ''submodule-order'' (join_str '' -> '' (map sn_path (filter sn_initialized (rev (sg_nodes g))))) (fields_map (e_details e)))))"

definition with_recursion :: "submodule_graph \<Rightarrow> bool \<Rightarrow> plan_spec \<Rightarrow> plan_spec" where
  "with_recursion g blank spec = spec\<lparr>ps_effects := map (removal_effect g blank) (ps_effects spec),
    ps_confirmation := (ps_confirmation spec)\<lparr>cf_prompt := cf_prompt (ps_confirmation spec) @
      (if blank then '' This includes only reviewed empty submodule directories; no child repository is disposed.''
       else '' This includes private submodule refs and objects after fresh recovery proof.'')\<rparr>\<rparr>"

definition with_disposal :: "submodule_graph \<Rightarrow> bool \<Rightarrow> bool \<Rightarrow> string option \<Rightarrow> string option \<Rightarrow> plan_spec \<Rightarrow> plan_spec" where
  \<comment> \<open>the branch of \<open>decorateSubmodules\<close> for an action that removes the checkout\<close>
  "with_disposal g blank recursive removal removal_err spec =
    (let spec = (case removal of None \<Rightarrow> spec | Some layout \<Rightarrow> with_authority ''submodule-removal'' layout spec);
         spec = with_condition (mk_condition ''submodules-disposable'' (if removal_err = None then verdict_met else verdict_blocked)
           requirement_required
           (case removal_err of Some e \<Rightarrow> e
            | None \<Rightarrow> if blank then ''only absent or empty gitlinks and directory-only administration remain; local recursive cleanup needs no child remote proof''
              else ''all child repositories pass local disposal checks; fresh remote proof runs before mutation'')
           ''preserve/finish every child, then explicitly request --recursive'') spec
     in if recursive then with_recursion g blank spec else spec\<lparr>ps_fallback := ps_fallback spec @ '' --recursive''\<rparr>)"

definition with_claims :: "string \<Rightarrow> bool \<Rightarrow> string \<times> string option \<Rightarrow> plan_spec \<Rightarrow> plan_spec" where
  "with_claims root blank claims spec = (case claims of (hash, err) \<Rightarrow>
    let spec = with_condition (mk_condition ''submodule-claims'' (if err = None then verdict_met else verdict_blocked) requirement_required
          (case err of Some e \<Rightarrow> e | None \<Rightarrow> ''child task and artifact observations are complete'')
          ''finish child task/artifact ownership before parent cleanup'') (with_authority ''submodule-claims'' hash spec)
    in spec\<lparr>ps_effects := new_effect effect_verify_submodules
         (if blank then ''revalidate empty submodule layout and child ownership locally''
          else ''verify every initialized submodule against fresh recovery-origin refs'') root False (\<not> blank) [] # ps_effects spec\<rparr>)"

definition decorate_submodules :: "'w life_service \<Rightarrow> frequest \<Rightarrow> plan_spec \<Rightarrow> string \<Rightarrow> 'w \<Rightarrow> plan_spec \<times> 'w" where
  "decorate_submodules s q spec root w =
    (if root = [] \<or> ls_git_absent s root w then (spec, w)
     else case ls_submodules s root w of
       (Inl e, w) \<Rightarrow> (with_condition (mk_condition ''submodules-observed'' verdict_error requirement_required e
          ''repair submodule observation'') spec, w)
     | (Inr g, w) \<Rightarrow>
       case recursive_request q of (recursive, cleanup) \<Rightarrow>
       case (if cleanup then ls_inspect_removal s root recursive (integration_required q) w else ((None, None), w)) of
         ((removal, removal_err), w) \<Rightarrow>
       if sg_nodes g = [] \<and> removal = None \<and> removal_err = None then (spec, w)
       else let spec = with_authority ''submodules'' (sg_fingerprint g) spec in
       case ls_submodule_repo s root w of (Inl e, w) \<Rightarrow> (spec, w)
       | (Inr common, w) \<Rightarrow>
       case ls_submodule_intent s common (l_branch (q_locator q)) w of
         (Inl e, w) \<Rightarrow> (with_condition (mk_condition ''submodule-intent'' verdict_error requirement_required e ''repair workspace intent'') spec, w)
       | (Inr rv, w) \<Rightarrow>
       let spec = with_authority ''submodules.recursive'' (bool_text recursive) (with_authority ''submodule-intent'' rv spec);
           blank = (cleanup \<and> removal \<noteq> None \<and> removal \<noteq> Some [] \<and> (\<forall>n \<in> set (sg_nodes g). \<not> sn_initialized n));
           spec = (if cleanup then with_disposal g blank recursive removal removal_err spec else spec);
           publication = (is_completion_action (q_action q) \<or> (case q_options q of OVal (ParkWarmO v) \<Rightarrow> pw_push v | _ \<Rightarrow> False))
       in if cleanup \<or> publication
          then (case ls_submodule_claims s g (l_task_id (q_locator q)) w of (claims, w) \<Rightarrow> (with_claims root blank claims spec, w))
          else (spec, w))"

section \<open>The plan\<close>

definition action_spec :: "'w life_service \<Rightarrow> frequest \<Rightarrow> life_observation \<Rightarrow> gotime \<Rightarrow> plan_spec option" where
  \<comment> \<open>the cases of the two parking actions and the resume\<close>
  "action_spec s q o' displayed =
    (case q_options q of
       OVal (ParkWarmO v) \<Rightarrow> if q_action q = park_warm
         then Some (park_warm_spec (ls_printable s) (base_authority s (ParkWarmO v) o') displayed v o') else None
     | OVal (ParkColdO v) \<Rightarrow> if q_action q = park_cold
         then Some (park_cold_spec (ls_printable s) (base_authority s (ParkColdO v) o') displayed v o') else None
     | OVal (ResumeO v) \<Rightarrow> if q_action q = resume
         then Some (resume_spec (ls_printable s) (ls_allow_shared s) (base_authority s (ResumeO v) o') displayed v o') else None
     | _ \<Rightarrow> None)"

definition observe_and_specify ::
  "'w life_service \<Rightarrow> frequest \<Rightarrow> task_record \<Rightarrow> 'w \<Rightarrow> (flow_error + plan_spec \<times> life_observation) \<times> 'w" where
  "observe_and_specify s q r w =
    (case validate_record_identity s (q_locator q) r w of Some e \<Rightarrow> (Inl e, w)
     | None \<Rightarrow> (case q_options q of
         OVal options \<Rightarrow>
           (case observe_lifecycle s (q_locator q) (q_action q) options r w of
              (Inl e, w) \<Rightarrow> (Inl e, w)
            | (Inr o', w) \<Rightarrow>
              (case action_spec s q o' (time_utc (ls_now s w)) of
                 None \<Rightarrow> (Inl (FHandlerUnavailable (q_action q) ''plan''), w)
               | Some spec \<Rightarrow> (case decorate_submodules s q spec (lo_checkout o') w of (spec, w) \<Rightarrow> (Inr (spec, o'), w))))
       | _ \<Rightarrow> (Inl (FHandlerUnavailable (q_action q) ''plan''), w)))"

definition fresh_plan ::
  "'w life_service \<Rightarrow> frequest \<Rightarrow> task_record \<Rightarrow> 'w \<Rightarrow> (flow_error + plan \<times> life_observation) \<times> 'w" where
  "fresh_plan s q r w =
    (case observe_and_specify s q r w of
       (Inl e, w) \<Rightarrow> (Inl e, w)
     | (Inr (spec, o'), w) \<Rightarrow> (case build_plan (ls_sha s) q spec of Inl e \<Rightarrow> (Inl e, w) | Inr p \<Rightarrow> (Inr (p, o'), w)))"

definition life_plan :: "'w life_service \<Rightarrow> frequest \<Rightarrow> 'w \<Rightarrow> (flow_error + plan_spec) \<times> 'w" where
  \<comment> \<open>\<open>planSpec\<close>\<close>
  "life_plan s q w =
    (if ls_ctx_error s w \<noteq> None then (Inl FPlain, w)
     else case validate_lifecycle_locator (q_locator q) of Some e \<Rightarrow> (Inl e, w)
     | None \<Rightarrow> (case ls_get_record s (l_task_id (q_locator q)) w of
         (Inl e, w) \<Rightarrow> (Inl (FInvalidRequest None), w)
       | (Inr r, w) \<Rightarrow> (case observe_and_specify s q r w of
           (Inl e, w) \<Rightarrow> (Inl e, w)
         | (Inr (spec, o'), w) \<Rightarrow> (case ls_get_record s (l_task_id (q_locator q)) w of
             (Inl e, w) \<Rightarrow> (Inl (FStalePlan [] [] (tr_revision r) []), w)
           | (Inr current, w) \<Rightarrow>
             (if tr_revision current \<noteq> tr_revision r then Inl (stale_task_revision (tr_revision r) (tr_revision current)) else Inr spec, w)))))"

section \<open>Its application\<close>

definition verify_operation :: "'w life_service \<Rightarrow> execution \<Rightarrow> 'w \<Rightarrow> (string \<times> life_error option) \<times> execution \<times> 'w" where
  "verify_operation s ex w =
    (case ls_verify_submodules s (ex_plan ex) w of (answer, w') \<Rightarrow>
      (answer, if snd answer = None then ex\<lparr>ex_removal := True\<rparr> else ex, w'))"

definition prepare_submodules :: "'w life_service \<Rightarrow> execution \<Rightarrow> 'w \<Rightarrow> life_error option \<times> execution \<times> 'w" where
  "prepare_submodules s ex w =
    (case filter (\<lambda>e. e_code e = effect_verify_submodules) (p_effects (ex_plan ex)) of
       [] \<Rightarrow> (None, ex, w)
     | e # _ \<Rightarrow> run_effect s e (verify_operation s) ex w)"

definition action_apply :: "'w life_service \<Rightarrow> plan \<Rightarrow> execution \<Rightarrow> 'w \<Rightarrow> life_error option \<times> execution \<times> 'w" where
  \<comment> \<open>the execution of the two parking actions and the resume\<close>
  "action_apply s p ex w =
    (case q_options (p_request p) of
       OVal (ParkWarmO v) \<Rightarrow> apply_park_warm s v ex w
     | OVal (ParkColdO v) \<Rightarrow> apply_park_cold s v ex w
     | OVal (ResumeO v) \<Rightarrow> apply_resume s v ex w
     | _ \<Rightarrow> (Some (LPlain ''handler unavailable''), ex, w))"

definition apply_fresh :: "'w life_service \<Rightarrow> plan \<Rightarrow> life_observation \<Rightarrow> string \<Rightarrow> 'w \<Rightarrow> flow_result \<times> flow_error option \<times> 'w" where
  \<comment> \<open>the preflight of the submodules and the effects of the plan rebuilt under the locks\<close>
  "apply_fresh s fresh o' rv w =
    (case prepare_submodules s (fresh_execution fresh o' rv) w of
       (Some e, ex, w) \<Rightarrow> (execution_result (advise ''preserve every child repository and retry'' ex), Some (flow_error_of e), w)
     | (None, ex, w) \<Rightarrow>
       (case action_apply s fresh ex w of (err, ex, w) \<Rightarrow> (execution_result ex, map_option flow_error_of err, w)))"

definition apply_locked :: "'w life_service \<Rightarrow> plan \<Rightarrow> 'w \<Rightarrow> flow_result \<times> flow_error option \<times> 'w" where
  \<comment> \<open>what \<open>applyGuarded\<close> does under the two locks\<close>
  "apply_locked s approved w =
    (let i = l_task_id (p_locator approved) in
     case ls_get_record s i w of
       (Inl e, w) \<Rightarrow> (no_result, Some (FStalePlan (p_id approved) [] [] []), w)
     | (Inr r, w) \<Rightarrow>
       (case validate_record_identity s (p_locator approved) r w of Some e \<Rightarrow> (no_result, Some e, w)
        | None \<Rightarrow> (case fresh_plan s (p_request approved) r w of
            (Inl e, w) \<Rightarrow> (no_result, Some e, w)
          | (Inr (fresh, o'), w) \<Rightarrow> (case ls_get_record s i w of
              (Inl e, w) \<Rightarrow> (no_result, Some (stale_task_revision (tr_revision r) []), w)
            | (Inr current, w) \<Rightarrow>
              if tr_revision current \<noteq> tr_revision r
              then (no_result, Some (stale_task_revision (tr_revision r) (tr_revision current)), w)
              else if p_id fresh \<noteq> p_id approved \<or> p_fingerprint fresh \<noteq> p_fingerprint approved
              then (no_result, Some (FStalePlan (p_id approved) (p_id fresh) (p_fingerprint approved) (p_fingerprint fresh)), w)
              else if p_availability fresh \<noteq> Ready
              then (no_result, Some (FInvalidPlan (p_id fresh)
                (Some (FNotReady (p_id fresh) (p_availability fresh) (p_conditions fresh)))), w)
              else apply_fresh s fresh o' (tr_revision r) w))))"

definition join_errors :: "flow_error option \<Rightarrow> string option \<Rightarrow> flow_error option" where
  \<comment> \<open>the error of the operation and that of the release\<close>
  "join_errors err released = (case err of Some e \<Rightarrow> Some e | None \<Rightarrow> map_option (\<lambda>_. FPlain) released)"

definition apply_guarded :: "'w life_service \<Rightarrow> string \<Rightarrow> plan \<Rightarrow> 'w \<Rightarrow> flow_result \<times> flow_error option \<times> 'w" where
  "apply_guarded s action approved w =
    (if ls_ctx_error s w \<noteq> None then (no_result, Some FPlain, w)
     else if p_action approved \<noteq> action then (no_result, Some (FInvalidPlan (p_id approved) None), w)
     else case validate_lifecycle_locator (p_locator approved) of Some e \<Rightarrow> (no_result, Some e, w)
     | None \<Rightarrow>
       case ls_canonical s (l_git_common_dir (p_locator approved)) w of (common, err) \<Rightarrow>
       if err \<noteq> None then (no_result, Some (FInvalidPlan [] None), w)
       else case ls_repo_lock s common w of (Some e, w) \<Rightarrow> (no_result, Some FPlain, w)
       | (None, w) \<Rightarrow>
         case (case ls_task_lock s w of (Some e, w) \<Rightarrow> (no_result, Some FPlain, w)
             | (None, w) \<Rightarrow> (case apply_locked s approved w of (r, err, w) \<Rightarrow>
                 case ls_task_unlock s w of (released, w) \<Rightarrow> (r, join_errors err released, w))) of
           (r, err, w) \<Rightarrow> (case ls_repo_unlock s common w of (released, w) \<Rightarrow> (r, join_errors err released, w)))"

section \<open>The handlers\<close>

definition life_handler :: "'w life_service \<Rightarrow> string \<Rightarrow> 'w handler" where
  "life_handler s action = \<lparr>hd_plan = Some (life_plan s), hd_apply = Some (apply_guarded s action)\<rparr>"

definition lifecycle_handlers :: "'w life_service \<Rightarrow> (string \<rightharpoonup> 'w handler) \<Rightarrow> (string \<rightharpoonup> 'w handler)" where
  \<comment> \<open>the handlers of \<open>NewLifecycleService\<close>; those of the other actions are given\<close>
  "lifecycle_handlers s others = others(park_warm \<mapsto> life_handler s park_warm, park_cold \<mapsto> life_handler s park_cold,
    resume \<mapsto> life_handler s resume)"

end
