(* ===== verification/ResumeReady.thy ===== *)
theory ResumeReady
  imports ResumePlan ParkReady
begin

text \<open>
  When a plan to resume is ready: the conditions of \<open>ResumePlan\<close> against one closed formula over the
  observation, and the effects of a ready plan.
\<close>

section \<open>The owner\<close>

definition may_own :: "life_observation \<Rightarrow> resume_options \<Rightarrow> bool" where
  "may_own o' v \<longleftrightarrow> owned_by (lo_task o') (lo_host o') \<or> rs_take_ownership v"

lemma owner_ok: "cond_ok (resume_owner_condition o' v) \<longleftrightarrow> may_own o' v"
  by (simp add: resume_owner_condition_def may_own_def Let_def)

section \<open>A checkout that is there\<close>

definition resume_on_branch :: "life_observation \<Rightarrow> bool" where
  \<comment> \<open>the task branch is checked out, except that a branch task may be on another branch\<close>
  "resume_on_branch o' \<longleftrightarrow> (let b = t_branch (lo_task o'); st = lo_status o' in
    if lo_mode o' = mode_worktree then \<not> gs_detached st \<and> gs_branch st = b \<and> wt_branch (rw_worktree (lo_worktree o')) = b
    else if lo_mode o' = mode_direct then \<not> gs_detached st \<and> gs_branch st = b
    else if lo_mode o' = mode_branch then \<not> gs_detached st else True)"

definition switch_safe :: "life_observation \<Rightarrow> bool" where
  "switch_safe o' \<longleftrightarrow> lo_operation_err o' = None \<and> \<not> lo_in_progress o' \<and> gs_conflicted (lo_status o') = 0 \<and>
    \<not> status_dirty (lo_status o') \<and> lo_local_exists o'"

definition resume_present :: "life_observation \<Rightarrow> bool" where
  "resume_present o' \<longleftrightarrow> exact_checkout o' \<and> right_kind o' \<and> lo_status_err o' = None \<and> resume_on_branch o' \<and>
    (resume_needs_switch o' \<longrightarrow> switch_safe o')"

lemma resume_kind_ok: "fst (resume_kind_verdict o') = verdict_met \<longleftrightarrow> right_kind o'"
  by (auto simp: resume_kind_verdict_def right_kind_def)

lemma resume_branch_ok: "fst (resume_branch_verdict pr o') = verdict_met \<longleftrightarrow> resume_on_branch o'"
  by (auto simp: resume_branch_verdict_def resume_on_branch_def Let_def)

lemma resume_operation_ok: "fst (resume_operation_verdict o') = verdict_met \<longleftrightarrow> lo_operation_err o' = None \<and> \<not> lo_in_progress o'"
  by (auto simp: resume_operation_verdict_def split: option.splits)

lemma resume_status_ok: "list_all cond_ok (resume_status_conditions pr o') \<longleftrightarrow> lo_status_err o' = None \<and> resume_on_branch o' \<and>
    (resume_needs_switch o' \<longrightarrow> switch_safe o')"
proof (cases "lo_status_err o'")
  case None
  have mode: "resume_needs_switch o' \<Longrightarrow> lo_mode o' = mode_branch" by (simp add: resume_needs_switch_def)
  obtain bv be where b: "resume_branch_verdict pr o' = (bv, be)" by (metis surj_pair)
  obtain ov oe where v: "resume_operation_verdict o' = (ov, oe)" by (metis surj_pair)
  show ?thesis
    using None resume_branch_ok[of pr o'] resume_operation_ok[of o'] mode
    by (auto simp: resume_status_conditions_def Let_def b v switch_safe_def)
qed (simp add: resume_status_conditions_def)

section \<open>A checkout that is absent\<close>

definition branch_available :: "life_observation \<Rightarrow> bool \<Rightarrow> bool" where
  \<comment> \<open>a branch to rebuild from is known, or the declared fetch may bring it\<close>
  "branch_available o' fetch \<longleftrightarrow> lo_local_oid_err o' = None \<and>
    (lo_local_exists o' \<or> lo_remote_oid_err o' = None \<and> (lo_remote_exists o' \<or> fetch))"

definition rebuildable :: "life_observation \<Rightarrow> resume_options \<Rightarrow> bool" where
  "rebuildable o' v \<longleftrightarrow> rebuild_allowed o' \<and> branch_available o' (rs_fetch_refs v) \<and>
    lo_desired_err o' = None \<and> lo_desired o' \<noteq> [] \<and>
    lo_base_ref o' \<noteq> [] \<and> lo_base_ref_err o' = None \<and> (lo_base_ref_exists o' \<or> rs_fetch_refs v)"

lemma missing_ok: "fst (missing_verdict o') = verdict_met \<longleftrightarrow> rebuild_allowed o'"
  by (auto simp: missing_verdict_def split: option.splits)

lemma branch_ref_ok: "fst (branch_ref_verdict o' fetch) = verdict_met \<longleftrightarrow> branch_available o' fetch"
  by (auto simp: branch_ref_verdict_def branch_available_def split: option.splits)

lemma destination_ok: "cond_ok (destination_condition o') \<longleftrightarrow> lo_desired_err o' = None \<and> lo_desired o' \<noteq> []"
  by (auto simp: destination_condition_def split: option.splits)

lemma rebuild_base_ok: "cond_ok (rebuild_base_condition o' fetch) \<longleftrightarrow>
    lo_base_ref o' \<noteq> [] \<and> lo_base_ref_err o' = None \<and> (lo_base_ref_exists o' \<or> fetch)"
  by (auto simp: rebuild_base_condition_def split: option.splits)

lemma resume_absent_ok: "list_all cond_ok (resume_absent_conditions o' v) \<longleftrightarrow> rebuildable o' v"
proof -
  have mode: "rebuild_allowed o' \<Longrightarrow> lo_mode o' = mode_worktree \<and> parked o'" by (simp add: rebuild_allowed_def)
  obtain mv me where m: "missing_verdict o' = (mv, me)" by (metis surj_pair)
  obtain bv be where b: "branch_ref_verdict o' (rs_fetch_refs v) = (bv, be)" by (metis surj_pair)
  show ?thesis
    using missing_ok[of o'] branch_ref_ok[of o' "rs_fetch_refs v"] mode
    by (auto simp: resume_absent_conditions_def m b rebuildable_def destination_ok rebuild_base_ok)
qed

lemma resume_checkout_ok: "list_all cond_ok (resume_checkout_conditions pr o' v) \<longleftrightarrow>
    (if has_checkout o' then resume_present o' else rebuildable o' v)"
proof (cases "has_checkout o'")
  case True
  obtain ev ee where e: "checkout_exact_verdict pr o' = (ev, ee)" by (metis surj_pair)
  obtain kv ke where k: "resume_kind_verdict o' = (kv, ke)" by (metis surj_pair)
  show ?thesis
    using True exact_verdict[of pr o'] resume_kind_ok[of o']
    by (auto simp: resume_checkout_conditions_def e k resume_present_def resume_status_ok)
qed (simp add: resume_checkout_conditions_def resume_absent_ok)

section \<open>The runtime\<close>

definition occupancy_free :: "bool \<Rightarrow> life_observation \<Rightarrow> bool" where
  "occupancy_free allow_shared o' \<longleftrightarrow>
    (if has_checkout o' then writer_occupancy_error allow_shared (lo_occupancy o') (lo_occupancy_err o') = None
     else allow_shared \<or> runtime_name (lo_runtime o') \<noteq> ''none'')"

lemma resume_occupancy_ok: "fst (resume_occupancy_verdict shared o') = verdict_met \<longleftrightarrow>
    writer_occupancy_error shared (lo_occupancy o') (lo_occupancy_err o') = None"
  by (auto simp: resume_occupancy_verdict_def Let_def split: option.splits)

lemma absent_occupancy_ok: "fst (absent_occupancy_verdict shared o') = verdict_met \<longleftrightarrow> shared \<or> runtime_name (lo_runtime o') \<noteq> ''none''"
  by (auto simp: absent_occupancy_verdict_def)

lemma resume_runtime_ok: "list_all cond_ok (resume_runtime_conditions shared o') \<longleftrightarrow>
    lo_runtime_err o' = None \<and> runtime_usable o' \<and> occupancy_free shared o'"
  using available_ok[of o'] resume_occupancy_ok[of shared o'] absent_occupancy_ok[of shared o']
  by (auto simp: resume_runtime_conditions_def three_runtime_conditions_def occupancy_free_def split: option.splits prod.splits)

section \<open>The plan\<close>

definition resumable :: "bool \<Rightarrow> life_observation \<Rightarrow> resume_options \<Rightarrow> bool" where
  "resumable allow_shared o' v \<longleftrightarrow> may_own o' v \<and>
    (if has_checkout o' then resume_present o' else rebuildable o' v) \<and>
    lo_runtime_err o' = None \<and> runtime_usable o' \<and> occupancy_free allow_shared o'"

lemma resume_ready_formula:
  "availability_for (ps_conditions (resume_spec pr shared authority displayed v o')) = Ready \<longleftrightarrow> resumable shared o' v"
  by (auto simp: resume_spec_def ready_cond_ok resume_conditions_def owner_ok resume_checkout_ok resume_runtime_ok resumable_def)


lemma strict_occupancy_none: "strict_occupancy_error oc err = None \<longleftrightarrow>
    occupancy_observation_error oc err = None \<and> (\<forall>a \<in> set (oc_agents oc). \<not> oa_blocking a)"
  by (auto simp: strict_occupancy_error_def Let_def filter_empty_conv split: option.splits)

lemma resume_codes:
  "map e_code (resume_effects o' v) =
    filter (\<lambda>c. c = ''fetch-refs'' \<and> rs_fetch_refs v \<or> c = ''create-worktree'' \<and> resume_rebuilds o' \<or>
        c = ''switch-branch'' \<and> resume_needs_switch o' \<or> c = ''open-runtime'' \<and> should_open_runtime o' \<or> c = ''update-task'')
      [''fetch-refs'', ''create-worktree'', ''switch-branch'', ''open-runtime'', ''update-task'']"
  by (simp add: resume_effects_def Let_def task_update_effect_def new_effect_def)

end
