(* ===== verification/LifeGuard.thy ===== *)
theory LifeGuard
  imports LifeService ResumeGuard ResumeReady ParkWarm
begin

text \<open>
  The guard of the lifecycle handlers: a plan only reads; an application changes something only when the
  plan rebuilt under the locks is the approved one and ready, and then in the order of \<open>ParkGuard\<close>,
  \<open>ParkWarm\<close> and \<open>ResumeGuard\<close>.
\<close>

section \<open>Functions that only read\<close>

definition only_reads :: "('w \<times> call list \<Rightarrow> 'r \<times> 'w \<times> call list) \<Rightarrow> bool" where
  \<comment> \<open>the calls they add to the log change nothing\<close>
  "only_reads f \<longleftrightarrow> (\<forall>w tr. case f (w, tr) of (r, w', tr') \<Rightarrow> \<exists>ys. tr' = tr @ ys \<and> quiet ys)"

named_theorems reads

lemma reads_done [reads]: "only_reads (\<lambda>w. (r w, w))"
  by (simp add: only_reads_def)

lemma reads_bind [reads]: "only_reads f \<Longrightarrow> (\<And>x. only_reads (g x)) \<Longrightarrow> only_reads (\<lambda>w. case f w of (x, w') \<Rightarrow> g x w')"
  unfolding only_reads_def by (fastforce split: prod.splits)

lemma reads_pair [reads]: "(\<And>a b. only_reads (g a b)) \<Longrightarrow> only_reads (\<lambda>w. case p of (a, b) \<Rightarrow> g a b w)"
  by (cases p) simp

lemma reads_pure_pair [reads]: "(\<And>a b. only_reads (g a b)) \<Longrightarrow> only_reads (\<lambda>w. case p w of (a, b) \<Rightarrow> g a b w)"
  unfolding only_reads_def by (simp add: split_def)

lemma reads_sum [reads]: "(\<And>a. only_reads (f a)) \<Longrightarrow> (\<And>b. only_reads (g b)) \<Longrightarrow>
    only_reads (\<lambda>w. case x w of Inl a \<Rightarrow> f a w | Inr b \<Rightarrow> g b w)"
  unfolding only_reads_def by (auto split: sum.splits)

lemma reads_option [reads]: "only_reads f \<Longrightarrow> (\<And>b. only_reads (g b)) \<Longrightarrow>
    only_reads (\<lambda>w. case x w of None \<Rightarrow> f w | Some b \<Rightarrow> g b w)"
  unfolding only_reads_def by (auto split: option.splits)

lemma reads_list [reads]: "only_reads f \<Longrightarrow> (\<And>y ys. only_reads (g y ys)) \<Longrightarrow>
    only_reads (\<lambda>w. case x w of [] \<Rightarrow> f w | y # ys \<Rightarrow> g y ys w)"
  unfolding only_reads_def by (auto split: list.splits)

lemma reads_if [reads]: "only_reads f \<Longrightarrow> only_reads g \<Longrightarrow> only_reads (\<lambda>w. if b w then f w else g w)"
  unfolding only_reads_def by simp

lemma reads_unlogged [reads]: "only_reads (unlogged_call f)"
  by (auto simp: only_reads_def unlogged_call_def split: prod.splits)

lemma reads_logged: "(\<And>r. \<not> is_mutation (c r)) \<Longrightarrow> only_reads (logged_call f c)"
  by (auto simp: only_reads_def logged_call_def split: prod.splits)

lemma reads_hooks [reads]:
  "only_reads (ls_discover (traced s) d)" "only_reads (ls_resolve_worktree (traced s) d p)" "only_reads (ls_status (traced s) d)"
  "only_reads (ls_in_progress (traced s) d)" "only_reads (ls_ref_state (traced s) d p)"
  "only_reads (ls_inspect_artifacts (traced s) d)" "only_reads (ls_inspect_cleanup (traced s) d p os)"
  "only_reads (ls_worktrees (traced s) d)" "only_reads (ls_inspect_occupancy (traced s) d p oo)"
  "only_reads (ls_git_run (traced s) d head_args)" "only_reads (ls_git_run (traced s) d [''rev-parse'', ''--verify'', p])"
  "only_reads (ls_get_record (traced s) d)" "only_reads (ls_default_branch (traced s) d)" "only_reads (ls_submodules (traced s) d)"
  "only_reads (ls_inspect_removal (traced s) d b b')" "only_reads (ls_submodule_repo (traced s) d)"
  "only_reads (ls_submodule_intent (traced s) d p)" "only_reads (ls_submodule_claims (traced s) g d)"
  "only_reads (ls_verify_submodules (traced s) pl)" "only_reads (ls_repo_lock (traced s) d)" "only_reads (ls_task_lock (traced s))"
  "only_reads (ls_repo_unlock (traced s) d)" "only_reads (ls_task_unlock (traced s))"
  by (auto intro!: reads_unlogged reads_logged simp: head_args_def)

lemma reads_ref_oid [reads]: "only_reads (resolve_ref_oid (traced s) d r)"
  unfolding resolve_ref_oid_def by (intro reads)

lemma reads_repository [reads]: "only_reads (observe_repository (traced s) l o')"
  unfolding observe_repository_def Let_def by (intro reads)

lemma reads_registered [reads]: "only_reads (observe_registered (traced s) p o')"
  unfolding observe_registered_def by (intro reads)

lemma reads_parked_branch [reads]: "only_reads (observe_parked_branch (traced s) o')"
  unfolding observe_parked_branch_def Let_def by (intro reads)

lemma reads_checkout [reads]: "only_reads (observe_checkout (traced s) a o')"
  unfolding observe_checkout_def by (intro reads)

lemma reads_git [reads]: "only_reads (observe_git (traced s) o')"
  unfolding observe_git_def Let_def by (intro reads)

lemma reads_ref [reads]: "only_reads (observe_ref (traced s) d r)"
  unfolding observe_ref_def by (intro reads)

lemma reads_branches [reads]: "only_reads (observe_branches (traced s) o')"
  unfolding observe_branches_def Let_def by (intro reads)

lemma reads_base [reads]: "only_reads (observe_base (traced s) o')"
  unfolding observe_base_def by (intro reads)

lemma reads_cold_base [reads]: "only_reads (observe_cold_base (traced s) o')"
  unfolding observe_cold_base_def by (intro reads)

lemma reads_resume_base [reads]: "only_reads (observe_resume_base (traced s) o')"
  unfolding observe_resume_base_def Let_def by (intro reads)

lemma reads_refs [reads]: "only_reads (observe_refs (traced s) a o')"
  unfolding observe_refs_def by (intro reads)

lemma reads_cleanup [reads]: "only_reads (observe_cleanup (traced s) f o')"
  unfolding observe_cleanup_def by (intro reads)

lemma reads_action_runtime [reads]: "only_reads (observe_action_runtime (traced s) options o')"
  unfolding observe_action_runtime_def by (cases options; simp only: action_options.case; intro reads)

lemma reads_dependent: "(\<And>x. only_reads (g x)) \<Longrightarrow> only_reads (\<lambda>w. g (h w) w)"
  by (simp add: only_reads_def)

lemma reads_runtime [reads]: "only_reads (observe_runtime (traced s) options o')"
proof -
  have "only_reads (\<lambda>w. observe_action_runtime (traced s) options
      (o'\<lparr>lo_runtime := Some n, lo_runtime_err := None, lo_runtime_available := ls_available (traced s) n w\<rparr>) w)" for n
    by (rule reads_dependent[where h = "\<lambda>w. o'\<lparr>lo_runtime := Some n, lo_runtime_err := None,
      lo_runtime_available := ls_available (traced s) n w\<rparr>"]) (intro reads)
  then show ?thesis unfolding observe_runtime_def by (intro reads)
qed

lemma reads_lifecycle [reads]: "only_reads (observe_lifecycle (traced s) l a options r)"
  unfolding observe_lifecycle_def by (intro reads)

lemma reads_decorate [reads]: "only_reads (decorate_submodules (traced s) q spec root)"
  unfolding decorate_submodules_def Let_def by (intro reads)

lemma reads_specify [reads]: "only_reads (observe_and_specify (traced s) q r)"
  unfolding observe_and_specify_def
  by (cases "q_options q"; simp only: options_value.case; intro reads)

lemma reads_fresh_plan [reads]: "only_reads (fresh_plan (traced s) q r)"
  unfolding fresh_plan_def by (intro reads)

lemma reads_life_plan: "only_reads (life_plan (traced s) q)"
  unfolding life_plan_def by (intro reads)

text \<open>
  C8: Planning changes nothing: whatever the hooks answer, the calls a plan handler makes for a parking or
  a resume are reads, and the log of what was done before is kept.
\<close>

theorem planning_only_reads:
  "case life_plan (traced s) q (w, tr) of (answer, w', tr') \<Rightarrow> \<exists>ys. tr' = tr @ ys \<and> quiet ys"
  using reads_life_plan[of s q] by (simp add: only_reads_def split: prod.splits)

section \<open>What the observation is about\<close>

definition about :: "task_record \<Rightarrow> life_observation \<Rightarrow> bool" where
  "about r o' \<longleftrightarrow> lo_record o' = r \<and> lo_task o' = tr_task r"

lemma about_unobserved [simp]: "about r (unobserved s r)"
  by (simp add: about_def unobserved_def)

lemma about_repository: "observe_repository s l o' w = (Inr o2, w') \<Longrightarrow> about r o' \<Longrightarrow> about r o2"
  by (auto simp: observe_repository_def Let_def about_def split: prod.splits sum.splits option.splits)

lemma about_registered: "observe_registered s p o' w = (o2, w') \<Longrightarrow> about r o' \<Longrightarrow> about r o2"
  by (auto simp: observe_registered_def registered_as_def Let_def about_def split: prod.splits if_splits)

lemma about_parked_branch: "observe_parked_branch s o' w = (o2, w') \<Longrightarrow> about r o' \<Longrightarrow> about r o2"
  by (auto simp: observe_parked_branch_def Let_def about_def observe_registered_def registered_as_def
      split: prod.splits sum.splits list.splits if_splits)

lemma about_checkout: "observe_checkout s a o' w = (o2, w') \<Longrightarrow> about r o' \<Longrightarrow> about r o2"
  by (auto simp: observe_checkout_def split: prod.splits if_splits dest: about_registered about_parked_branch)

lemma about_git: "observe_git s o' w = (o2, w') \<Longrightarrow> about r o' \<Longrightarrow> about r o2"
  by (auto simp: observe_git_def Let_def about_def split: prod.splits if_splits)

lemma about_branches: "observe_branches s o' w = (o2, w') \<Longrightarrow> about r o' \<Longrightarrow> about r o2"
  by (auto simp: observe_branches_def Let_def about_def split: prod.splits)

lemma about_base: "observe_base s o' w = (o2, w') \<Longrightarrow> about r o' \<Longrightarrow> about r o2"
  by (auto simp: observe_base_def about_def split: prod.splits if_splits)

lemma about_destination: "about r o' \<Longrightarrow> about r (observe_destination s (rebuild_base o') w)" "about r o' \<Longrightarrow> about r (rebuild_base o')"
  by (simp_all add: observe_destination_def rebuild_base_def about_def Let_def split: prod.splits)

lemma about_cold_base: "observe_cold_base s o' w = (o2, w') \<Longrightarrow> about r o' \<Longrightarrow> about r o2"
  unfolding observe_cold_base_def
  by (cases "lo_mode o' = mode_branch") (auto simp: about_def split: prod.splits if_splits dest: about_base[where r = r])

lemma about_resume_base: "observe_resume_base s o' w = (o2, w') \<Longrightarrow> about r o' \<Longrightarrow> about r o2"
proof -
  assume run: "observe_resume_base s o' w = (o2, w')" and a: "about r o'"
  have a': "about r (o'\<lparr>lo_base_ref := b\<rparr>)" for b using a by (simp add: about_def)
  show "about r o2"
    using run a' about_destination[OF a'] about_base[of s "o'\<lparr>lo_base_ref := t_base (lo_task o')\<rparr>" w o2 w' r]
      about_base[of s "o'\<lparr>lo_base_ref := lo_remote_branch o'\<rparr>" w o2 w' r]
    by (auto simp: observe_resume_base_def Let_def split: if_splits)
qed

lemma about_refs: "observe_refs s a o' w = (o2, w') \<Longrightarrow> about r o' \<Longrightarrow> about r o2"
  by (auto simp: observe_refs_def split: prod.splits if_splits dest: about_branches about_cold_base about_resume_base)

lemma about_action_runtime: "observe_action_runtime s options o' w = (o2, w') \<Longrightarrow> about r o' \<Longrightarrow> about r o2"
  by (cases options) (auto simp: observe_action_runtime_def observe_cleanup_def about_def split: prod.splits if_splits)

lemma about_runtime: "observe_runtime s options o' w = (o2, w') \<Longrightarrow> about r o' \<Longrightarrow> about r o2"
proof -
  assume run: "observe_runtime s options o' w = (o2, w')" and a: "about r o'"
  have "about r (o'\<lparr>lo_runtime := n, lo_runtime_err := e, lo_runtime_available := b\<rparr>)" "about r (o'\<lparr>lo_runtime := n, lo_runtime_err := e\<rparr>)"
    for n e b using a by (simp_all add: about_def)
  note a' = this
  show "about r o2"
  proof (cases "runtime_for s (lo_task o')")
    case (Inl e)
    then show ?thesis using run a'(2) by (auto simp: observe_runtime_def)
  next
    case (Inr n)
    then show ?thesis using run about_action_runtime[OF _ a'(1)] by (simp add: observe_runtime_def)
  qed
qed

lemma about_lifecycle: "observe_lifecycle s l a options r w = (Inr o2, w') \<Longrightarrow> about r o2"
  unfolding observe_lifecycle_def
  by (auto split: prod.splits sum.splits option.splits dest!: about_repository about_checkout about_git about_refs about_runtime)

section \<open>The plan\<close>

definition action_ready :: "bool \<Rightarrow> action_options \<Rightarrow> life_observation \<Rightarrow> bool" where
  "action_ready shared options o' \<longleftrightarrow> (case options of
      ParkWarmO v \<Rightarrow> warm_parkable o' v
    | ParkColdO v \<Rightarrow> cold_parkable o' v
    | ResumeO v \<Rightarrow> resumable shared o' v
    | _ \<Rightarrow> False)"

definition action_guard ::
  "'w life_service \<Rightarrow> action_options \<Rightarrow> string \<Rightarrow> effect list \<Rightarrow> life_observation \<Rightarrow> call list \<Rightarrow> call \<Rightarrow> bool" where
  "action_guard s options rv es o0 = (case options of
      ParkWarmO v \<Rightarrow> warm_guard s v rv o0
    | ParkColdO v \<Rightarrow> cold_guard s v rv o0
    | ResumeO v \<Rightarrow> resume_guard s v rv es o0
    | _ \<Rightarrow> (\<lambda>_ _. False))"

lemma written_last_codes: "task_written_last es \<longleftrightarrow> ''update-task'' \<notin> set (butlast (map e_code es))"
  unfolding task_written_last_def map_butlast[symmetric] by (simp add: image_iff) metis

lemma written_last_filter: "task_written_last es \<Longrightarrow> task_written_last (filter P es)"
  by (cases es rule: rev_cases) (auto simp: task_written_last_def butlast_append dest: in_set_butlastD)

definition plain_codes :: "effect list \<Rightarrow> string list" where
  "plain_codes es = filter (\<lambda>c. c \<noteq> effect_verify_submodules) (map e_code es)"

lemma execution_codes: "map e_code (execution_effects p) = plain_codes (p_effects p)"
  by (simp add: execution_effects_def plain_codes_def filter_map comp_def)

definition extends :: "plan_spec \<Rightarrow> plan_spec \<Rightarrow> bool" where
  \<comment> \<open>conditions are added and effects keep their order, up to the preflight of the submodules\<close>
  "extends spec spec' \<longleftrightarrow> set (ps_conditions spec) \<subseteq> set (ps_conditions spec') \<and>
    plain_codes (ps_effects spec') = plain_codes (ps_effects spec)"

lemma extends_refl [simp]: "extends spec spec"
  by (simp add: extends_def)

lemma extends_trans: "extends a b \<Longrightarrow> extends b c \<Longrightarrow> extends a c"
  by (auto simp: extends_def)

lemma extends_parts [simp]: "extends spec (with_authority k v spec)" "extends spec (with_condition c spec)"
    "extends spec (spec\<lparr>ps_fallback := f\<rparr>)" "extends spec (with_claims root blank claims spec)" "extends spec (with_recursion g blank spec)"
proof -
  have code: "e_code (removal_effect g blank e) = e_code e" for e by (simp add: removal_effect_def new_effect_def)
  show "extends spec (with_recursion g blank spec)"
    by (simp add: extends_def with_recursion_def plain_codes_def comp_def code)
qed (auto simp: extends_def with_authority_def with_condition_def with_claims_def plain_codes_def new_effect_def split: prod.splits)

lemma extends_disposal: "extends spec (with_disposal g blank recursive removal err spec)"
proof -
  let ?a = "case removal of None \<Rightarrow> spec | Some layout \<Rightarrow> with_authority ''submodule-removal'' layout spec"
  have a: "extends spec ?a" by (cases removal) simp_all
  have b: "extends spec (with_condition c ?a)" for c by (rule extends_trans[OF a extends_parts(2)])
  show ?thesis
    unfolding with_disposal_def Let_def
    by (cases recursive; simp only: if_True if_False) (rule extends_trans[OF b], rule extends_parts)+
qed

lemma extends_decorate:
  assumes "decorate_submodules s q spec root w = (spec', w')"
  shows "extends spec spec'"
proof -
  have d: "extends spec (with_disposal g b rec r e (with_authority k v (with_authority k' v' (with_authority k2 v2 spec))))"
    "extends spec (with_claims root' b' cl (with_disposal g b rec r e (with_authority k v (with_authority k' v' (with_authority k2 v2 spec)))))"
    "extends spec (with_authority k v (with_authority k' v' (with_authority k2 v2 spec)))"
    "extends spec (with_claims root' b' cl (with_authority k v (with_authority k' v' (with_authority k2 v2 spec))))"
    "extends spec (with_condition c (with_authority k v spec))"
    for g b rec r e k v k' v' k2 v2 root' b' cl c
    by (meson extends_trans extends_parts extends_disposal)+
  show ?thesis
    using assms unfolding decorate_submodules_def Let_def
    by (auto simp: d split: if_splits prod.splits sum.splits)
qed

lemma action_spec_parts:
  assumes "action_spec s q o' t = Some spec" and "q_options q = OVal options"
  shows "(availability_for (ps_conditions spec) = Ready \<longleftrightarrow> action_ready (ls_allow_shared s) options o') \<and>
    task_written_last (ps_effects spec) \<and> normalize_options options = options"
  using assms
  by (cases options) (auto simp: action_spec_def action_ready_def warm_ready_exact cold_ready_formula resume_ready_formula
      park_warm_spec_def[THEN arg_cong[where f = ps_effects]] park_cold_spec_def[THEN arg_cong[where f = ps_effects]]
      resume_spec_def[THEN arg_cong[where f = ps_effects]] park_cold_effects_last resume_effects_last split: if_splits)

lemma ready_fewer: "availability_for cs' = Ready \<Longrightarrow> set cs \<subseteq> set cs' \<Longrightarrow> availability_for cs = Ready"
  by (auto simp: ready_cond_ok list_all_iff)

definition planned_from :: "'w life_service \<Rightarrow> frequest \<Rightarrow> task_record \<Rightarrow> plan \<Rightarrow> action_options \<Rightarrow> life_observation \<Rightarrow> bool" where
  \<comment> \<open>the plan was made for the options of the request from an observation of the record\<close>
  "planned_from s q r p options o' \<longleftrightarrow> q_options q = OVal options \<and> q_options (p_request p) = OVal options \<and> about r o' \<and>
    plan_ok (ls_sha s) p \<and> task_written_last (execution_effects p) \<and>
    (p_availability p = Ready \<longrightarrow> action_ready (ls_allow_shared s) options o')"

lemma fresh_plan_from:
  assumes "fresh_plan s q r w = (Inr (p, o'), w')"
  shows "\<exists>options. planned_from s q r p options o'"
proof -
  obtain spec' w1 where spec: "observe_and_specify s q r w = (Inr (spec', o'), w1)" and built: "build_plan (ls_sha s) q spec' = Inr p"
    using assms by (auto simp: fresh_plan_def split: prod.splits sum.splits)
  obtain options w2 spec t w3 where o: "q_options q = OVal options"
    "observe_lifecycle s (q_locator q) (q_action q) options r w = (Inr o', w2)"
    "action_spec s q o' t = Some spec" "decorate_submodules s q spec (lo_checkout o') w2 = (spec', w3)"
    using spec by (auto simp: observe_and_specify_def split: prod.splits sum.splits option.splits options_value.splits)
  note parts = action_spec_parts[OF o(3,1)] and ext = extends_decorate[OF o(4), unfolded extends_def]
  have ab: "about r o'" by (rule about_lifecycle[OF o(2)])
  from built show ?thesis
  proof (cases rule: build_plan_cases)
    case (1 q' v)
    have "q' = q\<lparr>q_options := OVal options\<rparr>"
      using 1(1) o(1) parts by (auto simp: normalize_request_def split: if_splits sum.splits)
    then have "q_options (p_request p) = OVal options"
      using 1(2) parts by (simp add: request_clone_def)
    moreover have "task_written_last (execution_effects p)"
    proof -
      have "task_written_last (filter (\<lambda>e. e_code e \<noteq> effect_verify_submodules) (ps_effects spec))"
        using parts written_last_filter by blast
      then show ?thesis
        using ext 1(13) execution_codes[of p]
        by (simp add: written_last_codes plain_codes_def filter_map comp_def)
    qed
    moreover have "p_availability p = Ready \<Longrightarrow> action_ready (ls_allow_shared s) options o'"
      using ready_fewer ext parts 1(19) by metis
    ultimately show ?thesis
      using ab o(1) built_plan_ok[OF built] by (auto simp: planned_from_def)
  qed
qed

section \<open>The application\<close>

lemma reads_quiet: "only_reads f \<Longrightarrow> f (w, tr) = (r, w', tr') \<Longrightarrow> quiet tr \<Longrightarrow> quiet tr'"
  by (fastforce simp: only_reads_def split: prod.splits)

lemma prepared:
  assumes "prepare_submodules (traced s) ex (w, tr) = (err, ex', w', tr')" and "quiet tr"
  shows "quiet tr' \<and> ex_plan ex' = ex_plan ex \<and> ex_observed ex' = ex_observed ex \<and> ex_revision ex' = ex_revision ex \<and>
    ex_resume_handle ex' = ex_resume_handle ex"
proof -
  obtain a w1 tr1 where v: "ls_verify_submodules (traced s) (ex_plan ex) (w, tr) = (a, w1, tr1)" by (metis prod_cases3)
  have "quiet tr1" using reads_quiet[OF reads_hooks(19) v assms(2)] .
  then show ?thesis
    using assms v by (auto simp: prepare_submodules_def run_effect_def verify_operation_def Let_def split: list.splits prod.splits)
qed

lemma apply_fresh_guarded:
  assumes "apply_fresh (traced s) p o' rv (w, tr0) = (res, err, w', tr)" and "quiet tr0"
    and "planned_from (traced s) q r p options o'"
  shows "guarded (action_guard s options rv (execution_effects p) o') tr"
proof -
  have opt: "q_options (p_request p) = OVal options" and last: "task_written_last (execution_effects p)"
    using assms(3) by (simp_all add: planned_from_def)
  obtain e1 ex1 w1 tr1 where prep: "prepare_submodules (traced s) (fresh_execution p o' rv) (w, tr0) = (e1, ex1, w1, tr1)"
    by (metis surj_pair)
  note ex1 = prepared[OF prep assms(2)]
  have quiet_ok: "guarded G tr1" for G using guarded_quiet[of tr1 G "[]"] ex1 by simp
  show ?thesis
  proof (cases e1)
    case (Some e)
    then show ?thesis using assms(1) prep quiet_ok by (simp add: apply_fresh_def)
  next
    case None
    obtain e2 ex2 where act: "action_apply (traced s) p ex1 (w1, tr1) = (e2, ex2, w', tr)"
      using assms(1) prep None by (auto simp: apply_fresh_def split: prod.splits)
    have ex: "ex_plan ex1 = p" "ex_observed ex1 = o'" "ex_revision ex1 = rv" "ex_resume_handle ex1 = []" "quiet tr1"
      using ex1 by (simp_all add: fresh_execution_def)
    show ?thesis
    proof (cases options)
      case (ParkWarmO v)
      then show ?thesis using act opt warm_guarded[of ex1 tr1 s v w1 e2 ex2 w' tr] ex last by (simp add: action_apply_def action_guard_def)
    next
      case (ParkColdO v)
      then show ?thesis using act opt cold_guarded[of ex1 tr1 s v w1 e2 ex2 w' tr] ex last by (simp add: action_apply_def action_guard_def)
    next
      case (ResumeO v)
      then show ?thesis using act opt resume_guarded[of ex1 tr1 s v w1 e2 ex2 w' tr] ex last by (simp add: action_apply_def action_guard_def)
    qed (use act opt quiet_ok in \<open>auto simp: action_apply_def\<close>)
  qed
qed

lemma apply_locked_cases:
  assumes "apply_locked (traced s) p (w, tr0) = (res, err, w', tr)" and "quiet tr0" and "\<not> quiet tr"
  obtains r fresh o' wr w3 tr3 options where "validate_record_identity (traced s) (p_locator p) r wr = None"
    "planned_from (traced s) (p_request p) r fresh options o'" "p_id fresh = p_id p" "p_fingerprint fresh = p_fingerprint p"
    "p_availability fresh = Ready" "quiet tr3" "apply_fresh (traced s) fresh o' (tr_revision r) (w3, tr3) = (res, err, w', tr)"
proof -
  let ?i = "l_task_id (p_locator p)"
  obtain a w1 tr1 where get: "ls_get_record (traced s) ?i (w, tr0) = (a, w1, tr1)" by (metis prod_cases3)
  have q1: "quiet tr1" using reads_quiet[OF reads_hooks(12) get assms(2)] .
  obtain r where r: "a = Inr r" using assms get q1 by (cases a) (auto simp: apply_locked_def)
  have id: "validate_record_identity (traced s) (p_locator p) r (w1, tr1) = None"
    using assms get q1 r by (auto simp: apply_locked_def split: option.splits)
  obtain b w2 tr2 where plan: "fresh_plan (traced s) (p_request p) r (w1, tr1) = (b, w2, tr2)" by (metis prod_cases3)
  have q2: "quiet tr2" using reads_quiet[OF reads_fresh_plan plan q1] .
  obtain fresh o' where b: "b = Inr (fresh, o')" using assms get r id plan q2 by (cases b) (auto simp: apply_locked_def)
  obtain c w3 tr3 where again: "ls_get_record (traced s) ?i (w2, tr2) = (c, w3, tr3)" by (metis prod_cases3)
  have q3: "quiet tr3" using reads_quiet[OF reads_hooks(12) again q2] .
  have rest: "p_id fresh = p_id p \<and> p_fingerprint fresh = p_fingerprint p \<and> p_availability fresh = Ready \<and>
      apply_fresh (traced s) fresh o' (tr_revision r) (w3, tr3) = (res, err, w', tr)"
    using assms get r id plan b again q3 by (cases c) (auto simp: apply_locked_def split: if_splits)
  from fresh_plan_from[of "traced s" "p_request p" r "(w1, tr1)" fresh o'] plan b obtain options
    where "planned_from (traced s) (p_request p) r fresh options o'" by blast
  then show thesis using that[of r "(w1, tr1)" fresh options o' tr3 w3] id q3 rest by blast
qed

lemma apply_guarded_locked:
  assumes "apply_guarded (traced s) a p (w, tr0) = (res, err, w', tr)" and "quiet tr0" and "\<not> quiet tr"
  obtains w1 tr1 w2 tr2 err2 where "quiet tr1" "apply_locked (traced s) p (w1, tr1) = (res, err2, w2, tr2)" "\<not> quiet tr2"
    "\<exists>ys. tr = tr2 @ ys \<and> quiet ys" "p_action p = a" "validate_lifecycle_locator (p_locator p) = None"
proof -
  obtain common e0 where can: "ls_canonical (traced s) (l_git_common_dir (p_locator p)) (w, tr0) = (common, e0)" by (metis surj_pair)
  obtain e1 w1 tr1 where l1: "ls_repo_lock (traced s) common (w, tr0) = (e1, w1, tr1)" by (metis prod_cases3)
  obtain e2 w2 tr2 where l2: "ls_task_lock (traced s) (w1, tr1) = (e2, w2, tr2)" by (metis prod_cases3)
  obtain r3 e3 w3 tr3 where l3: "apply_locked (traced s) p (w2, tr2) = (r3, e3, w3, tr3)" by (metis surj_pair)
  obtain e4 w4 tr4 where l4: "ls_task_unlock (traced s) (w3, tr3) = (e4, w4, tr4)" by (metis prod_cases3)
  have q1: "quiet tr1" using reads_quiet[OF reads_hooks(20) l1 assms(2)] .
  have q2: "quiet tr2" using reads_quiet[OF reads_hooks(21) l2 q1] .
  have unlock: "ls_repo_unlock (traced s) common (w5, tr5) = (e5, w', tr) \<Longrightarrow> \<exists>ys. tr = tr5 @ ys \<and> quiet ys" for w5 tr5 e5
    using reads_hooks(22)[of s common] by (fastforce simp: only_reads_def split: prod.splits)
  have g4: "\<exists>ys. tr4 = tr3 @ ys \<and> quiet ys"
    using reads_hooks(23)[of s] l4 by (fastforce simp: only_reads_def split: prod.splits)
  note run = assms(1)[unfolded apply_guarded_def]
  have pre: "p_action p = a" "validate_lifecycle_locator (p_locator p) = None" "e0 = None" "e1 = None"
    "ls_ctx_error (traced s) (w, tr0) = None"
    using run assms(2,3) can l1 q1 by (auto split: if_splits option.splits)
  obtain e5 w5 tr5 err5 where tail: "ls_repo_unlock (traced s) common (w5, tr5) = (e5, w', tr)"
      "(case e2 of Some e \<Rightarrow> (no_result, Some FPlain, w2, tr2) | None \<Rightarrow> (r3, join_errors e3 e4, w4, tr4)) = (res, err5, w5, tr5)"
    using run can l1 l2 l3 l4 pre by (auto split: if_splits prod.splits option.splits)
  have "e2 = None"
    using tail unlock[OF tail(1)] q2 assms(3) by (cases e2) auto
  then have eq: "res = r3" "tr5 = tr4" using tail(2) by simp_all
  have grown: "\<exists>ys. tr = tr3 @ ys \<and> quiet ys" using unlock[OF tail(1)] g4 eq(2) by (metis append.assoc quiet_simps(3))
  then have "\<not> quiet tr3" using assms(3) by auto
  then show thesis using that[of tr2 w2 e3 w3 tr3] q2 l3 grown pre(1,2) eq(1) by blast
qed

definition rebuilt ::
  "'w life_service \<Rightarrow> plan \<Rightarrow> plan \<Rightarrow> task_record \<Rightarrow> action_options \<Rightarrow> life_observation \<Rightarrow> bool" where
  \<comment> \<open>the fresh plan is the approved one, ready, and made from an observation of the selected record\<close>
  "rebuilt s p fresh r options o' \<longleftrightarrow>
    tr_revision r = l_task_revision (p_locator p) \<and> t_id (tr_task r) = l_task_id (p_locator p) \<and>
    t_state (tr_task r) = l_state (p_locator p) \<and> t_branch (tr_task r) = l_branch (p_locator p) \<and>
    lo_record o' = r \<and> lo_task o' = tr_task r \<and>
    q_options (p_request p) = OVal options \<and> q_options (p_request fresh) = OVal options \<and>
    p_id fresh = p_id p \<and> p_fingerprint fresh = p_fingerprint p \<and> p_availability fresh = Ready \<and>
    action_ready (ls_allow_shared s) options o' \<and>
    (plan_ok (ls_sha s) p \<and> tells_apart (ls_sha s) (plan_writes fresh \<union> plan_writes p) \<longrightarrow> plan_core fresh = plan_core p)"

lemma identity_of_record:
  assumes "validate_record_identity s l r w = None"
  shows "tr_revision r = l_task_revision l \<and> t_id (tr_task r) = l_task_id l \<and> t_state (tr_task r) = l_state l \<and>
    t_branch (tr_task r) = l_branch l"
  using assms by (auto simp: validate_record_identity_def Let_def split: if_splits)

lemma apply_guarded_changes:
  assumes "apply_guarded (traced s) a p (w, []) = (res, err, w', tr)" and "\<not> quiet tr"
  shows "\<exists>fresh r options o'. rebuilt s p fresh r options o' \<and>
    guarded (action_guard s options (tr_revision r) (execution_effects fresh) o') tr"
proof -
  obtain w1 tr1 w2 tr2 err2 where l: "quiet tr1" "apply_locked (traced s) p (w1, tr1) = (res, err2, w2, tr2)" "\<not> quiet tr2"
    "\<exists>ys. tr = tr2 @ ys \<and> quiet ys"
    by (rule apply_guarded_locked[OF assms(1) quiet_simps(1) assms(2)]) blast
  obtain r fresh o' wr w3 tr3 options where f: "validate_record_identity (traced s) (p_locator p) r wr = None"
    "planned_from (traced s) (p_request p) r fresh options o'" "p_id fresh = p_id p" "p_fingerprint fresh = p_fingerprint p"
    "p_availability fresh = Ready" "quiet tr3" "apply_fresh (traced s) fresh o' (tr_revision r) (w3, tr3) = (res, err2, w2, tr2)"
    by (rule apply_locked_cases[OF l(2,1,3)])
  have "plan_core fresh = plan_core p" if "plan_ok (ls_sha s) p" "tells_apart (ls_sha s) (plan_writes fresh \<union> plan_writes p)"
    using plan_id_core[of "ls_sha s" fresh p] f(2,3) that by (simp add: plan_validate_iff planned_from_def)
  then have "rebuilt s p fresh r options o'"
    using f identity_of_record[OF f(1)] by (auto simp: rebuilt_def planned_from_def about_def)
  moreover have "guarded (action_guard s options (tr_revision r) (execution_effects fresh) o') tr"
    using apply_fresh_guarded[OF f(7,6,2)] l(4) guarded_quiet by blast
  ultimately show ?thesis by blast
qed


end
