(* ===== verification/LifeDemo.thy ===== *)
theory LifeDemo
  imports LifeGuard ParkDemo
begin

text \<open>
  The whole path of a COLD parking through the service, from the request to the removal of the
  worktree, and a resume that opens a runtime, with the hooks of \<open>ParkDemo\<close>.
\<close>

section \<open>The plan of a COLD parking\<close>

definition cold_request :: frequest where
  "cold_request = \<lparr>q_locator = parked_locator, q_action = park_cold, q_options = OVal (ParkColdO cold_choice), q_displayed_at = zero_time\<rparr>"

abbreviation demo :: "(unit \<times> call list) life_service" where
  "demo \<equiv> traced (steady_service 0)"

lemma steady_more [simp]: "ls_discover (steady_service n) a = Pair (Inr parked_repo)" "ls_canonical (steady_service n) p w = (p, None)"
  "ls_pathx (steady_service n) p w = (p, None)" "ls_available (steady_service n) i w" "ls_default_runtime (steady_service n) = Some ''tmux''"
  "ls_get_record (steady_service n) i = Pair (Inr parked_record)" "ls_repo_lock (steady_service n) d = Pair None"
  "ls_task_lock (steady_service n) = Pair None" "ls_repo_unlock (steady_service n) d = Pair None" "ls_task_unlock (steady_service n) = Pair None"
  "ls_ctx_error (steady_service n) w = None" "ls_submodules (steady_service n) d = Pair (Inr \<lparr>sg_fingerprint = [], sg_nodes = []\<rparr>)"
  "ls_inspect_removal (steady_service n) d b c = Pair (None, None)" "\<not> ls_git_absent (steady_service n) d w"
  "ls_host (steady_service n) = ''host''" "ls_cwd (steady_service n) = ''/''" "ls_workspace (steady_service n) = []" "ls_pane (steady_service n) = []"
  by (simp_all add: steady_service_def)

lemma demo_checkout: "observe_checkout demo park_cold ((unobserved demo parked_record)\<lparr>lo_repo_path := ''/r'', lo_common_dir := ''/r/.git''\<rparr>) ((), tr) =
    ((unobserved demo parked_record)\<lparr>lo_repo_path := ''/r'', lo_common_dir := ''/r/.git'', lo_worktree := parked_worktree, lo_worktree_err := None,
       lo_worktree_found := True, lo_checkout := ''/w''\<rparr>, (), tr @ [Resolve ''/r'' ''/w'' (parked_worktree, None)])"
  by (simp add: observe_checkout_def observe_registered_def registered_as_def unobserved_def parked_record_def parked_task_def
      effective_mode_def logged_call_def Let_def)
    (simp add: parked_worktree_def)

definition demo_start :: life_observation where
  "demo_start = (unobserved demo parked_record)\<lparr>lo_repo_path := ''/r'', lo_common_dir := ''/r/.git'', lo_worktree := parked_worktree,
    lo_worktree_err := None, lo_worktree_found := True, lo_checkout := ''/w''\<rparr>"

lemma demo_repository: "\<exists>t. observe_repository demo parked_locator (unobserved demo parked_record) ((), tr) =
    (Inr ((unobserved demo parked_record)\<lparr>lo_repo_path := ''/r'', lo_common_dir := ''/r/.git''\<rparr>), (), t)"
  by (simp add: observe_repository_def unobserved_def parked_record_def parked_task_def parked_locator_def parked_repo_def
      logged_call_def Let_def is_abs_def fail_if_def checks.simps)

definition demo_git :: life_observation where
  "demo_git = demo_start\<lparr>lo_status := parked_status 0, lo_status_err := None, lo_head := ''h'', lo_head_err := None,
    lo_base_oid := [], lo_base_oid_err := None, lo_upstream_oid := ''h'', lo_upstream_oid_err := None, lo_operation := [],
    lo_in_progress := False, lo_operation_err := None\<rparr>"

lemma demo_reads_git: "\<exists>t. observe_git demo demo_start ((), tr) = (demo_git, (), t)"
  by (simp add: observe_git_def demo_git_def demo_start_def unobserved_def has_checkout_def resolve_ref_oid_def logged_call_def
      trim_h Let_def parked_record_def parked_task_def)
    (simp add: parked_status_def)

definition demo_refs :: life_observation where
  "demo_refs = demo_git\<lparr>lo_local_exists := True, lo_local_oid := ''h'', lo_local_oid_err := None, lo_remote_branch := ''origin/b'',
    lo_remote_exists := True, lo_remote_oid := ''h'', lo_remote_oid_err := None\<rparr>"

lemma demo_reads_refs: "\<exists>t. observe_refs demo park_cold demo_git ((), tr) = (demo_refs, (), t)"
  by (simp add: observe_refs_def observe_branches_def observe_ref_def observe_cold_base_def demo_refs_def demo_git_def demo_start_def
      unobserved_def resolve_ref_oid_def logged_call_def trim_h Let_def parked_record_def parked_task_def effective_mode_def local_branch_ref_def)

lemma demo_live: "validate_live_locator parked_locator demo_refs = None"
  by (simp add: validate_live_locator_def parked_locator_def demo_refs_def demo_git_def demo_start_def unobserved_def parked_status_def
      has_checkout_def fail_if_def)

lemma trim_tmux: "trim_space ''tmux'' = ''tmux''"
  by code_simp

lemma demo_reads_runtime: "\<exists>t. observe_runtime demo (ParkColdO cold_choice) demo_refs ((), tr) = (parked_view 0, (), t)"
  by (simp add: observe_runtime_def runtime_for_def observe_action_runtime_def observe_cleanup_def has_checkout_def logged_call_def Let_def
      demo_refs_def demo_git_def demo_start_def unobserved_def parked_record_def parked_task_def effective_mode_def trim_tmux)
    (simp add: parked_view_def parked_record_def parked_task_def observed_linked_def is_linked_worktree_def parked_worktree_def fresh_worktree_def)

lemma demo_observes: "\<exists>t. observe_lifecycle demo parked_locator park_cold (ParkColdO cold_choice) parked_record ((), tr) =
    (Inr (parked_view 0), (), t)"
proof -
  obtain t1 where "observe_repository demo parked_locator (unobserved demo parked_record) ((), tr) =
    (Inr ((unobserved demo parked_record)\<lparr>lo_repo_path := ''/r'', lo_common_dir := ''/r/.git''\<rparr>), (), t1)" using demo_repository by blast
  moreover obtain t2 where "observe_git demo demo_start ((), t1 @ [Resolve ''/r'' ''/w'' (parked_worktree, None)]) = (demo_git, (), t2)"
    using demo_reads_git by blast
  moreover obtain t3 where "observe_refs demo park_cold demo_git ((), t2) = (demo_refs, (), t3)" using demo_reads_refs by blast
  moreover obtain t4 where "observe_runtime demo (ParkColdO cold_choice) demo_refs ((), t3) = (parked_view 0, (), t4)"
    using demo_reads_runtime by blast
  ultimately show ?thesis
    by (simp add: observe_lifecycle_def demo_checkout demo_start_def[symmetric] demo_live)
qed

definition cold_spec :: "gotime \<Rightarrow> plan_spec" where
  "cold_spec t = park_cold_spec (ls_printable demo) (base_authority demo (ParkColdO cold_choice) (parked_view 0)) t cold_choice (parked_view 0)"

lemma demo_decorates: "decorate_submodules demo cold_request spec root ((), tr) = (spec, (), tr)"
  by (simp add: decorate_submodules_def cold_request_def recursive_request_def unlogged_call_def)

lemma demo_identity: "validate_record_identity demo parked_locator parked_record w = None"
  by (simp add: validate_record_identity_def parked_record_def parked_locator_def parked_task_def effective_mode_def Let_def fail_if_def)

lemma demo_specifies: "\<exists>t. observe_and_specify demo cold_request parked_record ((), tr) = (Inr (cold_spec zero_time, parked_view 0), (), t)"
proof -
  obtain t where "observe_lifecycle demo parked_locator park_cold (ParkColdO cold_choice) parked_record ((), tr) = (Inr (parked_view 0), (), t)"
    using demo_observes by blast
  moreover have "q_locator cold_request = parked_locator" "q_action cold_request = park_cold" "q_options cold_request = OVal (ParkColdO cold_choice)"
    by (simp_all add: cold_request_def)
  moreover have "time_utc (ls_now demo w) = zero_time" for w by (simp add: steady_service_def time_utc_def zero_time_def)
  ultimately show ?thesis
    by (auto simp: observe_and_specify_def demo_identity action_spec_def demo_decorates cold_spec_def)
qed

lemma authority_keys: "authority_ok (new_fields m) \<longleftrightarrow> [] \<notin> fst ` set m"
  by (auto simp: authority_ok_def new_fields_def image_iff)

lemma demo_authority: "authority_ok (new_fields (base_authority s (ParkColdO v) o'))"
  by (simp add: authority_keys base_authority_def task_authority_def worktree_entries_def git_entries_def runtime_entries_def
      unobserved_authority_def Let_def)

lemma demo_conditions: "conditions_ok (park_cold_conditions (\<lambda>c. True) (parked_view 0) cold_choice)"
  by code_simp

lemma demo_effects: "effects_ok (park_cold_effects (parked_view 0) cold_choice)"
  by code_simp

lemma cold_allowed: "\<exists>r. require_transition mode_worktree state_hot park_cold = Inr r"
proof -
  have "case require_transition mode_worktree state_hot park_cold of Inr r \<Rightarrow> True | Inl e \<Rightarrow> False" by code_simp
  then show ?thesis by (auto split: sum.splits)
qed

lemma cold_action: "action_valid park_cold" "is_transition_action park_cold"
  by code_simp+

lemma cold_request_fields: "q_locator cold_request = parked_locator" "q_action cold_request = park_cold"
  "q_options cold_request = OVal (ParkColdO cold_choice)"
  by (simp_all add: cold_request_def)

lemma cold_locator_fields: "l_mode parked_locator = mode_worktree" "l_state parked_locator = state_hot"
  by (simp_all add: parked_locator_def)

lemma cold_request_ok: "request_ok cold_request (ParkColdO cold_choice)"
  unfolding request_ok_def cold_request_fields cold_locator_fields
  using cold_allowed cold_action by (auto simp: cold_choice_def validate_timeout_def fail_if_def)

lemma cold_request_normal: "normalize_request cold_request = Inr cold_request"
proof -
  have "cold_request\<lparr>q_options := OVal (ParkColdO cold_choice)\<rparr> = cold_request" by (simp add: cold_request_def)
  then show ?thesis using request_ok_normalize[OF cold_request_ok] by simp
qed

lemma cold_spec_fields: "ps_conditions (cold_spec d) = park_cold_conditions (\<lambda>c. True) (parked_view 0) cold_choice"
  "ps_effects (cold_spec d) = park_cold_effects (parked_view 0) cold_choice"
  "ps_authority (cold_spec d) = base_authority demo (ParkColdO cold_choice) (parked_view 0)"
  "confirmation_ok (ps_confirmation (cold_spec d))"
  by (simp_all add: cold_spec_def park_cold_spec_def steady_service_def confirmation_ok_def)

lemma demo_builds: "\<exists>p. build_plan (ls_sha demo) cold_request (cold_spec d) = Inr p"
proof -
  obtain r where r: "require_transition mode_worktree state_hot park_cold = Inr r" using cold_allowed by blast
  have "p_action (draft_plan cold_request (cold_spec d)) = park_cold" "p_locator (draft_plan cold_request (cold_spec d)) = parked_locator"
    by (simp_all add: draft_plan_def cold_request_fields)
  then have "\<exists>p. record_transition (draft_plan cold_request (cold_spec d)) = Inr p"
    using r cold_action by (simp add: record_transition_def cold_locator_fields)
  then show ?thesis
    using demo_conditions demo_effects demo_authority cold_spec_fields
    by (auto simp: build_plan_def cold_request_normal)
qed

definition cold_plan :: plan where
  "cold_plan = (case build_plan (ls_sha demo) cold_request (cold_spec zero_time) of Inr p \<Rightarrow> p)"

lemma cold_plan_built: "build_plan (ls_sha demo) cold_request (cold_spec zero_time) = Inr cold_plan"
  using demo_builds[of zero_time] by (auto simp: cold_plan_def)

lemma cold_plan_ok: "plan_ok (ls_sha demo) cold_plan" "plan_clone cold_plan = cold_plan"
  using built_plan_ok[OF cold_plan_built] by simp_all

lemma demo_ready: "availability_for (park_cold_conditions (\<lambda>c. True) (parked_view 0) cold_choice) = Ready"
proof -
  have "ps_conditions (cold_spec zero_time) = park_cold_conditions (\<lambda>c. True) (parked_view 0) cold_choice" by (rule cold_spec_fields)
  moreover have "availability_for (ps_conditions (cold_spec zero_time)) = Ready"
    unfolding cold_spec_def by (simp add: cold_ready_formula parked_parkable)
  ultimately show ?thesis by simp
qed

lemma cold_plan_fields: "p_request cold_plan = cold_request" "p_locator cold_plan = parked_locator" "p_action cold_plan = park_cold"
  "p_effects cold_plan = park_cold_effects (parked_view 0) cold_choice" "p_availability cold_plan = Ready"
  "cf_kind (p_confirmation cold_plan) = confirmation_approval"
proof -
  have "p_request cold_plan = cold_request \<and> p_locator cold_plan = parked_locator \<and> p_action cold_plan = park_cold \<and>
    p_effects cold_plan = park_cold_effects (parked_view 0) cold_choice \<and> p_availability cold_plan = Ready \<and>
    p_confirmation cold_plan = ps_confirmation (cold_spec zero_time)"
    using cold_plan_built
  proof (cases rule: build_plan_cases)
    case (1 q v)
    have q: "q = cold_request" using 1(1) cold_request_normal by simp
    have "request_clone cold_request = cold_request"
      by (simp add: request_clone_def cold_request_def)
    then show ?thesis using 1(2,5,6,11,13,19) demo_ready
      unfolding q cold_spec_fields cold_request_fields by (intro conjI) simp_all
  qed
  moreover have "cf_kind (ps_confirmation (cold_spec zero_time)) = confirmation_approval" by (simp add: cold_spec_def park_cold_spec_def)
  ultimately show "p_request cold_plan = cold_request" "p_locator cold_plan = parked_locator" "p_action cold_plan = park_cold"
    "p_effects cold_plan = park_cold_effects (parked_view 0) cold_choice" "p_availability cold_plan = Ready"
    "cf_kind (p_confirmation cold_plan) = confirmation_approval" by simp_all
qed

lemma demo_fresh: "\<exists>t. fresh_plan demo cold_request parked_record ((), tr) = (Inr (cold_plan, parked_view 0), (), t)"
proof -
  obtain t where "observe_and_specify demo cold_request parked_record ((), tr) = (Inr (cold_spec zero_time, parked_view 0), (), t)"
    using demo_specifies by blast
  then show ?thesis using cold_plan_built by (auto simp: fresh_plan_def)
qed

section \<open>Its application\<close>

lemma cold_plan_steps:
  obtains e u where "execution_effects cold_plan = [e, u]" "e_code e = ''remove-worktree''" "e_code u = ''update-task''"
proof -
  have "p_effects cold_plan = p_effects (ex_plan cold_parking)" by (simp add: cold_plan_fields plan_fields)
  then have "execution_effects cold_plan = execution_effects (ex_plan cold_parking)" by (simp add: execution_effects_def)
  then show thesis using that by (metis cold_effects_two)
qed

lemma cold_plan_unverified: "prepare_submodules demo (fresh_execution cold_plan o' rv) w = (None, fresh_execution cold_plan o' rv, w)"
proof -
  have "\<forall>c \<in> set (map e_code (p_effects cold_plan)). c \<noteq> effect_verify_submodules"
    using cold_parking_effects by (simp add: cold_plan_fields plan_fields)
  then have "filter (\<lambda>e. e_code e = effect_verify_submodules) (p_effects cold_plan) = []" by (simp add: filter_empty_conv)
  moreover have "ex_plan (fresh_execution cold_plan o' rv) = cold_plan" by (simp add: fresh_execution_def)
  ultimately show ?thesis by (simp add: prepare_submodules_def)
qed

lemma demo_runs: "\<exists>res t. apply_fresh demo cold_plan (parked_view 0) ''1'' ((), tr) = (res, None, (), t) \<and>
    RemoveWorktree ''/r'' ''/w'' None \<in> set t"
proof -
  obtain e u where es: "execution_effects cold_plan = [e, u]" "e_code e = ''remove-worktree''" "e_code u = ''update-task''"
    by (rule cold_plan_steps)
  have ex: "ex_plan (fresh_execution cold_plan (parked_view 0) ''1'') = cold_plan" "ex_observed (fresh_execution cold_plan (parked_view 0) ''1'') = parked_view 0"
    "ex_revision (fresh_execution cold_plan (parked_view 0) ''1'') = ''1''" "\<not> ex_removal (fresh_execution cold_plan (parked_view 0) ''1'')"
    by (simp_all add: fresh_execution_def)
  obtain ex' where run: "apply_park_cold demo cold_choice (fresh_execution cold_plan (parked_view 0) ''1'') ((), tr) =
    (None, ex', (), tr @ all_reads @ RemoveWorktree ''/r'' ''/w'' None # cold_calls)"
    using cold_run_from[of "fresh_execution cold_plan (parked_view 0) ''1''" e u tr] es ex by auto
  have "action_apply demo cold_plan ex w = apply_park_cold demo cold_choice ex w" for ex w
    by (simp add: action_apply_def cold_plan_fields cold_request_fields)
  then show ?thesis unfolding apply_fresh_def cold_plan_unverified by (simp add: run)
qed

lemma demo_record: "ls_get_record demo i w = (Inr parked_record, w)"
  by (cases w) (simp add: unlogged_call_def)

lemma demo_locked: "\<exists>res t. apply_locked demo cold_plan ((), tr) = (res, None, (), t) \<and> RemoveWorktree ''/r'' ''/w'' None \<in> set t"
proof -
  obtain t where plan: "fresh_plan demo cold_request parked_record ((), tr) = (Inr (cold_plan, parked_view 0), (), t)"
    using demo_fresh by blast
  obtain res t' where run: "apply_fresh demo cold_plan (parked_view 0) ''1'' ((), t) = (res, None, (), t')"
    "RemoveWorktree ''/r'' ''/w'' None \<in> set t'" using demo_runs by blast
  have "tr_revision parked_record = ''1''" by (simp add: parked_record_def)
  then show ?thesis
    unfolding apply_locked_def Let_def demo_record cold_plan_fields by (simp del: traced_simps add: cold_plan_fields demo_identity plan demo_record run)
qed

lemma cold_locator_ok: "validate_lifecycle_locator parked_locator = None"
  by code_simp

lemma demo_guarded: "\<exists>res t. apply_guarded demo park_cold cold_plan ((), []) = (res, None, (), t) \<and> RemoveWorktree ''/r'' ''/w'' None \<in> set t"
proof -
  obtain res t where run: "apply_locked demo cold_plan ((), []) = (res, None, (), t)" "RemoveWorktree ''/r'' ''/w'' None \<in> set t"
    using demo_locked by blast
  then show ?thesis
    by (simp add: apply_guarded_def cold_plan_fields cold_locator_ok unlogged_call_def join_errors_def)
qed

definition demo_apply :: "flow_result \<times> flow_error option \<times> unit \<times> call list" where
  "demo_apply = service_apply (ls_sha (steady_service 0)) (new_service (lifecycle_handlers demo (\<lambda>_. None))) cold_plan
    (approve (p_id cold_plan)) ((), [])"

lemma parking_applied: "\<exists>res t. demo_apply = (res, None, (), t) \<and> RemoveWorktree ''/r'' ''/w'' None \<in> set t"
proof -
  obtain res t where run: "apply_guarded demo park_cold cold_plan ((), []) = (res, None, (), t)" "RemoveWorktree ''/r'' ''/w'' None \<in> set t"
    using demo_guarded by blast
  have may: "may_apply (ls_sha demo) (plan_clone cold_plan) (approve (p_id cold_plan))"
    using cold_plan_ok by (simp add: may_apply_def validate_approval_iff approve_def cold_plan_fields)
  have handler: "sv_handlers (new_service (lifecycle_handlers demo (\<lambda>_. None))) (p_action cold_plan) = Some (life_handler demo park_cold)"
    by (simp add: new_service_def lifecycle_handlers_def cold_plan_fields)
  have handles: "hd_apply (life_handler demo park_cold) = Some (apply_guarded demo park_cold)" by (simp add: life_handler_def)
  have "apply_guarded demo park_cold (plan_clone (plan_clone cold_plan)) ((), []) = (res, None, (), t)"
    using run cold_plan_ok(2) by simp
  note service_apply_ran[OF may handler handles this]
  then show ?thesis using run(2) unfolding demo_apply_def by simp
qed


end
