(* ===== verification/Spec2Isabelle.thy ===== *)
theory Spec2Isabelle
  imports LeaseDemo TaskDemo FlowDemo IgnoreMerge PortablePaths RetireServiceDemo RetireAudit RetireOrphan ParkDemo ResumeDemo LifeDemo
begin

text \<open>
  Verification of the core of \<open>dev\<close>, the development-machine command line of this repository (Go,
  under \<open>cmd/\<close> and \<open>internal/\<close>): what it does to tasks, checkouts, sessions and shared state, and the
  guards that keep it from destroying work.

  \<^bold>\<open>The program.\<close> A task is a TOML file that names a repository, a branch and perhaps a linked
  worktree; it is HOT, WARM, COLD or DONE. \<open>internal/task\<close> stores tasks with optimistic concurrency.
  \<open>internal/taskflow\<close> moves them through their lifecycle: it builds a plan from what it observes,
  the user approves that plan, and the plan is applied only if it still is the plan approved.
  \<open>internal/lease\<close> keeps claims of concurrent processes on repositories and branches.
  \<open>internal/runtime\<close> observes which terminal sessions and agents work in a checkout; \<open>internal/retire\<close>
  closes them and removes the checkout. \<open>internal/gitx\<close> reads Git, \<open>internal/pathx\<close> keeps paths inside
  their roots, \<open>internal/assessment\<close> seals reports, \<open>internal/ignore\<close> maintains a block in \<open>.gitignore\<close>.

  \<^bold>\<open>Theories and sources.\<close>
  \<^item> \<open>Prelude\<close>, \<open>GoStd\<close>, \<open>GoText\<close>: lemmas shared by all, and the parts of Go's library that the sources
    use: text and UTF-8, times, decimal printing, hexadecimal digests, association lists for maps,
    sorting, \<open>strings\<close> and \<open>path/filepath\<close> helpers.
  \<^item> \<open>Assessment\<close>: \<open>assessment/types.go\<close>. Validation, canonical order and sealing of reports.
  \<^item> \<open>LeaseTypes\<close>, \<open>LeaseAuthority\<close>, \<open>LeaseState\<close>: \<open>lease/types.go\<close> and \<open>lease/authority.go\<close>. Keys,
    requests and tokens; the closures that compute a new snapshot; locks, the state file and its
    atomic replacement. \<open>LeaseInvariant\<close>, \<open>LeaseDisk\<close>, \<open>LeaseSafety\<close>, \<open>LeaseExclusion\<close>, \<open>LeaseGuard\<close> and
    \<open>LeaseSystem\<close> hold the proofs, the last one over an inductive relation of concurrent guards and
    operations; \<open>LeaseDemo\<close> the concrete runs.
  \<^item> \<open>TaskTypes\<close>, \<open>TaskStore\<close>: \<open>task/task.go\<close> and \<open>task/store.go\<close>. The record, its identifiers and revision;
    every operation of \<open>Store\<close> and \<open>Tx\<close> on a directory. \<open>Versioned\<close> is the interface of an optimistic
    store, \<open>TaskProps\<close> proves it of the model, \<open>TaskDemo\<close> evaluates one.
  \<^item> \<open>FlowTypes\<close>, \<open>Transitions\<close>, \<open>FlowOptions\<close>, \<open>FlowPlan\<close>, \<open>FlowIdentity\<close>, \<open>FlowService\<close>: \<open>types.go\<close>,
    \<open>transitions.go\<close>, \<open>options.go\<close>, \<open>plan.go\<close>, \<open>result.go\<close>, \<open>service.go\<close> and \<open>errors.go\<close> of \<open>taskflow\<close>: conditions and
    availability, the table of transitions, options and requests, plans and what identifies them,
    approval and application. \<open>FlowDemo\<close> runs a plan.
  \<^item> \<open>Paths\<close>, \<open>PortablePaths\<close>: \<open>pathx/pathx.go\<close>. Canonical paths, containment, portable components and
    sets of paths; the first part of \<open>Paths\<close> is \<open>path/filepath\<close> on Unix.
  \<^item> \<open>Occupancy\<close>: \<open>runtime/occupancy.go\<close>, \<open>process.go\<close> and the types of \<open>runtime.go\<close>.
  \<^item> \<open>RetirePolicy\<close>, \<open>RetireClose\<close>: \<open>retire/safety.go\<close> and \<open>process.go\<close>, the inspection and \<open>CloseAndWait\<close>.
    \<open>RetireService\<close>: \<open>retire/service.go\<close>, the whole retirement, composed of \<open>CloseAndWait\<close>, the worktrees
    of \<open>GitRepo\<close> and the deletion of \<open>TaskStore\<close>. \<open>RetireAudit\<close> and \<open>RetireOrphan\<close>: \<open>audit.go\<close> and \<open>orphan.go\<close>.
    \<open>RetireDemo\<close> and \<open>RetireServiceDemo\<close> run them.
  \<^item> \<open>GitStatus\<close>, \<open>GitRepo\<close>: \<open>gitx/status.go\<close>, \<open>repo.go\<close>, \<open>worktree.go\<close>, parts of \<open>exec.go\<close> and
    \<open>transactions.go\<close>: what is read from Git's output.
  \<^item> \<open>IgnoreMerge\<close>: \<open>ignore/compose.go\<close>.

  \<^bold>\<open>What is shown.\<close> Leases: active claims never overlap unless they carry one token, operations are
  atomic and idempotent, finished operations stay finished, a fence drains the guards it excludes.
  Tasks: no update is lost, listing and lookups are complete. Transitions: the table is the
  documented lifecycle; a plan's identity binds everything but texts and times; nothing is applied
  that was not approved as it is. Paths: containment is by elements, joined and portable paths stay
  inside, and the collision trie decides collisions of all pairs. Retirement: a session is closed
  only right after a fresh inspection showed it as approved, and success means nothing was left;
  a worktree, a branch or a task is removed only after everything was proved again; the result is
  an exact account, and an interrupted retirement can be run again. Git: worktrees are read back as
  printed, statuses are counted, with one misreading. Where the code departs from its comments the
  departure is a theorem too.

  \<^bold>\<open>Abstractions.\<close> A nil and an empty slice are one value. Go maps are association lists, read by
  the first match. \<open>sort.Slice\<close> is a stable sort; where its keys may be equal the order is not used.
  Texts of errors are left out, except where the code compares them. SHA-256, JSON and TOML
  encoders, UUIDs and the Unicode tables are parameters, with injectivity or the inverse law of a
  decoder as a named hypothesis where a property needs it. Operating-system calls are answered by
  an oracle (\<open>task_os\<close>, the lease's failure predicate), so every error path is a branch; taking a lock
  is atomic. What Git, the file system and a runtime answer during one inspection or one stage is
  a fixed view (\<open>git_view\<close>, \<open>file_system\<close>, \<open>runtime_view\<close>, \<open>service_view\<close>); a sequence of inspections has a
  view for each, so that anything may change in between. The graph of submodules is a parameter.
  Epochs are 64-bit words; times are seconds, nanoseconds and a zone offset. Panics on nil pointers
  and cancellation inside a single call are not modelled. Paths are Unix paths.

  \<^bold>\<open>Bounds.\<close> \<open>canonical\<close> has the fuel \<open>fs_fuel\<close> of its file system: any measure that shrinks along parents and
  unresolvable links bounds what is needed (\<open>canonical_returns\<close>). \<open>close_and_wait\<close> has a number of rounds: it
  ends by the first round past its deadline, and one round for each session and one more suffice
  when the runtime behaves (\<open>close_returns\<close>). All other recursion is structural or has a measure.

  \<^bold>\<open>Not modelled.\<close> The command line and the terminal interfaces (presentation); the backends of the
  runtime, forges, ssh and fleet (other programs' command lines); the handlers of the other lifecycle
  actions, for which \<open>FlowService\<close> takes arbitrary hooks; repositories, catalog, hygiene and agents
  (collectors of files in other programs' formats); Windows variants. In modelled files: \<open>Decode\<close> of
  reports, \<open>GitCommonDirIdentity\<close>, icons and labels, template detection, \<open>RemoteFromConfig\<close>, \<open>AddWorktree\<close>,
  \<open>MoveWorktree\<close> and the undo of commits.
\<close>

end
